(* ===== verification/Prelude.thy ===== *)
theory Prelude
  imports Main "HOL-Library.Word"
begin

text \<open>
  The shared vocabulary of the development: Rust's \<open>Result\<close> as a sum type with the
  combinators the sources use (\<open>?\<close>, \<open>map_err\<close>, \<open>ok_or\<close>), checked machine arithmetic,
  UTF-8 byte strings, and the small list facts that the component theories share.

  A Rust \<open>String\<close> is the list of its UTF-8 bytes, so \<open>length\<close> is \<open>len()\<close>; unsigned
  machine integers are words; \<open>i128\<close> values are \<open>int\<close> with the range test written out.
\<close>

section \<open>Types\<close>

type_synonym u8 = "8 word"
type_synonym u16 = "16 word"
type_synonym u32 = "32 word"
type_synonym u64 = "64 word"
type_synonym u128 = "128 word"
type_synonym ('e, 'a) result = "'e + 'a"

named_theorems result_simps "rewriting for the result combinators"
named_theorems checked_simps "checked arithmetic, moved to natural numbers"

section \<open>Results\<close>

text \<open>\<open>try_bind r f\<close> is \<open>let x = r?; f(x)\<close>.\<close>

definition try_bind :: "('e, 'a) result \<Rightarrow> ('a \<Rightarrow> ('e, 'b) result) \<Rightarrow> ('e, 'b) result" where
  "try_bind r f = (case r of Inl e \<Rightarrow> Inl e | Inr a \<Rightarrow> f a)"

definition map_ok :: "('a \<Rightarrow> 'b) \<Rightarrow> ('e, 'a) result \<Rightarrow> ('e, 'b) result" where
  "map_ok f r = (case r of Inl e \<Rightarrow> Inl e | Inr a \<Rightarrow> Inr (f a))"

definition map_err :: "('e \<Rightarrow> 'f) \<Rightarrow> ('e, 'a) result \<Rightarrow> ('f, 'a) result" where
  "map_err g r = (case r of Inl e \<Rightarrow> Inl (g e) | Inr a \<Rightarrow> Inr a)"

definition ok_or :: "'e \<Rightarrow> 'a option \<Rightarrow> ('e, 'a) result" where
  "ok_or e x = (case x of None \<Rightarrow> Inl e | Some a \<Rightarrow> Inr a)"

definition is_ok :: "('e, 'a) result \<Rightarrow> bool" where
  "is_ok r = (case r of Inl _ \<Rightarrow> False | Inr _ \<Rightarrow> True)"

text \<open>\<open>ensure b e\<close> is \<open>if !b { return Err(e) }\<close>.\<close>

definition ensure :: "bool \<Rightarrow> 'e \<Rightarrow> ('e, unit) result" where
  "ensure b e = (if b then Inr () else Inl e)"

lemma try_bind_simps [simp, result_simps]:
  "try_bind (Inl e) f = Inl e"
  "try_bind (Inr a) f = f a"
  by (simp_all add: try_bind_def)

lemma try_bind_cong [fundef_cong]:
  "r = r' \<Longrightarrow> (\<And>a. r' = Inr a \<Longrightarrow> f a = g a) \<Longrightarrow> try_bind r f = try_bind r' g"
  by (cases r') auto

lemma map_ok_simps [simp, result_simps]:
  "map_ok f (Inl e) = Inl e"
  "map_ok f (Inr a) = Inr (f a)"
  by (simp_all add: map_ok_def)

lemma map_err_simps [simp, result_simps]:
  "map_err g (Inl e) = Inl (g e)"
  "map_err g (Inr a) = Inr a"
  by (simp_all add: map_err_def)

lemma ok_or_simps [simp, result_simps]:
  "ok_or e None = Inl e"
  "ok_or e (Some a) = Inr a"
  by (simp_all add: ok_or_def)

lemma is_ok_simps [simp, result_simps]:
  "\<not> is_ok (Inl e)"
  "is_ok (Inr a)"
  by (simp_all add: is_ok_def)

lemma ensure_simps [simp, result_simps]:
  "ensure True e = Inr ()"
  "ensure False e = Inl e"
  by (simp_all add: ensure_def)

lemma try_bind_eq_Inr [result_simps]:
  "try_bind r f = Inr b \<longleftrightarrow> (\<exists>a. r = Inr a \<and> f a = Inr b)"
  by (cases r) auto

lemma try_bind_eq_Inl [result_simps]:
  "try_bind r f = Inl e \<longleftrightarrow> r = Inl e \<or> (\<exists>a. r = Inr a \<and> f a = Inl e)"
  by (cases r) auto

text \<open>An operation that may fail, followed by another on the state it leaves.\<close>

definition and_then ::
  "('e, 'a) result \<times> 'w \<Rightarrow> ('e \<Rightarrow> 'f) \<Rightarrow> ('a \<Rightarrow> 'w \<Rightarrow> ('f, 'b) result \<times> 'w) \<Rightarrow> ('f, 'b) result \<times> 'w" where
  "and_then m wrap k = (case m of (Inl e, w) \<Rightarrow> (Inl (wrap e), w) | (Inr x, w) \<Rightarrow> k x w)"

lemma and_then_eq:
  "and_then m wrap k = (r, w') \<longleftrightarrow>
     (\<exists>e. m = (Inl e, w') \<and> r = Inl (wrap e)) \<or> (\<exists>x w1. m = (Inr x, w1) \<and> k x w1 = (r, w'))"
  by (auto simp: and_then_def split: prod.splits sum.splits)

lemma map_ok_eq_Inr [result_simps]: "map_ok f r = Inr b \<longleftrightarrow> (\<exists>a. r = Inr a \<and> b = f a)"
  by (cases r) auto

lemma map_ok_eq_Inl [result_simps]: "map_ok f r = Inl e \<longleftrightarrow> r = Inl e"
  by (cases r) auto

lemma map_err_eq_Inr [result_simps]: "map_err g r = Inr a \<longleftrightarrow> r = Inr a"
  by (cases r) auto

lemma map_err_eq_Inl [result_simps]: "map_err g r = Inl f \<longleftrightarrow> (\<exists>e. r = Inl e \<and> f = g e)"
  by (cases r) auto

lemma ok_or_eq_Inr [result_simps]: "ok_or e x = Inr a \<longleftrightarrow> x = Some a"
  by (cases x) auto

lemma ok_or_eq_Inl [result_simps]: "ok_or e x = Inl f \<longleftrightarrow> x = None \<and> f = e"
  by (cases x) auto

lemma ensure_eq_Inr [result_simps]: "ensure b e = Inr u \<longleftrightarrow> b"
  by (cases b) auto

lemma ensure_eq_Inl [result_simps]: "ensure b e = Inl f \<longleftrightarrow> \<not> b \<and> f = e"
  by (cases b) auto

lemma is_ok_iff: "is_ok r \<longleftrightarrow> (\<exists>a. r = Inr a)"
  by (cases r) auto

lemma not_is_ok_iff: "\<not> is_ok r \<longleftrightarrow> (\<exists>e. r = Inl e)"
  by (cases r) auto

section \<open>Checked machine arithmetic\<close>

text \<open>Rust's \<open>checked_add\<close>, \<open>checked_mul\<close> and \<open>checked_sub\<close> on an unsigned type.\<close>

definition checked_add :: "'w::len word \<Rightarrow> 'w word \<Rightarrow> 'w word option" where
  "checked_add a b = (if unat a + unat b < 2 ^ LENGTH('w) then Some (a + b) else None)"

definition checked_mul :: "'w::len word \<Rightarrow> 'w word \<Rightarrow> 'w word option" where
  "checked_mul a b = (if unat a * unat b < 2 ^ LENGTH('w) then Some (a * b) else None)"

definition checked_sub :: "'w::len word \<Rightarrow> 'w word \<Rightarrow> 'w word option" where
  "checked_sub a b = (if b \<le> a then Some (a - b) else None)"

definition checked_div :: "'w::len word \<Rightarrow> 'w word \<Rightarrow> 'w word option" where
  "checked_div a b = (if b = 0 then None else Some (a div b))"

definition saturating_sub :: "'w::len word \<Rightarrow> 'w word \<Rightarrow> 'w word" where
  "saturating_sub a b = (if b \<le> a then a - b else 0)"

definition saturating_add :: "'w::len word \<Rightarrow> 'w word \<Rightarrow> 'w word" where
  "saturating_add a b = (case checked_add a b of Some c \<Rightarrow> c | None \<Rightarrow> - 1)"

lemma checked_add_eq_Some [checked_simps]:
  "checked_add a b = Some c \<longleftrightarrow> unat c = unat a + unat b" for a b c :: "'w::len word"
proof
  assume "checked_add a b = Some c"
  then show "unat c = unat a + unat b"
    by (auto simp: checked_add_def unat_add_lem split: if_splits)
next
  assume eq: "unat c = unat a + unat b"
  then have lt: "unat a + unat b < 2 ^ LENGTH('w)"
    using unsigned_less [of c, where 'a = nat] by simp
  then have "unat (a + b) = unat c"
    using eq by (simp add: unat_add_lem [symmetric])
  then show "checked_add a b = Some c"
    using lt by (simp add: checked_add_def word_unat_eq_iff)
qed

lemma checked_add_eq_None [checked_simps]:
  "checked_add a b = None \<longleftrightarrow> 2 ^ LENGTH('w) \<le> unat a + unat b" for a b :: "'w::len word"
  by (auto simp: checked_add_def not_less)

lemma checked_mul_eq_Some [checked_simps]:
  "checked_mul a b = Some c \<longleftrightarrow> unat c = unat a * unat b" for a b c :: "'w::len word"
proof
  assume "checked_mul a b = Some c"
  then show "unat c = unat a * unat b"
    by (auto simp: checked_mul_def unat_mult_lem split: if_splits)
next
  assume eq: "unat c = unat a * unat b"
  then have lt: "unat a * unat b < 2 ^ LENGTH('w)"
    using unsigned_less [of c, where 'a = nat] by simp
  then have "unat (a * b) = unat c"
    using eq by (simp add: unat_mult_lem [symmetric])
  then show "checked_mul a b = Some c"
    using lt by (simp add: checked_mul_def word_unat_eq_iff)
qed

lemma checked_mul_eq_None [checked_simps]:
  "checked_mul a b = None \<longleftrightarrow> 2 ^ LENGTH('w) \<le> unat a * unat b" for a b :: "'w::len word"
  by (auto simp: checked_mul_def not_less)

lemma checked_sub_eq_Some [checked_simps]:
  "checked_sub a b = Some c \<longleftrightarrow> unat b \<le> unat a \<and> unat c = unat a - unat b"
  for a b c :: "'w::len word"
  by (auto simp: checked_sub_def unat_sub word_le_nat_alt word_unat_eq_iff split: if_splits)

lemma checked_div_eq_Some [checked_simps]:
  "checked_div a b = Some c \<longleftrightarrow> b \<noteq> 0 \<and> unat c = unat a div unat b"
  for a b c :: "'w::len word"
  by (auto simp: checked_div_def unat_div word_unat_eq_iff split: if_splits)

lemma unat_saturating_sub [checked_simps]:
  "unat (saturating_sub a b) = unat a - unat b" for a b :: "'w::len word"
  by (auto simp: saturating_sub_def unat_sub word_le_nat_alt)

lemma unat_saturating_add:
  "unat (saturating_add a b) = min (unat a + unat b) (2 ^ LENGTH('w) - 1)"
  for a b :: "'w::len word"
proof (cases "checked_add a b")
  case None
  then have "2 ^ LENGTH('w) \<le> unat a + unat b"
    by (simp add: checked_simps)
  then show ?thesis
    using None by (simp add: saturating_add_def unsigned_minus_1_eq_mask mask_eq_exp_minus_1)
next
  case (Some c)
  then have "unat c = unat a + unat b"
    by (simp add: checked_simps)
  then show ?thesis
    using Some unsigned_less [of c, where 'a = nat] by (simp add: saturating_add_def)
qed

lemma unat_of_nat_less: "n < 2 ^ LENGTH('w) \<Longrightarrow> unat (of_nat n :: 'w::len word) = n"
  by (simp add: unsigned_of_nat take_bit_nat_eq_self)

text \<open>The range of \<open>i128\<close>.\<close>

definition checked_i128 :: "int \<Rightarrow> int option" where
  "checked_i128 x = (if - (2 ^ 127) \<le> x \<and> x < 2 ^ 127 then Some x else None)"

lemma checked_i128_eq_Some:
  "checked_i128 x = Some y \<longleftrightarrow> y = x \<and> - (2 ^ 127) \<le> x \<and> x < 2 ^ 127"
  by (auto simp: checked_i128_def)

section \<open>UTF-8 strings\<close>

definition byte :: "char \<Rightarrow> nat" where
  "byte c = of_char c"

text \<open>A continuation byte, \<open>0b10xxxxxx\<close>; a string holds one scalar value per other byte.\<close>

definition is_cont :: "char \<Rightarrow> bool" where
  "is_cont c = (128 \<le> byte c \<and> byte c < 192)"

definition scalar_count :: "string \<Rightarrow> nat" where
  "scalar_count s = length (filter (\<lambda>c. \<not> is_cont c) s)"

definition contains_nul :: "string \<Rightarrow> bool" where
  "contains_nul s = (CHR 0x00 \<in> set s)"

definition is_ascii :: "char \<Rightarrow> bool" where
  "is_ascii c = (byte c < 128)"

definition is_ascii_digit :: "char \<Rightarrow> bool" where
  "is_ascii_digit c = (48 \<le> byte c \<and> byte c \<le> 57)"

definition is_ascii_alphabetic :: "char \<Rightarrow> bool" where
  "is_ascii_alphabetic c = (65 \<le> byte c \<and> byte c \<le> 90 \<or> 97 \<le> byte c \<and> byte c \<le> 122)"

definition is_ascii_alphanumeric :: "char \<Rightarrow> bool" where
  "is_ascii_alphanumeric c = (is_ascii_digit c \<or> is_ascii_alphabetic c)"

text \<open>\<open>u8::is_ascii_whitespace\<close>: space, tab, line feed, form feed, carriage return.\<close>

definition is_ascii_whitespace :: "char \<Rightarrow> bool" where
  "is_ascii_whitespace c = (byte c \<in> {32, 9, 10, 12, 13})"

definition to_ascii_lowercase :: "char \<Rightarrow> char" where
  "to_ascii_lowercase c = (if 65 \<le> byte c \<and> byte c \<le> 90 then char_of (byte c + 32) else c)"

text \<open>Well-formed UTF-8 (the standard's table of byte sequences).\<close>

fun utf8_valid :: "string \<Rightarrow> bool" where
  "utf8_valid [] = True"
| "utf8_valid (a # s) =
     (if byte a < 128 then utf8_valid s
      else (case s of
        [] \<Rightarrow> False
      | b # s1 \<Rightarrow>
          (if 194 \<le> byte a \<and> byte a \<le> 223 then is_cont b \<and> utf8_valid s1
           else (case s1 of
             [] \<Rightarrow> False
           | c # s2 \<Rightarrow>
               (if 224 \<le> byte a \<and> byte a \<le> 239
                then is_cont b \<and> is_cont c
                  \<and> (byte a = 224 \<longrightarrow> 160 \<le> byte b) \<and> (byte a = 237 \<longrightarrow> byte b < 160)
                  \<and> utf8_valid s2
                else (case s2 of
                  [] \<Rightarrow> False
                | d # s3 \<Rightarrow>
                    240 \<le> byte a \<and> byte a \<le> 244 \<and> is_cont b \<and> is_cont c \<and> is_cont d
                    \<and> (byte a = 240 \<longrightarrow> 144 \<le> byte b) \<and> (byte a = 244 \<longrightarrow> byte b < 144)
                    \<and> utf8_valid s3))))))"

text \<open>
  The number of bytes of a white-space scalar (Unicode \<open>White_Space\<close>, what \<open>str::trim\<close>
  removes) at the head of a string, 0 when there is none.
\<close>

definition ws_head :: "nat list \<Rightarrow> nat" where
  "ws_head bs =
     (case bs of
        [] \<Rightarrow> 0
      | a # r \<Rightarrow>
          (if 9 \<le> a \<and> a \<le> 13 \<or> a = 32 then 1
           else (case r of
             [] \<Rightarrow> 0
           | b # r1 \<Rightarrow>
               (if a = 194 \<and> (b = 133 \<or> b = 160) then 2
                else (case r1 of
                  [] \<Rightarrow> 0
                | c # _ \<Rightarrow>
                    (if a = 225 \<and> b = 154 \<and> c = 128
                       \<or> a = 226 \<and> b = 128 \<and> (128 \<le> c \<and> c \<le> 138 \<or> c = 168 \<or> c = 169 \<or> c = 175)
                       \<or> a = 226 \<and> b = 129 \<and> c = 159
                       \<or> a = 227 \<and> b = 128 \<and> c = 128
                     then 3 else 0))))))"

definition ws_tail :: "nat list \<Rightarrow> nat" where
  "ws_tail bs =
     (let n = length bs in
      if 0 < n \<and> ws_head (drop (n - 1) bs) = 1 then 1
      else if 1 < n \<and> ws_head (drop (n - 2) bs) = 2 then 2
      else if 2 < n \<and> ws_head (drop (n - 3) bs) = 3 then 3 else 0)"

lemma ws_head_le: "ws_head bs \<le> length bs"
  by (auto simp: ws_head_def split: list.splits)

lemma ws_tail_le: "ws_tail bs \<le> length bs"
proof -
  have "(0::nat) < n \<Longrightarrow> 1 \<le> n" and "(1::nat) < n \<Longrightarrow> 2 \<le> n" and "(2::nat) < n \<Longrightarrow> 3 \<le> n" for n
    by simp_all
  then show ?thesis by (simp only: ws_tail_def Let_def split: if_split) blast
qed

function trim_start :: "string \<Rightarrow> string" where
  "trim_start s = (let k = ws_head (map byte s) in if k = 0 then s else trim_start (drop k s))"
  by pat_completeness auto
termination
proof (relation "measure length", goal_cases)
  case 1
  then show ?case by simp
next
  case (2 s k)
  then show ?case using ws_head_le [of "map byte s"] by auto
qed

function trim_end :: "string \<Rightarrow> string" where
  "trim_end s =
     (let k = ws_tail (map byte s) in
      if k = 0 then s else trim_end (take (length s - k) s))"
  by pat_completeness auto
termination
proof (relation "measure length", goal_cases)
  case 1
  then show ?case by simp
next
  case (2 s k)
  then show ?case using ws_tail_le [of "map byte s"] by auto
qed

declare trim_start.simps [simp del] trim_end.simps [simp del]

definition trim :: "string \<Rightarrow> string" where
  "trim s = trim_end (trim_start s)"

lemma trim_id:
  "ws_head (map byte s) = 0 \<Longrightarrow> ws_tail (map byte s) = 0 \<Longrightarrow> trim s = s"
  by (simp add: trim_def trim_start.simps [of s] trim_end.simps [of s])

text \<open>Byte-wise order of texts: Rust's \<open>Ord for str\<close> and SQLite's \<open>BINARY\<close> collation.\<close>

fun text_less :: "string \<Rightarrow> string \<Rightarrow> bool" where
  "text_less [] [] = False"
| "text_less [] (y # ys) = True"
| "text_less (x # xs) [] = False"
| "text_less (x # xs) (y # ys) = (byte x < byte y \<or> byte x = byte y \<and> text_less xs ys)"

lemma byte_eq_iff [simp]: "byte x = byte y \<longleftrightarrow> x = y"
  by (simp add: byte_def)

lemma byte_less_256: "byte c < 256"
  by (simp add: byte_def)

lemma char_of_byte [simp]: "char_of (byte c) = c"
  by (simp add: byte_def)

lemma byte_char_of: "n < 256 \<Longrightarrow> byte (char_of n) = n"
  by (simp add: byte_def)

lemma text_less_irrefl: "\<not> text_less s s"
  by (induction s) auto

lemma text_less_append:
  "length xs = length ys \<Longrightarrow>
     text_less (xs @ [x]) (ys @ [y]) \<longleftrightarrow> text_less xs ys \<or> xs = ys \<and> byte x < byte y"
  by (induction xs ys rule: list_induct2) auto

lemma trim_ascii:
  assumes "s \<noteq> []" and "33 \<le> byte (hd s)" "byte (hd s) < 128"
    and "33 \<le> byte (last s)" "byte (last s) < 128"
  shows "trim s = s"
proof (rule trim_id)
  show "ws_head (map byte s) = 0"
    using assms(1-3) by (cases s) (auto simp: ws_head_def split: list.splits)
next
  obtain xs x where s: "s = xs @ [x]"
    using assms(1) by (metis rev_exhaust)
  have x: "33 \<le> byte x" "byte x < 128"
    using assms(4,5) by (simp_all add: s)
  have one: "ws_head [byte x] \<noteq> 1" and two: "ws_head [a, byte x] \<noteq> 2"
    and three: "ws_head [a, b, byte x] \<noteq> 3" for a b
    using x by (auto simp: ws_head_def)
  have "drop (length s - 1) (map byte s) = [byte x]"
    by (simp add: s)
  moreover have "\<exists>a. drop (length s - 2) (map byte s) = [a, byte x]" if "1 < length s"
    using that by (cases xs rule: rev_cases) (auto simp: s)
  moreover have "\<exists>a b. drop (length s - 3) (map byte s) = [a, b, byte x]" if len: "2 < length s"
  proof -
    from len obtain ys a b where "xs = ys @ [a, b]"
      by (cases xs rule: rev_cases; cases "butlast xs" rule: rev_cases) (auto simp: s)
    then show ?thesis by (auto simp: s)
  qed
  ultimately show "ws_tail (map byte s) = 0"
    using one two three unfolding ws_tail_def Let_def length_map by metis
qed

section \<open>Slices and panics\<close>

text \<open>
  An operation that can panic fails with \<open>Panic\<close> next to its own errors \<open>Err e\<close>.
  \<open>&s[i..j]\<close> panics unless both ends are scalar boundaries of \<open>s\<close> in range.
\<close>

datatype 'e failure = Err 'e | Panic

definition is_char_boundary :: "string \<Rightarrow> nat \<Rightarrow> bool" where
  "is_char_boundary s i = (i = 0 \<or> i = length s \<or> i < length s \<and> \<not> is_cont (s ! i))"

definition str_slice :: "string \<Rightarrow> nat \<Rightarrow> nat \<Rightarrow> ('e failure, string) result" where
  "str_slice s i j =
     (if i \<le> j \<and> j \<le> length s \<and> is_char_boundary s i \<and> is_char_boundary s j
      then Inr (take (j - i) (drop i s)) else Inl Panic)"

lemma str_slice_ok:
  "i \<le> j \<Longrightarrow> j \<le> length s \<Longrightarrow> is_char_boundary s i \<Longrightarrow> is_char_boundary s j \<Longrightarrow>
     str_slice s i j = Inr (take (j - i) (drop i s))"
  by (simp add: str_slice_def)

lemma str_slice_eq_Inr:
  "str_slice s i j = Inr t \<Longrightarrow> t = take (j - i) (drop i s) \<and> i \<le> j \<and> j \<le> length s"
  by (auto simp: str_slice_def split: if_splits)

lemma is_cont_not_ascii: "is_cont c \<Longrightarrow> \<not> is_ascii c"
  by (simp add: is_cont_def is_ascii_def)

text \<open>A text as a sequence of scalars of one to four bytes.\<close>

inductive scalars :: "string \<Rightarrow> bool" where
  nil: "scalars []"
| one: "is_ascii a \<Longrightarrow> scalars s \<Longrightarrow> scalars (a # s)"
| two: "194 \<le> byte a \<Longrightarrow> byte a \<le> 223 \<Longrightarrow> is_cont b \<Longrightarrow> scalars s \<Longrightarrow> scalars (a # b # s)"
| three: "224 \<le> byte a \<Longrightarrow> byte a \<le> 239 \<Longrightarrow> is_cont b \<Longrightarrow> is_cont c \<Longrightarrow> scalars s \<Longrightarrow>
     scalars (a # b # c # s)"
| four: "240 \<le> byte a \<Longrightarrow> is_cont b \<Longrightarrow> is_cont c \<Longrightarrow> is_cont d \<Longrightarrow> scalars s \<Longrightarrow>
     scalars (a # b # c # d # s)"

lemma utf8_scalars: "utf8_valid s \<Longrightarrow> scalars s"
proof (induction s rule: utf8_valid.induct)
  case 1
  show ?case by (rule scalars.nil)
next
  case (2 a s)
  consider "byte a < 128" | b s1 where "\<not> byte a < 128" "s = b # s1"
    using "2.prems" by (cases s) (auto split: if_splits)
  then show ?case
  proof cases
    case 1
    with 2 show ?thesis by (simp add: scalars.one is_ascii_def)
  next
    case 2
    note s = this
    consider "194 \<le> byte a \<and> byte a \<le> 223"
      | c s2 where "\<not> (194 \<le> byte a \<and> byte a \<le> 223)" "s1 = c # s2"
      using "2.prems" s by (cases s1) (auto split: if_splits)
    then show ?thesis
    proof cases
      case 1
      with "2.prems" "2.IH"(2) s show ?thesis by (simp add: scalars.two)
    next
      case 2
      note s1 = this
      consider "224 \<le> byte a \<and> byte a \<le> 239"
        | d s3 where "\<not> (224 \<le> byte a \<and> byte a \<le> 239)" "s2 = d # s3"
        using "2.prems" s s1 by (cases s2) (auto split: if_splits)
      then show ?thesis
        using "2.prems" "2.IH"(3,4) s s1 by cases (simp_all add: scalars.three scalars.four)
    qed
  qed
qed

lemma scalars_head: "scalars (c # s) \<Longrightarrow> \<not> is_cont c"
  by (erule scalars.cases) (auto simp: is_cont_def is_ascii_def)

text \<open>The byte after an ASCII byte starts a scalar.\<close>

lemma scalars_after_ascii:
  "scalars s \<Longrightarrow> Suc i < length s \<Longrightarrow> is_ascii (s ! i) \<Longrightarrow> \<not> is_cont (s ! Suc i)"
proof (induction arbitrary: i rule: scalars.induct)
  case nil
  then show ?case by simp
next
  case (one a s)
  then show ?case
    by (cases i; cases s) (auto dest: scalars_head)
next
  case (two a b s)
  then have "\<not> is_ascii a" "\<not> is_ascii b"
    by (auto simp: is_ascii_def is_cont_def)
  with two show ?case
    by (cases i; cases "i - 1") auto
next
  case (three a b c s)
  then have "\<not> is_ascii a" "\<not> is_ascii b" "\<not> is_ascii c"
    by (auto simp: is_ascii_def is_cont_def)
  with three show ?case
    by (cases i; cases "i - 1"; cases "i - 2") auto
next
  case (four a b c d s)
  then have "\<not> is_ascii a" "\<not> is_ascii b" "\<not> is_ascii c" "\<not> is_ascii d"
    by (auto simp: is_ascii_def is_cont_def)
  with four show ?case
    by (cases i; cases "i - 1"; cases "i - 2"; cases "i - 3") auto
qed

lemma scalars_prefix:
  "scalars t \<Longrightarrow> t = xs @ ys \<Longrightarrow> ys \<noteq> [] \<Longrightarrow> \<not> is_cont (hd ys) \<Longrightarrow> scalars xs"
proof (induction arbitrary: xs rule: scalars.induct)
  case nil
  then show ?case by simp
next
  case (one a s)
  then show ?case
    by (cases xs) (auto intro: scalars.intros)
next
  case (two a b s)
  then show ?case
    by (cases xs; cases "tl xs") (auto intro: scalars.intros)
next
  case (three a b c s)
  then show ?case
    by (cases xs; cases "tl xs"; cases "tl (tl xs)") (auto intro: scalars.intros)
next
  case (four a b c d s)
  then show ?case
    by (cases xs; cases "tl xs"; cases "tl (tl xs)"; cases "tl (tl (tl xs))")
      (auto intro: scalars.intros)
qed

lemma scalars_suffix:
  "scalars t \<Longrightarrow> t = xs @ x # ys \<Longrightarrow> is_ascii x \<Longrightarrow> scalars ys"
proof (induction arbitrary: xs rule: scalars.induct)
  case nil
  then show ?case by simp
next
  case (one a s)
  then show ?case by (cases xs) auto
next
  case (two a b s)
  then have "\<not> is_ascii a" "\<not> is_ascii b"
    by (auto simp: is_ascii_def is_cont_def)
  with two show ?case by (cases xs; cases "tl xs") auto
next
  case (three a b c s)
  then have "\<not> is_ascii a" "\<not> is_ascii b" "\<not> is_ascii c"
    by (auto simp: is_ascii_def is_cont_def)
  with three show ?case by (cases xs; cases "tl xs"; cases "tl (tl xs)") auto
next
  case (four a b c d s)
  then have "\<not> is_ascii a" "\<not> is_ascii b" "\<not> is_ascii c" "\<not> is_ascii d"
    by (auto simp: is_ascii_def is_cont_def)
  with four show ?case
    by (cases xs; cases "tl xs"; cases "tl (tl xs)"; cases "tl (tl (tl xs))") auto
qed

lemma scalars_drop_ws:
  assumes "scalars s"
  shows "scalars (drop (ws_head (map byte s)) s)"
  using assms
proof cases
  case (one a s')
  then have "ws_head (map byte s) = 0 \<or> ws_head (map byte s) = 1"
    by (auto simp: ws_head_def is_ascii_def split: list.splits)
  with one assms show ?thesis by auto
next
  case (two a b s')
  then have "ws_head (map byte s) = 0 \<or> ws_head (map byte s) = 2"
    by (auto simp: ws_head_def split: list.splits)
  with two assms show ?thesis by auto
next
  case (three a b c s')
  then have "ws_head (map byte s) = 0 \<or> ws_head (map byte s) = 3"
    by (auto simp: ws_head_def)
  with three assms show ?thesis by auto
next
  case (four a b c d s')
  then have "ws_head (map byte s) = 0"
    by (auto simp: ws_head_def)
  with assms show ?thesis by simp
qed (simp add: scalars.nil)

lemma scalars_trim_start: "scalars s \<Longrightarrow> scalars (trim_start s)"
proof (induction s rule: trim_start.induct)
  case (1 s)
  then show ?case
    using scalars_drop_ws [of s] by (auto simp: trim_start.simps [of s] Let_def)
qed

lemma ws_head_start: "ws_head (map byte t) = k \<Longrightarrow> 0 < k \<Longrightarrow> t \<noteq> [] \<and> \<not> is_cont (hd t)"
  by (cases t) (auto simp: ws_head_def is_cont_def split: list.splits if_splits)

lemma ws_tail_start:
  assumes "ws_tail (map byte s) = k" "0 < k"
  shows "\<exists>t. s = take (length s - k) s @ t \<and> t \<noteq> [] \<and> \<not> is_cont (hd t)"
proof -
  have "ws_head (map byte (drop (length s - k) s)) = k"
    using assms by (auto simp: ws_tail_def Let_def drop_map split: if_splits)
  from ws_head_start [OF this assms(2)] show ?thesis
    by (intro exI [of _ "drop (length s - k) s"]) simp
qed

lemma scalars_trim_end: "scalars s \<Longrightarrow> scalars (trim_end s)"
proof (induction s rule: trim_end.induct)
  case (1 s)
  show ?case
  proof (cases "ws_tail (map byte s) = 0")
    case True
    with 1 show ?thesis by (simp add: trim_end.simps [of s])
  next
    case False
    then obtain t where "s = take (length s - ws_tail (map byte s)) s @ t" "t \<noteq> []"
        "\<not> is_cont (hd t)"
      using ws_tail_start [OF refl] by blast
    then have "scalars (take (length s - ws_tail (map byte s)) s)"
      using "1.prems" scalars_prefix by metis
    with False 1 show ?thesis
      by (subst trim_end.simps) (simp add: Let_def)
  qed
qed

lemma scalars_trim: "scalars s \<Longrightarrow> scalars (trim s)"
  by (simp add: trim_def scalars_trim_start scalars_trim_end)

section \<open>Decimal numbers\<close>

definition digit_val :: "char \<Rightarrow> nat" where
  "digit_val c = byte c - 48"

definition decimal_value :: "string \<Rightarrow> nat" where
  "decimal_value s = foldl (\<lambda>n c. 10 * n + digit_val c) 0 s"

fun show_nat :: "nat \<Rightarrow> string" where
  "show_nat n =
     (if n < 10 then [char_of (48 + n)] else show_nat (n div 10) @ [char_of (48 + n mod 10)])"

declare show_nat.simps [simp del]

lemma decimal_value_snoc [simp]: "decimal_value (s @ [c]) = 10 * decimal_value s + digit_val c"
  by (simp add: decimal_value_def)

lemma decimal_value_less:
  "\<forall>c \<in> set s. is_ascii_digit c \<Longrightarrow> decimal_value s < 10 ^ length s"
proof (induction s rule: rev_induct)
  case Nil
  then show ?case by (simp add: decimal_value_def)
next
  case (snoc c s)
  then have "digit_val c \<le> 9"
    by (auto simp: digit_val_def is_ascii_digit_def)
  with snoc show ?case by simp
qed

lemma digit_val_char_of: "k < 10 \<Longrightarrow> digit_val (char_of (48 + k)) = k"
  by (simp add: digit_val_def byte_char_of)

lemma is_ascii_digit_char_of: "k < 10 \<Longrightarrow> is_ascii_digit (char_of (48 + k))" for k :: nat
  by (simp add: is_ascii_digit_def byte_char_of)

lemma decimal_value_show_nat [simp]: "decimal_value (show_nat n) = n"
proof (induction n rule: show_nat.induct)
  case (1 n)
  show ?case
  proof (cases "n < 10")
    case True
    then show ?thesis
      by (simp add: show_nat.simps [of n] decimal_value_def digit_val_char_of)
  next
    case False
    with 1 show ?thesis
      by (subst show_nat.simps) (simp add: digit_val_char_of)
  qed
qed

lemma show_nat_inject: "show_nat m = show_nat n \<longleftrightarrow> m = n"
  by (metis decimal_value_show_nat)

lemma show_nat_digits: "c \<in> set (show_nat n) \<Longrightarrow> is_ascii_digit c"
proof (induction n rule: show_nat.induct)
  case (1 n)
  then show ?case
    by (cases "n < 10") (auto simp: show_nat.simps [of n] is_ascii_digit_char_of)
qed

lemma show_nat_nonempty [simp]: "show_nat n \<noteq> []"
  by (subst show_nat.simps) simp

text \<open>\<open>str::parse\<close> for an unsigned type: an optional plus sign, at least one digit, no overflow.\<close>

definition parse_unsigned :: "string \<Rightarrow> 'w::len word option" where
  "parse_unsigned value =
     (let ds = (if value \<noteq> [] \<and> hd value = CHR ''+'' then tl value else value)
      in if ds = [] \<or> \<not> list_all is_ascii_digit ds \<or> 2 ^ LENGTH('w) \<le> decimal_value ds then None
         else Some (of_nat (decimal_value ds)))"

lemma show_nat_ends: "is_ascii_digit (hd (show_nat n))" "is_ascii_digit (last (show_nat n))"
  using show_nat_digits [of _ n] by simp_all

lemma parse_unsigned_show: "n < 2 ^ LENGTH('w) \<Longrightarrow> parse_unsigned (show_nat n) = Some (of_nat n :: 'w::len word)"
proof -
  assume "n < 2 ^ LENGTH('w)"
  moreover have "hd (show_nat n) \<noteq> CHR ''+''"
    using show_nat_ends(1) [of n] by (auto simp: is_ascii_digit_def byte_def)
  ultimately show ?thesis
    using show_nat_digits [of _ n] by (auto simp: parse_unsigned_def list_all_iff)
qed

end
