(* ===== verification/Capture.thy ===== *)
theory Capture
  imports Prelude
begin

text \<open>
  Bounded capture of a command's output (\<open>src/run_monitor/capture.rs\<close>).

  A reader is the list of the results of its successive reads; it ends at the first empty chunk,
  at an error or with the list.  A writer is given by the result of its \<open>k\<close>-th \<open>write\<close> on the
  bytes it is offered and by the result of the final \<open>flush\<close>; by its contract it accepts at most
  the bytes it is offered.  What was accepted is collected as the contents of the log.
\<close>

section \<open>Budget\<close>

record CaptureBudget =
  cb_cap :: u64
  cb_written :: u64
  cb_discarded :: u64

datatype CaptureBudgetError = CaptureBudgetError

datatype CaptureError = InvalidCap | ThreadPanicked

definition CaptureBudget_new :: "u64 \<Rightarrow> (CaptureBudgetError, CaptureBudget) result" where
  "CaptureBudget_new cap =
     (if cap = 0 then Inl CaptureBudgetError else Inr \<lparr> cb_cap = cap, cb_written = 0, cb_discarded = 0 \<rparr>)"

definition remaining :: "CaptureBudget \<Rightarrow> u64" where
  "remaining budget = saturating_sub (cb_cap budget) (cb_written budget)"

definition record_chunk :: "u64 \<Rightarrow> u64 \<Rightarrow> CaptureBudget \<Rightarrow> CaptureBudget" where
  "record_chunk written consumed budget =
     budget\<lparr> cb_written := saturating_add (cb_written budget) written,
             cb_discarded := saturating_add (cb_discarded budget) (saturating_sub consumed written) \<rparr>"

record StreamCaptureSummary =
  ss_written :: u64
  ss_discarded :: u64

definition truncated :: "StreamCaptureSummary \<Rightarrow> bool" where
  "truncated s = (ss_discarded s > 0)"

section \<open>Streams\<close>

record writer =
  on_write :: "nat \<Rightarrow> u8 list \<Rightarrow> (string, nat) result"
  on_flush :: "string option"

record CapturedStream =
  cs_contents :: "u8 list"
  cs_summary :: StreamCaptureSummary
  cs_error :: "string option"

text \<open>The inner loop: the error that stopped it, the bytes accepted and the number of calls made.\<close>

function write_allowed :: "writer \<Rightarrow> nat \<Rightarrow> u8 list \<Rightarrow> string option \<times> u8 list \<times> nat" where
  "write_allowed w k buffer =
     (if buffer = [] then (None, [], k)
      else case on_write w k buffer of
        Inl e \<Rightarrow> (Some e, [], Suc k)
      | Inr n \<Rightarrow>
          if n = 0 then (Some ''write zero'', [], Suc k)
          else (let count = min n (length buffer);
                    (e, out, k') = write_allowed w (Suc k) (drop count buffer)
                in (e, take count buffer @ out, k')))"
  by pat_completeness auto
termination
  by (relation "measure (\<lambda>(w, k, buffer). length buffer)") auto

fun drain_loop ::
  "writer \<Rightarrow> nat \<Rightarrow> (string, u8 list) result list \<Rightarrow> CaptureBudget \<Rightarrow> string option \<Rightarrow> u8 list \<Rightarrow>
     CaptureBudget \<times> string option \<times> u8 list" where
  "drain_loop w k [] budget first_error log = (budget, first_error, log)"
| "drain_loop w k (Inl e # reads) budget first_error log = (budget, Some e, log)"
| "drain_loop w k (Inr chunk # reads) budget first_error log =
     (if chunk = [] then (budget, first_error, log)
      else
        (let read = of_nat (length chunk);
             allowed = (if first_error = None then min (remaining budget) read else 0);
             (e, out, k') = write_allowed w k (take (unat allowed) chunk);
             first_error = (case e of None \<Rightarrow> first_error | Some e \<Rightarrow> Some e)
         in drain_loop w k' reads (record_chunk (of_nat (length out)) read budget) first_error (log @ out)))"

definition drain_stream :: "(string, u8 list) result list \<Rightarrow> writer \<Rightarrow> CaptureBudget \<Rightarrow> CapturedStream" where
  "drain_stream reads w budget =
     (let (budget, first_error, log) = drain_loop w 0 reads budget None [];
          first_error = (if first_error = None then on_flush w else first_error)
      in \<lparr> cs_contents = log,
           cs_summary = \<lparr> ss_written = cb_written budget, ss_discarded = cb_discarded budget \<rparr>,
           cs_error = first_error \<rparr>)"

text \<open>The two streams are drained by two threads that share nothing.\<close>

record CapturedStreams =
  cap_stdout :: CapturedStream
  cap_stderr :: CapturedStream

definition capture_streams ::
  "(string, u8 list) result list \<Rightarrow> (string, u8 list) result list \<Rightarrow> writer \<Rightarrow> writer \<Rightarrow> u64 \<Rightarrow>
     (CaptureError, CapturedStreams) result" where
  "capture_streams stdout stderr stdout_writer stderr_writer cap =
     try_bind (map_err (\<lambda>_. InvalidCap) (CaptureBudget_new cap)) (\<lambda>stdout_budget.
     try_bind (map_err (\<lambda>_. InvalidCap) (CaptureBudget_new cap)) (\<lambda>stderr_budget.
     Inr \<lparr> cap_stdout = drain_stream stdout stdout_writer stdout_budget,
           cap_stderr = drain_stream stderr stderr_writer stderr_budget \<rparr>))"

section \<open>What a drain does\<close>

text \<open>The bytes a reader delivers before it ends.\<close>

fun delivered :: "(string, u8 list) result list \<Rightarrow> u8 list" where
  "delivered [] = []"
| "delivered (Inl e # reads) = []"
| "delivered (Inr chunk # reads) = (if chunk = [] then [] else chunk @ delivered reads)"

declare write_allowed.simps [simp del]

lemma write_allowed_prefix:
  assumes "write_allowed w k buffer = (e, out, k')"
  shows "(\<exists>rest. buffer = out @ rest) \<and> (e = None \<longrightarrow> out = buffer)"
  using assms
proof (induction w k buffer arbitrary: e out k' rule: write_allowed.induct)
  case (1 w k buffer)
  show ?case
  proof (cases "buffer = [] \<or> (\<forall>n. on_write w k buffer = Inr n \<longrightarrow> n = 0)")
    case True
    then show ?thesis
      using 1(2) by (subst (asm) write_allowed.simps) (auto split: sum.splits if_splits)
  next
    case False
    then obtain n where n: "on_write w k buffer = Inr n" "n \<noteq> 0" "buffer \<noteq> []" by blast
    obtain e' out' k'' where r: "write_allowed w (Suc k) (drop (min n (length buffer)) buffer) = (e', out', k'')"
      by (cases "write_allowed w (Suc k) (drop (min n (length buffer)) buffer)") auto
    have eq: "e = e'" "out = take (min n (length buffer)) buffer @ out'"
      using 1(2) n r by (subst (asm) write_allowed.simps, simp add: Let_def)+
    obtain rest where "drop (min n (length buffer)) buffer = out' @ rest" "e' = None \<longrightarrow> out' = drop (min n (length buffer)) buffer"
      using 1(1) [OF n(3,1,2) refl r] by blast
    then show ?thesis
      unfolding eq by (metis append.assoc append_take_drop_id)
  qed
qed

text \<open>The state of a drain that has consumed the bytes \<open>seen\<close>.\<close>

definition drained :: "CaptureBudget \<Rightarrow> string option \<Rightarrow> u8 list \<Rightarrow> u8 list \<Rightarrow> bool" where
  "drained budget err log seen =
     (unat (cb_written budget) = length log \<and> length log \<le> unat (cb_cap budget)
      \<and> unat (cb_written budget) + unat (cb_discarded budget) = length seen
      \<and> (\<exists>rest. seen = log @ rest) \<and> (err = None \<longrightarrow> log = take (unat (cb_cap budget)) seen))"

lemma record_chunk_fields:
  assumes "unat (cb_written budget) + unat (cb_discarded budget) + n < 2 ^ 64" "m \<le> n"
  shows "cb_cap (record_chunk (of_nat m) (of_nat n) budget) = cb_cap budget"
    "unat (cb_written (record_chunk (of_nat m) (of_nat n) budget)) = unat (cb_written budget) + m"
    "unat (cb_discarded (record_chunk (of_nat m) (of_nat n) budget)) = unat (cb_discarded budget) + (n - m)"
proof -
  have u: "unat (of_nat m :: u64) = m" "unat (of_nat n :: u64) = n"
    using assms by (simp_all add: unat_of_nat)
  show "cb_cap (record_chunk (of_nat m) (of_nat n) budget) = cb_cap budget"
    by (simp add: record_chunk_def)
  show "unat (cb_written (record_chunk (of_nat m) (of_nat n) budget)) = unat (cb_written budget) + m"
    "unat (cb_discarded (record_chunk (of_nat m) (of_nat n) budget)) = unat (cb_discarded budget) + (n - m)"
    using assms u by (simp_all add: record_chunk_def unat_saturating_add unat_saturating_sub)
qed

lemma drained_chunk:
  assumes "drained budget err log seen" "length (seen @ chunk) < 2 ^ 64"
    and "allowed = (if err = None then min (remaining budget) (of_nat (length chunk)) else 0)"
    and "write_allowed w k (take (unat allowed) chunk) = (e, out, k')"
  shows "drained (record_chunk (of_nat (length out)) (of_nat (length chunk)) budget)
    (case e of None \<Rightarrow> err | Some e \<Rightarrow> Some e) (log @ out) (seen @ chunk)"
proof -
  have uc: "unat (of_nat (length chunk) :: u64) = length chunk"
    using assms(2) by (simp add: unat_of_nat)
  have d: "unat (cb_written budget) = length log" "length log \<le> unat (cb_cap budget)"
    "unat (cb_written budget) + unat (cb_discarded budget) = length seen"
    using assms(1) by (simp_all add: drained_def)
  have al: "unat allowed = (if err = None then min (unat (cb_cap budget) - length log) (length chunk) else 0)"
    using assms(3) d uc by (simp add: remaining_def unat_saturating_sub min_def word_le_nat_alt)
  obtain rest where out: "take (unat allowed) chunk = out @ rest" "e = None \<longrightarrow> out = take (unat allowed) chunk"
    using write_allowed_prefix [OF assms(4)] by blast
  then have lo: "length out \<le> length chunk" "length out \<le> unat allowed"
    by (metis append_eq_conv_conj length_take min.bounded_iff nat_le_linear take_all_iff)+
  note f = record_chunk_fields [of budget "length chunk" "length out", OF _ lo(1)]
  obtain tail where seen: "seen = log @ tail"
    using assms(1) by (auto simp: drained_def)
  have full: "log = seen" if "out \<noteq> []"
  proof -
    have "0 < unat allowed" using that lo(2) by (cases out) auto
    then have "err = None" "length log < unat (cb_cap budget)" using al by (auto split: if_splits)
    then show ?thesis using assms(1) by (auto simp: drained_def)
  qed
  have pre: "\<exists>rest. seen @ chunk = (log @ out) @ rest"
  proof (cases "out = []")
    case True
    with seen show ?thesis by simp
  next
    case False
    have "chunk = out @ rest @ drop (unat allowed) chunk"
      using out(1) by (metis append.assoc append_take_drop_id)
    with full [OF False] show ?thesis by (metis append.assoc)
  qed
  have len: "length (log @ out) \<le> unat (cb_cap budget)"
    using al lo(2) d(2) by (auto split: if_splits)
  have "log @ out = take (unat (cb_cap budget)) (seen @ chunk)" if n: "e = None" "err = None"
  proof (cases "length seen \<le> unat (cb_cap budget)")
    case True
    then have "log = seen" using assms(1) n(2) by (simp add: drained_def)
    with True out(2) n al show ?thesis by (simp add: min_def)
  next
    case False
    then have "log = take (unat (cb_cap budget)) seen" "length log = unat (cb_cap budget)"
      using assms(1) n(2) by (auto simp: drained_def)
    with False out(2) n al show ?thesis by simp
  qed
  then show ?thesis
    using f d assms(2) pre len lo(1) by (auto simp: drained_def split: option.splits)
qed

lemma drain_loop_drained:
  assumes "drain_loop w k reads budget err log = (budget', err', log')" "drained budget err log seen"
    and "length (seen @ delivered reads) < 2 ^ 64"
  shows "drained budget' err' log' (seen @ delivered reads) \<and> cb_cap budget' = cb_cap budget"
  using assms
proof (induction w k reads budget err log arbitrary: seen rule: drain_loop.induct)
  case (3 w k chunk reads budget err log)
  show ?case
  proof (cases "chunk = []")
    case True
    with 3(2,3) show ?thesis by simp
  next
    case False
    let ?allowed = "if err = None then min (remaining budget) (of_nat (length chunk)) else 0"
    obtain e out k' where w: "write_allowed w k (take (unat ?allowed) chunk) = (e, out, k')"
      by (cases "write_allowed w k (take (unat ?allowed) chunk)") auto
    have l: "drain_loop w k' reads (record_chunk (of_nat (length out)) (of_nat (length chunk)) budget)
        (case e of None \<Rightarrow> err | Some e \<Rightarrow> Some e) (log @ out) = (budget', err', log')"
      using 3(2) False w by (simp add: Let_def)
    have "drained (record_chunk (of_nat (length out)) (of_nat (length chunk)) budget)
        (case e of None \<Rightarrow> err | Some e \<Rightarrow> Some e) (log @ out) (seen @ chunk)"
      by (rule drained_chunk [OF 3(3) _ refl w]) (use 3(4) False in auto)
    from 3(1) [OF False refl refl refl w [symmetric] refl refl l this] show ?thesis
      using 3(4) False by (simp add: record_chunk_def)
  qed
qed (auto simp: drained_def)

text \<open>Whether a read fails before the stream ends.\<close>

fun read_failed :: "(string, u8 list) result list \<Rightarrow> bool" where
  "read_failed [] = False"
| "read_failed (Inl e # reads) = True"
| "read_failed (Inr chunk # reads) = (chunk \<noteq> [] \<and> read_failed reads)"

lemma drain_loop_error:
  "drain_loop w k reads budget first_error log = (budget', err, log') \<Longrightarrow> read_failed reads \<or> first_error \<noteq> None \<Longrightarrow> err \<noteq> None"
proof (induction reads arbitrary: k budget first_error log)
  case (Cons r reads)
  show ?case
  proof (cases r)
    case (Inr chunk)
    obtain e out k' where w: "write_allowed w k (take (unat (if first_error = None then min (remaining budget) (of_nat (length chunk)) else 0)) chunk) = (e, out, k')"
      by (rule prod_cases3)
    have "err \<noteq> None" if "chunk \<noteq> []"
      by (rule Cons.IH [of k' "record_chunk (of_nat (length out)) (of_nat (length chunk)) budget"
            "case e of None \<Rightarrow> first_error | Some e \<Rightarrow> Some e" "log @ out"])
        (use Cons.prems Inr w that in \<open>simp_all add: Let_def split: option.splits\<close>)
    with Cons.prems Inr show ?thesis by (cases "chunk = []") simp_all
  qed (use Cons.prems in auto)
qed simp

text \<open>What is promised of one captured stream.\<close>

lemma drained_stream_faithful:
  fixes reads w cap
  defines "s \<equiv> drain_stream reads w \<lparr> cb_cap = cap, cb_written = 0, cb_discarded = 0 \<rparr>"
  assumes "length (delivered reads) < 2 ^ 64"
  shows "\<exists>rest. delivered reads = cs_contents s @ rest"
    and "length (cs_contents s) \<le> unat cap"
    and "unat (ss_written (cs_summary s)) = length (cs_contents s)"
    and "unat (ss_discarded (cs_summary s)) + length (cs_contents s) = length (delivered reads)"
    and "truncated (cs_summary s) \<longleftrightarrow> cs_contents s \<noteq> delivered reads"
    and "cs_error s = None \<Longrightarrow> cs_contents s = take (unat cap) (delivered reads) \<and> \<not> read_failed reads"
proof -
  let ?budget = "\<lparr> cb_cap = cap, cb_written = 0, cb_discarded = 0 \<rparr>"
  obtain budget err log where d: "drain_loop w 0 reads ?budget None [] = (budget, err, log)"
    by (cases "drain_loop w 0 reads ?budget None []") auto
  have c: "s = \<lparr> cs_contents = log,
      cs_summary = \<lparr> ss_written = cb_written budget, ss_discarded = cb_discarded budget \<rparr>,
      cs_error = (if err = None then on_flush w else err) \<rparr>"
    using d by (simp add: s_def drain_stream_def)
  have init: "drained ?budget None [] []"
    by (simp add: drained_def)
  have "drained budget err log (delivered reads)" "cb_cap budget = cap"
    using drain_loop_drained [OF d init] assms(2) by simp_all
  then have dr: "unat (cb_written budget) = length log" "length log \<le> unat cap"
    "unat (cb_written budget) + unat (cb_discarded budget) = length (delivered reads)"
    "\<exists>rest. delivered reads = log @ rest" "err = None \<longrightarrow> log = take (unat cap) (delivered reads)"
    by (auto simp: drained_def)
  show "\<exists>rest. delivered reads = cs_contents s @ rest" "length (cs_contents s) \<le> unat cap"
    "unat (ss_written (cs_summary s)) = length (cs_contents s)"
    "unat (ss_discarded (cs_summary s)) + length (cs_contents s) = length (delivered reads)"
    using dr by (simp_all add: c)
  have "0 < cb_discarded budget \<longleftrightarrow> log \<noteq> delivered reads"
    using dr(1,3,4) by (auto simp: word_neq_0_conv [symmetric] unat_eq_0 [symmetric] simp del: unat_eq_0)
  then show "truncated (cs_summary s) \<longleftrightarrow> cs_contents s \<noteq> delivered reads"
    by (simp add: c truncated_def)
  show "cs_contents s = take (unat cap) (delivered reads) \<and> \<not> read_failed reads" if "cs_error s = None"
    using that dr(5) drain_loop_error [OF d] by (auto simp: c split: if_splits)
qed

text \<open>
  C24. Captured output is a bounded, honest prefix, on both streams.  Whatever the command writes and
  whatever a log file refuses, each of the two logs holds a prefix of what was read from its stream
  and never more than the cap; its summary counts the bytes kept and lost exactly, so the stream is
  marked as truncated exactly when something is missing; and a stream for which no error is reported
  was read to its end and is logged in full up to the cap.
\<close>

theorem capture_bounded_prefix:
  assumes "capture_streams stdout stderr w1 w2 cap = Inr captured"
    and "length (delivered stdout) < 2 ^ 64" "length (delivered stderr) < 2 ^ 64"
  shows "\<forall>(reads, s) \<in> {(stdout, cap_stdout captured), (stderr, cap_stderr captured)}.
    (\<exists>rest. delivered reads = cs_contents s @ rest)
    \<and> length (cs_contents s) \<le> unat cap
    \<and> unat (ss_written (cs_summary s)) = length (cs_contents s)
    \<and> unat (ss_discarded (cs_summary s)) + length (cs_contents s) = length (delivered reads)
    \<and> (truncated (cs_summary s) \<longleftrightarrow> cs_contents s \<noteq> delivered reads)
    \<and> (cs_error s = None \<longrightarrow> cs_contents s = take (unat cap) (delivered reads) \<and> \<not> read_failed reads)"
proof -
  let ?budget = "\<lparr> cb_cap = cap, cb_written = 0, cb_discarded = 0 \<rparr>"
  have "cap_stdout captured = drain_stream stdout w1 ?budget" "cap_stderr captured = drain_stream stderr w2 ?budget"
    using assms(1) by (auto simp: capture_streams_def CaptureBudget_new_def result_simps split: if_splits)
  then show ?thesis
    using drained_stream_faithful [of stdout w1 cap] drained_stream_faithful [of stderr w2 cap] assms(2,3) by simp
qed

theorem capture_bounded_prefix_witness:
  "\<exists>captured. capture_streams [Inr [1, 2], Inr [3, 4]] [Inr [5]] \<lparr> on_write = \<lambda>_ b. Inr (length b), on_flush = None \<rparr>
       \<lparr> on_write = \<lambda>_ _. Inl ''broken'', on_flush = None \<rparr> 3 = Inr captured
     \<and> length (cs_contents (cap_stdout captured)) \<le> 3 \<and> length (cs_contents (cap_stderr captured)) \<le> 3"
proof -
  have "\<exists>captured. capture_streams [Inr [1, 2], Inr [3, 4]] [Inr [5]] \<lparr> on_write = \<lambda>_ b. Inr (length b), on_flush = None \<rparr>
       \<lparr> on_write = \<lambda>_ _. Inl ''broken'', on_flush = None \<rparr> 3 = Inr captured"
    by (simp add: capture_streams_def CaptureBudget_new_def)
  then obtain captured where c: "capture_streams [Inr [1, 2], Inr [3, 4]] [Inr [5]] \<lparr> on_write = \<lambda>_ b. Inr (length b), on_flush = None \<rparr>
       \<lparr> on_write = \<lambda>_ _. Inl ''broken'', on_flush = None \<rparr> 3 = Inr captured" by blast
  from capture_bounded_prefix [OF c] c show ?thesis by simp
qed

end
