(* ===== verification/Primitives.thy ===== *)
theory Primitives
  imports Prelude
begin

text \<open>
  The validated values of \<open>src/domain/primitives.rs\<close>: names and descriptions, the non-zero
  counters \<open>Revision\<close> and \<open>Sequence\<close>, and timestamps.

  A \<open>UtcTimestamp\<close> wraps a \<open>jiff::Timestamp\<close>, a count of nanoseconds since the Unix epoch
  within a range the library fixes.  The count is the model's value; the library's range
  checks and its text form are parameters of the definitions that use them.
\<close>

section \<open>Errors and text\<close>

datatype PrimitiveError =
    ContainsNul string
  | TooLong string nat
  | Zero string
  | Overflow string
  | TimestampRange

definition validate_text :: "string \<Rightarrow> string \<Rightarrow> nat \<Rightarrow> (PrimitiveError, string) result" where
  "validate_text value field maximum =
     (if contains_nul value then Inl (ContainsNul field)
      else if maximum < scalar_count value then Inl (TooLong field maximum)
      else Inr value)"

datatype Name = Name (name_str: string)
datatype Description = Description (description_str: string)

definition Name_new :: "string \<Rightarrow> (PrimitiveError, Name) result" where
  "Name_new value = map_ok Name (validate_text value ''name'' 256)"

definition Description_new :: "string \<Rightarrow> (PrimitiveError, Description) result" where
  "Description_new value = map_ok Description (validate_text value ''description'' 4096)"

section \<open>Non-zero counters\<close>

datatype Revision = Revision (revision_get: u64)
datatype Sequence = Sequence (sequence_get: u64)

definition Revision_new :: "u64 \<Rightarrow> (PrimitiveError, Revision) result" where
  "Revision_new value = (if value = 0 then Inl (Zero ''revision'') else Inr (Revision value))"

definition Sequence_new :: "u64 \<Rightarrow> (PrimitiveError, Sequence) result" where
  "Sequence_new value = (if value = 0 then Inl (Zero ''sequence'') else Inr (Sequence value))"

definition Revision_next :: "Revision \<Rightarrow> (PrimitiveError, Revision) result" where
  "Revision_next r =
     try_bind (ok_or (Overflow ''revision'') (checked_add (revision_get r) 1)) Revision_new"

section \<open>Timestamps\<close>

type_synonym UtcTimestamp = int

text \<open>
  \<open>Timestamp::new(second, 0)\<close>, \<open>from_nanosecond\<close>, \<open>checked_add\<close> and \<open>checked_sub\<close> accept a
  value or report that it is out of range.  \<open>accepts\<close> is that test of the library.
\<close>

definition from_second :: "(int \<Rightarrow> bool) \<Rightarrow> int \<Rightarrow> (PrimitiveError, UtcTimestamp) result" where
  "from_second accepts second =
     (if accepts (second * 1000000000) then Inr (second * 1000000000) else Inl TimestampRange)"

definition timestamp_from_str ::
  "(string \<Rightarrow> UtcTimestamp option) \<Rightarrow> string \<Rightarrow> (PrimitiveError, UtcTimestamp) result" where
  "timestamp_from_str parse value = ok_or TimestampRange (parse value)"

section \<open>Facts\<close>

definition nonzero_revision :: "Revision \<Rightarrow> bool" where
  "nonzero_revision r = (revision_get r \<noteq> 0)"

lemma validate_text_eq_Inr:
  "validate_text v f m = Inr w \<longleftrightarrow> w = v \<and> \<not> contains_nul v \<and> scalar_count v \<le> m"
  by (auto simp: validate_text_def)

lemma Revision_new_eq_Inr: "Revision_new v = Inr r \<longleftrightarrow> v \<noteq> 0 \<and> r = Revision v"
  by (auto simp: Revision_new_def)

lemma Sequence_new_eq_Inr: "Sequence_new v = Inr r \<longleftrightarrow> v \<noteq> 0 \<and> r = Sequence v"
  by (auto simp: Sequence_new_def)

lemma unat_one_u64 [simp]: "unat (1 :: u64) = 1"
  by simp

lemma Revision_next_eq_Inr:
  "Revision_next r = Inr r' \<longleftrightarrow> unat (revision_get r') = unat (revision_get r) + 1"
proof -
  have "v \<noteq> 0" if "unat v = Suc n" for v :: u64 and n
    using that by auto
  then show ?thesis
    by (cases r') (auto simp: Revision_next_def Revision_new_def result_simps checked_simps
        split: if_splits)
qed

lemma Revision_next_eq_Inl:
  "Revision_next r = Inl e \<longleftrightarrow> e = Overflow ''revision'' \<and> revision_get r = - 1"
proof -
  have max: "unat (revision_get r) + 1 = 2 ^ 64 \<longleftrightarrow> revision_get r = - 1"
    by (simp add: word_unat_eq_iff unsigned_minus_1_eq_mask mask_eq_exp_minus_1)
  have lt: "unat (revision_get r) < 2 ^ 64"
    using unsigned_less [of "revision_get r", where 'a = nat] by simp
  have "Revision_new v \<noteq> Inl e" if "unat v = unat (revision_get r) + 1" for v
  proof -
    have "v \<noteq> 0" using that by auto
    then show ?thesis by (simp add: Revision_new_def)
  qed
  then show ?thesis
    using max lt by (auto simp: Revision_next_def result_simps checked_simps)
qed

lemma Revision_next_nonzero: "Revision_next r = Inr r' \<Longrightarrow> nonzero_revision r'"
  by (auto simp: Revision_next_eq_Inr nonzero_revision_def)

text \<open>Text validation accepts exactly the texts within the limit that hold no NUL.\<close>

lemma Name_new_accepts:
  "is_ok (Name_new s) \<longleftrightarrow> \<not> contains_nul s \<and> scalar_count s \<le> 256"
  by (auto simp: Name_new_def is_ok_iff result_simps validate_text_eq_Inr)

lemma Description_new_accepts:
  "is_ok (Description_new s) \<longleftrightarrow> \<not> contains_nul s \<and> scalar_count s \<le> 4096"
  by (auto simp: Description_new_def is_ok_iff result_simps validate_text_eq_Inr)

end
