(* ===== verification/Identifier.thy ===== *)
theory Identifier
  imports Primitives
begin

text \<open>
  Job and run identifiers (\<open>src/domain/id.rs\<close>): a 128-bit UUID printed as 26 Crockford
  Base32 characters.  The UUID is the word of its 16 big-endian bytes, whose numeric order
  is \<open>Uuid\<close>'s byte order.  The encoder and the decoder are proved inverse, the decoder is
  proved to accept only case variants of the encoder's output, and the text order is proved
  to be the numeric order, on which the store's \<open>ORDER BY id\<close> and cursor queries rely.
\<close>

unbundle bit_operations_syntax

section \<open>Encoding and decoding\<close>

datatype IdentifierError = IdentifierError

definition ENCODED_LEN :: nat where
  "ENCODED_LEN = 26"

definition digit_alphabet :: string where
  "digit_alphabet = ''0123456789abcdefghjkmnpqrstvwxyz''"

definition digit_byte :: "u128 \<Rightarrow> char option" where
  "digit_byte digit = (if digit < 32 then Some (digit_alphabet ! unat digit) else None)"

text \<open>The loop over \<open>encoded.iter_mut().rev()\<close>: \<open>acc\<close> holds the bytes already written.\<close>

fun encode_loop :: "nat \<Rightarrow> u128 \<Rightarrow> string \<Rightarrow> (IdentifierError, string) result" where
  "encode_loop 0 remaining acc = Inr acc"
| "encode_loop (Suc n) remaining acc =
     try_bind (ok_or IdentifierError (digit_byte (remaining AND 31)))
       (\<lambda>b. encode_loop n (drop_bit 5 remaining) (b # acc))"

definition encode :: "u128 \<Rightarrow> (IdentifierError, string) result" where
  "encode value = encode_loop ENCODED_LEN value []"

definition letter_digits :: "(char \<times> nat) list" where
  "letter_digits =
     [(CHR ''a'', 10), (CHR ''b'', 11), (CHR ''c'', 12), (CHR ''d'', 13), (CHR ''e'', 14),
      (CHR ''f'', 15), (CHR ''g'', 16), (CHR ''h'', 17), (CHR ''j'', 18), (CHR ''k'', 19),
      (CHR ''m'', 20), (CHR ''n'', 21), (CHR ''p'', 22), (CHR ''q'', 23), (CHR ''r'', 24),
      (CHR ''s'', 25), (CHR ''t'', 26), (CHR ''v'', 27), (CHR ''w'', 28), (CHR ''x'', 29),
      (CHR ''y'', 30), (CHR ''z'', 31)]"

definition decode_digit :: "char \<Rightarrow> (IdentifierError, nat) result" where
  "decode_digit c =
     (let l = to_ascii_lowercase c in
      if is_ascii_digit l then Inr (byte c - 48)
      else ok_or IdentifierError (map_of letter_digits l))"

fun decode_fold :: "u128 \<Rightarrow> string \<Rightarrow> (IdentifierError, u128) result" where
  "decode_fold decoded [] = Inr decoded"
| "decode_fold decoded (c # cs) =
     try_bind (decode_digit c)
       (\<lambda>digit. try_bind
          (ok_or IdentifierError
             (Option.bind (checked_mul decoded 32)
                (\<lambda>current. checked_add current (of_nat digit))))
          (\<lambda>decoded'. decode_fold decoded' cs))"

definition decode :: "string \<Rightarrow> (IdentifierError, u128) result" where
  "decode value =
     (if length value \<noteq> ENCODED_LEN then Inl IdentifierError else decode_fold 0 value)"

datatype JobId = JobId (job_uuid: u128)
datatype RunId = RunId (run_uuid: u128)

text \<open>\<open>to_string\<close> and \<open>from_str\<close> of the two identifier types.\<close>

definition JobId_to_string :: "JobId \<Rightarrow> (IdentifierError, string) result" where
  "JobId_to_string i = encode (job_uuid i)"

definition JobId_from_str :: "string \<Rightarrow> (IdentifierError, JobId) result" where
  "JobId_from_str s = map_ok JobId (decode s)"

definition RunId_to_string :: "RunId \<Rightarrow> (IdentifierError, string) result" where
  "RunId_to_string i = encode (run_uuid i)"

definition RunId_from_str :: "string \<Rightarrow> (IdentifierError, RunId) result" where
  "RunId_from_str s = map_ok RunId (decode s)"

section \<open>The derived order of identifiers\<close>

instantiation JobId :: linorder
begin

definition less_eq_JobId :: "JobId \<Rightarrow> JobId \<Rightarrow> bool" where
  "less_eq_JobId a b = (job_uuid a \<le> job_uuid b)"

definition less_JobId :: "JobId \<Rightarrow> JobId \<Rightarrow> bool" where
  "less_JobId a b = (job_uuid a < job_uuid b)"

instance
  by standard (auto simp: less_eq_JobId_def less_JobId_def JobId.expand)

end

instantiation RunId :: linorder
begin

definition less_eq_RunId :: "RunId \<Rightarrow> RunId \<Rightarrow> bool" where
  "less_eq_RunId a b = (run_uuid a \<le> run_uuid b)"

definition less_RunId :: "RunId \<Rightarrow> RunId \<Rightarrow> bool" where
  "less_RunId a b = (run_uuid a < run_uuid b)"

instance
  by standard (auto simp: less_eq_RunId_def less_RunId_def RunId.expand)

end

section \<open>Base-32 digits\<close>

fun digits32 :: "nat \<Rightarrow> nat \<Rightarrow> nat list" where
  "digits32 0 x = []"
| "digits32 (Suc n) x = digits32 n (x div 32) @ [x mod 32]"

definition horner32 :: "nat \<Rightarrow> nat list \<Rightarrow> nat" where
  "horner32 a ds = foldl (\<lambda>d k. 32 * d + k) a ds"

definition glyph :: "nat \<Rightarrow> char" where
  "glyph k = digit_alphabet ! k"

lemma length_digits32 [simp]: "length (digits32 n x) = n"
  by (induction n arbitrary: x) auto

lemma digits32_less: "k \<in> set (digits32 n x) \<Longrightarrow> k < 32"
  by (induction n arbitrary: x) auto

lemma horner32_simps [simp]:
  "horner32 a [] = a"
  "horner32 a (k # ks) = horner32 (32 * a + k) ks"
  "horner32 a (ks @ [k]) = 32 * horner32 a ks + k"
  by (simp_all add: horner32_def)

lemma horner32_ge: "a \<le> horner32 a ds"
proof (induction ds arbitrary: a)
  case Nil
  then show ?case by simp
next
  case (Cons k ks)
  have "a \<le> 32 * a + k" by simp
  also have "\<dots> \<le> horner32 (32 * a + k) ks" by (rule Cons.IH)
  finally show ?case by simp
qed

lemma horner32_digits32: "horner32 0 (digits32 n x) = x mod 32 ^ n"
proof (induction n arbitrary: x)
  case 0
  then show ?case by simp
next
  case (Suc n)
  have "32 * (x div 32 mod 32 ^ n) + x mod 32 = x mod (32 * 32 ^ n)"
    by (simp add: mod_mult2_eq)
  then show ?case using Suc.IH by simp
qed

lemma digits32_horner32:
  "\<forall>k \<in> set ds. k < 32 \<Longrightarrow> digits32 (length ds) (horner32 0 ds) = ds"
proof (induction ds rule: rev_induct)
  case Nil
  then show ?case by simp
next
  case (snoc k ks)
  then show ?case by simp
qed

text \<open>The alphabet, checked digit by digit.\<close>

lemma alphabet_bytes:
  "map byte digit_alphabet =
     [48, 49, 50, 51, 52, 53, 54, 55, 56, 57, 97, 98, 99, 100, 101, 102, 103, 104, 106, 107,
      109, 110, 112, 113, 114, 115, 116, 118, 119, 120, 121, 122]"
  by (simp add: digit_alphabet_def byte_def)

lemma length_alphabet: "length digit_alphabet = 32"
  by (simp add: digit_alphabet_def)

lemma glyph_strict_mono_on: "i < j \<Longrightarrow> j < 32 \<Longrightarrow> byte (glyph i) < byte (glyph j)"
proof -
  have "sorted_wrt (<) (map byte digit_alphabet)"
    by (simp add: alphabet_bytes)
  then show "i < j \<Longrightarrow> j < 32 \<Longrightarrow> byte (glyph i) < byte (glyph j)"
    using sorted_wrt_nth_less [of "(<)" "map byte digit_alphabet" i j]
    by (simp add: glyph_def length_alphabet)
qed

lemma glyph_strict_mono: "i < 32 \<Longrightarrow> j < 32 \<Longrightarrow> byte (glyph i) < byte (glyph j) \<longleftrightarrow> i < j"
  using glyph_strict_mono_on [of i j] glyph_strict_mono_on [of j i]
  by (cases i j rule: linorder_cases) auto

text \<open>The decoder's table, read as the inverse of the alphabet.\<close>

lemma glyph_decimal: "k < 10 \<Longrightarrow> glyph k = char_of (48 + k)"
proof -
  assume k: "k < 10"
  then have "byte (glyph k) = map byte digit_alphabet ! k"
    by (simp add: glyph_def length_alphabet)
  also have "\<dots> = take 10 (map byte digit_alphabet) ! k"
    using k by simp
  also have "take 10 (map byte digit_alphabet) = [48..<58]"
    by (simp add: alphabet_bytes upt_rec)
  also have "[48..<58] ! k = 48 + k"
    using k by (simp only: nth_upt)
  finally have "byte (glyph k) = 48 + k" .
  then show ?thesis
    by (metis char_of_byte)
qed

lemma letter_digits_glyph: "(c, k) \<in> set letter_digits \<Longrightarrow> 10 \<le> k \<and> k < 32 \<and> c = glyph k"
  by (auto simp: letter_digits_def glyph_def digit_alphabet_def)

lemma letter_digits_complete:
  "10 \<le> k \<Longrightarrow> k < 32 \<Longrightarrow> map_of letter_digits (glyph k) = Some k"
proof -
  assume k: "10 \<le> k" "k < 32"
  have "map snd letter_digits = [10..<32]"
    by (simp add: letter_digits_def upt_rec)
  then have "k \<in> snd ` set letter_digits"
    using k by (metis atLeastLessThan_iff image_set set_upt)
  then obtain c where c: "(c, k) \<in> set letter_digits"
    by auto
  then have "c = glyph k"
    by (simp add: letter_digits_glyph)
  moreover have "distinct (map fst letter_digits)"
    by (simp add: letter_digits_def)
  ultimately show ?thesis
    using c by simp
qed

lemma lowercase_digit: "is_ascii_digit (to_ascii_lowercase c) \<longleftrightarrow> is_ascii_digit c"
  using byte_less_256 [of c]
  by (auto simp: is_ascii_digit_def to_ascii_lowercase_def byte_char_of)

lemma lowercase_of_digit: "is_ascii_digit c \<Longrightarrow> to_ascii_lowercase c = c"
  by (simp add: is_ascii_digit_def to_ascii_lowercase_def)

lemma glyph_letter_byte: "10 \<le> k \<Longrightarrow> k < 32 \<Longrightarrow> 97 \<le> byte (glyph k)"
proof -
  have "byte (glyph 10) = 97"
    by (simp add: glyph_def digit_alphabet_def byte_def)
  then show "10 \<le> k \<Longrightarrow> k < 32 \<Longrightarrow> 97 \<le> byte (glyph k)"
    using glyph_strict_mono_on [of 10 k] by (cases "k = 10") auto
qed

lemma decode_digit_glyph: "k < 32 \<Longrightarrow> decode_digit (glyph k) = Inr k"
proof (cases "k < 10")
  case True
  then have "byte (glyph k) = 48 + k"
    by (simp add: glyph_decimal byte_char_of)
  with True show ?thesis
    by (simp add: decode_digit_def is_ascii_digit_def to_ascii_lowercase_def)
next
  case False
  assume "k < 32"
  with False have "97 \<le> byte (glyph k)" and "map_of letter_digits (glyph k) = Some k"
    by (simp_all add: glyph_letter_byte letter_digits_complete)
  then show ?thesis
    by (simp add: decode_digit_def is_ascii_digit_def to_ascii_lowercase_def)
qed

lemma glyph_eq_iff: "i < 32 \<Longrightarrow> j < 32 \<Longrightarrow> glyph i = glyph j \<longleftrightarrow> i = j"
  using glyph_strict_mono [of i j] glyph_strict_mono [of j i] by (metis nat_neq_iff)

text \<open>A character that decodes is, up to case, the glyph of its digit.\<close>

lemma decode_digit_sound:
  assumes "decode_digit c = Inr k"
  shows "k < 32 \<and> to_ascii_lowercase c = glyph k"
proof (cases "is_ascii_digit c")
  case True
  then have "k = byte c - 48" and "48 \<le> byte c" "byte c \<le> 57"
    using assms
    by (auto simp: decode_digit_def lowercase_of_digit) (auto simp: is_ascii_digit_def)
  with True show ?thesis
    by (simp add: lowercase_of_digit glyph_decimal)
next
  case False
  then have "map_of letter_digits (to_ascii_lowercase c) = Some k"
    using assms by (auto simp: decode_digit_def lowercase_digit result_simps)
  then show ?thesis
    by (auto dest: map_of_SomeD letter_digits_glyph)
qed

section \<open>The encoder\<close>

lemma unat_and_31: "unat (r AND 31) = unat r mod 32" for r :: u128
proof -
  have "r AND 31 = take_bit 5 r"
    by (simp add: take_bit_eq_mask mask_eq_exp_minus_1)
  then show ?thesis
    by (simp only: unsigned_take_bit_eq) (simp add: take_bit_eq_mod)
qed

lemma unat_drop_bit_5: "unat (drop_bit 5 r) = unat r div 32" for r :: u128
proof -
  have "drop_bit 5 r = r div 32"
    by (simp add: drop_bit_eq_div)
  then show ?thesis
    by (simp only: unat_div) simp
qed

lemma digit_byte_and_31: "digit_byte (r AND 31) = Some (glyph (unat r mod 32))"
proof -
  have "r AND 31 < 32"
    unfolding word_less_nat_alt unat_and_31 by simp
  then show ?thesis
    by (simp add: digit_byte_def glyph_def unat_and_31)
qed

lemma encode_loop_eq: "encode_loop n r acc = Inr (map glyph (digits32 n (unat r)) @ acc)"
  by (induction n arbitrary: r acc) (simp_all add: digit_byte_and_31 unat_drop_bit_5)

lemma encode_eq: "encode v = Inr (map glyph (digits32 26 (unat v)))"
  by (simp add: encode_def ENCODED_LEN_def encode_loop_eq)

section \<open>The decoder\<close>

lemma horner_step:
  "Option.bind (checked_mul d 32) (\<lambda>c. checked_add c (of_nat k)) = Some d' \<longleftrightarrow>
     unat d' = 32 * unat d + k" if "k < 32" for d d' :: u128
proof -
  have k: "unat (of_nat k :: u128) = k"
    using that by (simp add: unat_of_nat)
  have "\<exists>c :: u128. unat c = unat d * 32" if "unat d' = 32 * unat d + k"
  proof -
    have "32 * unat d < 2 ^ LENGTH(128)"
      using that unsigned_less [of d', where 'a = nat] by linarith
    then show ?thesis
      by (intro exI [of _ "of_nat (32 * unat d)"])
        (simp add: unat_of_nat del: of_nat_mult)
  qed
  then show ?thesis
    using k by (auto simp: bind_eq_Some_conv checked_simps mult.commute) metis
qed

lemma decode_fold_glyphs:
  "\<forall>k \<in> set ks. k < 32 \<Longrightarrow> horner32 (unat d) ks < 2 ^ 128 \<Longrightarrow>
     decode_fold d (map glyph ks) = Inr (of_nat (horner32 (unat d) ks))"
proof (induction ks arbitrary: d)
  case Nil
  then show ?case by simp
next
  case (Cons k ks)
  let ?d = "of_nat (32 * unat d + k) :: u128"
  have "32 * unat d + k < 2 ^ 128"
    using horner32_ge [of "32 * unat d + k" ks] Cons.prems(2) by simp
  then have d: "unat ?d = 32 * unat d + k"
    by (simp add: unat_of_nat del: of_nat_add of_nat_mult)
  then have "Option.bind (checked_mul d 32) (\<lambda>c. checked_add c (of_nat k)) = Some ?d"
    using Cons.prems(1) by (simp add: horner_step del: of_nat_add of_nat_mult)
  then show ?case
    using Cons.IH [of ?d] Cons.prems d
    by (simp add: decode_digit_glyph del: of_nat_add of_nat_mult)
qed

lemma decode_fold_sound:
  "decode_fold d s = Inr w \<Longrightarrow>
     \<exists>ks. map to_ascii_lowercase s = map glyph ks \<and> (\<forall>k \<in> set ks. k < 32)
       \<and> unat w = horner32 (unat d) ks"
proof (induction s arbitrary: d)
  case Nil
  then show ?case by (intro exI [of _ "[]"]) simp
next
  case (Cons c cs)
  from Cons.prems obtain k d' where
    k: "decode_digit c = Inr k" and
    d': "Option.bind (checked_mul d 32) (\<lambda>c. checked_add c (of_nat k)) = Some d'" and
    rest: "decode_fold d' cs = Inr w"
    by (auto simp: result_simps)
  from k have k32: "k < 32" and c: "to_ascii_lowercase c = glyph k"
    by (auto dest: decode_digit_sound)
  from Cons.IH [OF rest] obtain ks where
    "map to_ascii_lowercase cs = map glyph ks" "\<forall>k \<in> set ks. k < 32"
    "unat w = horner32 (unat d') ks"
    by blast
  then show ?case
    using k32 c d' by (intro exI [of _ "k # ks"]) (simp add: horner_step)
qed

lemma horner_digits_26: "horner32 0 (digits32 26 (unat v)) = unat v" for v :: u128
proof -
  have "unat v < 32 ^ 26"
    using unsigned_less [of v, where 'a = nat] by (simp add: power_mult [symmetric])
  then show ?thesis by (simp add: horner32_digits32)
qed

lemma decode_encode: "encode v = Inr s \<Longrightarrow> decode s = Inr v"
proof -
  assume "encode v = Inr s"
  then have s: "s = map glyph (digits32 26 (unat v))"
    by (simp add: encode_eq)
  have "horner32 (unat (0 :: u128)) (digits32 26 (unat v)) < 2 ^ 128"
    using unsigned_less [of v, where 'a = nat] by (simp add: horner_digits_26)
  then have "decode_fold 0 s = Inr (of_nat (horner32 (unat (0 :: u128)) (digits32 26 (unat v))))"
    unfolding s by (intro decode_fold_glyphs) (auto dest: digits32_less)
  then show ?thesis
    by (simp add: decode_def s ENCODED_LEN_def horner_digits_26)
qed

lemma encode_decode: "decode s = Inr v \<Longrightarrow> encode v = Inr (map to_ascii_lowercase s)"
proof -
  assume "decode s = Inr v"
  then have len: "length s = 26" and fold: "decode_fold 0 s = Inr v"
    by (auto simp: decode_def ENCODED_LEN_def split: if_splits)
  from decode_fold_sound [OF fold] obtain ks where
    ks: "map to_ascii_lowercase s = map glyph ks" "\<forall>k \<in> set ks. k < 32" "unat v = horner32 0 ks"
    by auto
  from ks(1) len have "length ks = 26"
    by (metis length_map)
  then have "digits32 26 (unat v) = ks"
    using digits32_horner32 [OF ks(2)] ks(3) by simp
  then show ?thesis
    using ks(1) by (simp add: encode_eq)
qed

section \<open>Order\<close>

lemma less_by_div_mod:
  "x < y \<longleftrightarrow> x div 32 < y div 32 \<or> x div 32 = y div 32 \<and> x mod 32 < y mod 32" for x y :: nat
proof -
  have "x mod 32 < 32" "y mod 32 < 32" "x = 32 * (x div 32) + x mod 32" "y = 32 * (y div 32) + y mod 32"
    by simp_all
  then show ?thesis by linarith
qed

lemma text_less_digits:
  "x < 32 ^ n \<Longrightarrow> y < 32 ^ n \<Longrightarrow>
     text_less (map glyph (digits32 n x)) (map glyph (digits32 n y)) \<longleftrightarrow> x < y"
proof (induction n arbitrary: x y)
  case 0
  then show ?case by simp
next
  case (Suc n)
  have div: "x div 32 < 32 ^ n" "y div 32 < 32 ^ n"
    using Suc.prems by (auto simp: less_mult_imp_div_less mult.commute)
  have eq: "map glyph (digits32 n (x div 32)) = map glyph (digits32 n (y div 32))
      \<longleftrightarrow> x div 32 = y div 32"
    using Suc.IH [OF div] Suc.IH [OF div(2,1)]
    by (metis linorder_neqE_nat text_less_irrefl)
  have "x < y \<longleftrightarrow> x div 32 < y div 32 \<or> x div 32 = y div 32 \<and> x mod 32 < y mod 32"
    by (rule less_by_div_mod)
  then show ?case
    using Suc.IH [OF div] eq by (simp add: text_less_append glyph_strict_mono)
qed

lemma encode_order:
  "encode a = Inr s \<Longrightarrow> encode b = Inr t \<Longrightarrow> text_less s t \<longleftrightarrow> a < b"
proof -
  assume "encode a = Inr s" "encode b = Inr t"
  moreover have "unat v < 32 ^ 26" for v :: u128
    using unsigned_less [of v, where 'a = nat] by (simp add: power_mult [symmetric])
  ultimately show ?thesis
    using text_less_digits [of "unat a" 26 "unat b"] by (auto simp: encode_eq word_less_nat_alt)
qed

section \<open>Properties\<close>

lemma decode_digit_lowercase: "decode_digit (to_ascii_lowercase c) = decode_digit c"
proof -
  have "to_ascii_lowercase (to_ascii_lowercase c) = to_ascii_lowercase c"
    using byte_less_256 [of c] by (simp add: to_ascii_lowercase_def byte_char_of)
  moreover have "to_ascii_lowercase c = c" if "is_ascii_digit (to_ascii_lowercase c)"
    using that lowercase_digit lowercase_of_digit by blast
  ultimately show ?thesis
    by (auto simp: decode_digit_def Let_def)
qed

lemma decode_lowercase: "decode (map to_ascii_lowercase s) = decode s"
proof -
  have "decode_fold d (map to_ascii_lowercase cs) = decode_fold d cs" for d cs
    by (induction d cs rule: decode_fold.induct) (auto simp: decode_digit_lowercase intro!: try_bind_cong)
  then show ?thesis by (simp add: decode_def)
qed

text \<open>
  A text is read as a job identifier exactly when its lower-case form is what the
  identifier prints as.  So printing then reading gives the identifier back, every accepted
  text is a case variant of the canonical one, and no two identifiers share a text.
\<close>

theorem job_id_text_canonical:
  "JobId_from_str s = Inr i \<longleftrightarrow> JobId_to_string i = Inr (map to_ascii_lowercase s)"
proof -
  have "decode s = Inr v \<longleftrightarrow> encode v = Inr (map to_ascii_lowercase s)" for v
    using encode_decode decode_encode [of v "map to_ascii_lowercase s"] by (auto simp: decode_lowercase)
  then show ?thesis
    by (cases i) (auto simp: JobId_from_str_def JobId_to_string_def result_simps)
qed

text \<open>
  Printing never fails, and the byte order of the texts is the order of the identifiers:
  sorting and paging by the text column follow the identifier order.
\<close>

theorem job_id_text_order:
  "\<exists>s t. JobId_to_string a = Inr s \<and> JobId_to_string b = Inr t \<and> length s = ENCODED_LEN
     \<and> (text_less s t \<longleftrightarrow> a < b)"
  using encode_order [of "job_uuid a" _ "job_uuid b"]
  by (simp add: JobId_to_string_def less_JobId_def encode_eq ENCODED_LEN_def)

end
