(* ===== verification/Duration.thy ===== *)
theory Duration
  imports Primitives
begin

text \<open>
  Durations (\<open>src/domain/duration.rs\<close>): the parser for texts such as \<open>2h15m\<close> and the
  canonical printer.  The parser's index loop is a recursion on the bytes that remain.
  It is proved equivalent to a declarative grammar, its results are in range, and printing
  then parsing gives the duration back.
\<close>

section \<open>The code\<close>

definition MAX_DURATION_SECONDS :: u64 where
  "MAX_DURATION_SECONDS = 365 * 24 * 60 * 60"

datatype DurationError =
    Empty
  | ExpectedNumber
  | ExpectedUnit
  | UnitOrder
  | ZeroHours
  | Overflow
  | OutOfRange

datatype DurationSeconds = DurationSeconds (duration_get: u64)

definition DurationSeconds_new :: "u64 \<Rightarrow> (DurationError, DurationSeconds) result" where
  "DurationSeconds_new seconds =
     (if \<not> (1 \<le> seconds \<and> seconds \<le> MAX_DURATION_SECONDS) then Inl DurationError.OutOfRange
      else Inr (DurationSeconds seconds))"

text \<open>\<open>str::parse::<u64>\<close> on a non-empty run of ASCII digits: only overflow can fail.\<close>

definition parse_u64 :: "string \<Rightarrow> u64 option" where
  "parse_u64 ds = (let n = decimal_value ds in if n < 2 ^ 64 then Some (of_nat n) else None)"

definition unit_scale :: "char \<Rightarrow> u64 \<Rightarrow> (DurationError, nat \<times> u64) result" where
  "unit_scale unit number =
     (if unit = CHR ''h'' then
        (if number = 0 then Inl DurationError.ZeroHours else Inr (3, 60 * 60))
      else if unit = CHR ''m'' then Inr (2, 60)
      else if unit = CHR ''s'' then Inr (1, 1)
      else Inl DurationError.ExpectedUnit)"

lemma length_dropWhile_Cons:
  "dropWhile P xs = y # ys \<Longrightarrow> length ys < length xs"
  using length_dropWhile_le [of P xs] by simp

function parse_components :: "string \<Rightarrow> nat \<Rightarrow> u64 \<Rightarrow> (DurationError, u64) result" where
  "parse_components bytes previous_rank sum0 =
     (if bytes = [] then Inr sum0
      else if takeWhile is_ascii_digit bytes = [] then Inl DurationError.ExpectedNumber
      else try_bind
        (ok_or DurationError.Overflow (parse_u64 (takeWhile is_ascii_digit bytes)))
        (\<lambda>number. case dropWhile is_ascii_digit bytes of
           [] \<Rightarrow> Inl DurationError.ExpectedUnit
         | unit # rest \<Rightarrow>
             try_bind (unit_scale unit number) (\<lambda>(rank, multiplier).
               if previous_rank \<le> rank then Inl DurationError.UnitOrder
               else try_bind (ok_or DurationError.Overflow (checked_mul number multiplier))
                 (\<lambda>component. try_bind (ok_or DurationError.Overflow (checked_add sum0 component))
                   (\<lambda>sum'.
                      if rest \<noteq> [] \<and> is_ascii_whitespace (hd rest)
                      then (if dropWhile is_ascii_whitespace rest = []
                            then Inl DurationError.ExpectedNumber
                            else parse_components (dropWhile is_ascii_whitespace rest) rank sum')
                      else parse_components rest rank sum')))))"
  by pat_completeness auto
termination
proof (relation "measure (\<lambda>(bytes, _). length bytes)", goal_cases)
  case 1
  then show ?case by simp
next
  case (2 bytes previous_rank sum0 number unit rest)
  then show ?case
    using length_dropWhile_Cons [of is_ascii_digit bytes unit rest]
      length_dropWhile_le [of is_ascii_whitespace rest]
    by simp
next
  case (3 bytes previous_rank sum0 number unit rest)
  then show ?case
    using length_dropWhile_Cons [of is_ascii_digit bytes unit rest] by simp
qed

declare parse_components.simps [simp del]

definition DurationSeconds_from_str :: "string \<Rightarrow> (DurationError, DurationSeconds) result" where
  "DurationSeconds_from_str input =
     (let input = trim input in
      if input = [] then Inl DurationError.Empty
      else try_bind (parse_components input 4 0) DurationSeconds_new)"

definition DurationSeconds_to_string :: "DurationSeconds \<Rightarrow> string" where
  "DurationSeconds_to_string d =
     (let hours = duration_get d div 3600;
          minutes = (duration_get d mod 3600) div 60;
          seconds = duration_get d mod 60
      in (if 0 < hours then show_nat (unat hours) @ ''h'' else [])
       @ (if 0 < minutes then show_nat (unat minutes) @ ''m'' else [])
       @ (if 0 < seconds then show_nat (unat seconds) @ ''s'' else []))"

section \<open>The grammar of durations\<close>

text \<open>
  \<open>component r u n k\<close>: the unit \<open>u\<close> of rank \<open>r\<close> gives the number \<open>n\<close> the value \<open>k\<close>.
  \<open>duration_text p s v\<close>: the text \<open>s\<close> is a list of components with ranks strictly falling
  from below \<open>p\<close>, ASCII white space allowed between two of them, and of total value \<open>v\<close>.
\<close>

inductive component :: "nat \<Rightarrow> char \<Rightarrow> nat \<Rightarrow> nat \<Rightarrow> bool" where
  hours: "0 < n \<Longrightarrow> component 3 (CHR ''h'') n (n * 3600)"
| minutes: "component 2 (CHR ''m'') n (n * 60)"
| seconds: "component 1 (CHR ''s'') n n"

inductive duration_text :: "nat \<Rightarrow> string \<Rightarrow> nat \<Rightarrow> bool" where
  single: "ds \<noteq> [] \<Longrightarrow> \<forall>c \<in> set ds. is_ascii_digit c \<Longrightarrow> component r u (decimal_value ds) k \<Longrightarrow>
     r < p \<Longrightarrow> duration_text p (ds @ [u]) k"
| more: "ds \<noteq> [] \<Longrightarrow> \<forall>c \<in> set ds. is_ascii_digit c \<Longrightarrow> component r u (decimal_value ds) k \<Longrightarrow>
     r < p \<Longrightarrow> \<forall>c \<in> set ws. is_ascii_whitespace c \<Longrightarrow> duration_text r s v \<Longrightarrow>
     duration_text p (ds @ u # ws @ s) (k + v)"

inductive_simps component_h: "component r (CHR ''h'') n k"
inductive_simps component_m: "component r (CHR ''m'') n k"
inductive_simps component_s: "component r (CHR ''s'') n k"
inductive_cases component_unitE: "component r u n k"

section \<open>Facts about one component\<close>

lemma unat_seconds_per_hour [simp]: "unat (60 * 60 :: u64) = 3600"
  by simp

lemma parse_u64_eq_Some: "parse_u64 ds = Some n \<longleftrightarrow> unat n = decimal_value ds"
proof -
  have "unat (of_nat k :: u64) = k" if "k < 2 ^ 64" for k
    using that by (simp add: unat_of_nat)
  moreover have "unat n < 2 ^ 64"
    using unsigned_less [of n, where 'a = nat] by simp
  ultimately show ?thesis
    by (auto simp: parse_u64_def Let_def word_unat_eq_iff)
qed

lemma unit_scale_component:
  "(\<exists>m. unit_scale u n = Inr (r, m) \<and> unat n * unat m = k) \<longleftrightarrow> component r u (unat n) k"
  by (auto simp: unit_scale_def unat_gt_0 component_h component_m component_s
      intro: component.intros elim!: component_unitE)

lemma component_unit_not_digit: "component r u n k \<Longrightarrow> \<not> is_ascii_digit u"
  by (auto elim!: component_unitE simp: is_ascii_digit_def byte_def)

lemma component_ge: "component r u n k \<Longrightarrow> n \<le> k"
  by (auto elim!: component_unitE)

lemma component_unique: "component r u n k \<Longrightarrow> component r' u n k' \<Longrightarrow> r' = r \<and> k' = k"
  by (auto elim!: component_unitE)

lemma digit_not_whitespace: "is_ascii_digit c \<Longrightarrow> \<not> is_ascii_whitespace c"
  by (auto simp: is_ascii_digit_def is_ascii_whitespace_def)

lemma duration_text_head:
  "duration_text p s v \<Longrightarrow> s \<noteq> [] \<and> is_ascii_digit (hd s)"
  by (induction rule: duration_text.induct) auto

section \<open>One iteration of the parser\<close>

text \<open>
  \<open>skip_spaces\<close> is the tail of the loop body: what remains after optional white space, with
  the error for a text that ends in white space.
\<close>

definition skip_spaces :: "string \<Rightarrow> (DurationError, string) result" where
  "skip_spaces rest =
     (if rest \<noteq> [] \<and> is_ascii_whitespace (hd rest)
      then (if dropWhile is_ascii_whitespace rest = [] then Inl DurationError.ExpectedNumber
            else Inr (dropWhile is_ascii_whitespace rest))
      else Inr rest)"

lemma skip_spaces_branch:
  "try_bind (skip_spaces rest) f =
     (if rest \<noteq> [] \<and> is_ascii_whitespace (hd rest)
      then (if dropWhile is_ascii_whitespace rest = [] then Inl DurationError.ExpectedNumber
            else f (dropWhile is_ascii_whitespace rest))
      else f rest)"
  by (simp add: skip_spaces_def)

lemma parse_components_unfold:
  "parse_components bytes p sum0 =
     (if bytes = [] then Inr sum0
      else if takeWhile is_ascii_digit bytes = [] then Inl DurationError.ExpectedNumber
      else try_bind
        (ok_or DurationError.Overflow (parse_u64 (takeWhile is_ascii_digit bytes)))
        (\<lambda>number. case dropWhile is_ascii_digit bytes of
           [] \<Rightarrow> Inl DurationError.ExpectedUnit
         | unit # rest \<Rightarrow>
             try_bind (unit_scale unit number) (\<lambda>(rank, multiplier).
               if p \<le> rank then Inl DurationError.UnitOrder
               else try_bind (ok_or DurationError.Overflow (checked_mul number multiplier))
                 (\<lambda>component. try_bind (ok_or DurationError.Overflow (checked_add sum0 component))
                   (\<lambda>sum'. try_bind (skip_spaces rest)
                      (\<lambda>rest'. parse_components rest' rank sum'))))))"
  unfolding skip_spaces_branch by (rule parse_components.simps)

lemma parse_components_step:
  "parse_components bytes p sum0 = Inr w \<longleftrightarrow>
     bytes = [] \<and> w = sum0 \<or>
     (\<exists>ds u rest r k rest' sum'.
        bytes = ds @ u # rest \<and> ds \<noteq> [] \<and> (\<forall>c \<in> set ds. is_ascii_digit c)
        \<and> component r u (decimal_value ds) k \<and> r < p \<and> unat sum' = unat sum0 + k
        \<and> skip_spaces rest = Inr rest' \<and> parse_components rest' r sum' = Inr w)"
  (is "?L \<longleftrightarrow> ?N \<or> ?S")
proof (cases "bytes = []")
  case True
  then show ?thesis by (auto simp: parse_components.simps [of "[]"])
next
  case ne: False
  let ?ds = "takeWhile is_ascii_digit bytes"
  show ?thesis
  proof
    assume L: ?L
    then obtain u rest where "dropWhile is_ascii_digit bytes = u # rest"
      using ne by (cases "dropWhile is_ascii_digit bytes")
        (auto simp: parse_components_unfold [of bytes] result_simps
          simp del: dropWhile_eq_Nil_conv split: if_splits)
    with L ne obtain n r m and c :: u64 and sum' where
      "?ds \<noteq> []" "unat n = decimal_value ?ds" "dropWhile is_ascii_digit bytes = u # rest"
      "unit_scale u n = Inr (r, m)" "r < p" "unat c = unat n * unat m"
      "unat sum' = unat sum0 + unat c"
      and rec: "try_bind (skip_spaces rest) (\<lambda>rest'. parse_components rest' r sum') = Inr w"
      by (auto simp: parse_components_unfold [of bytes] try_bind_eq_Inr ok_or_eq_Inr checked_simps
          parse_u64_eq_Some not_le simp del: dropWhile_eq_Nil_conv split: if_splits)
    moreover from rec obtain rest' where
      "skip_spaces rest = Inr rest'" "parse_components rest' r sum' = Inr w"
      by (auto simp: result_simps)
    moreover have "component r u (decimal_value ?ds) (unat c)"
      using unit_scale_component [of u n r "unat c"] calculation by auto
    moreover have "bytes = ?ds @ u # rest" "\<forall>c \<in> set ?ds. is_ascii_digit c"
      using calculation(3) takeWhile_dropWhile_id [of is_ascii_digit bytes]
      by (auto dest: set_takeWhileD)
    ultimately have ?S by blast
    then show "?N \<or> ?S" ..
  next
    assume "?N \<or> ?S"
    with ne obtain ds u rest r k rest' sum' where
      b: "bytes = ds @ u # rest" and ds: "ds \<noteq> []" "\<forall>c \<in> set ds. is_ascii_digit c" and
      comp: "component r u (decimal_value ds) k" and r: "r < p" and
      sum': "unat sum' = unat sum0 + k" and
      skip: "skip_spaces rest = Inr rest'" and rec: "parse_components rest' r sum' = Inr w"
      by blast
    have tw: "?ds = ds" and dw: "dropWhile is_ascii_digit bytes = u # rest"
      using ds component_unit_not_digit [OF comp] by (simp_all add: b takeWhile_append2)
    have "decimal_value ds < 2 ^ 64"
      using component_ge [OF comp] sum' unsigned_less [of sum', where 'a = nat] by simp
    then obtain n where n: "parse_u64 ds = Some n"
      by (simp add: parse_u64_def Let_def)
    then obtain m where m: "unit_scale u n = Inr (r, m)" "unat n * unat m = k"
      using comp unit_scale_component [of u n r k] by (auto simp: parse_u64_eq_Some)
    have "k < 2 ^ 64"
      using sum' unsigned_less [of sum', where 'a = nat] by simp
    then obtain c where c: "checked_mul n m = Some c"
      using m(2) by (simp add: checked_mul_def)
    then have "checked_add sum0 c = Some sum'"
      using m(2) sum' by (simp add: checked_simps)
    then show ?L
      using ne tw dw ds(1) n m(1) c r skip rec
      by (simp add: parse_components_unfold [of bytes])
  qed
qed

section \<open>The parser decides the grammar\<close>

lemma skip_spaces_sound:
  "skip_spaces rest = Inr rest' \<Longrightarrow>
     \<exists>ws. rest = ws @ rest' \<and> (\<forall>c \<in> set ws. is_ascii_whitespace c) \<and> (rest' = [] \<longrightarrow> ws = [])"
proof -
  assume a: "skip_spaces rest = Inr rest'"
  show ?thesis
  proof (cases "rest \<noteq> [] \<and> is_ascii_whitespace (hd rest)")
    case True
    with a have "rest' = dropWhile is_ascii_whitespace rest" "rest' \<noteq> []"
      by (auto simp: skip_spaces_def split: if_splits)
    then show ?thesis
      by (intro exI [of _ "takeWhile is_ascii_whitespace rest"]) (auto dest: set_takeWhileD)
  next
    case False
    with a show ?thesis
      by (intro exI [of _ "[]"]) (auto simp: skip_spaces_def)
  qed
qed

lemma skip_spaces_complete:
  "\<forall>c \<in> set ws. is_ascii_whitespace c \<Longrightarrow> s \<noteq> [] \<Longrightarrow> is_ascii_digit (hd s) \<Longrightarrow>
     skip_spaces (ws @ s) = Inr s"
  by (cases ws; cases s)
    (auto simp: skip_spaces_def dropWhile_append2 digit_not_whitespace)

lemma parse_components_sound:
  "parse_components bytes p sum0 = Inr w \<Longrightarrow> bytes \<noteq> [] \<Longrightarrow>
     \<exists>v. duration_text p bytes v \<and> unat w = unat sum0 + v"
proof (induction "length bytes" arbitrary: bytes p sum0 rule: less_induct)
  case less
  from less.prems(1) [unfolded parse_components_step [of bytes]] less.prems(2)
  obtain ds u rest r k rest' sum' where
    b: "bytes = ds @ u # rest" and ds: "ds \<noteq> []" "\<forall>c \<in> set ds. is_ascii_digit c" and
    comp: "component r u (decimal_value ds) k" and r: "r < p" and
    sum': "unat sum' = unat sum0 + k" and
    skip: "skip_spaces rest = Inr rest'" and rec: "parse_components rest' r sum' = Inr w"
    by blast
  from skip_spaces_sound [OF skip] obtain ws where
    ws: "rest = ws @ rest'" "\<forall>c \<in> set ws. is_ascii_whitespace c" "rest' = [] \<longrightarrow> ws = []"
    by blast
  show ?case
  proof (cases "rest' = []")
    case True
    with rec have "w = sum'" by (simp add: parse_components_step [of "[]"])
    moreover have "duration_text p bytes k"
      using duration_text.single [OF ds comp r] ws True by (simp add: b)
    ultimately show ?thesis using sum' by auto
  next
    case False
    have "length rest' < length bytes" by (simp add: b ws(1))
    from less.hyps [OF this rec False] obtain v where
      "duration_text r rest' v" "unat w = unat sum' + v" by blast
    then show ?thesis
      using duration_text.more [OF ds comp r ws(2)] sum' by (auto simp: b ws(1))
  qed
qed

lemma parse_components_complete:
  "duration_text p bytes v \<Longrightarrow> unat w = unat sum0 + v \<Longrightarrow> parse_components bytes p sum0 = Inr w"
proof (induction arbitrary: sum0 rule: duration_text.induct)
  case (single ds r u k p)
  moreover have "skip_spaces [] = Inr []" by (simp add: skip_spaces_def)
  moreover have "parse_components [] r w = Inr w" by (simp add: parse_components_step [of "[]"])
  ultimately show ?case
    by (subst parse_components_step) blast
next
  case (more ds r u k p ws s v)
  define sum' :: u64 where "sum' = of_nat (unat sum0 + k)"
  have "unat sum0 + k < 2 ^ 64"
    using more.prems unsigned_less [of w, where 'a = nat] by simp
  then have sum': "unat sum' = unat sum0 + k"
    by (simp add: sum'_def unat_of_nat del: of_nat_add)
  with more.prems have "parse_components s r sum' = Inr w"
    by (intro more.IH) simp
  moreover have "skip_spaces (ws @ s) = Inr s"
    using more.hyps(5) duration_text_head [OF more.hyps(6)] by (simp add: skip_spaces_complete)
  ultimately show ?case
    using more.hyps(1-4) sum' by (subst parse_components_step) blast
qed

lemma MAX_DURATION_nat: "unat MAX_DURATION_SECONDS = 31536000"
  by (simp add: MAX_DURATION_SECONDS_def)

lemma DurationSeconds_new_eq_Inr:
  "DurationSeconds_new n = Inr d \<longleftrightarrow> d = DurationSeconds n \<and> 1 \<le> unat n \<and> unat n \<le> 31536000"
proof -
  have "1 \<le> n \<longleftrightarrow> 1 \<le> unat n" and "n \<le> MAX_DURATION_SECONDS \<longleftrightarrow> unat n \<le> 31536000"
    by (simp_all add: word_le_nat_alt MAX_DURATION_nat)
  then show ?thesis
    by (auto simp: DurationSeconds_new_def)
qed

definition valid_duration :: "DurationSeconds \<Rightarrow> bool" where
  "valid_duration d = (1 \<le> unat (duration_get d) \<and> unat (duration_get d) \<le> 31536000)"

lemma DurationSeconds_new_valid: "DurationSeconds_new n = Inr d \<Longrightarrow> valid_duration d"
  by (auto simp: DurationSeconds_new_eq_Inr valid_duration_def)

lemma from_str_grammar:
  "DurationSeconds_from_str s = Inr d \<longleftrightarrow>
     valid_duration d \<and> duration_text 4 (trim s) (unat (duration_get d))"
proof (cases "trim s = []")
  case True
  then show ?thesis
    by (auto simp: DurationSeconds_from_str_def dest: duration_text_head)
next
  case False
  have "(\<exists>w. parse_components (trim s) 4 0 = Inr w \<and> DurationSeconds_new w = Inr d) \<longleftrightarrow>
      valid_duration d \<and> duration_text 4 (trim s) (unat (duration_get d))"
    using parse_components_sound [of "trim s" 4 0] False
      parse_components_complete [of 4 "trim s" "unat (duration_get d)" "duration_get d" 0]
    by (cases d) (force simp: DurationSeconds_new_eq_Inr valid_duration_def)
  then show ?thesis
    using False by (simp add: DurationSeconds_from_str_def result_simps)
qed

section \<open>Printing\<close>

lemma duration_text_show:
  "component r u n k \<Longrightarrow> r < p \<Longrightarrow> duration_text p (show_nat n @ [u]) k"
  "component r u n k \<Longrightarrow> r < p \<Longrightarrow> duration_text r s v \<Longrightarrow>
     duration_text p (show_nat n @ u # s) (k + v)"
proof -
  show "component r u n k \<Longrightarrow> r < p \<Longrightarrow> duration_text p (show_nat n @ [u]) k"
    by (rule duration_text.single [where r = r]) (auto dest: show_nat_digits)
  show "component r u n k \<Longrightarrow> r < p \<Longrightarrow> duration_text r s v \<Longrightarrow>
     duration_text p (show_nat n @ u # s) (k + v)"
    using duration_text.more [of "show_nat n" r u k p "[]" s v]
    by (auto dest: show_nat_digits)
qed

lemma duration_text_to_string:
  assumes "valid_duration d"
  shows "duration_text 4 (DurationSeconds_to_string d) (unat (duration_get d))"
proof -
  define n where "n = unat (duration_get d)"
  define h m t where "h = n div 3600" and "m = n mod 3600 div 60" and "t = n mod 60"
  have printed: "DurationSeconds_to_string d =
      (if 0 < h then show_nat h @ ''h'' else []) @ (if 0 < m then show_nat m @ ''m'' else [])
      @ (if 0 < t then show_nat t @ ''s'' else [])"
    by (simp add: DurationSeconds_to_string_def Let_def h_def m_def t_def n_def unat_div unat_mod
        word_less_nat_alt)
  have "n mod 3600 mod 60 = n mod 60"
    by (rule mod_mod_cancel) simp
  then have n: "n = h * 3600 + m * 60 + t"
    unfolding h_def m_def t_def
    using div_mult_mod_eq [of n 3600] div_mult_mod_eq [of "n mod 3600" 60] by linarith
  have pos: "0 < n"
    using assms by (simp add: valid_duration_def n_def)
  have ct: "component 1 (CHR ''s'') t t" and cm: "component 2 (CHR ''m'') m (m * 60)"
    by (rule component.intros)+
  have S: "duration_text 2 (show_nat t @ ''s'') t" "duration_text 3 (show_nat t @ ''s'') t"
    "duration_text 4 (show_nat t @ ''s'') t"
    using duration_text_show(1) [OF ct] by simp_all
  have M: "duration_text 3 (show_nat m @ ''m'') (m * 60)" "duration_text 4 (show_nat m @ ''m'') (m * 60)"
    "duration_text 3 (show_nat m @ ''m'' @ show_nat t @ ''s'') (m * 60 + t)"
    "duration_text 4 (show_nat m @ ''m'' @ show_nat t @ ''s'') (m * 60 + t)"
    using duration_text_show(1) [OF cm] duration_text_show(2) [OF cm _ S(1)] by simp_all
  have H: "0 < h \<Longrightarrow> duration_text 4 (show_nat h @ ''h'') (h * 3600)"
    "0 < h \<Longrightarrow> duration_text 3 s v \<Longrightarrow> duration_text 4 (show_nat h @ ''h'' @ s) (h * 3600 + v)" for s v
    using duration_text_show [OF component.hours [of h], of 4] by simp_all
  show ?thesis
    using S M H(1) H(2) [OF _ S(2)] H(2) [OF _ M(1)] H(2) [OF _ M(3)] pos
    by (cases "0 < h"; cases "0 < m"; cases "0 < t")
      (simp_all add: printed n_def [symmetric] n add.assoc)
qed

lemma duration_text_trim: "duration_text p s v \<Longrightarrow> trim s = s"
proof (rule trim_ascii)
  assume t: "duration_text p s v"
  show "s \<noteq> []" "33 \<le> byte (hd s)" "byte (hd s) < 128"
    using duration_text_head [OF t] by (simp_all add: is_ascii_digit_def)
  have "last s \<in> {CHR ''h'', CHR ''m'', CHR ''s''}"
    using t by (induction rule: duration_text.induct)
      (auto elim!: component_unitE dest: duration_text_head)
  then show "33 \<le> byte (last s)" "byte (last s) < 128"
    by (auto simp: byte_def)
qed

lemma from_str_to_string:
  "valid_duration d \<Longrightarrow> DurationSeconds_from_str (DurationSeconds_to_string d) = Inr d"
  using duration_text_to_string [of d] by (simp add: from_str_grammar duration_text_trim)

section \<open>Properties\<close>

text \<open>
  C38. The duration parser accepts exactly the texts of the grammar (components in falling
  unit order, white space only between components, no zero hours) whose value is between one
  second and 365 days, and returns that value: no overflow is missed on the way.
\<close>

theorem duration_parser_accepts_grammar:
  "DurationSeconds_from_str s = Inr d \<longleftrightarrow>
     valid_duration d \<and> duration_text 4 (trim s) (unat (duration_get d))"
  by (rule from_str_grammar)

text \<open>Every duration in range reads back from the text it prints as.\<close>

theorem duration_print_parse:
  "valid_duration d \<Longrightarrow> DurationSeconds_from_str (DurationSeconds_to_string d) = Inr d"
  by (rule from_str_to_string)

theorem duration_print_parse_witness:
  "DurationSeconds_from_str (DurationSeconds_to_string (DurationSeconds 8130)) = Inr (DurationSeconds 8130)"
  by (rule duration_print_parse) (simp add: valid_duration_def)

end
