(* ===== verification/Calendar.thy ===== *)
theory Calendar
  imports Primitives
begin

text \<open>
  Calendar input: the strict syntax of \<open>src/domain/calendar_syntax.rs\<close> and the resolution
  of a local date and time to an instant in \<open>src/domain/calendar.rs\<close>.

  Civil dates, times, time zones and the bundled time-zone database belong to the jiff
  library.  They are the parameter \<open>J\<close> of the definitions, a record of the operations the
  sources call; dates, times and zones are type variables.  Slices of a text can panic in
  Rust, so the parsers fail with \<open>Panic\<close> besides their own errors; on well-formed UTF-8 they
  are proved never to.
\<close>

section \<open>The jiff operations the code calls\<close>

record ('d, 't, 'dt) civil =
  date_new :: "int \<Rightarrow> int \<Rightarrow> int \<Rightarrow> 'd option"
  time_new :: "int \<Rightarrow> int \<Rightarrow> int \<Rightarrow> 't option"
  to_datetime :: "'d \<Rightarrow> 't \<Rightarrow> 'dt"
  midnight :: "'t"
  tomorrow :: "'d \<Rightarrow> 'd option"

text \<open>The offset of a local time in a zone, and the instants it can denote.\<close>

datatype AmbiguousOffset = Gap | Fold | Unambiguous

record ('d, 't, 'dt, 'data, 'tz) zones =
  tzdb_get :: "string \<Rightarrow> (string \<times> 'data) option"
  tzif :: "string \<Rightarrow> 'data \<Rightarrow> 'tz option"
  try_system :: "'tz option"
  iana_name :: "'tz \<Rightarrow> string option"
  tzdb_VERSION :: "string option"
  offset_kind :: "'tz \<Rightarrow> 'dt \<Rightarrow> AmbiguousOffset"
  earlier :: "'tz \<Rightarrow> 'dt \<Rightarrow> UtcTimestamp option"
  later :: "'tz \<Rightarrow> 'dt \<Rightarrow> UtcTimestamp option"
  unambiguous :: "'tz \<Rightarrow> 'dt \<Rightarrow> UtcTimestamp option"
  zoned_date :: "'tz \<Rightarrow> UtcTimestamp \<Rightarrow> 'd"

section \<open>Syntax\<close>

datatype CalendarSyntaxError =
    Empty
  | InvalidNumber
  | InvalidDate
  | InvalidTime
  | InvalidDateTime

datatype ('d, 't, 'dt) CalendarSyntax = Time 't | Date 'd | DateTime 'dt

definition parse_decimal ::
  "nat \<Rightarrow> string \<Rightarrow> (CalendarSyntaxError failure, int) result" where
  "parse_decimal bound input =
     (if \<not> list_all is_ascii_digit input then Inl (Err InvalidNumber)
      else if input = [] \<or> bound \<le> decimal_value input then Inl (Err InvalidNumber)
      else Inr (int (decimal_value input)))"

definition parse_i8 :: "string \<Rightarrow> (CalendarSyntaxError failure, int) result" where
  "parse_i8 input = parse_decimal (2 ^ 7) input"

definition parse_i16 :: "string \<Rightarrow> (CalendarSyntaxError failure, int) result" where
  "parse_i16 input = parse_decimal (2 ^ 15) input"

definition parse_date ::
  "('d, 't, 'dt) civil \<Rightarrow> string \<Rightarrow> (CalendarSyntaxError failure, 'd) result" where
  "parse_date J input =
     (if length input \<noteq> 10 \<or> input ! 4 \<noteq> CHR ''-'' \<or> input ! 7 \<noteq> CHR ''-''
      then Inl (Err InvalidDate)
      else try_bind (try_bind (str_slice input 0 4) parse_i16)
        (\<lambda>year. try_bind (try_bind (str_slice input 5 7) parse_i8)
          (\<lambda>month. try_bind (try_bind (str_slice input 8 10) parse_i8)
            (\<lambda>day. ok_or (Err InvalidDate) (date_new J year month day)))))"

definition time_shape :: "string \<Rightarrow> bool" where
  "time_shape b =
     (length b = 5 \<and> b ! 2 = CHR '':'' \<or>
      length b = 8 \<and> b ! 2 = CHR '':'' \<and> b ! 5 = CHR '':'')"

definition parse_time ::
  "('d, 't, 'dt) civil \<Rightarrow> string \<Rightarrow> (CalendarSyntaxError failure, 't) result" where
  "parse_time J input =
     (if \<not> time_shape input then Inl (Err InvalidTime)
      else try_bind (try_bind (str_slice input 0 2) parse_i8)
        (\<lambda>hour. try_bind (try_bind (str_slice input 3 5) parse_i8)
          (\<lambda>minute. try_bind
             (if length input = 8 then try_bind (str_slice input 6 8) parse_i8 else Inr 0)
             (\<lambda>second. ok_or (Err InvalidTime) (time_new J hour minute second)))))"

definition parse_datetime ::
  "('d, 't, 'dt) civil \<Rightarrow> string \<Rightarrow> (CalendarSyntaxError failure, 'dt) result" where
  "parse_datetime J input =
     (if length input \<notin> {16, 19} \<or> input ! 10 \<notin> {CHR ''T'', CHR '' ''}
      then Inl (Err InvalidDateTime)
      else try_bind (try_bind (str_slice input 0 10) (parse_date J))
        (\<lambda>date. try_bind (try_bind (str_slice input 11 (length input)) (parse_time J))
          (\<lambda>time. Inr (to_datetime J date time))))"

definition parse_calendar ::
  "('d, 't, 'dt) civil \<Rightarrow> string \<Rightarrow>
     (CalendarSyntaxError failure, ('d, 't, 'dt) CalendarSyntax) result" where
  "parse_calendar J input0 =
     (let input = trim input0 in
      if input = [] then Inl (Err CalendarSyntaxError.Empty)
      else if CHR '':'' \<in> set input \<and> CHR ''-'' \<notin> set input
      then map_ok Time (parse_time J input)
      else if CHR ''-'' \<in> set input \<and> CHR '':'' \<notin> set input
      then map_ok Date (parse_date J input)
      else map_ok DateTime (parse_datetime J input))"

section \<open>Resolution\<close>

datatype DstResolution = Reject | Earlier | Later

datatype TimeZoneSelection = Local | Utc | Named string

datatype CalendarError =
    Syntax CalendarSyntaxError
  | InvalidTimeZone
  | TimeZoneNotFound
  | LocalTimeZoneUnknown
  | NonexistentLocalTime
  | AmbiguousLocalTime
  | ResolutionOutOfRange
  | NotFuture
  | RolloverDisabled

record CalendarResolution =
  original_input :: string
  timezone :: string
  timezone_database_version :: string
  resolved_utc :: UtcTimestamp
  dst_resolution :: DstResolution

definition MAX_TIMEZONE_BYTES :: nat where
  "MAX_TIMEZONE_BYTES = 255"

definition bundled_tzdb_version :: "('d, 't, 'dt, 'data, 'tz) zones \<Rightarrow> string" where
  "bundled_tzdb_version Z = (case tzdb_VERSION Z of Some v \<Rightarrow> v | None \<Rightarrow> ''unknown'')"

definition requested_zone ::
  "('d, 't, 'dt, 'data, 'tz) zones \<Rightarrow> TimeZoneSelection \<Rightarrow> (CalendarError, string) result" where
  "requested_zone Z selection =
     (case selection of
        Utc \<Rightarrow> Inr ''UTC''
      | Named name \<Rightarrow>
          (if MAX_TIMEZONE_BYTES < length name \<or> \<not> list_all is_ascii name
              \<or> contains_nul name \<or> name = []
           then Inl InvalidTimeZone else Inr name)
      | Local \<Rightarrow>
          try_bind (ok_or LocalTimeZoneUnknown (try_system Z))
            (\<lambda>system. ok_or LocalTimeZoneUnknown (iana_name Z system)))"

definition resolve_time_zone ::
  "('d, 't, 'dt, 'data, 'tz) zones \<Rightarrow> TimeZoneSelection \<Rightarrow> (CalendarError, 'tz \<times> string) result"
where
  "resolve_time_zone Z selection =
     try_bind (requested_zone Z selection)
       (\<lambda>requested. try_bind (ok_or TimeZoneNotFound (tzdb_get Z requested))
         (\<lambda>(canonical, data). try_bind (ok_or TimeZoneNotFound (tzif Z canonical data))
           (\<lambda>time_zone. Inr (time_zone, canonical))))"

definition resolve_datetime ::
  "('d, 't, 'dt, 'data, 'tz) zones \<Rightarrow> 'dt \<Rightarrow> 'tz \<Rightarrow> DstResolution \<Rightarrow>
     (CalendarError, UtcTimestamp) result" where
  "resolve_datetime Z date_time time_zone dst =
     (case offset_kind Z time_zone date_time of
        Gap \<Rightarrow> Inl NonexistentLocalTime
      | Fold \<Rightarrow>
          (case dst of
             Reject \<Rightarrow> Inl AmbiguousLocalTime
           | Earlier \<Rightarrow> ok_or ResolutionOutOfRange (earlier Z time_zone date_time)
           | Later \<Rightarrow> ok_or ResolutionOutOfRange (later Z time_zone date_time))
      | Unambiguous \<Rightarrow> ok_or ResolutionOutOfRange (unambiguous Z time_zone date_time))"

definition require_future ::
  "UtcTimestamp \<Rightarrow> UtcTimestamp \<Rightarrow> (CalendarError, UtcTimestamp) result" where
  "require_future candidate now = (if candidate \<le> now then Inl NotFuture else Inr candidate)"

definition resolve_time_only ::
  "('d, 't, 'dt) civil \<Rightarrow> ('d, 't, 'dt, 'data, 'tz) zones \<Rightarrow> 't \<Rightarrow> 'tz \<Rightarrow> DstResolution \<Rightarrow>
     bool \<Rightarrow> UtcTimestamp \<Rightarrow> (CalendarError, UtcTimestamp) result" where
  "resolve_time_only J Z time time_zone dst no_rollover now =
     (let today = zoned_date Z time_zone now in
      try_bind (resolve_datetime Z (to_datetime J today time) time_zone dst)
        (\<lambda>candidate.
           if now < candidate then Inr candidate
           else if no_rollover then Inl RolloverDisabled
           else try_bind (ok_or ResolutionOutOfRange (tomorrow J today))
             (\<lambda>next. resolve_datetime Z (to_datetime J next time) time_zone dst)))"

definition resolve_parsed ::
  "('d, 't, 'dt) civil \<Rightarrow> ('d, 't, 'dt, 'data, 'tz) zones \<Rightarrow> ('d, 't, 'dt) CalendarSyntax \<Rightarrow>
     'tz \<Rightarrow> DstResolution \<Rightarrow> bool \<Rightarrow> UtcTimestamp \<Rightarrow> (CalendarError, UtcTimestamp) result" where
  "resolve_parsed J Z parsed time_zone dst no_rollover now =
     (case parsed of
        Time time \<Rightarrow> resolve_time_only J Z time time_zone dst no_rollover now
      | Date date \<Rightarrow>
          try_bind (resolve_datetime Z (to_datetime J date (midnight J)) time_zone dst)
            (\<lambda>c. require_future c now)
      | DateTime candidate \<Rightarrow>
          try_bind (resolve_datetime Z candidate time_zone dst) (\<lambda>c. require_future c now))"

definition lift_syntax :: "CalendarSyntaxError failure \<Rightarrow> CalendarError failure" where
  "lift_syntax f = (case f of Err e \<Rightarrow> Err (Syntax e) | Panic \<Rightarrow> Panic)"

definition resolve_calendar ::
  "('d, 't, 'dt) civil \<Rightarrow> ('d, 't, 'dt, 'data, 'tz) zones \<Rightarrow> string \<Rightarrow> TimeZoneSelection \<Rightarrow>
     DstResolution \<Rightarrow> bool \<Rightarrow> UtcTimestamp \<Rightarrow> (CalendarError failure, CalendarResolution) result"
where
  "resolve_calendar J Z input selection dst no_rollover now =
     try_bind (map_err lift_syntax (parse_calendar J input))
       (\<lambda>parsed. try_bind (map_err Err (resolve_time_zone Z selection))
         (\<lambda>(time_zone, zone_name).
            try_bind (map_err Err (resolve_parsed J Z parsed time_zone dst no_rollover now))
              (\<lambda>resolved. Inr
                 \<lparr> original_input = input, timezone = zone_name,
                   timezone_database_version = bundled_tzdb_version Z,
                   resolved_utc = resolved, dst_resolution = dst \<rparr>)))"

section \<open>The accepted texts\<close>

abbreviation digits :: "nat \<Rightarrow> string \<Rightarrow> bool" where
  "digits n s \<equiv> length s = n \<and> (\<forall>c \<in> set s. is_ascii_digit c)"

abbreviation dec :: "string \<Rightarrow> int" where
  "dec s \<equiv> int (decimal_value s)"

inductive date_text :: "('d, 't, 'dt) civil \<Rightarrow> string \<Rightarrow> 'd \<Rightarrow> bool" for J where
  date: "digits 4 y \<Longrightarrow> digits 2 m \<Longrightarrow> digits 2 d \<Longrightarrow>
     date_new J (dec y) (dec m) (dec d) = Some D \<Longrightarrow> date_text J (y @ ''-'' @ m @ ''-'' @ d) D"

inductive time_text :: "('d, 't, 'dt) civil \<Rightarrow> string \<Rightarrow> 't \<Rightarrow> bool" for J where
  short: "digits 2 h \<Longrightarrow> digits 2 m \<Longrightarrow> time_new J (dec h) (dec m) 0 = Some T \<Longrightarrow>
     time_text J (h @ '':'' @ m) T"
| full: "digits 2 h \<Longrightarrow> digits 2 m \<Longrightarrow> digits 2 s \<Longrightarrow>
     time_new J (dec h) (dec m) (dec s) = Some T \<Longrightarrow> time_text J (h @ '':'' @ m @ '':'' @ s) T"

inductive calendar_text ::
  "('d, 't, 'dt) civil \<Rightarrow> string \<Rightarrow> ('d, 't, 'dt) CalendarSyntax \<Rightarrow> bool" for J where
  time: "time_text J s T \<Longrightarrow> calendar_text J s (Time T)"
| date: "date_text J s D \<Longrightarrow> calendar_text J s (Date D)"
| datetime: "date_text J a D \<Longrightarrow> time_text J b T \<Longrightarrow> sep \<in> {CHR ''T'', CHR '' ''} \<Longrightarrow>
     calendar_text J (a @ sep # b) (DateTime (to_datetime J D T))"

section \<open>Slices at separators\<close>

lemma ascii_boundary: "i < length s \<Longrightarrow> is_ascii (s ! i) \<Longrightarrow> is_char_boundary s i"
  using is_cont_not_ascii by (auto simp: is_char_boundary_def)

lemma after_ascii_boundary:
  "scalars s \<Longrightarrow> i < length s \<Longrightarrow> is_ascii (s ! i) \<Longrightarrow> is_char_boundary s (Suc i)"
  using scalars_after_ascii [of s i] by (auto simp: is_char_boundary_def)

lemma boundary_ends [simp]: "is_char_boundary s 0" "is_char_boundary s (length s)"
  by (simp_all add: is_char_boundary_def)

lemma ascii_separators [simp]:
  "is_ascii CHR ''-''" "is_ascii CHR '':''" "is_ascii CHR ''T''" "is_ascii CHR '' ''"
  by (simp_all add: is_ascii_def byte_def)

lemma slice_no_panic:
  "scalars s \<Longrightarrow> i \<le> j \<Longrightarrow> j \<le> length s \<Longrightarrow>
     i = 0 \<or> (\<exists>k. i = Suc k \<and> is_ascii (s ! k)) \<Longrightarrow>
     j = length s \<or> is_ascii (s ! j) \<Longrightarrow> str_slice s i j = Inr (take (j - i) (drop i s))"
proof -
  assume s: "scalars s" "i \<le> j" "j \<le> length s"
    and i: "i = 0 \<or> (\<exists>k. i = Suc k \<and> is_ascii (s ! k))"
    and j: "j = length s \<or> is_ascii (s ! j)"
  have "is_char_boundary s i"
    using i s after_ascii_boundary [OF s(1)] by auto
  moreover have "is_char_boundary s j"
    using j s(3) ascii_boundary [of j s] by (cases "j = length s") auto
  ultimately show "str_slice s i j = Inr (take (j - i) (drop i s))"
    using s by (intro str_slice_ok)
qed

lemma parse_decimal_eq_Inr:
  "parse_decimal b s = Inr n \<longleftrightarrow>
     s \<noteq> [] \<and> (\<forall>c \<in> set s. is_ascii_digit c) \<and> decimal_value s < b \<and> n = dec s"
  by (auto simp: parse_decimal_def list_all_iff)

lemma parse_decimal_no_panic: "parse_decimal b s \<noteq> Inl Panic"
  by (simp add: parse_decimal_def)

lemma digits_scalars: "\<forall>c \<in> set s. is_ascii c \<Longrightarrow> scalars s"
  by (induction s) (auto intro: scalars.intros)

lemma digit_is_ascii: "is_ascii_digit c \<Longrightarrow> is_ascii c"
  by (simp add: is_ascii_digit_def is_ascii_def)

lemma digits_value_bound:
  "digits 2 s \<Longrightarrow> decimal_value s < 128" "digits 4 s \<Longrightarrow> decimal_value s < 32768"
  using decimal_value_less [of s] by auto

lemma two_digits_parse: "digits 2 s \<Longrightarrow> parse_i8 s = Inr (dec s)"
  using digits_value_bound(1) [of s] by (auto simp: parse_i8_def parse_decimal_eq_Inr)

lemma four_digits_parse: "digits 4 s \<Longrightarrow> parse_i16 s = Inr (dec s)"
  using digits_value_bound(2) [of s] by (auto simp: parse_i16_def parse_decimal_eq_Inr)

section \<open>Dates and times\<close>

lemma parse_date_eq:
  assumes "scalars s"
  shows "parse_date J s =
     (if length s \<noteq> 10 \<or> s ! 4 \<noteq> CHR ''-'' \<or> s ! 7 \<noteq> CHR ''-'' then Inl (Err InvalidDate)
      else try_bind (parse_i16 (take 4 s))
        (\<lambda>year. try_bind (parse_i8 (take 2 (drop 5 s)))
          (\<lambda>month. try_bind (parse_i8 (drop 8 s))
            (\<lambda>day. ok_or (Err InvalidDate) (date_new J year month day)))))"
proof (cases "length s \<noteq> 10 \<or> s ! 4 \<noteq> CHR ''-'' \<or> s ! 7 \<noteq> CHR ''-''")
  case True
  then show ?thesis by (simp add: parse_date_def)
next
  case False
  then have
    "(str_slice s 0 4 :: (CalendarSyntaxError failure, string) result) = Inr (take 4 s)"
    "(str_slice s 5 7 :: (CalendarSyntaxError failure, string) result) = Inr (take 2 (drop 5 s))"
    "(str_slice s 8 10 :: (CalendarSyntaxError failure, string) result) = Inr (drop 8 s)"
    using assms slice_no_panic [of s 0 4] slice_no_panic [of s 5 7] slice_no_panic [of s 8 10]
    by (simp_all add: numeral_eq_Suc)
  with False show ?thesis by (simp add: parse_date_def)
qed

lemma parse_time_eq:
  assumes "scalars s"
  shows "parse_time J s =
     (if \<not> time_shape s then Inl (Err InvalidTime)
      else try_bind (parse_i8 (take 2 s))
        (\<lambda>hour. try_bind (parse_i8 (take 2 (drop 3 s)))
          (\<lambda>minute. try_bind (if length s = 8 then parse_i8 (drop 6 s) else Inr 0)
            (\<lambda>second. ok_or (Err InvalidTime) (time_new J hour minute second)))))"
proof (cases "time_shape s")
  case False
  then show ?thesis by (simp add: parse_time_def)
next
  case True
  then have
    "(str_slice s 0 2 :: (CalendarSyntaxError failure, string) result) = Inr (take 2 s)"
    "(str_slice s 3 5 :: (CalendarSyntaxError failure, string) result) = Inr (take 2 (drop 3 s))"
    "length s = 8 \<Longrightarrow>
       (str_slice s 6 8 :: (CalendarSyntaxError failure, string) result) = Inr (drop 6 s)"
    using assms slice_no_panic [of s 0 2] slice_no_panic [of s 3 5] slice_no_panic [of s 6 8]
    by (auto simp: time_shape_def numeral_eq_Suc)
  with True show ?thesis by (simp add: parse_time_def)
qed

lemma parse_i8_no_panic [simp]: "parse_i8 s \<noteq> Inl Panic" "parse_i16 s \<noteq> Inl Panic"
  by (simp_all add: parse_i8_def parse_i16_def parse_decimal_no_panic)

lemma parse_date_no_panic: "scalars s \<Longrightarrow> parse_date J s \<noteq> Inl Panic"
  by (simp add: parse_date_eq result_simps)

lemma parse_time_no_panic: "scalars s \<Longrightarrow> parse_time J s \<noteq> Inl Panic"
  by (simp add: parse_time_eq result_simps)

lemma split_date:
  assumes "length s = 10" "s ! 4 = CHR ''-''" "s ! 7 = CHR ''-''"
  shows "s = take 4 s @ ''-'' @ take 2 (drop 5 s) @ ''-'' @ drop 8 s"
  using assms by (auto simp: numeral_eq_Suc length_Suc_conv)

lemma split_time:
  "length s = 5 \<Longrightarrow> s ! 2 = CHR '':'' \<Longrightarrow> s = take 2 s @ '':'' @ take 2 (drop 3 s)"
  "length s = 8 \<Longrightarrow> s ! 2 = CHR '':'' \<Longrightarrow> s ! 5 = CHR '':'' \<Longrightarrow>
     s = take 2 s @ '':'' @ take 2 (drop 3 s) @ '':'' @ drop 6 s"
  by (auto simp: numeral_eq_Suc length_Suc_conv)

lemma parse_date_iff: "scalars s \<Longrightarrow> parse_date J s = Inr D \<longleftrightarrow> date_text J s D"
proof
  assume sc: "scalars s" and p: "parse_date J s = Inr D"
  from p have shape: "length s = 10" "s ! 4 = CHR ''-''" "s ! 7 = CHR ''-''"
    using sc by (auto simp: parse_date_eq split: if_splits)
  have "date_text J (take 4 s @ ''-'' @ take 2 (drop 5 s) @ ''-'' @ drop 8 s) D"
    using p shape sc
    by (intro date_text.date)
      (auto simp: parse_date_eq result_simps parse_i8_def parse_i16_def parse_decimal_eq_Inr)
  with split_date [OF shape] show "date_text J s D" by simp
next
  assume sc: "scalars s" and d: "date_text J s D"
  from d show "parse_date J s = Inr D"
  proof cases
    case (date y m d)
    then show ?thesis
      using sc by (simp add: parse_date_eq four_digits_parse two_digits_parse nth_append)
  qed
qed

lemma parse_time_iff: "scalars s \<Longrightarrow> parse_time J s = Inr T \<longleftrightarrow> time_text J s T"
proof
  assume sc: "scalars s" and p: "parse_time J s = Inr T"
  from p have "time_shape s"
    using sc by (auto simp: parse_time_eq split: if_splits)
  then consider "length s = 5" "s ! 2 = CHR '':''"
    | "length s = 8" "s ! 2 = CHR '':''" "s ! 5 = CHR '':''"
    by (auto simp: time_shape_def)
  then show "time_text J s T"
  proof cases
    case 1
    then have "time_text J (take 2 s @ '':'' @ take 2 (drop 3 s)) T"
      using p sc by (intro time_text.short)
        (auto simp: parse_time_eq time_shape_def result_simps parse_i8_def parse_decimal_eq_Inr)
    with split_time(1) [OF 1] show ?thesis by simp
  next
    case 2
    then have "time_text J (take 2 s @ '':'' @ take 2 (drop 3 s) @ '':'' @ drop 6 s) T"
      using p sc by (intro time_text.full)
        (auto simp: parse_time_eq time_shape_def result_simps parse_i8_def parse_decimal_eq_Inr)
    with split_time(2) [OF 2] show ?thesis by simp
  qed
next
  assume sc: "scalars s" and t: "time_text J s T"
  from t show "parse_time J s = Inr T"
    by cases (use sc in \<open>simp_all add: parse_time_eq time_shape_def two_digits_parse nth_append\<close>)
qed

lemma date_text_ascii: "date_text J s D \<Longrightarrow> length s = 10 \<and> (\<forall>c \<in> set s. is_ascii c)"
  by (erule date_text.cases) (auto dest: digit_is_ascii)

lemma time_text_ascii:
  "time_text J s T \<Longrightarrow> (length s = 5 \<or> length s = 8) \<and> (\<forall>c \<in> set s. is_ascii c)"
  by (erule time_text.cases) (auto dest: digit_is_ascii)

lemma separator_not_digit [simp]: "\<not> is_ascii_digit CHR ''-''" "\<not> is_ascii_digit CHR '':''"
  by (simp_all add: is_ascii_digit_def byte_def)

lemma date_text_separators: "date_text J s D \<Longrightarrow> CHR ''-'' \<in> set s \<and> CHR '':'' \<notin> set s"
  by (erule date_text.cases) auto

lemma time_text_separators: "time_text J s T \<Longrightarrow> CHR '':'' \<in> set s \<and> CHR ''-'' \<notin> set s"
  by (erule time_text.cases) auto

section \<open>Date and time together\<close>

lemma datetime_split:
  assumes "scalars s" "length s \<in> {16, 19}" "s ! 10 \<in> {CHR ''T'', CHR '' ''}"
  shows "s = take 10 s @ s ! 10 # drop 11 s" "scalars (take 10 s)" "scalars (drop 11 s)"
    "(str_slice s 0 10 :: (CalendarSyntaxError failure, string) result) = Inr (take 10 s)"
    "(str_slice s 11 (length s) :: (CalendarSyntaxError failure, string) result) = Inr (drop 11 s)"
proof -
  have len: "11 \<le> length s" using assms(2) by auto
  have asc: "is_ascii (s ! 10)" using assms(3) by auto
  show eq: "s = take 10 s @ s ! 10 # drop 11 s"
    using len id_take_nth_drop [of 10 s] by (simp add: numeral_eq_Suc)
  show "scalars (take 10 s)"
    using scalars_prefix [OF assms(1) eq] asc is_cont_not_ascii by auto
  show "scalars (drop 11 s)"
    using scalars_suffix [OF assms(1) eq asc] .
  show "(str_slice s 0 10 :: (CalendarSyntaxError failure, string) result) = Inr (take 10 s)"
    using slice_no_panic [OF assms(1), of 0 10] len asc by simp
  show "(str_slice s 11 (length s) :: (CalendarSyntaxError failure, string) result) = Inr (drop 11 s)"
    using slice_no_panic [OF assms(1), of 11 "length s"] len asc by (simp add: numeral_eq_Suc)
qed

lemma parse_datetime_no_panic: "scalars s \<Longrightarrow> parse_datetime J s \<noteq> Inl Panic"
  using datetime_split [of s] parse_date_no_panic parse_time_no_panic
  by (auto simp: parse_datetime_def result_simps)

lemma parse_datetime_iff:
  assumes "scalars s"
  shows "parse_datetime J s = Inr X \<longleftrightarrow>
     (\<exists>a D b T sep. date_text J a D \<and> time_text J b T \<and> sep \<in> {CHR ''T'', CHR '' ''}
        \<and> s = a @ sep # b \<and> X = to_datetime J D T)"  (is "?L \<longleftrightarrow> ?R")
proof
  assume p: ?L
  then have shape: "length s \<in> {16, 19}" "s ! 10 \<in> {CHR ''T'', CHR '' ''}"
    by (auto simp: parse_datetime_def split: if_splits)
  note split = datetime_split [OF assms shape]
  from p shape obtain D T where
    "parse_date J (take 10 s) = Inr D" "parse_time J (drop 11 s) = Inr T" "X = to_datetime J D T"
    unfolding parse_datetime_def split(4,5) by (auto simp: result_simps)
  then have "date_text J (take 10 s) D" "time_text J (drop 11 s) T" "X = to_datetime J D T"
    using split(2,3) by (simp_all add: parse_date_iff parse_time_iff)
  with split(1) shape(2) show ?R by blast
next
  assume ?R
  then obtain a D b T sep where a: "date_text J a D" and b: "time_text J b T"
    and sep: "sep \<in> {CHR ''T'', CHR '' ''}" and s: "s = a @ sep # b" and X: "X = to_datetime J D T"
    by blast
  have la: "length a = 10" and lb: "length b = 5 \<or> length b = 8"
    using date_text_ascii [OF a] time_text_ascii [OF b] by auto
  have shape: "length s \<in> {16, 19}" "s ! 10 \<in> {CHR ''T'', CHR '' ''}"
    using la lb sep by (auto simp: s nth_append)
  note split = datetime_split [OF assms shape]
  have "take 10 s = a" "drop 11 s = b"
    using la by (simp_all add: s)
  then have "parse_date J (take 10 s) = Inr D" "parse_time J (drop 11 s) = Inr T"
    using parse_date_iff [OF split(2), of J] parse_time_iff [OF split(3), of J] a b by simp_all
  then show ?L
    unfolding parse_datetime_def using shape split(4,5) X by (simp add: result_simps)
qed

lemma calendar_text_forms:
  assumes "scalars s"
  shows "calendar_text J s C \<longleftrightarrow>
     (\<exists>T. time_text J s T \<and> C = Time T) \<or> (\<exists>D. date_text J s D \<and> C = Date D) \<or>
     (\<exists>X. parse_datetime J s = Inr X \<and> C = DateTime X)" (is "_ \<longleftrightarrow> ?R")
proof
  assume "calendar_text J s C"
  then show ?R
  proof cases
    case (datetime a D b T sep)
    then have "parse_datetime J s = Inr (to_datetime J D T)"
      unfolding parse_datetime_iff [OF assms] by blast
    with datetime show ?thesis by simp
  qed simp_all
next
  assume ?R
  then show "calendar_text J s C"
    unfolding parse_datetime_iff [OF assms]
    by (elim disjE exE conjE) (simp_all only: calendar_text.intros)
qed

lemma parse_datetime_separators:
  assumes "scalars s" "parse_datetime J s = Inr X"
  shows "CHR ''-'' \<in> set s \<and> CHR '':'' \<in> set s"
proof -
  obtain a D b T sep where "date_text J a D" "time_text J b T" "s = a @ sep # b"
    using assms(2) unfolding parse_datetime_iff [OF assms(1)] by blast
  then show ?thesis
    using date_text_separators [of J a D] time_text_separators [of J b T] by simp
qed

lemma parse_calendar_iff:
  assumes "utf8_valid s"
  shows "parse_calendar J s = Inr C \<longleftrightarrow> calendar_text J (trim s) C"
proof -
  define t where "t = trim s"
  have sc: "scalars t"
    unfolding t_def using assms by (simp add: scalars_trim utf8_scalars)
  have no_dt: "parse_datetime J t \<noteq> Inr X" if "CHR ''-'' \<notin> set t \<or> CHR '':'' \<notin> set t" for X
    using that parse_datetime_separators [OF sc, of J X] by auto
  have no_t: "\<not> time_text J t T" if "CHR '':'' \<notin> set t \<or> CHR ''-'' \<in> set t" for T
    using that time_text_separators [of J t T] by auto
  have no_d: "\<not> date_text J t D" if "CHR '':'' \<in> set t \<or> CHR ''-'' \<notin> set t" for D
    using that date_text_separators [of J t D] by auto
  have "t = [] \<Longrightarrow> CHR ''-'' \<notin> set t \<and> CHR '':'' \<notin> set t"
    by simp
  then show ?thesis
    unfolding parse_calendar_def Let_def t_def [symmetric] calendar_text_forms [OF sc]
    using no_dt no_t no_d parse_date_iff [OF sc, of J] parse_time_iff [OF sc, of J]
    by (cases "CHR '':'' \<in> set t"; cases "CHR ''-'' \<in> set t") (auto simp: result_simps)
qed

lemma parse_calendar_total:
  assumes "utf8_valid s"
  shows "parse_calendar J s \<noteq> Inl Panic"
proof -
  have "scalars (trim s)"
    using assms by (simp add: scalars_trim utf8_scalars)
  then show ?thesis
    by (auto simp: parse_calendar_def Let_def result_simps parse_date_no_panic
        parse_time_no_panic parse_datetime_no_panic)
qed

section \<open>Properties\<close>

text \<open>
  C39. On well-formed UTF-8 the calendar parser never panics at a slice, and accepts exactly
  the texts \<open>HH:MM\<close>, \<open>HH:MM:SS\<close>, \<open>YYYY-MM-DD\<close> and a date and a time joined by \<open>T\<close> or
  a space, with the fields that the calendar library accepts.
\<close>

theorem calendar_parser_accepts_grammar:
  assumes "utf8_valid s"
  shows "parse_calendar J s \<noteq> Inl Panic
    \<and> (parse_calendar J s = Inr C \<longleftrightarrow> calendar_text J (trim s) C)"
  using parse_calendar_total [OF assms] parse_calendar_iff [OF assms] by (rule conjI)

text \<open>A small calendar: the fields themselves, within their ranges.\<close>

definition sample_civil :: "(int \<times> int \<times> int, int \<times> int \<times> int, (int \<times> int \<times> int) \<times> (int \<times> int \<times> int)) civil"
where
  "sample_civil =
     \<lparr> date_new = (\<lambda>y m d. if 1 \<le> m \<and> m \<le> 12 \<and> 1 \<le> d \<and> d \<le> 28 then Some (y, m, d) else None),
       time_new = (\<lambda>h m s. if h < 24 \<and> m < 60 \<and> s < 60 then Some (h, m, s) else None),
       to_datetime = Pair, midnight = (0, 0, 0),
       tomorrow = (\<lambda>(y, m, d). if d < 28 then Some (y, m, d + 1) else None) \<rparr>"

theorem calendar_parser_accepts_grammar_witness:
  "utf8_valid ''12:30'' \<and> parse_calendar sample_civil ''12:30'' \<noteq> Inl Panic \<and>
   (parse_calendar sample_civil ''12:30'' = Inr (Time (12, 30, 0)) \<longleftrightarrow>
     calendar_text sample_civil (trim ''12:30'') (Time (12, 30, 0)))"
proof -
  have "utf8_valid ''12:30''" by (simp add: byte_def)
  then show ?thesis
    using calendar_parser_accepts_grammar [of "''12:30''" sample_civil] by blast
qed

lemma resolve_time_only_eq_Inr:
  "resolve_time_only J Z t tz dst nr now = Inr u \<Longrightarrow>
     now < u \<or> \<not> nr \<and> (\<exists>d c. tomorrow J (zoned_date Z tz now) = Some d
       \<and> resolve_datetime Z (to_datetime J (zoned_date Z tz now) t) tz dst = Inr c \<and> c \<le> now
       \<and> resolve_datetime Z (to_datetime J d t) tz dst = Inr u)"
  by (auto simp: resolve_time_only_def Let_def result_simps split: if_splits)

lemma require_future_eq_Inr: "require_future c now = Inr u \<longleftrightarrow> u = c \<and> now < c"
  by (auto simp: require_future_def)

text \<open>
  A resolved calendar input lies strictly in the future, except that a bare time that has
  passed today is moved to the next local day, and only when rollover is allowed.
\<close>

theorem calendar_resolution_future:
  assumes "resolve_calendar J Z input selection dst no_rollover now = Inr r"
  shows "now < resolved_utc r \<or>
    \<not> no_rollover \<and> (\<exists>t tz zone d c. parse_calendar J input = Inr (Time t)
      \<and> resolve_time_zone Z selection = Inr (tz, zone)
      \<and> tomorrow J (zoned_date Z tz now) = Some d
      \<and> resolve_datetime Z (to_datetime J (zoned_date Z tz now) t) tz dst = Inr c \<and> c \<le> now
      \<and> resolve_datetime Z (to_datetime J d t) tz dst = Inr (resolved_utc r))"
proof -
  obtain p tz zone u where p: "parse_calendar J input = Inr p"
    and z: "resolve_time_zone Z selection = Inr (tz, zone)"
    and u: "resolve_parsed J Z p tz dst no_rollover now = Inr u" and r: "resolved_utc r = u"
    using assms by (auto simp: resolve_calendar_def result_simps)
  show ?thesis
  proof (cases p)
    case (Time t)
    with u have "resolve_time_only J Z t tz dst no_rollover now = Inr u"
      by (simp add: resolve_parsed_def)
    from resolve_time_only_eq_Inr [OF this] show ?thesis
      using p z Time by (auto simp: r)
  qed (use u in \<open>auto simp: resolve_parsed_def result_simps require_future_eq_Inr r\<close>)
qed

definition sample_zones ::
  "(int \<times> int \<times> int, int \<times> int \<times> int, (int \<times> int \<times> int) \<times> (int \<times> int \<times> int), unit, unit) zones"
where
  "sample_zones =
     \<lparr> tzdb_get = (\<lambda>n. if n = ''UTC'' then Some (n, ()) else None), tzif = (\<lambda>_ _. Some ()),
       try_system = None, iana_name = (\<lambda>_. None), tzdb_VERSION = Some ''2025b'',
       offset_kind = (\<lambda>_ _. Unambiguous), earlier = (\<lambda>_ _. None), later = (\<lambda>_ _. None),
       unambiguous = (\<lambda>_ ((y, m, d), (h, mi, s)). Some (86400 * d + 3600 * h + 60 * mi + s)),
       zoned_date = (\<lambda>_ t. (2025, 1, t div 86400)) \<rparr>"

lemma sample_noon: "parse_calendar sample_civil ''12:30'' = Inr (Time (12, 30, 0))"
proof -
  have "calendar_text sample_civil (''12'' @ '':'' @ ''30'') (Time (12, 30, 0))"
    by (intro calendar_text.time time_text.short)
      (auto simp: sample_civil_def is_ascii_digit_def byte_def decimal_value_def digit_val_def)
  moreover have "trim ''12:30'' = ''12:30''"
    by (rule trim_ascii) (simp_all add: byte_def)
  moreover have "utf8_valid ''12:30''"
    by (simp add: byte_def)
  ultimately show ?thesis
    by (simp add: parse_calendar_iff)
qed

theorem calendar_resolution_future_witness:
  "\<exists>r. resolve_calendar sample_civil sample_zones ''12:30'' Utc Reject True 86400 = Inr r
     \<and> 86400 < resolved_utc r"
proof -
  have "resolve_time_zone sample_zones Utc = Inr ((), ''UTC'')"
    by (simp add: resolve_time_zone_def requested_zone_def sample_zones_def)
  moreover have "resolve_parsed sample_civil sample_zones (Time (12, 30, 0)) () Reject True 86400 = Inr 131400"
    by (simp add: resolve_parsed_def resolve_time_only_def resolve_datetime_def sample_zones_def
        sample_civil_def)
  ultimately have "\<exists>r. resolve_calendar sample_civil sample_zones ''12:30'' Utc Reject True 86400 = Inr r"
    by (simp add: resolve_calendar_def sample_noon)
  then show ?thesis
    using calendar_resolution_future [of sample_civil sample_zones "''12:30''" Utc Reject True 86400] by blast
qed

end
