(* ===== verification/Recurrence.thy ===== *)
theory Recurrence
  imports Duration Calendar
begin

text \<open>
  Schedules (\<open>src/domain/schedule.rs\<close>) and the deadline arithmetic of
  \<open>src/domain/recurrence.rs\<close>: deadlines relative to now, and the next occurrence of a
  fixed-rate schedule.

  Elapsed time is a \<open>u128\<close> count of nanoseconds; wall-clock arithmetic is done on \<open>i128\<close>
  counts with every overflow test of the code.  The range of \<open>jiff::Timestamp\<close> is the
  parameter \<open>accepts\<close>.
\<close>

section \<open>Schedules\<close>

datatype RuntimeTier = Session | Durable

datatype MissedPolicy = Hold | RunLatest | Skip

datatype Schedule =
    OneShotRelative DurationSeconds UtcTimestamp
  | OneShotAbsolute string string string UtcTimestamp DstResolution
  | RecurringInterval DurationSeconds UtcTimestamp

definition one_shot_relative :: "DurationSeconds \<Rightarrow> UtcTimestamp \<Rightarrow> Schedule" where
  "one_shot_relative d due = OneShotRelative d due"

definition one_shot_absolute ::
  "string \<Rightarrow> string \<Rightarrow> string \<Rightarrow> UtcTimestamp \<Rightarrow> DstResolution \<Rightarrow> Schedule" where
  "one_shot_absolute input tz version due dst = OneShotAbsolute input tz version due dst"

fun Schedule_next_due_utc :: "Schedule \<Rightarrow> UtcTimestamp" where
  "Schedule_next_due_utc (OneShotRelative _ due) = due"
| "Schedule_next_due_utc (OneShotAbsolute _ _ _ due _) = due"
| "Schedule_next_due_utc (RecurringInterval _ anchor) = anchor"

fun Schedule_timezone_database_version :: "Schedule \<Rightarrow> string" where
  "Schedule_timezone_database_version (OneShotAbsolute _ _ version _ _) = version"
| "Schedule_timezone_database_version _ = ''not-applicable''"

section \<open>Elapsed time\<close>

datatype DeadlineError = Overflow

datatype ElapsedInstant = ElapsedInstant (as_nanos: u128)

instantiation ElapsedInstant :: linorder
begin

definition less_eq_ElapsedInstant :: "ElapsedInstant \<Rightarrow> ElapsedInstant \<Rightarrow> bool" where
  "less_eq_ElapsedInstant a b = (as_nanos a \<le> as_nanos b)"

definition less_ElapsedInstant :: "ElapsedInstant \<Rightarrow> ElapsedInstant \<Rightarrow> bool" where
  "less_ElapsedInstant a b = (as_nanos a < as_nanos b)"

instance
  by standard
    (auto simp: less_eq_ElapsedInstant_def less_ElapsedInstant_def ElapsedInstant.expand)

end

definition NANOS_PER_SECOND :: u128 where
  "NANOS_PER_SECOND = 1000000000"

definition checked_add_seconds ::
  "ElapsedInstant \<Rightarrow> DurationSeconds \<Rightarrow> (DeadlineError, ElapsedInstant) result" where
  "checked_add_seconds self d =
     try_bind (ok_or DeadlineError.Overflow (checked_mul (ucast (duration_get d)) NANOS_PER_SECOND))
       (\<lambda>nanoseconds. map_ok ElapsedInstant
          (ok_or DeadlineError.Overflow (checked_add (as_nanos self) nanoseconds)))"

record RelativeDeadline =
  elapsed_due :: ElapsedInstant
  relative_due_utc :: UtcTimestamp

definition is_due :: "RelativeDeadline \<Rightarrow> ElapsedInstant \<Rightarrow> bool" where
  "is_due d now = (as_nanos (elapsed_due d) \<le> as_nanos now)"

text \<open>\<open>i64::try_from\<close> on a \<open>u64\<close>.\<close>

definition i64_try_from :: "u64 \<Rightarrow> int option" where
  "i64_try_from n = (if unat n < 2 ^ 63 then Some (uint n) else None)"

definition relative_deadline ::
  "(int \<Rightarrow> bool) \<Rightarrow> UtcTimestamp \<Rightarrow> ElapsedInstant \<Rightarrow> DurationSeconds \<Rightarrow>
     (DeadlineError, RelativeDeadline) result" where
  "relative_deadline accepts wall_now elapsed_now d =
     try_bind (ok_or DeadlineError.Overflow (i64_try_from (duration_get d)))
       (\<lambda>seconds. try_bind
          (if accepts (wall_now + seconds * 1000000000)
           then Inr (wall_now + seconds * 1000000000) else Inl DeadlineError.Overflow)
          (\<lambda>due_utc. try_bind (checked_add_seconds elapsed_now d)
             (\<lambda>due. Inr \<lparr> elapsed_due = due, relative_due_utc = due_utc \<rparr>)))"

section \<open>Fixed-rate recurrence\<close>

definition next_fixed_rate ::
  "ElapsedInstant \<Rightarrow> ElapsedInstant \<Rightarrow> DurationSeconds \<Rightarrow> (DeadlineError, ElapsedInstant) result"
where
  "next_fixed_rate anchor now d =
     (if as_nanos now < as_nanos anchor then Inr anchor
      else try_bind
        (ok_or DeadlineError.Overflow (checked_mul (ucast (duration_get d)) NANOS_PER_SECOND))
        (\<lambda>interval_nanos. try_bind
           (ok_or DeadlineError.Overflow (checked_sub (as_nanos now) (as_nanos anchor)))
           (\<lambda>elapsed. try_bind
              (ok_or DeadlineError.Overflow
                (Option.bind (checked_div elapsed interval_nanos) (\<lambda>v. checked_add v 1)))
              (\<lambda>periods. try_bind
                 (ok_or DeadlineError.Overflow (checked_mul periods interval_nanos))
                 (\<lambda>offset. map_ok ElapsedInstant
                    (ok_or DeadlineError.Overflow (checked_add (as_nanos anchor) offset)))))))"

text \<open>\<open>i128::checked_div\<close> truncates toward zero.\<close>

definition checked_div_i128 :: "int \<Rightarrow> int \<Rightarrow> int option" where
  "checked_div_i128 a b =
     (if b = 0 then None else checked_i128 (sgn a * sgn b * (\<bar>a\<bar> div \<bar>b\<bar>)))"

definition next_fixed_rate_utc ::
  "(int \<Rightarrow> bool) \<Rightarrow> UtcTimestamp \<Rightarrow> UtcTimestamp \<Rightarrow> DurationSeconds \<Rightarrow>
     (DeadlineError, UtcTimestamp) result" where
  "next_fixed_rate_utc accepts anchor now d =
     (if now < anchor then Inr anchor
      else try_bind
        (ok_or DeadlineError.Overflow (checked_i128 (uint (duration_get d) * 1000000000)))
        (\<lambda>interval_nanos. try_bind
           (ok_or DeadlineError.Overflow (checked_i128 (now - anchor)))
           (\<lambda>elapsed. try_bind
              (ok_or DeadlineError.Overflow
                (Option.bind (checked_div_i128 elapsed interval_nanos) (\<lambda>v. checked_i128 (v + 1))))
              (\<lambda>periods. try_bind
                 (try_bind (ok_or DeadlineError.Overflow (checked_i128 (periods * interval_nanos)))
                    (\<lambda>offset. ok_or DeadlineError.Overflow (checked_i128 (anchor + offset))))
                 (\<lambda>next. if accepts next then Inr next else Inl DeadlineError.Overflow)))))"

section \<open>The grid of a fixed-rate schedule\<close>

definition period :: "DurationSeconds \<Rightarrow> int" where
  "period d = uint (duration_get d) * 1000000000"

text \<open>The occurrences of a schedule: the anchor and every whole number of periods after it.\<close>

definition on_grid :: "UtcTimestamp \<Rightarrow> DurationSeconds \<Rightarrow> UtcTimestamp \<Rightarrow> bool" where
  "on_grid anchor d t = (anchor \<le> t \<and> period d dvd t - anchor)"

text \<open>The first occurrence strictly after \<open>now\<close>, in closed form.\<close>

definition next_slot :: "UtcTimestamp \<Rightarrow> UtcTimestamp \<Rightarrow> DurationSeconds \<Rightarrow> UtcTimestamp" where
  "next_slot anchor now d =
     (if now < anchor then anchor
      else anchor + ((now - anchor) div period d + 1) * period d)"

lemma valid_duration_period:
  assumes "valid_duration d"
  shows "1000000000 \<le> period d" "period d \<le> 31536000000000000"
proof -
  have "uint (duration_get d) = int (unat (duration_get d))"
    by simp
  then show "1000000000 \<le> period d" "period d \<le> 31536000000000000"
    using assms by (simp_all only: valid_duration_def period_def) linarith+
qed

lemma int_div_le: "0 \<le> a \<Longrightarrow> 0 < b \<Longrightarrow> a div b \<le> a" for a b :: int
  using zdiv_mono2 [of a 1 b] by simp

lemma int_div_mult_le: "0 < b \<Longrightarrow> a div b * b \<le> a" for a b :: int
  using pos_mod_sign [of b a] div_mult_mod_eq [of a b] by linarith

lemma int_less_div_mult: "0 < b \<Longrightarrow> a < (a div b + 1) * b" for a b :: int
  using pos_mod_bound [of b a] div_mult_mod_eq [of a b]
  unfolding distrib_right by linarith

lemma next_slot_after:
  assumes "0 < period d"
  shows "now < next_slot anchor now d"
proof (cases "now < anchor")
  case True
  then show ?thesis by (simp add: next_slot_def)
next
  case False
  have "now - anchor < ((now - anchor) div period d + 1) * period d"
    using assms by (rule int_less_div_mult)
  with False show ?thesis by (simp add: next_slot_def)
qed

lemma next_slot_on_grid: "0 < period d \<Longrightarrow> on_grid anchor d (next_slot anchor now d)"
  by (auto simp: next_slot_def on_grid_def pos_imp_zdiv_nonneg_iff)

lemma next_slot_least:
  assumes pos: "0 < period d" and "on_grid anchor d t" "now < t"
  shows "next_slot anchor now d \<le> t"
proof (cases "now < anchor")
  case True
  with assms show ?thesis by (simp add: next_slot_def on_grid_def)
next
  case False
  obtain k where "t - anchor = period d * k"
    using assms(2) unfolding on_grid_def by (blast elim: dvdE)
  then have t: "t = anchor + k * period d"
    by (simp add: algebra_simps)
  have "(now - anchor) div period d * period d < k * period d"
    using int_div_mult_le [OF pos, of "now - anchor"] assms(3) by (simp add: t)
  then have "(now - anchor) div period d < k"
    using pos by simp
  then have "((now - anchor) div period d + 1) * period d \<le> k * period d"
    using pos by (intro mult_right_mono) simp_all
  with False show ?thesis by (simp add: next_slot_def t)
qed


text \<open>What the code computes, when the range tests of the library bound what they accept.\<close>

lemma checked_div_i128_pos:
  "0 \<le> a \<Longrightarrow> a < 2 ^ 127 \<Longrightarrow> 0 < b \<Longrightarrow> checked_div_i128 a b = Some (a div b)"
proof -
  assume *: "0 \<le> a" "a < 2 ^ 127" "0 < b"
  have div: "sgn a * sgn b * (\<bar>a\<bar> div \<bar>b\<bar>) = a div b"
    using * by (cases "a = 0") simp_all
  have "0 \<le> a div b" "a div b \<le> a"
    using * by (simp_all add: pos_imp_zdiv_nonneg_iff int_div_le)
  moreover have "- (2 ^ 127) \<le> (0 :: int)"
    by simp
  ultimately have "- (2 ^ 127) \<le> a div b" "a div b < 2 ^ 127"
    using * by linarith+
  with div \<open>0 < b\<close> show ?thesis
    by (simp only: checked_div_i128_def checked_i128_def) auto
qed

lemma next_slot_bounds:
  assumes "0 < period d" "anchor \<le> now"
  shows "next_slot anchor now d \<le> now + period d"
proof -
  have "(now - anchor) div period d * period d \<le> now - anchor"
    using assms(1) by (rule int_div_mult_le)
  then show ?thesis
    using assms(2) by (simp add: next_slot_def distrib_right)
qed

lemma next_fixed_rate_utc_eq:
  assumes d: "valid_duration d" and "\<bar>anchor\<bar> < 2 ^ 100" "\<bar>now\<bar> < 2 ^ 100"
  shows "next_fixed_rate_utc accepts anchor now d =
     (if now < anchor \<or> accepts (next_slot anchor now d) then Inr (next_slot anchor now d)
      else Inl DeadlineError.Overflow)"
proof (cases "now < anchor")
  case True
  then show ?thesis by (simp add: next_fixed_rate_utc_def next_slot_def)
next
  case False
  note per = valid_duration_period [OF d]
  have el: "0 \<le> now - anchor" "now - anchor < 2 ^ 101"
    using assms False by auto
  define q where "q = (now - anchor) div period d"
  have q: "0 \<le> q" "q \<le> now - anchor"
    unfolding q_def using el per by (simp_all add: pos_imp_zdiv_nonneg_iff int_div_le)
  have slot: "next_slot anchor now d = anchor + (q + 1) * period d"
    using False by (simp add: next_slot_def q_def)
  have hi: "anchor + (q + 1) * period d \<le> now + period d"
    using next_slot_bounds [of d anchor now] per False slot by simp
  have lo: "0 \<le> (q + 1) * period d"
    using q per by simp
  define off where "off = (q + 1) * period d"
  have "checked_i128 (period d) = Some (period d)"
    "checked_i128 (now - anchor) = Some (now - anchor)"
    "checked_i128 (q + 1) = Some (q + 1)"
    "checked_i128 off = Some off"
    "checked_i128 (anchor + off) = Some (anchor + off)"
    using per el q lo hi assms(2,3) unfolding off_def [symmetric] checked_i128_eq_Some by auto
  moreover have "checked_div_i128 (now - anchor) (period d) = Some q"
    unfolding q_def using el per by (intro checked_div_i128_pos) auto
  ultimately show ?thesis
    using False by (simp add: next_fixed_rate_utc_def period_def [symmetric] slot off_def [symmetric])
qed

text \<open>Two slots of the same schedule: an anchor moved along the grid keeps the grid.\<close>

lemma next_slot_moved_anchor:
  assumes "0 < period d" "on_grid anchor d a" "a \<le> now"
  shows "next_slot a now d = next_slot anchor now d"
proof -
  obtain k where "a - anchor = period d * k"
    using assms(2) unfolding on_grid_def by (blast elim: dvdE)
  then have a: "anchor = a - k * period d"
    by (simp add: algebra_simps)
  have "now - anchor = now - a + k * period d"
    by (simp add: a)
  then have "(now - anchor) div period d = (now - a) div period d + k"
    using assms(1) div_mult_self1 [of "period d" "now - a" k] by (simp only:)
  moreover have "anchor \<le> a"
    using assms(2) by (simp add: on_grid_def)
  ultimately show ?thesis
    using assms(3) by (simp add: next_slot_def a algebra_simps)
qed

section \<open>Properties\<close>

text \<open>
  C34. For an interval in range and timestamps in the library's range, the next occurrence of
  a fixed-rate schedule is the first point of the grid anchored at the schedule that lies
  strictly after now; no intermediate \<open>i128\<close> step overflows, and the only failure is a
  result outside the timestamp range.
\<close>

theorem next_fixed_rate_utc_least:
  assumes "valid_duration d" "\<bar>anchor\<bar> < 2 ^ 100" "\<bar>now\<bar> < 2 ^ 100"
  shows "\<exists>t. next_fixed_rate_utc accepts anchor now d =
      (if now < anchor \<or> accepts t then Inr t else Inl DeadlineError.Overflow)
    \<and> now < t \<and> on_grid anchor d t \<and> (\<forall>u. on_grid anchor d u \<and> now < u \<longrightarrow> t \<le> u)"
proof -
  have "0 < period d"
    using valid_duration_period(1) [OF assms(1)] by simp
  then show ?thesis
    using next_fixed_rate_utc_eq [OF assms] next_slot_after next_slot_on_grid next_slot_least
    by (intro exI [of _ "next_slot anchor now d"]) auto
qed

theorem next_fixed_rate_utc_least_witness:
  "valid_duration (DurationSeconds 60) \<and>
   (\<exists>t. next_fixed_rate_utc (\<lambda>_. True) 0 90000000000 (DurationSeconds 60) =
      (if 90000000000 < (0 :: int) \<or> True then Inr t else Inl DeadlineError.Overflow)
    \<and> 90000000000 < t \<and> on_grid 0 (DurationSeconds 60) t
    \<and> (\<forall>u. on_grid 0 (DurationSeconds 60) u \<and> 90000000000 < u \<longrightarrow> t \<le> u))"
proof -
  have v: "valid_duration (DurationSeconds 60)"
    by (simp add: valid_duration_def)
  have "\<bar>0 :: int\<bar> < 2 ^ 100" "\<bar>90000000000 :: int\<bar> < 2 ^ 100"
    by simp_all
  with v show ?thesis
    using next_fixed_rate_utc_least [of "DurationSeconds 60" 0 90000000000 "\<lambda>_. True"] by blast
qed

lemma unat_nanos:
  "unat (ucast (n :: u64) :: u128) = unat n" "unat NANOS_PER_SECOND = 1000000000"
  by (simp_all add: NANOS_PER_SECOND_def unsigned_ucast_eq take_bit_nat_eq_self_iff
      order.strict_trans2 [OF unsigned_less])

lemma checked_add_seconds_eq_Inr:
  "checked_add_seconds now d = Inr t \<longleftrightarrow>
     unat (as_nanos t) = unat (as_nanos now) + unat (duration_get d) * 1000000000"
proof -
  have "unat (duration_get d) * 1000000000 < 2 ^ 128"
    using unsigned_less [of "duration_get d", where 'a = nat] by simp
  then have m: "unat (of_nat (unat (duration_get d) * 1000000000) :: u128) = unat (duration_get d) * 1000000000"
    by (intro unat_of_nat_less) simp
  define m where "m = (of_nat (unat (duration_get d) * 1000000000) :: u128)"
  note m = m [folded m_def]
  have "checked_mul (ucast (duration_get d)) NANOS_PER_SECOND = Some m"
    by (simp add: checked_simps unat_nanos m)
  then show ?thesis
    by (cases t) (auto simp: checked_add_seconds_def result_simps checked_add_eq_Some m)
qed

text \<open>
  A relative deadline moves both clocks by exactly the duration, and is refused only when
  one of the two results is out of range.
\<close>

theorem relative_deadline_both_clocks:
  assumes "valid_duration d"
  shows "relative_deadline accepts wall now d = Inr r \<longleftrightarrow>
    accepts (wall + period d) \<and> relative_due_utc r = wall + period d
    \<and> unat (as_nanos (elapsed_due r)) = unat (as_nanos now) + nat (period d)"
proof -
  have "i64_try_from (duration_get d) = Some (uint (duration_get d))"
    using assms by (simp add: i64_try_from_def valid_duration_def)
  moreover have "nat (period d) = unat (duration_get d) * 1000000000"
    by (simp add: period_def nat_mult_distrib)
  ultimately show ?thesis
    by (cases r)
      (auto simp: relative_deadline_def result_simps checked_add_seconds_eq_Inr period_def)
qed

theorem relative_deadline_both_clocks_witness:
  "relative_deadline (\<lambda>_. True) 5 (ElapsedInstant 7) (DurationSeconds 60) =
     Inr \<lparr> elapsed_due = ElapsedInstant 60000000007, relative_due_utc = 60000000005 \<rparr>"
  by (subst relative_deadline_both_clocks)
    (simp_all add: valid_duration_def period_def)

end
