(* ===== verification/Transitions.thy ===== *)
theory Transitions
  imports Prelude
begin

text \<open>
  The state machines of jobs and runs: \<open>src/domain/state.rs\<close> and
  \<open>src/domain/transition.rs\<close>.  The legality tests of \<open>job_transition\<close> and
  \<open>run_transition\<close> give step relations on states; the theory shows that one-shot jobs and
  runs only move forward, that terminal states are final, and what a completed command
  makes of its run.
\<close>

section \<open>States\<close>

datatype JobState =
    Scheduled
  | Waiting
  | Starting
  | Running
  | CancelRequested
  | Succeeded
  | Failed
  | Cancelled
  | Interrupted
  | Missed

definition JobState_ALL :: "JobState list" where
  "JobState_ALL =
     [JobState.Scheduled, JobState.Waiting, JobState.Starting, JobState.Running,
      JobState.CancelRequested, JobState.Succeeded, JobState.Failed, JobState.Cancelled,
      JobState.Interrupted, JobState.Missed]"

definition JobState_is_terminal :: "JobState \<Rightarrow> bool" where
  "JobState_is_terminal s =
     (case s of
        JobState.Succeeded \<Rightarrow> True | JobState.Failed \<Rightarrow> True | JobState.Cancelled \<Rightarrow> True
      | JobState.Interrupted \<Rightarrow> True | JobState.Missed \<Rightarrow> True | _ \<Rightarrow> False)"

datatype RunState =
    Starting
  | Running
  | CancelRequested
  | Succeeded
  | Failed
  | Cancelled
  | Interrupted

definition RunState_ALL :: "RunState list" where
  "RunState_ALL =
     [RunState.Starting, RunState.Running, RunState.CancelRequested, RunState.Succeeded,
      RunState.Failed, RunState.Cancelled, RunState.Interrupted]"

definition RunState_is_terminal :: "RunState \<Rightarrow> bool" where
  "RunState_is_terminal s =
     (case s of
        RunState.Succeeded \<Rightarrow> True | RunState.Failed \<Rightarrow> True | RunState.Cancelled \<Rightarrow> True
      | RunState.Interrupted \<Rightarrow> True | _ \<Rightarrow> False)"

section \<open>Transitions\<close>

datatype TransitionActor = Cli | Supervisor | Monitor | Recovery

datatype TransitionError = Illegal | InvalidReason | CancellationNotCommitted

record 's Transition =
  tr_from :: 's
  tr_to :: 's
  tr_actor :: TransitionActor
  tr_reason :: string

definition transition ::
  "'s \<Rightarrow> 's \<Rightarrow> TransitionActor \<Rightarrow> string \<Rightarrow> bool \<Rightarrow> (TransitionError, 's Transition) result"
where
  "transition from to actor reason legal =
     (if \<not> legal then Inl Illegal
      else if reason = [] \<or> contains_nul reason then Inl InvalidReason
      else Inr \<lparr> tr_from = from, tr_to = to, tr_actor = actor, tr_reason = reason \<rparr>)"

definition one_shot_legal :: "JobState \<Rightarrow> JobState \<Rightarrow> bool" where
  "one_shot_legal from to =
     (case from of
        JobState.Scheduled \<Rightarrow>
          to \<in> {JobState.Waiting, JobState.CancelRequested, JobState.Missed}
      | JobState.Waiting \<Rightarrow>
          to \<in> {JobState.Starting, JobState.CancelRequested, JobState.Missed}
      | JobState.Starting \<Rightarrow>
          to \<in> {JobState.Running, JobState.Failed, JobState.CancelRequested, JobState.Interrupted}
      | JobState.Running \<Rightarrow>
          to \<in> {JobState.Succeeded, JobState.Failed, JobState.CancelRequested, JobState.Interrupted}
      | JobState.CancelRequested \<Rightarrow>
          to \<in> {JobState.Cancelled, JobState.Succeeded, JobState.Failed, JobState.Interrupted}
      | _ \<Rightarrow> False)"

definition recurring_legal :: "JobState \<Rightarrow> JobState \<Rightarrow> bool" where
  "recurring_legal from to =
     (from \<in> {JobState.Starting, JobState.Running, JobState.Succeeded, JobState.Failed,
              JobState.Interrupted, JobState.Missed} \<and> to = JobState.Waiting)"

definition job_transition ::
  "JobState \<Rightarrow> JobState \<Rightarrow> bool \<Rightarrow> TransitionActor \<Rightarrow> string \<Rightarrow>
     (TransitionError, JobState Transition) result" where
  "job_transition from to recurring actor reason =
     transition from to actor reason
       (one_shot_legal from to \<or> recurring \<and> recurring_legal from to)"

definition run_legal :: "RunState \<Rightarrow> RunState \<Rightarrow> bool" where
  "run_legal from to =
     (case from of
        RunState.Starting \<Rightarrow>
          to \<in> {RunState.Running, RunState.Failed, RunState.CancelRequested, RunState.Interrupted}
      | RunState.Running \<Rightarrow>
          to \<in> {RunState.Succeeded, RunState.Failed, RunState.CancelRequested, RunState.Interrupted}
      | RunState.CancelRequested \<Rightarrow>
          to \<in> {RunState.Cancelled, RunState.Succeeded, RunState.Failed, RunState.Interrupted}
      | _ \<Rightarrow> False)"

definition run_transition ::
  "RunState \<Rightarrow> RunState \<Rightarrow> TransitionActor \<Rightarrow> string \<Rightarrow>
     (TransitionError, RunState Transition) result" where
  "run_transition from to actor reason = transition from to actor reason (run_legal from to)"

datatype Completion =
    Exit int
  | Signal int
  | Failure
  | Interrupted
  | TerminatedByCancellation

definition complete_run :: "RunState \<Rightarrow> Completion \<Rightarrow> (TransitionError, RunState) result" where
  "complete_run current completion =
     try_bind
       (case completion of
          Exit code \<Rightarrow> Inr (if code = 0 then RunState.Succeeded else RunState.Failed)
        | Signal _ \<Rightarrow> Inr RunState.Failed
        | Failure \<Rightarrow> Inr RunState.Failed
        | Completion.Interrupted \<Rightarrow> Inr RunState.Interrupted
        | TerminatedByCancellation \<Rightarrow>
            (if current \<noteq> RunState.CancelRequested then Inl CancellationNotCommitted
             else Inr RunState.Cancelled))
       (\<lambda>target. map_ok tr_to (run_transition current target Monitor ''command completion''))"

section \<open>Step relations\<close>

text \<open>One accepted transition of a job, and of a run, whoever asks for it.\<close>

inductive job_step :: "bool \<Rightarrow> JobState \<Rightarrow> JobState \<Rightarrow> bool" for recurring where
  accepted: "job_transition s t recurring actor reason = Inr tr \<Longrightarrow> job_step recurring s t"

inductive run_step :: "RunState \<Rightarrow> RunState \<Rightarrow> bool" where
  accepted: "run_transition s t actor reason = Inr tr \<Longrightarrow> run_step s t"

lemma transition_eq_Inr:
  "transition s t actor reason legal = Inr tr \<longleftrightarrow>
     legal \<and> reason \<noteq> [] \<and> \<not> contains_nul reason
     \<and> tr = \<lparr> tr_from = s, tr_to = t, tr_actor = actor, tr_reason = reason \<rparr>"
  by (auto simp: transition_def)

lemma sample_reason: "''reason'' \<noteq> [] \<and> \<not> contains_nul ''reason''"
  by (simp add: contains_nul_def)

lemma job_step_iff:
  "job_step recurring s t \<longleftrightarrow> one_shot_legal s t \<or> recurring \<and> recurring_legal s t"
  using sample_reason
  by (auto simp: job_step.simps job_transition_def transition_eq_Inr)

lemma run_step_iff: "run_step s t \<longleftrightarrow> run_legal s t"
  using sample_reason
  by (auto simp: run_step.simps run_transition_def transition_eq_Inr)

section \<open>Progress of one-shot jobs and of runs\<close>

text \<open>A rank that every accepted transition raises.\<close>

definition job_rank :: "JobState \<Rightarrow> nat" where
  "job_rank s =
     (case s of
        JobState.Scheduled \<Rightarrow> 0 | JobState.Waiting \<Rightarrow> 1 | JobState.Starting \<Rightarrow> 2
      | JobState.Running \<Rightarrow> 3 | JobState.CancelRequested \<Rightarrow> 4 | _ \<Rightarrow> 5)"

definition run_rank :: "RunState \<Rightarrow> nat" where
  "run_rank s =
     (case s of
        RunState.Starting \<Rightarrow> 0 | RunState.Running \<Rightarrow> 1 | RunState.CancelRequested \<Rightarrow> 2 | _ \<Rightarrow> 3)"

lemma one_shot_step_rank: "job_step False s t \<Longrightarrow> job_rank s < job_rank t"
  by (cases s) (auto simp: job_step_iff one_shot_legal_def job_rank_def)

lemma run_step_rank: "run_step s t \<Longrightarrow> run_rank s < run_rank t"
  by (cases s) (auto simp: run_step_iff run_legal_def run_rank_def)

text \<open>Sequences of steps, with their length.\<close>

lemma relpowp_rank:
  assumes step: "\<And>s t. R s t \<Longrightarrow> f s < (f t :: nat)"
  shows "(R ^^ n) s t \<Longrightarrow> f s + n \<le> f t"
proof (induction n arbitrary: t)
  case 0
  then show ?case by simp
next
  case (Suc n)
  then obtain u where "(R ^^ n) s u" "R u t" by auto
  with Suc.IH step show ?case by fastforce
qed

lemma one_shot_steps_bounded: "(job_step False ^^ n) s t \<Longrightarrow> job_rank s + n \<le> job_rank t"
  by (rule relpowp_rank [of "job_step False", OF one_shot_step_rank])

lemma run_steps_bounded: "(run_step ^^ n) s t \<Longrightarrow> run_rank s + n \<le> run_rank t"
  by (rule relpowp_rank [of run_step, OF run_step_rank])

lemma job_rank_le: "job_rank s \<le> 5"
  by (cases s) (simp_all add: job_rank_def)

lemma run_rank_le: "run_rank s \<le> 3"
  by (cases s) (simp_all add: run_rank_def)

lemma terminal_job_step:
  "JobState_is_terminal s \<Longrightarrow> job_step recurring s t \<Longrightarrow> recurring \<and> t = JobState.Waiting"
  by (cases s) (auto simp: job_step_iff one_shot_legal_def recurring_legal_def JobState_is_terminal_def)

lemma terminal_run_no_step: "RunState_is_terminal s \<Longrightarrow> \<not> run_step s t"
  by (cases s) (auto simp: run_step_iff run_legal_def RunState_is_terminal_def)

lemma nonterminal_run_step: "\<not> RunState_is_terminal s \<Longrightarrow> run_step s RunState.Interrupted"
  by (cases s) (auto simp: run_step_iff run_legal_def RunState_is_terminal_def)

lemma nonterminal_job_step:
  "\<not> JobState_is_terminal s \<Longrightarrow>
     job_step recurring s (if s \<in> {JobState.Scheduled, JobState.Waiting} then JobState.Missed
       else JobState.Interrupted)"
  by (cases s) (simp_all add: job_step_iff one_shot_legal_def JobState_is_terminal_def)

text \<open>What completion makes of a run.\<close>

lemma completion_reason: "''command completion'' \<noteq> [] \<and> \<not> contains_nul ''command completion''"
  by (simp add: contains_nul_def)

lemma run_transition_completion:
  "map_ok tr_to (run_transition s t Monitor ''command completion'') =
     (if run_legal s t then Inr t else Inl Illegal)"
  unfolding run_transition_def transition_def using completion_reason by auto

section \<open>Properties\<close>

text \<open>
  A one-shot job takes at most five accepted transitions in its life and never returns
  to a state it left; once terminal it takes none.
\<close>

theorem one_shot_job_progress:
  assumes "(job_step False ^^ n) s t"
  shows "n \<le> 5 \<and> (0 < n \<longrightarrow> s \<noteq> t) \<and> (JobState_is_terminal s \<longrightarrow> n = 0)"
proof -
  note bound = one_shot_steps_bounded [OF assms] job_rank_le [of t]
  have "n = 0" if "JobState_is_terminal s"
    using bound that by (cases s) (simp_all add: JobState_is_terminal_def job_rank_def)
  with bound show ?thesis by auto
qed

theorem one_shot_job_progress_witness:
  "(job_step False ^^ Suc 0) JobState.Scheduled JobState.Waiting \<and> JobState.Scheduled \<noteq> JobState.Waiting"
proof -
  have "(job_step False ^^ Suc 0) JobState.Scheduled JobState.Waiting"
    by (auto simp: job_step_iff one_shot_legal_def)
  from one_shot_job_progress [OF this] this show ?thesis by blast
qed

text \<open>
  Every accepted transition of a job either moves forward in the life cycle or takes a
  recurring job back to waiting; a terminal state is left only that way.
\<close>

theorem job_transition_forward_or_rearmed:
  assumes "job_transition s t recurring actor reason = Inr tr"
  shows "(job_rank s < job_rank t \<or> recurring \<and> t = JobState.Waiting)
    \<and> (JobState_is_terminal s \<longrightarrow> recurring \<and> t = JobState.Waiting)
    \<and> tr_from tr = s \<and> tr_to tr = t \<and> tr_reason tr = reason \<and> reason \<noteq> []"
proof -
  have step: "job_step recurring s t"
    using assms by (rule job_step.accepted)
  then have "job_rank s < job_rank t \<or> recurring \<and> t = JobState.Waiting"
    using one_shot_step_rank by (auto simp: job_step_iff recurring_legal_def)
  moreover have "JobState_is_terminal s \<longrightarrow> recurring \<and> t = JobState.Waiting"
    using terminal_job_step step by blast
  moreover have "tr_from tr = s \<and> tr_to tr = t \<and> tr_reason tr = reason \<and> reason \<noteq> []"
    using assms by (auto simp: job_transition_def transition_eq_Inr)
  ultimately show ?thesis by blast
qed

theorem job_transition_forward_or_rearmed_witness:
  "\<exists>tr. job_transition JobState.Succeeded JobState.Waiting True Monitor ''next'' = Inr tr
     \<and> tr_to tr = JobState.Waiting"
proof -
  obtain tr where "job_transition JobState.Succeeded JobState.Waiting True Monitor ''next'' = Inr tr"
    by (simp add: job_transition_def transition_def recurring_legal_def contains_nul_def)
  from job_transition_forward_or_rearmed [OF this] this show ?thesis by blast
qed

text \<open>
  A run takes at most three accepted transitions, none from a terminal state; and from
  every other state it can still be closed by an interruption.
\<close>

theorem run_progress:
  "((run_step ^^ n) s t \<longrightarrow> n \<le> 3)
   \<and> (RunState_is_terminal s \<longleftrightarrow> (\<forall>u. \<not> run_step s u))
   \<and> (RunState_is_terminal s \<or> run_step s RunState.Interrupted)"
  using run_steps_bounded [of n s t] run_rank_le [of t] terminal_run_no_step [of s]
    nonterminal_run_step [of s]
  by auto

theorem run_progress_witness:
  "(run_step ^^ 0) RunState.Running RunState.Running \<and> (0 :: nat) \<le> 3
   \<and> run_step RunState.Running RunState.Interrupted"
proof -
  have "\<not> RunState_is_terminal RunState.Running"
    by (simp add: RunState_is_terminal_def)
  moreover have "(run_step ^^ 0) RunState.Running RunState.Running"
    by simp
  ultimately show ?thesis
    using run_progress [of 0 RunState.Running RunState.Running] by blast
qed

text \<open>
  Completing a run ends it: the state it gets is terminal and legal from the current one,
  it is \<open>Succeeded\<close> exactly for exit code 0, and \<open>Cancelled\<close> exactly when the command was
  terminated after a committed cancellation.
\<close>

theorem complete_run_result:
  "complete_run s c = Inr t \<longleftrightarrow>
     run_step s t \<and> RunState_is_terminal t
     \<and> (t = RunState.Succeeded \<longleftrightarrow> c = Exit 0)
     \<and> (t = RunState.Interrupted \<longleftrightarrow> c = Completion.Interrupted)
     \<and> (t = RunState.Cancelled \<longleftrightarrow> c = TerminatedByCancellation)"
  by (cases c; cases s; cases t)
    (auto simp: complete_run_def run_transition_completion run_step_iff run_legal_def
      RunState_is_terminal_def)

end
