(* ===== verification/Execution.thy ===== *)
theory Execution
  imports Prelude
begin

text \<open>
  Command execution specifications (\<open>src/domain/execution.rs\<close>): validated argument
  vectors, environments and paths, and their persisted form.

  A \<open>BTreeMap<String, _>\<close> is the association list that its iterator yields, in strictly
  ascending byte order of the keys.  An OS path is its byte string.  The JSON text format is
  serde_json's: the writer and reader are parameters.  Lengths are added as natural numbers,
  since the sum of the sizes of live objects does not exceed the address space.
\<close>

section \<open>Ordered maps\<close>

fun btree_insert :: "string \<Rightarrow> 'v \<Rightarrow> (string \<times> 'v) list \<Rightarrow> (string \<times> 'v) list" where
  "btree_insert k v [] = [(k, v)]"
| "btree_insert k v ((k', v') # m) =
     (if k = k' then (k, v) # m
      else if text_less k k' then (k, v) # (k', v') # m
      else (k', v') # btree_insert k v m)"

definition key_sorted :: "(string \<times> 'v) list \<Rightarrow> bool" where
  "key_sorted m = sorted_wrt text_less (map fst m)"

lemma text_less_total: "s \<noteq> t \<Longrightarrow> \<not> text_less s t \<Longrightarrow> text_less t s"
  by (induction s t rule: text_less.induct) auto

lemma text_less_trans: "text_less s t \<Longrightarrow> text_less t u \<Longrightarrow> text_less s u"
proof (induction s t arbitrary: u rule: text_less.induct)
  case (2 y ys)
  then show ?case by (cases u) auto
next
  case (4 x xs y ys)
  then show ?case by (cases u) auto
qed auto

lemma set_btree_insert: "set (map fst (btree_insert k v m)) = insert k (set (map fst m))"
  by (induction k v m rule: btree_insert.induct) auto

lemma btree_insert_sorted: "key_sorted m \<Longrightarrow> key_sorted (btree_insert k v m)"
proof (induction k v m rule: btree_insert.induct)
  case (1 k v)
  then show ?case by (simp add: key_sorted_def)
next
  case (2 k v k' v' m)
  then have ih: "k \<noteq> k' \<Longrightarrow> \<not> text_less k k' \<Longrightarrow> key_sorted (btree_insert k v m)"
    and srt: "sorted_wrt text_less (map fst m)" "\<forall>x \<in> set (map fst m). text_less k' x"
    by (simp_all add: key_sorted_def)
  show ?case
  proof (cases "k = k' \<or> text_less k k'")
    case True
    then show ?thesis
      using srt text_less_trans [of k k'] by (auto simp: key_sorted_def)
  next
    case False
    then have "text_less k' k"
      using text_less_total by blast
    with False ih srt show ?thesis
      using set_btree_insert [of k v m] by (simp add: key_sorted_def)
  qed
qed

lemma btree_insert_last:
  "\<forall>k' \<in> set (map fst m). text_less k' k \<Longrightarrow> btree_insert k v m = m @ [(k, v)]"
proof (induction m)
  case Nil
  then show ?case by simp
next
  case (Cons a m)
  obtain k' v' where a: "a = (k', v')" by fastforce
  have "text_less k' k"
    using Cons.prems by (simp add: a)
  then have "k \<noteq> k'" "\<not> text_less k k'"
    using text_less_irrefl text_less_trans by blast+
  with Cons show ?case by (simp add: a)
qed

section \<open>Environments\<close>

datatype ExecutionMode = Direct | Shell

datatype ExecutionError =
    EmptyArguments
  | ShellArgumentCount
  | ContainsNul string
  | ArgumentTooLarge
  | SerializedSizeExceeded
  | WorkingDirectoryNotAbsolute
  | InvalidShellPath
  | InvalidEnvironmentKey
  | InvalidNotifyTty

datatype SecretString = SecretString (expose: string)

definition SecretString_new :: "string \<Rightarrow> (ExecutionError, SecretString) result" where
  "SecretString_new value =
     (if contains_nul value then Inl (ExecutionError.ContainsNul ''environment value'')
      else Inr (SecretString value))"

definition SecretString_fmt :: "SecretString \<Rightarrow> string" where
  "SecretString_fmt s = ''[REDACTED]''"

type_synonym Environment = "(string \<times> SecretString) list"

definition validate_environment_key :: "string \<Rightarrow> (ExecutionError, unit) result" where
  "validate_environment_key key =
     (case key of
        [] \<Rightarrow> Inl ExecutionError.InvalidEnvironmentKey
      | first # bytes \<Rightarrow>
          (if \<not> (first = CHR ''_'' \<or> is_ascii_alphabetic first)
              \<or> \<not> list_all (\<lambda>c. c = CHR ''_'' \<or> is_ascii_alphanumeric c) bytes
           then Inl ExecutionError.InvalidEnvironmentKey else Inr ()))"

fun from_pairs_loop :: "(string \<times> string) list \<Rightarrow> Environment \<Rightarrow> (ExecutionError, Environment) result"
where
  "from_pairs_loop [] values = Inr values"
| "from_pairs_loop ((key, value) # pairs) values =
     try_bind (validate_environment_key key)
       (\<lambda>_. try_bind (SecretString_new value)
         (\<lambda>secret. from_pairs_loop pairs (btree_insert key secret values)))"

definition from_pairs :: "(string \<times> string) list \<Rightarrow> (ExecutionError, Environment) result" where
  "from_pairs pairs = from_pairs_loop pairs []"

definition env_serialized_size :: "Environment \<Rightarrow> nat" where
  "env_serialized_size env = sum_list (map (\<lambda>(k, v). length k + length (expose v) + 2) env)"

text \<open>The values a serialised environment shows.\<close>

definition Environment_serialize :: "Environment \<Rightarrow> (string \<times> string) list" where
  "Environment_serialize env = map (\<lambda>(k, v). (k, SecretString_fmt v)) env"

section \<open>Execution specifications\<close>

datatype StdinPolicy = Null
datatype OutputPolicy = BoundedFile

definition MAX_ARGUMENT_BYTES :: nat where
  "MAX_ARGUMENT_BYTES = 128 * 1024"

definition MAX_SERIALIZED_BYTES :: nat where
  "MAX_SERIALIZED_BYTES = 1024 * 1024"

record ExecutionSpec =
  exec_mode :: ExecutionMode
  argv :: "string list"
  working_directory :: string
  environment :: Environment
  exec_stdin :: StdinPolicy
  exec_stdout :: OutputPolicy
  exec_stderr :: OutputPolicy
  shell_path :: "string option"
  notify_tty :: "string option"

definition is_absolute :: "string \<Rightarrow> bool" where
  "is_absolute path = (case path of [] \<Rightarrow> False | c # _ \<Rightarrow> c = CHR ''/'')"

fun check_arguments :: "string list \<Rightarrow> (ExecutionError, unit) result" where
  "check_arguments [] = Inr ()"
| "check_arguments (argument # rest) =
     (if contains_nul argument then Inl (ExecutionError.ContainsNul ''argument'')
      else if MAX_ARGUMENT_BYTES < length argument then Inl ArgumentTooLarge
      else check_arguments rest)"

definition argv_size :: "string list \<Rightarrow> nat" where
  "argv_size args = sum_list (map length args)"

definition ExecutionSpec_new ::
  "ExecutionMode \<Rightarrow> string list \<Rightarrow> string \<Rightarrow> Environment \<Rightarrow> (ExecutionError, ExecutionSpec) result"
where
  "ExecutionSpec_new mode args wd env =
     (if args = [] then Inl EmptyArguments
      else if mode = Shell \<and> length args \<noteq> 1 then Inl ShellArgumentCount
      else try_bind (check_arguments args)
        (\<lambda>_. if \<not> is_absolute wd then Inl WorkingDirectoryNotAbsolute
             else if MAX_SERIALIZED_BYTES < argv_size args + env_serialized_size env + length wd
             then Inl SerializedSizeExceeded
             else Inr
               \<lparr> exec_mode = mode, argv = args, working_directory = wd, environment = env,
                 exec_stdin = Null, exec_stdout = BoundedFile, exec_stderr = BoundedFile,
                 shell_path = (if mode = Shell then Some ''/bin/sh'' else None),
                 notify_tty = None \<rparr>))"

definition set_notify_tty :: "ExecutionSpec \<Rightarrow> string \<Rightarrow> (ExecutionError, ExecutionSpec) result" where
  "set_notify_tty self tty =
     (if tty = [] \<or> contains_nul tty then Inl ExecutionError.InvalidNotifyTty
      else if MAX_SERIALIZED_BYTES
          < argv_size (argv self) + env_serialized_size (environment self)
            + length (working_directory self) + length tty
      then Inl SerializedSizeExceeded
      else Inr (self\<lparr>notify_tty := Some tty\<rparr>))"

definition set_shell_path :: "ExecutionSpec \<Rightarrow> string \<Rightarrow> (ExecutionError, ExecutionSpec) result" where
  "set_shell_path self path =
     (if exec_mode self \<noteq> Shell \<or> \<not> is_absolute path then Inl InvalidShellPath
      else Inr (self\<lparr>shell_path := Some path\<rparr>))"

section \<open>Persistence\<close>

datatype ExecutionStorageError =
    Json string
  | Invalid ExecutionError
  | InvalidPolicy
  | InvalidShell
  | InvalidNotifyTty
  | InvalidWorkingDirectoryEncoding

record PersistedExecutionSpec =
  p_mode :: ExecutionMode
  p_argv :: "string list"
  p_working_directory :: string
  p_environment :: "(string \<times> string) list"
  p_stdin :: StdinPolicy
  p_stdout :: OutputPolicy
  p_stderr :: OutputPolicy
  p_shell_path :: "string option"
  p_notify_tty :: "string option"

definition to_persisted :: "ExecutionSpec \<Rightarrow> PersistedExecutionSpec" where
  "to_persisted self =
     \<lparr> p_mode = exec_mode self, p_argv = argv self, p_working_directory = working_directory self,
       p_environment = map (\<lambda>(k, v). (k, expose v)) (environment self),
       p_stdin = exec_stdin self, p_stdout = exec_stdout self, p_stderr = exec_stderr self,
       p_shell_path = shell_path self, p_notify_tty = notify_tty self \<rparr>"

definition to_persistence_json ::
  "(PersistedExecutionSpec \<Rightarrow> (string, string) result) \<Rightarrow> ExecutionSpec \<Rightarrow>
     (ExecutionStorageError, string) result" where
  "to_persistence_json to_json self = map_err Json (to_json (to_persisted self))"

definition restore_shell ::
  "PersistedExecutionSpec \<Rightarrow> ExecutionSpec \<Rightarrow> (ExecutionStorageError, ExecutionSpec) result" where
  "restore_shell stored execution =
     (case (p_mode stored, p_shell_path stored) of
        (Direct, None) \<Rightarrow> Inr execution
      | (Shell, Some path) \<Rightarrow>
          (if is_absolute path then Inr (execution\<lparr>shell_path := Some path\<rparr>) else Inl InvalidShell)
      | _ \<Rightarrow> Inl InvalidShell)"

definition from_persisted ::
  "PersistedExecutionSpec \<Rightarrow> (ExecutionStorageError, ExecutionSpec) result" where
  "from_persisted stored =
     (if p_stdin stored \<noteq> Null \<or> p_stdout stored \<noteq> BoundedFile \<or> p_stderr stored \<noteq> BoundedFile
      then Inl InvalidPolicy
      else try_bind (map_err Invalid (from_pairs (p_environment stored)))
        (\<lambda>env. try_bind
           (if utf8_valid (p_working_directory stored) then Inr (p_working_directory stored)
            else Inl InvalidWorkingDirectoryEncoding)
           (\<lambda>wd. try_bind (map_err Invalid (ExecutionSpec_new (p_mode stored) (p_argv stored) wd env))
              (\<lambda>execution. try_bind (restore_shell stored execution)
                 (\<lambda>execution. case p_notify_tty stored of
                    None \<Rightarrow> Inr execution
                  | Some tty \<Rightarrow>
                      map_err (\<lambda>_. ExecutionStorageError.InvalidNotifyTty)
                        (set_notify_tty execution tty))))))"

definition from_persistence_json ::
  "(string \<Rightarrow> (string, PersistedExecutionSpec) result) \<Rightarrow> string \<Rightarrow>
     (ExecutionStorageError, ExecutionSpec) result" where
  "from_persistence_json from_json input =
     try_bind (map_err Json (from_json input)) from_persisted"

section \<open>Well-formed specifications\<close>

definition valid_environment :: "Environment \<Rightarrow> bool" where
  "valid_environment env =
     (key_sorted env \<and>
      list_all (\<lambda>(k, v). is_ok (validate_environment_key k) \<and> \<not> contains_nul (expose v)) env)"

definition serialized_size :: "ExecutionSpec \<Rightarrow> nat" where
  "serialized_size e =
     argv_size (argv e) + env_serialized_size (environment e) + length (working_directory e)
     + (case notify_tty e of None \<Rightarrow> 0 | Some tty \<Rightarrow> length tty)"

definition valid_arguments :: "ExecutionMode \<Rightarrow> string list \<Rightarrow> bool" where
  "valid_arguments mode args =
     (args \<noteq> [] \<and> (mode = Shell \<longrightarrow> length args = 1)
      \<and> list_all (\<lambda>a. \<not> contains_nul a \<and> length a \<le> MAX_ARGUMENT_BYTES) args)"

definition valid_execution :: "ExecutionSpec \<Rightarrow> bool" where
  "valid_execution e =
     (valid_arguments (exec_mode e) (argv e)
      \<and> is_absolute (working_directory e) \<and> utf8_valid (working_directory e)
      \<and> valid_environment (environment e)
      \<and> serialized_size e \<le> MAX_SERIALIZED_BYTES
      \<and> (case shell_path e of None \<Rightarrow> exec_mode e = Direct
         | Some p \<Rightarrow> exec_mode e = Shell \<and> is_absolute p)
      \<and> (case notify_tty e of None \<Rightarrow> True | Some t \<Rightarrow> t \<noteq> [] \<and> \<not> contains_nul t))"

lemma policies_unique [simp]: "(p :: StdinPolicy) = p'" "(q :: OutputPolicy) = q'"
  by (cases p; cases p'; simp) (cases q; cases q'; simp)

lemma SecretString_new_eq_Inr:
  "SecretString_new v = Inr s \<longleftrightarrow> s = SecretString v \<and> \<not> contains_nul v"
  by (auto simp: SecretString_new_def)

lemma check_arguments_eq_Inr:
  "check_arguments args = Inr u \<longleftrightarrow>
     list_all (\<lambda>a. \<not> contains_nul a \<and> length a \<le> MAX_ARGUMENT_BYTES) args"
  by (induction args rule: check_arguments.induct) auto

lemma list_all_btree_insert:
  "list_all P m \<Longrightarrow> P (k, v) \<Longrightarrow> list_all P (btree_insert k v m)"
  by (induction k v m rule: btree_insert.induct) auto

lemma from_pairs_loop_valid:
  "from_pairs_loop ps env = Inr env' \<Longrightarrow> valid_environment env \<Longrightarrow> valid_environment env'"
proof (induction ps env rule: from_pairs_loop.induct)
  case (1 vals)
  then show ?case by simp
next
  case (2 key val pairs vals)
  then have key: "validate_environment_key key = Inr ()" and val: "SecretString_new val = Inr (SecretString val)"
    and rest: "from_pairs_loop pairs (btree_insert key (SecretString val) vals) = Inr env'"
    by (auto simp: result_simps SecretString_new_eq_Inr)
  have "valid_environment (btree_insert key (SecretString val) vals)"
    using "2.prems"(2) key val unfolding valid_environment_def
    by (auto simp: btree_insert_sorted SecretString_new_eq_Inr intro: list_all_btree_insert)
  with 2 key val rest show ?case by blast
qed

lemma from_pairs_valid: "from_pairs ps = Inr env \<Longrightarrow> valid_environment env"
  using from_pairs_loop_valid [of ps "[]" env]
  by (simp add: from_pairs_def valid_environment_def key_sorted_def)

lemma ExecutionSpec_new_eq_Inr:
  "ExecutionSpec_new mode args wd env = Inr e \<longleftrightarrow>
     valid_arguments mode args \<and> is_absolute wd
     \<and> argv_size args + env_serialized_size env + length wd \<le> MAX_SERIALIZED_BYTES
     \<and> e = \<lparr> exec_mode = mode, argv = args, working_directory = wd, environment = env,
             exec_stdin = Null, exec_stdout = BoundedFile, exec_stderr = BoundedFile,
             shell_path = (if mode = Shell then Some ''/bin/sh'' else None), notify_tty = None \<rparr>"
  by (auto simp: ExecutionSpec_new_def valid_arguments_def result_simps check_arguments_eq_Inr)

lemma mode_cases [simp]: "m \<noteq> Shell \<longleftrightarrow> m = Direct" "m \<noteq> Direct \<longleftrightarrow> m = Shell"
  by (cases m, simp_all)+

lemma ExecutionSpec_new_valid:
  "ExecutionSpec_new mode args wd env = Inr e \<Longrightarrow> valid_environment env \<Longrightarrow> utf8_valid wd \<Longrightarrow>
     valid_execution e"
  by (simp add: ExecutionSpec_new_eq_Inr valid_execution_def serialized_size_def is_absolute_def)

lemma set_notify_tty_valid:
  "set_notify_tty e tty = Inr e' \<Longrightarrow> valid_execution e \<Longrightarrow> valid_execution e'"
  by (auto simp: set_notify_tty_def valid_execution_def serialized_size_def
      split: if_splits option.splits)

lemma set_shell_path_valid:
  "set_shell_path e path = Inr e' \<Longrightarrow> valid_execution e \<Longrightarrow> valid_execution e'"
  by (auto simp: set_shell_path_def valid_execution_def serialized_size_def
      split: if_splits option.splits)

text \<open>Reading back the pairs of an ordered environment rebuilds it.\<close>

lemma from_pairs_loop_sorted:
  "key_sorted (done @ env) \<Longrightarrow>
   list_all (\<lambda>(k, v). is_ok (validate_environment_key k) \<and> \<not> contains_nul (expose v)) env \<Longrightarrow>
   from_pairs_loop (map (\<lambda>(k, v). (k, expose v)) env) done = Inr (done @ env)"
proof (induction env arbitrary: "done")
  case Nil
  then show ?case by simp
next
  case (Cons kv env)
  obtain k v where kv: "kv = (k, v)" by fastforce
  have "\<forall>k' \<in> set (map fst done). text_less k' k"
    using Cons.prems(1) by (auto simp: key_sorted_def kv sorted_wrt_append)
  then have "btree_insert k v done = done @ [(k, v)]"
    by (rule btree_insert_last)
  with Cons show ?case
    by (auto simp: kv is_ok_iff SecretString_new_def)
qed

lemma from_pairs_roundtrip:
  "valid_environment env \<Longrightarrow> from_pairs (map (\<lambda>(k, v). (k, expose v)) env) = Inr env"
  using from_pairs_loop_sorted [of "[]" env]
  by (simp add: from_pairs_def valid_environment_def)

lemma from_persisted_roundtrip:
  assumes "valid_execution e"
  shows "from_persisted (to_persisted e) = Inr e"
proof -
  have "from_pairs (p_environment (to_persisted e)) = Inr (environment e)"
    using assms from_pairs_roundtrip by (simp add: to_persisted_def valid_execution_def)
  moreover have "argv_size (argv e) + env_serialized_size (environment e)
      + length (working_directory e) \<le> MAX_SERIALIZED_BYTES"
    using assms by (simp add: valid_execution_def serialized_size_def)
  ultimately show ?thesis
    using assms
    by (cases e; cases "exec_mode e"; cases "notify_tty e"; cases "shell_path e")
      (simp_all add: from_persisted_def to_persisted_def valid_execution_def ExecutionSpec_new_def
        valid_arguments_def check_arguments_eq_Inr restore_shell_def set_notify_tty_def
        serialized_size_def result_simps)
qed

lemma from_persisted_valid:
  assumes "from_persisted p = Inr e"
  shows "valid_execution e"
proof -
  obtain env e1 e2 where env: "from_pairs (p_environment p) = Inr env"
    and wd: "utf8_valid (p_working_directory p)"
    and e1: "ExecutionSpec_new (p_mode p) (p_argv p) (p_working_directory p) env = Inr e1"
    and e2: "restore_shell p e1 = Inr e2"
    and e: "(case p_notify_tty p of None \<Rightarrow> Inr e2 | Some tty \<Rightarrow>
       map_err (\<lambda>_. ExecutionStorageError.InvalidNotifyTty) (set_notify_tty e2 tty)) = Inr e"
    using assms by (auto simp: from_persisted_def result_simps split: if_splits)
  have v1: "valid_execution e1"
    using ExecutionSpec_new_valid [OF e1 from_pairs_valid [OF env] wd] .
  have "exec_mode e1 = p_mode p"
    using e1 by (auto simp: ExecutionSpec_new_eq_Inr)
  then have "valid_execution e2"
    using v1 e2
    by (auto simp: restore_shell_def valid_execution_def serialized_size_def
        split: ExecutionMode.splits option.splits if_splits)
  with e show ?thesis
    by (auto simp: result_simps set_notify_tty_valid split: option.splits)
qed

section \<open>Properties\<close>

text \<open>
  A specification that was validated survives persistence: when serde_json reads back
  what it wrote, the stored text is read as the same specification, with no check failing.
\<close>

theorem execution_persistence_roundtrip:
  assumes serde: "\<And>p s. to_json p = Inr s \<Longrightarrow> from_json s = Inr p"
    and "valid_execution e" "to_persistence_json to_json e = Inr s"
  shows "from_persistence_json from_json s = Inr e"
  using assms from_persisted_roundtrip [of e]
  by (auto simp: to_persistence_json_def from_persistence_json_def result_simps)

definition sample_execution :: ExecutionSpec where
  "sample_execution =
     \<lparr> exec_mode = Direct, argv = [''true''], working_directory = ''/'', environment = [],
       exec_stdin = Null, exec_stdout = BoundedFile, exec_stderr = BoundedFile,
       shell_path = None, notify_tty = None \<rparr>"

lemma sample_execution_valid: "valid_execution sample_execution"
  by (simp add: sample_execution_def valid_execution_def valid_arguments_def contains_nul_def
      is_absolute_def valid_environment_def key_sorted_def serialized_size_def argv_size_def
      env_serialized_size_def MAX_SERIALIZED_BYTES_def MAX_ARGUMENT_BYTES_def byte_def)

text \<open>A writer and a reader that know one value.\<close>

definition sample_to_json :: "PersistedExecutionSpec \<Rightarrow> (string, string) result" where
  "sample_to_json p = (if p = to_persisted sample_execution then Inr ''{}'' else Inl ''unsupported'')"

definition sample_from_json :: "string \<Rightarrow> (string, PersistedExecutionSpec) result" where
  "sample_from_json s = (if s = ''{}'' then Inr (to_persisted sample_execution) else Inl ''syntax'')"

theorem execution_persistence_roundtrip_witness:
  "to_persistence_json sample_to_json sample_execution = Inr ''{}'' \<and>
   from_persistence_json sample_from_json ''{}'' = Inr sample_execution"
proof -
  have w: "to_persistence_json sample_to_json sample_execution = Inr ''{}''"
    by (simp add: to_persistence_json_def sample_to_json_def)
  have law: "sample_from_json s = Inr p" if "sample_to_json p = Inr s" for p s
    using that by (auto simp: sample_to_json_def sample_from_json_def split: if_splits)
  show ?thesis
    using execution_persistence_roundtrip [of sample_to_json sample_from_json, OF law sample_execution_valid w] w
    by blast
qed

text \<open>
  C35. Whatever the stored text is, a specification read from it satisfies every rule that
  submission enforces: the size and argument limits, absolute paths, the shell path exactly
  in shell mode, and a sorted environment of valid names and NUL-free values.
\<close>

theorem execution_read_is_valid:
  assumes "from_persistence_json from_json s = Inr e"
  shows "valid_execution e"
  using assms from_persisted_valid by (auto simp: from_persistence_json_def result_simps)

theorem execution_read_is_valid_witness:
  "from_persistence_json (\<lambda>_. Inr (to_persisted sample_execution)) ''{}'' = Inr sample_execution
   \<and> valid_execution sample_execution"
proof -
  have "from_persistence_json (\<lambda>_. Inr (to_persisted sample_execution)) ''{}'' = Inr sample_execution"
    by (simp add: from_persistence_json_def from_persisted_roundtrip sample_execution_valid)
  from execution_read_is_valid [OF this] this show ?thesis by blast
qed

end
