(* ===== verification/Job.thy ===== *)
theory Job
  imports Identifier Recurrence Transitions Execution
begin

text \<open>
  The job aggregate (\<open>src/domain/job.rs\<close>): creation, state transitions with their
  revision and time stamps, the advance of a recurring job to its next occurrence, and the
  snapshot that persistence stores.  \<open>JobId::new\<close> draws a fresh identifier; it is an
  argument of \<open>Job_new\<close>.
\<close>

section \<open>Data\<close>

datatype ScheduleError = DeadlineNotFuture

datatype JobError =
    Primitive PrimitiveError
  | Schedule ScheduleError
  | Transition TransitionError
  | Deadline DeadlineError
  | NotRecurring
  | CorruptSnapshot
  | TimeMovedBackward

record Job =
  job_id :: JobId
  job_revision :: Revision
  job_name :: "Name option"
  job_description :: "Description option"
  job_created_at :: UtcTimestamp
  job_updated_at :: UtcTimestamp
  job_state :: JobState
  job_tier :: RuntimeTier
  job_schedule :: Schedule
  job_missed_policy :: MissedPolicy
  job_execution :: ExecutionSpec
  job_next_due :: UtcTimestamp
  job_tzdb_version :: string
  job_owner_uid :: u32

record JobSnapshot =
  js_id :: JobId
  js_revision :: Revision
  js_name :: "Name option"
  js_description :: "Description option"
  js_created_at :: UtcTimestamp
  js_updated_at :: UtcTimestamp
  js_state :: JobState
  js_tier :: RuntimeTier
  js_schedule :: Schedule
  js_missed_policy :: MissedPolicy
  js_execution :: ExecutionSpec
  js_next_due :: UtcTimestamp
  js_tzdb_version :: string
  js_owner_uid :: u32

section \<open>Operations\<close>

definition Job_new ::
  "JobId \<Rightarrow> UtcTimestamp \<Rightarrow> Schedule \<Rightarrow> MissedPolicy \<Rightarrow> RuntimeTier \<Rightarrow> ExecutionSpec \<Rightarrow> u32 \<Rightarrow>
     (JobError, Job) result" where
  "Job_new fresh now schedule missed tier execution uid =
     (let next_due = Schedule_next_due_utc schedule in
      if next_due \<le> now then Inl (JobError.Schedule DeadlineNotFuture)
      else try_bind (map_err Primitive (Revision_new 1))
        (\<lambda>revision. Inr
           \<lparr> job_id = fresh, job_revision = revision, job_name = None, job_description = None,
             job_created_at = now, job_updated_at = now, job_state = JobState.Scheduled,
             job_tier = tier, job_schedule = schedule, job_missed_policy = missed,
             job_execution = execution, job_next_due = next_due,
             job_tzdb_version = Schedule_timezone_database_version schedule,
             job_owner_uid = uid \<rparr>))"

definition set_metadata :: "Job \<Rightarrow> Name option \<Rightarrow> Description option \<Rightarrow> Job" where
  "set_metadata job name description = job\<lparr>job_name := name, job_description := description\<rparr>"

definition Job_snapshot :: "Job \<Rightarrow> JobSnapshot" where
  "Job_snapshot job =
     \<lparr> js_id = job_id job, js_revision = job_revision job, js_name = job_name job,
       js_description = job_description job, js_created_at = job_created_at job,
       js_updated_at = job_updated_at job, js_state = job_state job, js_tier = job_tier job,
       js_schedule = job_schedule job, js_missed_policy = job_missed_policy job,
       js_execution = job_execution job, js_next_due = job_next_due job,
       js_tzdb_version = job_tzdb_version job, js_owner_uid = job_owner_uid job \<rparr>"

definition Job_rehydrate :: "JobSnapshot \<Rightarrow> (JobError, Job) result" where
  "Job_rehydrate s =
     (if js_updated_at s < js_created_at s \<or> js_tzdb_version s = []
         \<or> contains_nul (js_tzdb_version s)
      then Inl CorruptSnapshot
      else Inr
        \<lparr> job_id = js_id s, job_revision = js_revision s, job_name = js_name s,
          job_description = js_description s, job_created_at = js_created_at s,
          job_updated_at = js_updated_at s, job_state = js_state s, job_tier = js_tier s,
          job_schedule = js_schedule s, job_missed_policy = js_missed_policy s,
          job_execution = js_execution s, job_next_due = js_next_due s,
          job_tzdb_version = js_tzdb_version s, job_owner_uid = js_owner_uid s \<rparr>)"

definition Job_transition ::
  "Job \<Rightarrow> JobState \<Rightarrow> bool \<Rightarrow> TransitionActor \<Rightarrow> string \<Rightarrow> UtcTimestamp \<Rightarrow>
     (JobError, Job \<times> JobState Transition) result" where
  "Job_transition job to recurring actor reason now =
     (if now < job_updated_at job then Inl TimeMovedBackward
      else try_bind (map_err Transition (job_transition (job_state job) to recurring actor reason))
        (\<lambda>transition. try_bind (map_err Primitive (Revision_next (job_revision job)))
          (\<lambda>revision. Inr
             (job\<lparr>job_revision := revision, job_state := to, job_updated_at := now\<rparr>, transition))))"

definition advance_recurring ::
  "(int \<Rightarrow> bool) \<Rightarrow> Job \<Rightarrow> TransitionActor \<Rightarrow> string \<Rightarrow> UtcTimestamp \<Rightarrow>
     (JobError, Job \<times> JobState Transition) result" where
  "advance_recurring accepts job actor reason now =
     (case job_schedule job of
        RecurringInterval interval anchor \<Rightarrow>
          try_bind (map_err Deadline (next_fixed_rate_utc accepts anchor now interval))
            (\<lambda>next_due. try_bind (Job_transition job JobState.Waiting True actor reason now)
              (\<lambda>(job', transition). Inr (job'\<lparr>job_next_due := next_due\<rparr>, transition)))
      | _ \<Rightarrow> Inl NotRecurring)"

section \<open>Well-formed jobs\<close>

definition valid_schedule :: "Schedule \<Rightarrow> bool" where
  "valid_schedule s =
     (case s of
        OneShotRelative d _ \<Rightarrow> valid_duration d
      | OneShotAbsolute _ _ version _ _ \<Rightarrow> version \<noteq> [] \<and> \<not> contains_nul version
      | RecurringInterval d _ \<Rightarrow> valid_duration d)"

definition valid_job :: "Job \<Rightarrow> bool" where
  "valid_job job =
     (nonzero_revision (job_revision job) \<and> job_created_at job \<le> job_updated_at job
      \<and> job_tzdb_version job \<noteq> [] \<and> \<not> contains_nul (job_tzdb_version job)
      \<and> valid_schedule (job_schedule job) \<and> valid_execution (job_execution job))"

lemma Job_transition_eq_Inr:
  "Job_transition job to recurring actor reason now = Inr (job', tr) \<longleftrightarrow>
     job_updated_at job \<le> now
     \<and> job_transition (job_state job) to recurring actor reason = Inr tr
     \<and> unat (revision_get (job_revision job')) = unat (revision_get (job_revision job)) + 1
     \<and> job' = job\<lparr>job_revision := job_revision job', job_state := to, job_updated_at := now\<rparr>"
proof -
  have "j\<lparr>job_revision := r, job_state := s, job_updated_at := t\<rparr> = job' \<longleftrightarrow>
      r = job_revision job' \<and>
      job' = j\<lparr>job_revision := job_revision job', job_state := s, job_updated_at := t\<rparr>" for j r s t
    by (cases job'; cases j) auto
  then show ?thesis
    by (auto simp: Job_transition_def result_simps Revision_next_eq_Inr)
qed

lemma Job_transition_state:
  assumes "Job_transition job to recurring actor reason now = Inr (job', tr)"
  shows "job_state job' = to \<and> job_updated_at job' = now \<and> job_id job' = job_id job
    \<and> job_schedule job' = job_schedule job \<and> job_next_due job' = job_next_due job
    \<and> job_created_at job' = job_created_at job \<and> job_missed_policy job' = job_missed_policy job"
  using assms by (auto simp: Job_transition_def result_simps split: if_splits)

lemma job_transition_step:
  "job_transition s t recurring actor reason = Inr tr \<Longrightarrow> job_step recurring s t"
  by (rule job_step.accepted)

lemma Job_new_valid:
  assumes "Job_new fresh now schedule missed tier execution uid = Inr job"
    and "valid_schedule schedule" "valid_execution execution"
  shows "valid_job job"
proof -
  have "Schedule_timezone_database_version schedule \<noteq> []
      \<and> \<not> contains_nul (Schedule_timezone_database_version schedule)"
    using assms(2) by (cases schedule) (auto simp: valid_schedule_def contains_nul_def)
  then show ?thesis
    using assms
    by (auto simp: Job_new_def Let_def result_simps Revision_new_def valid_job_def
        nonzero_revision_def split: if_splits)
qed

lemma Job_transition_valid:
  assumes "Job_transition job to recurring actor reason now = Inr (job', tr)" "valid_job job"
  shows "valid_job job'"
proof -
  from assms(1) have *: "job_updated_at job \<le> now"
    "unat (revision_get (job_revision job')) = unat (revision_get (job_revision job)) + 1"
    "job' = job\<lparr>job_revision := job_revision job', job_state := to, job_updated_at := now\<rparr>"
    by (simp_all add: Job_transition_eq_Inr)
  have "nonzero_revision (job_revision job')"
    using *(2) by (auto simp: nonzero_revision_def)
  with *(1) assms(2) show ?thesis
    by (subst *(3)) (simp add: valid_job_def)
qed

lemma advance_recurring_eq_Inr:
  "advance_recurring accepts job actor reason now = Inr (job', tr) \<longleftrightarrow>
     (\<exists>d anchor due j. job_schedule job = RecurringInterval d anchor
        \<and> next_fixed_rate_utc accepts anchor now d = Inr due
        \<and> Job_transition job JobState.Waiting True actor reason now = Inr (j, tr)
        \<and> job' = j\<lparr>job_next_due := due\<rparr>)"
  by (auto simp: advance_recurring_def result_simps split: Schedule.splits)

lemma advance_recurring_valid:
  assumes "advance_recurring accepts job actor reason now = Inr (job', tr)" "valid_job job"
  shows "valid_job job'"
proof -
  from assms(1) obtain due j where
    "Job_transition job JobState.Waiting True actor reason now = Inr (j, tr)"
    and j: "job' = j\<lparr>job_next_due := due\<rparr>"
    unfolding advance_recurring_eq_Inr by blast
  then have "valid_job j"
    using Job_transition_valid assms(2) by blast
  then show ?thesis
    by (simp add: j valid_job_def)
qed

lemma Job_rehydrate_snapshot: "valid_job job \<Longrightarrow> Job_rehydrate (Job_snapshot job) = Inr job"
  by (cases job) (simp add: Job_rehydrate_def Job_snapshot_def valid_job_def)

lemma Job_snapshot_rehydrate: "Job_rehydrate s = Inr job \<Longrightarrow> Job_snapshot job = s"
  by (cases s) (auto simp: Job_rehydrate_def Job_snapshot_def split: if_splits)

section \<open>Properties\<close>

text \<open>
  A job transition that succeeds keeps the job well formed, moves its state along an
  accepted step, raises the revision by exactly one, does not move its time backward, and
  changes nothing else.
\<close>

theorem job_transition_effect:
  assumes "Job_transition job to recurring actor reason now = Inr (job', tr)" "valid_job job"
  shows "valid_job job'
    \<and> job_step recurring (job_state job) to \<and> job_state job' = to
    \<and> unat (revision_get (job_revision job')) = unat (revision_get (job_revision job)) + 1
    \<and> job_updated_at job \<le> now \<and> job_updated_at job' = now
    \<and> job'\<lparr>job_revision := job_revision job, job_state := job_state job,
         job_updated_at := job_updated_at job\<rparr> = job"
proof -
  from assms(1) have *: "job_updated_at job \<le> now"
    "job_transition (job_state job) to recurring actor reason = Inr tr"
    "unat (revision_get (job_revision job')) = unat (revision_get (job_revision job)) + 1"
    and job': "job' = job\<lparr>job_revision := job_revision job', job_state := to, job_updated_at := now\<rparr>"
    by (simp_all add: Job_transition_eq_Inr)
  have "job'\<lparr>job_revision := job_revision job, job_state := job_state job,
       job_updated_at := job_updated_at job\<rparr> = job"
    by (subst job') simp
  then show ?thesis
    using * Job_transition_valid [OF assms] Job_transition_state [OF assms(1)] job_transition_step [OF *(2)]
    by blast
qed

definition sample_job :: Job where
  "sample_job =
     \<lparr> job_id = JobId 1, job_revision = Revision 1, job_name = None, job_description = None,
       job_created_at = 0, job_updated_at = 0, job_state = JobState.Scheduled,
       job_tier = Session, job_schedule = RecurringInterval (DurationSeconds 60) 60000000000,
       job_missed_policy = Skip, job_execution = sample_execution, job_next_due = 60000000000,
       job_tzdb_version = ''not-applicable'', job_owner_uid = 1000 \<rparr>"

lemma sample_job_valid: "valid_job sample_job"
  using sample_execution_valid
  by (simp add: sample_job_def valid_job_def nonzero_revision_def contains_nul_def valid_schedule_def
      valid_duration_def)

lemma sample_job_waits:
  "\<exists>job' tr. Job_transition sample_job JobState.Waiting True Supervisor ''armed'' 5 = Inr (job', tr)
     \<and> job_state job' = JobState.Waiting \<and> job_updated_at job' = 5
     \<and> job_schedule job' = RecurringInterval (DurationSeconds 60) 60000000000"
  by (simp add: Job_transition_def sample_job_def job_transition_def transition_def one_shot_legal_def
      contains_nul_def Revision_next_def Revision_new_def checked_add_def)

theorem job_transition_effect_witness:
  "\<exists>job' tr. Job_transition sample_job JobState.Waiting True Supervisor ''armed'' 5 = Inr (job', tr)
     \<and> valid_job job'"
  using sample_job_waits job_transition_effect [OF _ sample_job_valid] by blast

text \<open>
  Advancing a recurring job sets its next due time to the first occurrence of its own
  schedule strictly after now, however late the run was, and takes it back to waiting;
  occurrences that have passed are skipped, never replayed.
\<close>

theorem advance_recurring_next_occurrence:
  assumes "advance_recurring accepts job actor reason now = Inr (job', tr)" "valid_job job"
    and "job_schedule job = RecurringInterval d anchor" "\<bar>anchor\<bar> < 2 ^ 100" "\<bar>now\<bar> < 2 ^ 100"
  shows "valid_job job' \<and> job_state job' = JobState.Waiting \<and> now < job_next_due job'
    \<and> on_grid anchor d (job_next_due job')
    \<and> (\<forall>u. on_grid anchor d u \<and> now < u \<longrightarrow> job_next_due job' \<le> u)"
proof -
  have d: "valid_duration d"
    using assms(2,3) by (simp add: valid_job_def valid_schedule_def)
  obtain due j where due: "next_fixed_rate_utc accepts anchor now d = Inr due"
    and j: "Job_transition job JobState.Waiting True actor reason now = Inr (j, tr)"
    and job': "job' = j\<lparr>job_next_due := due\<rparr>"
    using assms(1,3) unfolding advance_recurring_eq_Inr by auto
  have "due = next_slot anchor now d"
    using due next_fixed_rate_utc_eq [OF d assms(4,5), of accepts] by (auto split: if_splits)
  moreover have "job_state j = JobState.Waiting"
    using Job_transition_state [OF j] by blast
  moreover have "0 < period d"
    using valid_duration_period(1) [OF d] by simp
  ultimately show ?thesis
    using advance_recurring_valid [OF assms(1,2)] next_slot_after next_slot_on_grid next_slot_least
    by (simp add: job')
qed


lemma sample_job_advances:
  "\<exists>job1 tr1. Job_transition (sample_job\<lparr>job_state := JobState.Running\<rparr>) JobState.Waiting True Monitor
       ''done'' 90000000000 = Inr (job1, tr1)"
  by (simp add: Job_transition_def sample_job_def job_transition_def transition_def recurring_legal_def
      contains_nul_def Revision_next_def Revision_new_def checked_add_def)

theorem advance_recurring_next_occurrence_witness:
  "\<exists>job' tr. advance_recurring (\<lambda>_. True) (sample_job\<lparr>job_state := JobState.Running\<rparr>) Monitor ''done''
       90000000000 = Inr (job', tr) \<and> 90000000000 < job_next_due job'"
proof -
  let ?job = "sample_job\<lparr>job_state := JobState.Running\<rparr>"
  have v: "valid_job ?job"
    using sample_job_valid by (simp add: valid_job_def)
  have sch: "job_schedule ?job = RecurringInterval (DurationSeconds 60) 60000000000"
    by (simp add: sample_job_def)
  have d: "valid_duration (DurationSeconds 60)"
    by (simp add: valid_duration_def)
  have b: "\<bar>60000000000 :: int\<bar> < 2 ^ 100" "\<bar>90000000000 :: int\<bar> < 2 ^ 100"
    by simp_all
  obtain t where "next_fixed_rate_utc (\<lambda>_. True) 60000000000 90000000000 (DurationSeconds 60) = Inr t"
    using next_fixed_rate_utc_eq [OF d b, of "\<lambda>_. True"] by simp
  then have "\<exists>job' tr. advance_recurring (\<lambda>_. True) ?job Monitor ''done'' 90000000000 = Inr (job', tr)"
    using sample_job_advances sch by (auto simp: advance_recurring_def)
  then show ?thesis
    using advance_recurring_next_occurrence [OF _ v sch b] by blast
qed

end
