(* ===== verification/Run.thy ===== *)
theory Run
  imports Identifier Primitives Transitions
begin

text \<open>
  The run aggregate (\<open>src/domain/run.rs\<close>): one attempt to execute a job, from its claim to
  its recorded outcome, and the checks a stored run passes when it is read back.
  \<open>RunId::new\<close> draws a fresh identifier; it is an argument of \<open>Run_new\<close>.  \<open>i32\<close> values
  (exit codes, signals, process groups) are integers.
\<close>

section \<open>Data\<close>

datatype ClaimToken = ClaimToken (token_bytes: "u8 list")

datatype RunOutcome =
    Exit int
  | Signal int
  | Failure string
  | Interrupted string
  | Cancelled string

record ProcessIdentitySnapshot =
  boot_identity :: string
  pid :: u32
  start_token :: u64
  process_group_id :: int

record Run =
  run_id :: RunId
  run_job_id :: JobId
  run_sequence :: Sequence
  run_scheduled_for :: UtcTimestamp
  run_created_at :: UtcTimestamp
  run_started_at :: "UtcTimestamp option"
  run_finished_at :: "UtcTimestamp option"
  run_state :: RunState
  run_claim_token :: ClaimToken
  run_monitor_identity :: "ProcessIdentitySnapshot option"
  run_command_identity :: "ProcessIdentitySnapshot option"
  run_outcome :: "RunOutcome option"
  run_stdout_path :: "string option"
  run_stderr_path :: "string option"

record RunSnapshot =
  rs_id :: RunId
  rs_job_id :: JobId
  rs_sequence :: Sequence
  rs_scheduled_for :: UtcTimestamp
  rs_created_at :: UtcTimestamp
  rs_started_at :: "UtcTimestamp option"
  rs_finished_at :: "UtcTimestamp option"
  rs_state :: RunState
  rs_claim_token :: ClaimToken
  rs_monitor_identity :: "ProcessIdentitySnapshot option"
  rs_command_identity :: "ProcessIdentitySnapshot option"
  rs_outcome :: "RunOutcome option"
  rs_stdout_path :: "string option"
  rs_stderr_path :: "string option"

datatype RunError =
    OutcomeAlreadyRecorded
  | FinishBeforeCreation
  | StartBeforeCreation
  | InvalidState
  | InvalidIdentity
  | InvalidLogPath
  | InvalidTimeline
  | InvalidOutcome

section \<open>Paths\<close>

text \<open>
  \<open>Path::components\<close> on Unix: a root, then the segments between slashes; empty segments and
  \<open>.\<close> are skipped, except a \<open>.\<close> that starts a relative path.
\<close>

datatype Component = RootDir | CurDir | ParentDir | Normal string

fun segments :: "string \<Rightarrow> string list" where
  "segments [] = [[]]"
| "segments (c # s) =
     (if c = CHR ''/'' then [] # segments s
      else (case segments s of [] \<Rightarrow> [[c]] | w # ws \<Rightarrow> (c # w) # ws))"

definition segment_component :: "string \<Rightarrow> Component option" where
  "segment_component w =
     (if w = [] \<or> w = ''.'' then None else if w = ''..'' then Some ParentDir else Some (Normal w))"

definition path_is_absolute :: "string \<Rightarrow> bool" where
  "path_is_absolute p = (p \<noteq> [] \<and> hd p = CHR ''/'')"

definition path_components :: "string \<Rightarrow> Component list" where
  "path_components p =
     (if path_is_absolute p then [RootDir]
      else if segments p \<noteq> [] \<and> hd (segments p) = ''.'' then [CurDir] else [])
     @ List.map_filter segment_component (segments p)"

fun is_normal :: "Component \<Rightarrow> bool" where
  "is_normal (Normal _) = True"
| "is_normal _ = False"

definition validate_log_path :: "string \<Rightarrow> (RunError, unit) result" where
  "validate_log_path p =
     (if path_is_absolute p \<or> \<not> list_all is_normal (path_components p) then Inl InvalidLogPath
      else Inr ())"

definition validate_identity :: "ProcessIdentitySnapshot \<Rightarrow> (RunError, unit) result" where
  "validate_identity i =
     (if boot_identity i = [] \<or> contains_nul (boot_identity i) \<or> pid i = 0 \<or> start_token i = 0
         \<or> process_group_id i \<le> 0
      then Inl InvalidIdentity else Inr ())"

section \<open>Operations\<close>

definition outcome_state :: "RunOutcome \<Rightarrow> RunState" where
  "outcome_state outcome =
     (case outcome of
        RunOutcome.Exit code \<Rightarrow> (if code = 0 then RunState.Succeeded else RunState.Failed)
      | RunOutcome.Signal _ \<Rightarrow> RunState.Failed
      | RunOutcome.Failure _ \<Rightarrow> RunState.Failed
      | RunOutcome.Interrupted _ \<Rightarrow> RunState.Interrupted
      | RunOutcome.Cancelled _ \<Rightarrow> RunState.Cancelled)"

definition completion :: "RunOutcome \<Rightarrow> Completion" where
  "completion outcome =
     (case outcome of
        RunOutcome.Exit code \<Rightarrow> Completion.Exit code
      | RunOutcome.Signal signal \<Rightarrow> Completion.Signal signal
      | RunOutcome.Failure _ \<Rightarrow> Completion.Failure
      | RunOutcome.Interrupted _ \<Rightarrow> Completion.Interrupted
      | RunOutcome.Cancelled _ \<Rightarrow> TerminatedByCancellation)"

definition Run_new ::
  "RunId \<Rightarrow> JobId \<Rightarrow> Sequence \<Rightarrow> UtcTimestamp \<Rightarrow> UtcTimestamp \<Rightarrow> ClaimToken \<Rightarrow> Run" where
  "Run_new fresh job sequence scheduled_for created_at token =
     \<lparr> run_id = fresh, run_job_id = job, run_sequence = sequence,
       run_scheduled_for = scheduled_for, run_created_at = created_at, run_started_at = None,
       run_finished_at = None, run_state = RunState.Starting, run_claim_token = token,
       run_monitor_identity = None, run_command_identity = None, run_outcome = None,
       run_stdout_path = None, run_stderr_path = None \<rparr>"

definition request_cancellation :: "Run \<Rightarrow> (RunError, Run) result" where
  "request_cancellation run =
     (if run_state run = RunState.CancelRequested then Inr run
      else map_ok (\<lambda>transition. run\<lparr>run_state := tr_to transition\<rparr>)
        (map_err (\<lambda>_. InvalidState)
          (run_transition (run_state run) RunState.CancelRequested Cli ''cancellation requested'')))"

definition mark_running ::
  "Run \<Rightarrow> UtcTimestamp \<Rightarrow> ProcessIdentitySnapshot \<Rightarrow> ProcessIdentitySnapshot \<Rightarrow> string \<Rightarrow> string \<Rightarrow>
     (RunError, Run) result" where
  "mark_running run started_at monitor command stdout_path stderr_path =
     (if started_at < run_created_at run then Inl StartBeforeCreation
      else try_bind (validate_identity monitor) (\<lambda>_.
        try_bind (validate_identity command) (\<lambda>_.
        try_bind (validate_log_path stdout_path) (\<lambda>_.
        try_bind (validate_log_path stderr_path) (\<lambda>_.
        map_ok (\<lambda>transition. run
            \<lparr> run_state := tr_to transition, run_started_at := Some started_at,
              run_monitor_identity := Some monitor, run_command_identity := Some command,
              run_stdout_path := Some stdout_path, run_stderr_path := Some stderr_path \<rparr>)
          (map_err (\<lambda>_. InvalidState)
            (run_transition (run_state run) RunState.Running Monitor ''command started'')))))))"

definition with_outcome :: "Run \<Rightarrow> UtcTimestamp \<Rightarrow> RunOutcome \<Rightarrow> (RunError, Run) result" where
  "with_outcome run finished_at outcome =
     (if run_outcome run \<noteq> None then Inl OutcomeAlreadyRecorded
      else if finished_at < run_created_at run then Inl FinishBeforeCreation
      else map_ok (\<lambda>state. run
          \<lparr> run_state := state, run_finished_at := Some finished_at, run_outcome := Some outcome \<rparr>)
        (map_err (\<lambda>_. InvalidState) (complete_run (run_state run) (completion outcome))))"

definition Run_snapshot :: "Run \<Rightarrow> RunSnapshot" where
  "Run_snapshot run =
     \<lparr> rs_id = run_id run, rs_job_id = run_job_id run, rs_sequence = run_sequence run,
       rs_scheduled_for = run_scheduled_for run, rs_created_at = run_created_at run,
       rs_started_at = run_started_at run, rs_finished_at = run_finished_at run,
       rs_state = run_state run, rs_claim_token = run_claim_token run,
       rs_monitor_identity = run_monitor_identity run,
       rs_command_identity = run_command_identity run, rs_outcome = run_outcome run,
       rs_stdout_path = run_stdout_path run, rs_stderr_path = run_stderr_path run \<rparr>"

definition check_opt :: "('a \<Rightarrow> ('e, unit) result) \<Rightarrow> 'a option \<Rightarrow> ('e, unit) result" where
  "check_opt check x = (case x of None \<Rightarrow> Inr () | Some a \<Rightarrow> check a)"

definition invalid_timeline :: "RunSnapshot \<Rightarrow> bool" where
  "invalid_timeline s =
     ((case rs_started_at s of None \<Rightarrow> False | Some started \<Rightarrow> started < rs_created_at s)
      \<or> (case rs_finished_at s of None \<Rightarrow> False | Some finished \<Rightarrow> finished < rs_created_at s)
      \<or> (case (rs_started_at s, rs_finished_at s) of
           (Some started, Some finished) \<Rightarrow> finished < started | _ \<Rightarrow> False))"

definition invalid_outcome :: "RunSnapshot \<Rightarrow> bool" where
  "invalid_outcome s =
     (RunState_is_terminal (rs_state s) \<noteq> (rs_outcome s \<noteq> None)
      \<or> RunState_is_terminal (rs_state s) \<noteq> (rs_finished_at s \<noteq> None)
      \<or> (case rs_outcome s of None \<Rightarrow> False | Some outcome \<Rightarrow> outcome_state outcome \<noteq> rs_state s))"

definition Run_rehydrate :: "RunSnapshot \<Rightarrow> (RunError, Run) result" where
  "Run_rehydrate s =
     (if invalid_timeline s then Inl InvalidTimeline
      else if invalid_outcome s then Inl InvalidOutcome
      else try_bind (check_opt validate_identity (rs_monitor_identity s)) (\<lambda>_.
        try_bind (check_opt validate_identity (rs_command_identity s)) (\<lambda>_.
        try_bind (check_opt validate_log_path (rs_stdout_path s)) (\<lambda>_.
        try_bind (check_opt validate_log_path (rs_stderr_path s)) (\<lambda>_. Inr
          \<lparr> run_id = rs_id s, run_job_id = rs_job_id s, run_sequence = rs_sequence s,
            run_scheduled_for = rs_scheduled_for s, run_created_at = rs_created_at s,
            run_started_at = rs_started_at s, run_finished_at = rs_finished_at s,
            run_state = rs_state s, run_claim_token = rs_claim_token s,
            run_monitor_identity = rs_monitor_identity s,
            run_command_identity = rs_command_identity s, run_outcome = rs_outcome s,
            run_stdout_path = rs_stdout_path s, run_stderr_path = rs_stderr_path s \<rparr>)))))"

section \<open>Well-formed runs\<close>

definition valid_run :: "Run \<Rightarrow> bool" where
  "valid_run run =
     (\<not> invalid_timeline (Run_snapshot run) \<and> \<not> invalid_outcome (Run_snapshot run)
      \<and> is_ok (check_opt validate_identity (run_monitor_identity run))
      \<and> is_ok (check_opt validate_identity (run_command_identity run))
      \<and> is_ok (check_opt validate_log_path (run_stdout_path run))
      \<and> is_ok (check_opt validate_log_path (run_stderr_path run)))"

lemma is_ok_unit [simp]: "is_ok r \<longleftrightarrow> r = Inr ()" for r :: "('e, unit) result"
  by (cases r) auto

lemma Run_rehydrate_snapshot: "valid_run run \<Longrightarrow> Run_rehydrate (Run_snapshot run) = Inr run"
  by (cases run) (simp add: valid_run_def Run_rehydrate_def Run_snapshot_def)

lemma Run_rehydrate_sound:
  "Run_rehydrate s = Inr run \<Longrightarrow> Run_snapshot run = s \<and> valid_run run"
  by (cases s) (auto simp: Run_rehydrate_def Run_snapshot_def valid_run_def result_simps split: if_splits)

lemma Run_new_valid: "valid_run (Run_new fresh job sequence scheduled created token)"
  by (simp add: valid_run_def Run_new_def Run_snapshot_def invalid_timeline_def invalid_outcome_def
      RunState_is_terminal_def check_opt_def)

lemma request_cancellation_eq_Inr:
  "request_cancellation run = Inr run' \<longleftrightarrow>
     \<not> RunState_is_terminal (run_state run) \<and> run' = run\<lparr>run_state := RunState.CancelRequested\<rparr>"
proof -
  have "run\<lparr>run_state := RunState.CancelRequested\<rparr> = run" if "run_state run = RunState.CancelRequested"
    using that by (cases run) simp
  then show ?thesis
    by (cases "run_state run")
      (auto simp: request_cancellation_def result_simps run_transition_def transition_eq_Inr run_legal_def
        RunState_is_terminal_def contains_nul_def)
qed

lemma request_cancellation_valid:
  "request_cancellation run = Inr run' \<Longrightarrow> valid_run run \<Longrightarrow> valid_run run'"
  by (auto simp: request_cancellation_eq_Inr valid_run_def Run_snapshot_def invalid_timeline_def
      invalid_outcome_def RunState_is_terminal_def split: option.splits)

lemma mark_running_eq_Inr:
  "mark_running run started m c out err = Inr run' \<longleftrightarrow>
     run_created_at run \<le> started \<and> validate_identity m = Inr () \<and> validate_identity c = Inr ()
     \<and> validate_log_path out = Inr () \<and> validate_log_path err = Inr ()
     \<and> run_state run = RunState.Starting
     \<and> run' = run \<lparr> run_state := RunState.Running, run_started_at := Some started,
          run_monitor_identity := Some m, run_command_identity := Some c,
          run_stdout_path := Some out, run_stderr_path := Some err \<rparr>"
proof -
  have "run_legal s RunState.Running \<longleftrightarrow> s = RunState.Starting" for s
    by (cases s) (simp_all add: run_legal_def)
  then show ?thesis
    by (auto simp: mark_running_def result_simps run_transition_def transition_eq_Inr contains_nul_def)
qed

lemma mark_running_valid:
  "mark_running run started m c out err = Inr run' \<Longrightarrow> valid_run run \<Longrightarrow> valid_run run'"
  by (auto simp: mark_running_eq_Inr valid_run_def Run_snapshot_def invalid_timeline_def
      invalid_outcome_def RunState_is_terminal_def check_opt_def split: option.splits)

lemma complete_run_outcome:
  "complete_run s (completion outcome) = Inr t \<longleftrightarrow> t = outcome_state outcome \<and> run_legal s t"
  by (cases outcome; cases s)
    (auto simp: complete_run_def completion_def outcome_state_def run_transition_completion run_legal_def
      split: if_splits)

lemma with_outcome_eq_Inr:
  "with_outcome run finished outcome = Inr run' \<longleftrightarrow>
     run_outcome run = None \<and> run_created_at run \<le> finished
     \<and> run_legal (run_state run) (outcome_state outcome)
     \<and> run' = run \<lparr> run_state := outcome_state outcome, run_finished_at := Some finished,
          run_outcome := Some outcome \<rparr>"
  by (auto simp: with_outcome_def result_simps complete_run_outcome)

lemma outcome_state_terminal: "RunState_is_terminal (outcome_state outcome)"
  by (cases outcome) (simp_all add: outcome_state_def RunState_is_terminal_def)

lemma with_outcome_valid:
  assumes "with_outcome run finished outcome = Inr run'" "valid_run run"
    and "case run_started_at run of None \<Rightarrow> True | Some started \<Rightarrow> started \<le> finished"
  shows "valid_run run'"
  using assms outcome_state_terminal [of outcome]
  by (auto simp: with_outcome_eq_Inr valid_run_def Run_snapshot_def invalid_timeline_def
      invalid_outcome_def split: option.splits)

section \<open>Log paths stay below their directory\<close>

text \<open>Where a walk along the components leads, from a directory given as its segments.\<close>

fun walk :: "string list \<Rightarrow> Component list \<Rightarrow> string list" where
  "walk dir [] = dir"
| "walk dir (RootDir # cs) = walk [] cs"
| "walk dir (CurDir # cs) = walk dir cs"
| "walk dir (ParentDir # cs) = walk (butlast dir) cs"
| "walk dir (Normal w # cs) = walk (dir @ [w]) cs"

lemma walk_normal: "list_all is_normal cs \<Longrightarrow> \<exists>rest. walk dir cs = dir @ rest"
proof (induction dir cs rule: walk.induct)
  case (5 dir w cs)
  then obtain rest where "walk (dir @ [w]) cs = dir @ w # rest" by auto
  then show ?case by simp
qed simp_all

section \<open>Properties\<close>

text \<open>The updates a run undergoes between its claim and its outcome, on a clock that does
  not step back between start and finish.\<close>

inductive run_update :: "Run \<Rightarrow> Run \<Rightarrow> bool" where
  cancel: "request_cancellation r = Inr r' \<Longrightarrow> run_update r r'"
| start: "mark_running r started m c out err = Inr r' \<Longrightarrow> run_update r r'"
| finish: "with_outcome r finished outcome = Inr r' \<Longrightarrow>
     (case run_started_at r of None \<Rightarrow> True | Some started \<Rightarrow> started \<le> finished) \<Longrightarrow> run_update r r'"

lemma run_update_valid: "run_update r r' \<Longrightarrow> valid_run r \<Longrightarrow> valid_run r'"
  by (induction rule: run_update.induct)
    (auto intro: request_cancellation_valid mark_running_valid with_outcome_valid)

text \<open>
  Every run that the operations can produce from a fresh claim, on a clock that does not
  step back, can be stored and read back unchanged: the checks made on reading never refuse
  it.
\<close>

theorem run_snapshot_readable:
  assumes "run_update\<^sup>*\<^sup>* (Run_new fresh job sequence scheduled created token) r"
  shows "Run_rehydrate (Run_snapshot r) = Inr r"
proof -
  have "valid_run r"
    using assms by (induction rule: rtranclp_induct) (auto simp: Run_new_valid run_update_valid)
  then show ?thesis by (rule Run_rehydrate_snapshot)
qed

definition sample_run :: Run where
  "sample_run = Run_new (RunId 2) (JobId 1) (Sequence 1) 10 10 (ClaimToken (replicate 32 0))"

theorem run_snapshot_readable_witness:
  "run_update\<^sup>*\<^sup>* (Run_new (RunId 2) (JobId 1) (Sequence 1) 10 10 (ClaimToken (replicate 32 0)))
      (sample_run\<lparr>run_state := RunState.CancelRequested\<rparr>) \<and>
   Run_rehydrate (Run_snapshot (sample_run\<lparr>run_state := RunState.CancelRequested\<rparr>))
     = Inr (sample_run\<lparr>run_state := RunState.CancelRequested\<rparr>)"
proof -
  have "request_cancellation sample_run = Inr (sample_run\<lparr>run_state := RunState.CancelRequested\<rparr>)"
    by (simp add: request_cancellation_eq_Inr sample_run_def Run_new_def RunState_is_terminal_def)
  then have "run_update\<^sup>*\<^sup>* (Run_new (RunId 2) (JobId 1) (Sequence 1) 10 10 (ClaimToken (replicate 32 0)))
      (sample_run\<lparr>run_state := RunState.CancelRequested\<rparr>)"
    unfolding sample_run_def by (intro r_into_rtranclp run_update.cancel)
  from run_snapshot_readable [OF this] this show ?thesis by blast
qed

text \<open>
  When the wall clock steps back between start and finish, recording the outcome still
  succeeds, and the run it leaves is one that reading refuses: \<open>with_outcome\<close> compares the
  finish with the creation only, \<open>rehydrate\<close> also with the start.
\<close>

theorem finish_before_start_unreadable:
  assumes "with_outcome r finished outcome = Inr r'" "run_started_at r = Some started"
    and "finished < started"
  shows "Run_rehydrate (Run_snapshot r') = Inl InvalidTimeline"
  using assms
  by (auto simp: with_outcome_eq_Inr Run_rehydrate_def Run_snapshot_def invalid_timeline_def)

definition sample_identity :: ProcessIdentitySnapshot where
  "sample_identity = \<lparr> boot_identity = ''boot'', pid = 7, start_token = 9, process_group_id = 7 \<rparr>"

definition sample_running :: Run where
  "sample_running = sample_run
     \<lparr> run_state := RunState.Running, run_started_at := Some 20,
       run_monitor_identity := Some sample_identity, run_command_identity := Some sample_identity,
       run_stdout_path := Some ''out'', run_stderr_path := Some ''err'' \<rparr>"

lemma sample_running_reached:
  "mark_running sample_run 20 sample_identity sample_identity ''out'' ''err'' = Inr sample_running"
  unfolding mark_running_eq_Inr
  by (simp add: sample_running_def sample_run_def Run_new_def sample_identity_def validate_identity_def
      contains_nul_def validate_log_path_def path_is_absolute_def path_components_def
      segment_component_def List.map_filter_def)

theorem finish_before_start_unreadable_witness:
  "mark_running sample_run 20 sample_identity sample_identity ''out'' ''err'' = Inr sample_running \<and>
   (\<exists>r'. with_outcome sample_running 15 (RunOutcome.Exit 0) = Inr r'
      \<and> Run_rehydrate (Run_snapshot r') = Inl InvalidTimeline)"
proof -
  have s: "run_started_at sample_running = Some 20"
    by (simp add: sample_running_def)
  have "\<exists>r'. with_outcome sample_running 15 (RunOutcome.Exit 0) = Inr r'"
    by (simp add: with_outcome_eq_Inr sample_running_def sample_run_def Run_new_def outcome_state_def
        run_legal_def)
  then show ?thesis
    using finish_before_start_unreadable [OF _ s] sample_running_reached by auto
qed

text \<open>
  An accepted log path stays below the directory it is joined to: walking its components
  from any directory ends in that directory or below it.
\<close>

theorem log_path_contained:
  assumes "validate_log_path p = Inr ()"
  shows "\<not> path_is_absolute p \<and> (\<exists>rest. walk dir (path_components p) = dir @ rest)"
proof -
  have "\<not> path_is_absolute p" "list_all is_normal (path_components p)"
    using assms by (auto simp: validate_log_path_def split: if_splits)
  with walk_normal show ?thesis by blast
qed

theorem log_path_contained_witness:
  "validate_log_path ''a/b'' = Inr () \<and> walk [''run''] (path_components ''a/b'') = [''run'', ''a'', ''b'']
   \<and> (\<exists>rest. walk [''run''] (path_components ''a/b'') = [''run''] @ rest)"
proof -
  have v: "validate_log_path ''a/b'' = Inr ()"
    by (simp add: validate_log_path_def path_is_absolute_def path_components_def
        segment_component_def List.map_filter_def)
  have "walk [''run''] (path_components ''a/b'') = [''run'', ''a'', ''b'']"
    by (simp add: path_is_absolute_def path_components_def segment_component_def List.map_filter_def)
  with v log_path_contained [OF v, of "[''run'']"] show ?thesis by blast
qed

end
