(* ===== verification/Job_Store.thy ===== *)
theory Job_Store
  imports Job Run
begin

text \<open>
  The job table (\<open>src/infrastructure/sqlite/job_store.rs\<close>, schema in \<open>migrations/\<close>).

  A table is the list of its rows, a row the record of its columns with the text that the code
  writes into them.  The text forms of timestamps (jiff) and of JSON values (serde_json) are
  the fields of the parameter \<open>codec\<close>, with the texts of the
  errors serde and rusqlite report for a value they refuse.  Each SQL statement may fail at run time; \<open>fault n\<close> is
  the error of the \<open>n\<close>-th statement of an operation, if it has one.  A transaction that is not
  committed is rolled back and a failing statement has no effect, so an operation that returns
  an error leaves the database as it was: only a success carries a new database.

  Column values have the types the schema declares; the \<open>json_valid\<close> checks hold for what
  serde_json writes and are not modelled.
\<close>

section \<open>Rows\<close>

record job_row =
  jr_id :: string
  jr_revision :: int
  jr_name :: "string option"
  jr_description :: "string option"
  jr_created_at :: string
  jr_updated_at :: string
  jr_state :: string
  jr_tier :: string
  jr_schedule :: string
  jr_missed :: string
  jr_execution :: string
  jr_next_due :: string
  jr_tzdb_version :: string
  jr_owner_uid :: int
  jr_hidden :: bool

record run_row =
  rr_id :: string
  rr_job_id :: string
  rr_sequence :: int
  rr_scheduled_for :: string
  rr_created_at :: string
  rr_started_at :: "string option"
  rr_finished_at :: "string option"
  rr_state :: string
  rr_claim_token :: "u8 list"
  rr_monitor_identity :: "string option"
  rr_command_identity :: "string option"
  rr_process_group_id :: "int option"
  rr_exit_code :: "int option"
  rr_signal :: "int option"
  rr_failure :: "string option"
  rr_outcome :: "string option"
  rr_stdout_path :: "string option"
  rr_stderr_path :: "string option"
  rr_stdout_truncated :: bool
  rr_stderr_truncated :: bool

record transition_row =
  tw_job_id :: string
  tw_from :: string
  tw_to :: string
  tw_occurred_at :: string
  tw_actor :: string
  tw_reason :: string
  tw_revision :: int

record Database =
  db_jobs :: "job_row list"
  db_runs :: "run_row list"
  db_transitions :: "transition_row list"

record codec =
  show_ts :: "UtcTimestamp \<Rightarrow> string"
  parse_ts :: "string \<Rightarrow> UtcTimestamp option"
  schedule_to_json :: "Schedule \<Rightarrow> (string, string) result"
  schedule_of_json :: "string \<Rightarrow> (string, Schedule) result"
  execution_to_json :: "PersistedExecutionSpec \<Rightarrow> (string, string) result"
  execution_of_json :: "string \<Rightarrow> (string, PersistedExecutionSpec) result"
  identity_to_json :: "ProcessIdentitySnapshot option \<Rightarrow> (string, string) result"
  identity_of_json :: "string \<Rightarrow> (string, ProcessIdentitySnapshot) result"
  outcome_to_json :: "RunOutcome \<Rightarrow> (string, string) result"
  outcome_of_json :: "string \<Rightarrow> (string, RunOutcome) result"
  variant_error :: "string \<Rightarrow> string"
  range_error :: "int \<Rightarrow> string"

section \<open>Errors\<close>

datatype StoreError =
    Io string
  | Sqlite string
  | InsecureDatabaseFile
  | InvalidDatabasePath
  | NewerSchema u32 u32
  | InvalidBusyTimeout
  | PragmaMismatch
  | AlreadyExists
  | NotFound
  | Conflict
  | InvalidPageSize
  | Busy
  | Corrupt string
  | Domain string
  | DuplicateClaim
  | InvalidClaim
  | Random string

text \<open>The messages of the errors that the store turns into text.\<close>

definition IdentifierError_text :: "IdentifierError \<Rightarrow> string" where
  "IdentifierError_text e = ''identifier must be 26 canonical Crockford Base32 characters''"

fun PrimitiveError_text :: "PrimitiveError \<Rightarrow> string" where
  "PrimitiveError_text (PrimitiveError.ContainsNul field) = field @ '' cannot contain NUL''"
| "PrimitiveError_text (TooLong field maximum) =
     field @ '' is longer than '' @ show_nat maximum @ '' Unicode scalar values''"
| "PrimitiveError_text (Zero field) = field @ '' must be greater than zero''"
| "PrimitiveError_text (PrimitiveError.Overflow field) = field @ '' overflowed''"
| "PrimitiveError_text TimestampRange = ''timestamp is outside the supported range''"

fun TransitionError_text :: "TransitionError \<Rightarrow> string" where
  "TransitionError_text Illegal = ''illegal state transition''"
| "TransitionError_text InvalidReason = ''transition reason must be non-empty and contain no NUL''"
| "TransitionError_text CancellationNotCommitted = ''cancellation was not committed before termination''"

fun JobError_text :: "JobError \<Rightarrow> string" where
  "JobError_text (Primitive e) = PrimitiveError_text e"
| "JobError_text (JobError.Schedule DeadlineNotFuture) = ''the resolved deadline must be in the future''"
| "JobError_text (JobError.Transition e) = TransitionError_text e"
| "JobError_text (Deadline DeadlineError.Overflow) = ''deadline arithmetic overflowed''"
| "JobError_text NotRecurring = ''job schedule is not recurring''"
| "JobError_text CorruptSnapshot = ''stored job snapshot violates domain invariants''"
| "JobError_text TimeMovedBackward = ''job update time cannot move backward''"

fun ExecutionError_text :: "ExecutionError \<Rightarrow> string" where
  "ExecutionError_text EmptyArguments = ''command arguments cannot be empty''"
| "ExecutionError_text ShellArgumentCount = ''shell mode requires exactly one command string''"
| "ExecutionError_text (ExecutionError.ContainsNul field) = field @ '' cannot contain NUL''"
| "ExecutionError_text ArgumentTooLarge = ''one command argument exceeds 128 KiB''"
| "ExecutionError_text SerializedSizeExceeded = ''argv and environment exceed 1 MiB''"
| "ExecutionError_text WorkingDirectoryNotAbsolute = ''working directory must be absolute''"
| "ExecutionError_text InvalidShellPath = ''shell path must be absolute and is only valid in shell mode''"
| "ExecutionError_text InvalidEnvironmentKey = ''invalid environment variable name''"
| "ExecutionError_text ExecutionError.InvalidNotifyTty = ''terminal device path cannot be empty or contain NUL''"

fun ExecutionStorageError_text :: "ExecutionStorageError \<Rightarrow> string" where
  "ExecutionStorageError_text (Json m) = ''stored execution JSON is invalid: '' @ m"
| "ExecutionStorageError_text (Invalid e) = ''stored execution is invalid: '' @ ExecutionError_text e"
| "ExecutionStorageError_text InvalidPolicy = ''stored execution policies are unsupported''"
| "ExecutionStorageError_text InvalidShell = ''stored shell path does not match execution mode''"
| "ExecutionStorageError_text ExecutionStorageError.InvalidNotifyTty = ''stored terminal device path is invalid''"
| "ExecutionStorageError_text InvalidWorkingDirectoryEncoding = ''stored working directory is not valid UTF-8''"

section \<open>Text forms\<close>

fun encode_job_state :: "JobState \<Rightarrow> string" where
  "encode_job_state JobState.Scheduled = ''scheduled''"
| "encode_job_state JobState.Waiting = ''waiting''"
| "encode_job_state JobState.Starting = ''starting''"
| "encode_job_state JobState.Running = ''running''"
| "encode_job_state JobState.CancelRequested = ''cancel_requested''"
| "encode_job_state JobState.Succeeded = ''succeeded''"
| "encode_job_state JobState.Failed = ''failed''"
| "encode_job_state JobState.Cancelled = ''cancelled''"
| "encode_job_state JobState.Interrupted = ''interrupted''"
| "encode_job_state JobState.Missed = ''missed''"

fun encode_tier :: "RuntimeTier \<Rightarrow> string" where
  "encode_tier Session = ''session''"
| "encode_tier Durable = ''durable''"

fun encode_missed :: "MissedPolicy \<Rightarrow> string" where
  "encode_missed Hold = ''hold''"
| "encode_missed RunLatest = ''run-latest''"
| "encode_missed Skip = ''skip''"

fun encode_actor :: "TransitionActor \<Rightarrow> string" where
  "encode_actor Cli = ''cli''"
| "encode_actor Supervisor = ''supervisor''"
| "encode_actor Monitor = ''monitor''"
| "encode_actor Recovery = ''recovery''"

text \<open>\<open>decode_enum\<close> accepts the names of the variants; \<open>variant_error\<close> is serde's message
  for any other text.\<close>

definition decode_by :: "codec \<Rightarrow> 'a list \<Rightarrow> ('a \<Rightarrow> string) \<Rightarrow> string \<Rightarrow> (StoreError, 'a) result" where
  "decode_by C variants encode_variant value =
     ok_or (Corrupt (variant_error C value)) (find (\<lambda>v. encode_variant v = value) variants)"

definition decode_job_state :: "codec \<Rightarrow> string \<Rightarrow> (StoreError, JobState) result" where
  "decode_job_state C value = decode_by C JobState_ALL encode_job_state value"

definition decode_tier :: "codec \<Rightarrow> string \<Rightarrow> (StoreError, RuntimeTier) result" where
  "decode_tier C value = decode_by C [Session, Durable] encode_tier value"

definition decode_missed :: "codec \<Rightarrow> string \<Rightarrow> (StoreError, MissedPolicy) result" where
  "decode_missed C value = decode_by C [Hold, RunLatest, Skip] encode_missed value"

definition to_sql_u64 :: "u64 \<Rightarrow> (StoreError, int) result" where
  "to_sql_u64 value =
     (if unat value < 2 ^ 63 then Inr (int (unat value)) else Inl (Corrupt ''counter exceeds SQLite i64''))"

text \<open>\<open>to_string\<close> of an identifier; printing never fails (\<open>encode_eq\<close>).\<close>

definition job_text :: "JobId \<Rightarrow> string" where
  "job_text i = (case JobId_to_string i of Inr s \<Rightarrow> s | Inl _ \<Rightarrow> [])"

definition parse_timestamp :: "codec \<Rightarrow> string \<Rightarrow> (StoreError, UtcTimestamp) result" where
  "parse_timestamp C value =
     map_err (\<lambda>e. Corrupt (PrimitiveError_text e)) (timestamp_from_str (parse_ts C) value)"

definition map_opt_result :: "('a \<Rightarrow> ('e, 'b) result) \<Rightarrow> 'a option \<Rightarrow> ('e, 'b option) result" where
  "map_opt_result f x = (case x of None \<Rightarrow> Inr None | Some a \<Rightarrow> map_ok Some (f a))"

definition decode_counter :: "string \<Rightarrow> int \<Rightarrow> (StoreError, u64) result" where
  "decode_counter message raw = (if raw < 0 then Inl (Corrupt message) else Inr (of_int raw))"

section \<open>Reading\<close>

abbreviation corrupt :: "('e \<Rightarrow> string) \<Rightarrow> ('e, 'a) result \<Rightarrow> (StoreError, 'a) result" where
  "corrupt message r \<equiv> map_err (\<lambda>e. Corrupt (message e)) r"

definition decode_job_row :: "codec \<Rightarrow> job_row \<Rightarrow> (StoreError, Job) result" where
  "decode_job_row C row =
     try_bind (corrupt IdentifierError_text (JobId_from_str (jr_id row))) (\<lambda>i.
     try_bind (decode_counter ''negative revision'' (jr_revision row)) (\<lambda>raw.
     try_bind (corrupt PrimitiveError_text (Revision_new raw)) (\<lambda>revision.
     try_bind (corrupt PrimitiveError_text (map_opt_result Name_new (jr_name row))) (\<lambda>name.
     try_bind (corrupt PrimitiveError_text (map_opt_result Description_new (jr_description row))) (\<lambda>description.
     try_bind (parse_timestamp C (jr_created_at row)) (\<lambda>created_at.
     try_bind (parse_timestamp C (jr_updated_at row)) (\<lambda>updated_at.
     try_bind (decode_job_state C (jr_state row)) (\<lambda>state.
     try_bind (decode_tier C (jr_tier row)) (\<lambda>tier.
     try_bind (corrupt id (schedule_of_json C (jr_schedule row))) (\<lambda>schedule.
     try_bind (decode_missed C (jr_missed row)) (\<lambda>missed.
     try_bind (corrupt ExecutionStorageError_text
         (from_persistence_json (execution_of_json C) (jr_execution row))) (\<lambda>execution.
     try_bind (parse_timestamp C (jr_next_due row)) (\<lambda>next_due.
     try_bind (if jr_owner_uid row < 0 \<or> 2 ^ 32 \<le> jr_owner_uid row
         then Inl (Corrupt ''owner UID is outside u32'') else Inr (of_int (jr_owner_uid row))) (\<lambda>owner.
     corrupt JobError_text (Job_rehydrate
       \<lparr> js_id = i, js_revision = revision, js_name = name, js_description = description,
         js_created_at = created_at, js_updated_at = updated_at, js_state = state, js_tier = tier,
         js_schedule = schedule, js_missed_policy = missed, js_execution = execution,
         js_next_due = next_due, js_tzdb_version = jr_tzdb_version row, js_owner_uid = owner \<rparr>)))))))))))))))"

definition load_job :: "codec \<Rightarrow> Database \<Rightarrow> JobId \<Rightarrow> (StoreError, Job option) result" where
  "load_job C db i =
     (case find (\<lambda>row. jr_id row = job_text i) (db_jobs db) of
        None \<Rightarrow> Inr None
      | Some row \<Rightarrow> map_ok Some (decode_job_row C row))"

section \<open>Writing\<close>

definition statement :: "(nat \<Rightarrow> StoreError option) \<Rightarrow> nat \<Rightarrow> (StoreError, unit) result" where
  "statement fault n = (case fault n of None \<Rightarrow> Inr () | Some e \<Rightarrow> Inl e)"

definition encode_job_row ::
  "codec \<Rightarrow> JobSnapshot \<Rightarrow> string \<Rightarrow> string \<Rightarrow> int \<Rightarrow> job_row" where
  "encode_job_row C s schedule execution revision =
     \<lparr> jr_id = job_text (js_id s), jr_revision = revision,
       jr_name = map_option name_str (js_name s),
       jr_description = map_option description_str (js_description s),
       jr_created_at = show_ts C (js_created_at s), jr_updated_at = show_ts C (js_updated_at s),
       jr_state = encode_job_state (js_state s), jr_tier = encode_tier (js_tier s),
       jr_schedule = schedule, jr_missed = encode_missed (js_missed_policy s),
       jr_execution = execution, jr_next_due = show_ts C (js_next_due s),
       jr_tzdb_version = js_tzdb_version s, jr_owner_uid = int (unat (js_owner_uid s)),
       jr_hidden = False \<rparr>"

definition create ::
  "codec \<Rightarrow> (nat \<Rightarrow> StoreError option) \<Rightarrow> Database \<Rightarrow> Job \<Rightarrow> (StoreError, Database) result" where
  "create C fault db job =
     (let s = Job_snapshot job in
      try_bind (corrupt id (schedule_to_json C (js_schedule s))) (\<lambda>schedule.
      try_bind (corrupt ExecutionStorageError_text
          (to_persistence_json (execution_to_json C) (js_execution s))) (\<lambda>execution.
      try_bind (to_sql_u64 (revision_get (js_revision s))) (\<lambda>revision.
      try_bind (statement fault 0) (\<lambda>_.
      if job_text (js_id s) \<in> jr_id ` set (db_jobs db) \<or> revision \<le> 0 then Inl AlreadyExists
      else Inr (db\<lparr>db_jobs := db_jobs db @ [encode_job_row C s schedule execution revision]\<rparr>))))))"

text \<open>\<open>UPDATE jobs SET ... WHERE ...\<close>: the number of rows changed and the new table.\<close>

definition update_jobs :: "(job_row \<Rightarrow> bool) \<Rightarrow> (job_row \<Rightarrow> job_row) \<Rightarrow> Database \<Rightarrow> nat \<times> Database" where
  "update_jobs cond set_columns db =
     (length (filter cond (db_jobs db)),
      db\<lparr>db_jobs := map (\<lambda>row. if cond row then set_columns row else row) (db_jobs db)\<rparr>)"

definition insert_transition :: "transition_row \<Rightarrow> Database \<Rightarrow> Database" where
  "insert_transition row db = db\<lparr>db_transitions := db_transitions db @ [row]\<rparr>"

definition job_transition_row ::
  "codec \<Rightarrow> JobId \<Rightarrow> JobState Transition \<Rightarrow> UtcTimestamp \<Rightarrow> int \<Rightarrow> transition_row" where
  "job_transition_row C i tr now revision =
     \<lparr> tw_job_id = job_text i, tw_from = encode_job_state (tr_from tr),
       tw_to = encode_job_state (tr_to tr), tw_occurred_at = show_ts C now,
       tw_actor = encode_actor (tr_actor tr), tw_reason = tr_reason tr, tw_revision = revision \<rparr>"

definition transition_job ::
  "codec \<Rightarrow> (nat \<Rightarrow> StoreError option) \<Rightarrow> Database \<Rightarrow> JobId \<Rightarrow> Revision \<Rightarrow> JobState \<Rightarrow> bool \<Rightarrow>
     TransitionActor \<Rightarrow> string \<Rightarrow> UtcTimestamp \<Rightarrow> (StoreError, Job \<times> Database) result" where
  "transition_job C fault db i expected to recurring actor reason now =
     try_bind (statement fault 0) (\<lambda>_.
     try_bind (statement fault 1) (\<lambda>_.
     try_bind (try_bind (load_job C db i) (ok_or NotFound)) (\<lambda>job.
     if job_revision job \<noteq> expected then Inl Conflict
     else try_bind (map_err (\<lambda>e. Domain (JobError_text e)) (Job_transition job to recurring actor reason now))
       (\<lambda>(job', tr).
     try_bind (to_sql_u64 (revision_get (job_revision job'))) (\<lambda>revision.
     try_bind (to_sql_u64 (revision_get expected)) (\<lambda>old_revision.
     try_bind (statement fault 2) (\<lambda>_.
       (let (changed, db1) = update_jobs
          (\<lambda>row. jr_id row = job_text i \<and> jr_revision row = old_revision)
          (\<lambda>row. row\<lparr>jr_revision := revision, jr_state := encode_job_state (job_state job'),
             jr_updated_at := show_ts C now\<rparr>) db
        in if changed \<noteq> 1 then Inl Conflict
           else try_bind (statement fault 3) (\<lambda>_.
             try_bind (statement fault 4) (\<lambda>_.
               Inr (job', insert_transition (job_transition_row C i tr now revision) db1)))))))))))"

definition advance_recurring_job ::
  "codec \<Rightarrow> (int \<Rightarrow> bool) \<Rightarrow> (nat \<Rightarrow> StoreError option) \<Rightarrow> Database \<Rightarrow> JobId \<Rightarrow> Revision \<Rightarrow>
     UtcTimestamp \<Rightarrow> (StoreError, Job \<times> Database) result" where
  "advance_recurring_job C accepts fault db i expected now =
     try_bind (statement fault 0) (\<lambda>_.
     try_bind (statement fault 1) (\<lambda>_.
     try_bind (try_bind (load_job C db i) (ok_or NotFound)) (\<lambda>job.
     if job_revision job \<noteq> expected then Inl Conflict
     else try_bind (map_err (\<lambda>e. Domain (JobError_text e))
         (advance_recurring accepts job Monitor ''next fixed-rate occurrence'' now))
       (\<lambda>(job', tr).
     try_bind (to_sql_u64 (revision_get (job_revision job'))) (\<lambda>revision.
     try_bind (to_sql_u64 (revision_get expected)) (\<lambda>old_revision.
     try_bind (statement fault 2) (\<lambda>_.
       (let (changed, db1) = update_jobs
          (\<lambda>row. jr_id row = job_text i \<and> jr_revision row = old_revision)
          (\<lambda>row. row\<lparr>jr_revision := revision, jr_state := encode_job_state (job_state job'),
             jr_updated_at := show_ts C now, jr_next_due := show_ts C (job_next_due job')\<rparr>) db
        in if changed \<noteq> 1 then Inl Conflict
           else try_bind (statement fault 3) (\<lambda>_.
             try_bind (statement fault 4) (\<lambda>_.
               Inr (job', insert_transition (job_transition_row C i tr now revision) db1)))))))))))"

section \<open>Text forms read back\<close>

lemma encode_job_state_inject: "encode_job_state s = encode_job_state t \<longleftrightarrow> s = t"
  by (cases s; cases t) simp_all

lemma find_by_text:
  assumes "s \<in> set variants" "\<And>t. enc t = enc s \<longleftrightarrow> t = s"
  shows "find (\<lambda>v. enc v = enc s) variants = Some s"
  using assms by (induction variants) auto

lemma decode_job_state_encode [simp]: "decode_job_state C (encode_job_state s) = Inr s"
proof -
  have "s \<in> set JobState_ALL"
    by (cases s) (simp_all add: JobState_ALL_def)
  then show ?thesis
    unfolding decode_job_state_def decode_by_def
    using find_by_text [of s JobState_ALL encode_job_state] by (simp add: encode_job_state_inject)
qed

lemma decode_tier_encode [simp]: "decode_tier C (encode_tier t) = Inr t"
  by (cases t) (simp_all add: decode_tier_def decode_by_def)

lemma decode_missed_encode [simp]: "decode_missed C (encode_missed m) = Inr m"
  by (cases m) (simp_all add: decode_missed_def decode_by_def)

lemma job_text_eq: "JobId_to_string i = Inr (job_text i)"
  by (simp add: job_text_def JobId_to_string_def encode_eq)

lemma JobId_from_str_job_text [simp]: "JobId_from_str (job_text i) = Inr i"
  using job_text_eq [of i] decode_encode [of "job_uuid i" "job_text i"]
  by (simp add: JobId_from_str_def JobId_to_string_def)

lemma job_text_inject [simp]: "job_text i = job_text j \<longleftrightarrow> i = j"
  by (metis JobId_from_str_job_text sum.inject(2))

lemma to_sql_u64_eq_Inr: "to_sql_u64 v = Inr n \<longleftrightarrow> n = int (unat v) \<and> unat v < 2 ^ 63"
  by (auto simp: to_sql_u64_def)

lemma decode_counter_to_sql [simp]: "decode_counter m (int (unat v)) = Inr v"
  by (simp add: decode_counter_def)

lemma decode_counter_eq_Inr: "decode_counter m raw = Inr v \<longleftrightarrow> 0 \<le> raw \<and> v = of_int raw"
  by (auto simp: decode_counter_def)

text \<open>What the code relies on of the text formats: reading gives back what was written.\<close>

definition codec_ok :: "codec \<Rightarrow> bool" where
  "codec_ok C =
     ((\<forall>t. parse_ts C (show_ts C t) = Some t)
      \<and> (\<forall>x s. schedule_to_json C x = Inr s \<longrightarrow> schedule_of_json C s = Inr x)
      \<and> (\<forall>x s. execution_to_json C x = Inr s \<longrightarrow> execution_of_json C s = Inr x)
      \<and> (\<forall>x s. identity_to_json C (Some x) = Inr s \<longrightarrow> identity_of_json C s = Inr x)
      \<and> (\<forall>x s. outcome_to_json C x = Inr s \<longrightarrow> outcome_of_json C s = Inr x))"

lemma parse_timestamp_show [simp]: "codec_ok C \<Longrightarrow> parse_timestamp C (show_ts C t) = Inr t"
  by (simp add: parse_timestamp_def timestamp_from_str_def codec_ok_def)

section \<open>Rows and jobs\<close>

text \<open>When a row decodes to a job, column by column.\<close>

lemma decode_job_row_eq_Inr:
  "decode_job_row C row = Inr job \<longleftrightarrow>
     JobId_from_str (jr_id row) = Inr (job_id job)
     \<and> 0 \<le> jr_revision row \<and> Revision_new (of_int (jr_revision row)) = Inr (job_revision job)
     \<and> map_opt_result Name_new (jr_name row) = Inr (job_name job)
     \<and> map_opt_result Description_new (jr_description row) = Inr (job_description job)
     \<and> parse_timestamp C (jr_created_at row) = Inr (job_created_at job)
     \<and> parse_timestamp C (jr_updated_at row) = Inr (job_updated_at job)
     \<and> decode_job_state C (jr_state row) = Inr (job_state job)
     \<and> decode_tier C (jr_tier row) = Inr (job_tier job)
     \<and> schedule_of_json C (jr_schedule row) = Inr (job_schedule job)
     \<and> decode_missed C (jr_missed row) = Inr (job_missed_policy job)
     \<and> from_persistence_json (execution_of_json C) (jr_execution row) = Inr (job_execution job)
     \<and> parse_timestamp C (jr_next_due row) = Inr (job_next_due job)
     \<and> 0 \<le> jr_owner_uid row \<and> jr_owner_uid row < 2 ^ 32 \<and> job_owner_uid job = of_int (jr_owner_uid row)
     \<and> jr_tzdb_version row = job_tzdb_version job
     \<and> job_created_at job \<le> job_updated_at job \<and> job_tzdb_version job \<noteq> []
     \<and> \<not> contains_nul (job_tzdb_version job)"
  by (cases job) (auto simp: decode_job_row_def result_simps Job_rehydrate_def decode_counter_eq_Inr split: if_splits)

text \<open>The jobs that storage represents faithfully.\<close>

definition storable :: "Job \<Rightarrow> bool" where
  "storable job =
     (valid_job job \<and> unat (revision_get (job_revision job)) < 2 ^ 63
      \<and> (case job_name job of None \<Rightarrow> True | Some n \<Rightarrow> Name_new (name_str n) = Inr n)
      \<and> (case job_description job of None \<Rightarrow> True | Some d \<Rightarrow> Description_new (description_str d) = Inr d))"

lemma decode_encode_job_row:
  assumes "codec_ok C" "storable job"
    and "schedule_to_json C (job_schedule job) = Inr schedule"
    and "to_persistence_json (execution_to_json C) (job_execution job) = Inr execution"
  shows "decode_job_row C (encode_job_row C (Job_snapshot job) schedule execution
      (int (unat (revision_get (job_revision job))))) = Inr job"
proof -
  have "from_persistence_json (execution_of_json C) execution = Inr (job_execution job)"
    using assms from_persisted_roundtrip [of "job_execution job"]
    by (auto simp: to_persistence_json_def from_persistence_json_def result_simps codec_ok_def storable_def
        valid_job_def)
  moreover have "uint (job_owner_uid job) < 2 ^ 32"
    using unsigned_less [of "job_owner_uid job", where 'a = int] by simp
  ultimately show ?thesis
    using assms
    by (auto simp: decode_job_row_eq_Inr encode_job_row_def Job_snapshot_def codec_ok_def storable_def
        valid_job_def nonzero_revision_def Revision_new_def map_opt_result_def split: option.splits)
qed

section \<open>The job table as a map\<close>

definition job_keys :: "Database \<Rightarrow> bool" where
  "job_keys db = distinct (map jr_id (db_jobs db))"

lemma find_unique:
  assumes "distinct (map f xs)" "x \<in> set xs"
  shows "find (\<lambda>y. f y = f x) xs = Some x"
  using assms by (induction xs) (auto simp: image_iff)

lemma find_map_update:
  assumes "\<And>y. f (g y) = f y" "\<And>y. P y \<Longrightarrow> f y = k"
  shows "find (\<lambda>y. f y = k') (map (\<lambda>y. if P y then g y else y) xs) =
    map_option (\<lambda>y. if P y then g y else y) (find (\<lambda>y. f y = k') xs)"
  using assms by (induction xs) auto

lemma filter_unique_length:
  assumes "distinct (map f xs)" "\<And>y. P y \<Longrightarrow> f y = k"
  shows "length (filter P xs) \<le> 1"
  using assms
proof (induction xs)
  case (Cons x xs)
  show ?case
  proof (cases "P x")
    case True
    then have "filter P xs = []"
      using Cons.prems by (force simp: filter_empty_conv)
    then show ?thesis by simp
  qed (use Cons in simp)
qed simp

lemma load_job_eq_Inr:
  "load_job C db i = Inr (Some job) \<longleftrightarrow>
     (\<exists>row. find (\<lambda>row. jr_id row = job_text i) (db_jobs db) = Some row \<and> decode_job_row C row = Inr job)"
  by (auto simp: load_job_def result_simps split: option.splits)

lemma load_job_id: "load_job C db i = Inr (Some job) \<Longrightarrow> job_id job = i"
  by (auto simp: load_job_eq_Inr decode_job_row_eq_Inr find_Some_iff)

lemma find_jr_id: "find (\<lambda>row. jr_id row = k) rows = Some row \<Longrightarrow> jr_id row = k \<and> row \<in> set rows"
  by (auto simp: find_Some_iff)

lemma changed_row:
  assumes "job_keys db" "find (\<lambda>row. jr_id row = k) (db_jobs db) = Some row"
    and "length (filter P (db_jobs db)) = 1" "\<And>y. P y \<Longrightarrow> jr_id y = k"
  shows "P row"
proof -
  obtain y where y: "y \<in> set (db_jobs db)" "P y"
    using assms(3) by (metis One_nat_def filter_empty_conv length_0_conv zero_neq_one)
  then have "find (\<lambda>r. jr_id r = k) (db_jobs db) = Some y"
    using find_unique [of jr_id "db_jobs db" y] assms(1,4) by (simp add: job_keys_def)
  with assms(2) y(2) show ?thesis by simp
qed

text \<open>An update of the one row of a job is seen by every later read, and by no other job.\<close>

lemma update_one_job:
  assumes keys: "job_keys db" and row: "find (\<lambda>row. jr_id row = job_text i) (db_jobs db) = Some row"
    and "P row" "\<And>y. P y \<Longrightarrow> jr_id y = job_text i" "\<And>y. jr_id (g y) = jr_id y"
    and "decode_job_row C (g row) = Inr job'"
  shows "load_job C (snd (update_jobs P g db)) i = Inr (Some job')"
    "k \<noteq> i \<Longrightarrow> load_job C (snd (update_jobs P g db)) k = load_job C db k"
    "job_keys (snd (update_jobs P g db))"
proof -
  have upd: "find (\<lambda>row. jr_id row = key) (map (\<lambda>row. if P row then g row else row) (db_jobs db)) =
      map_option (\<lambda>row. if P row then g row else row) (find (\<lambda>row. jr_id row = key) (db_jobs db))" for key
    by (rule find_map_update [where k = "job_text i"]) (use assms in auto)
  show "load_job C (snd (update_jobs P g db)) i = Inr (Some job')"
    using row assms(3,6) by (simp add: load_job_def update_jobs_def upd)
  show "load_job C (snd (update_jobs P g db)) k = load_job C db k" if "k \<noteq> i"
  proof (cases "find (\<lambda>row. jr_id row = job_text k) (db_jobs db)")
    case None
    then show ?thesis by (simp add: load_job_def update_jobs_def upd)
  next
    case (Some r)
    then have "\<not> P r"
      using find_jr_id [OF Some] assms(4) [of r] that by auto
    with Some show ?thesis by (simp add: load_job_def update_jobs_def upd)
  qed
  have eq: "map jr_id (map (\<lambda>row. if P row then g row else row) (db_jobs db)) = map jr_id (db_jobs db)"
    using assms(5) by simp
  show "job_keys (snd (update_jobs P g db))"
    using keys unfolding job_keys_def update_jobs_def snd_conv by (simp del: map_map add: eq)
qed

lemma load_job_insert_transition [simp]: "load_job C (insert_transition r db) i = load_job C db i"
  by (simp add: load_job_def insert_transition_def)

lemma job_keys_insert_transition [simp]: "job_keys (insert_transition r db) = job_keys db"
  by (simp add: job_keys_def insert_transition_def)

lemma transition_job_eq_Inr:
  assumes "transition_job C fault db i expected to recurring actor reason now = Inr (job', db')"
  obtains job tr where "load_job C db i = Inr (Some job)" "job_revision job = expected"
    "Job_transition job to recurring actor reason now = Inr (job', tr)"
    "unat (revision_get (job_revision job')) < 2 ^ 63"
    "length (filter (\<lambda>row. jr_id row = job_text i \<and> jr_revision row = int (unat (revision_get expected)))
       (db_jobs db)) = 1"
    "db' = insert_transition (job_transition_row C i tr now (int (unat (revision_get (job_revision job')))))
       (snd (update_jobs (\<lambda>row. jr_id row = job_text i \<and> jr_revision row = int (unat (revision_get expected)))
          (\<lambda>row. row\<lparr>jr_revision := int (unat (revision_get (job_revision job'))),
             jr_state := encode_job_state (job_state job'), jr_updated_at := show_ts C now\<rparr>) db))"
  using assms
  by (auto simp: transition_job_def result_simps to_sql_u64_eq_Inr update_jobs_def Let_def split: if_splits)

lemma advance_recurring_job_eq_Inr:
  assumes "advance_recurring_job C accepts fault db i expected now = Inr (job', db')"
  obtains job tr where "load_job C db i = Inr (Some job)" "job_revision job = expected"
    "advance_recurring accepts job Monitor ''next fixed-rate occurrence'' now = Inr (job', tr)"
    "unat (revision_get (job_revision job')) < 2 ^ 63"
    "length (filter (\<lambda>row. jr_id row = job_text i \<and> jr_revision row = int (unat (revision_get expected)))
       (db_jobs db)) = 1"
    "db' = insert_transition (job_transition_row C i tr now (int (unat (revision_get (job_revision job')))))
       (snd (update_jobs (\<lambda>row. jr_id row = job_text i \<and> jr_revision row = int (unat (revision_get expected)))
          (\<lambda>row. row\<lparr>jr_revision := int (unat (revision_get (job_revision job'))),
             jr_state := encode_job_state (job_state job'), jr_updated_at := show_ts C now,
             jr_next_due := show_ts C (job_next_due job')\<rparr>) db))"
  using assms
  by (auto simp: advance_recurring_job_def result_simps to_sql_u64_eq_Inr update_jobs_def Let_def split: if_splits)

lemma decode_transitioned_row:
  assumes "codec_ok C" "decode_job_row C row = Inr job"
    and "Job_transition job to recurring actor reason now = Inr (job', tr)"
  shows "decode_job_row C (row\<lparr>jr_revision := int (unat (revision_get (job_revision job'))),
      jr_state := encode_job_state (job_state job'), jr_updated_at := show_ts C now\<rparr>) = Inr job'"
proof -
  have nz: "revision_get (job_revision job') \<noteq> 0" and le: "job_updated_at job \<le> now"
    using assms(3) by (auto simp: Job_transition_eq_Inr)
  have job': "job' = job\<lparr>job_revision := job_revision job', job_state := to, job_updated_at := now\<rparr>"
    using assms(3) by (simp add: Job_transition_eq_Inr)
  have to: "job_state job' = to"
    using Job_transition_state [OF assms(3)] by simp
  show ?thesis
    unfolding to
    by (subst job') (use assms(1,2) nz le in \<open>simp add: decode_job_row_eq_Inr Revision_new_def\<close>)
qed

lemma decode_advanced_row:
  assumes "codec_ok C" "decode_job_row C row = Inr job"
    and "advance_recurring accepts job actor reason now = Inr (job', tr)"
  shows "decode_job_row C (row\<lparr>jr_revision := int (unat (revision_get (job_revision job'))),
      jr_state := encode_job_state (job_state job'), jr_updated_at := show_ts C now,
      jr_next_due := show_ts C (job_next_due job')\<rparr>) = Inr job'"
proof -
  obtain due j where j: "Job_transition job JobState.Waiting True actor reason now = Inr (j, tr)"
    and job': "job' = j\<lparr>job_next_due := due\<rparr>"
    using assms(3) unfolding advance_recurring_eq_Inr by blast
  show ?thesis
    using decode_transitioned_row [OF assms(1,2) j] assms(1) by (simp add: job' decode_job_row_eq_Inr)
qed

lemma transition_job_effect:
  assumes "job_keys db" "codec_ok C"
    and "transition_job C fault db i expected to recurring actor reason now = Inr (job', db')"
  shows "load_job C db' i = Inr (Some job')" "k \<noteq> i \<Longrightarrow> load_job C db' k = load_job C db k" "job_keys db'"
    "db_runs db' = db_runs db" "\<exists>t. db_transitions db' = db_transitions db @ [t]"
    "\<exists>job tr. load_job C db i = Inr (Some job) \<and> job_revision job = expected
       \<and> Job_transition job to recurring actor reason now = Inr (job', tr)"
proof -
  obtain job tr where job: "load_job C db i = Inr (Some job)" "job_revision job = expected"
    "Job_transition job to recurring actor reason now = Inr (job', tr)"
    and one: "length (filter (\<lambda>row. jr_id row = job_text i \<and> jr_revision row = int (unat (revision_get expected)))
       (db_jobs db)) = 1"
    and db': "db' = insert_transition (job_transition_row C i tr now (int (unat (revision_get (job_revision job')))))
       (snd (update_jobs (\<lambda>row. jr_id row = job_text i \<and> jr_revision row = int (unat (revision_get expected)))
          (\<lambda>row. row\<lparr>jr_revision := int (unat (revision_get (job_revision job'))),
             jr_state := encode_job_state (job_state job'), jr_updated_at := show_ts C now\<rparr>) db))"
    by (rule transition_job_eq_Inr [OF assms(3)])
  obtain row where row: "find (\<lambda>row. jr_id row = job_text i) (db_jobs db) = Some row" "decode_job_row C row = Inr job"
    using job(1) unfolding load_job_eq_Inr by blast
  note cond = changed_row [OF assms(1) row(1) one]
  note dec = decode_transitioned_row [OF assms(2) row(2) job(3)]
  show "load_job C db' i = Inr (Some job')"
    unfolding db' load_job_insert_transition
    by (rule update_one_job(1) [OF assms(1) row(1)]) (use cond dec in auto)
  show "load_job C db' k = load_job C db k" if "k \<noteq> i"
    unfolding db' load_job_insert_transition
    by (rule update_one_job(2) [OF assms(1) row(1)]) (use cond dec that in auto)
  show "job_keys db'"
    unfolding db' job_keys_insert_transition
    by (rule update_one_job(3) [where C = C and job' = job', OF assms(1) row(1)]) (use cond dec in auto)
  show "db_runs db' = db_runs db" "\<exists>t. db_transitions db' = db_transitions db @ [t]"
    by (simp_all add: db' insert_transition_def update_jobs_def)
  show "\<exists>job tr. load_job C db i = Inr (Some job) \<and> job_revision job = expected
       \<and> Job_transition job to recurring actor reason now = Inr (job', tr)"
    using job by blast
qed

lemma advance_recurring_job_effect:
  assumes "job_keys db" "codec_ok C"
    and "advance_recurring_job C accepts fault db i expected now = Inr (job', db')"
  shows "load_job C db' i = Inr (Some job')" "k \<noteq> i \<Longrightarrow> load_job C db' k = load_job C db k" "job_keys db'"
    "db_runs db' = db_runs db"
    "\<exists>job tr. load_job C db i = Inr (Some job) \<and> job_revision job = expected
       \<and> advance_recurring accepts job Monitor ''next fixed-rate occurrence'' now = Inr (job', tr)"
proof -
  obtain job tr where job: "load_job C db i = Inr (Some job)" "job_revision job = expected"
    "advance_recurring accepts job Monitor ''next fixed-rate occurrence'' now = Inr (job', tr)"
    and one: "length (filter (\<lambda>row. jr_id row = job_text i \<and> jr_revision row = int (unat (revision_get expected)))
       (db_jobs db)) = 1"
    and db': "db' = insert_transition (job_transition_row C i tr now (int (unat (revision_get (job_revision job')))))
       (snd (update_jobs (\<lambda>row. jr_id row = job_text i \<and> jr_revision row = int (unat (revision_get expected)))
          (\<lambda>row. row\<lparr>jr_revision := int (unat (revision_get (job_revision job'))),
             jr_state := encode_job_state (job_state job'), jr_updated_at := show_ts C now,
             jr_next_due := show_ts C (job_next_due job')\<rparr>) db))"
    by (rule advance_recurring_job_eq_Inr [OF assms(3)])
  obtain row where row: "find (\<lambda>row. jr_id row = job_text i) (db_jobs db) = Some row" "decode_job_row C row = Inr job"
    using job(1) unfolding load_job_eq_Inr by blast
  note cond = changed_row [OF assms(1) row(1) one]
  note dec = decode_advanced_row [OF assms(2) row(2) job(3)]
  show "load_job C db' i = Inr (Some job')"
    unfolding db' load_job_insert_transition
    by (rule update_one_job(1) [OF assms(1) row(1)]) (use cond dec in auto)
  show "load_job C db' k = load_job C db k" if "k \<noteq> i"
    unfolding db' load_job_insert_transition
    by (rule update_one_job(2) [OF assms(1) row(1)]) (use cond dec that in auto)
  show "job_keys db'"
    unfolding db' job_keys_insert_transition
    by (rule update_one_job(3) [where C = C and job' = job', OF assms(1) row(1)]) (use cond dec in auto)
  show "db_runs db' = db_runs db"
    by (simp add: db' insert_transition_def update_jobs_def)
  show "\<exists>job tr. load_job C db i = Inr (Some job) \<and> job_revision job = expected
       \<and> advance_recurring accepts job Monitor ''next fixed-rate occurrence'' now = Inr (job', tr)"
    using job by blast
qed

section \<open>Creation\<close>

lemma find_append:
  "find P (xs @ ys) = (case find P xs of None \<Rightarrow> find P ys | Some x \<Rightarrow> Some x)"
  by (induction xs) auto

lemma Job_snapshot_fields [simp]:
  "js_id (Job_snapshot job) = job_id job" "js_revision (Job_snapshot job) = job_revision job"
  "js_schedule (Job_snapshot job) = job_schedule job" "js_execution (Job_snapshot job) = job_execution job"
  by (simp_all add: Job_snapshot_def)

lemma sql_counter_positive: "int (unat v) \<le> 0 \<longleftrightarrow> v = 0"
  by (simp add: uint_0_iff)

lemma create_eq_Inr:
  "create C fault db job = Inr db' \<longleftrightarrow>
     fault 0 = None \<and> unat (revision_get (job_revision job)) < 2 ^ 63 \<and> revision_get (job_revision job) \<noteq> 0
     \<and> job_text (job_id job) \<notin> jr_id ` set (db_jobs db)
     \<and> (\<exists>schedule execution. schedule_to_json C (job_schedule job) = Inr schedule
          \<and> to_persistence_json (execution_to_json C) (job_execution job) = Inr execution
          \<and> db' = db\<lparr>db_jobs := db_jobs db @ [encode_job_row C (Job_snapshot job) schedule execution
              (int (unat (revision_get (job_revision job))))]\<rparr>)"
  by (auto simp: create_def result_simps to_sql_u64_eq_Inr statement_def Let_def sql_counter_positive unat_gt_0
      simp del: of_nat_unat split: if_splits option.splits)

lemma create_jr_id: "jr_id (encode_job_row C (Job_snapshot job) schedule execution n) = job_text (job_id job)"
  by (simp add: encode_job_row_def Job_snapshot_def)

lemma create_keys: "create C fault db job = Inr db' \<Longrightarrow> job_keys db \<Longrightarrow> job_keys db'"
  by (auto simp: create_eq_Inr job_keys_def create_jr_id)

lemma create_load:
  assumes "create C fault db job = Inr db'" "codec_ok C" "storable job"
  shows "load_job C db (job_id job) = Inr None" "load_job C db' (job_id job) = Inr (Some job)"
    "k \<noteq> job_id job \<Longrightarrow> load_job C db' k = load_job C db k"
proof -
  obtain schedule execution where new: "job_text (job_id job) \<notin> jr_id ` set (db_jobs db)"
    and json: "schedule_to_json C (job_schedule job) = Inr schedule"
      "to_persistence_json (execution_to_json C) (job_execution job) = Inr execution"
    and db': "db' = db\<lparr>db_jobs := db_jobs db @ [encode_job_row C (Job_snapshot job) schedule execution
              (int (unat (revision_get (job_revision job))))]\<rparr>"
    using assms(1) by (auto simp: create_eq_Inr)
  have none: "find (\<lambda>row. jr_id row = job_text (job_id job)) (db_jobs db) = None"
    using new by (auto simp: find_None_iff image_iff)
  show "load_job C db (job_id job) = Inr None"
    by (simp add: load_job_def none)
  show "load_job C db' (job_id job) = Inr (Some job)"
    using decode_encode_job_row [OF assms(2,3) json]
    by (simp add: load_job_def db' find_append none create_jr_id)
  show "load_job C db' k = load_job C db k" if "k \<noteq> job_id job"
    using that by (auto simp: load_job_def db' find_append create_jr_id split: option.split)
qed

section \<open>Properties\<close>

text \<open>
  Creating a job stores it: a read gives back the job that was submitted, with every
  field; the identifier was unused before; no other job is affected; and a second creation
  with that identifier is refused.
\<close>

theorem created_job_reads_back:
  assumes "create C fault db job = Inr db'" "codec_ok C" "storable job" "job_keys db"
  shows "load_job C db (job_id job) = Inr None \<and> load_job C db' (job_id job) = Inr (Some job)
    \<and> (\<forall>k. k \<noteq> job_id job \<longrightarrow> load_job C db' k = load_job C db k) \<and> job_keys db'
    \<and> (\<forall>fault'. fault' 0 = None \<longrightarrow> create C fault' db' job = Inl AlreadyExists)"
proof -
  have "create C fault' db' job = Inl AlreadyExists" if "fault' 0 = None" for fault'
    using assms(1) [unfolded create_eq_Inr] that
    by (auto simp: create_def to_sql_u64_def statement_def create_jr_id Let_def simp del: of_nat_unat)
  then show ?thesis
    using create_load [OF assms(1-3)] create_keys [OF assms(1,4)] by blast
qed

text \<open>Codecs that accept one value each, for the concrete instances.\<close>

definition one_to_json :: "'a \<Rightarrow> 'a \<Rightarrow> (string, string) result" where
  "one_to_json v x = (if x = v then Inr ''{}'' else Inl ''unsupported'')"

definition one_of_json :: "'a \<Rightarrow> string \<Rightarrow> (string, 'a) result" where
  "one_of_json v s = (if s = ''{}'' then Inr v else Inl ''syntax'')"

definition sample_show_ts :: "UtcTimestamp \<Rightarrow> string" where
  "sample_show_ts t = (if t < 0 then CHR ''-'' # replicate (nat (- t)) CHR ''1'' else replicate (nat t) CHR ''1'')"

definition sample_parse_ts :: "string \<Rightarrow> UtcTimestamp option" where
  "sample_parse_ts s =
     Some (if s \<noteq> [] \<and> hd s = CHR ''-'' then - int (length (tl s)) else int (length s))"

definition sample_codec :: codec where
  "sample_codec =
     \<lparr> show_ts = sample_show_ts, parse_ts = sample_parse_ts,
       schedule_to_json = one_to_json (job_schedule sample_job),
       schedule_of_json = one_of_json (job_schedule sample_job),
       execution_to_json = sample_to_json, execution_of_json = sample_from_json,
       identity_to_json = one_to_json (Some sample_identity), identity_of_json = one_of_json sample_identity,
       outcome_to_json = one_to_json (RunOutcome.Exit 1), outcome_of_json = one_of_json (RunOutcome.Exit 1),
       variant_error = (\<lambda>s. ''unknown variant''), range_error = (\<lambda>n. ''out of range'') \<rparr>"

lemma sample_timestamps: "sample_parse_ts (sample_show_ts t) = Some t"
  by (cases "nat t") (auto simp: sample_parse_ts_def sample_show_ts_def)

lemma sample_codec_ok: "codec_ok sample_codec"
  by (auto simp: codec_ok_def sample_codec_def sample_timestamps one_to_json_def one_of_json_def
      sample_to_json_def sample_from_json_def split: if_splits)

definition empty_db :: Database where
  "empty_db = \<lparr> db_jobs = [], db_runs = [], db_transitions = [] \<rparr>"

lemma sample_job_storable: "storable sample_job"
  using sample_job_valid by (simp add: storable_def) (simp add: sample_job_def)

lemma sample_job_created: "\<exists>db. create sample_codec (\<lambda>_. None) empty_db sample_job = Inr db"
  by (simp add: create_eq_Inr empty_db_def sample_codec_def one_to_json_def sample_job_def
      to_persistence_json_def sample_to_json_def)

theorem created_job_reads_back_witness:
  "\<exists>db'. create sample_codec (\<lambda>_. None) empty_db sample_job = Inr db'
     \<and> load_job sample_codec db' (job_id sample_job) = Inr (Some sample_job)"
proof -
  have "job_keys empty_db" by (simp add: job_keys_def empty_db_def)
  then show ?thesis
    using sample_job_created created_job_reads_back [OF _ sample_codec_ok sample_job_storable] by blast
qed

text \<open>
  C7. A job transition through the store is atomic and optimistic.  On success the stored job
  is the transitioned one, its revision is one more than the expected one, no other job
  changes, and one transition is logged with the states and the new revision; any later
  attempt that still expects the old revision is refused with a conflict.
\<close>

theorem transition_job_compare_and_swap:
  assumes "transition_job C fault db i expected to recurring actor reason now = Inr (job', db')"
    and "codec_ok C" "job_keys db"
  shows "load_job C db' i = Inr (Some job') \<and> job_state job' = to
    \<and> unat (revision_get (job_revision job')) = unat (revision_get expected) + 1
    \<and> (\<forall>k. k \<noteq> i \<longrightarrow> load_job C db' k = load_job C db k)
    \<and> (\<exists>t. db_transitions db' = db_transitions db @ [t] \<and> tw_to t = encode_job_state to
         \<and> tw_revision t = int (unat (revision_get expected)) + 1)
    \<and> (\<forall>fault' to' r' a' m' now'. fault' 0 = None \<longrightarrow> fault' 1 = None \<longrightarrow>
         transition_job C fault' db' i expected to' r' a' m' now' = Inl Conflict)"
proof -
  obtain job tr where job: "load_job C db i = Inr (Some job)" "job_revision job = expected"
    "Job_transition job to recurring actor reason now = Inr (job', tr)"
    and db': "db' = insert_transition (job_transition_row C i tr now (int (unat (revision_get (job_revision job')))))
       (snd (update_jobs (\<lambda>row. jr_id row = job_text i \<and> jr_revision row = int (unat (revision_get expected)))
          (\<lambda>row. row\<lparr>jr_revision := int (unat (revision_get (job_revision job'))),
             jr_state := encode_job_state (job_state job'), jr_updated_at := show_ts C now\<rparr>) db))"
    by (rule transition_job_eq_Inr [OF assms(1)])
  note eff = transition_job_effect [OF assms(3,2,1)]
  have next_rev: "unat (revision_get (job_revision job')) = unat (revision_get expected) + 1"
    using job(2,3) by (simp add: Job_transition_eq_Inr)
  have "tr_to tr = to"
    using job(3) by (auto simp: Job_transition_eq_Inr job_transition_def transition_eq_Inr)
  then have log: "\<exists>t. db_transitions db' = db_transitions db @ [t] \<and> tw_to t = encode_job_state to
         \<and> tw_revision t = int (unat (revision_get expected)) + 1"
    by (simp add: db' insert_transition_def update_jobs_def job_transition_row_def next_rev)
  have "transition_job C fault' db' i expected to' r' a' m' now' = Inl Conflict"
    if "fault' 0 = None" "fault' 1 = None" for fault' to' r' a' m' now'
    using that eff(1) next_rev by (auto simp: transition_job_def statement_def)
  then show ?thesis
    using eff(1,2) next_rev log Job_transition_state [OF job(3)] by blast
qed

lemma sample_transition:
  assumes "create sample_codec (\<lambda>_. None) empty_db sample_job = Inr db"
  shows "\<exists>job' db'. transition_job sample_codec (\<lambda>_. None) db (job_id sample_job) (job_revision sample_job)
     JobState.Waiting True Supervisor ''armed'' 5 = Inr (job', db')"
proof -
  obtain job' tr where t: "Job_transition sample_job JobState.Waiting True Supervisor ''armed'' 5 = Inr (job', tr)"
    using sample_job_waits by blast
  then have "unat (revision_get (job_revision job')) = 2"
    by (simp add: Job_transition_eq_Inr sample_job_def)
  moreover have "load_job sample_codec db (job_id sample_job) = Inr (Some sample_job)"
    by (rule create_load(2) [OF assms sample_codec_ok sample_job_storable])
  moreover have "map jr_revision (db_jobs db) = [1]" "map jr_id (db_jobs db) = [job_text (job_id sample_job)]"
    "unat (revision_get (job_revision sample_job)) = 1"
    using assms by (auto simp: create_eq_Inr empty_db_def encode_job_row_def Job_snapshot_def sample_job_def)
  ultimately show ?thesis
    using t by (auto simp: transition_job_def statement_def to_sql_u64_def update_jobs_def)
qed

theorem transition_job_compare_and_swap_witness:
  "\<exists>db job' db'. create sample_codec (\<lambda>_. None) empty_db sample_job = Inr db
     \<and> transition_job sample_codec (\<lambda>_. None) db (job_id sample_job) (job_revision sample_job)
         JobState.Waiting True Supervisor ''armed'' 5 = Inr (job', db')
     \<and> load_job sample_codec db' (job_id sample_job) = Inr (Some job')
     \<and> transition_job sample_codec (\<lambda>_. None) db' (job_id sample_job) (job_revision sample_job)
         JobState.Cancelled True Cli ''again'' 6 = Inl Conflict"
proof -
  obtain db where db: "create sample_codec (\<lambda>_. None) empty_db sample_job = Inr db"
    using sample_job_created by blast
  then have keys: "job_keys db"
    by (rule create_keys) (simp add: job_keys_def empty_db_def)
  obtain job' db' where t: "transition_job sample_codec (\<lambda>_. None) db (job_id sample_job)
      (job_revision sample_job) JobState.Waiting True Supervisor ''armed'' 5 = Inr (job', db')"
    using sample_transition [OF db] by blast
  note cas = transition_job_compare_and_swap [OF t sample_codec_ok keys]
  then have "transition_job sample_codec (\<lambda>_. None) db' (job_id sample_job) (job_revision sample_job)
         JobState.Cancelled True Cli ''again'' 6 = Inl Conflict"
    by simp
  with db t cas show ?thesis by blast
qed

end
