(* ===== verification/Run_Store.thy ===== *)
theory Run_Store
  imports Job_Store
begin

text \<open>
  The run table (\<open>src/infrastructure/sqlite/run_store.rs\<close>): claims, the guarded updates of a
  claimed run, and reading.

  \<open>claim_run\<close> is one immediate transaction.  The other operations read the run and write it
  back in a second statement outside a transaction, so another process may commit in between:
  they take the database they read and the database they write to as separate arguments.  A
  fresh identifier and 32 random bytes are arguments of the claim.
\<close>

section \<open>Text forms\<close>

fun RunError_text :: "RunError \<Rightarrow> string" where
  "RunError_text OutcomeAlreadyRecorded = ''run outcome is already recorded''"
| "RunError_text FinishBeforeCreation = ''run cannot finish before it was created''"
| "RunError_text StartBeforeCreation = ''run cannot start before it was created''"
| "RunError_text InvalidState = ''run state does not allow this update''"
| "RunError_text InvalidIdentity = ''process identity is incomplete''"
| "RunError_text InvalidLogPath = ''log path must stay below the run directory''"
| "RunError_text InvalidTimeline = ''stored run timeline is inconsistent''"
| "RunError_text InvalidOutcome = ''stored run outcome does not match its state''"

definition run_text :: "RunId \<Rightarrow> string" where
  "run_text i = (case RunId_to_string i of Inr s \<Rightarrow> s | Inl _ \<Rightarrow> [])"

fun encode_run_state :: "RunState \<Rightarrow> string" where
  "encode_run_state RunState.Starting = ''starting''"
| "encode_run_state RunState.Running = ''running''"
| "encode_run_state RunState.CancelRequested = ''cancel_requested''"
| "encode_run_state RunState.Succeeded = ''succeeded''"
| "encode_run_state RunState.Failed = ''failed''"
| "encode_run_state RunState.Cancelled = ''cancelled''"
| "encode_run_state RunState.Interrupted = ''interrupted''"

definition decode_run_state :: "string \<Rightarrow> (StoreError, RunState) result" where
  "decode_run_state value =
     (if value = ''starting'' then Inr RunState.Starting
      else if value = ''running'' then Inr RunState.Running
      else if value = ''cancel_requested'' then Inr RunState.CancelRequested
      else if value = ''succeeded'' then Inr RunState.Succeeded
      else if value = ''failed'' then Inr RunState.Failed
      else if value = ''cancelled'' then Inr RunState.Cancelled
      else if value = ''interrupted'' then Inr RunState.Interrupted
      else Inl (Corrupt ''unknown run state''))"

definition parse_optional_timestamp :: "codec \<Rightarrow> string option \<Rightarrow> (StoreError, UtcTimestamp option) result" where
  "parse_optional_timestamp C value = map_opt_result (parse_timestamp C) value"

definition decode_optional_json ::
  "(string \<Rightarrow> (string, 'a) result) \<Rightarrow> string option \<Rightarrow> (StoreError, 'a option) result" where
  "decode_optional_json of_json value = map_opt_result (\<lambda>json. corrupt id (of_json json)) value"

text \<open>An \<open>INTEGER\<close> column read as \<open>Option<i32>\<close>.\<close>

definition i32_column :: "codec \<Rightarrow> int option \<Rightarrow> (StoreError, int option) result" where
  "i32_column C value =
     (case value of
        None \<Rightarrow> Inr None
      | Some n \<Rightarrow> if - (2 ^ 31) \<le> n \<and> n < 2 ^ 31 then Inr (Some n) else Inl (Sqlite (range_error C n)))"

fun outcome_columns :: "RunOutcome \<Rightarrow> int option \<times> int option \<times> string option" where
  "outcome_columns (RunOutcome.Exit code) = (Some code, None, None)"
| "outcome_columns (RunOutcome.Signal signal) = (None, Some signal, None)"
| "outcome_columns (RunOutcome.Failure message) = (None, None, Some message)"
| "outcome_columns (RunOutcome.Interrupted message) = (None, None, Some message)"
| "outcome_columns (RunOutcome.Cancelled message) = (None, None, Some message)"

definition validate_outcome_columns ::
  "RunOutcome option \<Rightarrow> int option \<Rightarrow> int option \<Rightarrow> string option \<Rightarrow> (StoreError, unit) result" where
  "validate_outcome_columns outcome exit_code signal failure =
     (let agree =
        (case outcome of
           None \<Rightarrow> exit_code = None \<and> signal = None \<and> failure = None
         | Some (RunOutcome.Exit expected) \<Rightarrow> exit_code = Some expected \<and> signal = None \<and> failure = None
         | Some (RunOutcome.Signal expected) \<Rightarrow> signal = Some expected \<and> exit_code = None \<and> failure = None
         | Some (RunOutcome.Failure expected) \<Rightarrow> failure = Some expected \<and> exit_code = None \<and> signal = None
         | Some (RunOutcome.Interrupted expected) \<Rightarrow> failure = Some expected \<and> exit_code = None \<and> signal = None
         | Some (RunOutcome.Cancelled expected) \<Rightarrow> failure = Some expected \<and> exit_code = None \<and> signal = None)
      in if agree then Inr () else Inl (Corrupt ''run outcome columns disagree''))"

section \<open>Reading\<close>

definition decode_run_row :: "codec \<Rightarrow> run_row \<Rightarrow> (StoreError, Run) result" where
  "decode_run_row C row =
     try_bind (corrupt IdentifierError_text (RunId_from_str (rr_id row))) (\<lambda>i.
     try_bind (corrupt IdentifierError_text (JobId_from_str (rr_job_id row))) (\<lambda>job.
     try_bind (decode_counter ''negative sequence'' (rr_sequence row)) (\<lambda>raw.
     try_bind (corrupt PrimitiveError_text (Sequence_new raw)) (\<lambda>sequence.
     try_bind (parse_timestamp C (rr_scheduled_for row)) (\<lambda>scheduled_for.
     try_bind (parse_timestamp C (rr_created_at row)) (\<lambda>created_at.
     try_bind (parse_optional_timestamp C (rr_started_at row)) (\<lambda>started_at.
     try_bind (parse_optional_timestamp C (rr_finished_at row)) (\<lambda>finished_at.
     try_bind (decode_run_state (rr_state row)) (\<lambda>state.
     try_bind (if length (rr_claim_token row) = 32 then Inr (ClaimToken (rr_claim_token row))
         else Inl (Corrupt ''claim token is not 32 bytes'')) (\<lambda>token.
     try_bind (decode_optional_json (identity_of_json C) (rr_monitor_identity row)) (\<lambda>monitor.
     try_bind (decode_optional_json (identity_of_json C) (rr_command_identity row)) (\<lambda>command.
     try_bind (i32_column C (rr_process_group_id row)) (\<lambda>group.
     if group \<noteq> map_option process_group_id command
     then Inl (Corrupt ''process group does not match command identity'')
     else
     try_bind (i32_column C (rr_exit_code row)) (\<lambda>exit_code.
     try_bind (i32_column C (rr_signal row)) (\<lambda>signal.
     try_bind (decode_optional_json (outcome_of_json C) (rr_outcome row)) (\<lambda>outcome.
     try_bind (validate_outcome_columns outcome exit_code signal (rr_failure row)) (\<lambda>_.
     corrupt RunError_text (Run_rehydrate
       \<lparr> rs_id = i, rs_job_id = job, rs_sequence = sequence, rs_scheduled_for = scheduled_for,
         rs_created_at = created_at, rs_started_at = started_at, rs_finished_at = finished_at,
         rs_state = state, rs_claim_token = token, rs_monitor_identity = monitor,
         rs_command_identity = command, rs_outcome = outcome, rs_stdout_path = rr_stdout_path row,
         rs_stderr_path = rr_stderr_path row \<rparr>))))))))))))))))))"

definition load_run :: "codec \<Rightarrow> Database \<Rightarrow> RunId \<Rightarrow> (StoreError, Run option) result" where
  "load_run C db i =
     (case find (\<lambda>row. rr_id row = run_text i) (db_runs db) of
        None \<Rightarrow> Inr None
      | Some row \<Rightarrow> map_ok Some (decode_run_row C row))"

definition verify_claim :: "Run \<Rightarrow> ClaimToken \<Rightarrow> (StoreError, unit) result" where
  "verify_claim run token = (if run_claim_token run = token then Inr () else Inl InvalidClaim)"

section \<open>Claims\<close>

definition last_sequence :: "string \<Rightarrow> run_row list \<Rightarrow> int" where
  "last_sequence job rows =
     (case map rr_sequence (filter (\<lambda>row. rr_job_id row = job) rows) of
        [] \<Rightarrow> 0 | s # ss \<Rightarrow> foldl max s ss)"

definition claimed_row :: "codec \<Rightarrow> RunSnapshot \<Rightarrow> int \<Rightarrow> run_row" where
  "claimed_row C s sequence =
     \<lparr> rr_id = run_text (rs_id s), rr_job_id = job_text (rs_job_id s), rr_sequence = sequence,
       rr_scheduled_for = show_ts C (rs_scheduled_for s), rr_created_at = show_ts C (rs_created_at s),
       rr_started_at = None, rr_finished_at = None, rr_state = encode_run_state (rs_state s),
       rr_claim_token = token_bytes (rs_claim_token s), rr_monitor_identity = None,
       rr_command_identity = None, rr_process_group_id = None, rr_exit_code = None,
       rr_signal = None, rr_failure = None, rr_outcome = None, rr_stdout_path = None,
       rr_stderr_path = None, rr_stdout_truncated = False, rr_stderr_truncated = False \<rparr>"

text \<open>The constraints of the table on an inserted row: keys, foreign key and checks.\<close>

definition runs_accept :: "Database \<Rightarrow> run_row \<Rightarrow> bool" where
  "runs_accept db row =
     (rr_job_id row \<in> jr_id ` set (db_jobs db) \<and> 0 < rr_sequence row \<and> length (rr_claim_token row) = 32
      \<and> list_all (\<lambda>r. rr_id r \<noteq> rr_id row \<and> rr_claim_token r \<noteq> rr_claim_token row
           \<and> (rr_job_id r, rr_sequence r) \<noteq> (rr_job_id row, rr_sequence row)
           \<and> (rr_job_id r, rr_scheduled_for r) \<noteq> (rr_job_id row, rr_scheduled_for row)) (db_runs db))"

definition claim_run ::
  "codec \<Rightarrow> (nat \<Rightarrow> StoreError option) \<Rightarrow> Database \<Rightarrow> RunId \<Rightarrow> (string, u8 list) result \<Rightarrow> JobId \<Rightarrow>
     UtcTimestamp \<Rightarrow> UtcTimestamp \<Rightarrow> (StoreError, Run \<times> Database) result" where
  "claim_run C fault db fresh random job scheduled_for created_at =
     try_bind (statement fault 0) (\<lambda>_.
     try_bind (statement fault 1) (\<lambda>_.
     if list_ex (\<lambda>row. rr_job_id row = job_text job \<and> rr_scheduled_for row = show_ts C scheduled_for) (db_runs db)
     then Inl DuplicateClaim
     else
     try_bind (statement fault 2) (\<lambda>_.
     try_bind (if last_sequence (job_text job) (db_runs db) < 0 then Inl (Corrupt ''run sequence overflow'')
       else ok_or (Corrupt ''run sequence overflow'')
         (checked_add (of_int (last_sequence (job_text job) (db_runs db))) 1)) (\<lambda>sequence_raw.
     try_bind (map_err (\<lambda>e. Domain (PrimitiveError_text e)) (Sequence_new sequence_raw)) (\<lambda>sequence.
     try_bind (map_err Random random) (\<lambda>token.
     (let run = Run_new fresh job sequence scheduled_for created_at (ClaimToken token) in
     try_bind (to_sql_u64 (sequence_get sequence)) (\<lambda>n.
     try_bind (statement fault 3) (\<lambda>_.
     (let row = claimed_row C (Run_snapshot run) n in
     if \<not> runs_accept db row then Inl DuplicateClaim
     else try_bind (statement fault 4) (\<lambda>_.
       Inr (run, db\<lparr>db_runs := db_runs db @ [row]\<rparr>))))))))))))"

section \<open>Updates of a claimed run\<close>

definition update_runs :: "(run_row \<Rightarrow> bool) \<Rightarrow> (run_row \<Rightarrow> run_row) \<Rightarrow> Database \<Rightarrow> nat \<times> Database" where
  "update_runs cond set_columns db =
     (length (filter cond (db_runs db)),
      db\<lparr>db_runs := map (\<lambda>row. if cond row then set_columns row else row) (db_runs db)\<rparr>)"

definition mark_run_running ::
  "codec \<Rightarrow> (nat \<Rightarrow> StoreError option) \<Rightarrow> Database \<Rightarrow> Database \<Rightarrow> RunId \<Rightarrow> ClaimToken \<Rightarrow> UtcTimestamp \<Rightarrow>
     ProcessIdentitySnapshot \<Rightarrow> ProcessIdentitySnapshot \<Rightarrow> string \<Rightarrow> string \<Rightarrow>
     (StoreError, Run \<times> Database) result" where
  "mark_run_running C fault read_db write_db i token started_at monitor command stdout_path stderr_path =
     try_bind (statement fault 0) (\<lambda>_.
     try_bind (try_bind (load_run C read_db i) (ok_or NotFound)) (\<lambda>run.
     try_bind (verify_claim run token) (\<lambda>_.
     try_bind (map_err (\<lambda>e. Domain (RunError_text e))
         (mark_running run started_at monitor command stdout_path stderr_path)) (\<lambda>running.
     (let s = Run_snapshot running in
     try_bind (corrupt id (identity_to_json C (rs_monitor_identity s))) (\<lambda>monitor_json.
     try_bind (corrupt id (identity_to_json C (rs_command_identity s))) (\<lambda>command_json.
     try_bind (statement fault 1) (\<lambda>_.
     (let (changed, db') = update_runs
          (\<lambda>row. rr_id row = run_text i \<and> rr_state row = ''starting'' \<and> rr_claim_token row = token_bytes token)
          (\<lambda>row. row\<lparr>rr_started_at := Some (show_ts C started_at), rr_state := ''running'',
             rr_monitor_identity := Some monitor_json, rr_command_identity := Some command_json,
             rr_process_group_id := map_option process_group_id (rs_command_identity s),
             rr_stdout_path := Some stdout_path, rr_stderr_path := Some stderr_path\<rparr>) write_db
      in if changed \<noteq> 1 then Inl Conflict else Inr (running, db'))))))))))"

definition record_run_terminal ::
  "codec \<Rightarrow> (nat \<Rightarrow> StoreError option) \<Rightarrow> Database \<Rightarrow> Database \<Rightarrow> RunId \<Rightarrow> ClaimToken \<Rightarrow> UtcTimestamp \<Rightarrow>
     RunOutcome \<Rightarrow> (StoreError, Run \<times> Database) result" where
  "record_run_terminal C fault read_db write_db i token finished_at outcome =
     try_bind (statement fault 0) (\<lambda>_.
     try_bind (try_bind (load_run C read_db i) (ok_or NotFound)) (\<lambda>run.
     try_bind (verify_claim run token) (\<lambda>_.
     if RunState_is_terminal (run_state run) then
       (if run_finished_at run = Some finished_at \<and> run_outcome run = Some outcome then Inr (run, write_db)
        else Inl Conflict)
     else
     try_bind (map_err (\<lambda>e. Domain (RunError_text e)) (with_outcome run finished_at outcome)) (\<lambda>completed.
     (let s = Run_snapshot completed in
     try_bind (ok_or (Corrupt ''terminal run has no outcome'') (rs_outcome s)) (\<lambda>outcome.
     try_bind (corrupt id (outcome_to_json C outcome)) (\<lambda>outcome_json.
     try_bind (statement fault 1) (\<lambda>_.
     (let (exit_code, signal, failure) = outcome_columns outcome;
          (changed, db') = update_runs
            (\<lambda>row. rr_id row = run_text i \<and> rr_state row \<in> {''starting'', ''running'', ''cancel_requested''}
               \<and> rr_claim_token row = token_bytes token)
            (\<lambda>row. row\<lparr>rr_finished_at := Some (show_ts C finished_at),
               rr_state := encode_run_state (rs_state s), rr_exit_code := exit_code, rr_signal := signal,
               rr_failure := failure, rr_outcome := Some outcome_json\<rparr>) write_db
      in if changed \<noteq> 1 then Inl Conflict else Inr (completed, db'))))))))))"

definition request_run_cancellation ::
  "codec \<Rightarrow> (nat \<Rightarrow> StoreError option) \<Rightarrow> Database \<Rightarrow> Database \<Rightarrow> RunId \<Rightarrow> ClaimToken \<Rightarrow>
     (StoreError, Run \<times> Database) result" where
  "request_run_cancellation C fault read_db write_db i token =
     try_bind (statement fault 0) (\<lambda>_.
     try_bind (try_bind (load_run C read_db i) (ok_or NotFound)) (\<lambda>run.
     try_bind (verify_claim run token) (\<lambda>_.
     if run_state run = RunState.CancelRequested \<or> RunState_is_terminal (run_state run) then Inr (run, write_db)
     else
     (let previous_state = encode_run_state (run_state run) in
     try_bind (map_err (\<lambda>e. Domain (RunError_text e)) (request_cancellation run)) (\<lambda>requested.
     try_bind (statement fault 1) (\<lambda>_.
     (let (changed, db') = update_runs
          (\<lambda>row. rr_id row = run_text i \<and> rr_state row = previous_state \<and> rr_claim_token row = token_bytes token)
          (\<lambda>row. row\<lparr>rr_state := ''cancel_requested''\<rparr>) write_db
      in if changed \<noteq> 1 then Inl Conflict else Inr (requested, db'))))))))"

section \<open>Reading back\<close>

lemma decode_run_state_encode [simp]: "decode_run_state (encode_run_state s) = Inr s"
  by (cases s) (simp_all add: decode_run_state_def)

lemma encode_run_state_inject [simp]: "encode_run_state s = encode_run_state t \<longleftrightarrow> s = t"
  by (metis decode_run_state_encode sum.inject(2))

lemma decode_run_state_eq_Inr: "decode_run_state v = Inr s \<longleftrightarrow> v = encode_run_state s"
  by (cases s) (auto simp: decode_run_state_def)

lemma run_text_eq: "RunId_to_string i = Inr (run_text i)"
  by (simp add: run_text_def RunId_to_string_def encode_eq)

lemma RunId_from_str_run_text [simp]: "RunId_from_str (run_text i) = Inr i"
  using run_text_eq [of i] decode_encode [of "run_uuid i" "run_text i"]
  by (simp add: RunId_from_str_def RunId_to_string_def)

lemma run_text_inject [simp]: "run_text i = run_text j \<longleftrightarrow> i = j"
  by (metis RunId_from_str_run_text sum.inject(2))

lemma validate_outcome_columns_eq_Inr:
  "validate_outcome_columns outcome e s f = Inr u \<longleftrightarrow>
     (e, s, f) = (case outcome of None \<Rightarrow> (None, None, None) | Some x \<Rightarrow> outcome_columns x)"
  by (auto simp: validate_outcome_columns_def Let_def split: option.splits RunOutcome.splits if_splits)

lemma Run_rehydrate_eq_Inr: "Run_rehydrate s = Inr run \<longleftrightarrow> s = Run_snapshot run \<and> valid_run run"
  using Run_rehydrate_sound Run_rehydrate_snapshot by blast

definition fits_i32 :: "int option \<Rightarrow> bool" where
  "fits_i32 v = (case v of None \<Rightarrow> True | Some n \<Rightarrow> - (2 ^ 31) \<le> n \<and> n < 2 ^ 31)"

lemma i32_column_eq_Inr: "i32_column C v = Inr w \<longleftrightarrow> w = v \<and> fits_i32 v"
  by (auto simp: i32_column_def fits_i32_def split: option.splits)

lemma decode_run_row_eq_Inr:
  "decode_run_row C row = Inr run \<longleftrightarrow>
     RunId_from_str (rr_id row) = Inr (run_id run) \<and> JobId_from_str (rr_job_id row) = Inr (run_job_id run)
     \<and> 0 \<le> rr_sequence row \<and> Sequence_new (of_int (rr_sequence row)) = Inr (run_sequence run)
     \<and> parse_timestamp C (rr_scheduled_for row) = Inr (run_scheduled_for run)
     \<and> parse_timestamp C (rr_created_at row) = Inr (run_created_at run)
     \<and> parse_optional_timestamp C (rr_started_at row) = Inr (run_started_at run)
     \<and> parse_optional_timestamp C (rr_finished_at row) = Inr (run_finished_at run)
     \<and> rr_state row = encode_run_state (run_state run)
     \<and> length (rr_claim_token row) = 32 \<and> run_claim_token run = ClaimToken (rr_claim_token row)
     \<and> decode_optional_json (identity_of_json C) (rr_monitor_identity row) = Inr (run_monitor_identity run)
     \<and> decode_optional_json (identity_of_json C) (rr_command_identity row) = Inr (run_command_identity run)
     \<and> fits_i32 (rr_process_group_id row) \<and> fits_i32 (rr_exit_code row) \<and> fits_i32 (rr_signal row)
     \<and> rr_process_group_id row = map_option process_group_id (run_command_identity run)
     \<and> decode_optional_json (outcome_of_json C) (rr_outcome row) = Inr (run_outcome run)
     \<and> (rr_exit_code row, rr_signal row, rr_failure row)
         = (case run_outcome run of None \<Rightarrow> (None, None, None) | Some x \<Rightarrow> outcome_columns x)
     \<and> run_stdout_path run = rr_stdout_path row \<and> run_stderr_path run = rr_stderr_path row
     \<and> valid_run run"
  unfolding decode_run_row_def
  by (cases run)
    (auto simp: result_simps Run_rehydrate_eq_Inr Run_snapshot_def decode_counter_eq_Inr decode_run_state_eq_Inr
      i32_column_eq_Inr validate_outcome_columns_eq_Inr split: if_splits)

section \<open>The run table as a map\<close>

definition run_row_of :: "Database \<Rightarrow> RunId \<Rightarrow> run_row option" where
  "run_row_of db i = find (\<lambda>row. rr_id row = run_text i) (db_runs db)"

lemma load_run_eq_Inr:
  "load_run C db i = Inr (Some run) \<longleftrightarrow> (\<exists>row. run_row_of db i = Some row \<and> decode_run_row C row = Inr run)"
  by (auto simp: load_run_def run_row_of_def result_simps split: option.splits)

lemma load_run_row_cong: "run_row_of db i = run_row_of db' i \<Longrightarrow> load_run C db i = load_run C db' i"
  by (simp add: load_run_def run_row_of_def)

lemma load_run_id: "load_run C db i = Inr (Some run) \<Longrightarrow> run_id run = i"
  by (auto simp: load_run_eq_Inr run_row_of_def decode_run_row_eq_Inr find_Some_iff)

text \<open>The keys of the table and the checks that hold of its rows.\<close>

definition run_table :: "Database \<Rightarrow> bool" where
  "run_table db =
     (distinct (map rr_id (db_runs db)) \<and> distinct (map rr_claim_token (db_runs db))
      \<and> distinct (map (\<lambda>r. (rr_job_id r, rr_sequence r)) (db_runs db))
      \<and> distinct (map (\<lambda>r. (rr_job_id r, rr_scheduled_for r)) (db_runs db))
      \<and> list_all (\<lambda>r. 0 < rr_sequence r \<and> rr_sequence r < 2 ^ 63 \<and> (\<exists>s. rr_state r = encode_run_state s)) (db_runs db))"

lemma update_runs_row:
  assumes "\<And>y. P y \<Longrightarrow> rr_id y = run_text i" "\<And>y. rr_id (g y) = rr_id y"
  shows "run_row_of (snd (update_runs P g db)) k =
    map_option (\<lambda>row. if P row then g row else row) (run_row_of db k)"
  unfolding run_row_of_def update_runs_def snd_conv
  by (simp add: find_map_update [where f = rr_id, OF assms(2,1)])

lemma update_runs_other:
  assumes "\<And>y. P y \<Longrightarrow> rr_id y = run_text i" "\<And>y. rr_id (g y) = rr_id y" "k \<noteq> i"
  shows "run_row_of (snd (update_runs P g db)) k = run_row_of db k"
proof -
  have "\<not> P row" if "run_row_of db k = Some row" for row
    using that assms(1,3) by (auto simp: run_row_of_def find_Some_iff)
  then show ?thesis
    by (cases "run_row_of db k") (simp_all add: update_runs_row [OF assms(1,2)])
qed

lemma run_row_of_in: "run_row_of db i = Some row \<Longrightarrow> row \<in> set (db_runs db) \<and> rr_id row = run_text i"
  by (auto simp: run_row_of_def find_Some_iff)

lemma run_table_state:
  assumes "run_table db" "run_row_of db i = Some row"
  obtains s where "rr_state row = encode_run_state s"
  using run_row_of_in [OF assms(2)] assms(1) by (auto simp: run_table_def list_all_iff)

lemma run_row_of_unique:
  assumes "run_table db" "row \<in> set (db_runs db)" "rr_id row = run_text i"
  shows "run_row_of db i = Some row"
  using find_unique [of rr_id "db_runs db" row] assms by (simp add: run_row_of_def run_table_def)

lemma update_runs_hit:
  assumes "run_table db" "fst (update_runs P g db) = 1"
    and "\<And>y. P y \<Longrightarrow> rr_id y = run_text i"
  obtains row where "run_row_of db i = Some row" "P row"
proof -
  obtain row where "row \<in> set (db_runs db)" "P row"
    using assms(2) unfolding update_runs_def fst_conv
    by (metis One_nat_def filter_empty_conv length_0_conv zero_neq_one)
  then show thesis
    using that run_row_of_unique [OF assms(1)] assms(3) by blast
qed

lemma update_runs_table:
  assumes "run_table db"
    and "\<And>y. rr_id (g y) = rr_id y \<and> rr_claim_token (g y) = rr_claim_token y \<and> rr_job_id (g y) = rr_job_id y
       \<and> rr_sequence (g y) = rr_sequence y \<and> rr_scheduled_for (g y) = rr_scheduled_for y"
    and "\<And>y. \<exists>s. rr_state (g y) = encode_run_state s"
  shows "run_table (snd (update_runs P g db))"
proof -
  have eq: "map f (map (\<lambda>row. if P row then g row else row) rows) = map f rows"
    if "\<And>y. f (g y) = f y" for f :: "run_row \<Rightarrow> 'x" and rows
    using that by simp
  show ?thesis
    using assms(1) unfolding run_table_def update_runs_def snd_conv
    by (simp del: map_map add: eq assms(2)) (auto simp: list_all_iff assms)
qed

lemma find_append_new: "find P xs = None \<Longrightarrow> find P (xs @ [y]) = (if P y then Some y else None)"
  by (simp add: find_append)

lemma accepted_table:
  assumes "run_table db" "runs_accept db row" "rr_state row = encode_run_state s" "rr_sequence row < 2 ^ 63"
  shows "run_table (db\<lparr>db_runs := db_runs db @ [row]\<rparr>)"
  using assms by (auto simp: run_table_def runs_accept_def list_all_iff image_iff)

lemma accepted_row:
  assumes "runs_accept db row"
  shows "run_row_of (db\<lparr>db_runs := db_runs db @ [row]\<rparr>) i =
    (if rr_id row = run_text i then Some row else run_row_of db i)"
proof (cases "run_row_of db i")
  case None
  then show ?thesis by (simp add: run_row_of_def find_append)
next
  case (Some r)
  then have "r \<in> set (db_runs db)" "rr_id r = run_text i"
    by (auto simp: run_row_of_def find_Some_iff)
  with assms Some show ?thesis
    by (auto simp: runs_accept_def list_all_iff run_row_of_def find_append)
qed

section \<open>Claims\<close>

lemma foldl_max:
  "s \<le> foldl max s ss" "x \<in> set ss \<Longrightarrow> x \<le> foldl max s ss" "foldl max s ss \<in> set (s # ss)"
  for s :: int
proof (induction ss arbitrary: s)
  case (Cons a ss)
  { case 1 show ?case using Cons.IH(1) [of "max s a"] by simp }
  { case 2 then show ?case using Cons.IH(1,2) [of "max s a"] by auto }
  { case 3 show ?case using Cons.IH(3) [of "max s a"] by (auto simp: max_def split: if_splits) }
qed auto

lemma last_sequence_upper: "row \<in> set rows \<Longrightarrow> rr_job_id row = job \<Longrightarrow> rr_sequence row \<le> last_sequence job rows"
proof -
  assume row: "row \<in> set rows" "rr_job_id row = job"
  then have "rr_sequence row \<in> set (map rr_sequence (filter (\<lambda>r. rr_job_id r = job) rows))" by auto
  then show ?thesis
    unfolding last_sequence_def
    by (cases "map rr_sequence (filter (\<lambda>r. rr_job_id r = job) rows)") (auto intro: foldl_max)
qed

lemma last_sequence_attained:
  "last_sequence job rows = 0 \<or> (\<exists>row\<in>set rows. rr_job_id row = job \<and> last_sequence job rows = rr_sequence row)"
proof (cases "map rr_sequence (filter (\<lambda>r. rr_job_id r = job) rows)")
  case (Cons s ss)
  then have "last_sequence job rows \<in> set (map rr_sequence (filter (\<lambda>r. rr_job_id r = job) rows))"
    using foldl_max(3) [of s ss] unfolding last_sequence_def by simp
  then show ?thesis by auto
qed (simp add: last_sequence_def)

lemma last_sequence_bounds:
  assumes "run_table db"
  shows "0 \<le> last_sequence job (db_runs db)" "last_sequence job (db_runs db) < 2 ^ 63"
  using last_sequence_attained [of job "db_runs db"] assms by (auto simp: run_table_def list_all_iff)

lemma u64_of_int:
  assumes "0 \<le> n" "n < 2 ^ 64"
  shows "int (unat (of_int n :: u64)) = n"
proof -
  have "uint (of_int n :: u64) = take_bit 64 n"
    by (simp add: unsigned_of_int)
  then show ?thesis
    using assms by (simp add: take_bit_int_eq_self)
qed

lemma claim_run_eq_Inr:
  assumes "claim_run C fault db fresh random job scheduled created = Inr (run, db')" "run_table db"
  obtains token where "random = Inr token"
    "run = Run_new fresh job (Sequence (of_int (last_sequence (job_text job) (db_runs db) + 1))) scheduled created
       (ClaimToken token)"
    "last_sequence (job_text job) (db_runs db) + 1 < 2 ^ 63"
    "\<not> list_ex (\<lambda>row. rr_job_id row = job_text job \<and> rr_scheduled_for row = show_ts C scheduled) (db_runs db)"
    "runs_accept db (claimed_row C (Run_snapshot run) (last_sequence (job_text job) (db_runs db) + 1))"
    "db' = db\<lparr>db_runs := db_runs db @
       [claimed_row C (Run_snapshot run) (last_sequence (job_text job) (db_runs db) + 1)]\<rparr>"
proof -
  let ?last = "last_sequence (job_text job) (db_runs db)"
  note b = last_sequence_bounds [OF assms(2), of "job_text job"]
  have u: "unat (of_int ?last :: u64) = nat ?last"
    using b u64_of_int [of ?last] by (simp del: of_nat_unat)
  have w: "checked_add (of_int ?last :: u64) 1 = Some (of_int (?last + 1))"
    using b u by (simp add: checked_add_def)
  have n: "unat (of_int (?last + 1) :: u64) = nat (?last + 1)"
    using b u64_of_int [of "?last + 1"] by (simp del: of_nat_unat)
  show thesis
    using assms(1) b
    by (intro that [of "projr random"])
      (auto simp: claim_run_def result_simps w Sequence_new_eq_Inr to_sql_u64_eq_Inr n Let_def
        simp del: of_nat_unat of_int_add of_int_1
        split: if_splits)
qed

section \<open>Guarded updates\<close>

abbreviation claimed_in :: "RunId \<Rightarrow> ClaimToken \<Rightarrow> string set \<Rightarrow> run_row \<Rightarrow> bool" where
  "claimed_in i token states row \<equiv>
     rr_id row = run_text i \<and> rr_state row \<in> states \<and> rr_claim_token row = token_bytes token"

definition running_columns ::
  "codec \<Rightarrow> UtcTimestamp \<Rightarrow> string \<Rightarrow> string \<Rightarrow> int option \<Rightarrow> string \<Rightarrow> string \<Rightarrow> run_row \<Rightarrow> run_row" where
  "running_columns C started monitor_json command_json pgid out err row =
     row\<lparr>rr_started_at := Some (show_ts C started), rr_state := ''running'',
       rr_monitor_identity := Some monitor_json, rr_command_identity := Some command_json,
       rr_process_group_id := pgid, rr_stdout_path := Some out, rr_stderr_path := Some err\<rparr>"

definition terminal_columns :: "codec \<Rightarrow> UtcTimestamp \<Rightarrow> RunOutcome \<Rightarrow> string \<Rightarrow> run_row \<Rightarrow> run_row" where
  "terminal_columns C finished outcome outcome_json row =
     row\<lparr>rr_finished_at := Some (show_ts C finished), rr_state := encode_run_state (outcome_state outcome),
       rr_exit_code := fst (outcome_columns outcome), rr_signal := fst (snd (outcome_columns outcome)),
       rr_failure := snd (snd (outcome_columns outcome)), rr_outcome := Some outcome_json\<rparr>"

lemma mark_run_running_eq_Inr:
  assumes "mark_run_running C fault rd wr i token started m c out err = Inr (run', wr')"
  obtains run mj cj where "load_run C rd i = Inr (Some run)" "run_claim_token run = token"
    "mark_running run started m c out err = Inr run'"
    "identity_to_json C (Some m) = Inr mj" "identity_to_json C (Some c) = Inr cj"
    "fst (update_runs (claimed_in i token {''starting''})
       (running_columns C started mj cj (Some (process_group_id c)) out err) wr) = 1"
    "wr' = snd (update_runs (claimed_in i token {''starting''})
       (running_columns C started mj cj (Some (process_group_id c)) out err) wr)"
  using assms
  by (auto simp: mark_run_running_def result_simps verify_claim_def Let_def mark_running_eq_Inr Run_snapshot_def
      running_columns_def [abs_def] update_runs_def split: if_splits)

lemma record_run_terminal_eq_Inr:
  assumes "record_run_terminal C fault rd wr i token finished outcome = Inr (run', wr')"
  obtains
    (already) "load_run C rd i = Inr (Some run')" "run_claim_token run' = token"
      "RunState_is_terminal (run_state run')" "run_finished_at run' = Some finished"
      "run_outcome run' = Some outcome" "wr' = wr"
  | (recorded) run oj where "load_run C rd i = Inr (Some run)" "run_claim_token run = token"
    "\<not> RunState_is_terminal (run_state run)"
    "with_outcome run finished outcome = Inr run'" "outcome_to_json C outcome = Inr oj"
    "fst (update_runs (claimed_in i token {''starting'', ''running'', ''cancel_requested''})
       (terminal_columns C finished outcome oj) wr) = 1"
    "wr' = snd (update_runs (claimed_in i token {''starting'', ''running'', ''cancel_requested''})
       (terminal_columns C finished outcome oj) wr)"
proof -
  let ?P = "claimed_in i token {''starting'', ''running'', ''cancel_requested''}"
  obtain run where run: "load_run C rd i = Inr (Some run)" "run_claim_token run = token"
    and rest: "(if RunState_is_terminal (run_state run)
      then run_finished_at run = Some finished \<and> run_outcome run = Some outcome \<and> run' = run \<and> wr' = wr
      else \<exists>oj. with_outcome run finished outcome = Inr run' \<and> outcome_to_json C outcome = Inr oj
        \<and> fst (update_runs ?P (terminal_columns C finished outcome oj) wr) = 1
        \<and> wr' = snd (update_runs ?P (terminal_columns C finished outcome oj) wr))"
    using assms
    by (auto simp: record_run_terminal_def result_simps verify_claim_def with_outcome_eq_Inr Run_snapshot_def Let_def
        terminal_columns_def [abs_def] case_prod_beta split: if_splits)
  show thesis
  proof (cases "RunState_is_terminal (run_state run)")
    case True
    with run rest show thesis by (intro already) auto
  next
    case False
    with run rest show thesis by (auto intro: recorded)
  qed
qed

lemma request_run_cancellation_eq_Inr:
  assumes "request_run_cancellation C fault rd wr i token = Inr (run', wr')"
  obtains
    (already) "load_run C rd i = Inr (Some run')" "run_claim_token run' = token"
      "run_state run' = RunState.CancelRequested \<or> RunState_is_terminal (run_state run')" "wr' = wr"
  | (requested) run where "load_run C rd i = Inr (Some run)" "run_claim_token run = token"
    "run_state run \<in> {RunState.Starting, RunState.Running}" "request_cancellation run = Inr run'"
    "fst (update_runs (claimed_in i token {encode_run_state (run_state run)})
       (\<lambda>row. row\<lparr>rr_state := ''cancel_requested''\<rparr>) wr) = 1"
    "wr' = snd (update_runs (claimed_in i token {encode_run_state (run_state run)})
       (\<lambda>row. row\<lparr>rr_state := ''cancel_requested''\<rparr>) wr)"
proof -
  obtain run where run: "load_run C rd i = Inr (Some run)" "run_claim_token run = token"
    and rest: "(if run_state run = RunState.CancelRequested \<or> RunState_is_terminal (run_state run)
      then run' = run \<and> wr' = wr
      else request_cancellation run = Inr run' \<and> fst (update_runs (claimed_in i token {encode_run_state (run_state run)})
         (\<lambda>row. row\<lparr>rr_state := ''cancel_requested''\<rparr>) wr) = 1
       \<and> wr' = snd (update_runs (claimed_in i token {encode_run_state (run_state run)})
         (\<lambda>row. row\<lparr>rr_state := ''cancel_requested''\<rparr>) wr))"
    using assms
    by (auto simp: request_run_cancellation_def result_simps verify_claim_def Let_def update_runs_def split: if_splits)
  show thesis
  proof (cases "run_state run = RunState.CancelRequested \<or> RunState_is_terminal (run_state run)")
    case True
    with run rest show thesis by (intro already) auto
  next
    case False
    then have "run_state run \<in> {RunState.Starting, RunState.Running}"
      by (cases "run_state run") (simp_all add: RunState_is_terminal_def)
    with run rest False show thesis by (intro requested) auto
  qed
qed

section \<open>Interleaved histories\<close>

text \<open>One committed write of any client: the claim reads and writes the current database, the
  others may have read an older one.\<close>

inductive run_write :: "codec \<Rightarrow> Database \<Rightarrow> Database \<Rightarrow> Database \<Rightarrow> bool" for C rd wr where
  claim: "claim_run C fault wr fresh random job scheduled created = Inr (run, wr') \<Longrightarrow> run_write C rd wr wr'"
| start: "mark_run_running C fault rd wr i token started m c out err = Inr (run, wr') \<Longrightarrow> run_write C rd wr wr'"
| finish: "record_run_terminal C fault rd wr i token finished outcome = Inr (run, wr') \<Longrightarrow> run_write C rd wr wr'"
| cancel: "request_run_cancellation C fault rd wr i token = Inr (run, wr') \<Longrightarrow> run_write C rd wr wr'"

text \<open>The current database and the older ones a client may still act upon.\<close>

inductive run_history :: "codec \<Rightarrow> Database \<Rightarrow> Database list \<Rightarrow> bool" for C where
  init: "run_table db \<Longrightarrow> run_history C db []"
| commit: "run_history C db h \<Longrightarrow> rd \<in> set (db # h) \<Longrightarrow> run_write C rd db db' \<Longrightarrow> run_history C db' (db # h)"

definition stored_state :: "Database \<Rightarrow> RunId \<Rightarrow> RunState option" where
  "stored_state db i =
     (case run_row_of db i of None \<Rightarrow> None
      | Some row \<Rightarrow> (case decode_run_state (rr_state row) of Inl _ \<Rightarrow> None | Inr s \<Rightarrow> Some s))"

lemma stored_state_eq: "stored_state db i = Some s \<longleftrightarrow> (\<exists>row. run_row_of db i = Some row \<and> rr_state row = encode_run_state s)"
  by (auto simp: stored_state_def decode_run_state_eq_Inr split: option.splits sum.splits)

lemma load_run_stored_state: "load_run C db i = Inr (Some run) \<Longrightarrow> stored_state db i = Some (run_state run)"
  by (auto simp: load_run_eq_Inr stored_state_eq decode_run_row_eq_Inr)

text \<open>What one write may do to a row: nothing, or one legal step out of a state that is not
  terminal.\<close>

definition row_step :: "Database \<Rightarrow> Database \<Rightarrow> RunId \<Rightarrow> bool" where
  "row_step db db' i =
     (run_row_of db i \<noteq> None \<longrightarrow> run_row_of db' i = run_row_of db i
      \<or> (\<exists>s t. stored_state db i = Some s \<and> stored_state db' i = Some t \<and> run_step s t))"

lemma late_outcome_legal:
  assumes "run_step\<^sup>*\<^sup>* s u" "\<not> RunState_is_terminal u" "run_legal s t" "RunState_is_terminal t"
  shows "run_legal u t"
proof -
  have "run_rank s \<le> run_rank u"
    using assms(1) by (induction rule: rtranclp_induct) (auto dest: run_step_rank)
  with assms(2-4) show ?thesis
    by (cases s; cases u; cases t) (simp_all add: run_legal_def RunState_is_terminal_def run_rank_def)
qed

lemma encode_run_state_in_active:
  "encode_run_state s \<in> {''starting'', ''running'', ''cancel_requested''} \<longleftrightarrow> \<not> RunState_is_terminal s"
  by (cases s) (simp_all add: RunState_is_terminal_def)

lemma row_step_update:
  assumes "run_table wr" "fst (update_runs (claimed_in i token states) g wr) = 1"
    and "\<And>y. rr_id (g y) = rr_id y"
    and "\<And>row u. run_row_of wr i = Some row \<Longrightarrow> rr_state row = encode_run_state u \<Longrightarrow> encode_run_state u \<in> states \<Longrightarrow>
       \<exists>t. rr_state (g row) = encode_run_state t \<and> run_step u t"
  shows "row_step wr (snd (update_runs (claimed_in i token states) g wr)) k"
proof (cases "k = i")
  case True
  obtain row where row: "run_row_of wr i = Some row" "claimed_in i token states row"
    by (rule update_runs_hit [OF assms(1,2), of i]) auto
  then obtain u where u: "rr_state row = encode_run_state u"
    using run_table_state [OF assms(1)] by blast
  obtain t where t: "rr_state (g row) = encode_run_state t" "run_step u t"
    using assms(4) [OF row(1) u] row(2) by (metis u)
  have "run_row_of (snd (update_runs (claimed_in i token states) g wr)) i = Some (g row)"
    by (subst update_runs_row [where i = i]) (use row assms(3) in auto)
  then show ?thesis
    using True row(1) u t by (auto simp: row_step_def stored_state_eq)
next
  case False
  then have "run_row_of (snd (update_runs (claimed_in i token states) g wr)) k = run_row_of wr k"
    by (intro update_runs_other [where i = i] assms(3)) auto
  then show ?thesis by (simp add: row_step_def)
qed

lemma claim_run_step:
  assumes "claim_run C fault wr fresh random job scheduled created = Inr (run, wr')" "run_table wr"
  shows "run_table wr'" "row_step wr wr' k"
proof -
  obtain token where run: "run = Run_new fresh job (Sequence (of_int (last_sequence (job_text job) (db_runs wr) + 1)))
      scheduled created (ClaimToken token)"
    and b: "last_sequence (job_text job) (db_runs wr) + 1 < 2 ^ 63"
    and acc: "runs_accept wr (claimed_row C (Run_snapshot run) (last_sequence (job_text job) (db_runs wr) + 1))"
    and wr': "wr' = wr\<lparr>db_runs := db_runs wr @
       [claimed_row C (Run_snapshot run) (last_sequence (job_text job) (db_runs wr) + 1)]\<rparr>"
    by (rule claim_run_eq_Inr [OF assms])
  show "run_table wr'"
    unfolding wr' by (rule accepted_table [OF assms(2) acc]) (use b in \<open>simp_all add: claimed_row_def\<close>)
  have "row \<in> set (db_runs wr) \<Longrightarrow> rr_id row \<noteq> rr_id (claimed_row C (Run_snapshot run)
      (last_sequence (job_text job) (db_runs wr) + 1))" for row
    using acc by (auto simp: runs_accept_def list_all_iff)
  then show "row_step wr wr' k"
    unfolding wr' by (auto simp: row_step_def accepted_row [OF acc] dest!: run_row_of_in)
qed

lemma start_run_step:
  assumes "mark_run_running C fault rd wr i token started m c out err = Inr (run, wr')" "run_table wr"
  shows "run_table wr'" "row_step wr wr' k"
proof -
  obtain mj cj where one: "fst (update_runs (claimed_in i token {''starting''})
      (running_columns C started mj cj (Some (process_group_id c)) out err) wr) = 1"
    and wr': "wr' = snd (update_runs (claimed_in i token {''starting''})
      (running_columns C started mj cj (Some (process_group_id c)) out err) wr)"
    by (rule mark_run_running_eq_Inr [OF assms(1)])
  have running: "rr_state (running_columns C started mj cj p out err row) = encode_run_state RunState.Running" for p row
    by (simp add: running_columns_def)
  have "u = RunState.Starting" if "encode_run_state u \<in> {''starting''}" for u
    using that by (cases u) simp_all
  moreover have "run_step RunState.Starting RunState.Running"
    by (simp add: run_step_iff run_legal_def)
  ultimately have "\<exists>t. rr_state (running_columns C started mj cj p out err row) = encode_run_state t \<and> run_step u t"
    if "encode_run_state u \<in> {''starting''}" for p row u
    using that running by blast
  then show "row_step wr wr' k"
    unfolding wr' by (intro row_step_update [OF assms(2) one]) (simp_all add: running_columns_def)
  show "run_table wr'"
    unfolding wr' by (rule update_runs_table [OF assms(2)])
      (simp_all add: running running_columns_def exI [of _ RunState.Running])
qed

lemma finish_run_step:
  assumes "record_run_terminal C fault rd wr i token finished outcome = Inr (run, wr')" "run_table wr"
    and older: "\<And>s. stored_state rd i = Some s \<Longrightarrow> \<exists>u. stored_state wr i = Some u \<and> run_step\<^sup>*\<^sup>* s u"
  shows "run_table wr' \<and> row_step wr wr' k"
  using assms(1)
proof (cases rule: record_run_terminal_eq_Inr)
  case (recorded run0 oj)
  let ?P = "claimed_in i token {''starting'', ''running'', ''cancel_requested''}"
  have terminal: "rr_state (terminal_columns C finished outcome oj row) = encode_run_state (outcome_state outcome)" for row
    by (simp add: terminal_columns_def)
  obtain v where v: "stored_state wr i = Some v" "run_step\<^sup>*\<^sup>* (run_state run0) v"
    using older load_run_stored_state [OF recorded(1)] by blast
  have "\<exists>t. rr_state (terminal_columns C finished outcome oj row) = encode_run_state t \<and> run_step u t"
    if "run_row_of wr i = Some row" "rr_state row = encode_run_state u"
      "encode_run_state u \<in> {''starting'', ''running'', ''cancel_requested''}" for row u
  proof -
    have "u = v"
      using that(1,2) v(1) by (simp add: stored_state_eq)
    then have "run_legal u (outcome_state outcome)"
      using late_outcome_legal [OF v(2) _ _ outcome_state_terminal, of outcome] recorded(4) that(3)
      unfolding encode_run_state_in_active with_outcome_eq_Inr by blast
    then show ?thesis by (auto simp: terminal run_step_iff)
  qed
  then have "row_step wr wr' k"
    unfolding recorded(7) by (intro row_step_update [OF assms(2) recorded(6)]) (simp_all add: terminal_columns_def)
  moreover have "run_table wr'"
    unfolding recorded(7) by (rule update_runs_table [OF assms(2)]) (use terminal in \<open>auto simp: terminal_columns_def\<close>)
  ultimately show ?thesis by simp
qed (use assms(2) in \<open>simp_all add: row_step_def\<close>)

lemma cancel_run_step:
  assumes "request_run_cancellation C fault rd wr i token = Inr (run, wr')" "run_table wr"
  shows "run_table wr' \<and> row_step wr wr' k"
  using assms(1)
proof (cases rule: request_run_cancellation_eq_Inr)
  case (requested run0)
  have "run_step (run_state run0) RunState.CancelRequested"
    using requested(3) by (auto simp: run_step_iff run_legal_def)
  then have "\<exists>t. rr_state (row\<lparr>rr_state := ''cancel_requested''\<rparr>) = encode_run_state t \<and> run_step u t"
    if "encode_run_state u \<in> {encode_run_state (run_state run0)}" for row :: run_row and u
    using that by (intro exI [of _ RunState.CancelRequested]) simp
  then have "row_step wr wr' k"
    unfolding requested(6) by (intro row_step_update [OF assms(2) requested(5)]) simp_all
  moreover have "run_table wr'"
    unfolding requested(6) by (rule update_runs_table [OF assms(2)])
      (simp_all add: exI [of _ RunState.CancelRequested])
  ultimately show ?thesis by simp
qed (use assms(2) in \<open>simp_all add: row_step_def\<close>)

lemma run_write_step:
  assumes "run_write C rd wr wr'" "run_table wr"
    and "\<And>i s. stored_state rd i = Some s \<Longrightarrow> \<exists>u. stored_state wr i = Some u \<and> run_step\<^sup>*\<^sup>* s u"
  shows "run_table wr' \<and> row_step wr wr' k"
  using assms
  by (induction rule: run_write.induct)
    (simp_all add: claim_run_step start_run_step finish_run_step cancel_run_step)

lemma row_step_stored:
  assumes "row_step db db' i" "stored_state db i = Some s"
  shows "\<exists>t. stored_state db' i = Some t \<and> run_step\<^sup>*\<^sup>* s t"
proof -
  have some: "run_row_of db i \<noteq> None"
    using assms(2) by (auto simp: stored_state_eq)
  show ?thesis
  proof (cases "run_row_of db' i = run_row_of db i")
    case True
    then show ?thesis
      using assms(2) by (auto simp: stored_state_def)
  next
    case False
    then show ?thesis
      using assms some by (auto simp: row_step_def)
  qed
qed

lemma row_step_terminal:
  assumes "row_step db db' i" "stored_state db i = Some s" "RunState_is_terminal s"
  shows "run_row_of db' i = run_row_of db i"
proof -
  have "run_row_of db i \<noteq> None"
    using assms(2) by (auto simp: stored_state_eq)
  then show ?thesis
    using assms terminal_run_no_step by (auto simp: row_step_def)
qed

lemma run_history_evolution:
  assumes "run_history C db h"
  shows "run_table db \<and> (\<forall>old\<in>set (db # h). \<forall>i s. stored_state old i = Some s \<longrightarrow>
    (\<exists>t. stored_state db i = Some t \<and> run_step\<^sup>*\<^sup>* s t) \<and> (RunState_is_terminal s \<longrightarrow> run_row_of db i = run_row_of old i))"
  using assms
proof (induction rule: run_history.induct)
  case (commit db h rd db')
  have step: "run_table db' \<and> row_step db db' k" for k
    using commit.IH commit.hyps(2) by (intro run_write_step [OF commit.hyps(3)]) auto
  have "(\<exists>t. stored_state db' i = Some t \<and> run_step\<^sup>*\<^sup>* s t) \<and> (RunState_is_terminal s \<longrightarrow> run_row_of db' i = run_row_of old i)"
    if old: "old \<in> set (db # h)" "stored_state old i = Some s" for old i s
  proof -
    obtain u where u: "stored_state db i = Some u" "run_step\<^sup>*\<^sup>* s u"
      and same: "RunState_is_terminal s \<Longrightarrow> run_row_of db i = run_row_of old i"
      using commit.IH old by blast
    obtain t where t: "stored_state db' i = Some t" "run_step\<^sup>*\<^sup>* u t"
      using row_step_stored [OF _ u(1)] step by blast
    have "run_row_of db' i = run_row_of old i" if final: "RunState_is_terminal s"
    proof -
      have "stored_state db i = Some s"
        using same [OF final] old(2) by (simp add: stored_state_def)
      then show ?thesis
        using row_step_terminal [of db db' i s] step final same by simp
    qed
    with t u(2) show ?thesis by auto
  qed
  with step show ?case by (simp add: Ball_def)
qed auto

section \<open>Persistence of the updates\<close>

lemma decode_claimed_row:
  assumes "codec_ok C" "n = int (unat (sequence_get sequence))" "0 < n" "length token = 32"
    and "run = Run_new fresh job sequence scheduled created (ClaimToken token)"
  shows "decode_run_row C (claimed_row C (Run_snapshot run) n) = Inr run"
  using assms Run_new_valid [of fresh job sequence scheduled created "ClaimToken token"]
  by (cases sequence)
    (auto simp: decode_run_row_eq_Inr claimed_row_def Run_snapshot_def Run_new_def parse_optional_timestamp_def
      map_opt_result_def decode_optional_json_def fits_i32_def Sequence_new_def uint_0_iff)

lemma decode_running_row:
  assumes "codec_ok C" "decode_run_row C row = Inr run" "mark_running run started m c out err = Inr run'"
    and "identity_to_json C (Some m) = Inr mj" "identity_to_json C (Some c) = Inr cj"
    and "fits_i32 (Some (process_group_id c))"
  shows "decode_run_row C (running_columns C started mj cj (Some (process_group_id c)) out err row) = Inr run'"
proof -
  have "identity_of_json C mj = Inr m" "identity_of_json C cj = Inr c"
    using assms(1,4,5) by (auto simp: codec_ok_def)
  moreover have "valid_run run'"
    using mark_running_valid [OF assms(3)] assms(2) by (simp add: decode_run_row_eq_Inr)
  ultimately show ?thesis
    using assms(1-3,6)
    by (simp add: decode_run_row_eq_Inr running_columns_def mark_running_eq_Inr parse_optional_timestamp_def
        map_opt_result_def decode_optional_json_def)
qed

lemma decode_terminal_row:
  assumes "codec_ok C" "decode_run_row C row = Inr run" "with_outcome run finished outcome = Inr run'"
    and "outcome_to_json C outcome = Inr oj" "valid_run run'"
    and "fits_i32 (fst (outcome_columns outcome))" "fits_i32 (fst (snd (outcome_columns outcome)))"
  shows "decode_run_row C (terminal_columns C finished outcome oj row) = Inr run'"
proof -
  have "outcome_of_json C oj = Inr outcome"
    using assms(1,4) by (auto simp: codec_ok_def)
  then show ?thesis
    using assms
    by (auto simp: decode_run_row_eq_Inr terminal_columns_def with_outcome_eq_Inr parse_optional_timestamp_def
        map_opt_result_def decode_optional_json_def)
qed

lemma decode_cancelled_row:
  assumes "decode_run_row C row = Inr run" "request_cancellation run = Inr run'"
  shows "decode_run_row C (row\<lparr>rr_state := ''cancel_requested''\<rparr>) = Inr run'"
  using assms request_cancellation_valid [OF assms(2)]
  by (auto simp: decode_run_row_eq_Inr request_cancellation_eq_Inr)

lemma updated_run_loaded:
  assumes "run_table db" "load_run C db i = Inr (Some run)"
    and "fst (update_runs (claimed_in i token states) g db) = 1" "\<And>y. rr_id (g y) = rr_id y"
    and "\<And>row. decode_run_row C row = Inr run \<Longrightarrow> decode_run_row C (g row) = Inr run'"
  shows "load_run C (snd (update_runs (claimed_in i token states) g db)) i = Inr (Some run')"
    "k \<noteq> i \<Longrightarrow> load_run C (snd (update_runs (claimed_in i token states) g db)) k = load_run C db k"
proof -
  obtain row where row: "run_row_of db i = Some row" "decode_run_row C row = Inr run"
    using assms(2) unfolding load_run_eq_Inr by blast
  obtain row' where "run_row_of db i = Some row'" "claimed_in i token states row'"
    by (rule update_runs_hit [OF assms(1,3), of i]) auto
  with row have "claimed_in i token states row" by simp
  then have "run_row_of (snd (update_runs (claimed_in i token states) g db)) i = Some (g row)"
    by (subst update_runs_row [where i = i]) (use row assms(4) in auto)
  then show "load_run C (snd (update_runs (claimed_in i token states) g db)) i = Inr (Some run')"
    using assms(5) [OF row(2)] by (simp add: load_run_eq_Inr)
  show "load_run C (snd (update_runs (claimed_in i token states) g db)) k = load_run C db k" if "k \<noteq> i"
    by (rule load_run_row_cong, rule update_runs_other [where i = i]) (use assms(4) that in auto)
qed

lemma recorded_run_loaded:
  assumes "record_run_terminal C fault db db i token finished outcome = Inr (run', db')" "run_table db" "codec_ok C"
    and "\<And>run. load_run C db i = Inr (Some run) \<Longrightarrow>
       (case run_started_at run of None \<Rightarrow> True | Some started \<Rightarrow> started \<le> finished)"
    and "fits_i32 (fst (outcome_columns outcome))" "fits_i32 (fst (snd (outcome_columns outcome)))"
  shows "load_run C db' i = Inr (Some run') \<and> (k \<noteq> i \<longrightarrow> load_run C db' k = load_run C db k)
    \<and> run_outcome run' = Some outcome \<and> run_finished_at run' = Some finished
    \<and> run_claim_token run' = token \<and> RunState_is_terminal (run_state run')"
  using assms(1)
proof (cases rule: record_run_terminal_eq_Inr)
  case (recorded run oj)
  have valid: "valid_run run'"
    using recorded(1) with_outcome_valid [OF recorded(4)] assms(4) by (auto simp: load_run_eq_Inr decode_run_row_eq_Inr)
  have dec: "decode_run_row C (terminal_columns C finished outcome oj row) = Inr run'"
    if "decode_run_row C row = Inr run" for row
    by (rule decode_terminal_row [OF assms(3) that recorded(4,5) valid assms(5,6)])
  have keep: "rr_id (terminal_columns C finished outcome oj y) = rr_id y" for y
    by (simp add: terminal_columns_def)
  show ?thesis
    using updated_run_loaded [OF assms(2) recorded(1,6) keep dec] recorded(2,4,7) outcome_state_terminal
    by (auto simp: with_outcome_eq_Inr)
qed auto

lemma update_runs_occurrences:
  assumes "\<And>y. rr_job_id (g y) = rr_job_id y" "\<And>y. rr_scheduled_for (g y) = rr_scheduled_for y"
  shows "map (\<lambda>r. (rr_job_id r, rr_scheduled_for r)) (db_runs (snd (update_runs P g db)))
    = map (\<lambda>r. (rr_job_id r, rr_scheduled_for r)) (db_runs db)"
  using assms by (simp add: update_runs_def)

definition occurrences :: "Database \<Rightarrow> (string \<times> string) set" where
  "occurrences db = set (map (\<lambda>r. (rr_job_id r, rr_scheduled_for r)) (db_runs db))"

lemma claim_run_appends:
  assumes "claim_run C fault db fresh random job scheduled created = Inr (run, db')"
  shows "\<exists>row. db_runs db' = db_runs db @ [row] \<and> rr_job_id row = job_text job \<and> rr_scheduled_for row = show_ts C scheduled"
  using assms
  by (auto simp: claim_run_def result_simps Let_def claimed_row_def Run_snapshot_def Run_new_def split: if_splits)

lemma run_write_occurrences:
  assumes "run_write C rd wr wr'"
  shows "occurrences wr \<subseteq> occurrences wr'"
  using assms
proof (cases rule: run_write.cases)
  case (claim fault fresh random job scheduled created run)
  then show ?thesis
    using claim_run_appends [OF claim] by (auto simp: occurrences_def)
next
  case (start fault i token started m c out err run)
  then show ?thesis
    by (rule mark_run_running_eq_Inr)
      (simp add: occurrences_def update_runs_occurrences running_columns_def del: set_map)
next
  case (finish fault i token finished outcome run)
  then show ?thesis
    by (rule record_run_terminal_eq_Inr)
      (simp_all add: occurrences_def update_runs_occurrences terminal_columns_def del: set_map)
next
  case (cancel fault i token run)
  then show ?thesis
    by (rule request_run_cancellation_eq_Inr)
      (simp_all add: occurrences_def update_runs_occurrences del: set_map)
qed

lemma claim_run_occurrences:
  assumes "claim_run C fault db fresh random job scheduled created = Inr (run, db')" "run_table db"
  shows "(job_text job, show_ts C scheduled) \<in> occurrences db'"
  by (rule claim_run_eq_Inr [OF assms])
    (simp add: occurrences_def claimed_row_def Run_snapshot_def Run_new_def)

lemma claimed_occurrence_refused:
  assumes "(job_text job, show_ts C scheduled) \<in> occurrences db" "fault 0 = None" "fault 1 = None"
  shows "claim_run C fault db fresh random job scheduled created = Inl DuplicateClaim"
  using assms by (auto simp: claim_run_def statement_def occurrences_def list_ex_iff)

section \<open>Properties\<close>

text \<open>
  A claim creates one run: it starts in \<open>Starting\<close>, its sequence number is larger than
  that of every earlier run of the job, it reads back as returned, no other run is affected,
  and the keys of the table stay unique.
\<close>

theorem claim_run_effect:
  assumes "claim_run C fault db fresh random job scheduled created = Inr (run, db')" "run_table db" "codec_ok C"
  shows "load_run C db' (run_id run) = Inr (Some run) \<and> run_state run = RunState.Starting
    \<and> run_id run = fresh \<and> run_job_id run = job \<and> run_scheduled_for run = scheduled
    \<and> (\<forall>row\<in>set (db_runs db). rr_job_id row = job_text job \<longrightarrow>
         rr_sequence row < int (unat (sequence_get (run_sequence run))))
    \<and> (\<forall>k. k \<noteq> fresh \<longrightarrow> load_run C db' k = load_run C db k) \<and> run_table db'"
proof -
  let ?last = "last_sequence (job_text job) (db_runs db)"
  obtain token where run: "run = Run_new fresh job (Sequence (of_int (?last + 1))) scheduled created (ClaimToken token)"
    and b: "?last + 1 < 2 ^ 63" and acc: "runs_accept db (claimed_row C (Run_snapshot run) (?last + 1))"
    and db': "db' = db\<lparr>db_runs := db_runs db @ [claimed_row C (Run_snapshot run) (?last + 1)]\<rparr>"
    by (rule claim_run_eq_Inr [OF assms(1,2)])
  have n: "?last + 1 = int (unat (sequence_get (run_sequence run)))"
    using u64_of_int [of "?last + 1"] b last_sequence_bounds [OF assms(2), of "job_text job"]
    by (simp add: run Run_new_def del: of_nat_unat of_int_add)
  have rid: "rr_id (claimed_row C (Run_snapshot run) (?last + 1)) = run_text fresh" "run_id run = fresh"
    by (simp_all add: claimed_row_def Run_snapshot_def run Run_new_def)
  have len: "length token = 32"
    using acc by (simp add: runs_accept_def claimed_row_def Run_snapshot_def run Run_new_def)
  have "decode_run_row C (claimed_row C (Run_snapshot run) (?last + 1)) = Inr run"
    by (rule decode_claimed_row [OF assms(3) _ _ len run])
      (use n b last_sequence_bounds [OF assms(2), of "job_text job"] in \<open>simp_all add: run Run_new_def\<close>)
  then have "load_run C db' (run_id run) = Inr (Some run)"
    by (simp add: load_run_eq_Inr db' accepted_row [OF acc] rid)
  moreover have "load_run C db' k = load_run C db k" if "k \<noteq> fresh" for k
    using that by (intro load_run_row_cong) (simp add: db' accepted_row [OF acc] rid)
  moreover have "rr_sequence row < int (unat (sequence_get (run_sequence run)))"
    if "row \<in> set (db_runs db)" "rr_job_id row = job_text job" for row
    using last_sequence_upper [OF that] n by simp
  moreover have "run_state run = RunState.Starting" "run_job_id run = job" "run_scheduled_for run = scheduled"
    by (simp_all add: run Run_new_def)
  ultimately show ?thesis
    using claim_run_step(1) [OF assms(1,2)] rid(2) by blast
qed

definition sample_token :: "u8 list" where
  "sample_token = replicate 32 0"

lemma sample_claim:
  assumes "create sample_codec (\<lambda>_. None) empty_db sample_job = Inr db"
  shows "\<exists>run db'. claim_run sample_codec (\<lambda>_. None) db (RunId 2) (Inr sample_token) (job_id sample_job) 7 7
    = Inr (run, db')" "run_table db"
proof -
  have "db_runs db = []" "job_text (job_id sample_job) \<in> jr_id ` set (db_jobs db)"
    using assms by (auto simp: create_eq_Inr empty_db_def encode_job_row_def Job_snapshot_def)
  then show "\<exists>run db'. claim_run sample_codec (\<lambda>_. None) db (RunId 2) (Inr sample_token) (job_id sample_job) 7 7
    = Inr (run, db')" "run_table db"
    by (simp_all add: claim_run_def statement_def last_sequence_def checked_add_def Sequence_new_def to_sql_u64_def
        runs_accept_def claimed_row_def Run_snapshot_def Run_new_def sample_token_def Let_def run_table_def)
qed

theorem claim_run_effect_witness:
  "\<exists>db run db'. create sample_codec (\<lambda>_. None) empty_db sample_job = Inr db
     \<and> claim_run sample_codec (\<lambda>_. None) db (RunId 2) (Inr sample_token) (job_id sample_job) 7 7 = Inr (run, db')
     \<and> load_run sample_codec db' (run_id run) = Inr (Some run)"
proof -
  obtain db where db: "create sample_codec (\<lambda>_. None) empty_db sample_job = Inr db"
    using sample_job_created by blast
  then obtain run db' where c: "claim_run sample_codec (\<lambda>_. None) db (RunId 2) (Inr sample_token)
      (job_id sample_job) 7 7 = Inr (run, db')"
    using sample_claim(1) by blast
  show ?thesis
    using db c claim_run_effect [OF c sample_claim(2) [OF db] sample_codec_ok] by blast
qed

lemma sample_history:
  assumes "create sample_codec (\<lambda>_. None) empty_db sample_job = Inr db"
    and "claim_run sample_codec (\<lambda>_. None) db (RunId 2) (Inr sample_token) (job_id sample_job) 7 7 = Inr (run, db')"
  shows "run_history sample_codec db' [db]"
  by (rule run_history.commit [OF run_history.init [OF sample_claim(2) [OF assms(1)]], of db])
    (auto intro: run_write.claim [OF assms(2)])

text \<open>
  C6. Concurrent updates cannot corrupt a run.  In every history of interleaved claims,
  starts, cancellation requests and completions, each acting on data that may be stale, the
  stored state of a run only moves along legal transitions, the keys stay unique, and the row
  of a run that has ended is never written again.
\<close>

theorem interleaved_runs_legal:
  assumes "run_history C db h" "old \<in> set (db # h)" "stored_state old i = Some s"
  shows "run_table db \<and> (\<exists>t. stored_state db i = Some t \<and> run_step\<^sup>*\<^sup>* s t)
    \<and> (RunState_is_terminal s \<longrightarrow> run_row_of db i = run_row_of old i)"
  using run_history_evolution [OF assms(1)] assms(2,3) by blast

lemma sample_claimed:
  assumes "create sample_codec (\<lambda>_. None) empty_db sample_job = Inr db"
    and "claim_run sample_codec (\<lambda>_. None) db (RunId 2) (Inr sample_token) (job_id sample_job) 7 7 = Inr (run, db1)"
  shows "load_run sample_codec db1 (RunId 2) = Inr (Some run)"
    "run = Run_new (RunId 2) (job_id sample_job) (run_sequence run) 7 7 (ClaimToken sample_token)"
    "run_table db1" "''starting'' \<in> states \<Longrightarrow>
       length (filter (claimed_in (RunId 2) (ClaimToken sample_token) states) (db_runs db1)) = 1"
proof -
  note eff = claim_run_effect [OF assms(2) sample_claim(2) [OF assms(1)] sample_codec_ok]
  then show load: "load_run sample_codec db1 (RunId 2) = Inr (Some run)" and table: "run_table db1" by auto
  show run: "run = Run_new (RunId 2) (job_id sample_job) (run_sequence run) 7 7 (ClaimToken sample_token)"
    by (rule claim_run_eq_Inr [OF assms(2) sample_claim(2) [OF assms(1)]]) (simp add: Run_new_def)
  obtain row where row: "run_row_of db1 (RunId 2) = Some row" "decode_run_row sample_codec row = Inr run"
    using load unfolding load_run_eq_Inr by auto
  assume starting: "''starting'' \<in> states"
  have "run_claim_token run = ClaimToken sample_token"
    by (subst run) (simp add: Run_new_def)
  then have "claimed_in (RunId 2) (ClaimToken sample_token) states row"
    using row run_row_of_in [OF row(1)] eff starting by (auto simp: decode_run_row_eq_Inr)
  then have "0 < length (filter (claimed_in (RunId 2) (ClaimToken sample_token) states) (db_runs db1))"
    unfolding length_greater_0_conv filter_empty_conv using run_row_of_in [OF row(1)] by auto
  moreover have "length (filter (claimed_in (RunId 2) (ClaimToken sample_token) states) (db_runs db1)) \<le> 1"
    using table by (intro filter_unique_length [of rr_id _ _ "run_text (RunId 2)"]) (auto simp: run_table_def)
  ultimately show "length (filter (claimed_in (RunId 2) (ClaimToken sample_token) states) (db_runs db1)) = 1"
    by linarith
qed

lemma sample_cancelled:
  assumes "create sample_codec (\<lambda>_. None) empty_db sample_job = Inr db"
    and "claim_run sample_codec (\<lambda>_. None) db (RunId 2) (Inr sample_token) (job_id sample_job) 7 7 = Inr (run, db1)"
  shows "\<exists>run' db2. request_run_cancellation sample_codec (\<lambda>_. None) db1 db1 (RunId 2) (ClaimToken sample_token)
      = Inr (run', db2)"
proof -
  note s = sample_claimed(1-3) [OF assms]
  have r: "run_state run = RunState.Starting" "run_claim_token run = ClaimToken sample_token"
    by (subst s(2), simp add: Run_new_def)+
  have req: "request_cancellation run = Inr (run\<lparr>run_state := RunState.CancelRequested\<rparr>)"
    by (simp add: request_cancellation_eq_Inr r RunState_is_terminal_def)
  show ?thesis
    using sample_claimed(4) [OF assms, of "{''starting''}"]
    by (simp add: request_run_cancellation_def statement_def verify_claim_def RunState_is_terminal_def
        update_runs_def s(1) r req)
qed

theorem interleaved_runs_legal_witness:
  "\<exists>db run db1 run' db2. create sample_codec (\<lambda>_. None) empty_db sample_job = Inr db
     \<and> claim_run sample_codec (\<lambda>_. None) db (RunId 2) (Inr sample_token) (job_id sample_job) 7 7 = Inr (run, db1)
     \<and> request_run_cancellation sample_codec (\<lambda>_. None) db1 db1 (RunId 2) (ClaimToken sample_token) = Inr (run', db2)
     \<and> run_history sample_codec db2 [db1, db] \<and> stored_state db1 (RunId 2) = Some RunState.Starting
     \<and> (\<exists>t. stored_state db2 (RunId 2) = Some t \<and> run_step\<^sup>*\<^sup>* RunState.Starting t)"
proof -
  obtain db where db: "create sample_codec (\<lambda>_. None) empty_db sample_job = Inr db"
    using sample_job_created by blast
  then obtain run db1 where c: "claim_run sample_codec (\<lambda>_. None) db (RunId 2) (Inr sample_token)
      (job_id sample_job) 7 7 = Inr (run, db1)"
    using sample_claim(1) by blast
  obtain run' db2 where r: "request_run_cancellation sample_codec (\<lambda>_. None) db1 db1 (RunId 2)
      (ClaimToken sample_token) = Inr (run', db2)"
    using sample_cancelled [OF db c] by blast
  have h: "run_history sample_codec db2 [db1, db]"
    by (rule run_history.commit [OF sample_history [OF db c], of db1]) (auto intro: run_write.cancel [OF r])
  have s: "stored_state db1 (RunId 2) = Some RunState.Starting"
    using claim_run_effect [OF c sample_claim(2) [OF db] sample_codec_ok] load_run_stored_state by auto
  show ?thesis
    using db c r h s interleaved_runs_legal [OF h _ s] by auto
qed

text \<open>
  C20. A recorded outcome is durable and final.  When no other client interferes and the clock
  has not stepped back since the start, the run that \<open>record_run_terminal\<close> returns is the one
  later reads return; repeating the call with the same outcome returns it again without
  writing, any other outcome is refused with a conflict, and a late cancellation request
  leaves the ended run as it is.
\<close>

theorem recorded_outcome_final:
  assumes "record_run_terminal C fault db db i token finished outcome = Inr (run', db')" "run_table db" "codec_ok C"
    and "\<And>run. load_run C db i = Inr (Some run) \<Longrightarrow>
       (case run_started_at run of None \<Rightarrow> True | Some started \<Rightarrow> started \<le> finished)"
    and "fits_i32 (fst (outcome_columns outcome))" "fits_i32 (fst (snd (outcome_columns outcome)))"
    and "fault' 0 = None"
  shows "load_run C db' i = Inr (Some run') \<and> run_outcome run' = Some outcome
    \<and> record_run_terminal C fault' db' db' i token finished outcome = Inr (run', db')
    \<and> (\<forall>finished' outcome'. (finished', outcome') \<noteq> (finished, outcome) \<longrightarrow>
         record_run_terminal C fault' db' db' i token finished' outcome' = Inl Conflict)
    \<and> request_run_cancellation C fault' db' db' i token = Inr (run', db')"
proof -
  note r = recorded_run_loaded [OF assms(1-3) assms(4-6), of i]
  then have load: "load_run C db' i = Inr (Some run')" by blast
  with r assms(7) show ?thesis
    by (auto simp: record_run_terminal_def request_run_cancellation_def statement_def verify_claim_def)
qed

lemma sample_recorded:
  assumes "create sample_codec (\<lambda>_. None) empty_db sample_job = Inr db"
    and "claim_run sample_codec (\<lambda>_. None) db (RunId 2) (Inr sample_token) (job_id sample_job) 7 7 = Inr (run, db1)"
  shows "\<exists>run' db2. record_run_terminal sample_codec (\<lambda>_. None) db1 db1 (RunId 2) (ClaimToken sample_token) 9
      (RunOutcome.Exit 1) = Inr (run', db2)"
proof -
  note s = sample_claimed(1-3) [OF assms]
  have r: "run_state run = RunState.Starting" "run_claim_token run = ClaimToken sample_token"
    "run_outcome run = None" "run_created_at run = 7"
    by (subst s(2), simp add: Run_new_def)+
  obtain run' where fin: "with_outcome run 9 (RunOutcome.Exit 1) = Inr run'" "run_outcome run' = Some (RunOutcome.Exit 1)"
    by (simp add: with_outcome_eq_Inr r outcome_state_def run_legal_def)
  have json: "outcome_to_json sample_codec (RunOutcome.Exit 1) = Inr ''{}''"
    by (simp add: sample_codec_def one_to_json_def)
  show ?thesis
    using sample_claimed(4) [OF assms, of "{''starting'', ''running'', ''cancel_requested''}"]
    by (simp add: record_run_terminal_def statement_def verify_claim_def RunState_is_terminal_def
        update_runs_def s(1) r fin json Run_snapshot_def)
qed

theorem recorded_outcome_final_witness:
  "\<exists>db run db1 run' db2. create sample_codec (\<lambda>_. None) empty_db sample_job = Inr db
     \<and> claim_run sample_codec (\<lambda>_. None) db (RunId 2) (Inr sample_token) (job_id sample_job) 7 7 = Inr (run, db1)
     \<and> record_run_terminal sample_codec (\<lambda>_. None) db1 db1 (RunId 2) (ClaimToken sample_token) 9 (RunOutcome.Exit 1)
         = Inr (run', db2)
     \<and> load_run sample_codec db2 (RunId 2) = Inr (Some run')"
proof -
  obtain db where db: "create sample_codec (\<lambda>_. None) empty_db sample_job = Inr db"
    using sample_job_created by blast
  then obtain run db1 where c: "claim_run sample_codec (\<lambda>_. None) db (RunId 2) (Inr sample_token)
      (job_id sample_job) 7 7 = Inr (run, db1)"
    using sample_claim(1) by blast
  obtain run' db2 where r: "record_run_terminal sample_codec (\<lambda>_. None) db1 db1 (RunId 2)
      (ClaimToken sample_token) 9 (RunOutcome.Exit 1) = Inr (run', db2)"
    using sample_recorded [OF db c] by blast
  note s = sample_claimed(1-3) [OF db c]
  have "run_started_at run = None"
    by (subst s(2)) (simp add: Run_new_def)
  then have clock: "case run_started_at r of None \<Rightarrow> True | Some started \<Rightarrow> started \<le> 9"
    if "load_run sample_codec db1 (RunId 2) = Inr (Some r)" for r
    using that s(1) by simp
  have i32: "fits_i32 (fst (outcome_columns (RunOutcome.Exit 1)))" "fits_i32 (fst (snd (outcome_columns (RunOutcome.Exit 1))))"
    by (simp_all add: fits_i32_def)
  show ?thesis
    using db c r recorded_outcome_final [OF r s(3) sample_codec_ok clock i32, of "\<lambda>_. None"] by auto
qed

end
