(* ===== verification/Cancel_Run.thy ===== *)
theory Cancel_Run
  imports Run_Store
begin

text \<open>
  The cancellation service (\<open>src/application/cancel.rs\<close>) and its implementation by the store.

  The traits \<open>CancellationStore\<close> and \<open>ProcessGroupCanceller\<close> are the arguments of
  \<open>cancel_claimed_run\<close>.  Other processes may commit between the read and the commit of the
  service: it reads the database \<open>before\<close> and commits on the database \<open>db\<close>.  The outcome
  carries the database that is left and the runs whose process group was signalled, in order.
\<close>

datatype GroupCancellation = AlreadyDead | IdentityChanged | TerminatedDuringGrace | KilledAfterGrace

datatype CancelRunResult =
    AlreadyTerminal Run
  | CommittedBeforeSpawn Run
  | Signalled Run GroupCancellation

datatype CancelRunError =
    NotFound
  | InvalidClaim
  | Store string
  | Process string

record 'db cancel_effect =
  ce_result :: "(CancelRunError, CancelRunResult) result"
  ce_db :: 'db
  ce_signalled :: "Run list"

definition cancel_claimed_run ::
  "(RunId \<Rightarrow> 'db \<Rightarrow> (string, Run option) result) \<Rightarrow>
     (RunId \<Rightarrow> ClaimToken \<Rightarrow> 'db \<Rightarrow> (string, Run \<times> 'db) result) \<Rightarrow>
     (Run \<Rightarrow> (string, GroupCancellation) result) \<Rightarrow> 'db \<Rightarrow> 'db \<Rightarrow> RunId \<Rightarrow> ClaimToken \<Rightarrow> 'db cancel_effect" where
  "cancel_claimed_run load_for_cancellation commit_cancellation cancel_group before db i token =
     (case load_for_cancellation i before of
        Inl e \<Rightarrow> \<lparr> ce_result = Inl (CancelRunError.Store e), ce_db = db, ce_signalled = [] \<rparr>
      | Inr None \<Rightarrow> \<lparr> ce_result = Inl CancelRunError.NotFound, ce_db = db, ce_signalled = [] \<rparr>
      | Inr (Some current) \<Rightarrow>
          if run_claim_token current \<noteq> token
          then \<lparr> ce_result = Inl CancelRunError.InvalidClaim, ce_db = db, ce_signalled = [] \<rparr>
          else if RunState_is_terminal (run_state current)
          then \<lparr> ce_result = Inr (AlreadyTerminal current), ce_db = db, ce_signalled = [] \<rparr>
          else (case commit_cancellation i token db of
             Inl e \<Rightarrow> \<lparr> ce_result = Inl (CancelRunError.Store e), ce_db = db, ce_signalled = [] \<rparr>
           | Inr (committed, db') \<Rightarrow>
               if run_command_identity committed = None
               then \<lparr> ce_result = Inr (CommittedBeforeSpawn committed), ce_db = db', ce_signalled = [] \<rparr>
               else (case cancel_group committed of
                  Inl e \<Rightarrow> \<lparr> ce_result = Inl (CancelRunError.Process e), ce_db = db', ce_signalled = [committed] \<rparr>
                | Inr r \<Rightarrow> \<lparr> ce_result = Inr (Signalled committed r), ce_db = db', ce_signalled = [committed] \<rparr>)))"

section \<open>The store as the cancellation store\<close>

fun StoreError_text :: "StoreError \<Rightarrow> string" where
  "StoreError_text (Io m) = ''database I/O failed: '' @ m"
| "StoreError_text (Sqlite m) = ''database operation failed: '' @ m"
| "StoreError_text InsecureDatabaseFile = ''database file must be regular, owner-only, and owned by this user''"
| "StoreError_text InvalidDatabasePath = ''database path must have a parent and file name''"
| "StoreError_text (NewerSchema found supported) =
     ''database schema '' @ show_nat (unat found) @ '' is newer than supported schema '' @ show_nat (unat supported)"
| "StoreError_text InvalidBusyTimeout = ''busy timeout is outside SQLite's supported range''"
| "StoreError_text PragmaMismatch = ''SQLite connection pragmas did not stick''"
| "StoreError_text AlreadyExists = ''job already exists''"
| "StoreError_text StoreError.NotFound = ''job was not found''"
| "StoreError_text Conflict = ''job revision changed''"
| "StoreError_text InvalidPageSize = ''page size must be between 1 and 100''"
| "StoreError_text Busy = ''database stayed busy past its configured timeout''"
| "StoreError_text (Corrupt m) = ''stored record is corrupt: '' @ m"
| "StoreError_text (Domain m) = ''domain operation failed: '' @ m"
| "StoreError_text DuplicateClaim = ''this job occurrence already has a run claim''"
| "StoreError_text StoreError.InvalidClaim = ''run claim token did not match''"
| "StoreError_text (Random m) = ''operating-system randomness failed: '' @ m"

definition load_for_cancellation :: "codec \<Rightarrow> RunId \<Rightarrow> Database \<Rightarrow> (string, Run option) result" where
  "load_for_cancellation C i db = map_err StoreError_text (load_run C db i)"

definition commit_cancellation ::
  "codec \<Rightarrow> (nat \<Rightarrow> StoreError option) \<Rightarrow> RunId \<Rightarrow> ClaimToken \<Rightarrow> Database \<Rightarrow> (string, Run \<times> Database) result" where
  "commit_cancellation C fault i token db =
     map_err StoreError_text (request_run_cancellation C fault db db i token)"

section \<open>What the service relies on\<close>

locale cancellation_store =
  fixes inv :: "'db \<Rightarrow> bool"
    and load :: "RunId \<Rightarrow> 'db \<Rightarrow> (string, Run option) result"
    and commit :: "RunId \<Rightarrow> ClaimToken \<Rightarrow> 'db \<Rightarrow> (string, Run \<times> 'db) result"
  assumes commit_inv: "inv db \<Longrightarrow> commit i token db = Inr (r, db') \<Longrightarrow> inv db'"
    and commit_durable: "inv db \<Longrightarrow> commit i token db = Inr (r, db') \<Longrightarrow> load i db' = Inr (Some r)"
    and commit_other: "inv db \<Longrightarrow> commit i token db = Inr (r, db') \<Longrightarrow> k \<noteq> i \<Longrightarrow> load k db' = load k db"
    and commit_claim: "commit i token db = Inr (r, db') \<Longrightarrow> run_claim_token r = token"
    and commit_state: "commit i token db = Inr (r, db') \<Longrightarrow>
      run_state r = RunState.CancelRequested \<or> RunState_is_terminal (run_state r)"
begin

lemma signalled_committed:
  assumes "inv db" "ce_signalled (cancel_claimed_run load commit cancel_group before db i token) \<noteq> []"
  shows "\<exists>r. ce_signalled (cancel_claimed_run load commit cancel_group before db i token) = [r]
    \<and> load i (ce_db (cancel_claimed_run load commit cancel_group before db i token)) = Inr (Some r)
    \<and> run_claim_token r = token \<and> run_command_identity r \<noteq> None
    \<and> (run_state r = RunState.CancelRequested \<or> RunState_is_terminal (run_state r))"
  using assms(2)
  by (auto simp: cancel_claimed_run_def split: sum.splits option.splits if_splits prod.splits
      dest: commit_durable [OF assms(1)] commit_claim commit_state)

lemma cancel_keeps_inv:
  "inv db \<Longrightarrow> inv (ce_db (cancel_claimed_run load commit cancel_group before db i token))"
  by (auto simp: cancel_claimed_run_def split: sum.splits option.splits if_splits prod.splits dest: commit_inv)

lemma cancel_other_runs:
  "inv db \<Longrightarrow> k \<noteq> i \<Longrightarrow>
     load k (ce_db (cancel_claimed_run load commit cancel_group before db i token)) = load k db"
  by (auto simp: cancel_claimed_run_def split: sum.splits option.splits if_splits prod.splits dest: commit_other)

lemma unsignalled_success:
  assumes "inv db" "ce_result (cancel_claimed_run load commit cancel_group before db i token) = Inr res"
    and "ce_signalled (cancel_claimed_run load commit cancel_group before db i token) = []"
  shows "(\<exists>r. res = AlreadyTerminal r \<and> load i before = Inr (Some r) \<and> RunState_is_terminal (run_state r))
    \<or> (\<exists>r. res = CommittedBeforeSpawn r \<and> run_command_identity r = None
         \<and> load i (ce_db (cancel_claimed_run load commit cancel_group before db i token)) = Inr (Some r))"
  using assms commit_durable [OF assms(1)]
  by (auto simp: cancel_claimed_run_def split: sum.splits option.splits if_splits prod.splits)

end

lemma requested_run_loaded:
  assumes "request_run_cancellation C fault db db i token = Inr (run', db')" "run_table db"
  shows "load_run C db' i = Inr (Some run') \<and> (k \<noteq> i \<longrightarrow> load_run C db' k = load_run C db k)
    \<and> run_claim_token run' = token
    \<and> (run_state run' = RunState.CancelRequested \<or> RunState_is_terminal (run_state run'))"
  using assms(1)
proof (cases rule: request_run_cancellation_eq_Inr)
  case (requested run)
  have dec: "decode_run_row C (row\<lparr>rr_state := ''cancel_requested''\<rparr>) = Inr run'"
    if "decode_run_row C row = Inr run" for row
    by (rule decode_cancelled_row [OF that requested(4)])
  have keep: "rr_id (y\<lparr>rr_state := ''cancel_requested''\<rparr>) = rr_id y" for y :: run_row by simp
  show ?thesis
    using updated_run_loaded [OF assms(2) requested(1,5) keep dec] requested(2,4,6)
    by (auto simp: request_cancellation_eq_Inr)
qed auto

lemma requested_run_state:
  assumes "request_run_cancellation C fault rd wr i token = Inr (run', wr')"
  shows "run_claim_token run' = token
    \<and> (run_state run' = RunState.CancelRequested \<or> RunState_is_terminal (run_state run'))"
  using assms by (cases rule: request_run_cancellation_eq_Inr) (auto simp: request_cancellation_eq_Inr)

interpretation js: cancellation_store run_table "load_for_cancellation C" "commit_cancellation C fault"
  for C :: codec and fault :: "nat \<Rightarrow> StoreError option"
proof unfold_locales
  fix db db' :: Database and i k token r
  assume r: "commit_cancellation C fault i token db = Inr (r, db')"
  then have req: "request_run_cancellation C fault db db i token = Inr (r, db')"
    by (simp add: commit_cancellation_def result_simps)
  show "run_claim_token r = token" "run_state r = RunState.CancelRequested \<or> RunState_is_terminal (run_state r)"
    using requested_run_state [OF req] by auto
  assume t: "run_table db"
  show "run_table db'"
    using cancel_run_step [OF req t] by blast
  show "load_for_cancellation C i db' = Inr (Some r)"
    using requested_run_loaded [OF req t] by (simp add: load_for_cancellation_def)
  show "load_for_cancellation C k db' = load_for_cancellation C k db" if "k \<noteq> i"
    using requested_run_loaded [OF req t] that by (simp add: load_for_cancellation_def)
qed

section \<open>Properties\<close>


lemma sample_cancel_commits:
  assumes "create sample_codec (\<lambda>_. None) empty_db sample_job = Inr db"
    and "claim_run sample_codec (\<lambda>_. None) db (RunId 2) (Inr sample_token) (job_id sample_job) 7 7 = Inr (run, db1)"
  shows "\<exists>r. ce_result (cancel_claimed_run (load_for_cancellation sample_codec)
      (commit_cancellation sample_codec (\<lambda>_. None)) (\<lambda>_. Inr AlreadyDead) db1 db1 (RunId 2) (ClaimToken sample_token))
      = Inr (CommittedBeforeSpawn r)"
proof -
  note s = sample_claimed(1-3) [OF assms]
  have r: "run_state run = RunState.Starting" "run_claim_token run = ClaimToken sample_token"
    "run_command_identity run = None"
    by (subst s(2), simp add: Run_new_def)+
  obtain run' db2 where c: "request_run_cancellation sample_codec (\<lambda>_. None) db1 db1 (RunId 2)
      (ClaimToken sample_token) = Inr (run', db2)"
    using sample_cancelled [OF assms] by blast
  have "run_command_identity run' = None"
    using c
  proof (cases rule: request_run_cancellation_eq_Inr)
    case (requested q)
    then show ?thesis using s(1) r by (simp add: request_cancellation_eq_Inr)
  qed (use s(1) r in \<open>simp add: RunState_is_terminal_def\<close>)
  then show ?thesis
    by (simp add: cancel_claimed_run_def load_for_cancellation_def s(1) r commit_cancellation_def c
        RunState_is_terminal_def)
qed


end
