(* ===== verification/Deadline_Heap.thy ===== *)
theory Deadline_Heap
  imports Identifier Recurrence "HOL-Library.Product_Lexorder" "HOL-Library.Multiset"
begin

text \<open>
  The supervisor's deadline heap (\<open>src/supervisor/heap.rs\<close>): an array heap of entries
  ordered by deadline and job, with an index from jobs to positions.

  An operation returns \<open>None\<close> where the code would index out of range.  The loop of
  \<open>pop_due\<close> would not end on a heap whose index lost an entry, so it is a
  \<open>partial_function\<close> and not returning is \<open>None\<close> too.  On well-formed heaps every operation
  is proved to return, to keep the heap well-formed, and to act on the map from jobs to
  deadlines that the heap stands for; the locale \<open>deadline_queue\<close> is that contract.
\<close>

section \<open>The code\<close>

record Entry =
  e_due :: ElapsedInstant
  e_job :: JobId

record DeadlineHeap =
  entries :: "Entry list"
  positions :: "JobId \<rightharpoonup> nat"

definition DeadlineHeap_default :: DeadlineHeap where
  "DeadlineHeap_default = \<lparr> entries = [], positions = Map.empty \<rparr>"

definition parent :: "nat \<Rightarrow> nat" where
  "parent index = (index - 1) div 2"

definition comes_before :: "Entry \<Rightarrow> Entry \<Rightarrow> bool" where
  "comes_before left right = ((e_due left, e_job left) < (e_due right, e_job right))"

definition swap :: "DeadlineHeap \<Rightarrow> nat \<Rightarrow> nat \<Rightarrow> DeadlineHeap option" where
  "swap self left right =
     (if left < length (entries self) \<and> right < length (entries self)
      then
        (let es = (entries self)[left := entries self ! right, right := entries self ! left]
         in Some \<lparr> entries = es,
              positions = (positions self)(e_job (es ! left) \<mapsto> left, e_job (es ! right) \<mapsto> right) \<rparr>)
      else None)"

function sift_up :: "DeadlineHeap \<Rightarrow> nat \<Rightarrow> DeadlineHeap option" where
  "sift_up self index =
     (if index = 0 then Some self
      else if length (entries self) \<le> index then None
      else if \<not> comes_before (entries self ! index) (entries self ! parent index) then Some self
      else Option.bind (swap self index (parent index)) (\<lambda>self'. sift_up self' (parent index)))"
  by pat_completeness auto
termination
  by (relation "measure snd") (auto simp: parent_def)

definition smaller_child :: "Entry list \<Rightarrow> nat \<Rightarrow> nat" where
  "smaller_child es index =
     (let left = index * 2 + 1; right = left + 1
      in if right < length es \<and> comes_before (es ! right) (es ! left) then right else left)"

lemma swap_length: "swap h l r = Some h' \<Longrightarrow> length (entries h') = length (entries h)"
  by (auto simp: swap_def Let_def split: if_splits)

lemma smaller_child_cases:
  "smaller_child es i = i * 2 + 1 \<or> smaller_child es i = i * 2 + 2 \<and> i * 2 + 2 < length es"
  by (simp add: smaller_child_def Let_def)

function sift_down :: "DeadlineHeap \<Rightarrow> nat \<Rightarrow> DeadlineHeap option" where
  "sift_down self index =
     (if length (entries self) \<le> index * 2 + 1 then Some self
      else let child = smaller_child (entries self) index
       in if \<not> comes_before (entries self ! child) (entries self ! index) then Some self
          else Option.bind (swap self index child) (\<lambda>self'. sift_down self' child))"
  by pat_completeness auto
termination
proof (relation "measure (\<lambda>(h, i). length (entries h) - i)", goal_cases)
  case 1
  then show ?case by simp
next
  case (2 self index child self')
  then have "index < child"
    using smaller_child_cases [of "entries self" index] by auto
  with 2 show ?case
    by (simp add: swap_length [of self index child self'])
qed

declare sift_up.simps [simp del] sift_down.simps [simp del]

text \<open>The common end of an update and a removal: move the entry at \<open>index\<close> either way.\<close>

definition restore_at :: "DeadlineHeap \<Rightarrow> nat \<Rightarrow> DeadlineHeap option" where
  "restore_at self index =
     (if length (entries self) \<le> index then None
      else if 0 < index \<and> comes_before (entries self ! index) (entries self ! parent index)
      then sift_up self index
      else sift_down self index)"

definition upsert :: "DeadlineHeap \<Rightarrow> JobId \<Rightarrow> ElapsedInstant \<Rightarrow> DeadlineHeap option" where
  "upsert self job due =
     (case positions self job of
        None \<Rightarrow>
          (let index = length (entries self)
           in sift_up \<lparr> entries = entries self @ [\<lparr> e_due = due, e_job = job \<rparr>],
                positions = (positions self)(job \<mapsto> index) \<rparr> index)
      | Some index \<Rightarrow>
          (if length (entries self) \<le> index then None
           else restore_at
             (self\<lparr>entries := (entries self)[index := (entries self ! index)\<lparr>e_due := due\<rparr>]\<rparr>) index))"

definition remove :: "DeadlineHeap \<Rightarrow> JobId \<Rightarrow> (bool \<times> DeadlineHeap) option" where
  "remove self job =
     (case positions self job of
        None \<Rightarrow> Some (False, self)
      | Some index \<Rightarrow>
          (let pos = (positions self)(job := None)
           in if entries self = [] then Some (False, self\<lparr>positions := pos\<rparr>)
              else
                (let last_entry = last (entries self); rest = butlast (entries self)
                 in if index = length rest
                    then Some (True, \<lparr> entries = rest, positions = pos \<rparr>)
                    else if length rest < index then None
                    else map_option (Pair True)
                      (restore_at \<lparr> entries = rest[index := last_entry],
                         positions = pos(e_job last_entry \<mapsto> index) \<rparr> index))))"

definition next_deadline :: "DeadlineHeap \<Rightarrow> ElapsedInstant option" where
  "next_deadline self = (case entries self of [] \<Rightarrow> None | e # _ \<Rightarrow> Some (e_due e))"

partial_function (option) pop_due_loop ::
  "ElapsedInstant \<Rightarrow> DeadlineHeap \<Rightarrow> JobId list \<Rightarrow> (JobId list \<times> DeadlineHeap) option"
where
  "pop_due_loop now self due =
     (if entries self \<noteq> [] \<and> e_due (hd (entries self)) \<le> now
      then
        (let job = e_job (hd (entries self))
         in Option.bind (remove self job)
              (\<lambda>(removed, self'). pop_due_loop now self' (due @ [job])))
      else Some (due, self))"

definition pop_due :: "DeadlineHeap \<Rightarrow> ElapsedInstant \<Rightarrow> (JobId list \<times> DeadlineHeap) option" where
  "pop_due self now = pop_due_loop now self []"

definition heap_is_empty :: "DeadlineHeap \<Rightarrow> bool" where
  "heap_is_empty self = (entries self = [])"

section \<open>Order along the tree\<close>

text \<open>
  For a labelling \<open>f\<close> of the positions below \<open>n\<close>: no entry before its parent; all ordered
  but the edge above \<open>i\<close>; all ordered but the edges below \<open>i\<close>.
\<close>

definition ordered :: "(nat \<Rightarrow> 'k::linorder) \<Rightarrow> nat \<Rightarrow> bool" where
  "ordered f n = (\<forall>k. 0 < k \<and> k < n \<longrightarrow> f (parent k) \<le> f k)"

definition ordered_but_up :: "(nat \<Rightarrow> 'k::linorder) \<Rightarrow> nat \<Rightarrow> nat \<Rightarrow> bool" where
  "ordered_but_up f n i =
     ((\<forall>k. 0 < k \<and> k < n \<and> k \<noteq> i \<longrightarrow> f (parent k) \<le> f k) \<and>
      (\<forall>k. 0 < k \<and> k < n \<and> parent k = i \<and> 0 < i \<longrightarrow> f (parent i) \<le> f k))"

definition ordered_but_down :: "(nat \<Rightarrow> 'k::linorder) \<Rightarrow> nat \<Rightarrow> nat \<Rightarrow> bool" where
  "ordered_but_down f n i =
     ((\<forall>k. 0 < k \<and> k < n \<and> parent k \<noteq> i \<longrightarrow> f (parent k) \<le> f k) \<and>
      (\<forall>k. 0 < k \<and> k < n \<and> parent k = i \<and> 0 < i \<longrightarrow> f (parent i) \<le> f k))"

lemma parent_less: "0 < k \<Longrightarrow> parent k < k"
  by (auto simp: parent_def)

lemma parent_neq: "0 < k \<Longrightarrow> parent k \<noteq> k"
  using parent_less [of k] by simp

lemma parent_child: "0 < k \<Longrightarrow> parent k = i \<longleftrightarrow> k = i * 2 + 1 \<or> k = i * 2 + 2"
  by (auto simp: parent_def)

lemma ordered_root_least: "ordered f n \<Longrightarrow> k < n \<Longrightarrow> f 0 \<le> f k"
proof (induction k rule: less_induct)
  case (less k)
  show ?case
  proof (cases "k = 0")
    case False
    then have "f 0 \<le> f (parent k)" "f (parent k) \<le> f k"
      using less parent_less [of k] by (auto simp: ordered_def)
    then show ?thesis by simp
  qed simp
qed

lemma ordered_but_up_done:
  "ordered_but_up f n i \<Longrightarrow> i = 0 \<or> f (parent i) \<le> f i \<Longrightarrow> ordered f n"
  by (auto simp: ordered_but_up_def ordered_def)

lemma ordered_but_down_done:
  "ordered_but_down f n i \<Longrightarrow> \<forall>k. 0 < k \<and> k < n \<and> parent k = i \<longrightarrow> f i \<le> f k \<Longrightarrow> ordered f n"
  unfolding ordered_but_down_def ordered_def by metis

lemma ordered_but_up_step:
  assumes "ordered_but_up f n i" "0 < i" "i < n" "f i < f (parent i)"
  shows "ordered_but_up (f(i := f (parent i), parent i := f i)) n (parent i)"
proof -
  define p where "p = parent i"
  have p: "p < i" "p < n"
    using assms(2,3) parent_less [of i] by (simp_all add: p_def)
  have edge: "f (parent k) \<le> f k" if "0 < k" "k < n" "k \<noteq> i" for k
    using assms(1) that by (auto simp: ordered_but_up_def)
  have below: "f p \<le> f k" if "0 < k" "k < n" "parent k = i" for k
    using assms(1,2) that by (auto simp: ordered_but_up_def p_def)
  let ?g = "f(i := f p, p := f i)"
  have "?g (parent k) \<le> ?g k" if k: "0 < k" "k < n" "k \<noteq> p" for k
  proof -
    consider "k = i" | "k \<noteq> i" "parent k = i" | "k \<noteq> i" "parent k = p" | "k \<noteq> i" "parent k \<noteq> i" "parent k \<noteq> p"
      by blast
    then show ?thesis
    proof cases
      case 3
      then show ?thesis using k p edge [of k] assms(4) by (auto simp: p_def)
    qed (use k p edge below assms(4) in \<open>auto simp: p_def\<close>)
  qed
  moreover have "?g (parent p) \<le> ?g k" if k: "0 < k" "k < n" "parent k = p" "0 < p" for k
  proof -
    have pp: "parent p < p" "f (parent p) \<le> f p"
      using k(4) p parent_less edge [of p] by auto
    then show ?thesis
      using k p edge [of k] parent_less [of k] by (cases "k = i") auto
  qed
  ultimately show ?thesis
    unfolding ordered_but_up_def p_def [symmetric] by blast
qed

lemma ordered_but_down_step:
  assumes "ordered_but_down f n i" "0 < c" "c < n" "parent c = i" "f c < f i"
    and least: "\<And>k. 0 < k \<Longrightarrow> k < n \<Longrightarrow> parent k = i \<Longrightarrow> f c \<le> f k"
  shows "ordered_but_down (f(i := f c, c := f i)) n c"
proof -
  have ic: "i < c"
    using assms(2,4) parent_less by blast
  have edge: "f (parent k) \<le> f k" if "0 < k" "k < n" "parent k \<noteq> i" for k
    using assms(1) that by (auto simp: ordered_but_down_def)
  have below: "f (parent i) \<le> f k" if "0 < k" "k < n" "parent k = i" "0 < i" for k
    using assms(1) that by (auto simp: ordered_but_down_def)
  let ?g = "f(i := f c, c := f i)"
  have "?g (parent k) \<le> ?g k" if k: "0 < k" "k < n" "parent k \<noteq> c" for k
  proof -
    have pk: "parent k < k" using k parent_less by blast
    consider "k = c" | "k \<noteq> c" "parent k = i" | "k = i" | "k \<noteq> c" "parent k \<noteq> i" "k \<noteq> i"
      by blast
    then show ?thesis
    proof cases
      case 3
      then show ?thesis using k pk ic below [of c] assms(2-4) by auto
    qed (use k pk ic edge [of k] least [of k] assms(4,5) in auto)
  qed
  moreover have "?g (parent c) \<le> ?g k" if k: "0 < k" "k < n" "parent k = c" for k
  proof -
    have "c < k" using k parent_less by blast
    then show ?thesis using k ic edge [of k] assms(4) by auto
  qed
  ultimately show ?thesis
    unfolding ordered_but_down_def by blast
qed

text \<open>A changed label leaves at most one defect, and its side tells the direction to move.\<close>

lemma ordered_update:
  assumes "ordered f n" "i < n"
  shows "0 < i \<and> x < f (parent i) \<Longrightarrow> ordered_but_up (f(i := x)) n i"
    and "\<not> (0 < i \<and> x < f (parent i)) \<Longrightarrow> ordered_but_down (f(i := x)) n i"
proof -
  have edge: "f (parent k) \<le> f k" if "0 < k" "k < n" for k
    using assms(1) that by (auto simp: ordered_def)
  have step: "f (parent i) \<le> f k" if "0 < k" "k < n" "parent k = i" "0 < i" for k
    using edge [of k] edge [of i] that assms(2) by auto
  show "ordered_but_up (f(i := x)) n i" if x: "0 < i \<and> x < f (parent i)"
  proof -
    have "x \<le> f k" if "0 < k" "k < n" "parent k = i" for k
      using step [of k] that x by auto
    then show ?thesis
      using edge step parent_neq unfolding ordered_but_up_def by auto
  qed
  show "ordered_but_down (f(i := x)) n i" if x: "\<not> (0 < i \<and> x < f (parent i))"
    using edge step parent_neq x unfolding ordered_but_down_def by (auto simp: not_less)
qed

section \<open>Well-formed heaps\<close>

definition key :: "Entry \<Rightarrow> ElapsedInstant \<times> JobId" where
  "key e = (e_due e, e_job e)"

abbreviation labels :: "Entry list \<Rightarrow> nat \<Rightarrow> ElapsedInstant \<times> JobId" where
  "labels es \<equiv> \<lambda>i. key (es ! i)"

text \<open>The index holds exactly the positions of the entries.\<close>

definition indexed :: "Entry list \<Rightarrow> (JobId \<rightharpoonup> nat) \<Rightarrow> bool" where
  "indexed es pos =
     ((\<forall>i < length es. pos (e_job (es ! i)) = Some i) \<and>
      (\<forall>j i. pos j = Some i \<longrightarrow> i < length es \<and> e_job (es ! i) = j))"

definition valid_heap :: "DeadlineHeap \<Rightarrow> bool" where
  "valid_heap h =
     (indexed (entries h) (positions h) \<and> ordered (labels (entries h)) (length (entries h)))"

text \<open>What a heap stands for: the deadline of each job in it.\<close>

definition deadlines :: "DeadlineHeap \<Rightarrow> JobId \<rightharpoonup> ElapsedInstant" where
  "deadlines h = map_of (map (\<lambda>e. (e_job e, e_due e)) (entries h))"

lemma comes_before_key: "comes_before a b \<longleftrightarrow> key a < key b"
  by (simp add: comes_before_def key_def)

lemma indexed_distinct: "indexed es pos \<Longrightarrow> distinct (map e_job es)"
  unfolding indexed_def distinct_conv_nth by (metis length_map nth_map option.inject)

lemma indexed_Some: "indexed es pos \<Longrightarrow> pos j = Some i \<longleftrightarrow> i < length es \<and> e_job (es ! i) = j"
  by (auto simp: indexed_def)

lemma indexed_None: "indexed es pos \<Longrightarrow> pos j = None \<longleftrightarrow> j \<notin> e_job ` set es"
proof -
  assume "indexed es pos"
  then have "(\<exists>i. pos j = Some i) \<longleftrightarrow> (\<exists>e \<in> set es. j = e_job e)"
    using indexed_Some [of es pos] by (metis in_set_conv_nth)
  then show ?thesis by (simp add: image_iff) (metis not_None_eq)
qed

lemma indexed_iff:
  "indexed es pos \<longleftrightarrow> (\<forall>j i. pos j = Some i \<longleftrightarrow> i < length es \<and> e_job (es ! i) = j)"
  by (auto simp: indexed_def)

lemma deadlines_Some:
  assumes "indexed (entries h) (positions h)"
  shows "deadlines h j = Some d \<longleftrightarrow> \<lparr> e_due = d, e_job = j \<rparr> \<in> set (entries h)"
proof -
  have "distinct (map fst (map (\<lambda>e. (e_job e, e_due e)) (entries h)))"
    using indexed_distinct [OF assms] by (simp add: comp_def)
  moreover have "(j, d) \<in> set (map (\<lambda>e. (e_job e, e_due e)) (entries h)) \<longleftrightarrow>
      \<lparr> e_due = d, e_job = j \<rparr> \<in> set (entries h)"
  proof -
    have "(j, d) = (e_job e, e_due e) \<longleftrightarrow> e = \<lparr> e_due = d, e_job = j \<rparr>" for e :: Entry
      by (cases e) auto
    then show ?thesis unfolding set_map image_iff by simp
  qed
  ultimately show ?thesis
    unfolding deadlines_def using map_of_eq_Some_iff by metis
qed

text \<open>The deadlines depend on the entries, not on their order.\<close>

lemma deadlines_mset:
  assumes "mset (entries h) = mset (entries h')" "indexed (entries h) (positions h)"
    "indexed (entries h') (positions h')"
  shows "deadlines h = deadlines h'"
proof
  fix j
  have "set (entries h) = set (entries h')"
    using assms(1) by (rule mset_eq_setD)
  then have "deadlines h j = Some d \<longleftrightarrow> deadlines h' j = Some d" for d
    using assms(2,3) by (simp add: deadlines_Some)
  then show "deadlines h j = deadlines h' j"
    by (metis not_Some_eq)
qed

section \<open>Moving an entry\<close>

lemma swap_eq:
  assumes "indexed (entries h) (positions h)" "l < length (entries h)" "r < length (entries h)" "l \<noteq> r"
  obtains h' where "swap h l r = Some h'" "indexed (entries h') (positions h')"
    "mset (entries h') = mset (entries h)" "length (entries h') = length (entries h)"
    "\<And>k. k < length (entries h) \<Longrightarrow> labels (entries h') k =
       ((labels (entries h))(l := labels (entries h) r, r := labels (entries h) l)) k"
proof -
  let ?es = "entries h"
  let ?es' = "?es[l := ?es ! r, r := ?es ! l]"
  let ?pos' = "(positions h)(e_job (?es' ! l) \<mapsto> l, e_job (?es' ! r) \<mapsto> r)"
  have jobs: "e_job (?es ! i) = e_job (?es ! k) \<longleftrightarrow> i = k" if "i < length ?es" "k < length ?es" for i k
    using indexed_distinct [OF assms(1)] that by (simp add: distinct_conv_nth) (metis length_map nth_map)
  have "indexed ?es' ?pos'"
    unfolding indexed_iff using assms jobs
    by (auto simp: indexed_Some [OF assms(1)] nth_list_update split: if_splits)
  moreover have "mset ?es' = mset ?es"
    using assms mset_swap [of r ?es l] by (simp add: list_update_swap)
  ultimately show ?thesis
    using assms by (intro that [of "\<lparr> entries = ?es', positions = ?pos' \<rparr>"])
      (auto simp: swap_def Let_def)
qed

lemma ordered_but_up_cong:
  "ordered_but_up f n i \<Longrightarrow> (\<And>k. k < n \<Longrightarrow> g k = f k) \<Longrightarrow> ordered_but_up g n i"
  unfolding ordered_but_up_def using parent_less by (metis less_trans)

lemma ordered_but_down_cong:
  "ordered_but_down f n i \<Longrightarrow> (\<And>k. k < n \<Longrightarrow> g k = f k) \<Longrightarrow> ordered_but_down g n i"
  unfolding ordered_but_down_def using parent_less by (metis less_trans)

lemma sift_up_restores:
  "indexed (entries h) (positions h) \<Longrightarrow> i < length (entries h) \<Longrightarrow>
   ordered_but_up (labels (entries h)) (length (entries h)) i \<Longrightarrow>
   \<exists>h'. sift_up h i = Some h' \<and> valid_heap h' \<and> mset (entries h') = mset (entries h)"
proof (induction h i rule: sift_up.induct)
  case (1 h i)
  show ?case
  proof (cases "i = 0 \<or> \<not> comes_before (entries h ! i) (entries h ! parent i)")
    case True
    then have "ordered (labels (entries h)) (length (entries h))"
      using 1(4) ordered_but_up_done by (auto simp: comes_before_key not_less)
    with True 1(2,3) show ?thesis
      by (subst sift_up.simps) (auto simp: valid_heap_def)
  next
    case False
    then have i: "0 < i" "i < length (entries h)" "labels (entries h) i < labels (entries h) (parent i)"
      using 1(3) by (auto simp: comes_before_key)
    obtain h' where h': "swap h i (parent i) = Some h'" "indexed (entries h') (positions h')"
      "mset (entries h') = mset (entries h)" "length (entries h') = length (entries h)"
      "\<And>k. k < length (entries h) \<Longrightarrow> labels (entries h') k =
        ((labels (entries h))(i := labels (entries h) (parent i), parent i := labels (entries h) i)) k"
      using swap_eq [OF 1(2) i(2), of "parent i"] i parent_less [of i] by auto
    have "ordered_but_up (labels (entries h')) (length (entries h')) (parent i)"
      using ordered_but_up_cong [OF ordered_but_up_step [OF 1(4) i(1,2)]] i(3) h'(4,5) by simp
    moreover have "parent i < length (entries h')"
      using h'(4) i parent_less [of i] by simp
    ultimately have "\<exists>h''. sift_up h' (parent i) = Some h'' \<and> valid_heap h'' \<and> mset (entries h'') = mset (entries h')"
      using 1(1) [OF _ _ _ h'(1,2)] i False by simp
    moreover have "sift_up h i = sift_up h' (parent i)"
      using False h'(1) i by (subst sift_up.simps) simp
    ultimately show ?thesis
      using h'(3) by simp
  qed
qed

lemma smaller_child_least:
  assumes "i * 2 + 1 < length es"
  shows "0 < smaller_child es i" "smaller_child es i < length es" "parent (smaller_child es i) = i"
    and "0 < k \<Longrightarrow> k < length es \<Longrightarrow> parent k = i \<Longrightarrow> key (es ! smaller_child es i) \<le> key (es ! k)"
proof -
  show "0 < smaller_child es i" "smaller_child es i < length es" "parent (smaller_child es i) = i"
    using assms smaller_child_cases [of es i] by (auto simp: parent_def)
  assume "0 < k" "k < length es" "parent k = i"
  then have "k = i * 2 + 1 \<or> k = i * 2 + 2 \<and> i * 2 + 2 < length es"
    using parent_child [of k i] by auto
  then show "key (es ! smaller_child es i) \<le> key (es ! k)"
    by (auto simp: smaller_child_def Let_def comes_before_key not_less)
qed

lemma sift_down_restores:
  "indexed (entries h) (positions h) \<Longrightarrow> i < length (entries h) \<Longrightarrow>
   ordered_but_down (labels (entries h)) (length (entries h)) i \<Longrightarrow>
   \<exists>h'. sift_down h i = Some h' \<and> valid_heap h' \<and> mset (entries h') = mset (entries h)"
proof (induction h i rule: sift_down.induct)
  case (1 h i)
  let ?c = "smaller_child (entries h) i"
  show ?case
  proof (cases "length (entries h) \<le> i * 2 + 1 \<or> \<not> comes_before (entries h ! ?c) (entries h ! i)")
    case True
    have "labels (entries h) i \<le> labels (entries h) k"
      if "0 < k" "k < length (entries h)" "parent k = i" for k
    proof -
      have "i * 2 + 1 < length (entries h)"
        using that parent_child [of k i] by auto
      then show ?thesis
        using smaller_child_least(4) [of i "entries h" k] that True
        by (auto simp: comes_before_key not_less intro: order_trans)
    qed
    then have "ordered (labels (entries h)) (length (entries h))"
      using ordered_but_down_done [OF 1(4)] by blast
    with True 1(2) show ?thesis
      by (subst sift_down.simps) (auto simp: valid_heap_def Let_def)
  next
    case False
    then have i: "i * 2 + 1 < length (entries h)" "labels (entries h) ?c < labels (entries h) i"
      by (auto simp: comes_before_key)
    note c = smaller_child_least [OF i(1)]
    have "i \<noteq> ?c"
      using parent_neq [OF c(1)] c(3) by auto
    then obtain h' where h': "swap h i ?c = Some h'" "indexed (entries h') (positions h')"
      "mset (entries h') = mset (entries h)" "length (entries h') = length (entries h)"
      "\<And>k. k < length (entries h) \<Longrightarrow> labels (entries h') k =
        ((labels (entries h))(i := labels (entries h) ?c, ?c := labels (entries h) i)) k"
      using swap_eq [OF 1(2,3) c(2)] by auto
    have "ordered_but_down (labels (entries h')) (length (entries h')) ?c"
      unfolding h'(4)
      by (rule ordered_but_down_cong [OF ordered_but_down_step [OF 1(4) c(1-3) i(2) c(4)] h'(5)])
    then have "\<exists>h''. sift_down h' ?c = Some h'' \<and> valid_heap h'' \<and> mset (entries h'') = mset (entries h')"
      using 1(1) [OF _ refl _ h'(1,2)] h'(4) c(2) False by simp
    moreover have "sift_down h i = sift_down h' ?c"
      using False h'(1) by (subst sift_down.simps) (simp add: Let_def)
    ultimately show ?thesis
      using h'(3) by simp
  qed
qed

text \<open>One changed entry is moved to its place.\<close>

lemma restore_at_restores:
  assumes idx: "indexed (entries h) (positions h)" and i: "i < length (entries h)"
    and ord: "ordered f (length (entries h))"
    and lab: "\<And>k. k < length (entries h) \<Longrightarrow> labels (entries h) k = (f(i := x)) k"
  shows "\<exists>h'. restore_at h i = Some h' \<and> valid_heap h' \<and> mset (entries h') = mset (entries h)"
proof -
  have before: "comes_before (entries h ! i) (entries h ! parent i) \<longleftrightarrow> x < f (parent i)" if "0 < i"
    using lab [of i] lab [of "parent i"] i that parent_less [OF that] by (simp add: comes_before_key)
  show ?thesis
  proof (cases "0 < i \<and> x < f (parent i)")
    case True
    have "ordered_but_up (labels (entries h)) (length (entries h)) i"
      by (rule ordered_but_up_cong [OF ordered_update(1) [OF ord i True] lab])
    with True show ?thesis
      using sift_up_restores [OF idx i] before i by (simp add: restore_at_def)
  next
    case False
    have "ordered_but_down (labels (entries h)) (length (entries h)) i"
      by (rule ordered_but_down_cong [OF ordered_update(2) [OF ord i False] lab])
    with False show ?thesis
      using sift_down_restores [OF idx i] before i by (auto simp: restore_at_def)
  qed
qed

section \<open>Operations on well-formed heaps\<close>

lemma default_valid: "valid_heap DeadlineHeap_default" "deadlines DeadlineHeap_default = Map.empty"
  by (simp_all add: valid_heap_def DeadlineHeap_default_def indexed_def ordered_def deadlines_def)

lemma valid_heap_indexed: "valid_heap h \<Longrightarrow> indexed (entries h) (positions h)"
  by (simp add: valid_heap_def)

lemma deadlines_positions:
  assumes "indexed (entries h) (positions h)"
  shows "deadlines h j = map_option (\<lambda>i. e_due (entries h ! i)) (positions h j)"
proof -
  have eq: "e = \<lparr> e_due = d, e_job = j \<rparr> \<longleftrightarrow> e_job e = j \<and> e_due e = d" for e :: Entry and d
    by (cases e) auto
  have "deadlines h j = Some d \<longleftrightarrow> map_option (\<lambda>i. e_due (entries h ! i)) (positions h j) = Some d" for d
    unfolding deadlines_Some [OF assms] map_option_eq_Some in_set_conv_nth eq
    using indexed_Some [OF assms] by auto
  then show ?thesis by (metis not_None_eq)
qed

lemma ordered_snoc:
  assumes "ordered (labels es) (length es)"
  shows "ordered_but_up (labels (es @ [e])) (Suc (length es)) (length es)"
  unfolding ordered_but_up_def
proof (intro conjI allI impI)
  fix k assume k: "0 < k \<and> k < Suc (length es) \<and> k \<noteq> length es"
  then have "parent k < length es" "k < length es"
    using parent_less [of k] by auto
  with k assms show "labels (es @ [e]) (parent k) \<le> labels (es @ [e]) k"
    by (simp add: ordered_def nth_append)
next
  fix k assume "0 < k \<and> k < Suc (length es) \<and> parent k = length es \<and> 0 < length es"
  then show "labels (es @ [e]) (parent (length es)) \<le> labels (es @ [e]) k"
    using parent_less [of k] by simp
qed

lemma upsert_new:
  assumes "valid_heap h" "positions h j = None"
  shows "\<exists>h'. upsert h j d = Some h' \<and> valid_heap h' \<and> deadlines h' = (deadlines h)(j \<mapsto> d)"
proof -
  let ?e = "\<lparr> e_due = d, e_job = j \<rparr>"
  let ?g = "\<lparr> entries = entries h @ [?e], positions = (positions h)(j \<mapsto> length (entries h)) \<rparr>"
  have idx: "indexed (entries h) (positions h)"
    using assms(1) by (rule valid_heap_indexed)
  then have new: "\<forall>i < length (entries h). e_job (entries h ! i) \<noteq> j"
    using assms(2) by (auto simp: indexed_None)
  have idx': "indexed (entries ?g) (positions ?g)"
    using idx new by (auto simp: indexed_iff nth_append less_Suc_eq)
  have "ordered_but_up (labels (entries ?g)) (length (entries ?g)) (length (entries h))"
    using assms(1) ordered_snoc by (simp add: valid_heap_def)
  then obtain h' where h': "sift_up ?g (length (entries h)) = Some h'" "valid_heap h'"
    "mset (entries h') = mset (entries ?g)"
    using sift_up_restores [OF idx'] by auto
  have "deadlines h' = deadlines ?g"
    using h' idx' by (intro deadlines_mset) (auto simp: valid_heap_def)
  moreover have "deadlines ?g = (deadlines h)(j \<mapsto> d)"
  proof
    fix x
    show "deadlines ?g x = ((deadlines h)(j \<mapsto> d)) x"
      using indexed_Some [OF idx, of x]
      by (cases "positions h x")
        (auto simp: deadlines_positions [OF idx'] deadlines_positions [OF idx] nth_append)
  qed
  ultimately show ?thesis
    using h'(1,2) assms(2) by (simp add: upsert_def Let_def)
qed

lemma upsert_existing:
  assumes "valid_heap h" "positions h j = Some i"
  shows "\<exists>h'. upsert h j d = Some h' \<and> valid_heap h' \<and> deadlines h' = (deadlines h)(j \<mapsto> d)"
proof -
  let ?e = "(entries h ! i)\<lparr>e_due := d\<rparr>"
  let ?g = "h\<lparr>entries := (entries h)[i := ?e]\<rparr>"
  have idx: "indexed (entries h) (positions h)"
    using assms(1) by (rule valid_heap_indexed)
  then have i: "i < length (entries h)" "e_job (entries h ! i) = j"
    using assms(2) by (simp_all add: indexed_Some)
  have job: "e_job ((entries h)[i := ?e] ! k) = e_job (entries h ! k)" if "k < length (entries h)" for k
    using that i(1) by (cases "k = i") simp_all
  have idx': "indexed (entries ?g) (positions ?g)"
    using idx job by (auto simp: indexed_iff)
  have ord: "ordered (labels (entries h)) (length (entries ?g))"
    using assms(1) by (simp add: valid_heap_def)
  have lab: "labels (entries ?g) k = ((labels (entries h))(i := key ?e)) k" if "k < length (entries ?g)" for k
    using that by (cases "k = i") simp_all
  obtain h' where h': "restore_at ?g i = Some h'" "valid_heap h'" "mset (entries h') = mset (entries ?g)"
    using restore_at_restores [OF idx' _ ord lab] i by auto
  have "deadlines h' = deadlines ?g"
    using h' idx' by (intro deadlines_mset) (auto simp: valid_heap_def)
  moreover have "deadlines ?g = (deadlines h)(j \<mapsto> d)"
  proof
    fix j'
    show "deadlines ?g j' = ((deadlines h)(j \<mapsto> d)) j'"
    proof (cases "positions h j'")
      case None
      then show ?thesis
        using assms(2) by (auto simp: deadlines_positions [OF idx'] deadlines_positions [OF idx])
    next
      case (Some k)
      then have "k < length (entries h)" "e_job (entries h ! k) = j'"
        using idx by (simp_all add: indexed_Some)
      with Some assms(2) i show ?thesis
        by (cases "k = i") (auto simp: deadlines_positions [OF idx'] deadlines_positions [OF idx])
    qed
  qed
  ultimately show ?thesis
    using h'(1,2) assms(2) i(1) by (simp add: upsert_def)
qed

lemma upsert_correct:
  "valid_heap h \<Longrightarrow> \<exists>h'. upsert h j d = Some h' \<and> valid_heap h' \<and> deadlines h' = (deadlines h)(j \<mapsto> d)"
  using upsert_new upsert_existing by (cases "positions h j") blast+

text \<open>Removing the entry at a position: the last entry takes its place.\<close>

lemma indexed_snoc:
  "indexed (xs @ [l]) pos \<longleftrightarrow>
     (\<forall>k < length xs. pos (e_job (xs ! k)) = Some k) \<and> pos (e_job l) = Some (length xs) \<and>
     (\<forall>j k. pos j = Some k \<longrightarrow> k < length xs \<and> e_job (xs ! k) = j \<or> k = length xs \<and> e_job l = j)"
proof -
  have entry: "i < length (xs @ [l]) \<and> e_job ((xs @ [l]) ! i) = j \<longleftrightarrow>
      i < length xs \<and> e_job (xs ! i) = j \<or> i = length xs \<and> e_job l = j" for i j
    by (auto simp: nth_append)
  have indices: "(\<forall>i < length (xs @ [l]). pos (e_job ((xs @ [l]) ! i)) = Some i) \<longleftrightarrow>
      (\<forall>k < length xs. pos (e_job (xs ! k)) = Some k) \<and> pos (e_job l) = Some (length xs)"
    by (simp add: All_less_Suc nth_append conj_commute)
  show ?thesis
    unfolding indexed_def entry indices by (simp only: conj_assoc)
qed

lemma indexed_butlast:
  assumes "indexed (xs @ [l]) pos"
  shows "indexed xs (pos(e_job l := None))"
proof -
  have "e_job (xs ! k) \<noteq> e_job l" if "k < length xs" for k
    using assms that unfolding indexed_snoc by (metis nat_neq_iff option.inject)
  then show ?thesis
    using assms unfolding indexed_snoc by (auto simp: indexed_def)
qed

lemma indexed_replace:
  assumes "indexed (xs @ [l]) pos" "i < length xs"
  shows "indexed (xs[i := l]) (pos(e_job (xs ! i) := None, e_job l \<mapsto> i))"
proof -
  have "e_job (xs ! k) \<noteq> e_job l" if "k < length xs" for k
    using assms(1) that unfolding indexed_snoc by (metis nat_neq_iff option.inject)
  moreover have "e_job (xs ! k) \<noteq> e_job (xs ! i)" if "k < length xs" "k \<noteq> i" for k
    using assms that unfolding indexed_snoc by (metis option.inject)
  moreover note assms [unfolded indexed_snoc]
  ultimately show ?thesis
    unfolding indexed_def by (auto simp: nth_list_update split: if_splits)
qed

lemma ordered_prefix: "ordered (labels (xs @ [l])) (Suc (length xs)) \<Longrightarrow> ordered (labels xs) (length xs)"
  unfolding ordered_def using parent_less
  by (metis (no_types, lifting) butlast_snoc less_SucI less_trans nth_butlast)

lemma remove_last:
  assumes "valid_heap h" "entries h = xs @ [l]"
  shows "\<exists>h'. remove h (e_job l) = Some (True, h') \<and> valid_heap h'
     \<and> deadlines h' = (deadlines h)(e_job l := None) \<and> length (entries h') < length (entries h)"
proof -
  have idx: "indexed (xs @ [l]) (positions h)"
    using valid_heap_indexed [OF assms(1)] by (simp add: assms(2))
  let ?h' = "\<lparr> entries = xs, positions = (positions h)(e_job l := None) \<rparr>"
  have idx': "indexed (entries ?h') (positions ?h')"
    using indexed_butlast [OF idx] by simp
  have "valid_heap ?h'"
    using assms(1) idx' ordered_prefix [of xs l] by (simp add: valid_heap_def assms(2))
  moreover have "deadlines ?h' = (deadlines h)(e_job l := None)"
  proof
    fix j
    have "positions h j = Some k \<Longrightarrow> j \<noteq> e_job l \<Longrightarrow> k < length xs" for k
      using idx by (auto simp: indexed_snoc)
    then show "deadlines ?h' j = ((deadlines h)(e_job l := None)) j"
      by (cases "positions h j")
        (auto simp: deadlines_positions [OF idx'] deadlines_positions [OF valid_heap_indexed [OF assms(1)]]
          assms(2) nth_append)
  qed
  ultimately show ?thesis
    using idx by (simp add: remove_def Let_def assms(2) indexed_snoc)
qed

lemma remove_inner:
  assumes "valid_heap h" "entries h = xs @ [l]" "i < length xs"
  shows "\<exists>h'. remove h (e_job (xs ! i)) = Some (True, h') \<and> valid_heap h'
     \<and> deadlines h' = (deadlines h)(e_job (xs ! i) := None) \<and> length (entries h') < length (entries h)"
proof -
  let ?g = "\<lparr> entries = xs[i := l], positions = (positions h)(e_job (xs ! i) := None, e_job l \<mapsto> i) \<rparr>"
  have idx: "indexed (xs @ [l]) (positions h)"
    using valid_heap_indexed [OF assms(1)] by (simp add: assms(2))
  have idx': "indexed (entries ?g) (positions ?g)"
    using indexed_replace [OF idx assms(3)] by simp
  have ord: "ordered (labels xs) (length (entries ?g))"
    using assms(1) ordered_prefix [of xs l] by (simp add: valid_heap_def assms(2))
  have lab: "labels (entries ?g) k = ((labels xs)(i := key l)) k" if "k < length (entries ?g)" for k
    using that by (cases "k = i") simp_all
  obtain h' where h': "restore_at ?g i = Some h'" "valid_heap h'" "mset (entries h') = mset (entries ?g)"
    using restore_at_restores [OF idx' _ ord lab] assms(3) by auto
  have "deadlines h' = deadlines ?g"
    using h' idx' by (intro deadlines_mset) (auto simp: valid_heap_def)
  moreover have "deadlines ?g = (deadlines h)(e_job (xs ! i) := None)"
  proof
    fix j
    have pi: "positions h (e_job (xs ! i)) = Some i" and pl: "positions h (e_job l) = Some (length xs)"
      using idx assms(3) by (auto simp: indexed_snoc)
    have pj: "positions h j = Some k \<Longrightarrow> j \<noteq> e_job l \<Longrightarrow> k < length xs \<and> (j \<noteq> e_job (xs ! i) \<longrightarrow> k \<noteq> i)" for k
      using idx by (auto simp: indexed_snoc)
    show "deadlines ?g j = ((deadlines h)(e_job (xs ! i) := None)) j"
      using pi pl pj assms(3)
      by (cases "positions h j"; cases "j = e_job l")
        (auto simp: deadlines_positions [OF idx'] deadlines_positions [OF valid_heap_indexed [OF assms(1)]]
          assms(2) nth_append nth_list_update)
  qed
  moreover have "length (entries h') < length (entries h)"
    using arg_cong [OF h'(3), of size] by (simp add: assms(2))
  moreover have "positions h (e_job (xs ! i)) = Some i"
    using idx assms(3) by (simp add: indexed_snoc)
  ultimately show ?thesis
    using h'(1,2) assms(3) by (simp add: remove_def Let_def assms(2))
qed

lemma remove_correct:
  assumes "valid_heap h"
  shows "\<exists>h'. remove h j = Some (deadlines h j \<noteq> None, h') \<and> valid_heap h'
     \<and> deadlines h' = (deadlines h)(j := None)
     \<and> (deadlines h j \<noteq> None \<longrightarrow> length (entries h') < length (entries h))"
proof (cases "positions h j")
  case None
  then have "deadlines h j = None"
    using assms by (simp add: deadlines_positions [OF valid_heap_indexed])
  with None assms show ?thesis
    by (simp add: remove_def fun_upd_idem)
next
  case (Some i)
  then have "deadlines h j \<noteq> None"
    using assms by (simp add: deadlines_positions [OF valid_heap_indexed])
  moreover obtain xs l where es: "entries h = xs @ [l]"
    using indexed_Some [OF valid_heap_indexed [OF assms], of j i] Some by (cases "entries h" rule: rev_cases) auto
  moreover have "i = length xs \<and> j = e_job l \<or> i < length xs \<and> j = e_job (xs ! i)"
    using valid_heap_indexed [OF assms] Some unfolding es indexed_snoc by auto
  ultimately show ?thesis
    using remove_last [OF assms es] remove_inner [OF assms es, of i] by auto
qed

section \<open>The head, and popping what is due\<close>

lemma head_least:
  assumes "valid_heap h" "entries h \<noteq> []"
  shows "deadlines h (e_job (hd (entries h))) = Some (e_due (hd (entries h)))"
    and "deadlines h j = Some d \<Longrightarrow> key (hd (entries h)) \<le> (d, j)"
proof -
  note idx = valid_heap_indexed [OF assms(1)]
  have "hd (entries h) = \<lparr> e_due = e_due (hd (entries h)), e_job = e_job (hd (entries h)) \<rparr>"
    by (cases "hd (entries h)") simp
  then show "deadlines h (e_job (hd (entries h))) = Some (e_due (hd (entries h)))"
    using deadlines_Some [OF idx] assms(2) hd_in_set by metis
  assume "deadlines h j = Some d"
  then obtain i where "i < length (entries h)" "entries h ! i = \<lparr> e_due = d, e_job = j \<rparr>"
    by (auto simp: deadlines_Some [OF idx] in_set_conv_nth)
  moreover have "labels (entries h) 0 \<le> labels (entries h) i" if "i < length (entries h)" for i
    using assms(1) that ordered_root_least by (auto simp: valid_heap_def)
  ultimately show "key (hd (entries h)) \<le> (d, j)"
    using assms(2) by (metis (no_types, lifting) Entry.select_convs hd_conv_nth key_def)
qed

lemma deadlines_empty: "entries h = [] \<longleftrightarrow> deadlines h = Map.empty" if "valid_heap h"
  using head_least(1) [OF that] by (auto simp: deadlines_def)

text \<open>The jobs due at a time, and the deadlines that remain after they are taken.\<close>

definition due_jobs :: "('j \<rightharpoonup> 'd::linorder) \<Rightarrow> 'd \<Rightarrow> 'j set" where
  "due_jobs m now = {j. \<exists>d. m j = Some d \<and> d \<le> now}"

definition still_waiting :: "('j \<rightharpoonup> 'd::linorder) \<Rightarrow> 'd \<Rightarrow> 'j \<rightharpoonup> 'd" where
  "still_waiting m now = (\<lambda>j. case m j of None \<Rightarrow> None | Some d \<Rightarrow> if d \<le> now then None else Some d)"

text \<open>Jobs by deadline, ties by job.\<close>

definition by_deadline :: "('j::linorder \<rightharpoonup> 'd::linorder) \<Rightarrow> 'j \<Rightarrow> 'j \<Rightarrow> bool" where
  "by_deadline m a b = ((the (m a), a) < (the (m b), b))"

lemma due_jobs_remove: "m j = Some d \<Longrightarrow> d \<le> now \<Longrightarrow> due_jobs m now = insert j (due_jobs (m(j := None)) now)"
  by (auto simp: due_jobs_def)

lemma still_waiting_remove: "m j = Some d \<Longrightarrow> d \<le> now \<Longrightarrow> still_waiting (m(j := None)) now = still_waiting m now"
  by (auto simp: still_waiting_def fun_eq_iff)

lemma nothing_due:
  "due_jobs m now = {} \<Longrightarrow> still_waiting m now = m"
  unfolding due_jobs_def still_waiting_def by (auto simp: fun_eq_iff split: option.splits)

definition pop_result ::
  "('j::linorder \<rightharpoonup> 'd::linorder) \<Rightarrow> 'd \<Rightarrow> 'j list \<Rightarrow> ('j \<rightharpoonup> 'd) \<Rightarrow> bool" where
  "pop_result m now js m' =
     (m' = still_waiting m now \<and> set js = due_jobs m now \<and> sorted_wrt (by_deadline m) js)"

lemma pop_result_Nil: "due_jobs m now = {} \<Longrightarrow> pop_result m now [] m"
  by (simp add: pop_result_def nothing_due)

lemma pop_result_Cons:
  assumes "m j = Some d" "d \<le> now" "pop_result (m(j := None)) now js m'"
    and least: "\<And>j' d'. m j' = Some d' \<Longrightarrow> (d, j) \<le> (d', j')"
  shows "pop_result m now (j # js) m'"
proof -
  have in_js: "j' \<noteq> j \<and> (\<exists>d'. m j' = Some d')" if "j' \<in> set js" for j'
    using assms(3) that by (auto simp: pop_result_def due_jobs_def split: if_splits)
  have "by_deadline m j j'" if "j' \<in> set js" for j'
    using in_js [OF that] least [of j'] assms(1) by (auto simp: by_deadline_def)
  moreover have "sorted_wrt (by_deadline m) js"
    using assms(3) in_js unfolding pop_result_def
    by (auto simp: by_deadline_def elim!: sorted_wrt_mono_rel [rotated])
  ultimately show ?thesis
    using assms(1-3) by (simp add: pop_result_def due_jobs_remove still_waiting_remove)
qed

lemma pop_due_loop_correct:
  "valid_heap h \<Longrightarrow>
   \<exists>js h'. pop_due_loop now h acc = Some (acc @ js, h') \<and> valid_heap h'
     \<and> pop_result (deadlines h) now js (deadlines h')"
proof (induction "length (entries h)" arbitrary: h acc rule: less_induct)
  case less
  show ?case
  proof (cases "entries h \<noteq> [] \<and> e_due (hd (entries h)) \<le> now")
    case True
    let ?j = "e_job (hd (entries h))"
    note head = head_least [OF less.prems(1) conjunct1 [OF True]]
    obtain h1 where h1: "remove h ?j = Some (True, h1)" "valid_heap h1"
      "deadlines h1 = (deadlines h)(?j := None)" "length (entries h1) < length (entries h)"
      using remove_correct [OF less.prems, of ?j] head(1) by auto
    then obtain js h' where h': "pop_due_loop now h1 (acc @ [?j]) = Some ((acc @ [?j]) @ js, h')"
      "valid_heap h'" "pop_result (deadlines h1) now js (deadlines h')"
      using less.hyps [OF h1(4,2), of "acc @ [?j]"] by blast
    have "pop_result (deadlines h) now (?j # js) (deadlines h')"
      using pop_result_Cons [of "deadlines h", OF head(1)] True head(2) h'(3) h1(3) by (simp add: key_def)
    moreover have "pop_due_loop now h acc = pop_due_loop now h1 (acc @ [?j])"
      using True h1(1) by (subst pop_due_loop.simps) (simp add: Let_def)
    ultimately show ?thesis
      using h' by (intro exI [of _ "?j # js"] exI [of _ h']) simp
  next
    case False
    have "due_jobs (deadlines h) now = {}"
    proof (cases "entries h = []")
      case True
      then show ?thesis by (simp add: due_jobs_def deadlines_def)
    next
      case ne: False
      have "now < d" if "deadlines h j = Some d" for j d
        using head_least(2) [OF less.prems ne that] False ne by (auto simp: key_def)
      then show ?thesis by (auto simp: due_jobs_def not_le [symmetric])
    qed
    then have "pop_result (deadlines h) now [] (deadlines h)"
      by (rule pop_result_Nil)
    with False less.prems show ?thesis
      by (subst pop_due_loop.simps) auto
  qed
qed

lemma pop_due_correct:
  "valid_heap h \<Longrightarrow> \<exists>js h'. pop_due h now = Some (js, h') \<and> valid_heap h'
     \<and> pop_result (deadlines h) now js (deadlines h')"
  using pop_due_loop_correct [of h now "[]"] by (simp add: pop_due_def)

lemma next_deadline_correct:
  assumes "valid_heap h"
  shows "next_deadline h = None \<longleftrightarrow> deadlines h = Map.empty"
    and "next_deadline h = Some d \<Longrightarrow> d \<in> ran (deadlines h) \<and> (\<forall>d' \<in> ran (deadlines h). d \<le> d')"
proof -
  show "next_deadline h = None \<longleftrightarrow> deadlines h = Map.empty"
    using deadlines_empty [OF assms] by (auto simp: next_deadline_def split: list.splits)
  assume "next_deadline h = Some d"
  then have ne: "entries h \<noteq> []" and d: "d = e_due (hd (entries h))"
    by (auto simp: next_deadline_def split: list.splits)
  have "d \<le> d'" if "deadlines h j = Some d'" for j d'
    using head_least(2) [OF assms ne that] by (auto simp: key_def d)
  then show "d \<in> ran (deadlines h) \<and> (\<forall>d' \<in> ran (deadlines h). d \<le> d')"
    using head_least(1) [OF assms ne] by (auto simp: ran_def d)
qed

section \<open>The contract of a deadline queue\<close>

text \<open>Scheduling a list of deadlines in order, with any queue's insertion.\<close>

fun upsert_all :: "('q \<Rightarrow> 'j \<Rightarrow> 'd \<Rightarrow> 'q option) \<Rightarrow> 'q \<Rightarrow> ('j \<times> 'd) list \<Rightarrow> 'q option" where
  "upsert_all ups q [] = Some q"
| "upsert_all ups q ((j, d) # xs) = Option.bind (ups q j d) (\<lambda>q'. upsert_all ups q' xs)"

locale deadline_queue =
  fixes inv :: "'q \<Rightarrow> bool"
    and dues :: "'q \<Rightarrow> 'j::linorder \<rightharpoonup> 'd::linorder"
    and new :: 'q
    and ups :: "'q \<Rightarrow> 'j \<Rightarrow> 'd \<Rightarrow> 'q option"
    and rem :: "'q \<Rightarrow> 'j \<Rightarrow> (bool \<times> 'q) option"
    and nxt :: "'q \<Rightarrow> 'd option"
    and pop :: "'q \<Rightarrow> 'd \<Rightarrow> ('j list \<times> 'q) option"
    and emp :: "'q \<Rightarrow> bool"
  assumes new: "inv new" "dues new = Map.empty"
    and ups: "inv q \<Longrightarrow> \<exists>q'. ups q j d = Some q' \<and> inv q' \<and> dues q' = (dues q)(j \<mapsto> d)"
    and rem: "inv q \<Longrightarrow>
      \<exists>q'. rem q j = Some (dues q j \<noteq> None, q') \<and> inv q' \<and> dues q' = (dues q)(j := None)"
    and nxt_None: "inv q \<Longrightarrow> nxt q = None \<longleftrightarrow> dues q = Map.empty"
    and nxt_Some: "inv q \<Longrightarrow> nxt q = Some d \<Longrightarrow> d \<in> ran (dues q) \<and> (\<forall>d' \<in> ran (dues q). d \<le> d')"
    and pop: "inv q \<Longrightarrow>
      \<exists>js q'. pop q now = Some (js, q') \<and> inv q' \<and> pop_result (dues q) now js (dues q')"
    and emp: "inv q \<Longrightarrow> emp q \<longleftrightarrow> dues q = Map.empty"
begin

lemma upsert_all_dues:
  "inv q \<Longrightarrow> \<exists>q'. upsert_all ups q xs = Some q' \<and> inv q' \<and> dues q' = dues q ++ map_of (rev xs)"
proof (induction xs arbitrary: q)
  case Nil
  then show ?case by simp
next
  case (Cons x xs)
  obtain j d where x: "x = (j, d)" by fastforce
  obtain q1 where q1: "ups q j d = Some q1" "inv q1" "dues q1 = (dues q)(j \<mapsto> d)"
    using ups [OF Cons.prems] by blast
  have "dues q1 ++ map_of (rev xs) = dues q ++ map_of (rev (x # xs))"
    by (auto simp: x q1(3) map_add_def fun_eq_iff split: option.splits)
  with Cons.IH [OF q1(2)] show ?case
    by (simp add: x q1(1))
qed

lemma pop_eq:
  assumes "inv q" "pop q now = Some (js, q')"
  shows "inv q'" "pop_result (dues q) now js (dues q')"
  using pop [OF assms(1), of now] assms(2) by auto

text \<open>Nothing is late after a pop.\<close>

lemma next_after_pop:
  assumes "inv q" "pop q now = Some (js, q')" "nxt q' = Some d"
  shows "now < d"
proof -
  have "d \<in> ran (still_waiting (dues q) now)"
    using nxt_Some [OF pop_eq(1) [OF assms(1,2)] assms(3)] pop_eq(2) [OF assms(1,2)]
    by (simp add: pop_result_def)
  then show ?thesis
    by (auto simp: ran_def still_waiting_def split: option.splits if_splits)
qed

lemma pop_twice:
  assumes "inv q" "pop q now = Some (js, q')"
  shows "\<exists>q''. pop q' now = Some ([], q'') \<and> dues q'' = dues q'"
proof -
  have "due_jobs (dues q') now = {}"
    using pop_eq(2) [OF assms]
    by (auto simp: pop_result_def due_jobs_def still_waiting_def split: option.splits if_splits)
  then show ?thesis
    using pop [OF pop_eq(1) [OF assms], of now] by (auto simp: pop_result_def nothing_due)
qed

text \<open>A removed job is not popped, at any time.\<close>

lemma removed_not_popped:
  assumes "inv q" "rem q j = Some (b, q1)" "pop q1 now = Some (js, q2)"
  shows "j \<notin> set js"
proof -
  have "inv q1" "dues q1 = (dues q)(j := None)"
    using rem [OF assms(1), of j] assms(2) by auto
  then show ?thesis
    using pop_eq(2) [OF _ assms(3)] by (simp add: pop_result_def due_jobs_def)
qed

end

interpretation dh: deadline_queue valid_heap deadlines DeadlineHeap_default upsert remove
  next_deadline pop_due heap_is_empty
proof unfold_locales
  show "valid_heap DeadlineHeap_default" "deadlines DeadlineHeap_default = Map.empty"
    by (rule default_valid)+
next
  fix q assume q: "valid_heap q"
  show "\<exists>q'. upsert q j d = Some q' \<and> valid_heap q' \<and> deadlines q' = (deadlines q)(j \<mapsto> d)" for j d
    using q by (rule upsert_correct)
  show "\<exists>q'. remove q j = Some (deadlines q j \<noteq> None, q') \<and> valid_heap q'
      \<and> deadlines q' = (deadlines q)(j := None)" for j
    using remove_correct [OF q, of j] by blast
  show "next_deadline q = None \<longleftrightarrow> deadlines q = Map.empty"
    using q by (rule next_deadline_correct)
  show "d \<in> ran (deadlines q) \<and> (\<forall>d' \<in> ran (deadlines q). d \<le> d')" if "next_deadline q = Some d" for d
    using next_deadline_correct(2) [OF q that] .
  show "\<exists>js q'. pop_due q now = Some (js, q') \<and> valid_heap q'
      \<and> pop_result (deadlines q) now js (deadlines q')" for now
    using q by (rule pop_due_correct)
  show "heap_is_empty q \<longleftrightarrow> deadlines q = Map.empty"
    using deadlines_empty [OF q] by (simp add: heap_is_empty_def)
qed

section \<open>Properties\<close>

text \<open>
  C4. On a well-formed heap \<open>upsert\<close> and \<open>remove\<close> return without indexing out of range,
  keep the heap order and the position index, and update the map of deadlines the heap stands
  for: one entry per job, the newest deadline wins, and \<open>remove\<close> tells whether the job was
  there.
\<close>

theorem heap_update_refines:
  assumes "valid_heap h"
  shows "(\<exists>h'. upsert h j d = Some h' \<and> valid_heap h' \<and> deadlines h' = (deadlines h)(j \<mapsto> d))
    \<and> (\<exists>h'. remove h j = Some (deadlines h j \<noteq> None, h') \<and> valid_heap h'
      \<and> deadlines h' = (deadlines h)(j := None))"
  using dh.ups [OF assms] dh.rem [OF assms] by (rule conjI)

theorem heap_update_refines_witness:
  "valid_heap DeadlineHeap_default \<and>
   (\<exists>h'. upsert DeadlineHeap_default (JobId 1) (ElapsedInstant 5) = Some h' \<and> valid_heap h'
      \<and> deadlines h' = (deadlines DeadlineHeap_default)(JobId 1 \<mapsto> ElapsedInstant 5))"
  using heap_update_refines [OF default_valid(1)] default_valid(1) by blast

text \<open>
  C1. \<open>pop_due\<close> terminates on every well-formed heap.  It returns exactly the jobs whose
  deadline has come, each once, by deadline and then by job; it keeps the deadlines of all
  others, and the next deadline afterwards lies strictly after now.
\<close>

theorem heap_pop_due_exact:
  assumes "valid_heap h"
  shows "\<exists>js h'. pop_due h now = Some (js, h') \<and> valid_heap h'
    \<and> set js = due_jobs (deadlines h) now \<and> distinct js \<and> sorted_wrt (by_deadline (deadlines h)) js
    \<and> deadlines h' = still_waiting (deadlines h) now
    \<and> (next_deadline h' = None \<or> now < the (next_deadline h'))"
proof -
  obtain js h' where h': "pop_due h now = Some (js, h')" "valid_heap h'"
    "pop_result (deadlines h) now js (deadlines h')"
    using dh.pop [OF assms] by blast
  then have srt: "sorted_wrt (by_deadline (deadlines h)) js"
    by (simp add: pop_result_def)
  then have "distinct js"
    by (induction js) (auto simp: by_deadline_def)
  then show ?thesis
    using h' srt dh.next_after_pop [OF assms h'(1)]
    by (cases "next_deadline h'") (auto simp: pop_result_def)
qed

theorem heap_pop_due_exact_witness:
  "\<exists>h js h'. upsert DeadlineHeap_default (JobId 1) (ElapsedInstant 5) = Some h
     \<and> pop_due h (ElapsedInstant 9) = Some (js, h') \<and> set js = {JobId 1}"
proof -
  obtain h where h: "upsert DeadlineHeap_default (JobId 1) (ElapsedInstant 5) = Some h" "valid_heap h"
    "deadlines h = [JobId 1 \<mapsto> ElapsedInstant 5]"
    using dh.ups [OF dh.new(1), of "JobId 1" "ElapsedInstant 5"] dh.new(2) by auto
  have "due_jobs (deadlines h) (ElapsedInstant 9) = {JobId 1}"
    by (auto simp: h(3) due_jobs_def less_eq_ElapsedInstant_def split: if_splits)
  then show ?thesis
    using heap_pop_due_exact [OF h(2), of "ElapsedInstant 9"] h(1) by auto
qed

end
