(* ===== verification/Loop_Driver.thy ===== *)
theory Loop_Driver
  imports Deadline_Heap
begin

text \<open>
  The supervisor's event loop (\<open>src/supervisor/loop_driver.rs\<close>).  One iteration of
  \<open>run_loop\<close> reads the clock, fires what is due, or waits for an event.  The clock readings
  and the channel's answer are the inputs of an iteration; the loop is a recursion on the
  list of inputs.  It is proved to refine a scheduler on maps from jobs to deadlines.
\<close>

section \<open>The code\<close>

datatype DeadlineReconciliationError = Overflow

datatype SupervisorEvent = Schedule JobId ElapsedInstant | Shutdown

text \<open>\<open>Receiver::recv_timeout\<close>: an event, or one of its two errors.\<close>

datatype Received = Event SupervisorEvent | Timeout | Disconnected

text \<open>A \<open>std::time::Duration\<close> is its number of nanoseconds.\<close>

definition wait_until :: "ElapsedInstant \<Rightarrow> ElapsedInstant option \<Rightarrow> nat option \<Rightarrow> nat option" where
  "wait_until now deadline idle_timeout =
     (case deadline of
        None \<Rightarrow> idle_timeout
      | Some deadline \<Rightarrow>
          (let nanos = saturating_sub (as_nanos deadline) (as_nanos now);
               deadline_wait = (if unat nanos < 2 ^ 64 then unat nanos else 2 ^ 64 - 1)
           in Some (case idle_timeout of None \<Rightarrow> deadline_wait | Some idle \<Rightarrow> min deadline_wait idle)))"

text \<open>What an iteration does: calls \<open>on_due\<close>, goes round again, or leaves the loop.\<close>

datatype Outcome = Fired "JobId list" | Continued | Stopped

record Tick =
  first_now :: ElapsedInstant
  second_now :: ElapsedInstant
  receive :: "nat option \<Rightarrow> Received"

definition loop_iteration ::
  "nat option \<Rightarrow> Tick \<Rightarrow> DeadlineHeap \<Rightarrow> (Outcome \<times> DeadlineHeap) option" where
  "loop_iteration idle_timeout tick heap =
     Option.bind (pop_due heap (first_now tick))
       (\<lambda>(due, heap).
          if due \<noteq> [] then Some (Fired due, heap)
          else
            (let empty = heap_is_empty heap;
                 wait = wait_until (second_now tick) (next_deadline heap) idle_timeout
             in case receive tick wait of
                  Event (Schedule job deadline) \<Rightarrow> map_option (Pair Continued) (upsert heap job deadline)
                | Event Shutdown \<Rightarrow> Some (Stopped, heap)
                | Disconnected \<Rightarrow> Some (Stopped, heap)
                | Timeout \<Rightarrow> Some (if empty then Stopped else Continued, heap)))"

text \<open>The loop: the batches passed to \<open>on_due\<close>, the heap, and whether the loop was left.\<close>

fun run_loop ::
  "nat option \<Rightarrow> Tick list \<Rightarrow> DeadlineHeap \<Rightarrow> (JobId list list \<times> DeadlineHeap \<times> bool) option"
where
  "run_loop idle_timeout [] heap = Some ([], heap, False)"
| "run_loop idle_timeout (tick # ticks) heap =
     Option.bind (loop_iteration idle_timeout tick heap)
       (\<lambda>(outcome, heap').
          case outcome of
            Stopped \<Rightarrow> Some ([], heap', True)
          | Continued \<Rightarrow> run_loop idle_timeout ticks heap'
          | Fired due \<Rightarrow>
              map_option (\<lambda>(batches, rest). (due # batches, rest)) (run_loop idle_timeout ticks heap'))"

definition reconcile_wall_schedule ::
  "UtcTimestamp \<Rightarrow> ElapsedInstant \<Rightarrow> UtcTimestamp \<Rightarrow> (DeadlineReconciliationError, ElapsedInstant) result"
where
  "reconcile_wall_schedule wall_now elapsed_now due_utc =
     (let remaining = due_utc - wall_now
      in if remaining \<le> 0 then Inr elapsed_now
         else try_bind
           (if remaining < 2 ^ 128 then Inr (of_int remaining :: u128)
            else Inl DeadlineReconciliationError.Overflow)
           (\<lambda>remaining. map_ok ElapsedInstant
              (ok_or DeadlineReconciliationError.Overflow (checked_add (as_nanos elapsed_now) remaining))))"

section \<open>Waiting\<close>

lemma wait_until_Some:
  assumes "wait_until now (Some d) idle = Some w"
  shows "w \<le> unat (as_nanos d) - unat (as_nanos now)"
  using assms by (auto simp: wait_until_def Let_def unat_saturating_sub split: if_splits option.splits)

lemma wait_until_exact:
  assumes "unat (as_nanos d) - unat (as_nanos now) < 2 ^ 64"
  shows "wait_until now (Some d) None = Some (unat (as_nanos d) - unat (as_nanos now))"
  using assms by (simp add: wait_until_def Let_def unat_saturating_sub)

section \<open>Refinement\<close>

text \<open>The scheduler the loop implements, as steps on the map of deadlines.\<close>

inductive scheduler_step ::
  "Tick \<Rightarrow> (JobId \<rightharpoonup> ElapsedInstant) \<Rightarrow> Outcome \<Rightarrow> (JobId \<rightharpoonup> ElapsedInstant) \<Rightarrow> bool" for tick m
where
  fire: "due_jobs m (first_now tick) \<noteq> {} \<Longrightarrow> pop_result m (first_now tick) js m' \<Longrightarrow>
     scheduler_step tick m (Fired js) m'"
| schedule: "due_jobs m (first_now tick) = {} \<Longrightarrow> receive tick w = Event (Schedule j d) \<Longrightarrow>
     scheduler_step tick m Continued (m(j \<mapsto> d))"
| idle: "due_jobs m (first_now tick) = {} \<Longrightarrow> receive tick w = Timeout \<Longrightarrow> m \<noteq> Map.empty \<Longrightarrow>
     scheduler_step tick m Continued m"
| idle_stop: "receive tick w = Timeout \<Longrightarrow> m = Map.empty \<Longrightarrow> scheduler_step tick m Stopped m"
| stop: "due_jobs m (first_now tick) = {} \<Longrightarrow> receive tick w \<in> {Event Shutdown, Disconnected} \<Longrightarrow>
     scheduler_step tick m Stopped m"

inductive scheduler_run ::
  "Tick list \<Rightarrow> (JobId \<rightharpoonup> ElapsedInstant) \<Rightarrow> JobId list list \<Rightarrow> (JobId \<rightharpoonup> ElapsedInstant) \<Rightarrow> bool \<Rightarrow> bool"
where
  nil: "scheduler_run [] m [] m False"
| stopped: "scheduler_step t m Stopped m' \<Longrightarrow> scheduler_run (t # ts) m [] m' True"
| continued: "scheduler_step t m Continued m1 \<Longrightarrow> scheduler_run ts m1 bs m' b \<Longrightarrow>
     scheduler_run (t # ts) m bs m' b"
| fired: "scheduler_step t m (Fired js) m1 \<Longrightarrow> scheduler_run ts m1 bs m' b \<Longrightarrow>
     scheduler_run (t # ts) m (js # bs) m' b"

lemma loop_iteration_refines:
  assumes "valid_heap h"
  shows "\<exists>out h'. loop_iteration idle_timeout tick h = Some (out, h') \<and> valid_heap h'
     \<and> scheduler_step tick (deadlines h) out (deadlines h')"
proof -
  obtain js h1 where h1: "pop_due h (first_now tick) = Some (js, h1)" "valid_heap h1"
    and res: "pop_result (deadlines h) (first_now tick) js (deadlines h1)"
    using dh.pop [OF assms, of "first_now tick"] by blast
  show ?thesis
  proof (cases "js = []")
    case False
    then have "due_jobs (deadlines h) (first_now tick) \<noteq> {}"
      using res by (auto simp: pop_result_def)
    then show ?thesis
      using False h1 res by (auto simp: loop_iteration_def intro: scheduler_step.fire)
  next
    case True
    then have none: "due_jobs (deadlines h) (first_now tick) = {}"
      using res by (simp add: pop_result_def)
    then have same: "deadlines h1 = deadlines h"
      using res by (simp add: pop_result_def nothing_due)
    let ?w = "wait_until (second_now tick) (next_deadline h1) idle_timeout"
    show ?thesis
    proof (cases "receive tick ?w")
      case (Event ev)
      then show ?thesis
        using True h1 none same dh.ups [OF h1(2)]
        by (cases ev) (fastforce simp: loop_iteration_def Let_def intro: scheduler_step.intros)+
    next
      case Timeout
      then show ?thesis
        using True h1 none same dh.emp [OF h1(2)]
        by (auto simp: loop_iteration_def Let_def intro: scheduler_step.intros)
    next
      case Disconnected
      then have "scheduler_step tick (deadlines h) Stopped (deadlines h1)"
        using none same scheduler_step.stop by auto
      then show ?thesis
        using True h1 Disconnected by (simp add: loop_iteration_def Let_def)
    qed
  qed
qed

lemma run_loop_refines_scheduler:
  "valid_heap h \<Longrightarrow> \<exists>bs h' b. run_loop idle_timeout ts h = Some (bs, h', b) \<and> valid_heap h'
     \<and> scheduler_run ts (deadlines h) bs (deadlines h') b"
proof (induction ts arbitrary: h)
  case Nil
  then show ?case by (auto intro: scheduler_run.nil)
next
  case (Cons t ts)
  obtain out h1 where h1: "loop_iteration idle_timeout t h = Some (out, h1)" "valid_heap h1"
    "scheduler_step t (deadlines h) out (deadlines h1)"
    using loop_iteration_refines [OF Cons.prems] by blast
  from Cons.IH [OF h1(2)] obtain bs h' b where
    "run_loop idle_timeout ts h1 = Some (bs, h', b)" "valid_heap h'"
    "scheduler_run ts (deadlines h1) bs (deadlines h') b"
    by blast
  then show ?case
    using h1 by (cases out) (auto intro: scheduler_run.intros)
qed

section \<open>Mapping wall-clock deadlines onto elapsed time\<close>

lemma unat_of_int_u128: "0 \<le> x \<Longrightarrow> x < 2 ^ 128 \<Longrightarrow> unat (of_int x :: u128) = nat x"
  by (simp add: unsigned_of_int take_bit_int_eq_self)

lemma reconcile_wall_schedule_eq_Inr:
  "reconcile_wall_schedule wall el due = Inr t \<longleftrightarrow>
     unat (as_nanos t) = unat (as_nanos el) + nat (due - wall)"
proof (cases "due - wall \<le> 0")
  case True
  then show ?thesis
    by (cases el; cases t) (auto simp: reconcile_wall_schedule_def word_unat_eq_iff)
next
  case pos: False
  have bound: "unat (as_nanos t) < 2 ^ 128"
    using unsigned_less [of "as_nanos t", where 'a = nat] by simp
  show ?thesis
  proof (cases "due - wall < 2 ^ 128")
    case True
    have "unat (of_int (due - wall) :: u128) = nat (due - wall)"
      using pos True by (intro unat_of_int_u128) simp_all
    then show ?thesis
      using pos True by (cases t) (auto simp: reconcile_wall_schedule_def Let_def result_simps checked_simps)
  next
    case False
    then show ?thesis
      using pos bound by (auto simp: reconcile_wall_schedule_def Let_def)
  qed
qed

section \<open>Properties\<close>

text \<open>
  C2. From a well-formed heap the event loop never indexes out of range, and refines the
  scheduler on deadline maps: each batch handed to \<open>on_due\<close> is exactly the set of jobs due at
  the clock reading, in deadline order, a rescheduled job fires at its newest deadline only,
  and an idle timeout ends the loop only when nothing is scheduled.
\<close>

theorem run_loop_refines:
  assumes "valid_heap h"
  shows "\<exists>bs h' stopped. run_loop idle_timeout ticks h = Some (bs, h', stopped) \<and> valid_heap h'
    \<and> scheduler_run ticks (deadlines h) bs (deadlines h') stopped"
  using assms by (rule run_loop_refines_scheduler)

theorem run_loop_refines_witness:
  "\<exists>bs h' stopped.
     run_loop None [\<lparr> first_now = ElapsedInstant 1, second_now = ElapsedInstant 1,
         receive = (\<lambda>_. Event Shutdown) \<rparr>] DeadlineHeap_default = Some (bs, h', stopped)
     \<and> valid_heap h'"
  using run_loop_refines [OF dh.new(1)] by blast

text \<open>
  The loop never sleeps past the next deadline, whatever the idle timeout; without one it
  sleeps exactly until the deadline when that is less than \<open>2^64\<close> nanoseconds away.
\<close>

theorem wait_until_not_late:
  "(\<exists>w. wait_until now (Some d) idle = Some w \<and> w \<le> unat (as_nanos d) - unat (as_nanos now))
   \<and> (unat (as_nanos d) - unat (as_nanos now) < 2 ^ 64 \<longrightarrow>
        wait_until now (Some d) None = Some (unat (as_nanos d) - unat (as_nanos now)))"
proof -
  obtain w where "wait_until now (Some d) idle = Some w"
    by (simp add: wait_until_def Let_def)
  then show ?thesis
    using wait_until_Some wait_until_exact by blast
qed

theorem wait_until_not_late_witness:
  "wait_until (ElapsedInstant 3) (Some (ElapsedInstant 10)) None = Some 7"
  using wait_until_not_late [of "ElapsedInstant 3" "ElapsedInstant 10"] by simp

text \<open>
  A persisted wall-clock deadline is mapped to the elapsed clock at exactly the same
  distance, and to now when it has passed; the only failure is leaving the \<open>u128\<close> range.
\<close>

theorem reconcile_wall_schedule_distance:
  "reconcile_wall_schedule wall el due = Inr t \<longleftrightarrow>
     unat (as_nanos t) = unat (as_nanos el) + nat (due - wall)"
  by (rule reconcile_wall_schedule_eq_Inr)

end
