(* ===== verification/Frame.thy ===== *)
theory Frame
  imports Identifier Primitives
begin

text \<open>
  The wake protocol's frames (\<open>src/supervisor/frame.rs\<close>): a JSON body behind its length as
  four big-endian bytes.  serde_json is the parameter pair \<open>to_json\<close>, \<open>of_json\<close>.  The bytes a
  reader delivers before its end are a list; \<open>fault n\<close> is the error of the \<open>n\<close>-th call on the
  writer, if it has one.
\<close>

datatype IpcMessage =
    Wake u16 JobId Revision
  | Ack u16 JobId Revision
  | Nack u16 string
  | Shutdown u16

datatype FrameError =
    FrameTooLarge
  | Io string
  | Json string

definition MAX_FRAME_BYTES :: nat where
  "MAX_FRAME_BYTES = 64 * 1024"

definition to_be_bytes :: "u32 \<Rightarrow> u8 list" where
  "to_be_bytes n = map (\<lambda>k. ucast (drop_bit k n)) [24, 16, 8, 0]"

definition from_be_bytes :: "u8 list \<Rightarrow> u32" where
  "from_be_bytes bytes = foldl (\<lambda>n b. push_bit 8 n + ucast b) 0 bytes"

definition write_all :: "(nat \<Rightarrow> string option) \<Rightarrow> nat \<Rightarrow> (FrameError, unit) result" where
  "write_all fault n = (case fault n of None \<Rightarrow> Inr () | Some e \<Rightarrow> Inl (Io e))"

definition write_frame ::
  "(IpcMessage \<Rightarrow> (string, u8 list) result) \<Rightarrow> (nat \<Rightarrow> string option) \<Rightarrow> IpcMessage \<Rightarrow>
     (FrameError, u8 list) result" where
  "write_frame to_json fault message =
     try_bind (map_err Json (to_json message)) (\<lambda>body.
     if length body > MAX_FRAME_BYTES then Inl FrameTooLarge
     else try_bind (if length body < 2 ^ 32 then Inr (of_nat (length body)) else Inl FrameTooLarge) (\<lambda>n.
       try_bind (write_all fault 0) (\<lambda>_.
       try_bind (write_all fault 1) (\<lambda>_.
       try_bind (write_all fault 2) (\<lambda>_.
       Inr (to_be_bytes n @ body))))))"

definition read_exact :: "nat \<Rightarrow> u8 list \<Rightarrow> (FrameError, u8 list \<times> u8 list) result" where
  "read_exact n bytes =
     (if length bytes < n then Inl (Io ''failed to fill whole buffer'') else Inr (take n bytes, drop n bytes))"

text \<open>The message and the bytes left in the reader.\<close>

definition read_frame ::
  "(u8 list \<Rightarrow> (string, IpcMessage) result) \<Rightarrow> u8 list \<Rightarrow> (FrameError, IpcMessage \<times> u8 list) result" where
  "read_frame of_json bytes =
     try_bind (read_exact 4 bytes) (\<lambda>(header, rest).
     (let n = unat (from_be_bytes header)
      in if n = 0 \<or> n > MAX_FRAME_BYTES then Inl FrameTooLarge
         else try_bind (read_exact n rest) (\<lambda>(body, rest').
           map_ok (\<lambda>message. (message, rest')) (map_err Json (of_json body)))))"

section \<open>Lengths\<close>

lemma length_to_be_bytes [simp]: "length (to_be_bytes n) = 4"
  by (simp add: to_be_bytes_def)

lemma base_256:
  fixes m :: nat
  assumes "m < 2 ^ 32"
  shows "((m div 2 ^ 24 mod 256 * 256 + m div 2 ^ 16 mod 256) * 256 + m div 2 ^ 8 mod 256) * 256 + m mod 256 = m"
proof -
  have m: "m = m div 256 * 256 + m mod 256" "m div 256 = m div 256 div 256 * 256 + m div 256 mod 256"
    "m div 256 div 256 = m div 256 div 256 div 256 * 256 + m div 256 div 256 mod 256"
    by simp_all
  have d: "m div 2 ^ 8 = m div 256" "m div 2 ^ 16 = m div 256 div 256" "m div 2 ^ 24 = m div 256 div 256 div 256"
    by (simp_all add: div_mult2_eq [symmetric])
  have "m div 256 div 256 div 256 mod 256 = m div 256 div 256 div 256"
    using assms by (simp add: div_mult2_eq [symmetric])
  then show ?thesis
    unfolding d using m by presburger
qed

lemma byte_of_u32: "(ucast (ucast (w :: u32) :: u8) :: u32) = of_nat (unat w mod 256)"
proof -
  have "unat (ucast (ucast w :: u8) :: u32) = unat w mod 256"
    by (simp add: unsigned_ucast_eq take_bit_eq_mod unat_mod)
  then show ?thesis
    by (simp only: word_unat_eq_iff unat_of_nat) simp
qed

lemma unat_drop_bit: "unat (drop_bit k w) = unat w div 2 ^ k"
  by (simp only: unat_drop_bit_eq) (simp only: drop_bit_eq_div)

lemma from_to_be_bytes [simp]: "from_be_bytes (to_be_bytes n) = n"
proof -
  have "unat n < 2 ^ 32"
    using unsigned_less [of n, where 'a = nat] by simp
  then have "(of_nat (((unat n div 2 ^ 24 mod 256 * 256 + unat n div 2 ^ 16 mod 256) * 256
      + unat n div 2 ^ 8 mod 256) * 256 + unat n mod 256) :: u32) = n"
    by (simp only: base_256) simp
  then show ?thesis
    by (simp add: from_be_bytes_def to_be_bytes_def byte_of_u32 unat_drop_bit push_bit_eq_mult algebra_simps)
qed

text \<open>Reading a stream of frames one after the other.\<close>

fun read_frames ::
  "(u8 list \<Rightarrow> (string, IpcMessage) result) \<Rightarrow> nat \<Rightarrow> u8 list \<Rightarrow> (FrameError, IpcMessage list \<times> u8 list) result" where
  "read_frames of_json 0 bytes = Inr ([], bytes)"
| "read_frames of_json (Suc n) bytes =
     try_bind (read_frame of_json bytes) (\<lambda>(message, rest).
       map_ok (\<lambda>(messages, rest'). (message # messages, rest')) (read_frames of_json n rest))"

lemma read_write_frame:
  assumes "write_frame to_json fault message = Inr bytes"
    and "\<And>m body. to_json m = Inr body \<Longrightarrow> of_json body = Inr m \<and> body \<noteq> []"
  shows "read_frame of_json (bytes @ rest) = Inr (message, rest)"
proof -
  obtain body where body: "to_json message = Inr body" "length body \<le> MAX_FRAME_BYTES"
    and bytes: "bytes = to_be_bytes (of_nat (length body)) @ body"
    using assms(1) by (auto simp: write_frame_def result_simps split: if_splits)
  have u: "unat (of_nat (length body) :: u32) = length body"
    using body(2) by (simp add: MAX_FRAME_BYTES_def unat_of_nat)
  show ?thesis
    using assms(2) [OF body(1)] body(2)
    by (simp add: read_frame_def read_exact_def bytes u)
qed

section \<open>Properties\<close>

text \<open>
  Frames are self-delimiting: when messages are written one after the other, a reader gets
  back exactly these messages in order and leaves whatever follows them.
\<close>

theorem frame_stream_roundtrip:
  assumes "\<And>m body. to_json m = Inr body \<Longrightarrow> of_json body = Inr m \<and> body \<noteq> []"
    and "list_all2 (\<lambda>m bytes. \<exists>fault. write_frame to_json fault m = Inr bytes) messages frames"
  shows "read_frames of_json (length messages) (concat frames @ rest) = Inr (messages, rest)"
  using assms(2)
proof (induction messages frames rule: list_all2_induct)
  case (Cons m ms bytes frames)
  then obtain fault where "write_frame to_json fault m = Inr bytes" by blast
  then have "read_frame of_json (bytes @ concat frames @ rest) = Inr (m, concat frames @ rest)"
    by (rule read_write_frame) (rule assms(1))
  with Cons.IH show ?case by simp
qed simp

definition sample_message_json :: "IpcMessage \<Rightarrow> (string, u8 list) result" where
  "sample_message_json m = (if m = Shutdown 1 then Inr [123, 125] else Inl ''unsupported'')"

definition sample_json_message :: "u8 list \<Rightarrow> (string, IpcMessage) result" where
  "sample_json_message b = (if b = [123, 125] then Inr (Shutdown 1) else Inl ''syntax'')"

theorem frame_stream_roundtrip_witness:
  "\<exists>bytes. write_frame sample_message_json (\<lambda>_. None) (Shutdown 1) = Inr bytes
     \<and> read_frames sample_json_message 2 (bytes @ bytes) = Inr ([Shutdown 1, Shutdown 1], [])"
proof -
  have law: "sample_json_message body = Inr m \<and> body \<noteq> []" if "sample_message_json m = Inr body" for m body
    using that by (auto simp: sample_message_json_def sample_json_message_def split: if_splits)
  obtain bytes where w: "write_frame sample_message_json (\<lambda>_. None) (Shutdown 1) = Inr bytes"
    by (simp add: write_frame_def sample_message_json_def MAX_FRAME_BYTES_def write_all_def)
  have "list_all2 (\<lambda>m b. \<exists>fault. write_frame sample_message_json fault m = Inr b)
      [Shutdown 1, Shutdown 1] [bytes, bytes]"
    using w by auto
  from frame_stream_roundtrip [of sample_message_json sample_json_message, OF law this, of "[]"]
  have "read_frames sample_json_message 2 (bytes @ bytes) = Inr ([Shutdown 1, Shutdown 1], [])"
    by (simp add: numeral_2_eq_2)
  with w show ?thesis by blast
qed

text \<open>
  Whatever bytes a peer sends, reading one frame consumes at most four bytes of header and
  64 KiB of body, and never an empty body.
\<close>

theorem read_frame_bounded:
  assumes "read_frame of_json bytes = Inr (message, rest)"
  shows "\<exists>header body. bytes = header @ body @ rest \<and> length header = 4 \<and> 0 < length body
    \<and> length body \<le> 65536 \<and> of_json body = Inr message"
proof -
  let ?n = "unat (from_be_bytes (take 4 bytes))"
  have b: "4 \<le> length bytes" "?n \<noteq> 0" "?n \<le> MAX_FRAME_BYTES" "?n \<le> length bytes - 4"
    "of_json (take ?n (drop 4 bytes)) = Inr message"
    and rest: "rest = drop ?n (drop 4 bytes)"
    using assms by (auto simp: read_frame_def read_exact_def result_simps Let_def split: if_splits)
  then show ?thesis
    by (intro exI [of _ "take 4 bytes"] exI [of _ "take ?n (drop 4 bytes)"])
      (simp add: MAX_FRAME_BYTES_def del: drop_drop)
qed

theorem read_frame_bounded_witness:
  "read_frame sample_json_message [0, 0, 0, 2, 123, 125] = Inr (Shutdown 1, [])
   \<and> (\<exists>header body. [0, 0, 0, 2, 123, 125] = header @ body @ [] \<and> length header = 4 \<and> 0 < length body
        \<and> length body \<le> 65536 \<and> sample_json_message body = Inr (Shutdown 1))"
proof -
  have r: "read_frame sample_json_message [0, 0, 0, 2, 123, 125] = Inr (Shutdown 1, [])"
    by (simp add: read_frame_def read_exact_def from_be_bytes_def MAX_FRAME_BYTES_def sample_json_message_def)
  from r read_frame_bounded [OF r] show ?thesis by blast
qed

end
