(* ===== verification/Daemon.thy ===== *)
theory Daemon
  imports Cancel_Run Loop_Driver Frame
begin

text \<open>
  The supervisor daemon (\<open>src/supervisor/daemon.rs\<close>): executing due jobs against the store, the
  retry policy for jobs whose execution failed, and the wake protocol.

  What the operating system contributes to one execution or one wake is the record of its
  parameters: whether the database opens, the clock readings, the fresh run identifier and
  random bytes, the outcome of spawning the run monitor, and the faults of the statements of
  each store operation.  An operation that fails half way leaves the database as its last
  committed step left it, so results are pairs of a result and a database.
\<close>

datatype DaemonError =
    Clock string
  | Process string
  | Store StoreError
  | Ipc string
  | Io string
  | Recovery string
  | MissingIdentity
  | MissingJob
  | IpcThreadPanicked
  | SignalThreadPanicked

fun DaemonError_text :: "DaemonError \<Rightarrow> string" where
  "DaemonError_text (Clock m) = m"
| "DaemonError_text (DaemonError.Process m) = m"
| "DaemonError_text (DaemonError.Store e) = StoreError_text e"
| "DaemonError_text (Ipc m) = m"
| "DaemonError_text (DaemonError.Io m) = ''supervisor I/O failed: '' @ m"
| "DaemonError_text (DaemonError.Recovery m) = ''startup recovery failed: '' @ m"
| "DaemonError_text MissingIdentity = ''supervisor process identity disappeared''"
| "DaemonError_text MissingJob = ''submitted job was not found''"
| "DaemonError_text IpcThreadPanicked = ''IPC thread panicked''"
| "DaemonError_text SignalThreadPanicked = ''signal worker panicked''"

section \<open>Retries\<close>

text \<open>The map \<open>attempts\<close> of \<open>DueFailureRetries\<close>.\<close>

type_synonym DueFailureRetries = "JobId \<rightharpoonup> u32"

record Backoff =
  attempt :: u32
  seconds :: u64

definition MAX_ATTEMPTS :: u32 where
  "MAX_ATTEMPTS = 3"

definition record_failure :: "DueFailureRetries \<Rightarrow> JobId \<Rightarrow> Backoff option \<times> DueFailureRetries" where
  "record_failure attempts job =
     (let n = (case attempts job of Some a \<Rightarrow> a + 1 | None \<Rightarrow> 1)
      in (if n > MAX_ATTEMPTS then None else Some \<lparr> attempt = n, seconds = ucast n * 2 \<rparr>,
          attempts(job \<mapsto> n)))"

definition forget :: "DueFailureRetries \<Rightarrow> JobId \<Rightarrow> DueFailureRetries" where
  "forget attempts job = attempts(job := None)"

section \<open>Due jobs\<close>

record due_env =
  de_open :: "(StoreError, unit) result"
  de_now :: "(string, UtcTimestamp) result"
  de_finished :: "(string, UtcTimestamp) result"
  de_fault :: "nat \<Rightarrow> nat \<Rightarrow> StoreError option"
  de_fresh :: RunId
  de_random :: "(string, u8 list) result"
  de_spawn :: "(string, unit) result"

text \<open>The operator \<open>?\<close> on a step that leaves the database \<open>db\<close> when it fails.\<close>

definition on_ok ::
  "('e \<Rightarrow> 'f) \<Rightarrow> ('e, 'a) result \<Rightarrow> 'db \<Rightarrow> ('a \<Rightarrow> ('f, 'b) result \<times> 'db) \<Rightarrow> ('f, 'b) result \<times> 'db" where
  "on_ok convert r db k = (case r of Inl e \<Rightarrow> (Inl (convert e), db) | Inr a \<Rightarrow> k a)"

definition execute_single_due_job ::
  "codec \<Rightarrow> due_env \<Rightarrow> Database \<Rightarrow> JobId \<Rightarrow> (DaemonError, unit) result \<times> Database" where
  "execute_single_due_job C env db i =
     on_ok DaemonError.Store (de_open env) db (\<lambda>_.
     on_ok DaemonError.Store (try_bind (statement (de_fault env 0) 0) (\<lambda>_. load_job C db i)) db (\<lambda>loaded.
     case loaded of None \<Rightarrow> (Inr (), db) | Some job \<Rightarrow>
     on_ok Clock (de_now env) db (\<lambda>now.
     on_ok DaemonError.Store
       (if job_state job = JobState.Scheduled
        then transition_job C (de_fault env 1) db (job_id job) (job_revision job) JobState.Waiting False Supervisor
          ''supervisor loaded deadline'' now
        else Inr (job, db)) db (\<lambda>(job, db).
     if job_state job \<noteq> JobState.Waiting then (Inr (), db)
     else
     on_ok DaemonError.Store
       (transition_job C (de_fault env 2) db (job_id job) (job_revision job) JobState.Starting False Supervisor
          ''deadline became due'' now) db (\<lambda>(job, db).
     on_ok DaemonError.Store
       (claim_run C (de_fault env 3) db (de_fresh env) (de_random env) (job_id job) (job_next_due job) now) db
       (\<lambda>(run, db).
     on_ok DaemonError.Store
       (transition_job C (de_fault env 4) db (job_id job) (job_revision job) JobState.Running False Supervisor
          ''run monitor claimed command'' now) db (\<lambda>(job, db).
     case de_spawn env of
       Inr _ \<Rightarrow> (Inr (), db)
     | Inl error \<Rightarrow>
         on_ok Clock (de_finished env) db (\<lambda>finished.
         on_ok DaemonError.Store
           (record_run_terminal C (de_fault env 5) db db (run_id run) (run_claim_token run) finished
              (RunOutcome.Failure (''monitor spawn failed: '' @ error))) db (\<lambda>(_, db).
         on_ok DaemonError.Store
           (transition_job C (de_fault env 6) db (job_id job) (job_revision job) JobState.Failed False Supervisor
              ''run monitor could not start'' finished) db (\<lambda>(_, db).
         (Inr (), db)))))))))))"

fun execute_due_jobs ::
  "codec \<Rightarrow> (JobId \<Rightarrow> due_env) \<Rightarrow> Database \<Rightarrow> JobId list \<Rightarrow> (JobId \<times> DaemonError) list \<times> Database" where
  "execute_due_jobs C env db [] = ([], db)"
| "execute_due_jobs C env db (i # jobs) =
     (let (r, db1) = execute_single_due_job C (env i) db i;
          (failures, db2) = execute_due_jobs C env db1 jobs
      in (case r of Inl error \<Rightarrow> (i, error) # failures | Inr _ \<Rightarrow> failures, db2))"

definition saturating_mul :: "'w::len word \<Rightarrow> 'w word \<Rightarrow> 'w word" where
  "saturating_mul a b = (case checked_mul a b of Some c \<Rightarrow> c | None \<Rightarrow> - 1)"

text \<open>The closure \<open>on_due\<close> of the loop: the retry state, the events it sends to the loop, and
  the database.\<close>

fun requeue ::
  "ElapsedInstant \<Rightarrow> (JobId \<times> DaemonError) list \<Rightarrow> DueFailureRetries \<Rightarrow> SupervisorEvent list \<times> DueFailureRetries" where
  "requeue now [] retries = ([], retries)"
| "requeue now ((i, error) # failures) retries =
     (let (backoff, retries1) = record_failure retries i;
          (events, retries2) = requeue now failures retries1
      in (case backoff of
            Some b \<Rightarrow> SupervisorEvent.Schedule i
              (ElapsedInstant (as_nanos now + ucast (saturating_mul (ucast (attempt b) :: u64) 2000000000))) # events
          | None \<Rightarrow> events, retries2))"

definition on_due ::
  "codec \<Rightarrow> (JobId \<Rightarrow> due_env) \<Rightarrow> ElapsedInstant \<Rightarrow> DueFailureRetries \<Rightarrow> Database \<Rightarrow> JobId list \<Rightarrow>
     SupervisorEvent list \<times> DueFailureRetries \<times> Database" where
  "on_due C env now_elapsed retries db jobs =
     (let retries = fold (\<lambda>i r. forget r i) jobs retries;
          (failures, db) = execute_due_jobs C env db jobs;
          (events, retries) = requeue now_elapsed failures retries
      in (events, retries, db))"

section \<open>Wakes\<close>

datatype WakeDisposition = Schedule ElapsedInstant | AlreadyTerminal

record wake_env =
  we_db :: Database
  we_open :: "(StoreError, unit) result"
  we_fault :: "StoreError option"
  we_wall :: "(string, UtcTimestamp) result"
  we_elapsed :: "(string, ElapsedInstant) result"

definition DeadlineReconciliationError_text :: "DeadlineReconciliationError \<Rightarrow> string" where
  "DeadlineReconciliationError_text e = ''elapsed deadline is outside the supported range''"

definition load_wake :: "codec \<Rightarrow> wake_env \<Rightarrow> JobId \<Rightarrow> (DaemonError, WakeDisposition) result" where
  "load_wake C env i =
     try_bind (map_err DaemonError.Store (we_open env)) (\<lambda>_.
     try_bind (map_err DaemonError.Store
       (try_bind (statement (\<lambda>_. we_fault env) 0) (\<lambda>_. load_job C (we_db env) i))) (\<lambda>loaded.
     try_bind (ok_or MissingJob loaded) (\<lambda>job.
     if JobState_is_terminal (job_state job) then Inr WakeDisposition.AlreadyTerminal
     else
     try_bind (map_err Clock (we_wall env)) (\<lambda>wall.
     try_bind (map_err Clock (we_elapsed env)) (\<lambda>elapsed.
     map_ok WakeDisposition.Schedule
       (map_err (\<lambda>e. DaemonError.Recovery (DeadlineReconciliationError_text e))
         (reconcile_wall_schedule wall elapsed (job_next_due job))))))))"

fun load_wake_attempts ::
  "codec \<Rightarrow> JobId \<Rightarrow> wake_env list \<Rightarrow> DaemonError \<Rightarrow> (DaemonError, WakeDisposition) result" where
  "load_wake_attempts C i [] last_error = Inl last_error"
| "load_wake_attempts C i (env # envs) last_error =
     (case load_wake C env i of
        Inr disposition \<Rightarrow> Inr disposition
      | Inl error \<Rightarrow> if error = MissingJob then Inl error else load_wake_attempts C i envs error)"

definition load_wake_with_retry :: "codec \<Rightarrow> (nat \<Rightarrow> wake_env) \<Rightarrow> JobId \<Rightarrow> (DaemonError, WakeDisposition) result" where
  "load_wake_with_retry C envs i = load_wake_attempts C i (map envs [0..<3]) MissingJob"

text \<open>One connection: the frame read from it, the environments of the load attempts, and
  whether the loop still receives events.\<close>

record connection =
  cn_frame :: "(FrameError, IpcMessage) result"
  cn_envs :: "nat \<Rightarrow> wake_env"
  cn_receiver_alive :: bool

text \<open>Serving: the reply written to each connection, if any, and the events sent to the loop.
  \<open>None\<close> is a listener that failed; \<open>break\<close> leaves the remaining connections unserved.\<close>

fun serve_ipc :: "codec \<Rightarrow> connection option list \<Rightarrow> IpcMessage option list \<times> SupervisorEvent list" where
  "serve_ipc C [] = ([], [])"
| "serve_ipc C (None # connections) = ([], [])"
| "serve_ipc C (Some c # connections) =
     (case cn_frame c of
        Inr (Wake protocol i revision) \<Rightarrow>
          if protocol = 1 then
            (case load_wake_with_retry C (cn_envs c) i of
               Inr (WakeDisposition.Schedule deadline) \<Rightarrow>
                 if cn_receiver_alive c then
                   (let (replies, events) = serve_ipc C connections
                    in (Some (Ack 1 i revision) # replies, SupervisorEvent.Schedule i deadline # events))
                 else ([None], [])
             | Inr WakeDisposition.AlreadyTerminal \<Rightarrow>
                 (let (replies, events) = serve_ipc C connections in (Some (Ack 1 i revision) # replies, events))
             | Inl error \<Rightarrow>
                 (let (replies, events) = serve_ipc C connections
                  in (Some (Nack 1 (DaemonError_text error)) # replies, events)))
          else (let (replies, events) = serve_ipc C connections in (None # replies, events))
      | Inr (IpcMessage.Shutdown _) \<Rightarrow> ([None], [])
      | _ \<Rightarrow> (let (replies, events) = serve_ipc C connections in (None # replies, events)))"

section \<open>The retry policy\<close>

lemma fold_forget: "fold (\<lambda>i r. forget r i) jobs retries = (\<lambda>j. if j \<in> set jobs then None else retries j)"
  by (induction jobs arbitrary: retries) (auto simp: forget_def fun_eq_iff)

lemma execute_due_jobs_Cons:
  "fst (execute_due_jobs C env db (i # jobs)) =
     (case fst (execute_single_due_job C (env i) db i) of
        Inl e \<Rightarrow> [(i, e)] | Inr _ \<Rightarrow> []) @ fst (execute_due_jobs C env (snd (execute_single_due_job C (env i) db i)) jobs)"
  by (simp add: case_prod_beta Let_def split: sum.split)

lemma execute_due_jobs_failures:
  "set (map fst (fst (execute_due_jobs C env db jobs))) \<subseteq> set jobs"
  "distinct jobs \<Longrightarrow> distinct (map fst (fst (execute_due_jobs C env db jobs)))"
proof (induction jobs arbitrary: db)
  case (Cons i jobs)
  { case 1
    from Cons.IH(1) [of "snd (execute_single_due_job C (env i) db i)"] show ?case
      by (cases "fst (execute_single_due_job C (env i) db i)")
        (simp_all add: execute_due_jobs_Cons subset_insertI2 del: execute_due_jobs.simps) }
  { case 2
    with Cons.IH [of "snd (execute_single_due_job C (env i) db i)"] show ?case
      by (cases "fst (execute_single_due_job C (env i) db i)")
        (auto simp: execute_due_jobs_Cons simp del: execute_due_jobs.simps) }
qed simp_all

lemma first_backoff: "saturating_mul (1 :: u64) 2000000000 = 2000000000"
  by (simp add: saturating_mul_def checked_mul_def)

lemma requeue_fresh:
  assumes "distinct (map fst failures)" "\<forall>i\<in>set (map fst failures). retries i = None"
  shows "fst (requeue now failures retries) =
    map (\<lambda>(i, _). SupervisorEvent.Schedule i (ElapsedInstant (as_nanos now + 2000000000))) failures"
  using assms
proof (induction failures arbitrary: retries)
  case (Cons f failures)
  obtain i error where f: "f = (i, error)" by (cases f)
  have "fst (requeue now failures (retries(i \<mapsto> 1))) =
    map (\<lambda>(i, _). SupervisorEvent.Schedule i (ElapsedInstant (as_nanos now + 2000000000))) failures"
    using Cons.prems by (intro Cons.IH) (auto simp: f)
  then show ?case
    using Cons.prems by (simp add: f record_failure_def MAX_ATTEMPTS_def first_backoff Let_def case_prod_beta)
qed simp

section \<open>Store steps of an execution\<close>

definition job_revisions_i64 :: "Database \<Rightarrow> bool" where
  "job_revisions_i64 db = list_all (\<lambda>r. jr_revision r < 2 ^ 63) (db_jobs db)"

lemma transition_job_succeeds:
  assumes "job_keys db" "job_revisions_i64 db" "load_job C db i = Inr (Some job)"
    and "Job_transition job to recurring actor reason now = Inr (job', tr)"
    and "unat (revision_get (job_revision job')) < 2 ^ 63" "\<And>n. fault n = None"
  shows "\<exists>db'. transition_job C fault db i (job_revision job) to recurring actor reason now = Inr (job', db')"
proof -
  obtain row where row: "find (\<lambda>row. jr_id row = job_text i) (db_jobs db) = Some row" "decode_job_row C row = Inr job"
    using assms(3) unfolding load_job_eq_Inr by blast
  have mem: "row \<in> set (db_jobs db)" "jr_id row = job_text i"
    using find_jr_id [OF row(1)] by auto
  have "0 \<le> jr_revision row" "jr_revision row < 2 ^ 63" "job_revision job = Revision (of_int (jr_revision row))"
    using row(2) mem(1) assms(2) by (auto simp: decode_job_row_eq_Inr Revision_new_def job_revisions_i64_def list_all_iff
        split: if_splits)
  then have rev: "int (unat (revision_get (job_revision job))) = jr_revision row"
    using u64_of_int [of "jr_revision row"] by simp
  let ?P = "\<lambda>r. jr_id r = job_text i \<and> jr_revision r = int (unat (revision_get (job_revision job)))"
  have "0 < length (filter ?P (db_jobs db))"
    unfolding length_greater_0_conv filter_empty_conv using mem rev by auto
  moreover have "length (filter ?P (db_jobs db)) \<le> 1"
    using assms(1) by (intro filter_unique_length [of jr_id _ _ "job_text i"]) (auto simp: job_keys_def)
  ultimately have "length (filter ?P (db_jobs db)) = 1" by linarith
  moreover have "unat (revision_get (job_revision job)) < 2 ^ 63"
    using assms(4,5) by (simp add: Job_transition_eq_Inr)
  ultimately show ?thesis
    using assms(3-6) by (simp add: transition_job_def statement_def to_sql_u64_def update_jobs_def del: of_nat_unat)
qed

lemma claim_run_jobs:
  "claim_run C fault db fresh random job scheduled created = Inr (run, db') \<Longrightarrow> db_jobs db' = db_jobs db"
  by (auto simp: claim_run_def result_simps Let_def split: if_splits)

lemma load_job_cong: "db_jobs db = db_jobs db' \<Longrightarrow> load_job C db i = load_job C db' i"
  by (simp add: load_job_def)

lemma load_run_cong: "db_runs db = db_runs db' \<Longrightarrow> load_run C db i = load_run C db' i"
  by (simp add: load_run_def)

lemma run_table_cong: "db_runs db = db_runs db' \<Longrightarrow> run_table db = run_table db'"
  by (simp add: run_table_def)

lemma on_ok_eq_Inr: "on_ok f r db k = (Inr b, db') \<longleftrightarrow> (\<exists>a. r = Inr a \<and> k a = (Inr b, db'))"
  by (auto simp: on_ok_def split: sum.splits)

lemma transition_job_frame:
  assumes "transition_job C fault db i expected to recurring actor reason now = Inr (job', db')"
    and "job_keys db" "codec_ok C"
  shows "load_job C db' i = Inr (Some job')" "job_keys db'" "db_runs db' = db_runs db"
    "job_state job' = to" "job_id job' = i" "\<exists>job. load_job C db i = Inr (Some job) \<and> job_next_due job' = job_next_due job"
proof -
  note eff = transition_job_effect [OF assms(2,3,1)]
  obtain job tr where job: "load_job C db i = Inr (Some job)" and t: "Job_transition job to recurring actor reason now = Inr (job', tr)"
    using eff(6) by blast
  show "load_job C db' i = Inr (Some job')" "job_keys db'" "db_runs db' = db_runs db"
    by (rule eff)+
  have same: "job' = job\<lparr>job_revision := job_revision job', job_state := to, job_updated_at := now\<rparr>"
    using t by (simp add: Job_transition_eq_Inr)
  show "job_state job' = to" by (subst same) simp
  show "job_id job' = i" by (rule load_job_id) (rule eff(1))
  have "job_next_due job' = job_next_due job" by (subst same) simp
  with job show "\<exists>job. load_job C db i = Inr (Some job) \<and> job_next_due job' = job_next_due job" by blast
qed

text \<open>The first half of an execution: a waiting job is taken to \<open>Starting\<close> and its occurrence is
  claimed.\<close>

lemma execute_waiting:
  assumes "load_job C db i = Inr (Some job)" "job_state job = JobState.Waiting"
    and "de_open env = Inr ()" "de_fault env 0 0 = None" "de_now env = Inr now"
  shows "execute_single_due_job C env db i =
     on_ok DaemonError.Store
       (transition_job C (de_fault env 2) db i (job_revision job) JobState.Starting False Supervisor
          ''deadline became due'' now) db (\<lambda>(job, db).
     on_ok DaemonError.Store
       (claim_run C (de_fault env 3) db (de_fresh env) (de_random env) (job_id job) (job_next_due job) now) db
       (\<lambda>(run, db).
     on_ok DaemonError.Store
       (transition_job C (de_fault env 4) db (job_id job) (job_revision job) JobState.Running False Supervisor
          ''run monitor claimed command'' now) db (\<lambda>(job, db).
     case de_spawn env of
       Inr _ \<Rightarrow> (Inr (), db)
     | Inl error \<Rightarrow>
         on_ok Clock (de_finished env) db (\<lambda>finished.
         on_ok DaemonError.Store
           (record_run_terminal C (de_fault env 5) db db (run_id run) (run_claim_token run) finished
              (RunOutcome.Failure (''monitor spawn failed: '' @ error))) db (\<lambda>(_, db).
         on_ok DaemonError.Store
           (transition_job C (de_fault env 6) db (job_id job) (job_revision job) JobState.Failed False Supervisor
              ''run monitor could not start'' finished) db (\<lambda>(_, db). (Inr (), db)))))))"
  using assms load_job_id [OF assms(1)]
  by (simp add: execute_single_due_job_def on_ok_def statement_def)

lemma execute_other_state:
  assumes "load_job C db i = Inr (Some job)" "job_state job \<notin> {JobState.Scheduled, JobState.Waiting}"
  shows "snd (execute_single_due_job C env db i) = db"
  using assms by (auto simp: execute_single_due_job_def on_ok_def result_simps split: sum.splits option.splits)

lemma claim_run_succeeds:
  assumes "run_table db" "job_text job \<in> jr_id ` set (db_jobs db)"
    and "(job_text job, show_ts C scheduled) \<notin> occurrences db"
    and "length token = 32" "\<forall>r\<in>set (db_runs db). rr_claim_token r \<noteq> token \<and> rr_id r \<noteq> run_text fresh"
    and "last_sequence (job_text job) (db_runs db) + 1 < 2 ^ 63" "\<And>n. fault n = None"
  shows "\<exists>run db'. claim_run C fault db fresh (Inr token) job scheduled created = Inr (run, db')"
proof -
  let ?last = "last_sequence (job_text job) (db_runs db)"
  note b = last_sequence_bounds [OF assms(1), of "job_text job"]
  have u: "int (unat (of_int ?last :: u64)) = ?last" "int (unat (of_int (?last + 1) :: u64)) = ?last + 1"
    using b assms(6) u64_of_int [of ?last] u64_of_int [of "?last + 1"] by simp_all
  then have un: "unat (of_int ?last :: u64) = nat ?last" "unat (of_int (?last + 1) :: u64) = nat (?last + 1)"
    by linarith+
  have w: "checked_add (of_int ?last :: u64) 1 = Some (of_int (?last + 1))"
    using b un(1) by (simp add: checked_add_def)
  have nz: "(of_int (?last + 1) :: u64) \<noteq> 0"
  proof
    assume "(of_int (?last + 1) :: u64) = 0"
    with u(2) have "?last + 1 = 0" by (simp del: of_int_add)
    with b show False by simp
  qed
  have acc: "runs_accept db (claimed_row C (Run_snapshot
      (Run_new fresh job (Sequence (of_int (?last + 1))) scheduled created (ClaimToken token))) (?last + 1))"
  proof -
    have "rr_id r \<noteq> run_text fresh \<and> rr_claim_token r \<noteq> token
        \<and> (rr_job_id r, rr_sequence r) \<noteq> (job_text job, ?last + 1)
        \<and> (rr_job_id r, rr_scheduled_for r) \<noteq> (job_text job, show_ts C scheduled)" if "r \<in> set (db_runs db)" for r
    proof -
      have "(rr_job_id r, rr_scheduled_for r) \<in> occurrences db"
        using that by (simp add: occurrences_def)
      moreover have "rr_job_id r = job_text job \<Longrightarrow> rr_sequence r \<noteq> ?last + 1"
        using last_sequence_upper [OF that] by fastforce
      ultimately show ?thesis
        using assms(3,5) that by auto
    qed
    then show ?thesis
      using assms(2,4) b by (simp add: runs_accept_def claimed_row_def Run_snapshot_def Run_new_def list_all_iff)
  qed
  have fresh_occurrence: "\<not> list_ex (\<lambda>row. rr_job_id row = job_text job \<and> rr_scheduled_for row = show_ts C scheduled) (db_runs db)"
    using assms(3) by (auto simp: occurrences_def list_ex_iff image_iff)
  have "to_sql_u64 (of_int (?last + 1)) = Inr (?last + 1)"
    unfolding to_sql_u64_def un(2) using b assms(6) by auto
  with acc fresh_occurrence b show ?thesis
    by (simp add: claim_run_def statement_def assms(7) w Sequence_new_def nz Let_def del: of_int_add)
qed

lemma load_job_row:
  assumes "load_job C db i = Inr (Some job)"
  shows "job_text i \<in> jr_id ` set (db_jobs db)"
proof -
  obtain row where "find (\<lambda>row. jr_id row = job_text i) (db_jobs db) = Some row"
    using assms unfolding load_job_eq_Inr by blast
  from find_jr_id [OF this] show ?thesis by force
qed

lemma transition_job_keys:
  assumes "transition_job C fault db i expected to recurring actor reason now = Inr (job', db')" "job_revisions_i64 db"
  shows "job_revisions_i64 db'"
proof -
  obtain P u tr where b: "unat (revision_get (job_revision job')) < 2 ^ 63"
    and db': "db' = insert_transition tr (snd (update_jobs P
      (\<lambda>row. row\<lparr>jr_revision := int (unat (revision_get (job_revision job'))), jr_state := encode_job_state (job_state job'),
         jr_updated_at := u\<rparr>) db))"
    by (rule transition_job_eq_Inr [OF assms(1)]) (rule that)
  have "int (unat (revision_get (job_revision job'))) < 2 ^ 63"
    using b by (simp del: of_nat_unat)
  then show ?thesis
    using assms(2) by (auto simp: db' job_revisions_i64_def list_all_iff insert_transition_def update_jobs_def
        simp del: of_nat_unat)
qed

lemma Job_transition_exists:
  assumes "job_updated_at job \<le> now" "job_transition (job_state job) to recurring actor reason = Inr tr"
    and "unat (revision_get (job_revision job)) + 1 < 2 ^ 63"
  obtains job' where "Job_transition job to recurring actor reason now = Inr (job', tr)"
    "unat (revision_get (job_revision job')) = unat (revision_get (job_revision job)) + 1"
    "job_state job' = to" "job_updated_at job' = now" "job_next_due job' = job_next_due job" "job_id job' = job_id job"
proof -
  have u: "unat (revision_get (job_revision job) + 1) = unat (revision_get (job_revision job)) + 1"
    using assms(3) by (simp add: unat_word_ariths)
  let ?job' = "job\<lparr>job_revision := Revision (revision_get (job_revision job) + 1), job_state := to, job_updated_at := now\<rparr>"
  have "Job_transition job to recurring actor reason now = Inr (?job', tr)"
    using assms(1,2) u by (simp add: Job_transition_eq_Inr)
  then show thesis
    by (rule that) (simp_all add: u)
qed

text \<open>An environment in which nothing fails, with an unused identifier and token.\<close>

definition healthy :: "due_env \<Rightarrow> UtcTimestamp \<Rightarrow> Database \<Rightarrow> bool" where
  "healthy env now db =
     (de_open env = Inr () \<and> de_now env = Inr now \<and> (\<forall>k n. de_fault env k n = None) \<and> de_spawn env = Inr ()
      \<and> (\<exists>token. de_random env = Inr token \<and> length token = 32
           \<and> (\<forall>r\<in>set (db_runs db). rr_claim_token r \<noteq> token \<and> rr_id r \<noteq> run_text (de_fresh env))))"

text \<open>The first transition of an execution, in any environment without faults.\<close>

lemma starting_transition:
  assumes "job_keys db" "job_revisions_i64 db" "codec_ok C"
    and "load_job C db i = Inr (Some job)" "job_state job = JobState.Waiting" "job_updated_at job \<le> now"
    and "unat (revision_get (job_revision job)) + 1 < 2 ^ 63" "\<And>n. fault n = None"
  obtains job1 db1 where "transition_job C fault db i (job_revision job) JobState.Starting False Supervisor
      ''deadline became due'' now = Inr (job1, db1)"
    "unat (revision_get (job_revision job1)) = unat (revision_get (job_revision job)) + 1"
    "job_state job1 = JobState.Starting" "job_updated_at job1 = now" "job_next_due job1 = job_next_due job"
    "load_job C db1 i = Inr (Some job1)" "job_keys db1" "job_revisions_i64 db1" "db_runs db1 = db_runs db" "job_id job1 = i"
proof -
  obtain tr where "job_transition (job_state job) JobState.Starting False Supervisor ''deadline became due'' = Inr tr"
    using assms(5) by (simp add: job_transition_def transition_def one_shot_legal_def contains_nul_def)
  from Job_transition_exists [OF assms(6) this assms(7)] obtain job1 where
    t: "Job_transition job JobState.Starting False Supervisor ''deadline became due'' now = Inr (job1, tr)"
    and j: "unat (revision_get (job_revision job1)) = unat (revision_get (job_revision job)) + 1"
    "job_state job1 = JobState.Starting" "job_updated_at job1 = now" "job_next_due job1 = job_next_due job"
    by metis
  obtain db1 where db1: "transition_job C fault db i (job_revision job) JobState.Starting False Supervisor
      ''deadline became due'' now = Inr (job1, db1)"
    using transition_job_succeeds [where fault = fault, OF assms(1,2,4) t _ assms(8)] j(1) assms(7) by auto
  note fr = transition_job_frame [OF db1 assms(1,3)]
  show thesis
    using that [OF db1 j fr(1,2) transition_job_keys [OF db1 assms(2)] fr(3,5)] .
qed

lemma execute_succeeds:
  assumes "job_keys db" "run_table db" "job_revisions_i64 db" "codec_ok C"
    and "load_job C db i = Inr (Some job)" "job_state job = JobState.Waiting" "job_updated_at job \<le> now"
    and "unat (revision_get (job_revision job)) + 2 < 2 ^ 63" "healthy env now db"
    and "(job_text i, show_ts C (job_next_due job)) \<notin> occurrences db"
    and "last_sequence (job_text i) (db_runs db) + 1 < 2 ^ 63"
  shows "\<exists>db'. execute_single_due_job C env db i = (Inr (), db')"
proof -
  obtain token where env: "de_open env = Inr ()" "de_now env = Inr now" "\<And>k n. de_fault env k n = None"
    "de_spawn env = Inr ()" "de_random env = Inr token" "length token = 32"
    "\<forall>r\<in>set (db_runs db). rr_claim_token r \<noteq> token \<and> rr_id r \<noteq> run_text (de_fresh env)"
    using assms(9) by (auto simp: healthy_def)
  have rev: "unat (revision_get (job_revision job)) + 1 < 2 ^ 63" using assms(8) by simp
  obtain job1 db1 where t1: "transition_job C (de_fault env 2) db i (job_revision job) JobState.Starting False Supervisor
      ''deadline became due'' now = Inr (job1, db1)"
    and j1: "unat (revision_get (job_revision job1)) = unat (revision_get (job_revision job)) + 1"
    "job_state job1 = JobState.Starting" "job_updated_at job1 = now" "job_next_due job1 = job_next_due job"
    and d1: "load_job C db1 i = Inr (Some job1)" "job_keys db1" "job_revisions_i64 db1" "db_runs db1 = db_runs db" "job_id job1 = i"
    by (rule starting_transition [OF assms(1,3-7) rev env(3)])
  have rt: "run_table db1" using assms(2) run_table_cong [OF d1(4)] by simp
  obtain run db2 where c: "claim_run C (de_fault env 3) db1 (de_fresh env) (de_random env) i (job_next_due job) now
      = Inr (run, db2)"
    using claim_run_succeeds [OF rt load_job_row [OF d1(1)], of C "job_next_due job" token "de_fresh env" "de_fault env 3" now]
      assms(10,11) env d1(4) by (auto simp: occurrences_def)
  have jobs: "db_jobs db2 = db_jobs db1" by (rule claim_run_jobs [OF c])
  then have d2: "job_keys db2" "job_revisions_i64 db2" "load_job C db2 i = Inr (Some job1)"
    using d1 load_job_cong [OF jobs] by (simp_all add: job_keys_def job_revisions_i64_def)
  obtain tr where "job_transition (job_state job1) JobState.Running False Supervisor ''run monitor claimed command'' = Inr tr"
    using j1(2) by (simp add: job_transition_def transition_def one_shot_legal_def contains_nul_def)
  then obtain job3 where t: "Job_transition job1 JobState.Running False Supervisor ''run monitor claimed command'' now = Inr (job3, tr)"
    "unat (revision_get (job_revision job3)) = unat (revision_get (job_revision job1)) + 1"
    by (rule Job_transition_exists [rotated]) (use j1 assms(8) in auto)
  then obtain db3 where t3: "transition_job C (de_fault env 4) db2 i (job_revision job1) JobState.Running False Supervisor
      ''run monitor claimed command'' now = Inr (job3, db3)"
    using transition_job_succeeds [where fault = "de_fault env 4", OF d2 t(1) _ env(3)] j1(1) assms(8) by auto
  show ?thesis
    using execute_waiting [OF assms(5,6) env(1,3,2)] t1 c t3 env(4) d1(5) j1(4) by (simp add: on_ok_def)
qed

lemma transition_job_revision:
  assumes "transition_job C fault db i expected to recurring actor reason now = Inr (job', db')" "load_job C db i = Inr (Some job)"
  shows "unat (revision_get (job_revision job')) = unat (revision_get (job_revision job)) + 1 \<and> job_updated_at job' = now"
proof -
  obtain tr where t: "Job_transition job to recurring actor reason now = Inr (job', tr)"
    by (rule transition_job_eq_Inr [OF assms(1)]) (use assms(2) in auto)
  then have same: "job' = job\<lparr>job_revision := job_revision job', job_state := to, job_updated_at := now\<rparr>"
    by (simp add: Job_transition_eq_Inr)
  have "job_updated_at job' = now" by (subst same) simp
  with t show ?thesis by (simp add: Job_transition_eq_Inr)
qed

lemma transition_job_ids:
  assumes "transition_job C fault db i expected to recurring actor reason now = Inr (job', db')"
  shows "map jr_id (db_jobs db') = map jr_id (db_jobs db)"
  by (rule transition_job_eq_Inr [OF assms]) (simp add: insert_transition_def update_jobs_def)

lemma claim_run_row:
  assumes "claim_run C fault db fresh random job scheduled created = Inr (run, db')" "run_table db"
  shows "\<exists>row. db_runs db' = db_runs db @ [row] \<and> rr_id row = run_text fresh \<and> rr_job_id row = job_text job"
  by (rule claim_run_eq_Inr [OF assms]) (simp add: claimed_row_def Run_snapshot_def Run_new_def)

text \<open>What a successful execution with a spawned monitor has written.\<close>

lemma execute_started:
  assumes "job_keys db" "run_table db" "codec_ok C"
    and "load_job C db i = Inr (Some job)" "job_state job = JobState.Waiting"
    and "execute_single_due_job C env db i = (Inr (), db')" "de_spawn env = Inr ()"
  obtains now job' run row where "de_now env = Inr now" "load_job C db' i = Inr (Some job')" "job_state job' = JobState.Running"
    "job_next_due job' = job_next_due job" "job_updated_at job' = now"
    "unat (revision_get (job_revision job')) = unat (revision_get (job_revision job)) + 2"
    "load_run C db' (de_fresh env) = Inr (Some run)" "run_state run = RunState.Starting"
    "run_job_id run = i" "run_scheduled_for run = job_next_due job"
    "\<forall>row\<in>set (db_runs db). rr_job_id row = job_text i \<longrightarrow> rr_sequence row < int (unat (sequence_get (run_sequence run)))"
    "job_keys db'" "run_table db'" "job_revisions_i64 db \<Longrightarrow> job_revisions_i64 db'"
    "map jr_id (db_jobs db') = map jr_id (db_jobs db)" "db_runs db' = db_runs db @ [row]"
    "rr_id row = run_text (de_fresh env)" "rr_job_id row = job_text i"
proof -
  obtain now where env: "de_open env = Inr ()" "de_fault env 0 0 = None" "de_now env = Inr now"
    using assms(4,6) by (auto simp: execute_single_due_job_def on_ok_eq_Inr result_simps statement_def
        split: option.splits)
  obtain job1 db1 run db2 job3 where
    t1: "transition_job C (de_fault env 2) db i (job_revision job) JobState.Starting False Supervisor
          ''deadline became due'' now = Inr (job1, db1)"
    and c: "claim_run C (de_fault env 3) db1 (de_fresh env) (de_random env) (job_id job1) (job_next_due job1) now
       = Inr (run, db2)"
    and t2: "transition_job C (de_fault env 4) db2 (job_id job1) (job_revision job1) JobState.Running False Supervisor
          ''run monitor claimed command'' now = Inr (job3, db')"
    using assms(6,7) unfolding execute_waiting [OF assms(4,5) env] by (auto simp: on_ok_eq_Inr)
  note e1 = transition_job_frame [OF t1 assms(1,3)]
  have rt1: "run_table db1"
    using assms(2) run_table_cong [OF e1(3)] by simp
  note ce = claim_run_effect [OF c rt1 assms(3)]
  have jobs2: "db_jobs db2 = db_jobs db1" by (rule claim_run_jobs [OF c])
  have k2: "job_keys db2" using e1(2) jobs2 by (simp add: job_keys_def)
  note e2 = transition_job_frame [OF t2 k2 assms(3)]
  have l2: "load_job C db2 i = Inr (Some job1)"
    using load_job_cong [OF jobs2] e1(1) by simp
  have j1: "job_next_due job1 = job_next_due job" "unat (revision_get (job_revision job1)) = unat (revision_get (job_revision job)) + 1"
    using e1(6) transition_job_revision [OF t1 assms(4)] assms(4) by auto
  have j3: "job_next_due job3 = job_next_due job1" "job_updated_at job3 = now"
    "unat (revision_get (job_revision job3)) = unat (revision_get (job_revision job1)) + 1"
    using e2(6) transition_job_revision [OF t2 [unfolded e1(5)] l2] l2 e1(5) by auto
  obtain row where row: "db_runs db2 = db_runs db1 @ [row]" "rr_id row = run_text (de_fresh env)" "rr_job_id row = job_text i"
    using claim_run_row [OF c rt1] e1(5) by auto
  have "load_run C db' (de_fresh env) = Inr (Some run)" "run_table db'"
    using ce load_run_cong [OF e2(3)] run_table_cong [OF e2(3)] by auto
  moreover have "job_revisions_i64 db'" if "job_revisions_i64 db"
    using transition_job_keys [OF t2] transition_job_keys [OF t1 that] jobs2 by (simp add: job_revisions_i64_def)
  moreover have "map jr_id (db_jobs db') = map jr_id (db_jobs db)"
    using transition_job_ids [OF t1] transition_job_ids [OF t2] jobs2 by simp
  ultimately show thesis
    using that [OF env(3), of job3 run row] e1(3,5) e2 ce j1 j3 row by simp
qed

section \<open>Properties\<close>

text \<open>
  A due job is started exactly as the data model says: when the execution of a waiting job
  succeeds and its monitor is spawned, the job is stored as \<open>Running\<close>, and there is one new run,
  in \<open>Starting\<close>, claimed for the job's due time and numbered after all its earlier runs; the
  tables stay well formed.
\<close>

theorem due_job_started:
  assumes "job_keys db" "run_table db" "codec_ok C"
    and "load_job C db i = Inr (Some job)" "job_state job = JobState.Waiting"
    and "execute_single_due_job C env db i = (Inr (), db')" "de_spawn env = Inr ()"
  shows "\<exists>job' run. load_job C db' i = Inr (Some job') \<and> job_state job' = JobState.Running
    \<and> job_next_due job' = job_next_due job
    \<and> load_run C db' (de_fresh env) = Inr (Some run) \<and> run_state run = RunState.Starting
    \<and> run_job_id run = i \<and> run_scheduled_for run = job_next_due job
    \<and> (\<forall>row\<in>set (db_runs db). rr_job_id row = job_text i \<longrightarrow>
         rr_sequence row < int (unat (sequence_get (run_sequence run))))
    \<and> job_keys db' \<and> run_table db'"
  by (rule execute_started [OF assms]) blast

text \<open>
  A failed job is always requeued after two seconds, as its first attempt, and never given
  up: the closure forgets the count of every due job before it executes them, so the limit of
  three attempts in \<open>record_failure\<close> is never reached through the loop.
\<close>

theorem due_retry_always_first_attempt:
  assumes "distinct jobs"
  shows "fst (on_due C env now retries db jobs) =
    map (\<lambda>(i, _). SupervisorEvent.Schedule i (ElapsedInstant (as_nanos now + 2000000000)))
      (fst (execute_due_jobs C env db jobs))"
proof -
  have "fst (requeue now (fst (execute_due_jobs C env db jobs)) (fold (\<lambda>i r. forget r i) jobs retries)) =
    map (\<lambda>(i, _). SupervisorEvent.Schedule i (ElapsedInstant (as_nanos now + 2000000000)))
      (fst (execute_due_jobs C env db jobs))"
    using execute_due_jobs_failures [where C = C and env = env and db = db and jobs = jobs] assms
    by (intro requeue_fresh) (auto simp: fold_forget)
  then show ?thesis
    by (simp add: on_due_def case_prod_beta Let_def)
qed

text \<open>
  Taken alone, the retry policy is the one its comment describes: for a job that keeps
  failing it grants three attempts with a backoff of two, four and six seconds, then none.
\<close>

theorem record_failure_bounded:
  assumes "n < 2 ^ 31"
  shows "fst (record_failure (((\<lambda>r. snd (record_failure r i)) ^^ n) Map.empty) i) =
    (if n < 3 then Some \<lparr> attempt = of_nat (n + 1), seconds = of_nat (2 * (n + 1)) \<rparr> else None)"
proof -
  have count: "(((\<lambda>r. snd (record_failure r i)) ^^ m) Map.empty) i = (if m = 0 then None else Some (of_nat m))" for m
    by (induction m) (auto simp: record_failure_def Let_def split: if_splits)
  have u: "unat (of_nat (n + 1) :: u32) = n + 1"
    using assms by (simp add: unat_of_nat del: of_nat_add of_nat_Suc)
  have "(of_nat (n + 1) :: u32) > 3 \<longleftrightarrow> 3 < n + 1"
    unfolding word_less_nat_alt u by simp
  then have give_up: "3 \<le> n \<Longrightarrow> (of_nat n + 1 :: u32) > 3"
    by (simp add: add.commute)
  consider "n = 0" | "n = 1" | "n = 2" | "3 \<le> n" by linarith
  then show ?thesis
    by cases (use count [of n] give_up in \<open>simp_all add: record_failure_def Let_def MAX_ATTEMPTS_def\<close>)
qed

text \<open>
  C15. Nothing but the environment keeps a due job from starting: for a waiting job whose
  occurrence is not claimed yet, in an environment where no statement fails, the clock has not
  stepped back, the random token and identifier are unused and the counters are below their
  limits, the execution succeeds, and has started the job: the job is stored as \<open>Running\<close>, and the
  runs have grown by one, in \<open>Starting\<close>, claimed for the job's due time and numbered after all the
  earlier runs of the job.
\<close>

theorem due_job_progress:
  assumes "job_keys db" "run_table db" "job_revisions_i64 db" "codec_ok C"
    and "load_job C db i = Inr (Some job)" "job_state job = JobState.Waiting" "job_updated_at job \<le> now"
    and "unat (revision_get (job_revision job)) + 2 < 2 ^ 63" "healthy env now db"
    and "(job_text i, show_ts C (job_next_due job)) \<notin> occurrences db"
    and "last_sequence (job_text i) (db_runs db) + 1 < 2 ^ 63"
  shows "\<exists>db' job' run row. execute_single_due_job C env db i = (Inr (), db')
    \<and> load_job C db' i = Inr (Some job') \<and> job_state job' = JobState.Running \<and> job_next_due job' = job_next_due job
    \<and> unat (revision_get (job_revision job')) = unat (revision_get (job_revision job)) + 2
    \<and> load_run C db' (de_fresh env) = Inr (Some run) \<and> run_state run = RunState.Starting
    \<and> run_job_id run = i \<and> run_scheduled_for run = job_next_due job
    \<and> db_runs db' = db_runs db @ [row] \<and> rr_id row = run_text (de_fresh env)
    \<and> (\<forall>row\<in>set (db_runs db). rr_job_id row = job_text i \<longrightarrow>
         rr_sequence row < int (unat (sequence_get (run_sequence run))))"
proof -
  obtain db' where e: "execute_single_due_job C env db i = (Inr (), db')"
    using execute_succeeds [OF assms] by blast
  have "de_spawn env = Inr ()" using assms(9) by (simp add: healthy_def)
  then show ?thesis
    by (rule execute_started [OF assms(1,2,4-6) e]) (use e in blast)
qed

definition sample_env :: due_env where
  "sample_env = \<lparr> de_open = Inr (), de_now = Inr 7, de_finished = Inr 8, de_fault = (\<lambda>_ _. None),
     de_fresh = RunId 2, de_random = Inr sample_token, de_spawn = Inr () \<rparr>"

text \<open>The sample job, armed: stored and moved to \<open>Waiting\<close>.\<close>

lemma sample_armed:
  obtains db job where "job_keys db" "run_table db" "job_revisions_i64 db" "db_runs db = []"
    "load_job sample_codec db (job_id sample_job) = Inr (Some job)" "job_state job = JobState.Waiting"
    "job_updated_at job = 5" "unat (revision_get (job_revision job)) = 2"
proof -
  obtain db0 where c: "create sample_codec (\<lambda>_. None) empty_db sample_job = Inr db0"
    using sample_job_created by blast
  have keys: "job_keys db0"
    by (rule create_keys [OF c]) (simp add: job_keys_def empty_db_def)
  have base: "job_revisions_i64 db0" "db_runs db0 = []"
    using c by (auto simp: create_eq_Inr empty_db_def job_revisions_i64_def encode_job_row_def sample_job_def)
  obtain job db where t: "transition_job sample_codec (\<lambda>_. None) db0 (job_id sample_job) (job_revision sample_job)
      JobState.Waiting True Supervisor ''armed'' 5 = Inr (job, db)"
    using sample_transition [OF c] by blast
  note fr = transition_job_frame [OF t keys sample_codec_ok]
  have runs: "db_runs db = []" using fr(3) base(2) by simp
  obtain j tr where "load_job sample_codec db0 (job_id sample_job) = Inr (Some j)"
    and jt: "Job_transition j JobState.Waiting True Supervisor ''armed'' 5 = Inr (job, tr)"
    using transition_job_effect(6) [OF keys sample_codec_ok t] by blast
  then have "j = sample_job"
    using create_load(2) [OF c sample_codec_ok sample_job_storable] by simp
  with jt have j: "unat (revision_get (job_revision job)) = 2"
    "job = sample_job\<lparr>job_revision := job_revision job, job_state := JobState.Waiting, job_updated_at := 5\<rparr>"
    by (simp_all add: Job_transition_eq_Inr sample_job_def)
  have upd: "job_updated_at job = 5" by (subst j(2)) simp
  show thesis
    by (rule that [OF fr(2) _ transition_job_keys [OF t base(1)] runs fr(1,4) upd j(1)])
      (simp add: run_table_def runs)
qed

lemma sample_executes:
  assumes "db_runs db = []" "load_job sample_codec db (job_id sample_job) = Inr (Some job)"
  shows "healthy sample_env 7 db"
    "(job_text (job_id sample_job), show_ts sample_codec (job_next_due job)) \<notin> occurrences db"
    "last_sequence (job_text (job_id sample_job)) (db_runs db) + 1 < 2 ^ 63"
  using assms by (simp_all add: healthy_def sample_env_def sample_token_def occurrences_def last_sequence_def)

theorem due_job_progress_witness:
  "\<exists>db job. load_job sample_codec db (job_id sample_job) = Inr (Some job) \<and> job_state job = JobState.Waiting
     \<and> (\<exists>db' job' run. execute_single_due_job sample_codec sample_env db (job_id sample_job) = (Inr (), db')
           \<and> load_job sample_codec db' (job_id sample_job) = Inr (Some job') \<and> job_state job' = JobState.Running
           \<and> load_run sample_codec db' (RunId 2) = Inr (Some run) \<and> run_state run = RunState.Starting)"
proof -
  obtain db job where s: "job_keys db" "run_table db" "job_revisions_i64 db" "db_runs db = []"
    "load_job sample_codec db (job_id sample_job) = Inr (Some job)" "job_state job = JobState.Waiting"
    "job_updated_at job = 5" "unat (revision_get (job_revision job)) = 2"
    by (rule sample_armed)
  have "job_updated_at job \<le> 7" "unat (revision_get (job_revision job)) + 2 < 2 ^ 63" "de_fresh sample_env = RunId 2"
    using s(7,8) by (simp_all add: sample_env_def)
  with s(5,6) due_job_progress [OF s(1-3) sample_codec_ok s(5,6) _ _ sample_executes [OF s(4,5)]] show ?thesis by metis
qed

theorem due_job_started_witness:
  "\<exists>db db' job'. execute_single_due_job sample_codec sample_env db (job_id sample_job) = (Inr (), db')
     \<and> load_job sample_codec db' (job_id sample_job) = Inr (Some job') \<and> job_state job' = JobState.Running"
proof -
  obtain db job where s: "job_keys db" "run_table db" "job_revisions_i64 db" "db_runs db = []"
    "load_job sample_codec db (job_id sample_job) = Inr (Some job)" "job_state job = JobState.Waiting"
    "job_updated_at job = 5" "unat (revision_get (job_revision job)) = 2"
    by (rule sample_armed)
  obtain db' where e: "execute_single_due_job sample_codec sample_env db (job_id sample_job) = (Inr (), db')"
    using execute_succeeds [OF s(1-3) sample_codec_ok s(5,6) _ _ sample_executes [OF s(4,5)]] s(7,8) by auto
  have "de_spawn sample_env = Inr ()" by (simp add: sample_env_def)
  from e due_job_started [OF s(1,2) sample_codec_ok s(5,6) e this] show ?thesis by blast
qed

theorem due_retry_always_first_attempt_witness:
  "fst (on_due sample_codec (\<lambda>_. sample_env\<lparr>de_open := Inl Busy\<rparr>) (ElapsedInstant 0) [JobId 1 \<mapsto> 3] empty_db [JobId 1])
     = [SupervisorEvent.Schedule (JobId 1) (ElapsedInstant 2000000000)]"
  using due_retry_always_first_attempt [of "[JobId 1]" sample_codec "\<lambda>_. sample_env\<lparr>de_open := Inl Busy\<rparr>"
      "ElapsedInstant 0" "[JobId 1 \<mapsto> 3]" empty_db]
  by (simp add: execute_single_due_job_def on_ok_def)

theorem record_failure_bounded_witness:
  "fst (record_failure (((\<lambda>r. snd (record_failure r (JobId 1))) ^^ 3) Map.empty) (JobId 1)) = None"
  using record_failure_bounded [of 3 "JobId 1"] by simp

text \<open>
  When the due time of a waiting job has already been claimed, executing it moves the job to
  \<open>Starting\<close>, fails with \<open>DuplicateClaim\<close> and leaves it there: no run belongs to this start,
  and no later execution of the job, in whatever environment, changes the database any more.
\<close>

theorem duplicate_claim_strands_job:
  assumes "job_keys db" "job_revisions_i64 db" "codec_ok C"
    and "load_job C db i = Inr (Some job)" "job_state job = JobState.Waiting" "job_updated_at job \<le> now"
    and "unat (revision_get (job_revision job)) + 1 < 2 ^ 63"
    and "de_open env = Inr ()" "de_now env = Inr now" "\<And>k n. de_fault env k n = None"
    and "(job_text i, show_ts C (job_next_due job)) \<in> occurrences db"
  shows "\<exists>db' job'. execute_single_due_job C env db i = (Inl (DaemonError.Store DuplicateClaim), db')
    \<and> load_job C db' i = Inr (Some job') \<and> job_state job' = JobState.Starting \<and> db_runs db' = db_runs db
    \<and> (\<forall>env'. snd (execute_single_due_job C env' db' i) = db')"
proof -
  obtain job1 db1 where t: "transition_job C (de_fault env 2) db i (job_revision job) JobState.Starting False Supervisor
      ''deadline became due'' now = Inr (job1, db1)"
    and j: "job_state job1 = JobState.Starting" "job_next_due job1 = job_next_due job"
    and d: "load_job C db1 i = Inr (Some job1)" "db_runs db1 = db_runs db" "job_id job1 = i"
    by (rule starting_transition [OF assms(1-7,10)])
  have "claim_run C (de_fault env 3) db1 (de_fresh env) (de_random env) i (job_next_due job) now = Inl DuplicateClaim"
    by (rule claimed_occurrence_refused) (use assms(10,11) d(2) in \<open>simp_all add: occurrences_def\<close>)
  then have "execute_single_due_job C env db i = (Inl (DaemonError.Store DuplicateClaim), db1)"
    using execute_waiting [OF assms(4,5,8,10,9)] t j(2) d(3) by (simp add: on_ok_def)
  moreover have "snd (execute_single_due_job C env' db1 i) = db1" for env'
    by (rule execute_other_state [OF d(1)]) (simp add: j(1))
  ultimately show ?thesis
    using d j(1) by blast
qed

lemma sample_claimed_due:
  assumes "db_runs db = []" "load_job sample_codec db (job_id sample_job) = Inr (Some job)" "run_table db"
  obtains run db1 where "claim_run sample_codec (\<lambda>_. None) db (RunId 2) (Inr sample_token) (job_id sample_job)
      (job_next_due job) 7 = Inr (run, db1)" "db_jobs db1 = db_jobs db"
    "(job_text (job_id sample_job), show_ts sample_codec (job_next_due job)) \<in> occurrences db1"
proof -
  obtain run db1 where c: "claim_run sample_codec (\<lambda>_. None) db (RunId 2) (Inr sample_token) (job_id sample_job)
      (job_next_due job) 7 = Inr (run, db1)"
    using claim_run_succeeds [OF assms(3) load_job_row [OF assms(2)], of sample_codec "job_next_due job" sample_token
        "RunId 2" "\<lambda>_. None" 7] assms(1)
    by (auto simp: occurrences_def sample_token_def last_sequence_def)
  show thesis
    by (rule that [OF c claim_run_jobs [OF c] claim_run_occurrences [OF c assms(3)]])
qed

theorem duplicate_claim_strands_job_witness:
  "\<exists>db db' job'. execute_single_due_job sample_codec sample_env db (job_id sample_job)
       = (Inl (DaemonError.Store DuplicateClaim), db')
     \<and> load_job sample_codec db' (job_id sample_job) = Inr (Some job') \<and> job_state job' = JobState.Starting"
proof -
  obtain db job where s: "job_keys db" "run_table db" "job_revisions_i64 db" "db_runs db = []"
    "load_job sample_codec db (job_id sample_job) = Inr (Some job)" "job_state job = JobState.Waiting"
    "job_updated_at job = 5" "unat (revision_get (job_revision job)) = 2"
    by (rule sample_armed)
  obtain run db1 where c: "db_jobs db1 = db_jobs db"
    "(job_text (job_id sample_job), show_ts sample_codec (job_next_due job)) \<in> occurrences db1"
    by (rule sample_claimed_due [OF s(4,5,2)])
  have d: "job_keys db1" "job_revisions_i64 db1" "load_job sample_codec db1 (job_id sample_job) = Inr (Some job)"
    using s c(1) load_job_cong [OF c(1)] by (simp_all add: job_keys_def job_revisions_i64_def)
  have e: "de_open sample_env = Inr ()" "de_now sample_env = Inr 7" "\<And>k n. de_fault sample_env k n = None"
    by (simp_all add: sample_env_def)
  show ?thesis
    using duplicate_claim_strands_job [OF d(1,2) sample_codec_ok d(3) s(6) _ _ e c(2)] s(7,8) by auto
qed

section \<open>Wakes\<close>

lemma load_wake_attempts_Inr:
  "load_wake_attempts C i envs e = Inr d \<Longrightarrow> \<exists>env\<in>set envs. load_wake C env i = Inr d"
  by (induction envs arbitrary: e) (auto split: sum.splits if_splits)

lemma load_wake_Schedule:
  assumes "load_wake C env i = Inr (WakeDisposition.Schedule deadline)"
  shows "\<exists>job wall now. load_job C (we_db env) i = Inr (Some job) \<and> \<not> JobState_is_terminal (job_state job)
    \<and> we_wall env = Inr wall \<and> we_elapsed env = Inr now
    \<and> reconcile_wall_schedule wall now (job_next_due job) = Inr deadline"
  using assms by (auto simp: load_wake_def result_simps split: if_splits)

lemma serve_ipc_step:
  "serve_ipc C (Some c # connections) = (reply # replies, events) \<Longrightarrow> cn_frame c = Inr (Wake 1 i revision) \<Longrightarrow>
   cn_receiver_alive c \<Longrightarrow>
     (case load_wake_with_retry C (cn_envs c) i of
        Inr (WakeDisposition.Schedule d) \<Rightarrow> reply = Some (Ack 1 i revision) \<and> SupervisorEvent.Schedule i d \<in> set events
      | Inr WakeDisposition.AlreadyTerminal \<Rightarrow> reply = Some (Ack 1 i revision)
      | Inl e \<Rightarrow> reply = Some (Nack 1 (DaemonError_text e)))"
  by (auto simp: Let_def split: sum.splits WakeDisposition.splits prod.splits)

text \<open>
  While the loop is running, every wake of the current protocol that is served gets an
  answer.  It is acknowledged exactly when the job could be read: a job that has not ended is
  then scheduled at the elapsed-clock image of its stored due time, taken from one of at most
  three reads of the store, whatever the wake itself says; otherwise the reply carries the
  reason.
\<close>

theorem wake_always_answered:
  assumes "serve_ipc C (Some c # connections) = (reply # replies, events)"
    and "cn_frame c = Inr (Wake 1 i revision)" "cn_receiver_alive c"
  shows "(\<exists>e. reply = Some (Nack 1 (DaemonError_text e)) \<and> load_wake_with_retry C (cn_envs c) i = Inl e)
    \<or> (reply = Some (Ack 1 i revision)
       \<and> (load_wake_with_retry C (cn_envs c) i = Inr WakeDisposition.AlreadyTerminal
          \<or> (\<exists>k<3. \<exists>job wall now deadline. load_job C (we_db (cn_envs c k)) i = Inr (Some job)
               \<and> \<not> JobState_is_terminal (job_state job)
               \<and> we_wall (cn_envs c k) = Inr wall \<and> we_elapsed (cn_envs c k) = Inr now
               \<and> reconcile_wall_schedule wall now (job_next_due job) = Inr deadline
               \<and> SupervisorEvent.Schedule i deadline \<in> set events)))"
proof (cases "load_wake_with_retry C (cn_envs c) i")
  case (Inl e)
  then show ?thesis using serve_ipc_step [OF assms] by auto
next
  case (Inr d)
  show ?thesis
  proof (cases d)
    case (Schedule deadline)
    with Inr have "load_wake_attempts C i (map (cn_envs c) [0..<3]) MissingJob = Inr (WakeDisposition.Schedule deadline)"
      by (simp add: load_wake_with_retry_def)
    from load_wake_attempts_Inr [OF this] obtain k where
      "k < 3" "load_wake C (cn_envs c k) i = Inr (WakeDisposition.Schedule deadline)"
      by auto
    moreover have "reply = Some (Ack 1 i revision)" "SupervisorEvent.Schedule i deadline \<in> set events"
      using serve_ipc_step [OF assms] Inr Schedule by auto
    ultimately show ?thesis
      using load_wake_Schedule by blast
  next
    case AlreadyTerminal
    then show ?thesis using serve_ipc_step [OF assms] Inr by auto
  qed
qed

definition sample_wake :: "Database \<Rightarrow> connection" where
  "sample_wake db = \<lparr> cn_frame = Inr (Wake 1 (job_id sample_job) (Revision 1)),
     cn_envs = (\<lambda>k. \<lparr> we_db = db, we_open = Inr (), we_fault = (if k = 0 then Some Busy else None),
        we_wall = Inr 60000000000, we_elapsed = Inr (ElapsedInstant 9) \<rparr>),
     cn_receiver_alive = True \<rparr>"

theorem wake_always_answered_witness:
  "\<exists>db. serve_ipc sample_codec [Some (sample_wake db)]
       = ([Some (Ack 1 (job_id sample_job) (Revision 1))],
          [SupervisorEvent.Schedule (job_id sample_job) (ElapsedInstant 9)])
     \<and> (\<exists>deadline. SupervisorEvent.Schedule (job_id sample_job) deadline
          \<in> set [SupervisorEvent.Schedule (job_id sample_job) (ElapsedInstant 9)])"
proof -
  obtain db where c: "create sample_codec (\<lambda>_. None) empty_db sample_job = Inr db"
    using sample_job_created by blast
  have load: "load_job sample_codec db (job_id sample_job) = Inr (Some sample_job)"
    by (rule create_load(2) [OF c sample_codec_ok sample_job_storable])
  have due: "job_next_due sample_job = 60000000000" "job_state sample_job = JobState.Scheduled"
    by (simp_all add: sample_job_def)
  have wake: "load_wake_with_retry sample_codec (cn_envs (sample_wake db)) (job_id sample_job)
      = Inr (WakeDisposition.Schedule (ElapsedInstant 9))"
    by (simp add: load_wake_with_retry_def sample_wake_def load_wake_def statement_def load due
        upt_rec JobState_is_terminal_def reconcile_wall_schedule_def)
  have s: "serve_ipc sample_codec (Some (sample_wake db) # []) =
      (Some (Ack 1 (job_id sample_job) (Revision 1)) # [], [SupervisorEvent.Schedule (job_id sample_job) (ElapsedInstant 9)])"
    using wake by (simp add: sample_wake_def)
  have f: "cn_frame (sample_wake db) = Inr (Wake 1 (job_id sample_job) (Revision 1))" "cn_receiver_alive (sample_wake db)"
    by (simp_all add: sample_wake_def)
  from wake_always_answered [OF s f] wake s show ?thesis by fastforce
qed

end
