(* ===== verification/Reconcile.thy ===== *)
theory Reconcile
  imports Job Run Loop_Driver
begin

text \<open>
  Startup reconciliation (\<open>src/application/reconcile.rs\<close>): what the supervisor decides about
  each unfinished job it finds when it starts.  The inspection of operating-system processes
  is the parameter \<open>classify\<close>.  The plan is built by a loop over the records; the loop's
  pushes are appends to the three lists of the plan.
\<close>

section \<open>The code\<close>

datatype IdentityStatus = Alive | Dead | Changed

type_synonym classifier = "ProcessIdentitySnapshot \<Rightarrow> (string, IdentityStatus) result"

datatype CommandFate = Alive | Dead | Changed | Unknown

record RecoveryRecord =
  rec_job :: Job
  rec_active_run :: "Run option"

record RecoveredDeadline =
  rd_job_id :: JobId
  rd_scheduled_for :: UtcTimestamp
  rd_elapsed_due :: ElapsedInstant

datatype RecoveryAction =
    Interrupt JobId Revision "(RunId \<times> ClaimToken) option" CommandFate
  | MarkMissed JobId Revision
  | AdvanceRecurring JobId Revision UtcTimestamp

record RecoveryPlan =
  plan_deadlines :: "RecoveredDeadline list"
  plan_preserved :: "RunId list"
  plan_actions :: "RecoveryAction list"

definition RecoveryPlan_default :: RecoveryPlan where
  "RecoveryPlan_default = \<lparr> plan_deadlines = [], plan_preserved = [], plan_actions = [] \<rparr>"

datatype ReconciliationError =
    InvalidBootIdentity
  | TerminalJobLoaded JobId
  | UnexpectedActiveRun JobId
  | DeadlineOverflow

definition push_deadline :: "RecoveredDeadline \<Rightarrow> RecoveryPlan \<Rightarrow> RecoveryPlan" where
  "push_deadline d plan = plan\<lparr>plan_deadlines := plan_deadlines plan @ [d]\<rparr>"

definition push_action :: "RecoveryAction \<Rightarrow> RecoveryPlan \<Rightarrow> RecoveryPlan" where
  "push_action a plan = plan\<lparr>plan_actions := plan_actions plan @ [a]\<rparr>"

definition push_preserved :: "RunId \<Rightarrow> RecoveryPlan \<Rightarrow> RecoveryPlan" where
  "push_preserved r plan = plan\<lparr>plan_preserved := plan_preserved plan @ [r]\<rparr>"

definition interrupt_action ::
  "RecoveryRecord \<Rightarrow> (RunId \<times> ClaimToken) option \<Rightarrow> CommandFate \<Rightarrow> RecoveryAction" where
  "interrupt_action record run fate =
     Interrupt (job_id (rec_job record)) (job_revision (rec_job record)) run fate"

definition inspect_fate ::
  "ProcessIdentitySnapshot option \<Rightarrow> classifier \<Rightarrow> string \<Rightarrow> CommandFate" where
  "inspect_fate identity classify boot =
     (case identity of
        None \<Rightarrow> CommandFate.Unknown
      | Some identity \<Rightarrow>
          (if boot_identity identity \<noteq> boot then CommandFate.Changed
           else case classify identity of
             Inr IdentityStatus.Alive \<Rightarrow> CommandFate.Alive
           | Inr IdentityStatus.Dead \<Rightarrow> CommandFate.Dead
           | Inr IdentityStatus.Changed \<Rightarrow> CommandFate.Changed
           | Inl _ \<Rightarrow> CommandFate.Unknown))"

definition monitor_alive :: "Run \<Rightarrow> classifier \<Rightarrow> string \<Rightarrow> bool" where
  "monitor_alive run classify boot =
     (case run_monitor_identity run of
        None \<Rightarrow> False
      | Some identity \<Rightarrow>
          boot_identity identity = boot \<and> classify identity = Inr IdentityStatus.Alive)"

definition reconcile_active ::
  "RecoveryRecord \<Rightarrow> classifier \<Rightarrow> string \<Rightarrow> RecoveryPlan \<Rightarrow> RecoveryPlan" where
  "reconcile_active record classify boot plan =
     (case rec_active_run record of
        None \<Rightarrow> push_action (interrupt_action record None CommandFate.Unknown) plan
      | Some run \<Rightarrow>
          (if RunState_is_terminal (run_state run)
           then push_action (interrupt_action record None CommandFate.Unknown) plan
           else
             (let command_fate = inspect_fate (run_command_identity run) classify boot
              in if monitor_alive run classify boot
                    \<and> run_state run \<in> {RunState.Running, RunState.CancelRequested}
                 then push_preserved (run_id run) plan
                 else push_action
                   (interrupt_action record (Some (run_id run, run_claim_token run)) command_fate) plan)))"

definition deadline ::
  "JobId \<Rightarrow> UtcTimestamp \<Rightarrow> UtcTimestamp \<Rightarrow> ElapsedInstant \<Rightarrow>
     (ReconciliationError, RecoveredDeadline) result" where
  "deadline job scheduled_for wall_now elapsed_now =
     (let remaining = max (scheduled_for - wall_now) 0
      in try_bind
        (if remaining < 2 ^ 128 then Inr (of_int remaining :: u128) else Inl DeadlineOverflow)
        (\<lambda>remaining. try_bind
           (map_ok ElapsedInstant (ok_or DeadlineOverflow (checked_add (as_nanos elapsed_now) remaining)))
           (\<lambda>due. Inr \<lparr> rd_job_id = job, rd_scheduled_for = scheduled_for, rd_elapsed_due = due \<rparr>)))"

definition reconcile_waiting ::
  "(int \<Rightarrow> bool) \<Rightarrow> RecoveryRecord \<Rightarrow> UtcTimestamp \<Rightarrow> ElapsedInstant \<Rightarrow> RecoveryPlan \<Rightarrow>
     (ReconciliationError, RecoveryPlan) result" where
  "reconcile_waiting accepts record wall_now elapsed_now plan =
     (let job = rec_job record; due = job_next_due job
      in if wall_now < due
         then map_ok (\<lambda>d. push_deadline d plan) (deadline (job_id job) due wall_now elapsed_now)
         else case job_missed_policy job of
           RunLatest \<Rightarrow>
             (let plan = push_deadline
                \<lparr> rd_job_id = job_id job, rd_scheduled_for = due, rd_elapsed_due = elapsed_now \<rparr> plan
              in case job_schedule job of
                RecurringInterval interval anchor \<Rightarrow>
                  map_ok (\<lambda>next. push_action (AdvanceRecurring (job_id job) (job_revision job) next) plan)
                    (map_err (\<lambda>_. DeadlineOverflow) (next_fixed_rate_utc accepts anchor wall_now interval))
              | _ \<Rightarrow> Inr plan)
         | missed \<Rightarrow>
             (case (job_schedule job, missed) of
                (RecurringInterval interval anchor, Skip) \<Rightarrow>
                  try_bind
                    (map_err (\<lambda>_. DeadlineOverflow) (next_fixed_rate_utc accepts anchor wall_now interval))
                    (\<lambda>next. map_ok
                       (\<lambda>d. push_deadline d
                          (push_action (AdvanceRecurring (job_id job) (job_revision job) next) plan))
                       (deadline (job_id job) next wall_now elapsed_now))
              | _ \<Rightarrow> Inr (push_action (MarkMissed (job_id job) (job_revision job)) plan)))"

definition is_active_state :: "JobState \<Rightarrow> bool" where
  "is_active_state s = (s \<in> {JobState.Starting, JobState.Running, JobState.CancelRequested})"

definition plan_record ::
  "(int \<Rightarrow> bool) \<Rightarrow> classifier \<Rightarrow> UtcTimestamp \<Rightarrow> ElapsedInstant \<Rightarrow> string \<Rightarrow> RecoveryRecord \<Rightarrow>
     RecoveryPlan \<Rightarrow> (ReconciliationError, RecoveryPlan) result" where
  "plan_record accepts classify wall_now elapsed_now boot record plan =
     (let job = rec_job record
      in if JobState_is_terminal (job_state job) then Inl (TerminalJobLoaded (job_id job))
         else if is_active_state (job_state job) then Inr (reconcile_active record classify boot plan)
         else if rec_active_run record \<noteq> None then Inl (UnexpectedActiveRun (job_id job))
         else reconcile_waiting accepts record wall_now elapsed_now plan)"

fun plan_records ::
  "(int \<Rightarrow> bool) \<Rightarrow> classifier \<Rightarrow> UtcTimestamp \<Rightarrow> ElapsedInstant \<Rightarrow> string \<Rightarrow> RecoveryRecord list \<Rightarrow>
     RecoveryPlan \<Rightarrow> (ReconciliationError, RecoveryPlan) result" where
  "plan_records accepts classify wall_now elapsed_now boot [] plan = Inr plan"
| "plan_records accepts classify wall_now elapsed_now boot (record # records) plan =
     try_bind (plan_record accepts classify wall_now elapsed_now boot record plan)
       (plan_records accepts classify wall_now elapsed_now boot records)"

definition sort_plan :: "RecoveryPlan \<Rightarrow> RecoveryPlan" where
  "sort_plan plan = plan
     \<lparr> plan_deadlines := sort_key (\<lambda>d. (rd_elapsed_due d, rd_job_id d)) (plan_deadlines plan),
       plan_preserved := sort (plan_preserved plan) \<rparr>"

definition plan_recovery ::
  "(int \<Rightarrow> bool) \<Rightarrow> RecoveryRecord list \<Rightarrow> classifier \<Rightarrow> UtcTimestamp \<Rightarrow> ElapsedInstant \<Rightarrow> string \<Rightarrow>
     (ReconciliationError, RecoveryPlan) result" where
  "plan_recovery accepts records classify wall_now elapsed_now boot =
     (if boot = [] \<or> contains_nul boot then Inl InvalidBootIdentity
      else map_ok sort_plan
        (plan_records accepts classify wall_now elapsed_now boot records RecoveryPlan_default))"

text \<open>The supervisor's heap is rebuilt from the plan (\<open>src/supervisor/recovery.rs\<close>).\<close>

definition rebuild_deadline_heap :: "RecoveryPlan \<Rightarrow> DeadlineHeap option" where
  "rebuild_deadline_heap plan =
     upsert_all upsert DeadlineHeap_default
       (map (\<lambda>d. (rd_job_id d, rd_elapsed_due d)) (plan_deadlines plan))"

section \<open>What becomes of a record\<close>

text \<open>The contents of a plan, whatever the order.\<close>

definition plan_extends :: "RecoveryPlan \<Rightarrow> RecoveryPlan \<Rightarrow> bool" where
  "plan_extends p q =
     (set (plan_deadlines p) \<subseteq> set (plan_deadlines q) \<and> set (plan_preserved p) \<subseteq> set (plan_preserved q)
      \<and> set (plan_actions p) \<subseteq> set (plan_actions q))"

text \<open>A record is settled by a plan when its job gets a deadline, keeps a live run, or is closed.\<close>

definition settled :: "RecoveryPlan \<Rightarrow> RecoveryRecord \<Rightarrow> bool" where
  "settled plan record =
     (let job = rec_job record
      in (\<exists>d \<in> set (plan_deadlines plan). rd_job_id d = job_id job)
         \<or> (\<exists>run. rec_active_run record = Some run \<and> run_id run \<in> set (plan_preserved plan))
         \<or> (\<exists>run fate. Interrupt (job_id job) (job_revision job) run fate \<in> set (plan_actions plan))
         \<or> MarkMissed (job_id job) (job_revision job) \<in> set (plan_actions plan))"

lemmas push_simps = push_deadline_def push_action_def push_preserved_def

lemma plan_extends_refl [simp]: "plan_extends p p"
  by (simp add: plan_extends_def)

lemma plan_extends_trans: "plan_extends p q \<Longrightarrow> plan_extends q r \<Longrightarrow> plan_extends p r"
  by (auto simp: plan_extends_def)

lemma plan_extends_push [simp]:
  "plan_extends p (push_deadline d p)" "plan_extends p (push_action a p)" "plan_extends p (push_preserved r p)"
  by (auto simp: plan_extends_def push_simps)

lemma settled_mono: "settled p record \<Longrightarrow> plan_extends p q \<Longrightarrow> settled q record"
  unfolding settled_def plan_extends_def Let_def by blast

lemma sort_plan_extends: "plan_extends p (sort_plan p)" "plan_extends (sort_plan p) p"
  by (simp_all add: plan_extends_def sort_plan_def)

lemma deadline_eq_Inr:
  "deadline job due wall el = Inr d \<longleftrightarrow>
     rd_job_id d = job \<and> rd_scheduled_for d = due
     \<and> unat (as_nanos (rd_elapsed_due d)) = unat (as_nanos el) + nat (due - wall)"
proof -
  let ?r = "max (due - wall) 0"
  have n: "nat ?r = nat (due - wall)" by simp
  show ?thesis
  proof (cases "?r < 2 ^ 128")
    case True
    then have "unat (of_int ?r :: u128) = nat ?r"
      by (intro unat_of_int_u128) simp_all
    then show ?thesis
      using True n by (cases d; cases "rd_elapsed_due d")
        (auto simp: deadline_def Let_def result_simps checked_simps)
  next
    case False
    moreover have "unat (as_nanos (rd_elapsed_due d)) < 2 ^ 128"
      using unsigned_less [of "as_nanos (rd_elapsed_due d)", where 'a = nat] by simp
    moreover have "2 ^ 128 \<le> nat ?r"
      using False by simp
    ultimately show ?thesis
      by (auto simp: deadline_def Let_def)
  qed
qed

lemma reconcile_active_settles:
  "plan_extends plan (reconcile_active record classify boot plan) \<and>
   settled (reconcile_active record classify boot plan) record"
  by (auto simp: reconcile_active_def settled_def interrupt_action_def push_simps plan_extends_def Let_def
      split: option.splits)

lemma reconcile_waiting_settles:
  assumes "reconcile_waiting accepts record wall el plan = Inr plan'"
  shows "plan_extends plan plan' \<and> settled plan' record"
proof (cases "wall < job_next_due (rec_job record)")
  case True
  then show ?thesis
    using assms by (auto simp: reconcile_waiting_def Let_def result_simps deadline_eq_Inr settled_def push_simps
        plan_extends_def)
next
  case False
  then show ?thesis
    using assms
    by (cases "job_missed_policy (rec_job record)"; cases "job_schedule (rec_job record)")
      (auto simp: reconcile_waiting_def Let_def result_simps deadline_eq_Inr settled_def push_simps
        plan_extends_def)
qed

lemma plan_record_settles:
  "plan_record accepts classify wall el boot record plan = Inr plan' \<Longrightarrow>
     plan_extends plan plan' \<and> settled plan' record"
  using reconcile_active_settles reconcile_waiting_settles
  by (auto simp: plan_record_def Let_def split: if_splits)

lemma plan_records_settles:
  "plan_records accepts classify wall el boot records plan = Inr plan' \<Longrightarrow>
     plan_extends plan plan' \<and> (\<forall>record \<in> set records. settled plan' record)"
proof (induction records arbitrary: plan)
  case Nil
  then show ?case by simp
next
  case (Cons rc rcs)
  then obtain plan1 where "plan_record accepts classify wall el boot rc plan = Inr plan1"
    and rest: "plan_records accepts classify wall el boot rcs plan1 = Inr plan'"
    by (auto simp: result_simps)
  with Cons.IH [OF rest] show ?case
    using plan_record_settles plan_extends_trans settled_mono by (metis set_ConsD)
qed

lemma plan_recovery_eq_Inr:
  "plan_recovery accepts records classify wall el boot = Inr plan \<Longrightarrow>
     \<exists>p. plan_records accepts classify wall el boot records RecoveryPlan_default = Inr p \<and> plan = sort_plan p"
  by (auto simp: plan_recovery_def result_simps split: if_splits)

section \<open>Why an action is in the plan\<close>

definition keeps_live_run :: "classifier \<Rightarrow> string \<Rightarrow> RecoveryRecord \<Rightarrow> bool" where
  "keeps_live_run classify boot record =
     (\<exists>run. rec_active_run record = Some run \<and> monitor_alive run classify boot
        \<and> run_state run \<in> {RunState.Running, RunState.CancelRequested})"

definition overdue :: "UtcTimestamp \<Rightarrow> RecoveryRecord \<Rightarrow> bool" where
  "overdue wall record =
     (job_state (rec_job record) \<in> {JobState.Scheduled, JobState.Waiting}
      \<and> job_next_due (rec_job record) \<le> wall)"

fun justified ::
  "(int \<Rightarrow> bool) \<Rightarrow> classifier \<Rightarrow> UtcTimestamp \<Rightarrow> string \<Rightarrow> RecoveryRecord \<Rightarrow> RecoveryAction \<Rightarrow> bool"
where
  "justified accepts classify wall boot record (Interrupt j expected run fate) =
     (j = job_id (rec_job record) \<and> expected = job_revision (rec_job record)
      \<and> is_active_state (job_state (rec_job record)) \<and> \<not> keeps_live_run classify boot record
      \<and> (case run of None \<Rightarrow> True | Some (r, token) \<Rightarrow>
           (\<exists>ar. rec_active_run record = Some ar \<and> run_id ar = r \<and> run_claim_token ar = token
              \<and> \<not> RunState_is_terminal (run_state ar))))"
| "justified accepts classify wall boot record (MarkMissed j expected) =
     (j = job_id (rec_job record) \<and> expected = job_revision (rec_job record) \<and> overdue wall record
      \<and> job_missed_policy (rec_job record) \<noteq> RunLatest
      \<and> \<not> (job_missed_policy (rec_job record) = Skip
           \<and> (\<exists>d a. job_schedule (rec_job record) = RecurringInterval d a)))"
| "justified accepts classify wall boot record (AdvanceRecurring j expected t) =
     (j = job_id (rec_job record) \<and> expected = job_revision (rec_job record) \<and> overdue wall record
      \<and> job_missed_policy (rec_job record) \<in> {RunLatest, Skip}
      \<and> (\<exists>d a. job_schedule (rec_job record) = RecurringInterval d a
           \<and> next_fixed_rate_utc accepts a wall d = Inr t))"

text \<open>What one record adds to a plan.\<close>

definition adds_only ::
  "(int \<Rightarrow> bool) \<Rightarrow> classifier \<Rightarrow> UtcTimestamp \<Rightarrow> string \<Rightarrow> RecoveryRecord \<Rightarrow> RecoveryPlan \<Rightarrow>
     RecoveryPlan \<Rightarrow> bool" where
  "adds_only accepts classify wall boot record p q =
     ((\<forall>a \<in> set (plan_actions q). a \<in> set (plan_actions p) \<or> justified accepts classify wall boot record a)
      \<and> (\<forall>r \<in> set (plan_preserved q). r \<in> set (plan_preserved p) \<or>
           keeps_live_run classify boot record \<and> (\<exists>run. rec_active_run record = Some run \<and> run_id run = r)))"

lemma nonterminal_inactive:
  "\<not> JobState_is_terminal s \<Longrightarrow> \<not> is_active_state s \<Longrightarrow> s = JobState.Scheduled \<or> s = JobState.Waiting"
  by (cases s) (simp_all add: JobState_is_terminal_def is_active_state_def)

lemma active_nonterminal_run: "run_state r \<in> {RunState.Running, RunState.CancelRequested} \<Longrightarrow>
    \<not> RunState_is_terminal (run_state r)"
  by (auto simp: RunState_is_terminal_def)

lemma reconcile_active_adds:
  "is_active_state (job_state (rec_job record)) \<Longrightarrow>
   adds_only accepts classify wall boot record plan (reconcile_active record classify boot plan)"
  using active_nonterminal_run
  by (auto simp: adds_only_def reconcile_active_def interrupt_action_def push_simps keeps_live_run_def Let_def
      split: option.splits if_splits)

lemma reconcile_waiting_adds:
  assumes "reconcile_waiting accepts record wall el plan = Inr plan'"
    and "job_state (rec_job record) \<in> {JobState.Scheduled, JobState.Waiting}"
  shows "adds_only accepts classify wall boot record plan plan'"
proof (cases "wall < job_next_due (rec_job record)")
  case True
  then show ?thesis
    using assms(1) by (auto simp: reconcile_waiting_def Let_def result_simps adds_only_def push_simps)
next
  case False
  then have "overdue wall record"
    using assms(2) by (simp add: overdue_def)
  then show ?thesis
    using assms(1) False
    by (cases "job_missed_policy (rec_job record)"; cases "job_schedule (rec_job record)")
      (auto simp: reconcile_waiting_def Let_def result_simps adds_only_def push_simps)
qed

lemma plan_record_adds:
  assumes "plan_record accepts classify wall el boot record plan = Inr plan'"
  shows "adds_only accepts classify wall boot record plan plan'"
  using assms reconcile_active_adds [of "record" accepts classify wall boot plan]
    reconcile_waiting_adds [of accepts "record" wall el plan plan' classify boot] nonterminal_inactive
  by (auto simp: plan_record_def Let_def split: if_splits)

lemma plan_records_adds:
  "plan_records accepts classify wall el boot records plan = Inr plan' \<Longrightarrow>
     (\<forall>a \<in> set (plan_actions plan'). a \<in> set (plan_actions plan) \<or>
        (\<exists>record \<in> set records. justified accepts classify wall boot record a))
     \<and> (\<forall>r \<in> set (plan_preserved plan'). r \<in> set (plan_preserved plan) \<or>
        (\<exists>record \<in> set records. keeps_live_run classify boot record
           \<and> (\<exists>run. rec_active_run record = Some run \<and> run_id run = r)))"
proof (induction records arbitrary: plan)
  case Nil
  then show ?case by simp
next
  case (Cons rc rcs)
  then obtain plan1 where "plan_record accepts classify wall el boot rc plan = Inr plan1"
    and rest: "plan_records accepts classify wall el boot rcs plan1 = Inr plan'"
    by (auto simp: result_simps)
  with Cons.IH [OF rest] plan_record_adds show ?case
    unfolding adds_only_def by (metis list.set_intros)
qed

section \<open>Properties\<close>

text \<open>
  Recovery forgets no job: when it succeeds, every loaded record ends with a deadline for
  its job, a preserved live run, an interruption, or a missed mark, under the revision that was
  loaded.
\<close>

theorem recovery_settles_every_record:
  assumes "plan_recovery accepts records classify wall el boot = Inr plan" "record \<in> set records"
  shows "settled plan record"
  using plan_recovery_eq_Inr [OF assms(1)] plan_records_settles assms(2) settled_mono sort_plan_extends(1)
  by blast

definition sample_record :: RecoveryRecord where
  "sample_record = \<lparr> rec_job = sample_job, rec_active_run = None \<rparr>"

lemma sample_plan:
  "\<exists>plan. plan_recovery (\<lambda>_. True) [sample_record] classify 5 (ElapsedInstant 7) ''boot'' = Inr plan"
  by (simp add: plan_recovery_def contains_nul_def plan_record_def sample_record_def sample_job_def
      JobState_is_terminal_def is_active_state_def reconcile_waiting_def deadline_def Let_def checked_add_def)

theorem recovery_settles_every_record_witness:
  "\<exists>plan. plan_recovery (\<lambda>_. True) [sample_record] (\<lambda>_. Inl ''none'') 5 (ElapsedInstant 7) ''boot'' = Inr plan
     \<and> settled plan sample_record"
  using sample_plan [of "\<lambda>_. Inl ''none''"] recovery_settles_every_record [of "\<lambda>_. True" "[sample_record]"] by auto

text \<open>
  Recovery acts only with cause.  A run is preserved only when its monitor was recorded in
  this boot and is alive.  An interruption is planned only for an active job without such a
  run, and names the claim of its unfinished run; a job is marked missed only when it is
  overdue and its policy does not run or skip to a later occurrence; a recurring job is
  advanced only when overdue, to the next occurrence of its schedule after now.
\<close>

theorem recovery_actions_justified:
  assumes "plan_recovery accepts records classify wall el boot = Inr plan"
  shows "(\<forall>a \<in> set (plan_actions plan). \<exists>record \<in> set records. justified accepts classify wall boot record a)
    \<and> (\<forall>r \<in> set (plan_preserved plan). \<exists>record \<in> set records. keeps_live_run classify boot record
         \<and> (\<exists>run. rec_active_run record = Some run \<and> run_id run = r))"
proof -
  obtain p where p: "plan_records accepts classify wall el boot records RecoveryPlan_default = Inr p"
    and plan: "plan = sort_plan p"
    using plan_recovery_eq_Inr [OF assms] by blast
  have "plan_actions RecoveryPlan_default = []" "plan_preserved RecoveryPlan_default = []"
    "set (plan_actions plan) = set (plan_actions p)" "set (plan_preserved plan) = set (plan_preserved p)"
    by (simp_all add: RecoveryPlan_default_def plan sort_plan_def)
  then show ?thesis
    using plan_records_adds [OF p] by simp
qed

theorem recovery_actions_justified_witness:
  "\<exists>plan. plan_recovery (\<lambda>_. True) [sample_record] (\<lambda>_. Inl ''none'') 5 (ElapsedInstant 7) ''boot'' = Inr plan
     \<and> (\<forall>a \<in> set (plan_actions plan). \<exists>record \<in> set [sample_record].
          justified (\<lambda>_. True) (\<lambda>_. Inl ''none'') 5 ''boot'' record a)"
  using sample_plan [of "\<lambda>_. Inl ''none''"] recovery_actions_justified by blast

text \<open>
  Rebuilding the heap from a plan never fails, and the heap holds the last planned deadline
  of each job and nothing else.
\<close>

theorem rebuilt_heap_holds_plan:
  "\<exists>h. rebuild_deadline_heap plan = Some h \<and> valid_heap h
     \<and> deadlines h = map_of (rev (map (\<lambda>d. (rd_job_id d, rd_elapsed_due d)) (plan_deadlines plan)))"
  using dh.upsert_all_dues [OF dh.new(1)] dh.new(2) by (simp add: rebuild_deadline_heap_def)

end
