(* ===== verification/Recovery_Store.thy ===== *)
theory Recovery_Store
  imports Daemon Reconcile "HOL-Library.Char_ord" "HOL-Library.List_Lexorder"
begin

text \<open>
  Startup recovery on the store (\<open>src/infrastructure/sqlite/reconcile.rs\<close>), retention
  (\<open>src/infrastructure/sqlite/retention.rs\<close>) and the service that combines them
  (\<open>reconcile_startup\<close> of \<open>src/application/reconcile.rs\<close>).

  Texts compare byte by byte, as SQLite's default collation does.  A query without \<open>ORDER BY\<close>
  delivers the rows in table order.  The actions of a plan are applied in one transaction:
  \<open>fault k n\<close> is the error of the \<open>n\<close>-th statement of the action with \<open>k\<close> actions after it, and \<open>edge\<close> gives the
  errors of opening and committing the transaction.
\<close>

section \<open>Loading\<close>

definition MAX_RECOVERY_RECORDS :: nat where
  "MAX_RECOVERY_RECORDS = 100000"

definition active_run_row :: "run_row \<Rightarrow> bool" where
  "active_run_row row = (rr_state row \<in> {''starting'', ''running'', ''cancel_requested''})"

definition nonterminal_job_row :: "job_row \<Rightarrow> bool" where
  "nonterminal_job_row row =
     (jr_state row \<in> {''scheduled'', ''waiting'', ''starting'', ''running'', ''cancel_requested''})"

text \<open>The hash map of active runs, as the list of its entries.\<close>

fun collect_runs ::
  "codec \<Rightarrow> run_row list \<Rightarrow> (JobId \<times> Run) list \<Rightarrow> (StoreError, (JobId \<times> Run) list) result" where
  "collect_runs C [] active = Inr active"
| "collect_runs C (row # rows) active =
     try_bind (decode_run_row C row) (\<lambda>run.
       if map_of active (run_job_id run) \<noteq> None then Inl (Corrupt ''job has more than one active run'')
       else if length ((run_job_id run, run) # active) > MAX_RECOVERY_RECORDS
       then Inl (Corrupt ''too many active runs to reconcile'')
       else collect_runs C rows ((run_job_id run, run) # active))"

fun collect_jobs ::
  "codec \<Rightarrow> job_row list \<Rightarrow> (JobId \<times> Run) list \<Rightarrow> RecoveryRecord list \<Rightarrow>
     (StoreError, RecoveryRecord list \<times> (JobId \<times> Run) list) result" where
  "collect_jobs C [] active records = Inr (records, active)"
| "collect_jobs C (row # rows) active records =
     try_bind (decode_job_row C row) (\<lambda>job.
       (let active_run = map_of active (job_id job);
            active = filter (\<lambda>(i, _). i \<noteq> job_id job) active;
            records = records @ [\<lparr> rec_job = job, rec_active_run = active_run \<rparr>]
        in if length records > MAX_RECOVERY_RECORDS then Inl (Corrupt ''too many jobs to reconcile'')
           else collect_jobs C rows active records))"

definition load_nonterminal ::
  "codec \<Rightarrow> (nat \<Rightarrow> StoreError option) \<Rightarrow> Database \<Rightarrow> (StoreError, RecoveryRecord list) result" where
  "load_nonterminal C fault db =
     try_bind (statement fault 0) (\<lambda>_.
     try_bind (collect_runs C (take (MAX_RECOVERY_RECORDS + 1) (filter active_run_row (db_runs db))) []) (\<lambda>active.
     try_bind (statement fault 1) (\<lambda>_.
     try_bind (collect_jobs C (take (MAX_RECOVERY_RECORDS + 1) (sort_key jr_id (filter nonterminal_job_row (db_jobs db))))
         active []) (\<lambda>(records, left).
     if left \<noteq> [] then Inl (Corrupt ''active run belongs to a terminal or missing job'')
     else Inr records))))"

section \<open>Applying a plan\<close>

fun interruption_reason :: "CommandFate \<Rightarrow> string" where
  "interruption_reason CommandFate.Alive = ''run monitor disappeared while command remains alive''"
| "interruption_reason CommandFate.Dead = ''run monitor and command are no longer alive''"
| "interruption_reason CommandFate.Changed = ''stored process identity no longer matches''"
| "interruption_reason CommandFate.Unknown = ''run outcome and process identity are unknown''"

definition revision_i64 :: "Revision \<Rightarrow> (StoreError, int) result" where
  "revision_i64 revision =
     (if unat (revision_get revision) < 2 ^ 63 then Inr (int (unat (revision_get revision)))
      else Inl (Corrupt ''revision exceeds SQLite i64''))"

definition next_revision :: "Revision \<Rightarrow> (StoreError, int) result" where
  "next_revision revision =
     try_bind (map_err (\<lambda>e. Domain (PrimitiveError_text e)) (Revision_next revision)) revision_i64"

definition recovery_transition_job ::
  "codec \<Rightarrow> (nat \<Rightarrow> StoreError option) \<Rightarrow> Database \<Rightarrow> JobId \<Rightarrow> Revision \<Rightarrow> string \<Rightarrow> UtcTimestamp \<Rightarrow> string \<Rightarrow>
     string list \<Rightarrow> (StoreError, Database) result" where
  "recovery_transition_job C fault db i expected target now reason allowed =
     try_bind (revision_i64 expected) (\<lambda>old.
     try_bind (statement fault 1) (\<lambda>_.
     try_bind (ok_or Conflict
         (map_option jr_state (find (\<lambda>row. jr_id row = job_text i \<and> jr_revision row = old) (db_jobs db)))) (\<lambda>current.
     if current \<notin> set allowed then Inl Conflict
     else
     try_bind (next_revision expected) (\<lambda>revision.
     try_bind (statement fault 2) (\<lambda>_.
     (let (changed, db1) = update_jobs
        (\<lambda>row. jr_id row = job_text i \<and> jr_revision row = old \<and> jr_state row = current)
        (\<lambda>row. row\<lparr>jr_revision := revision, jr_state := target, jr_updated_at := show_ts C now\<rparr>) db
      in if changed \<noteq> 1 then Inl Conflict
         else try_bind (statement fault 3) (\<lambda>_.
           Inr (insert_transition
             \<lparr> tw_job_id = job_text i, tw_from = current, tw_to = target, tw_occurred_at = show_ts C now,
               tw_actor = ''recovery'', tw_reason = reason, tw_revision = revision \<rparr> db1))))))))"

definition interrupt_run ::
  "codec \<Rightarrow> (nat \<Rightarrow> StoreError option) \<Rightarrow> Database \<Rightarrow> (RunId \<times> ClaimToken) option \<Rightarrow> string \<Rightarrow> UtcTimestamp \<Rightarrow>
     (StoreError, Database) result" where
  "interrupt_run C fault db run reason now =
     (case run of
        None \<Rightarrow> Inr db
      | Some (i, token) \<Rightarrow>
          try_bind (corrupt id (outcome_to_json C (RunOutcome.Interrupted reason))) (\<lambda>outcome_json.
          try_bind (statement fault 0) (\<lambda>_.
          (let (changed, db1) = update_runs
             (\<lambda>row. rr_id row = run_text i \<and> rr_state row \<in> {''starting'', ''running'', ''cancel_requested''}
                \<and> rr_claim_token row = token_bytes token)
             (\<lambda>row. row\<lparr>rr_state := ''interrupted'', rr_finished_at := Some (show_ts C now),
                rr_failure := Some reason, rr_outcome := Some outcome_json\<rparr>) db
           in if changed \<noteq> 1 then Inl Conflict else Inr db1))))"

fun apply_action ::
  "codec \<Rightarrow> (nat \<Rightarrow> StoreError option) \<Rightarrow> Database \<Rightarrow> RecoveryAction \<Rightarrow> UtcTimestamp \<Rightarrow> (StoreError, Database) result" where
  "apply_action C fault db (Interrupt i expected run fate) now =
     try_bind (interrupt_run C fault db run (interruption_reason fate) now) (\<lambda>db.
       recovery_transition_job C fault db i expected ''interrupted'' now (interruption_reason fate)
         [''starting'', ''running'', ''cancel_requested''])"
| "apply_action C fault db (MarkMissed i expected) now =
     recovery_transition_job C fault db i expected ''missed'' now
       ''deadline passed while no supervisor owned the job'' [''scheduled'', ''waiting'']"
| "apply_action C fault db (AdvanceRecurring i expected due) now =
     try_bind (next_revision expected) (\<lambda>revision.
     try_bind (revision_i64 expected) (\<lambda>old.
     try_bind (statement fault 0) (\<lambda>_.
     (let (changed, db1) = update_jobs
        (\<lambda>row. jr_id row = job_text i \<and> jr_revision row = old \<and> jr_state row \<in> {''scheduled'', ''waiting''})
        (\<lambda>row. row\<lparr>jr_revision := revision, jr_updated_at := show_ts C now, jr_next_due := show_ts C due\<rparr>) db
      in if changed \<noteq> 1 then Inl Conflict else Inr db1))))"

fun apply_actions ::
  "codec \<Rightarrow> (nat \<Rightarrow> nat \<Rightarrow> StoreError option) \<Rightarrow> Database \<Rightarrow> RecoveryAction list \<Rightarrow> UtcTimestamp \<Rightarrow>
     (StoreError, Database) result" where
  "apply_actions C fault db [] now = Inr db"
| "apply_actions C fault db (a # actions) now =
     try_bind (apply_action C (fault (length actions)) db a now) (\<lambda>db. apply_actions C fault db actions now)"

definition apply_recovery ::
  "codec \<Rightarrow> (nat \<Rightarrow> StoreError option) \<Rightarrow> (nat \<Rightarrow> nat \<Rightarrow> StoreError option) \<Rightarrow> Database \<Rightarrow> RecoveryAction list \<Rightarrow>
     UtcTimestamp \<Rightarrow> (StoreError, Database) result" where
  "apply_recovery C edge fault db actions now =
     try_bind (statement edge 0) (\<lambda>_.
     try_bind (apply_actions C fault db actions now) (\<lambda>db.
     try_bind (statement edge 1) (\<lambda>_. Inr db)))"

section \<open>Retention\<close>

definition MAX_RETENTION_DAYS :: u16 where
  "MAX_RETENTION_DAYS = 3650"

record RetentionPolicy =
  history_days :: u16
  terminal_job_days :: u16

datatype RetentionError = InvalidDays

record RetentionReport =
  report_runs :: nat
  report_jobs :: nat
  report_transitions :: nat

definition RetentionPolicy_new :: "u16 \<Rightarrow> u16 \<Rightarrow> (RetentionError, RetentionPolicy) result" where
  "RetentionPolicy_new history terminal =
     (if history = 0 \<or> history > MAX_RETENTION_DAYS \<or> terminal = 0 \<or> terminal > MAX_RETENTION_DAYS
      then Inl InvalidDays
      else Inr \<lparr> history_days = history, terminal_job_days = terminal \<rparr>)"

text \<open>The interval of at most 65535 days fits an \<open>i64\<close>; \<open>accepts\<close> is jiff's timestamp range.\<close>

definition cutoff :: "codec \<Rightarrow> (int \<Rightarrow> bool) \<Rightarrow> UtcTimestamp \<Rightarrow> u16 \<Rightarrow> (StoreError, string) result" where
  "cutoff C accepts now days =
     (let then_utc = now - int (unat days) * (24 * 60 * 60) * 10 ^ 9
      in if accepts then_utc then Inr (show_ts C then_utc) else Inl (Domain ''retention cutoff overflow''))"

definition record_log_truncation ::
  "(nat \<Rightarrow> StoreError option) \<Rightarrow> Database \<Rightarrow> RunId \<Rightarrow> ClaimToken \<Rightarrow> bool \<Rightarrow> bool \<Rightarrow> (StoreError, Database) result" where
  "record_log_truncation fault db i token stdout_truncated stderr_truncated =
     try_bind (statement fault 0) (\<lambda>_.
     (let (changed, db1) = update_runs
        (\<lambda>row. rr_id row = run_text i \<and> rr_claim_token row = token_bytes token)
        (\<lambda>row. row\<lparr>rr_stdout_truncated := stdout_truncated, rr_stderr_truncated := stderr_truncated\<rparr>) db
      in if changed = 1 then Inr db1 else Inl StoreError.InvalidClaim))"

text \<open>\<open>DELETE\<close> with the foreign keys' cascade from jobs to their runs and transitions.\<close>

definition expired_run :: "string \<Rightarrow> run_row \<Rightarrow> bool" where
  "expired_run limit row =
     (rr_state row \<in> {''succeeded'', ''failed'', ''cancelled'', ''interrupted''}
      \<and> (case rr_finished_at row of None \<Rightarrow> False | Some t \<Rightarrow> t < limit))"

definition expired_job :: "string \<Rightarrow> job_row \<Rightarrow> bool" where
  "expired_job limit row =
     (jr_state row \<in> {''succeeded'', ''failed'', ''cancelled'', ''interrupted'', ''missed''} \<and> jr_updated_at row < limit)"

definition delete_jobs :: "(job_row \<Rightarrow> bool) \<Rightarrow> Database \<Rightarrow> Database" where
  "delete_jobs cond db =
     (let gone = jr_id ` {row \<in> set (db_jobs db). cond row}
      in db\<lparr> db_jobs := filter (\<lambda>row. \<not> cond row) (db_jobs db),
             db_runs := filter (\<lambda>row. rr_job_id row \<notin> gone) (db_runs db),
             db_transitions := filter (\<lambda>row. tw_job_id row \<notin> gone) (db_transitions db) \<rparr>)"

definition cleanup_retention ::
  "codec \<Rightarrow> (int \<Rightarrow> bool) \<Rightarrow> (nat \<Rightarrow> StoreError option) \<Rightarrow> Database \<Rightarrow> UtcTimestamp \<Rightarrow> RetentionPolicy \<Rightarrow>
     (StoreError, RetentionReport \<times> Database) result" where
  "cleanup_retention C accepts fault db now policy =
     try_bind (cutoff C accepts now (history_days policy)) (\<lambda>history_cutoff.
     try_bind (cutoff C accepts now (terminal_job_days policy)) (\<lambda>job_cutoff.
     try_bind (statement fault 0) (\<lambda>_.
     try_bind (statement fault 1) (\<lambda>_.
     try_bind (statement fault 2) (\<lambda>_.
     try_bind (statement fault 3) (\<lambda>_.
     try_bind (statement fault 4) (\<lambda>_.
     (let runs = length (filter (expired_run history_cutoff) (db_runs db));
          db1 = db\<lparr>db_runs := filter (\<lambda>row. \<not> expired_run history_cutoff row) (db_runs db)\<rparr>;
          transitions = length (filter (\<lambda>row. tw_occurred_at row < history_cutoff) (db_transitions db1));
          db2 = db1\<lparr>db_transitions := filter (\<lambda>row. \<not> tw_occurred_at row < history_cutoff) (db_transitions db1)\<rparr>;
          jobs = length (filter (expired_job job_cutoff) (db_jobs db2))
      in Inr (\<lparr> report_runs = runs, report_jobs = jobs, report_transitions = transitions \<rparr>,
              delete_jobs (expired_job job_cutoff) db2)))))))))"

section \<open>Startup\<close>

datatype StartupReconciliationError = Plan ReconciliationError | Store string

definition reconcile_startup ::
  "('db \<Rightarrow> (string, RecoveryRecord list) result) \<Rightarrow> ('db \<Rightarrow> RecoveryAction list \<Rightarrow> UtcTimestamp \<Rightarrow> (string, 'db) result) \<Rightarrow>
     ('db \<Rightarrow> UtcTimestamp \<Rightarrow> (string, 'db) result) \<Rightarrow> (int \<Rightarrow> bool) \<Rightarrow> classifier \<Rightarrow> 'db \<Rightarrow> UtcTimestamp \<Rightarrow>
     ElapsedInstant \<Rightarrow> string \<Rightarrow> (StartupReconciliationError, RecoveryPlan) result \<times> 'db" where
  "reconcile_startup load apply_plan cleanup accepts classify db wall_now elapsed_now boot =
     on_ok StartupReconciliationError.Store (load db) db (\<lambda>records.
     on_ok Plan (plan_recovery accepts records classify wall_now elapsed_now boot) db (\<lambda>plan.
     on_ok StartupReconciliationError.Store (apply_plan db (plan_actions plan) wall_now) db (\<lambda>db.
     on_ok StartupReconciliationError.Store (cleanup db wall_now) db (\<lambda>db.
     (Inr plan, db)))))"

text \<open>The trait \<open>RecoveryStore\<close> implemented by \<open>StartupStore\<close>.\<close>

definition startup_load :: "codec \<Rightarrow> (nat \<Rightarrow> StoreError option) \<Rightarrow> Database \<Rightarrow> (string, RecoveryRecord list) result" where
  "startup_load C fault db = map_err StoreError_text (load_nonterminal C fault db)"

definition startup_apply ::
  "codec \<Rightarrow> (nat \<Rightarrow> StoreError option) \<Rightarrow> (nat \<Rightarrow> nat \<Rightarrow> StoreError option) \<Rightarrow> Database \<Rightarrow> RecoveryAction list \<Rightarrow>
     UtcTimestamp \<Rightarrow> (string, Database) result" where
  "startup_apply C edge fault db actions now = map_err StoreError_text (apply_recovery C edge fault db actions now)"

definition startup_cleanup ::
  "codec \<Rightarrow> (int \<Rightarrow> bool) \<Rightarrow> (nat \<Rightarrow> StoreError option) \<Rightarrow> RetentionPolicy \<Rightarrow> Database \<Rightarrow> UtcTimestamp \<Rightarrow>
     (string, Database) result" where
  "startup_cleanup C accepts fault policy db now =
     map_ok snd (map_err StoreError_text (cleanup_retention C accepts fault db now policy))"

section \<open>The job table as a map\<close>

definition job_row_of :: "Database \<Rightarrow> JobId \<Rightarrow> job_row option" where
  "job_row_of db i = find (\<lambda>row. jr_id row = job_text i) (db_jobs db)"

definition job_table :: "Database \<Rightarrow> bool" where
  "job_table db =
     (job_keys db \<and> list_all (\<lambda>r. 0 < jr_revision r \<and> jr_revision r < 2 ^ 63 \<and> (\<exists>s. jr_state r = encode_job_state s))
        (db_jobs db))"

definition stored_job_state :: "Database \<Rightarrow> JobId \<Rightarrow> JobState option" where
  "stored_job_state db i =
     (case job_row_of db i of None \<Rightarrow> None
      | Some row \<Rightarrow> find (\<lambda>s. encode_job_state s = jr_state row) JobState_ALL)"

lemma find_job_state: "find (\<lambda>s. encode_job_state s = encode_job_state t) JobState_ALL = Some t"
  by (rule find_by_text) (cases t, simp_all add: JobState_ALL_def encode_job_state_inject)

lemma stored_job_state_eq:
  "stored_job_state db i = Some s \<longleftrightarrow> (\<exists>row. job_row_of db i = Some row \<and> jr_state row = encode_job_state s)"
proof -
  have "find (\<lambda>s. encode_job_state s = v) JobState_ALL = Some s \<longleftrightarrow> v = encode_job_state s" for v
    using find_job_state [of s] by (auto simp: find_Some_iff)
  then show ?thesis by (auto simp: stored_job_state_def split: option.splits)
qed

lemma decode_job_state_eq_Inr: "decode_job_state C v = Inr s \<longleftrightarrow> v = encode_job_state s"
proof
  assume "decode_job_state C v = Inr s"
  then have "find (\<lambda>t. encode_job_state t = v) JobState_ALL = Some s"
    by (auto simp: decode_job_state_def decode_by_def result_simps)
  then show "v = encode_job_state s" by (auto simp: find_Some_iff)
qed simp

lemma load_job_stored_state:
  assumes "load_job C db i = Inr (Some job)"
  shows "stored_job_state db i = Some (job_state job)"
proof -
  obtain row where "find (\<lambda>row. jr_id row = job_text i) (db_jobs db) = Some row" "decode_job_row C row = Inr job"
    using assms unfolding load_job_eq_Inr by blast
  then show ?thesis
    by (simp add: stored_job_state_eq job_row_of_def decode_job_row_eq_Inr decode_job_state_eq_Inr)
qed

lemma job_row_of_in: "job_row_of db i = Some row \<Longrightarrow> row \<in> set (db_jobs db) \<and> jr_id row = job_text i"
  by (auto simp: job_row_of_def find_Some_iff)

lemma job_row_of_unique:
  assumes "job_keys db" "row \<in> set (db_jobs db)" "jr_id row = job_text i"
  shows "job_row_of db i = Some row"
  using find_unique [of jr_id "db_jobs db" row] assms by (simp add: job_row_of_def job_keys_def)

lemma update_jobs_row:
  assumes "\<And>y. P y \<Longrightarrow> jr_id y = job_text i" "\<And>y. jr_id (g y) = jr_id y"
  shows "job_row_of (snd (update_jobs P g db)) k = map_option (\<lambda>row. if P row then g row else row) (job_row_of db k)"
  unfolding job_row_of_def update_jobs_def snd_conv
  by (simp add: find_map_update [where f = jr_id, OF assms(2,1)])

section \<open>Evolution of the database\<close>

text \<open>No stored state moves except along legal one-shot transitions, and the tables stay well
  formed.\<close>

definition evolves :: "Database \<Rightarrow> Database \<Rightarrow> bool" where
  "evolves db db' =
     (job_table db' \<and> run_table db'
      \<and> (\<forall>i s. stored_job_state db i = Some s \<longrightarrow> (\<exists>t. stored_job_state db' i = Some t \<and> (job_step False)\<^sup>*\<^sup>* s t))
      \<and> (\<forall>i s. stored_state db i = Some s \<longrightarrow> (\<exists>t. stored_state db' i = Some t \<and> run_step\<^sup>*\<^sup>* s t)))"

lemma evolves_refl: "job_table db \<Longrightarrow> run_table db \<Longrightarrow> evolves db db"
  by (simp add: evolves_def)

lemma evolves_trans:
  assumes "evolves a b" "evolves b c"
  shows "evolves a c"
proof -
  have "\<exists>t. stored_job_state c i = Some t \<and> (job_step False)\<^sup>*\<^sup>* s t" if "stored_job_state a i = Some s" for i s
    using assms that unfolding evolves_def by (meson rtranclp_trans)
  moreover have "\<exists>t. stored_state c i = Some t \<and> run_step\<^sup>*\<^sup>* s t" if "stored_state a i = Some s" for i s
    using assms that unfolding evolves_def by (meson rtranclp_trans)
  ultimately show ?thesis
    using assms(2) by (simp add: evolves_def)
qed

lemma evolves_tables: "evolves db db' \<Longrightarrow> job_table db' \<and> run_table db'"
  by (simp add: evolves_def)

lemma evolves_terminal:
  assumes "evolves db db'" "stored_job_state db i = Some s" "JobState_is_terminal s"
  shows "stored_job_state db' i = Some s"
proof -
  obtain t where t: "stored_job_state db' i = Some t" "(job_step False)\<^sup>*\<^sup>* s t"
    using assms(1,2) unfolding evolves_def by blast
  have "\<not> job_step False s u" for u
    using assms(3) by (cases s) (auto simp: job_step_iff one_shot_legal_def JobState_is_terminal_def)
  with t(2) have "t = s" by (auto elim: converse_rtranclpE)
  with t(1) show ?thesis by simp
qed

lemma evolves_job_update:
  assumes "job_table db" "run_table db"
    and "\<And>y. P y \<Longrightarrow> jr_id y = job_text i" "\<And>y. jr_id (g y) = jr_id y"
    and "\<And>y. 0 < jr_revision (g y) \<and> jr_revision (g y) < 2 ^ 63"
    and "\<And>y s. P y \<Longrightarrow> jr_state y = encode_job_state s \<Longrightarrow> \<exists>t. jr_state (g y) = encode_job_state t \<and> (job_step False)\<^sup>*\<^sup>* s t"
  shows "evolves db (snd (update_jobs P g db))"
proof -
  have eq: "map jr_id (map (\<lambda>row. if P row then g row else row) (db_jobs db)) = map jr_id (db_jobs db)"
    using assms(4) by simp
  have rows: "0 < jr_revision r \<and> jr_revision r < 2 ^ 63 \<and> (\<exists>s. jr_state r = encode_job_state s)"
    if "r \<in> set (db_jobs db)" for r
    using assms(1) that by (auto simp: job_table_def list_all_iff)
  have "0 < jr_revision r \<and> jr_revision r < 2 ^ 63 \<and> (\<exists>s. jr_state r = encode_job_state s)"
    if r: "r \<in> set (map (\<lambda>row. if P row then g row else row) (db_jobs db))" for r
  proof -
    obtain y where y: "y \<in> set (db_jobs db)" "r = (if P y then g y else y)"
      using r unfolding set_map by blast
    show ?thesis
      using rows [OF y(1)] assms(5) [of y] assms(6) [of y] y(2) by (cases "P y") auto
  qed
  then have table: "job_table (snd (update_jobs P g db))"
    using assms(1) unfolding job_table_def job_keys_def update_jobs_def snd_conv
    by (simp del: map_map set_map add: eq list_all_iff)
  have "\<exists>t. stored_job_state (snd (update_jobs P g db)) k = Some t \<and> (job_step False)\<^sup>*\<^sup>* s t"
    if k: "stored_job_state db k = Some s" for k s
  proof -
    obtain row where row: "job_row_of db k = Some row" "jr_state row = encode_job_state s"
      using k unfolding stored_job_state_eq by blast
    show ?thesis
      using assms(6) [OF _ row(2)] row by (auto simp: stored_job_state_eq update_jobs_row [OF assms(3,4)])
  qed
  moreover have "db_runs (snd (update_jobs P g db)) = db_runs db"
    by (simp add: update_jobs_def)
  ultimately show ?thesis
    using table assms(2) run_table_cong [of "snd (update_jobs P g db)" db]
    by (auto simp: evolves_def stored_state_def run_row_of_def)
qed

lemma evolves_run_update:
  assumes "job_table db" "run_table db" "run_table (snd (update_runs P g db))"
    and "\<And>k. row_step db (snd (update_runs P g db)) k"
  shows "evolves db (snd (update_runs P g db))"
proof -
  have "db_jobs (snd (update_runs P g db)) = db_jobs db"
    by (simp add: update_runs_def)
  then show ?thesis
    using assms row_step_stored [OF assms(4)]
    by (auto simp: evolves_def job_table_def job_keys_def stored_job_state_def job_row_of_def)
qed

section \<open>Recovery evolves the database\<close>

lemma next_revision_eq_Inr:
  "next_revision r = Inr n \<longleftrightarrow> n = int (unat (revision_get r)) + 1 \<and> n < 2 ^ 63" (is "?l \<longleftrightarrow> ?r")
proof
  assume ?l
  then show ?r
    by (auto simp: next_revision_def Revision_next_eq_Inr result_simps revision_i64_def simp del: of_nat_unat
        split: if_splits)
next
  assume ?r
  then have b: "unat (revision_get r) + 1 < 2 ^ 63" by (auto simp del: of_nat_unat)
  then have u: "unat (of_nat (unat (revision_get r) + 1) :: u64) = unat (revision_get r) + 1"
    by (simp add: unat_of_nat del: of_nat_add of_nat_Suc)
  then have n: "Revision_next r = Inr (Revision (of_nat (unat (revision_get r) + 1)))"
    by (simp add: Revision_next_eq_Inr del: of_nat_add of_nat_Suc)
  have "revision_i64 (Revision (of_nat (unat (revision_get r) + 1))) = Inr n"
    unfolding revision_i64_def Revision.sel u using \<open>?r\<close> b by simp
  then show ?l
    by (simp add: next_revision_def n del: of_nat_add of_nat_Suc)
qed

lemma evolves_insert_transition [simp]: "evolves db (insert_transition row db') = evolves db db'"
  by (simp add: evolves_def job_table_def job_keys_def run_table_def insert_transition_def stored_job_state_def
      job_row_of_def stored_state_def run_row_of_def)

lemma stored_job_state_insert_transition [simp]: "stored_job_state (insert_transition row db) i = stored_job_state db i"
  by (simp add: insert_transition_def stored_job_state_def job_row_of_def)

lemma one_match: "length (filter P xs) = 1 \<Longrightarrow> \<exists>y. y \<in> set xs \<and> P y"
  by (metis One_nat_def filter_empty_conv length_0_conv zero_neq_one)

text \<open>A closing transition of recovery: from one of the allowed states to its target.\<close>

lemma recovery_transition_job_eq_Inr:
  assumes "recovery_transition_job C fault db i expected target now reason allowed = Inr db'"
  obtains current where "current \<in> set allowed" "int (unat (revision_get expected)) + 1 < 2 ^ 63"
    "fst (update_jobs (\<lambda>row. jr_id row = job_text i \<and> jr_revision row = int (unat (revision_get expected)) \<and> jr_state row = current)
      (\<lambda>row. row\<lparr>jr_revision := int (unat (revision_get expected)) + 1, jr_state := target, jr_updated_at := show_ts C now\<rparr>) db) = 1"
    "db' = insert_transition
       \<lparr> tw_job_id = job_text i, tw_from = current, tw_to = target, tw_occurred_at = show_ts C now,
         tw_actor = ''recovery'', tw_reason = reason, tw_revision = int (unat (revision_get expected)) + 1 \<rparr>
       (snd (update_jobs (\<lambda>row. jr_id row = job_text i \<and> jr_revision row = int (unat (revision_get expected)) \<and> jr_state row = current)
      (\<lambda>row. row\<lparr>jr_revision := int (unat (revision_get expected)) + 1, jr_state := target, jr_updated_at := show_ts C now\<rparr>) db))"
  using assms
  by (auto simp: recovery_transition_job_def result_simps revision_i64_def next_revision_eq_Inr Let_def
      case_prod_beta simp del: of_nat_unat split: if_splits)

lemma recovery_transition_evolves:
  assumes "recovery_transition_job C fault db i expected (encode_job_state t) now reason allowed = Inr db'"
    and "job_table db" "run_table db"
    and "\<And>s. encode_job_state s \<in> set allowed \<Longrightarrow> job_step False s t"
  shows "evolves db db' \<and> stored_job_state db' i = Some t"
proof -
  let ?n = "int (unat (revision_get expected))"
  obtain current where c: "current \<in> set allowed" "?n + 1 < 2 ^ 63"
    and one: "fst (update_jobs (\<lambda>row. jr_id row = job_text i \<and> jr_revision row = ?n \<and> jr_state row = current)
      (\<lambda>row. row\<lparr>jr_revision := ?n + 1, jr_state := encode_job_state t, jr_updated_at := show_ts C now\<rparr>) db) = 1"
    and db': "db' = insert_transition
       \<lparr> tw_job_id = job_text i, tw_from = current, tw_to = encode_job_state t, tw_occurred_at = show_ts C now,
         tw_actor = ''recovery'', tw_reason = reason, tw_revision = ?n + 1 \<rparr>
       (snd (update_jobs (\<lambda>row. jr_id row = job_text i \<and> jr_revision row = ?n \<and> jr_state row = current)
      (\<lambda>row. row\<lparr>jr_revision := ?n + 1, jr_state := encode_job_state t, jr_updated_at := show_ts C now\<rparr>) db))"
    by (rule recovery_transition_job_eq_Inr [OF assms(1)])
  let ?P = "\<lambda>row. jr_id row = job_text i \<and> jr_revision row = ?n \<and> jr_state row = current"
  let ?g = "\<lambda>row :: job_row. row\<lparr>jr_revision := ?n + 1, jr_state := encode_job_state t, jr_updated_at := show_ts C now\<rparr>"
  have "\<exists>u. encode_job_state t = encode_job_state u \<and> (job_step False)\<^sup>*\<^sup>* s u" if "encode_job_state s = current" for s
    using c(1) assms(4) [of s] that by (intro exI [of _ t]) auto
  then have ev: "evolves db (snd (update_jobs ?P ?g db))"
    using c(2) by (intro evolves_job_update [OF assms(2,3), where i = i]) auto
  obtain y where y: "y \<in> set (db_jobs db)" "?P y"
    using one_match [OF one [unfolded update_jobs_def fst_conv]] by blast
  then have "job_row_of db i = Some y"
    using assms(2) by (intro job_row_of_unique) (auto simp: job_table_def)
  then have "job_row_of (snd (update_jobs ?P ?g db)) i = Some (?g y)"
    using y(2) by (subst update_jobs_row [where i = i]) auto
  then show ?thesis
    using ev by (simp add: db' stored_job_state_eq)
qed

lemma interrupt_run_evolves:
  assumes "interrupt_run C fault db run reason now = Inr db'" "job_table db" "run_table db"
  shows "evolves db db'"
proof (cases run)
  case None
  then show ?thesis using assms by (simp add: interrupt_run_def evolves_refl)
next
  case (Some it)
  obtain i token where it: "it = (i, token)" by (cases it)
  let ?S = "{''starting'', ''running'', ''cancel_requested''}"
  obtain oj where one: "fst (update_runs (claimed_in i token ?S) (\<lambda>row. row\<lparr>rr_state := ''interrupted'',
         rr_finished_at := Some (show_ts C now), rr_failure := Some reason, rr_outcome := Some oj\<rparr>) db) = 1"
    and db': "db' = snd (update_runs (claimed_in i token ?S) (\<lambda>row. row\<lparr>rr_state := ''interrupted'',
         rr_finished_at := Some (show_ts C now), rr_failure := Some reason, rr_outcome := Some oj\<rparr>) db)"
    using assms(1) Some it
    by (auto simp: interrupt_run_def result_simps Let_def case_prod_beta split: if_splits)
  let ?g = "\<lambda>row :: run_row. row\<lparr>rr_state := ''interrupted'',
         rr_finished_at := Some (show_ts C now), rr_failure := Some reason, rr_outcome := Some oj\<rparr>"
  have "\<exists>t. rr_state (?g row) = encode_run_state t \<and> run_step u t" if "encode_run_state u \<in> ?S" for row u
    using that by (intro exI [of _ RunState.Interrupted]) (cases u, simp_all add: run_step_iff run_legal_def)
  then have "row_step db db' k" for k
    unfolding db' by (intro row_step_update [OF assms(3) one]) simp_all
  moreover have "run_table db'"
    unfolding db' by (rule update_runs_table [OF assms(3)]) (simp_all add: exI [of _ RunState.Interrupted])
  ultimately show ?thesis
    using evolves_run_update [OF assms(2,3)] unfolding db' by blast
qed

lemma interrupted_text: "''interrupted'' = encode_job_state JobState.Interrupted"
  and missed_text: "''missed'' = encode_job_state JobState.Missed"
  by simp_all

text \<open>What an action does to its job.\<close>

fun action_job :: "RecoveryAction \<Rightarrow> JobId" where
  "action_job (Interrupt i _ _ _) = i"
| "action_job (MarkMissed i _) = i"
| "action_job (AdvanceRecurring i _ _) = i"

fun closing :: "RecoveryAction \<Rightarrow> bool" where
  "closing (AdvanceRecurring _ _ _) = False"
| "closing _ = True"

lemma apply_action_evolves:
  assumes "apply_action C fault db a now = Inr db'" "job_table db" "run_table db"
  shows "evolves db db' \<and> (closing a \<longrightarrow> (\<exists>t. stored_job_state db' (action_job a) = Some t \<and> JobState_is_terminal t))"
proof (cases a)
  case (Interrupt i expected run fate)
  obtain db1 where db1: "interrupt_run C fault db run (interruption_reason fate) now = Inr db1"
    and t: "recovery_transition_job C fault db1 i expected (encode_job_state JobState.Interrupted) now
      (interruption_reason fate) [''starting'', ''running'', ''cancel_requested''] = Inr db'"
    using assms(1) unfolding Interrupt by (auto simp: result_simps)
  note e1 = interrupt_run_evolves [OF db1 assms(2,3)]
  have "job_step False s JobState.Interrupted"
    if "encode_job_state s \<in> set [''starting'', ''running'', ''cancel_requested'']" for s
    using that by (cases s) (simp_all add: job_step_iff one_shot_legal_def)
  then have "evolves db1 db' \<and> stored_job_state db' i = Some JobState.Interrupted"
    using recovery_transition_evolves [OF t] evolves_tables [OF e1] by blast
  then show ?thesis
    using evolves_trans [OF e1] by (simp add: Interrupt JobState_is_terminal_def)
next
  case (MarkMissed i expected)
  have t: "recovery_transition_job C fault db i expected (encode_job_state JobState.Missed) now
      ''deadline passed while no supervisor owned the job'' [''scheduled'', ''waiting''] = Inr db'"
    using assms(1) unfolding MarkMissed by simp
  have "job_step False s JobState.Missed" if "encode_job_state s \<in> set [''scheduled'', ''waiting'']" for s
    using that by (cases s) (simp_all add: job_step_iff one_shot_legal_def)
  then show ?thesis
    using recovery_transition_evolves [OF t assms(2,3)] by (simp add: MarkMissed JobState_is_terminal_def)
next
  case (AdvanceRecurring i expected due)
  let ?n = "int (unat (revision_get expected))"
  have "?n + 1 < 2 ^ 63 \<and> db' = snd (update_jobs
        (\<lambda>row. jr_id row = job_text i \<and> jr_revision row = ?n \<and> jr_state row \<in> {''scheduled'', ''waiting''})
        (\<lambda>row. row\<lparr>jr_revision := ?n + 1, jr_updated_at := show_ts C now, jr_next_due := show_ts C due\<rparr>) db)"
    using assms(1) unfolding AdvanceRecurring
    by (auto simp: result_simps revision_i64_def next_revision_eq_Inr Let_def case_prod_beta simp del: of_nat_unat
        split: if_splits)
  then show ?thesis
    unfolding AdvanceRecurring by (auto intro!: evolves_job_update [OF assms(2,3), where i = i])
qed

lemma apply_actions_evolves:
  assumes "apply_actions C fault db actions now = Inr db'" "job_table db" "run_table db"
  shows "evolves db db' \<and> (\<forall>a\<in>set actions. closing a \<longrightarrow>
    (\<exists>t. stored_job_state db' (action_job a) = Some t \<and> JobState_is_terminal t))"
  using assms
proof (induction actions arbitrary: db)
  case (Cons a actions)
  obtain db1 where a: "apply_action C (fault (length actions)) db a now = Inr db1"
    and rest: "apply_actions C fault db1 actions now = Inr db'"
    using Cons.prems(1) by (auto simp: result_simps)
  note e1 = apply_action_evolves [OF a Cons.prems(2,3)]
  then have e2: "evolves db1 db' \<and> (\<forall>a\<in>set actions. closing a \<longrightarrow>
    (\<exists>t. stored_job_state db' (action_job a) = Some t \<and> JobState_is_terminal t))"
    using Cons.IH [OF rest] evolves_tables by blast
  then show ?case
    using e1 evolves_trans [of db db1 db'] evolves_terminal [of db1 db'] by auto
qed (simp add: evolves_refl)

section \<open>What recovery loads\<close>

text \<open>Identifiers are stored in their printed form, as every insertion writes them.\<close>

definition canonical_ids :: "Database \<Rightarrow> bool" where
  "canonical_ids db =
     (list_all (\<lambda>r. \<exists>i. jr_id r = job_text i) (db_jobs db)
      \<and> list_all (\<lambda>r. \<exists>i j. rr_id r = run_text i \<and> rr_job_id r = job_text j) (db_runs db))"

lemma collect_runs_eq:
  assumes "collect_runs C rows active = Inr active'"
  obtains runs where "list_all2 (\<lambda>row run. decode_run_row C row = Inr run) rows runs"
    "active' = rev (map (\<lambda>r. (run_job_id r, r)) runs) @ active"
    "distinct (map fst active) \<Longrightarrow> distinct (map fst active')"
    "length active \<le> MAX_RECOVERY_RECORDS \<Longrightarrow> length active' \<le> MAX_RECOVERY_RECORDS"
  using assms
proof (induction rows arbitrary: active thesis)
  case Nil
  show ?case by (rule Nil.prems(1) [of "[]"]) (use Nil.prems(2) in auto)
next
  case (Cons row rows)
  obtain run where run: "decode_run_row C row = Inr run" "map_of active (run_job_id run) = None"
    and len: "length ((run_job_id run, run) # active) \<le> MAX_RECOVERY_RECORDS"
    and rest: "collect_runs C rows ((run_job_id run, run) # active) = Inr active'"
    using Cons.prems(2) by (auto simp: result_simps split: if_splits)
  show ?case
  proof (rule Cons.IH [OF _ rest])
    fix runs
    assume "list_all2 (\<lambda>row run. decode_run_row C row = Inr run) rows runs"
      "active' = rev (map (\<lambda>r. (run_job_id r, r)) runs) @ (run_job_id run, run) # active"
      "distinct (map fst ((run_job_id run, run) # active)) \<Longrightarrow> distinct (map fst active')"
      "length ((run_job_id run, run) # active) \<le> MAX_RECOVERY_RECORDS \<Longrightarrow> length active' \<le> MAX_RECOVERY_RECORDS"
    then show thesis
      using run len by (intro Cons.prems(1) [of "run # runs"]) (auto simp: map_of_eq_None_iff)
  qed
qed

lemma collect_jobs_eq:
  assumes "collect_jobs C rows active records = Inr (records', left)"
  obtains jobs where "list_all2 (\<lambda>row job. decode_job_row C row = Inr job) rows jobs"
    "left = filter (\<lambda>(i, _). i \<notin> job_id ` set jobs) active"
    "distinct (map job_id jobs) \<Longrightarrow>
       records' = records @ map (\<lambda>job. \<lparr> rec_job = job, rec_active_run = map_of active (job_id job) \<rparr>) jobs"
    "length records \<le> MAX_RECOVERY_RECORDS \<Longrightarrow> length records' \<le> MAX_RECOVERY_RECORDS"
    "length records' = length records + length jobs"
  using assms
proof (induction rows arbitrary: active records thesis)
  case Nil
  show ?case by (rule Nil.prems(1) [of "[]"]) (use Nil.prems(2) in \<open>auto simp: case_prod_beta\<close>)
next
  case (Cons row rows)
  obtain job where job: "decode_job_row C row = Inr job"
    and len: "length (records @ [\<lparr> rec_job = job, rec_active_run = map_of active (job_id job) \<rparr>]) \<le> MAX_RECOVERY_RECORDS"
    and rest: "collect_jobs C rows (filter (\<lambda>(i, _). i \<noteq> job_id job) active)
        (records @ [\<lparr> rec_job = job, rec_active_run = map_of active (job_id job) \<rparr>]) = Inr (records', left)"
    using Cons.prems(2) by (auto simp: result_simps Let_def split: if_splits)
  have same: "map_of (filter (\<lambda>(i, _). i \<noteq> job_id job) active) k = map_of active k" if "k \<noteq> job_id job" for k
    using that by (induction active) auto
  show ?case
  proof (rule Cons.IH [OF _ rest])
    fix jobs
    assume jobs: "list_all2 (\<lambda>row job. decode_job_row C row = Inr job) rows jobs"
      "left = filter (\<lambda>(i, _). i \<notin> job_id ` set jobs) (filter (\<lambda>(i, _). i \<noteq> job_id job) active)"
      "distinct (map job_id jobs) \<Longrightarrow> records' = (records @ [\<lparr> rec_job = job, rec_active_run = map_of active (job_id job) \<rparr>]) @
         map (\<lambda>j. \<lparr> rec_job = j, rec_active_run = map_of (filter (\<lambda>(i, _). i \<noteq> job_id job) active) (job_id j) \<rparr>) jobs"
      "length (records @ [\<lparr> rec_job = job, rec_active_run = map_of active (job_id job) \<rparr>]) \<le> MAX_RECOVERY_RECORDS \<Longrightarrow>
         length records' \<le> MAX_RECOVERY_RECORDS"
      "length records' = length (records @ [\<lparr> rec_job = job, rec_active_run = map_of active (job_id job) \<rparr>]) + length jobs"
    have "records' = records @ map (\<lambda>j. \<lparr> rec_job = j, rec_active_run = map_of active (job_id j) \<rparr>) (job # jobs)"
      if d: "distinct (map job_id (job # jobs))"
    proof -
      have "map_of (filter (\<lambda>(i, _). i \<noteq> job_id job) active) (job_id j) = map_of active (job_id j)" if "j \<in> set jobs" for j
      proof (rule same)
        have "job_id job \<notin> job_id ` set jobs" using d by simp
        moreover have "job_id j \<in> job_id ` set jobs" using that by (rule imageI)
        ultimately show "job_id j \<noteq> job_id job" by metis
      qed
      then show ?thesis
        using jobs(3) d by simp
    qed
    moreover have "left = filter (\<lambda>(i, _). i \<notin> job_id ` set (job # jobs)) active"
      unfolding jobs(2) filter_filter by (rule filter_cong) auto
    ultimately show thesis
      using job jobs(1,4,5) len by (intro Cons.prems(1) [of "job # jobs"]) auto
  qed
qed

lemma take_all_rows: "length (take (n + 1) xs) \<le> n \<Longrightarrow> take (n + 1) xs = xs"
  by simp

lemma decoded_job_text:
  assumes "decode_job_row C row = Inr job" "\<exists>i. jr_id row = job_text i"
  shows "jr_id row = job_text (job_id job)"
  using assms by (auto simp: decode_job_row_eq_Inr)

lemma decoded_run_text:
  assumes "decode_run_row C row = Inr run" "\<exists>i j. rr_id row = run_text i \<and> rr_job_id row = job_text j"
  shows "rr_id row = run_text (run_id run)" "rr_job_id row = job_text (run_job_id run)"
  using assms by (auto simp: decode_run_row_eq_Inr)

lemma list_all2_job_texts:
  assumes "list_all2 (\<lambda>row job. decode_job_row C row = Inr job) rows jobs" "\<forall>r\<in>set rows. \<exists>i. jr_id r = job_text i"
  shows "map jr_id rows = map (job_text \<circ> job_id) jobs"
  using assms
proof (induction rows jobs rule: list_all2_induct)
  case (Cons row rows job jobs)
  then show ?case using decoded_job_text by auto
qed simp

lemma load_nonterminal_eq:
  assumes "load_nonterminal C fault db = Inr records" "job_keys db" "canonical_ids db"
  obtains runs jobs where
    "list_all2 (\<lambda>row run. decode_run_row C row = Inr run) (filter active_run_row (db_runs db)) runs"
    "list_all2 (\<lambda>row job. decode_job_row C row = Inr job) (sort_key jr_id (filter nonterminal_job_row (db_jobs db))) jobs"
    "distinct (map run_job_id runs)" "distinct (map job_id jobs)" "run_job_id ` set runs \<subseteq> job_id ` set jobs"
    "records = map (\<lambda>job. \<lparr> rec_job = job, rec_active_run =
       map_of (rev (map (\<lambda>r. (run_job_id r, r)) runs)) (job_id job) \<rparr>) jobs"
proof -
  let ?rr = "filter active_run_row (db_runs db)"
  let ?jr = "sort_key jr_id (filter nonterminal_job_row (db_jobs db))"
  obtain active where a: "collect_runs C (take (MAX_RECOVERY_RECORDS + 1) ?rr) [] = Inr active"
    and j: "collect_jobs C (take (MAX_RECOVERY_RECORDS + 1) ?jr) active [] = Inr (records, [])"
    using assms(1) by (auto simp: load_nonterminal_def result_simps split: if_splits)
  obtain runs where runs: "list_all2 (\<lambda>row run. decode_run_row C row = Inr run) (take (MAX_RECOVERY_RECORDS + 1) ?rr) runs"
    "active = rev (map (\<lambda>r. (run_job_id r, r)) runs)" "distinct (map fst active)" "length active \<le> MAX_RECOVERY_RECORDS"
    by (rule collect_runs_eq [OF a]) auto
  have tr: "take (MAX_RECOVERY_RECORDS + 1) ?rr = ?rr"
    using runs(1,2,4) list_all2_lengthD [OF runs(1)] by (intro take_all_rows) simp
  obtain jobs where jobs: "list_all2 (\<lambda>row job. decode_job_row C row = Inr job) (take (MAX_RECOVERY_RECORDS + 1) ?jr) jobs"
    "[] = filter (\<lambda>(i, _). i \<notin> job_id ` set jobs) active"
    "distinct (map job_id jobs) \<Longrightarrow>
       records = map (\<lambda>job. \<lparr> rec_job = job, rec_active_run = map_of active (job_id job) \<rparr>) jobs"
    "length records \<le> MAX_RECOVERY_RECORDS" "length records = length jobs"
    by (rule collect_jobs_eq [OF j]) auto
  have tj: "take (MAX_RECOVERY_RECORDS + 1) ?jr = ?jr"
    using jobs(4,5) list_all2_lengthD [OF jobs(1)] by (intro take_all_rows) simp
  have "map (job_text \<circ> job_id) jobs = map jr_id ?jr"
    using list_all2_job_texts [OF jobs(1)] assms(3) unfolding tj by (auto simp: canonical_ids_def list_all_iff)
  moreover have "distinct (map jr_id ?jr)"
    using assms(2) by (simp add: job_keys_def distinct_map inj_on_def)
  ultimately have "distinct (map job_text (map job_id jobs))"
    by simp
  then have d: "distinct (map job_id jobs)"
    unfolding distinct_map by simp
  have "run_job_id ` set runs \<subseteq> job_id ` set jobs"
    using jobs(2) [symmetric] by (auto simp: filter_empty_conv runs(2))
  moreover have "distinct (map run_job_id runs)"
    using runs(2,3) by (simp add: rev_map [symmetric] comp_def)
  ultimately show thesis
    using that [OF runs(1) [unfolded tr] jobs(1) [unfolded tj]] d jobs(3) runs(2) by blast
qed

lemma active_run_row_eq: "decode_run_row C row = Inr run \<Longrightarrow> active_run_row row \<longleftrightarrow> \<not> RunState_is_terminal (run_state run)"
  by (simp add: active_run_row_def decode_run_row_eq_Inr encode_run_state_in_active del: insert_iff)

lemma nonterminal_job_row_eq:
  assumes "decode_job_row C row = Inr job"
  shows "nonterminal_job_row row \<longleftrightarrow> \<not> JobState_is_terminal (job_state job)"
proof -
  have "jr_state row = encode_job_state (job_state job)"
    using assms by (simp add: decode_job_row_eq_Inr decode_job_state_eq_Inr)
  then show ?thesis
    by (cases "job_state job") (simp_all add: nonterminal_job_row_def JobState_is_terminal_def)
qed

lemma list_all2_member:
  "list_all2 (\<lambda>x y. f x = Inr y) xs ys \<Longrightarrow> x \<in> set xs \<Longrightarrow> \<exists>y\<in>set ys. f x = Inr y"
  "list_all2 (\<lambda>x y. f x = Inr y) xs ys \<Longrightarrow> y \<in> set ys \<Longrightarrow> \<exists>x\<in>set xs. f x = Inr y"
  by (induction xs ys rule: list_all2_induct) auto

lemma loaded_state:
  assumes "load_nonterminal C fault db = Inr records" "job_keys db" "canonical_ids db"
    and "stored_job_state db i = Some s" "\<not> JobState_is_terminal s"
  shows "\<exists>record\<in>set records. job_id (rec_job record) = i"
proof -
  obtain runs jobs where
    jobs: "list_all2 (\<lambda>row job. decode_job_row C row = Inr job) (sort_key jr_id (filter nonterminal_job_row (db_jobs db))) jobs"
    and records: "records = map (\<lambda>job. \<lparr> rec_job = job, rec_active_run =
       map_of (rev (map (\<lambda>r. (run_job_id r, r)) runs)) (job_id job) \<rparr>) jobs"
    by (rule load_nonterminal_eq [OF assms(1-3)])
  obtain row where row: "job_row_of db i = Some row" "jr_state row = encode_job_state s"
    using assms(4) unfolding stored_job_state_eq by blast
  have "nonterminal_job_row row"
    using row(2) assms(5) by (cases s) (simp_all add: nonterminal_job_row_def JobState_is_terminal_def)
  then have "row \<in> set (sort_key jr_id (filter nonterminal_job_row (db_jobs db)))"
    using job_row_of_in [OF row(1)] by simp
  from list_all2_member(1) [OF jobs this] obtain job where job: "job \<in> set jobs" "decode_job_row C row = Inr job"
    by blast
  have "jr_id row = job_text (job_id job)"
    by (rule decoded_job_text [OF job(2)]) (use job_row_of_in [OF row(1)] in blast)
  with job_row_of_in [OF row(1)] have "job_id job = i" by simp
  with job(1) show ?thesis by (auto simp: records)
qed

definition active_run_of :: "Database \<Rightarrow> JobId \<Rightarrow> RunId \<Rightarrow> bool" where
  "active_run_of db i r =
     (\<exists>row. run_row_of db r = Some row \<and> rr_job_id row = job_text i \<and> active_run_row row)"

lemma loaded_active:
  assumes "load_nonterminal C fault db = Inr records" "job_keys db" "run_table db" "canonical_ids db"
    and "record \<in> set records" "rec_active_run record = Some run"
  shows "active_run_of db (job_id (rec_job record)) (run_id run)"
proof -
  obtain runs jobs where
    runs: "list_all2 (\<lambda>row run. decode_run_row C row = Inr run) (filter active_run_row (db_runs db)) runs"
    and records: "records = map (\<lambda>job. \<lparr> rec_job = job, rec_active_run =
       map_of (rev (map (\<lambda>r. (run_job_id r, r)) runs)) (job_id job) \<rparr>) jobs"
    by (rule load_nonterminal_eq [OF assms(1,2,4)])
  have r: "run \<in> set runs" "run_job_id run = job_id (rec_job record)"
    using assms(5,6) by (auto simp: records dest!: map_of_SomeD)
  obtain row where row: "row \<in> set (db_runs db)" "active_run_row row" "decode_run_row C row = Inr run"
    using list_all2_member(2) [OF runs r(1)] by auto
  have "\<exists>i j. rr_id row = run_text i \<and> rr_job_id row = job_text j"
    using assms(4) row(1) by (auto simp: canonical_ids_def list_all_iff)
  note t = decoded_run_text [OF row(3) this]
  show ?thesis
    using run_row_of_unique [OF assms(3) row(1) t(1)] row(2) t(2) r(2) by (auto simp: active_run_of_def)
qed

section \<open>Retention\<close>

lemma find_filter_key:
  assumes "distinct (map f xs)"
  shows "find (\<lambda>x. f x = k) (filter P xs) =
    (case find (\<lambda>x. f x = k) xs of None \<Rightarrow> None | Some x \<Rightarrow> if P x then Some x else None)"
  using assms
proof (induction xs)
  case (Cons x xs)
  have "find (\<lambda>y. f y = k) (filter P xs) = None" if "f x = k"
    using Cons.prems that by (auto simp: find_None_iff image_iff)
  with Cons show ?case by auto
qed simp

lemma cleanup_retention_eq_Inr:
  assumes "cleanup_retention C accepts fault db now policy = Inr (report, db')"
  obtains hc jc where "cutoff C accepts now (history_days policy) = Inr hc"
    "cutoff C accepts now (terminal_job_days policy) = Inr jc"
    "db_jobs db' = filter (\<lambda>row. \<not> expired_job jc row) (db_jobs db)"
    "db_runs db' = filter (\<lambda>row. \<not> expired_run hc row
       \<and> rr_job_id row \<notin> jr_id ` {r \<in> set (db_jobs db). expired_job jc r}) (db_runs db)"
    "report_jobs report = length (filter (expired_job jc) (db_jobs db))"
    "report_runs report = length (filter (expired_run hc) (db_runs db))"
  using assms
  by (auto simp: cleanup_retention_def result_simps Let_def delete_jobs_def conj_commute)

lemma expired_job_terminal: "expired_job limit row \<Longrightarrow> jr_state row = encode_job_state s \<Longrightarrow> JobState_is_terminal s"
  by (cases s) (auto simp: expired_job_def JobState_is_terminal_def)

lemma cleanup_job_state:
  assumes "cleanup_retention C accepts fault db now policy = Inr (report, db')" "job_keys db"
    and "stored_job_state db i = Some s"
  shows "stored_job_state db' i = Some s \<or> stored_job_state db' i = None \<and> JobState_is_terminal s"
proof -
  obtain jc where jobs: "db_jobs db' = filter (\<lambda>row. \<not> expired_job jc row) (db_jobs db)"
    by (rule cleanup_retention_eq_Inr [OF assms(1)])
  obtain row where row: "job_row_of db i = Some row" "jr_state row = encode_job_state s"
    using assms(3) unfolding stored_job_state_eq by blast
  have "job_row_of db' i = (if expired_job jc row then None else Some row)"
    using row(1) assms(2) by (simp add: job_row_of_def jobs find_filter_key job_keys_def)
  then show ?thesis
    using row(2) expired_job_terminal [of jc row s] find_job_state [of s]
    by (cases "expired_job jc row") (simp_all add: stored_job_state_def)
qed

section \<open>The startup service and its store\<close>

locale recovery_store =
  fixes inv keyed :: "'db \<Rightarrow> bool"
    and state :: "'db \<Rightarrow> JobId \<Rightarrow> JobState option"
    and active :: "'db \<Rightarrow> JobId \<Rightarrow> RunId \<Rightarrow> bool"
    and load :: "'db \<Rightarrow> (string, RecoveryRecord list) result"
    and apply_plan :: "'db \<Rightarrow> RecoveryAction list \<Rightarrow> UtcTimestamp \<Rightarrow> (string, 'db) result"
    and cleanup :: "'db \<Rightarrow> UtcTimestamp \<Rightarrow> (string, 'db) result"
  assumes load_complete: "inv db \<Longrightarrow> load db = Inr records \<Longrightarrow> state db i = Some s \<Longrightarrow> \<not> JobState_is_terminal s \<Longrightarrow>
      \<exists>record\<in>set records. job_id (rec_job record) = i"
    and load_active: "inv db \<Longrightarrow> load db = Inr records \<Longrightarrow> record \<in> set records \<Longrightarrow> rec_active_run record = Some run \<Longrightarrow>
      active db (job_id (rec_job record)) (run_id run)"
    and apply_keyed: "inv db \<Longrightarrow> apply_plan db actions now = Inr db' \<Longrightarrow> keyed db'"
    and apply_closes: "inv db \<Longrightarrow> apply_plan db actions now = Inr db' \<Longrightarrow> a \<in> set actions \<Longrightarrow> closing a \<Longrightarrow>
      \<exists>t. state db' (action_job a) = Some t \<and> JobState_is_terminal t"
    and cleanup_state: "keyed db \<Longrightarrow> cleanup db now = Inr db' \<Longrightarrow> state db i = Some s \<Longrightarrow>
      state db' i = Some s \<or> state db' i = None \<and> JobState_is_terminal s"
begin

lemma startup_steps:
  assumes "reconcile_startup load apply_plan cleanup accepts classify db wall elapsed boot = (Inr plan, db')"
  obtains records db1 where "load db = Inr records" "plan_recovery accepts records classify wall elapsed boot = Inr plan"
    "apply_plan db (plan_actions plan) wall = Inr db1" "cleanup db1 wall = Inr db'"
  using assms by (auto simp: reconcile_startup_def on_ok_eq_Inr)

lemma closed_after_startup:
  assumes "inv db" "apply_plan db actions now = Inr db1" "cleanup db1 now = Inr db'" "a \<in> set actions" "closing a"
  shows "case state db' (action_job a) of None \<Rightarrow> True | Some t \<Rightarrow> JobState_is_terminal t"
proof -
  obtain t where "state db1 (action_job a) = Some t" "JobState_is_terminal t"
    using apply_closes [OF assms(1,2,4,5)] by blast
  then show ?thesis
    using cleanup_state [OF apply_keyed [OF assms(1,2)] assms(3)] by fastforce
qed

lemma startup_settles:
  assumes "inv db" "reconcile_startup load apply_plan cleanup accepts classify db wall elapsed boot = (Inr plan, db')"
    and "state db i = Some s" "\<not> JobState_is_terminal s"
  shows "(\<exists>d\<in>set (plan_deadlines plan). rd_job_id d = i) \<or> (\<exists>r\<in>set (plan_preserved plan). active db i r)
    \<or> (case state db' i of None \<Rightarrow> True | Some t \<Rightarrow> JobState_is_terminal t)"
proof -
  obtain records db1 where st: "load db = Inr records" "plan_recovery accepts records classify wall elapsed boot = Inr plan"
    "apply_plan db (plan_actions plan) wall = Inr db1" "cleanup db1 wall = Inr db'"
    by (rule startup_steps [OF assms(2)])
  obtain r where r: "r \<in> set records" "job_id (rec_job r) = i"
    using load_complete [OF assms(1) st(1) assms(3,4)] by blast
  have "settled plan r"
    using plan_recovery_eq_Inr [OF st(2)] plan_records_settles r(1) settled_mono sort_plan_extends(1) by blast
  then consider "\<exists>d\<in>set (plan_deadlines plan). rd_job_id d = i"
    | run where "rec_active_run r = Some run" "run_id run \<in> set (plan_preserved plan)"
    | a where "a \<in> set (plan_actions plan)" "closing a" "action_job a = i"
    unfolding settled_def Let_def r(2) by (metis action_job.simps(1,2) closing.simps(2,3))
  then show ?thesis
  proof cases
    case 2
    with load_active [OF assms(1) st(1) r(1)] r(2) show ?thesis by auto
  next
    case 3
    with closed_after_startup [OF assms(1) st(3,4)] show ?thesis by metis
  qed simp
qed

end

lemma apply_recovery_evolves:
  assumes "apply_recovery C edge fault db actions now = Inr db'" "job_table db" "run_table db"
  shows "evolves db db' \<and> (\<forall>a\<in>set actions. closing a \<longrightarrow>
    (\<exists>t. stored_job_state db' (action_job a) = Some t \<and> JobState_is_terminal t))"
  using assms(1) by (auto simp: apply_recovery_def result_simps dest!: apply_actions_evolves [OF _ assms(2,3)])

definition recoverable :: "Database \<Rightarrow> bool" where
  "recoverable db = (job_table db \<and> run_table db \<and> canonical_ids db)"

interpretation startup: recovery_store recoverable job_keys stored_job_state active_run_of
  "startup_load C load_fault" "startup_apply C edge fault" "startup_cleanup C accepts cleanup_fault policy"
  for C :: codec and load_fault edge cleanup_fault :: "nat \<Rightarrow> StoreError option"
    and fault :: "nat \<Rightarrow> nat \<Rightarrow> StoreError option" and accepts :: "int \<Rightarrow> bool" and policy :: RetentionPolicy
proof unfold_locales
  fix db db' :: Database and records rec0 run i s actions now a
  show "\<exists>rec\<in>set records. job_id (rec_job rec) = i"
    if "recoverable db" "startup_load C load_fault db = Inr records" "stored_job_state db i = Some s"
      "\<not> JobState_is_terminal s"
    using that by (intro loaded_state [of C load_fault db])
      (auto simp: recoverable_def job_table_def startup_load_def result_simps)
  show "active_run_of db (job_id (rec_job rec0)) (run_id run)"
    if "recoverable db" "startup_load C load_fault db = Inr records" "rec0 \<in> set records"
      "rec_active_run rec0 = Some run"
    using that by (intro loaded_active [of C load_fault db records])
      (auto simp: recoverable_def job_table_def startup_load_def result_simps)
  show "job_keys db'" if "recoverable db" "startup_apply C edge fault db actions now = Inr db'"
    using that apply_recovery_evolves [of C edge fault db actions now db']
    by (simp add: recoverable_def startup_apply_def result_simps evolves_def job_table_def)
  show "\<exists>t. stored_job_state db' (action_job a) = Some t \<and> JobState_is_terminal t"
    if "recoverable db" "startup_apply C edge fault db actions now = Inr db'" "a \<in> set actions" "closing a"
    using that apply_recovery_evolves [of C edge fault db actions now db']
    by (simp add: recoverable_def startup_apply_def result_simps)
  show "stored_job_state db' i = Some s \<or> stored_job_state db' i = None \<and> JobState_is_terminal s"
    if "job_keys db" "startup_cleanup C accepts cleanup_fault policy db now = Inr db'" "stored_job_state db i = Some s"
    using that cleanup_job_state [of C accepts cleanup_fault db now policy _ db' i s]
    by (auto simp: startup_cleanup_def result_simps)
qed

section \<open>Properties\<close>

text \<open>
  Recovery loads everything that is unfinished and nothing else.  When loading succeeds,
  each stored job that has not ended is the job of a record, each stored run that has not ended
  is the active run of the record of its job, and every record holds a stored, unfinished job
  and, if it has one, the stored, unfinished run of that job.
\<close>

theorem recovery_load_complete:
  assumes "load_nonterminal C fault db = Inr records" "job_keys db" "run_table db" "canonical_ids db"
  shows "(\<forall>i job. load_job C db i = Inr (Some job) \<and> \<not> JobState_is_terminal (job_state job) \<longrightarrow>
        (\<exists>record\<in>set records. rec_job record = job))
    \<and> (\<forall>i run. load_run C db i = Inr (Some run) \<and> \<not> RunState_is_terminal (run_state run) \<longrightarrow>
        (\<exists>record\<in>set records. job_id (rec_job record) = run_job_id run \<and> rec_active_run record = Some run))
    \<and> (\<forall>record\<in>set records. load_job C db (job_id (rec_job record)) = Inr (Some (rec_job record))
        \<and> \<not> JobState_is_terminal (job_state (rec_job record))
        \<and> (\<forall>run. rec_active_run record = Some run \<longrightarrow> run_job_id run = job_id (rec_job record)
             \<and> load_run C db (run_id run) = Inr (Some run) \<and> \<not> RunState_is_terminal (run_state run)))"
proof -
  obtain runs jobs where
    runs: "list_all2 (\<lambda>row run. decode_run_row C row = Inr run) (filter active_run_row (db_runs db)) runs"
    and jobs: "list_all2 (\<lambda>row job. decode_job_row C row = Inr job) (sort_key jr_id (filter nonterminal_job_row (db_jobs db))) jobs"
    and d: "distinct (map run_job_id runs)" "distinct (map job_id jobs)" "run_job_id ` set runs \<subseteq> job_id ` set jobs"
    and records: "records = map (\<lambda>job. \<lparr> rec_job = job, rec_active_run =
       map_of (rev (map (\<lambda>r. (run_job_id r, r)) runs)) (job_id job) \<rparr>) jobs"
    by (rule load_nonterminal_eq [OF assms(1,2,4)])
  let ?m = "map_of (rev (map (\<lambda>r. (run_job_id r, r)) runs))"
  have m: "?m k = Some r \<longleftrightarrow> r \<in> set runs \<and> run_job_id r = k" for k r
  proof -
    have "distinct (map fst (rev (map (\<lambda>r. (run_job_id r, r)) runs)))"
      using d(1) by (simp add: rev_map [symmetric] comp_def)
    then show ?thesis by (auto simp: map_of_eq_Some_iff)
  qed
  have found: "\<exists>record\<in>set records. rec_job record = job"
    if l: "load_job C db i = Inr (Some job)" "\<not> JobState_is_terminal (job_state job)" for i job
  proof -
    obtain row where row: "row \<in> set (db_jobs db)" "decode_job_row C row = Inr job"
      using l(1) find_jr_id unfolding load_job_eq_Inr by blast
    then have "row \<in> set (sort_key jr_id (filter nonterminal_job_row (db_jobs db)))"
      using l(2) nonterminal_job_row_eq [OF row(2)] by simp
    from list_all2_member(1) [OF jobs this] row(2) have "job \<in> set jobs" by auto
    then show ?thesis by (auto simp: records)
  qed
  have run_found: "\<exists>record\<in>set records. job_id (rec_job record) = run_job_id run \<and> rec_active_run record = Some run"
    if l: "load_run C db i = Inr (Some run)" "\<not> RunState_is_terminal (run_state run)" for i run
  proof -
    obtain row where row: "row \<in> set (db_runs db)" "decode_run_row C row = Inr run"
      using l(1) run_row_of_in unfolding load_run_eq_Inr by blast
    then have "row \<in> set (filter active_run_row (db_runs db))"
      using l(2) active_run_row_eq [OF row(2)] by simp
    from list_all2_member(1) [OF runs this] row(2) have "run \<in> set runs" by auto
    moreover from this obtain job where "job \<in> set jobs" "job_id job = run_job_id run"
      using d(3) by force
    ultimately show ?thesis
      unfolding records by (auto simp: m intro!: bexI [of _ job])
  qed
  have loaded: "load_job C db (job_id job) = Inr (Some job) \<and> \<not> JobState_is_terminal (job_state job)" if "job \<in> set jobs" for job
  proof -
    obtain row where "row \<in> set (sort_key jr_id (filter nonterminal_job_row (db_jobs db)))" and dec: "decode_job_row C row = Inr job"
      using list_all2_member(2) [OF jobs \<open>job \<in> set jobs\<close>] by blast
    then have row: "row \<in> set (db_jobs db)" "nonterminal_job_row row" by auto
    have "jr_id row = job_text (job_id job)"
      using decoded_job_text [OF dec] assms(4) row(1) by (auto simp: canonical_ids_def list_all_iff)
    then have "job_row_of db (job_id job) = Some row"
      using job_row_of_unique [OF assms(2) row(1)] by blast
    then show ?thesis
      using dec row(2) nonterminal_job_row_eq [OF dec] by (simp add: load_job_def job_row_of_def)
  qed
  have run_loaded: "load_run C db (run_id run) = Inr (Some run) \<and> \<not> RunState_is_terminal (run_state run)" if "run \<in> set runs" for run
  proof -
    obtain row where "row \<in> set (filter active_run_row (db_runs db))" and dec: "decode_run_row C row = Inr run"
      using list_all2_member(2) [OF runs \<open>run \<in> set runs\<close>] by blast
    then have row: "row \<in> set (db_runs db)" "active_run_row row" by auto
    have "rr_id row = run_text (run_id run)"
      using decoded_run_text(1) [OF dec] assms(4) row(1) by (auto simp: canonical_ids_def list_all_iff)
    then show ?thesis
      using run_row_of_unique [OF assms(3) row(1)] dec row(2) active_run_row_eq [OF dec] by (auto simp: load_run_eq_Inr)
  qed
  show ?thesis
    using found run_found loaded run_loaded by (auto simp: records m)
qed

text \<open>The sample job in an otherwise empty database.\<close>

lemma sample_created:
  obtains db row where "create sample_codec (\<lambda>_. None) empty_db sample_job = Inr db" "recoverable db"
    "db_jobs db = [row]" "db_runs db = []" "jr_id row = job_text (job_id sample_job)" "jr_revision row = 1"
    "jr_state row = ''scheduled''" "decode_job_row sample_codec row = Inr sample_job"
proof -
  obtain db where db: "create sample_codec (\<lambda>_. None) empty_db sample_job = Inr db"
    using sample_job_created by blast
  then obtain row where row: "db_jobs db = [row]" "db_runs db = []" "jr_id row = job_text (job_id sample_job)"
    "jr_revision row = 1" "jr_state row = ''scheduled''"
    by (auto simp: create_eq_Inr empty_db_def encode_job_row_def Job_snapshot_def sample_job_def)
  have "decode_job_row sample_codec row = Inr sample_job"
    using create_load(2) [OF db sample_codec_ok sample_job_storable] row by (simp add: load_job_eq_Inr)
  moreover have "\<exists>s. jr_state row = encode_job_state s"
    by (rule exI [of _ JobState.Scheduled]) (simp add: row)
  then have "recoverable db"
    using row by (auto simp: recoverable_def job_table_def run_table_def canonical_ids_def job_keys_def)
  ultimately show thesis
    using that db row by blast
qed

lemma sample_loaded:
  assumes "db_jobs db = [row]" "db_runs db = []" "jr_state row = ''scheduled''"
    "decode_job_row sample_codec row = Inr sample_job"
  shows "load_nonterminal sample_codec (\<lambda>_. None) db = Inr [sample_record]"
  using assms by (simp add: load_nonterminal_def statement_def nonterminal_job_row_def sample_record_def
      MAX_RECOVERY_RECORDS_def)

theorem recovery_load_complete_witness:
  "\<exists>db records. create sample_codec (\<lambda>_. None) empty_db sample_job = Inr db
     \<and> load_nonterminal sample_codec (\<lambda>_. None) db = Inr records
     \<and> (\<exists>record\<in>set records. rec_job record = sample_job)"
proof -
  obtain db row where s: "create sample_codec (\<lambda>_. None) empty_db sample_job = Inr db" "recoverable db"
    "db_jobs db = [row]" "db_runs db = []" "jr_id row = job_text (job_id sample_job)" "jr_revision row = 1"
    "jr_state row = ''scheduled''" "decode_job_row sample_codec row = Inr sample_job"
    by (rule sample_created)
  note l = sample_loaded [OF s(3,4,7,8)]
  have "load_job sample_codec db (job_id sample_job) = Inr (Some sample_job)"
    by (rule create_load(2) [OF s(1) sample_codec_ok sample_job_storable])
  moreover have "\<not> JobState_is_terminal (job_state sample_job)"
    by (simp add: sample_job_def JobState_is_terminal_def)
  ultimately show ?thesis
    using s(1,2) l recovery_load_complete [OF l] unfolding recoverable_def job_table_def by metis
qed

text \<open>
  C9. Applying a recovery plan is legal and decisive.  When it succeeds, the stored states of
  jobs and runs have moved along legal transitions only, no job or run is lost, the tables stay
  well formed, and every job the plan interrupts or marks as missed has ended.
\<close>

theorem recovery_applied_legally:
  assumes "apply_recovery C edge fault db actions now = Inr db'" "job_table db" "run_table db"
  shows "job_table db' \<and> run_table db'
    \<and> (\<forall>i s. stored_job_state db i = Some s \<longrightarrow> (\<exists>t. stored_job_state db' i = Some t \<and> (job_step False)\<^sup>*\<^sup>* s t))
    \<and> (\<forall>i s. stored_state db i = Some s \<longrightarrow> (\<exists>t. stored_state db' i = Some t \<and> run_step\<^sup>*\<^sup>* s t))
    \<and> (\<forall>a\<in>set actions. closing a \<longrightarrow>
         (\<exists>t. stored_job_state db' (action_job a) = Some t \<and> JobState_is_terminal t))"
  using apply_recovery_evolves [OF assms] by (simp add: evolves_def)

lemma sample_missed:
  assumes "db_jobs db = [row]" "jr_id row = job_text (job_id sample_job)" "jr_revision row = 1" "jr_state row = ''scheduled''"
  shows "\<exists>db'. apply_recovery sample_codec (\<lambda>_. None) (\<lambda>_ _. None) db
    [MarkMissed (job_id sample_job) (Revision 1)] 9 = Inr db'"
  using assms by (simp add: apply_recovery_def statement_def recovery_transition_job_def revision_i64_def
      next_revision_def Revision_next_def Revision_new_def checked_add_def update_jobs_def Let_def)

theorem recovery_applied_legally_witness:
  "\<exists>db db' t. create sample_codec (\<lambda>_. None) empty_db sample_job = Inr db
     \<and> apply_recovery sample_codec (\<lambda>_. None) (\<lambda>_ _. None) db [MarkMissed (job_id sample_job) (Revision 1)] 9 = Inr db'
     \<and> stored_job_state db' (job_id sample_job) = Some t \<and> JobState_is_terminal t"
proof -
  obtain db row where s: "create sample_codec (\<lambda>_. None) empty_db sample_job = Inr db" "recoverable db"
    "db_jobs db = [row]" "db_runs db = []" "jr_id row = job_text (job_id sample_job)" "jr_revision row = 1"
    "jr_state row = ''scheduled''" "decode_job_row sample_codec row = Inr sample_job"
    by (rule sample_created)
  obtain db' where a: "apply_recovery sample_codec (\<lambda>_. None) (\<lambda>_ _. None) db
    [MarkMissed (job_id sample_job) (Revision 1)] 9 = Inr db'"
    using sample_missed [OF s(3,5-7)] by blast
  show ?thesis
    using s(1,2) a recovery_applied_legally [OF a] by (auto simp: recoverable_def)
qed

text \<open>
  After a successful startup nothing is left hanging.  Each job that had not ended before
  is in the rebuilt schedule, or has an active run whose monitor is still alive, or has ended
  (and may have been removed by retention).
\<close>

theorem startup_settles_everything:
  assumes "reconcile_startup (startup_load C load_fault) (startup_apply C edge fault)
      (startup_cleanup C accepts cleanup_fault policy) accepts classify db wall elapsed boot = (Inr plan, db')"
    and "job_table db" "run_table db" "canonical_ids db"
    and "stored_job_state db i = Some s" "\<not> JobState_is_terminal s"
  shows "(\<exists>d\<in>set (plan_deadlines plan). rd_job_id d = i)
    \<or> (\<exists>r\<in>set (plan_preserved plan). active_run_of db i r)
    \<or> (case stored_job_state db' i of None \<Rightarrow> True | Some t \<Rightarrow> JobState_is_terminal t)"
  using startup.startup_settles [OF _ assms(1,5,6)] assms(2-4) by (simp add: recoverable_def)

lemma sample_policy: "\<exists>report db'. cleanup_retention C (\<lambda>_. True) (\<lambda>_. None) db now policy = Inr (report, db')"
  by (simp add: cleanup_retention_def cutoff_def statement_def Let_def)

lemma sample_startup:
  assumes "load_nonterminal sample_codec (\<lambda>_. None) db = Inr [sample_record]"
  shows "\<exists>plan db'. reconcile_startup (startup_load sample_codec (\<lambda>_. None))
    (startup_apply sample_codec (\<lambda>_. None) (\<lambda>_ _. None)) (startup_cleanup sample_codec (\<lambda>_. True) (\<lambda>_. None) policy)
    (\<lambda>_. True) classify db 5 (ElapsedInstant 7) ''boot'' = (Inr plan, db')"
proof -
  obtain plan where p: "plan_recovery (\<lambda>_. True) [sample_record] classify 5 (ElapsedInstant 7) ''boot'' = Inr plan"
    using sample_plan by blast
  then have "plan_actions plan = []"
    by (auto simp: plan_recovery_def contains_nul_def plan_record_def sample_record_def sample_job_def
      reconcile_waiting_def is_active_state_def deadline_def sort_plan_def push_deadline_def RecoveryPlan_default_def
      Let_def checked_add_def split: if_splits)
  with p assms show ?thesis
    using sample_policy [of sample_codec db 5 policy]
    by (auto simp: reconcile_startup_def startup_load_def startup_apply_def startup_cleanup_def on_ok_def
        apply_recovery_def statement_def)
qed

theorem startup_settles_everything_witness:
  "\<exists>db plan db'. create sample_codec (\<lambda>_. None) empty_db sample_job = Inr db
     \<and> reconcile_startup (startup_load sample_codec (\<lambda>_. None)) (startup_apply sample_codec (\<lambda>_. None) (\<lambda>_ _. None))
         (startup_cleanup sample_codec (\<lambda>_. True) (\<lambda>_. None) \<lparr> history_days = 1, terminal_job_days = 1 \<rparr>)
         (\<lambda>_. True) (\<lambda>_. Inl ''none'') db 5 (ElapsedInstant 7) ''boot'' = (Inr plan, db')
     \<and> ((\<exists>d\<in>set (plan_deadlines plan). rd_job_id d = job_id sample_job)
        \<or> (\<exists>r\<in>set (plan_preserved plan). active_run_of db (job_id sample_job) r)
        \<or> (case stored_job_state db' (job_id sample_job) of None \<Rightarrow> True | Some t \<Rightarrow> JobState_is_terminal t))"
proof -
  obtain db row where s: "create sample_codec (\<lambda>_. None) empty_db sample_job = Inr db" "recoverable db"
    "db_jobs db = [row]" "db_runs db = []" "jr_id row = job_text (job_id sample_job)" "jr_revision row = 1"
    "jr_state row = ''scheduled''" "decode_job_row sample_codec row = Inr sample_job"
    by (rule sample_created)
  obtain plan db' where st: "reconcile_startup (startup_load sample_codec (\<lambda>_. None))
      (startup_apply sample_codec (\<lambda>_. None) (\<lambda>_ _. None))
      (startup_cleanup sample_codec (\<lambda>_. True) (\<lambda>_. None) \<lparr> history_days = 1, terminal_job_days = 1 \<rparr>)
      (\<lambda>_. True) (\<lambda>_. Inl ''none'') db 5 (ElapsedInstant 7) ''boot'' = (Inr plan, db')"
    using sample_startup [where classify = "\<lambda>_. Inl ''none''", OF sample_loaded [OF s(3,4,7,8)]] by blast
  have "stored_job_state db (job_id sample_job) = Some JobState.Scheduled"
    using s by (simp add: stored_job_state_eq job_row_of_def)
  from startup_settles_everything [OF st _ _ _ this] s(1,2) st show ?thesis
    by (auto simp: recoverable_def JobState_is_terminal_def)
qed

text \<open>
  The text of a timestamp (RFC 3339 with four digits of the year, as jiff writes it from the year 0 on)
  is ordered by its seconds.  Within one second it is not: a fraction sorts before its absence.
\<close>

definition ts_ordered :: "codec \<Rightarrow> (int \<Rightarrow> bool) \<Rightarrow> bool" where
  "ts_ordered C accepts \<longleftrightarrow>
     (\<forall>a b. accepts a \<and> accepts b \<and> - 62167219200 * 10 ^ 9 \<le> a \<and> a div 10 ^ 9 < b div 10 ^ 9 \<longrightarrow> show_ts C a < show_ts C b)"

text \<open>The time from which a policy of so many days keeps.\<close>

definition kept_since :: "UtcTimestamp \<Rightarrow> u16 \<Rightarrow> UtcTimestamp" where
  "kept_since now days = now - int (unat days) * 86400 * 10 ^ 9"

lemma cutoff_eq_Inr: "cutoff C accepts now days = Inr t \<longleftrightarrow> accepts (kept_since now days) \<and> t = show_ts C (kept_since now days)"
  by (auto simp: cutoff_def kept_since_def Let_def)

lemma kept_since_bound: "0 \<le> now \<Longrightarrow> - 62167219200 * 10 ^ 9 \<le> kept_since now days"
proof -
  assume "0 \<le> now"
  moreover have "uint days < 65536" using unsigned_less [of days, where 'a = int] by simp
  ultimately show ?thesis by (simp add: kept_since_def)
qed

lemma before_cutoff:
  assumes "ts_ordered C accepts" "accepts t" "- 62167219200 * 10 ^ 9 \<le> t" "accepts limit" "- 62167219200 * 10 ^ 9 \<le> limit"
  shows "t div 10 ^ 9 < limit div 10 ^ 9 \<Longrightarrow> show_ts C t < show_ts C limit"
    and "limit div 10 ^ 9 < t div 10 ^ 9 \<Longrightarrow> \<not> show_ts C t < show_ts C limit"
  using assms unfolding ts_ordered_def by (blast, meson order.asym)


lemma replicate_less: "replicate m x < replicate n x \<longleftrightarrow> m < n" for x :: "'a :: linorder"
proof (induction m arbitrary: n)
  case 0
  then show ?case by (cases n) auto
next
  case (Suc m)
  then show ?case by (cases n) auto
qed

lemma sample_ts_ordered: "ts_ordered sample_codec (\<lambda>t. 0 \<le> t)"
  unfolding ts_ordered_def
proof (intro allI impI)
  fix a b :: int
  assume h: "0 \<le> a \<and> 0 \<le> b \<and> - 62167219200 * 10 ^ 9 \<le> a \<and> a div 10 ^ 9 < b div 10 ^ 9"
  then have "a < b" by (meson linorder_not_le zdiv_mono1 zero_less_numeral zero_less_power)
  then show "show_ts sample_codec a < show_ts sample_codec b"
    using h by (simp add: sample_codec_def sample_show_ts_def replicate_less)
qed

definition ended_row :: job_row where
  "ended_row =
     \<lparr> jr_id = job_text (JobId 1), jr_revision = 3, jr_name = None, jr_description = None, jr_created_at = sample_show_ts 0,
       jr_updated_at = sample_show_ts 0, jr_state = ''succeeded'', jr_tier = ''session'', jr_schedule = ''{}'', jr_missed = ''skip'',
       jr_execution = ''{}'', jr_next_due = sample_show_ts 0, jr_tzdb_version = ''not-applicable'', jr_owner_uid = 1000, jr_hidden = False \<rparr>"


end
