(* ===== verification/Management.thy ===== *)
theory Management
  imports Recovery_Store "HOL-Library.Product_Lexorder"
begin

text \<open>
  Job management: the queries and updates of \<open>src/infrastructure/sqlite/management.rs\<close>, the
  services on them (\<open>src/application/list.rs\<close>) and submission (\<open>src/application/submit.rs\<close>).

  A query is prepared and run by two statements that may fail.  The services take the trait
  \<open>ManagementStore\<close> as arguments; the locale of that name states what they rely on, and its
  interpretation discharges it for the tables.  \<open>hide_job\<close> reads the job before its transaction
  starts: it reads the database \<open>before\<close> and changes the database \<open>db\<close>.
\<close>

section \<open>Queries\<close>

fun decode_rows :: "('r \<Rightarrow> ('e, 'a) result) \<Rightarrow> 'r list \<Rightarrow> ('e, 'a list) result" where
  "decode_rows f [] = Inr []"
| "decode_rows f (row # rows) = try_bind (f row) (\<lambda>a. map_ok (Cons a) (decode_rows f rows))"

definition sql_limit :: "u64 \<Rightarrow> (StoreError, nat) result" where
  "sql_limit limit = (if unat limit < 2 ^ 63 then Inr (unat limit) else Inl (Domain ''result limit overflow''))"

definition query :: "(nat \<Rightarrow> StoreError option) \<Rightarrow> ('r \<Rightarrow> (StoreError, 'a) result) \<Rightarrow> 'r list \<Rightarrow> (StoreError, 'a list) result" where
  "query fault decode_row rows =
     try_bind (statement fault 0) (\<lambda>_. try_bind (statement fault 1) (\<lambda>_. decode_rows decode_row rows))"

definition store_list_jobs ::
  "codec \<Rightarrow> (nat \<Rightarrow> StoreError option) \<Rightarrow> Database \<Rightarrow> JobState option \<Rightarrow> JobId option \<Rightarrow> u64 \<Rightarrow> (StoreError, Job list) result" where
  "store_list_jobs C fault db state after limit =
     (let after = (case after of None \<Rightarrow> [] | Some i \<Rightarrow> job_text i);
          state = map_option encode_job_state state
      in try_bind (sql_limit limit) (\<lambda>limit.
           query fault (decode_job_row C) (take limit (sort_key jr_id (filter
             (\<lambda>row. \<not> jr_hidden row \<and> (after = [] \<or> after < jr_id row) \<and> (state = None \<or> state = Some (jr_state row)))
             (db_jobs db))))))"

definition store_find_jobs_by_prefix ::
  "codec \<Rightarrow> (nat \<Rightarrow> StoreError option) \<Rightarrow> Database \<Rightarrow> string \<Rightarrow> u64 \<Rightarrow> (StoreError, Job list) result" where
  "store_find_jobs_by_prefix C fault db prefix limit =
     (let prefix = map to_ascii_lowercase prefix
      in if length prefix \<ge> 2 ^ 63 then Inl (Domain ''prefix length overflow'')
         else try_bind (sql_limit limit) (\<lambda>limit.
           query fault (decode_job_row C) (take limit (sort_key jr_id (filter
             (\<lambda>row. \<not> jr_hidden row \<and> take (length prefix) (jr_id row) = prefix) (db_jobs db))))))"

definition store_list_runs ::
  "codec \<Rightarrow> (nat \<Rightarrow> StoreError option) \<Rightarrow> Database \<Rightarrow> JobId option \<Rightarrow> u64 \<Rightarrow> (StoreError, Run list) result" where
  "store_list_runs C fault db job limit =
     (let job = map_option job_text job
      in try_bind (sql_limit limit) (\<lambda>limit.
           query fault (decode_run_row C) (take limit (rev (sort_key (\<lambda>row. (rr_created_at row, rr_id row)) (filter
             (\<lambda>row. job = None \<or> job = Some (rr_job_id row)) (db_runs db)))))))"

definition active_runs ::
  "codec \<Rightarrow> (nat \<Rightarrow> StoreError option) \<Rightarrow> Database \<Rightarrow> (StoreError, Run list) result" where
  "active_runs C fault db =
     try_bind (query fault (decode_run_row C) (take 1001 (sort_key (\<lambda>row. (rr_created_at row, rr_id row))
       (filter active_run_row (db_runs db))))) (\<lambda>runs.
     if length runs > 1000 then Inl (Corrupt ''more than 1000 active runs need inspection'') else Inr runs)"

text \<open>\<open>query_row\<close> with \<open>optional\<close>: the first row of the result, if there is one.\<close>

definition query_first :: "(nat \<Rightarrow> StoreError option) \<Rightarrow> ('r \<Rightarrow> (StoreError, 'a) result) \<Rightarrow> 'r list \<Rightarrow> (StoreError, 'a option) result" where
  "query_first fault decode_row rows =
     try_bind (statement fault 0) (\<lambda>_. case rows of [] \<Rightarrow> Inr None | row # _ \<Rightarrow> map_ok Some (decode_row row))"

definition latest_active_run ::
  "codec \<Rightarrow> (nat \<Rightarrow> StoreError option) \<Rightarrow> Database \<Rightarrow> JobId \<Rightarrow> (StoreError, Run option) result" where
  "latest_active_run C fault db job =
     query_first fault (decode_run_row C) (take 1 (rev (sort_key rr_sequence
       (filter (\<lambda>row. rr_job_id row = job_text job \<and> active_run_row row) (db_runs db)))))"

section \<open>Updates\<close>

definition terminal_job_row :: "job_row \<Rightarrow> bool" where
  "terminal_job_row row = (jr_state row \<in> {''succeeded'', ''failed'', ''cancelled'', ''interrupted'', ''missed''})"

definition hide_job ::
  "codec \<Rightarrow> (nat \<Rightarrow> StoreError option) \<Rightarrow> Database \<Rightarrow> Database \<Rightarrow> JobId \<Rightarrow> Revision \<Rightarrow> bool \<Rightarrow>
     (StoreError, Job \<times> Database) result" where
  "hide_job C fault before db i expected keep_history =
     try_bind (statement fault 0) (\<lambda>_.
     try_bind (try_bind (load_job C before i) (ok_or StoreError.NotFound)) (\<lambda>job.
     try_bind (statement fault 1) (\<lambda>_.
     try_bind (if keep_history then Inr db
       else try_bind (statement fault 2) (\<lambda>_.
         Inr (db\<lparr>db_runs := filter (\<lambda>row. rr_job_id row \<noteq> job_text i) (db_runs db)\<rparr>))) (\<lambda>db1.
     try_bind (revision_i64 expected) (\<lambda>old.
     try_bind (statement fault 3) (\<lambda>_.
     (let (changed, db2) = update_jobs
        (\<lambda>row. jr_id row = job_text i \<and> jr_revision row = old \<and> \<not> jr_hidden row \<and> terminal_job_row row)
        (\<lambda>row. row\<lparr>jr_hidden := True\<rparr>) db1
      in if changed = 1 then try_bind (statement fault 4) (\<lambda>_. Inr (job, db2)) else Inl Conflict)))))))"

definition rerun_transaction ::
  "codec \<Rightarrow> (nat \<Rightarrow> StoreError option) \<Rightarrow> Database \<Rightarrow> JobId \<Rightarrow> Revision \<Rightarrow> UtcTimestamp \<Rightarrow> (StoreError, Database) result" where
  "rerun_transaction C fault db i expected now =
     try_bind (statement fault 0) (\<lambda>_.
     try_bind (revision_i64 expected) (\<lambda>old.
     try_bind (statement fault 1) (\<lambda>_.
     try_bind (ok_or Conflict (find (\<lambda>row. jr_id row = job_text i \<and> jr_revision row = old \<and> \<not> jr_hidden row)
       (db_jobs db))) (\<lambda>row.
     if \<not> terminal_job_row row then Inl Conflict
     else
     try_bind (map_err (\<lambda>e. Domain (PrimitiveError_text e)) (Revision_next expected)) (\<lambda>next_rev.
     try_bind (revision_i64 next_rev) (\<lambda>revision.
     try_bind (statement fault 2) (\<lambda>_.
     (let (_, db1) = update_jobs
        (\<lambda>r. jr_id r = job_text i \<and> jr_revision r = old \<and> jr_state r = jr_state row)
        (\<lambda>r. r\<lparr>jr_revision := revision, jr_state := ''waiting'', jr_updated_at := show_ts C now,
           jr_next_due := show_ts C now\<rparr>) db
      in try_bind (statement fault 3) (\<lambda>_.
         try_bind (statement fault 4) (\<lambda>_.
           Inr (insert_transition
             \<lparr> tw_job_id = job_text i, tw_from = jr_state row, tw_to = ''waiting'', tw_occurred_at = show_ts C now,
               tw_actor = ''cli'', tw_reason = ''explicit rerun requested'', tw_revision = revision \<rparr> db1)))))))))))"

text \<open>The job is read back after the commit: a failure there leaves the change in place.\<close>

definition prepare_rerun ::
  "codec \<Rightarrow> (nat \<Rightarrow> StoreError option) \<Rightarrow> Database \<Rightarrow> JobId \<Rightarrow> Revision \<Rightarrow> UtcTimestamp \<Rightarrow>
     (StoreError, Job) result \<times> Database" where
  "prepare_rerun C fault db i expected now =
     on_ok id (rerun_transaction C fault db i expected now) db (\<lambda>db'.
       (try_bind (statement fault 5) (\<lambda>_. try_bind (load_job C db' i) (ok_or StoreError.NotFound)), db'))"

section \<open>Services\<close>

definition MAX_MANAGEMENT_RESULTS :: u64 where
  "MAX_MANAGEMENT_RESULTS = 1000"

datatype ManagementError =
    NotFound
  | Ambiguous "JobId list"
  | InvalidPrefix
  | InvalidLimit
  | StateConflict string
  | ConfirmationRequired
  | Store string

definition validate_limit :: "u64 \<Rightarrow> (ManagementError, unit) result" where
  "validate_limit limit = (if 1 \<le> limit \<and> limit \<le> MAX_MANAGEMENT_RESULTS then Inr () else Inl InvalidLimit)"

definition is_identifier_byte :: "char \<Rightarrow> bool" where
  "is_identifier_byte c =
     (let l = to_ascii_lowercase c in is_ascii_digit l \<or> l \<in> set ''abcdefghjkmnpqrstvwxyz'')"

definition list_jobs ::
  "(JobState option \<Rightarrow> JobId option \<Rightarrow> u64 \<Rightarrow> (string, Job list) result) \<Rightarrow> JobState option \<Rightarrow> JobId option \<Rightarrow> u64 \<Rightarrow>
     (ManagementError, Job list) result" where
  "list_jobs store_list state after limit =
     try_bind (validate_limit limit) (\<lambda>_. map_err ManagementError.Store (store_list state after limit))"

definition list_runs ::
  "(JobId option \<Rightarrow> u64 \<Rightarrow> (string, Run list) result) \<Rightarrow> JobId option \<Rightarrow> u64 \<Rightarrow> (ManagementError, Run list) result" where
  "list_runs store_list job limit =
     try_bind (validate_limit limit) (\<lambda>_. map_err ManagementError.Store (store_list job limit))"

definition valid_prefix :: "string \<Rightarrow> bool" where
  "valid_prefix prefix = (prefix \<noteq> [] \<and> length prefix \<le> 26 \<and> list_all is_identifier_byte prefix)"

definition resolve_job ::
  "(string \<Rightarrow> u64 \<Rightarrow> (string, Job list) result) \<Rightarrow> string \<Rightarrow> (ManagementError, Job) result" where
  "resolve_job find_jobs prefix =
     (if \<not> valid_prefix prefix then Inl InvalidPrefix
      else try_bind (map_err ManagementError.Store (find_jobs prefix 2)) (\<lambda>matches.
        case matches of
          [] \<Rightarrow> Inl ManagementError.NotFound
        | [job] \<Rightarrow> Inr job
        | _ \<Rightarrow> Inl (Ambiguous (map job_id matches))))"

definition remove_job ::
  "(string \<Rightarrow> u64 \<Rightarrow> (string, Job list) result) \<Rightarrow> (JobId \<Rightarrow> Revision \<Rightarrow> bool \<Rightarrow> (string, Job \<times> 'db) result) \<Rightarrow>
     string \<Rightarrow> bool \<Rightarrow> (ManagementError, Job \<times> 'db) result" where
  "remove_job find_jobs hide prefix keep_history =
     try_bind (resolve_job find_jobs prefix) (\<lambda>job.
     if \<not> JobState_is_terminal (job_state job) then Inl (StateConflict ''only terminal jobs can be removed'')
     else map_err ManagementError.Store (hide (job_id job) (job_revision job) keep_history))"

definition rerun_job ::
  "(string \<Rightarrow> u64 \<Rightarrow> (string, Job list) result) \<Rightarrow> (JobId \<Rightarrow> Revision \<Rightarrow> UtcTimestamp \<Rightarrow> (string, Job) result \<times> 'db) \<Rightarrow>
     'db \<Rightarrow> string \<Rightarrow> bool \<Rightarrow> UtcTimestamp \<Rightarrow> (ManagementError, Job) result \<times> 'db" where
  "rerun_job find_jobs rerun db prefix confirm_interrupted now =
     on_ok id (resolve_job find_jobs prefix) db (\<lambda>job.
     if \<not> JobState_is_terminal (job_state job) then (Inl (StateConflict ''only terminal jobs can be run again''), db)
     else if job_state job = JobState.Interrupted \<and> \<not> confirm_interrupted then (Inl ConfirmationRequired, db)
     else map_prod (map_err ManagementError.Store) id (rerun (job_id job) (job_revision job) now))"

text \<open>The trait \<open>ManagementStore\<close> implemented by \<open>JobStore\<close>.\<close>

definition mgmt_find :: "codec \<Rightarrow> (nat \<Rightarrow> StoreError option) \<Rightarrow> Database \<Rightarrow> string \<Rightarrow> u64 \<Rightarrow> (string, Job list) result" where
  "mgmt_find C fault db prefix limit = map_err StoreError_text (store_find_jobs_by_prefix C fault db prefix limit)"

definition mgmt_hide ::
  "codec \<Rightarrow> (nat \<Rightarrow> StoreError option) \<Rightarrow> Database \<Rightarrow> Database \<Rightarrow> JobId \<Rightarrow> Revision \<Rightarrow> bool \<Rightarrow> (string, Job \<times> Database) result" where
  "mgmt_hide C fault before db i expected keep_history =
     map_err StoreError_text (hide_job C fault before db i expected keep_history)"

definition mgmt_rerun ::
  "codec \<Rightarrow> (nat \<Rightarrow> StoreError option) \<Rightarrow> Database \<Rightarrow> JobId \<Rightarrow> Revision \<Rightarrow> UtcTimestamp \<Rightarrow> (string, Job) result \<times> Database" where
  "mgmt_rerun C fault db i expected now = map_prod (map_err StoreError_text) id (prepare_rerun C fault db i expected now)"

definition mgmt_list_jobs ::
  "codec \<Rightarrow> (nat \<Rightarrow> StoreError option) \<Rightarrow> Database \<Rightarrow> JobState option \<Rightarrow> JobId option \<Rightarrow> u64 \<Rightarrow> (string, Job list) result" where
  "mgmt_list_jobs C fault db state after limit = map_err StoreError_text (store_list_jobs C fault db state after limit)"

section \<open>Submission\<close>

datatype SupervisorAckError =
    Rejected string
  | SocketSubstitution
  | InvalidAcknowledgement
  | Unavailable string

datatype SubmissionOutcome =
    DryRun Job
  | Supervised Job
  | CommittedUnsupervised Job SupervisorAckError

datatype SubmitError = Store string

definition submit_job ::
  "(Job \<Rightarrow> 'db \<Rightarrow> (string, 'db) result) \<Rightarrow> ('db \<Rightarrow> JobId \<Rightarrow> Revision \<Rightarrow> (SupervisorAckError, unit) result) \<Rightarrow>
     'db \<Rightarrow> Job \<Rightarrow> bool \<Rightarrow> (SubmitError, SubmissionOutcome) result \<times> 'db" where
  "submit_job create_in acknowledge db job dry_run =
     (if dry_run then (Inr (DryRun job), db)
      else on_ok SubmitError.Store (create_in job db) db (\<lambda>db'.
        (case acknowledge db' (job_id job) (job_revision job) of
           Inr _ \<Rightarrow> (Inr (Supervised job), db')
         | Inl e \<Rightarrow> (Inr (CommittedUnsupervised job e), db'))))"

fun SubmissionOutcome_job :: "SubmissionOutcome \<Rightarrow> Job" where
  "SubmissionOutcome_job (DryRun job) = job"
| "SubmissionOutcome_job (Supervised job) = job"
| "SubmissionOutcome_job (CommittedUnsupervised job _) = job"

definition create_job :: "codec \<Rightarrow> (nat \<Rightarrow> StoreError option) \<Rightarrow> Job \<Rightarrow> Database \<Rightarrow> (string, Database) result" where
  "create_job C fault job db = map_err StoreError_text (create C fault db job)"

section \<open>The visible jobs as a map\<close>

definition visible :: "Database \<Rightarrow> JobId \<Rightarrow> (nat \<times> JobState) option" where
  "visible db i =
     (case job_row_of db i of None \<Rightarrow> None
      | Some row \<Rightarrow> if jr_hidden row then None
          else map_option (\<lambda>s. (nat (jr_revision row), s)) (find (\<lambda>s. encode_job_state s = jr_state row) JobState_ALL))"

definition id_matches :: "string \<Rightarrow> JobId \<Rightarrow> bool" where
  "id_matches prefix i = (take (length prefix) (job_text i) = map to_ascii_lowercase prefix)"

lemma find_state_eq: "find (\<lambda>s. encode_job_state s = v) JobState_ALL = Some s \<longleftrightarrow> v = encode_job_state s"
  using find_job_state [of s] by (auto simp: find_Some_iff)

lemma visible_eq:
  "visible db i = Some (n, s) \<longleftrightarrow>
     (\<exists>row. job_row_of db i = Some row \<and> \<not> jr_hidden row \<and> n = nat (jr_revision row) \<and> jr_state row = encode_job_state s)"
  by (auto simp: visible_def find_state_eq split: option.splits if_splits)

lemma terminal_job_row_eq: "jr_state row = encode_job_state s \<Longrightarrow> terminal_job_row row \<longleftrightarrow> JobState_is_terminal s"
  by (cases s) (simp_all add: terminal_job_row_def JobState_is_terminal_def)

lemma decode_rows_eq_Inr: "decode_rows f rows = Inr xs \<longleftrightarrow> list_all2 (\<lambda>row x. f row = Inr x) rows xs"
  by (induction rows arbitrary: xs) (auto simp: result_simps list_all2_Cons1)

lemma query_eq_Inr: "query fault f rows = Inr xs \<Longrightarrow> list_all2 (\<lambda>row x. f row = Inr x) rows xs"
  by (auto simp: query_def result_simps decode_rows_eq_Inr)

lemma decoded_visible:
  assumes "recoverable db" "row \<in> set (db_jobs db)" "\<not> jr_hidden row" "decode_job_row C row = Inr job"
  shows "jr_id row = job_text (job_id job)"
    "visible db (job_id job) = Some (unat (revision_get (job_revision job)), job_state job)"
proof -
  have "\<exists>i. jr_id row = job_text i"
    using assms(1,2) by (auto simp: recoverable_def canonical_ids_def list_all_iff)
  then show t: "jr_id row = job_text (job_id job)"
    by (rule decoded_job_text [OF assms(4)])
  have d: "Revision_new (of_int (jr_revision row)) = Inr (job_revision job)" "jr_state row = encode_job_state (job_state job)"
    using assms(4) by (simp_all add: decode_job_row_eq_Inr decode_job_state_eq_Inr)
  have "0 < jr_revision row" "jr_revision row < 2 ^ 63"
    using assms(1,2) by (auto simp: recoverable_def job_table_def list_all_iff)
  then have "int (unat (of_int (jr_revision row) :: u64)) = jr_revision row"
    by (intro u64_of_int) auto
  moreover have "revision_get (job_revision job) = of_int (jr_revision row)"
    using d(1) by (cases "job_revision job") (auto simp: Revision_new_def split: if_splits)
  ultimately have "nat (jr_revision row) = unat (revision_get (job_revision job))"
    by (metis nat_int)
  moreover have "job_row_of db (job_id job) = Some row"
    using assms(1,2) t by (intro job_row_of_unique) (auto simp: recoverable_def job_table_def)
  ultimately show "visible db (job_id job) = Some (unat (revision_get (job_revision job)), job_state job)"
    using assms(3) d(2) by (simp add: visible_eq)
qed

lemma find_jobs_rows:
  assumes "store_find_jobs_by_prefix C fault db prefix limit = Inr jobs"
  shows "list_all2 (\<lambda>row job. decode_job_row C row = Inr job)
    (take (unat limit) (sort_key jr_id (filter
      (\<lambda>row. \<not> jr_hidden row \<and> take (length prefix) (jr_id row) = map to_ascii_lowercase prefix) (db_jobs db)))) jobs"
  using assms by (auto simp: store_find_jobs_by_prefix_def Let_def sql_limit_def result_simps dest!: query_eq_Inr
      split: if_splits)

lemma find_jobs_sound:
  assumes "store_find_jobs_by_prefix C fault db prefix limit = Inr jobs" "recoverable db" "job \<in> set jobs"
  shows "id_matches prefix (job_id job) \<and> visible db (job_id job) = Some (unat (revision_get (job_revision job)), job_state job)"
proof -
  obtain row where row: "row \<in> set (db_jobs db)" "\<not> jr_hidden row"
    "take (length prefix) (jr_id row) = map to_ascii_lowercase prefix" "decode_job_row C row = Inr job"
    using list_all2_member(2) [OF find_jobs_rows [OF assms(1)] assms(3)] by (auto dest!: in_set_takeD)
  show ?thesis
    using decoded_visible [OF assms(2) row(1,2,4)] row(3) by (simp add: id_matches_def)
qed

lemma find_jobs_distinct:
  assumes "store_find_jobs_by_prefix C fault db prefix limit = Inr jobs" "recoverable db"
  shows "distinct (map job_id jobs) \<and> length jobs \<le> unat limit"
proof -
  let ?rows = "take (unat limit) (sort_key jr_id (filter
      (\<lambda>row. \<not> jr_hidden row \<and> take (length prefix) (jr_id row) = map to_ascii_lowercase prefix) (db_jobs db)))"
  note l = find_jobs_rows [OF assms(1)]
  have "map jr_id ?rows = map (job_text \<circ> job_id) jobs"
    by (rule list_all2_job_texts [OF l]) (use assms(2) in \<open>auto simp: recoverable_def canonical_ids_def list_all_iff dest!: in_set_takeD\<close>)
  moreover have "distinct (map jr_id ?rows)"
    using assms(2) by (simp add: recoverable_def job_table_def job_keys_def distinct_map inj_on_def take_map [symmetric]
        distinct_take)
  ultimately have "distinct (map (job_text \<circ> job_id) jobs)" by metis
  then have "distinct (map job_text (map job_id jobs))" by simp
  then show ?thesis
    using list_all2_lengthD [OF l] unfolding distinct_map by simp
qed

lemma find_jobs_complete:
  assumes "store_find_jobs_by_prefix C fault db prefix limit = Inr jobs" "recoverable db" "length jobs < unat limit"
    and "visible db i = Some v" "id_matches prefix i"
  shows "i \<in> job_id ` set jobs"
proof -
  let ?rows = "sort_key jr_id (filter
      (\<lambda>row. \<not> jr_hidden row \<and> take (length prefix) (jr_id row) = map to_ascii_lowercase prefix) (db_jobs db))"
  note l = find_jobs_rows [OF assms(1)]
  have "take (unat limit) ?rows = ?rows"
    using list_all2_lengthD [OF l] assms(3) by simp
  note l' = l [unfolded this]
  obtain row where row: "job_row_of db i = Some row" "\<not> jr_hidden row"
    using assms(4) by (cases v) (auto simp: visible_eq)
  note r = job_row_of_in [OF row(1)]
  then have "row \<in> set ?rows"
    using row(2) assms(5) by (simp add: id_matches_def)
  from list_all2_member(1) [OF l' this] obtain job where job: "job \<in> set jobs" "decode_job_row C row = Inr job"
    by blast
  have "job_id job = i"
    using decoded_visible(1) [OF assms(2) _ row(2) job(2)] r by simp
  with job(1) show ?thesis by blast
qed

lemma update_jobs_table:
  assumes "job_table db" "\<And>y. jr_id (g y) = jr_id y"
    and "\<And>y. y \<in> set (db_jobs db) \<Longrightarrow> P y \<Longrightarrow>
      0 < jr_revision (g y) \<and> jr_revision (g y) < 2 ^ 63 \<and> (\<exists>s. jr_state (g y) = encode_job_state s)"
  shows "job_table (snd (update_jobs P g db))"
proof -
  have eq: "map jr_id (map (\<lambda>row. if P row then g row else row) (db_jobs db)) = map jr_id (db_jobs db)"
    using assms(2) by simp
  have "0 < jr_revision r \<and> jr_revision r < 2 ^ 63 \<and> (\<exists>s. jr_state r = encode_job_state s)"
    if r: "r \<in> set (map (\<lambda>row. if P row then g row else row) (db_jobs db))" for r
  proof -
    obtain y where y: "y \<in> set (db_jobs db)" "r = (if P y then g y else y)"
      using r unfolding set_map by blast
    show ?thesis
      using assms(1,3) y by (cases "P y") (auto simp: job_table_def list_all_iff)
  qed
  then show ?thesis
    using assms(1) unfolding job_table_def job_keys_def update_jobs_def snd_conv
    by (simp del: map_map set_map add: eq list_all_iff)
qed

lemma update_jobs_visible:
  assumes "\<And>y. P y \<Longrightarrow> jr_id y = job_text i" "\<And>y. jr_id (g y) = jr_id y" "job_row_of db i = Some row" "P row"
  shows "visible (snd (update_jobs P g db)) = (visible db)(i := visible (snd (update_jobs P g db)) i)"
proof
  fix k
  have "\<not> P r" if "job_row_of db k = Some r" "k \<noteq> i" for r
    using job_row_of_in [OF that(1)] assms(1) [of r] that(2) by auto
  then show "visible (snd (update_jobs P g db)) k = ((visible db)(i := visible (snd (update_jobs P g db)) i)) k"
    by (cases "job_row_of db k") (auto simp: visible_def update_jobs_row [OF assms(1,2)])
qed

section \<open>What the updates do to the visible jobs\<close>

lemma run_table_filter: "run_table db \<Longrightarrow> run_table (db\<lparr>db_runs := filter Q (db_runs db)\<rparr>)"
  by (auto simp: run_table_def list_all_iff distinct_map_filter)

lemma job_row_of_runs [simp]: "job_row_of (db\<lparr>db_runs := rs\<rparr>) i = job_row_of db i"
  by (simp add: job_row_of_def)

lemma job_row_of_transition [simp]: "job_row_of (insert_transition r db) i = job_row_of db i"
  by (simp add: job_row_of_def insert_transition_def)

lemma visible_row_cong: "(\<And>i. job_row_of db i = job_row_of db' i) \<Longrightarrow> visible db = visible db'"
  by (simp add: visible_def fun_eq_iff)

lemma recoverable_insert_transition [simp]: "recoverable (insert_transition r db) = recoverable db"
  by (simp add: recoverable_def insert_transition_def job_table_def job_keys_def run_table_def canonical_ids_def)

lemma recoverable_filter_runs: "recoverable db \<Longrightarrow> recoverable (db\<lparr>db_runs := filter Q (db_runs db)\<rparr>)"
  by (auto simp: recoverable_def job_table_def job_keys_def canonical_ids_def list_all_iff dest: run_table_filter [of _ Q])

lemma recoverable_update_jobs:
  assumes "recoverable db" "\<And>y. jr_id (g y) = jr_id y"
    and "\<And>y. y \<in> set (db_jobs db) \<Longrightarrow> P y \<Longrightarrow>
      0 < jr_revision (g y) \<and> jr_revision (g y) < 2 ^ 63 \<and> (\<exists>s. jr_state (g y) = encode_job_state s)"
  shows "recoverable (snd (update_jobs P g db))"
  using assms update_jobs_table [of db g P]
  by (auto simp: recoverable_def run_table_def canonical_ids_def list_all_iff update_jobs_def)

lemma hide_job_eq_Inr:
  assumes "hide_job C fault before db i expected keep = Inr (job, db')"
  obtains db1 where "db1 = (if keep then db else db\<lparr>db_runs := filter (\<lambda>row. rr_job_id row \<noteq> job_text i) (db_runs db)\<rparr>)"
    "load_job C before i = Inr (Some job)"
    "fst (update_jobs (\<lambda>row. jr_id row = job_text i \<and> jr_revision row = int (unat (revision_get expected))
       \<and> \<not> jr_hidden row \<and> terminal_job_row row) (\<lambda>row. row\<lparr>jr_hidden := True\<rparr>) db1) = 1"
    "db' = snd (update_jobs (\<lambda>row. jr_id row = job_text i \<and> jr_revision row = int (unat (revision_get expected))
       \<and> \<not> jr_hidden row \<and> terminal_job_row row) (\<lambda>row. row\<lparr>jr_hidden := True\<rparr>) db1)"
  using assms
  by (auto simp: hide_job_def result_simps revision_i64_def Let_def case_prod_beta simp del: of_nat_unat split: if_splits)

lemma hide_job_visible:
  assumes "hide_job C fault before db i expected keep = Inr (job, db')" "recoverable db"
  shows "recoverable db' \<and> (\<exists>s. visible db i = Some (unat (revision_get expected), s) \<and> JobState_is_terminal s)
    \<and> visible db' = (visible db)(i := None)"
proof -
  let ?P = "\<lambda>row. jr_id row = job_text i \<and> jr_revision row = int (unat (revision_get expected))
       \<and> \<not> jr_hidden row \<and> terminal_job_row row"
  let ?g = "\<lambda>row :: job_row. row\<lparr>jr_hidden := True\<rparr>"
  obtain db1 where db1: "db1 = (if keep then db else db\<lparr>db_runs := filter (\<lambda>row. rr_job_id row \<noteq> job_text i) (db_runs db)\<rparr>)"
    and one: "fst (update_jobs ?P ?g db1) = 1" and db': "db' = snd (update_jobs ?P ?g db1)"
    by (rule hide_job_eq_Inr [OF assms(1)])
  have rec: "recoverable db1"
    using assms(2) recoverable_filter_runs [OF assms(2)] by (simp add: db1)
  have vis: "visible db1 = visible db"
    by (rule visible_row_cong) (simp add: db1)
  obtain row where row: "row \<in> set (db_jobs db1)" "?P row"
    using one_match [OF one [unfolded update_jobs_def fst_conv]] by blast
  have of: "job_row_of db1 i = Some row"
    using rec row by (intro job_row_of_unique) (auto simp: recoverable_def job_table_def)
  obtain s where s: "jr_state row = encode_job_state s"
    using rec row(1) by (auto simp: recoverable_def job_table_def list_all_iff)
  have "visible db i = Some (unat (revision_get expected), s)" "JobState_is_terminal s"
    using of row(2) s terminal_job_row_eq [OF s] by (auto simp: vis [symmetric] visible_eq simp del: of_nat_unat)
  moreover have "job_row_of db' i = Some (?g row)"
    unfolding db' using of row(2) by (subst update_jobs_row [where i = i]) auto
  then have "visible db' i = None"
    by (simp add: visible_def)
  moreover have "visible db' = (visible db1)(i := visible db' i)"
    unfolding db' by (rule update_jobs_visible [where row = row]) (use of row(2) in auto)
  moreover have "recoverable db'"
    unfolding db' by (rule recoverable_update_jobs [OF rec])
      (use rec in \<open>auto simp: recoverable_def job_table_def list_all_iff\<close>)
  ultimately show ?thesis
    by (auto simp: vis)
qed

lemma rerun_transaction_eq_Inr:
  assumes "rerun_transaction C fault db i expected now = Inr db'"
  obtains row where "row \<in> set (db_jobs db)" "jr_id row = job_text i" "jr_revision row = int (unat (revision_get expected))"
    "\<not> jr_hidden row" "terminal_job_row row" "int (unat (revision_get expected)) + 1 < 2 ^ 63"
    "db' = insert_transition
       \<lparr> tw_job_id = job_text i, tw_from = jr_state row, tw_to = ''waiting'', tw_occurred_at = show_ts C now,
         tw_actor = ''cli'', tw_reason = ''explicit rerun requested'', tw_revision = int (unat (revision_get expected)) + 1 \<rparr>
       (snd (update_jobs (\<lambda>r. jr_id r = job_text i \<and> jr_revision r = int (unat (revision_get expected)) \<and> jr_state r = jr_state row)
         (\<lambda>r. r\<lparr>jr_revision := int (unat (revision_get expected)) + 1, jr_state := ''waiting'', jr_updated_at := show_ts C now,
            jr_next_due := show_ts C now\<rparr>) db))"
proof -
  obtain row n old rev where
    r: "find (\<lambda>row. jr_id row = job_text i \<and> jr_revision row = old \<and> \<not> jr_hidden row) (db_jobs db) = Some row"
      "terminal_job_row row" "Revision_next expected = Inr n" "revision_i64 n = Inr rev" "revision_i64 expected = Inr old"
    and db': "db' = insert_transition
       \<lparr> tw_job_id = job_text i, tw_from = jr_state row, tw_to = ''waiting'', tw_occurred_at = show_ts C now,
         tw_actor = ''cli'', tw_reason = ''explicit rerun requested'', tw_revision = rev \<rparr>
       (snd (update_jobs (\<lambda>r. jr_id r = job_text i \<and> jr_revision r = old \<and> jr_state r = jr_state row)
         (\<lambda>r. r\<lparr>jr_revision := rev, jr_state := ''waiting'', jr_updated_at := show_ts C now,
            jr_next_due := show_ts C now\<rparr>) db))"
    using assms by (auto simp: rerun_transaction_def result_simps Let_def case_prod_beta split: if_splits)
  have old: "old = int (unat (revision_get expected))"
    using r(5) by (simp add: revision_i64_def del: of_nat_unat split: if_splits)
  have rev: "rev = int (unat (revision_get expected)) + 1" "rev < 2 ^ 63"
    using r(3,4) by (auto simp: revision_i64_def Revision_next_eq_Inr simp del: of_nat_unat split: if_splits)
  have row: "row \<in> set (db_jobs db)" "jr_id row = job_text i" "jr_revision row = old" "\<not> jr_hidden row"
    using r(1) by (auto simp: find_Some_iff)
  show thesis
    by (rule that [OF row(1,2) row(3) [unfolded old] row(4) r(2) _ db' [unfolded old rev(1)]])
      (use rev in simp)
qed

lemma rerun_visible:
  assumes "rerun_transaction C fault db i expected now = Inr db'" "recoverable db"
  shows "recoverable db' \<and> (\<exists>s. visible db i = Some (unat (revision_get expected), s) \<and> JobState_is_terminal s)
    \<and> visible db' = (visible db)(i \<mapsto> (unat (revision_get expected) + 1, JobState.Waiting))"
proof -
  let ?n = "int (unat (revision_get expected))"
  obtain row where row: "row \<in> set (db_jobs db)" "jr_id row = job_text i" "jr_revision row = ?n" "\<not> jr_hidden row"
      "terminal_job_row row" and bound: "?n + 1 < 2 ^ 63"
    and db': "db' = insert_transition
       \<lparr> tw_job_id = job_text i, tw_from = jr_state row, tw_to = ''waiting'', tw_occurred_at = show_ts C now,
         tw_actor = ''cli'', tw_reason = ''explicit rerun requested'', tw_revision = ?n + 1 \<rparr>
       (snd (update_jobs (\<lambda>r. jr_id r = job_text i \<and> jr_revision r = ?n \<and> jr_state r = jr_state row)
         (\<lambda>r. r\<lparr>jr_revision := ?n + 1, jr_state := ''waiting'', jr_updated_at := show_ts C now,
            jr_next_due := show_ts C now\<rparr>) db))"
    by (rule rerun_transaction_eq_Inr [OF assms(1)])
  let ?P = "\<lambda>r. jr_id r = job_text i \<and> jr_revision r = ?n \<and> jr_state r = jr_state row"
  let ?g = "\<lambda>r :: job_row. r\<lparr>jr_revision := ?n + 1, jr_state := ''waiting'', jr_updated_at := show_ts C now,
            jr_next_due := show_ts C now\<rparr>"
  have of: "job_row_of db i = Some row"
    using assms(2) row(1,2) by (intro job_row_of_unique) (auto simp: recoverable_def job_table_def)
  obtain s where s: "jr_state row = encode_job_state s"
    using assms(2) row(1) by (auto simp: recoverable_def job_table_def list_all_iff)
  have old: "visible db i = Some (unat (revision_get expected), s)" "JobState_is_terminal s"
    using of row s terminal_job_row_eq [OF s] by (auto simp: visible_eq simp del: of_nat_unat)
  have "job_row_of (snd (update_jobs ?P ?g db)) i = Some (?g row)"
    using of row by (subst update_jobs_row [where i = i]) auto
  then have new: "visible (snd (update_jobs ?P ?g db)) i = Some (unat (revision_get expected) + 1, JobState.Waiting)"
    using row(4) by (simp add: visible_eq nat_add_distrib del: of_nat_unat)
  have "visible (snd (update_jobs ?P ?g db)) = (visible db)(i := visible (snd (update_jobs ?P ?g db)) i)"
    by (rule update_jobs_visible [where row = row]) (use of row in auto)
  moreover have "\<exists>s. ''waiting'' = encode_job_state s"
    by (rule exI [of _ JobState.Waiting]) simp
  then have "recoverable (snd (update_jobs ?P ?g db))"
    using bound by (intro recoverable_update_jobs [OF assms(2)]) auto
  moreover have "visible db' = visible (snd (update_jobs ?P ?g db))"
    unfolding db' by (rule visible_row_cong) simp
  ultimately show ?thesis
    using old new by (simp add: db')
qed

section \<open>The interface of the services\<close>

lemma resolve_job_eq:
  "resolve_job f p = Inr job \<longleftrightarrow> valid_prefix p \<and> f p 2 = Inr [job]"
  "resolve_job f p = Inl ManagementError.NotFound \<longleftrightarrow> valid_prefix p \<and> f p 2 = Inr []"
  "resolve_job f p = Inl (Ambiguous ids) \<longleftrightarrow>
     valid_prefix p \<and> (\<exists>a b js. f p 2 = Inr (a # b # js) \<and> ids = map job_id (a # b # js))"
proof -
  consider e where "f p 2 = Inl e" | "f p 2 = Inr []" | a where "f p 2 = Inr [a]" | a b js where "f p 2 = Inr (a # b # js)"
    by (metis obj_sumE list.exhaust)
  note cs = this
  show "resolve_job f p = Inr job \<longleftrightarrow> valid_prefix p \<and> f p 2 = Inr [job]"
    by (cases rule: cs) (auto simp: resolve_job_def)
  show "resolve_job f p = Inl ManagementError.NotFound \<longleftrightarrow> valid_prefix p \<and> f p 2 = Inr []"
    by (cases rule: cs) (auto simp: resolve_job_def)
  show "resolve_job f p = Inl (Ambiguous ids) \<longleftrightarrow>
     valid_prefix p \<and> (\<exists>a b js. f p 2 = Inr (a # b # js) \<and> ids = map job_id (a # b # js))"
    by (cases rule: cs) (auto simp: resolve_job_def)
qed

locale management_store =
  fixes inv :: "'db \<Rightarrow> bool"
    and jobs_of :: "'db \<Rightarrow> JobId \<Rightarrow> (nat \<times> JobState) option"
    and find_jobs :: "'db \<Rightarrow> string \<Rightarrow> u64 \<Rightarrow> (string, Job list) result"
    and hide :: "'db \<Rightarrow> 'db \<Rightarrow> JobId \<Rightarrow> Revision \<Rightarrow> bool \<Rightarrow> (string, Job \<times> 'db) result"
    and rerun :: "'db \<Rightarrow> JobId \<Rightarrow> Revision \<Rightarrow> UtcTimestamp \<Rightarrow> (string, Job) result \<times> 'db"
  assumes find_sound: "inv db \<Longrightarrow> find_jobs db p n = Inr js \<Longrightarrow> job \<in> set js \<Longrightarrow>
      id_matches p (job_id job) \<and> jobs_of db (job_id job) = Some (unat (revision_get (job_revision job)), job_state job)"
    and find_distinct: "inv db \<Longrightarrow> find_jobs db p n = Inr js \<Longrightarrow> distinct (map job_id js) \<and> length js \<le> unat n"
    and find_complete: "inv db \<Longrightarrow> find_jobs db p n = Inr js \<Longrightarrow> length js < unat n \<Longrightarrow>
      jobs_of db i = Some v \<Longrightarrow> id_matches p i \<Longrightarrow> i \<in> job_id ` set js"
    and hide_effect: "inv db \<Longrightarrow> hide before db i r keep = Inr (job, db') \<Longrightarrow>
      inv db' \<and> (\<exists>s. jobs_of db i = Some (unat (revision_get r), s) \<and> JobState_is_terminal s)
      \<and> jobs_of db' = (jobs_of db)(i := None)"
    and rerun_effect: "inv db \<Longrightarrow> rerun db i r now = (res, db') \<Longrightarrow>
      db' = db \<and> (\<exists>e. res = Inl e)
      \<or> inv db' \<and> (\<exists>s. jobs_of db i = Some (unat (revision_get r), s) \<and> JobState_is_terminal s)
        \<and> jobs_of db' = (jobs_of db)(i \<mapsto> (unat (revision_get r) + 1, JobState.Waiting))"
begin

lemma resolve_Inr:
  assumes "inv db" "resolve_job (find_jobs db) prefix = Inr job"
  shows "jobs_of db (job_id job) = Some (unat (revision_get (job_revision job)), job_state job)"
    "jobs_of db i \<noteq> None \<Longrightarrow> id_matches prefix i \<longleftrightarrow> i = job_id job"
proof -
  have f: "find_jobs db prefix 2 = Inr [job]"
    using assms(2) unfolding resolve_job_eq by auto
  note s = find_sound [OF assms(1) f, of job, simplified]
  show "jobs_of db (job_id job) = Some (unat (revision_get (job_revision job)), job_state job)"
    using s by simp
  show "id_matches prefix i \<longleftrightarrow> i = job_id job" if "jobs_of db i \<noteq> None"
    using s find_complete [OF assms(1) f, where i = i] that by auto
qed

lemma resolve_NotFound:
  assumes "inv db" "resolve_job (find_jobs db) prefix = Inl ManagementError.NotFound" "jobs_of db i \<noteq> None"
  shows "\<not> id_matches prefix i"
proof -
  have f: "find_jobs db prefix 2 = Inr []"
    using assms(2) unfolding resolve_job_eq by auto
  show ?thesis
    using find_complete [OF assms(1) f, where i = i] assms(3) by auto
qed

lemma resolve_Ambiguous:
  assumes "inv db" "resolve_job (find_jobs db) prefix = Inl (Ambiguous ids)"
  shows "\<exists>i j. ids = [i, j] \<and> i \<noteq> j \<and> id_matches prefix i \<and> id_matches prefix j \<and> jobs_of db i \<noteq> None \<and> jobs_of db j \<noteq> None"
proof -
  obtain a b js where f: "find_jobs db prefix 2 = Inr (a # b # js)" and ids: "ids = map job_id (a # b # js)"
    using assms(2) unfolding resolve_job_eq by auto
  have "js = []" "job_id a \<noteq> job_id b"
    using find_distinct [OF assms(1) f] by auto
  then show ?thesis
    using find_sound [OF assms(1) f, of a] find_sound [OF assms(1) f, of b] ids by simp
qed

lemma remove_hides_one:
  assumes "inv db2" "remove_job (find_jobs db) (hide before db2) prefix keep = Inr (job, db')" "inv db"
  obtains i r s where "jobs_of db2 i = Some (r, s)" "JobState_is_terminal s" "id_matches prefix i"
    "jobs_of db' = (jobs_of db2)(i := None)" "inv db'"
proof -
  obtain j where j: "resolve_job (find_jobs db) prefix = Inr j" "hide before db2 (job_id j) (job_revision j) keep = Inr (job, db')"
    using assms(2) by (auto simp: remove_job_def result_simps split: if_splits)
  have "id_matches prefix (job_id j)"
    using resolve_Inr(1) [OF assms(3) j(1)] resolve_Inr(2) [OF assms(3) j(1), of "job_id j"] by simp
  then show thesis
    using hide_effect [OF assms(1) j(2)] that by blast
qed

lemma rerun_moves_one:
  assumes "inv db" "rerun_job (find_jobs db) (rerun db) db prefix confirm now = (res, db')"
  shows "db' = db \<and> (\<exists>e. res = Inl e)
    \<or> (\<exists>i r s. jobs_of db i = Some (r, s) \<and> JobState_is_terminal s \<and> id_matches prefix i
         \<and> (s = JobState.Interrupted \<longrightarrow> confirm)
         \<and> jobs_of db' = (jobs_of db)(i \<mapsto> (r + 1, JobState.Waiting)) \<and> inv db')"
proof (cases "resolve_job (find_jobs db) prefix")
  case (Inl e)
  show ?thesis using assms(2) by (auto simp: rerun_job_def on_ok_def Inl)
next
  case (Inr job)
  note j = resolve_Inr [OF assms(1) Inr]
  show ?thesis
  proof (cases "JobState_is_terminal (job_state job) \<and> (job_state job = JobState.Interrupted \<longrightarrow> confirm)")
    case False
    with assms(2) Inr show ?thesis by (auto simp: rerun_job_def on_ok_def split: if_splits)
  next
    case True
    obtain r0 where r0: "rerun db (job_id job) (job_revision job) now = (r0, db')" "res = map_err ManagementError.Store r0"
      using assms(2) Inr True
      by (cases "rerun db (job_id job) (job_revision job) now") (auto simp: rerun_job_def on_ok_def)
    have "id_matches prefix (job_id job)"
      using j(1) j(2) [of "job_id job"] by simp
    then show ?thesis
      using rerun_effect [OF assms(1) r0(1)] r0(2) j(1) True by (auto simp: result_simps)
  qed
qed

end

interpretation management: management_store recoverable visible "mgmt_find C find_fault"
  "mgmt_hide C hide_fault" "mgmt_rerun C rerun_fault"
  for C :: codec and find_fault hide_fault rerun_fault :: "nat \<Rightarrow> StoreError option"
proof unfold_locales
  fix db before db' :: Database and p n js job i v r keep now res
  show "id_matches p (job_id job) \<and> visible db (job_id job) = Some (unat (revision_get (job_revision job)), job_state job)"
    if "recoverable db" "mgmt_find C find_fault db p n = Inr js" "job \<in> set js"
    using that find_jobs_sound by (simp add: mgmt_find_def result_simps)
  show "distinct (map job_id js) \<and> length js \<le> unat n" if "recoverable db" "mgmt_find C find_fault db p n = Inr js"
    using that find_jobs_distinct by (simp add: mgmt_find_def result_simps)
  show "i \<in> job_id ` set js"
    if "recoverable db" "mgmt_find C find_fault db p n = Inr js" "length js < unat n" "visible db i = Some v" "id_matches p i"
    using that find_jobs_complete by (simp add: mgmt_find_def result_simps)
  show "recoverable db' \<and> (\<exists>s. visible db i = Some (unat (revision_get r), s) \<and> JobState_is_terminal s)
      \<and> visible db' = (visible db)(i := None)"
    if "recoverable db" "mgmt_hide C hide_fault before db i r keep = Inr (job, db')"
    using that hide_job_visible by (simp add: mgmt_hide_def result_simps)
  show "db' = db \<and> (\<exists>e. res = Inl e)
      \<or> recoverable db' \<and> (\<exists>s. visible db i = Some (unat (revision_get r), s) \<and> JobState_is_terminal s)
        \<and> visible db' = (visible db)(i \<mapsto> (unat (revision_get r) + 1, JobState.Waiting))"
    if "recoverable db" "mgmt_rerun C rerun_fault db i r now = (res, db')"
  proof (cases "rerun_transaction C rerun_fault db i r now")
    case (Inl e)
    with that(2) show ?thesis by (auto simp: mgmt_rerun_def prepare_rerun_def on_ok_def)
  next
    case (Inr d)
    with that(2) have "db' = d" by (auto simp: mgmt_rerun_def prepare_rerun_def on_ok_def)
    with rerun_visible [OF Inr that(1)] show ?thesis by blast
  qed
qed

section \<open>Properties\<close>

text \<open>
  A job prefix is resolved exactly.  On the stored jobs that are not hidden, the service
  returns a job exactly when it is the only one whose identifier starts with the prefix, in
  either case of letters; not found means that there is none, and ambiguity names two
  different jobs that match.
\<close>

theorem job_prefix_resolution:
  assumes "recoverable db"
  shows "(\<forall>job. resolve_job (mgmt_find C fault db) prefix = Inr job \<longrightarrow>
        visible db (job_id job) = Some (unat (revision_get (job_revision job)), job_state job)
        \<and> (\<forall>i. visible db i \<noteq> None \<longrightarrow> (id_matches prefix i \<longleftrightarrow> i = job_id job)))
    \<and> (resolve_job (mgmt_find C fault db) prefix = Inl ManagementError.NotFound \<longrightarrow>
        (\<forall>i. visible db i \<noteq> None \<longrightarrow> \<not> id_matches prefix i))
    \<and> (\<forall>ids. resolve_job (mgmt_find C fault db) prefix = Inl (Ambiguous ids) \<longrightarrow>
        (\<exists>i j. ids = [i, j] \<and> i \<noteq> j \<and> id_matches prefix i \<and> id_matches prefix j
           \<and> visible db i \<noteq> None \<and> visible db j \<noteq> None))"
  by (intro conjI allI impI management.resolve_Inr(1) [OF assms] management.resolve_Inr(2) [OF assms]
      management.resolve_NotFound [OF assms] management.resolve_Ambiguous [OF assms])

lemma sample_prefix: "take (Suc 0) (job_text (job_id sample_job)) = ''0''" "to_ascii_lowercase (CHR ''0'') = CHR ''0''"
  by code_simp+

lemma sample_found:
  assumes "db_jobs db = [row]" "jr_id row = job_text (job_id sample_job)" "\<not> jr_hidden row"
    "decode_job_row sample_codec row = Inr job"
  shows "resolve_job (mgmt_find sample_codec (\<lambda>_. None) db) ''0'' = Inr job"
  using assms by (simp add: resolve_job_eq valid_prefix_def is_identifier_byte_def sample_prefix mgmt_find_def
      store_find_jobs_by_prefix_def sql_limit_def query_def statement_def is_ascii_digit_def byte_def)

theorem job_prefix_resolution_witness:
  "\<exists>db. create sample_codec (\<lambda>_. None) empty_db sample_job = Inr db
     \<and> resolve_job (mgmt_find sample_codec (\<lambda>_. None) db) ''0'' = Inr sample_job
     \<and> visible db (job_id sample_job) = Some (unat (revision_get (job_revision sample_job)), job_state sample_job)"
proof -
  obtain db row where s: "create sample_codec (\<lambda>_. None) empty_db sample_job = Inr db" "recoverable db"
    "db_jobs db = [row]" "db_runs db = []" "jr_id row = job_text (job_id sample_job)" "jr_revision row = 1"
    "jr_state row = ''scheduled''" "decode_job_row sample_codec row = Inr sample_job"
    by (rule sample_created)
  have "\<not> jr_hidden row"
    using s(1,3) by (auto simp: create_eq_Inr empty_db_def encode_job_row_def)
  then have r: "resolve_job (mgmt_find sample_codec (\<lambda>_. None) db) ''0'' = Inr sample_job"
    by (rule sample_found [OF s(3,5) _ s(8)])
  show ?thesis
    using s(1) r job_prefix_resolution [OF s(2), of sample_codec "\<lambda>_. None" "''0''"] by blast
qed

text \<open>The sample job after one transition.\<close>

lemma sample_moved:
  assumes "one_shot_legal JobState.Scheduled to"
  obtains db row job where "recoverable db" "db_jobs db = [row]" "db_runs db = []" "jr_id row = job_text (job_id sample_job)"
    "\<not> jr_hidden row" "jr_revision row = 2" "jr_state row = encode_job_state to" "decode_job_row sample_codec row = Inr job"
    "job_id job = job_id sample_job" "job_revision job = Revision 2" "job_state job = to" "job_created_at job = 0"
    "job_updated_at job = 5"
proof -
  obtain db0 row0 where s: "create sample_codec (\<lambda>_. None) empty_db sample_job = Inr db0" "recoverable db0"
    "db_jobs db0 = [row0]" "db_runs db0 = []" "jr_id row0 = job_text (job_id sample_job)" "jr_revision row0 = 1"
    "jr_state row0 = ''scheduled''" "decode_job_row sample_codec row0 = Inr sample_job"
    by (rule sample_created)
  have vis: "\<not> jr_hidden row0"
    using s(1,3) by (auto simp: create_eq_Inr empty_db_def encode_job_row_def)
  have keys: "job_keys db0"
    using s(2) by (simp add: recoverable_def job_table_def)
  let ?job = "sample_job\<lparr>job_revision := Revision 2, job_state := to, job_updated_at := 5\<rparr>"
  obtain tr where jt: "Job_transition sample_job to False Supervisor ''moved'' 5 = Inr (?job, tr)"
    using assms by (simp add: Job_transition_def sample_job_def job_transition_def transition_def
      contains_nul_def Revision_next_def Revision_new_def checked_add_def)
  have ld: "load_job sample_codec db0 (job_id sample_job) = Inr (Some sample_job)"
    by (rule create_load(2) [OF s(1) sample_codec_ok sample_job_storable])
  let ?row = "row0\<lparr>jr_revision := 2, jr_state := encode_job_state to, jr_updated_at := show_ts sample_codec 5\<rparr>"
  obtain db where t: "transition_job sample_codec (\<lambda>_. None) db0 (job_id sample_job) (job_revision sample_job)
      to False Supervisor ''moved'' 5 = Inr (?job, db)" and db: "db_jobs db = [?row]" "db_runs db = []"
    using s(3-6) jt ld
    by (auto simp: transition_job_def statement_def to_sql_u64_def update_jobs_def insert_transition_def sample_job_def)
  have rec: "recoverable db"
    using db s(5) by (auto simp: recoverable_def job_table_def run_table_def canonical_ids_def job_keys_def)
  have "load_job sample_codec db (job_id sample_job) = Inr (Some ?job)"
    by (rule transition_job_effect(1) [OF keys sample_codec_ok t])
  then have "decode_job_row sample_codec ?row = Inr ?job"
    using db(1) s(5) by (simp add: load_job_eq_Inr)
  note d = this
  show thesis
    by (rule that [OF rec db(1,2) _ _ _ _ d]) (use s(5) vis in \<open>simp_all add: sample_job_def\<close>)
qed

lemma sample_ended:
  obtains db row job where "recoverable db" "db_jobs db = [row]" "db_runs db = []" "jr_id row = job_text (job_id sample_job)"
    "\<not> jr_hidden row" "jr_revision row = 2" "jr_state row = ''missed''" "decode_job_row sample_codec row = Inr job"
    "job_id job = job_id sample_job" "job_revision job = Revision 2" "job_state job = JobState.Missed" "job_created_at job = 0"
  by (rule sample_moved [of JobState.Missed]) (auto simp: one_shot_legal_def)

text \<open>
  Removing a job hides exactly that job.  The removed job matched the prefix, had ended and
  still had the revision the service read, although the store may have changed in between; no
  other job changes.  Without \<open>--keep-history\<close> its runs and only its runs are deleted, with it
  no run is.
\<close>

theorem job_removal_effect:
  assumes "remove_job (mgmt_find C find_fault db) (mgmt_hide C fault before db2) prefix keep = Inr (job, db')"
    and "recoverable db" "recoverable db2"
  shows "\<exists>i r s. visible db2 i = Some (r, s) \<and> JobState_is_terminal s \<and> id_matches prefix i
    \<and> visible db' = (visible db2)(i := None)
    \<and> db_runs db' = (if keep then db_runs db2 else filter (\<lambda>row. rr_job_id row \<noteq> job_text i) (db_runs db2))
    \<and> db_transitions db' = db_transitions db2 \<and> recoverable db'"
proof -
  obtain j where j: "resolve_job (mgmt_find C find_fault db) prefix = Inr j"
    "hide_job C fault before db2 (job_id j) (job_revision j) keep = Inr (job, db')"
    using assms(1) by (auto simp: remove_job_def mgmt_hide_def result_simps split: if_splits)
  have "id_matches prefix (job_id j)"
    using management.resolve_Inr(1) [OF assms(2) j(1)] management.resolve_Inr(2) [OF assms(2) j(1), of "job_id j"] by simp
  moreover have "db_runs db' = (if keep then db_runs db2 else filter (\<lambda>row. rr_job_id row \<noteq> job_text (job_id j)) (db_runs db2))
    \<and> db_transitions db' = db_transitions db2"
    by (rule hide_job_eq_Inr [OF j(2)]) (auto simp: update_jobs_def)
  ultimately show ?thesis
    using hide_job_visible [OF j(2) assms(3)] by blast
qed

theorem job_removal_effect_witness:
  "\<exists>db job db'. remove_job (mgmt_find sample_codec (\<lambda>_. None) db) (mgmt_hide sample_codec (\<lambda>_. None) db db) ''0'' False = Inr (job, db')
     \<and> visible db (job_id sample_job) = Some (2, JobState.Missed)
     \<and> (\<exists>i r s. visible db i = Some (r, s) \<and> visible db' = (visible db)(i := None))"
proof -
  obtain db row job where s: "recoverable db" "db_jobs db = [row]" "db_runs db = []" "jr_id row = job_text (job_id sample_job)"
    "\<not> jr_hidden row" "jr_revision row = 2" "jr_state row = ''missed''" "decode_job_row sample_codec row = Inr job"
    "job_id job = job_id sample_job" "job_revision job = Revision 2" "job_state job = JobState.Missed" "job_created_at job = 0"
    by (rule sample_ended)
  have v: "visible db (job_id sample_job) = Some (2, JobState.Missed)"
    using s by (simp add: visible_eq job_row_of_def)
  have "\<exists>job db'. remove_job (mgmt_find sample_codec (\<lambda>_. None) db) (mgmt_hide sample_codec (\<lambda>_. None) db db) ''0'' False = Inr (job, db')"
    using s sample_found [OF s(2,4,5,8)]
    by (simp add: remove_job_def JobState_is_terminal_def mgmt_hide_def hide_job_def statement_def load_job_def
        revision_i64_def update_jobs_def terminal_job_row_def Let_def)
  then obtain job db' where r: "remove_job (mgmt_find sample_codec (\<lambda>_. None) db) (mgmt_hide sample_codec (\<lambda>_. None) db db) ''0'' False
      = Inr (job, db')" by blast
  show ?thesis
    using r v job_removal_effect [OF r s(1,1)] by blast
qed

lemma rerun_due:
  assumes "rerun_transaction C fault db i expected now = Inr db'" "recoverable db" "load_job C db' i = Inr (Some job)" "codec_ok C"
  shows "job_next_due job = now \<and> job_updated_at job = now \<and> job_state job = JobState.Waiting"
proof -
  let ?n = "int (unat (revision_get expected))"
  obtain row where row: "row \<in> set (db_jobs db)" "jr_id row = job_text i" "jr_revision row = ?n"
    and db': "db' = insert_transition
       \<lparr> tw_job_id = job_text i, tw_from = jr_state row, tw_to = ''waiting'', tw_occurred_at = show_ts C now,
         tw_actor = ''cli'', tw_reason = ''explicit rerun requested'', tw_revision = ?n + 1 \<rparr>
       (snd (update_jobs (\<lambda>r. jr_id r = job_text i \<and> jr_revision r = ?n \<and> jr_state r = jr_state row)
         (\<lambda>r. r\<lparr>jr_revision := ?n + 1, jr_state := ''waiting'', jr_updated_at := show_ts C now,
            jr_next_due := show_ts C now\<rparr>) db))"
    by (rule rerun_transaction_eq_Inr [OF assms(1)])
  have "job_row_of db i = Some row"
    using assms(2) row(1,2) by (intro job_row_of_unique) (auto simp: recoverable_def job_table_def)
  then have "job_row_of db' i = Some (row\<lparr>jr_revision := ?n + 1, jr_state := ''waiting'', jr_updated_at := show_ts C now,
            jr_next_due := show_ts C now\<rparr>)"
    unfolding db' job_row_of_transition using row by (subst update_jobs_row [where i = i]) auto
  then have "decode_job_row C (row\<lparr>jr_revision := ?n + 1, jr_state := ''waiting'', jr_updated_at := show_ts C now,
            jr_next_due := show_ts C now\<rparr>) = Inr job"
    using assms(3) by (simp add: load_job_eq_Inr job_row_of_def)
  then show ?thesis
    using assms(4) by (cases "job_state job") (simp_all add: decode_job_row_eq_Inr decode_job_state_eq_Inr)
qed

text \<open>
  Running a job again arms it for now: the job matched the prefix and had ended, it is waiting, due
  at the time of the request, with the next revision, and no other job changes.  The search and the
  transaction may see different databases.
\<close>

lemma rerun_two_databases:
  assumes "rerun_job (mgmt_find C find_fault db) (mgmt_rerun C fault db1) db1 prefix confirm now = (Inr job, db')"
    and "recoverable db" "recoverable db1" "codec_ok C"
  shows "\<exists>r s. visible db1 (job_id job) = Some (r, s) \<and> JobState_is_terminal s \<and> id_matches prefix (job_id job)
    \<and> visible db' = (visible db1)(job_id job \<mapsto> (r + 1, JobState.Waiting)) \<and> recoverable db'
    \<and> load_job C db' (job_id job) = Inr (Some job) \<and> job_next_due job = now"
proof -
  obtain j where j: "resolve_job (mgmt_find C find_fault db) prefix = Inr j"
    and pr: "prepare_rerun C fault db1 (job_id j) (job_revision j) now = (Inr job, db')"
    using assms(1) by (cases "prepare_rerun C fault db1 (job_id (projr (resolve_job (mgmt_find C find_fault db) prefix)))
      (job_revision (projr (resolve_job (mgmt_find C find_fault db) prefix))) now")
      (auto simp: rerun_job_def on_ok_eq_Inr mgmt_rerun_def result_simps split: if_splits)
  obtain t: "rerun_transaction C fault db1 (job_id j) (job_revision j) now = Inr db'"
    and l: "load_job C db' (job_id j) = Inr (Some job)"
    using pr by (auto simp: prepare_rerun_def on_ok_eq_Inr result_simps)
  have m: "id_matches prefix (job_id j)"
    using management.resolve_Inr(1) [OF assms(2) j] management.resolve_Inr(2) [OF assms(2) j, of "job_id j"] by simp
  show ?thesis
    using rerun_visible [OF t assms(3)] rerun_due [OF t assms(3) l assms(4)] load_job_id [OF l] m l by auto
qed

lemma sample_rerun:
  obtains db job db' where "recoverable db" "visible db (job_id sample_job) = Some (2, JobState.Missed)"
    "rerun_job (mgmt_find sample_codec (\<lambda>_. None) db) (mgmt_rerun sample_codec (\<lambda>_. None) db) db ''0'' False 9 = (Inr job, db')"
proof -
  obtain db row job where s: "recoverable db" "db_jobs db = [row]" "db_runs db = []" "jr_id row = job_text (job_id sample_job)"
    "\<not> jr_hidden row" "jr_revision row = 2" "jr_state row = ''missed''" "decode_job_row sample_codec row = Inr job"
    "job_id job = job_id sample_job" "job_revision job = Revision 2" "job_state job = JobState.Missed" "job_created_at job = 0"
    by (rule sample_ended)
  have v: "visible db (job_id sample_job) = Some (2, JobState.Missed)"
    using s by (simp add: visible_eq job_row_of_def)
  let ?row = "row\<lparr>jr_revision := 3, jr_state := ''waiting'', jr_updated_at := show_ts sample_codec 9, jr_next_due := show_ts sample_codec 9\<rparr>"
  let ?job = "job\<lparr>job_revision := Revision 3, job_state := JobState.Waiting, job_updated_at := 9, job_next_due := 9\<rparr>"
  have "decode_job_row sample_codec ?row = Inr ?job"
    using s(8,12) parse_timestamp_show [OF sample_codec_ok, of 9] decode_job_state_encode [of sample_codec JobState.Waiting]
    by (simp add: decode_job_row_eq_Inr Revision_new_def)
  then have "\<exists>db'. rerun_job (mgmt_find sample_codec (\<lambda>_. None) db) (mgmt_rerun sample_codec (\<lambda>_. None) db) db ''0'' False 9 = (Inr ?job, db')"
    using s sample_found [OF s(2,4,5,8)]
    by (simp add: rerun_job_def on_ok_def JobState_is_terminal_def mgmt_rerun_def prepare_rerun_def rerun_transaction_def
        statement_def load_job_def revision_i64_def update_jobs_def terminal_job_row_def Let_def Revision_next_def
        Revision_new_def checked_add_def insert_transition_def)
  with that s(1) v show thesis by blast
qed

text \<open>
  A submission that is reported as made is stored.  A dry run writes nothing; a failed
  submission leaves the store as it was; otherwise the job reads back unchanged, whether or not
  the supervisor answered, and it is reported as supervised exactly when the supervisor
  acknowledged it.
\<close>

theorem submission_durable:
  assumes "submit_job (create_job C fault) acknowledge db job dry_run = (res, db')"
    and "codec_ok C" "storable job" "job_keys db"
  shows "(dry_run \<longrightarrow> res = Inr (DryRun job) \<and> db' = db)
    \<and> (\<forall>e. res = Inl e \<longrightarrow> db' = db)
    \<and> (\<forall>done. res = Inr done \<and> \<not> dry_run \<longrightarrow> SubmissionOutcome_job done = job
         \<and> load_job C db' (job_id job) = Inr (Some job)
         \<and> (\<forall>i. i \<noteq> job_id job \<longrightarrow> load_job C db' i = load_job C db i)
         \<and> (done = Supervised job \<longleftrightarrow> acknowledge db' (job_id job) (job_revision job) = Inr ()))"
proof (cases dry_run)
  case True
  then show ?thesis using assms(1) by (simp add: submit_job_def)
next
  case False
  show ?thesis
  proof (cases "create C fault db job")
    case (Inl e)
    then show ?thesis using assms(1) False by (auto simp: submit_job_def create_job_def on_ok_def)
  next
    case (Inr d)
    have "load_job C d (job_id job) = Inr (Some job)" "i \<noteq> job_id job \<Longrightarrow> load_job C d i = load_job C db i" for i
      using create_load [OF Inr assms(2,3)] by simp_all
    then show ?thesis
      using assms(1) False Inr by (auto simp: submit_job_def create_job_def on_ok_def split: sum.splits)
  qed
qed

theorem submission_durable_witness:
  "\<exists>db'. submit_job (create_job sample_codec (\<lambda>_. None)) (\<lambda>_ _ _. Inl SocketSubstitution) empty_db sample_job False
       = (Inr (CommittedUnsupervised sample_job SocketSubstitution), db')
     \<and> load_job sample_codec db' (job_id sample_job) = Inr (Some sample_job)"
proof -
  obtain db' where c: "create sample_codec (\<lambda>_. None) empty_db sample_job = Inr db'"
    using sample_job_created by blast
  then have s: "submit_job (create_job sample_codec (\<lambda>_. None)) (\<lambda>_ _ _. Inl SocketSubstitution) empty_db sample_job False
       = (Inr (CommittedUnsupervised sample_job SocketSubstitution), db')"
    by (simp add: submit_job_def create_job_def on_ok_def)
  have "job_keys empty_db" by (simp add: job_keys_def empty_db_def)
  from submission_durable [OF s sample_codec_ok sample_job_storable this] s show ?thesis by simp
qed

end
