(* ===== verification/Cancel_Job.thy ===== *)
theory Cancel_Job
  imports Management
begin

text \<open>
  Cancellation of a job by the command line (\<open>cancel_job\<close>, \<open>cancel_active_run\<close> and
  \<open>finish_job_cancellation\<close> of \<open>src/cli/dispatch.rs\<close>).

  The supervisor, the run monitors and other commands work on the same database.  Before its
  \<open>n\<close>-th access the command sees what they have committed since the last one:
  \<open>cj_others env n\<close>.  The wait for the run to stop polls the databases \<open>cj_polls\<close> until its
  deadline and one more time after it.  The clock, the boot identity and the signalling of the
  process group are parameters; \<open>cj_deadline\<close> says whether the deadline can be computed.
\<close>

section \<open>The command\<close>

record cancel_env =
  cj_now :: "nat \<Rightarrow> (string, UtcTimestamp) result"
  cj_boot :: "(string, string) result"
  cj_fault :: "nat \<Rightarrow> nat \<Rightarrow> StoreError option"
  cj_others :: "nat \<Rightarrow> Database \<Rightarrow> Database"
  cj_group :: "string \<Rightarrow> DurationSeconds \<Rightarrow> Run \<Rightarrow> (string, GroupCancellation) result"
  cj_deadline :: "DurationSeconds \<Rightarrow> bool"
  cj_polls :: "Database \<Rightarrow> Database list \<times> Database"

fun CancelRunError_text :: "CancelRunError \<Rightarrow> string" where
  "CancelRunError_text CancelRunError.NotFound = ''run was not found''"
| "CancelRunError_text CancelRunError.InvalidClaim = ''run claim token did not match''"
| "CancelRunError_text (CancelRunError.Store m) = ''cancellation storage failed: '' @ m"
| "CancelRunError_text (CancelRunError.Process m) = ''process-group cancellation failed: '' @ m"

definition store_error :: "StoreError \<Rightarrow> ManagementError" where
  "store_error e = ManagementError.Store (StoreError_text e)"

definition load_current ::
  "codec \<Rightarrow> (nat \<Rightarrow> StoreError option) \<Rightarrow> Database \<Rightarrow> JobId \<Rightarrow> (ManagementError, Job) result" where
  "load_current C fault db i =
     try_bind (map_err store_error (try_bind (statement fault 0) (\<lambda>_. load_job C db i))) (ok_or ManagementError.NotFound)"

fun retriable :: "StoreError \<Rightarrow> bool" where
  "retriable Conflict = True"
| "retriable (Domain _) = True"
| "retriable _ = False"

datatype request = Satisfied Job | Requested Job UtcTimestamp | GaveUp

text \<open>The loop of at most eight attempts; the argument counts the attempts left.\<close>

fun request_cancel ::
  "codec \<Rightarrow> cancel_env \<Rightarrow> nat \<Rightarrow> Job \<Rightarrow> Database \<Rightarrow> (ManagementError, request) result \<times> Database" where
  "request_cancel C env 0 current db = (Inr GaveUp, db)"
| "request_cancel C env (Suc left) current db =
     (if job_state current \<in> {JobState.CancelRequested, JobState.Cancelled} then (Inr (Satisfied current), db)
      else if JobState_is_terminal (job_state current) then (Inr GaveUp, db)
      else on_ok ManagementError.Store (cj_now env (10 + left)) db (\<lambda>now.
        (let db1 = cj_others env (10 + 2 * left) db
         in case transition_job C (cj_fault env (10 + 2 * left)) db1 (job_id current) (job_revision current)
              JobState.CancelRequested False Cli ''cancel requested'' now of
              Inr (pending, db2) \<Rightarrow> (Inr (Requested pending now), db2)
            | Inl e \<Rightarrow>
                if retriable e then
                  (let db2 = cj_others env (11 + 2 * left) db1
                   in on_ok id (load_current C (cj_fault env (11 + 2 * left)) db2 (job_id current)) db2
                        (\<lambda>current. request_cancel C env left current db2))
                else (Inl (store_error e), db1))))"

section \<open>Stopping the active run\<close>

definition poll_run :: "codec \<Rightarrow> RunId \<Rightarrow> Database \<Rightarrow> (ManagementError, Run) result" where
  "poll_run C i db =
     try_bind (map_err store_error (load_run C db i)) (ok_or (StateConflict ''active run disappeared''))"

fun wait_stopped :: "codec \<Rightarrow> RunId \<Rightarrow> Database list \<Rightarrow> Database \<Rightarrow> (ManagementError, Run) result \<times> Database" where
  "wait_stopped C i [] final =
     (try_bind (poll_run C i final) (\<lambda>run.
        if RunState_is_terminal (run_state run) then Inr run
        else Inl (StateConflict ''run did not stop before the cancellation deadline'')), final)"
| "wait_stopped C i (db # dbs) final =
     on_ok id (poll_run C i db) db (\<lambda>run.
       if RunState_is_terminal (run_state run) then (Inr run, db) else wait_stopped C i dbs final)"

definition cancel_active_run ::
  "codec \<Rightarrow> cancel_env \<Rightarrow> DurationSeconds \<Rightarrow> Run \<Rightarrow> Database \<Rightarrow> (ManagementError, Run) result \<times> Database" where
  "cancel_active_run C env grace run db =
     on_ok ManagementError.Store (cj_boot env) db (\<lambda>boot.
     (let before = cj_others env 3 db;
          eff = cancel_claimed_run (load_for_cancellation C) (commit_cancellation C (cj_fault env 3))
            (cj_group env boot grace) before (cj_others env 4 before) (run_id run) (run_claim_token run);
          wait = (\<lambda>db. if \<not> cj_deadline env grace then (Inl (StateConflict ''cancel wait overflowed''), db)
            else (let (dbs, final) = cj_polls env db in wait_stopped C (run_id run) dbs final))
      in on_ok (\<lambda>e. ManagementError.Store (CancelRunError_text e)) (ce_result eff) (ce_db eff) (\<lambda>result.
         case result of
           CommittedBeforeSpawn r \<Rightarrow>
             on_ok ManagementError.Store (cj_now env 3) (ce_db eff) (\<lambda>now.
             (let rd = cj_others env 5 (ce_db eff); wr = cj_others env 6 rd
              in on_ok store_error (record_run_terminal C (cj_fault env 5) rd wr (run_id r) (run_claim_token r) now
                   (RunOutcome.Cancelled ''cancelled before command start'')) wr (\<lambda>(_, db). wait db)))
         | _ \<Rightarrow> wait (ce_db eff))))"

section \<open>Finishing the job\<close>

fun cancelled_target :: "RunState \<Rightarrow> JobState option" where
  "cancelled_target RunState.Succeeded = Some JobState.Succeeded"
| "cancelled_target RunState.Cancelled = Some JobState.Cancelled"
| "cancelled_target RunState.Failed = Some JobState.Failed"
| "cancelled_target RunState.Interrupted = Some JobState.Interrupted"
| "cancelled_target _ = None"

definition finish_job_cancellation ::
  "codec \<Rightarrow> cancel_env \<Rightarrow> JobId \<Rightarrow> RunState \<Rightarrow> Database \<Rightarrow> (ManagementError, Job) result \<times> Database" where
  "finish_job_cancellation C env i ended db =
     (case cancelled_target ended of
        None \<Rightarrow> (Inl (StateConflict ''run remained nonterminal after cancellation''), db)
      | Some target \<Rightarrow>
          (let db1 = cj_others env 7 db in
           on_ok id (load_current C (cj_fault env 7) db1 i) db1 (\<lambda>current.
           if JobState_is_terminal (job_state current) then (Inr current, db1)
           else on_ok ManagementError.Store (cj_now env 4) db1 (\<lambda>now.
             (let db2 = cj_others env 8 db1
              in case transition_job C (cj_fault env 8) db2 (job_id current) (job_revision current) target False Cli
                   ''cancellation finished'' now of
                   Inr (finished, db3) \<Rightarrow> (Inr finished, db3)
                 | Inl e \<Rightarrow>
                     if retriable e then
                       (let db3 = cj_others env 9 db2 in
                        on_ok id (load_current C (cj_fault env 9) db3 (job_id current)) db3 (\<lambda>final_state.
                        if JobState_is_terminal (job_state final_state) \<or> job_state final_state = JobState.Waiting
                        then (Inr final_state, db3)
                        else (Inl (StateConflict ''job changed state during cancellation''), db3)))
                     else (Inl (store_error e), db2))))))"

definition cancel_job ::
  "codec \<Rightarrow> cancel_env \<Rightarrow> DurationSeconds \<Rightarrow> string \<Rightarrow> Database \<Rightarrow> (ManagementError, Job) result \<times> Database" where
  "cancel_job C env grace prefix db =
     on_ok id (resolve_job (mgmt_find C (cj_fault env 0) db) prefix) db (\<lambda>job.
     if job_state job \<in> {JobState.Cancelled, JobState.CancelRequested} then (Inr job, db)
     else if JobState_is_terminal (job_state job) then (Inl (StateConflict ''completed job cannot be cancelled''), db)
     else on_ok ManagementError.Store (cj_now env 0) db (\<lambda>_.
       (let db1 = cj_others env 1 db in
        on_ok store_error (latest_active_run C (cj_fault env 1) db1 (job_id job)) db1 (\<lambda>active.
        (let (requested, db2) = request_cancel C env 8 job db1 in
         on_ok id requested db2 (\<lambda>requested.
         case requested of
           Satisfied current \<Rightarrow> (Inr current, db2)
         | GaveUp \<Rightarrow> (Inl (StateConflict ''job changed state during cancellation''), db2)
         | Requested pending now \<Rightarrow>
             (case active of
                None \<Rightarrow>
                  (let db3 = cj_others env 2 db2 in
                   on_ok store_error (transition_job C (cj_fault env 2) db3 (job_id pending) (job_revision pending)
                     JobState.Cancelled False Cli ''cancelled before command start'' now) db3
                     (\<lambda>(cancelled, db4). (Inr cancelled, db4)))
              | Some run \<Rightarrow>
                  (let (stopped, db3) = cancel_active_run C env grace run db2 in
                   on_ok id stopped db3 (\<lambda>terminal_run.
                     finish_job_cancellation C env (job_id pending) (run_state terminal_run) db3)))))))))"

section \<open>Steps of a cancellation\<close>

text \<open>A legal transition through a store that does not fail.\<close>

lemma transition_step:
  assumes "job_keys db" "job_revisions_i64 db" "codec_ok C" "load_job C db i = Inr (Some job)"
    and "one_shot_legal (job_state job) to" "job_updated_at job \<le> now" "unat (revision_get (job_revision job)) + 1 < 2 ^ 63"
    and "reason \<noteq> []" "\<not> contains_nul reason" "\<And>n. fault n = None"
  obtains job1 db1 where "transition_job C fault db i (job_revision job) to False actor reason now = Inr (job1, db1)"
    "unat (revision_get (job_revision job1)) = unat (revision_get (job_revision job)) + 1"
    "job_state job1 = to" "job_updated_at job1 = now" "load_job C db1 i = Inr (Some job1)" "job_keys db1" "job_revisions_i64 db1"
    "db_runs db1 = db_runs db" "job_id job1 = i"
proof -
  obtain tr where "job_transition (job_state job) to False actor reason = Inr tr"
    using assms(5,8,9) by (simp add: job_transition_def transition_def)
  from Job_transition_exists [OF assms(6) this assms(7)] obtain job1 where
    t: "Job_transition job to False actor reason now = Inr (job1, tr)"
    and j: "unat (revision_get (job_revision job1)) = unat (revision_get (job_revision job)) + 1"
      "job_state job1 = to" "job_updated_at job1 = now"
    by metis
  obtain db1 where db1: "transition_job C fault db i (job_revision job) to False actor reason now = Inr (job1, db1)"
    using transition_job_succeeds [where fault = fault, OF assms(1,2,4) t _ assms(10)] j(1) assms(7) by auto
  note fr = transition_job_frame [OF db1 assms(1,3)]
  show thesis
    using that [OF db1 j fr(1,2) transition_job_keys [OF db1 assms(2)] fr(3,5)] .
qed

lemma cancel_request_legal:
  "\<not> JobState_is_terminal s \<Longrightarrow> s \<noteq> JobState.CancelRequested \<Longrightarrow> one_shot_legal s JobState.CancelRequested"
  by (cases s) (simp_all add: one_shot_legal_def JobState_is_terminal_def)

text \<open>An attempt on the job as it is stored succeeds.\<close>

lemma request_cancel_hit:
  assumes "job_keys db" "job_revisions_i64 db" "codec_ok C" "load_job C db i = Inr (Some job)"
    and "\<not> JobState_is_terminal (job_state job)" "job_state job \<noteq> JobState.CancelRequested"
    and "job_updated_at job \<le> now" "unat (revision_get (job_revision job)) + 1 < 2 ^ 63"
    and "cj_now env (10 + left) = Inr now" "cj_others env (10 + 2 * left) before = db" "\<And>n. cj_fault env (10 + 2 * left) n = None"
  obtains job1 db1 where "request_cancel C env (Suc left) job before = (Inr (Requested job1 now), db1)"
    "unat (revision_get (job_revision job1)) = unat (revision_get (job_revision job)) + 1"
    "job_state job1 = JobState.CancelRequested" "job_updated_at job1 = now" "load_job C db1 i = Inr (Some job1)"
    "job_keys db1" "job_revisions_i64 db1" "db_runs db1 = db_runs db" "job_id job1 = i"
    "map jr_id (db_jobs db1) = map jr_id (db_jobs db)"
proof -
  obtain job1 db1 where t: "transition_job C (cj_fault env (10 + 2 * left)) db i (job_revision job) JobState.CancelRequested False Cli
      ''cancel requested'' now = Inr (job1, db1)"
    and j: "unat (revision_get (job_revision job1)) = unat (revision_get (job_revision job)) + 1"
    "job_state job1 = JobState.CancelRequested" "job_updated_at job1 = now" "load_job C db1 i = Inr (Some job1)"
    "job_keys db1" "job_revisions_i64 db1" "db_runs db1 = db_runs db" "job_id job1 = i"
    by (rule transition_step [where fault = "cj_fault env (10 + 2 * left)" and reason = "''cancel requested''" and actor = Cli,
          OF assms(1-4) cancel_request_legal [OF assms(5,6)] assms(7,8) _ _ assms(11)])
      (auto simp: contains_nul_def)
  have "request_cancel C env (Suc left) job before = (Inr (Requested job1 now), db1)"
    using t assms(5,6,9,10) load_job_id [OF assms(4)] by (auto simp: on_ok_def Let_def JobState_is_terminal_def)
  then show thesis
    using j transition_job_ids [OF t] by (rule that)
qed

lemma cancelled_step:
  assumes "job_keys db" "job_revisions_i64 db" "codec_ok C" "load_job C db i = Inr (Some job)"
    and "job_state job = JobState.CancelRequested" "job_updated_at job \<le> now"
    and "unat (revision_get (job_revision job)) + 1 < 2 ^ 63" "\<And>n. fault n = None"
  obtains job1 db1 where "transition_job C fault db i (job_revision job) JobState.Cancelled False Cli
      ''cancelled before command start'' now = Inr (job1, db1)"
    "job_state job1 = JobState.Cancelled" "load_job C db1 i = Inr (Some job1)" "job_keys db1"
    "db_runs db1 = db_runs db" "map jr_id (db_jobs db1) = map jr_id (db_jobs db)"
proof -
  have "one_shot_legal (job_state job) JobState.Cancelled"
    by (simp add: assms(5) one_shot_legal_def)
  note step = transition_step [where fault = fault and reason = "''cancelled before command start''" and actor = Cli,
      OF assms(1-4) this assms(6,7) _ _ assms(8)]
  obtain job1 db1 where t: "transition_job C fault db i (job_revision job) JobState.Cancelled False Cli
      ''cancelled before command start'' now = Inr (job1, db1)"
    and j: "job_state job1 = JobState.Cancelled" "load_job C db1 i = Inr (Some job1)" "job_keys db1" "db_runs db1 = db_runs db"
    by (rule step) (auto simp: contains_nul_def)
  show thesis
    by (rule that [OF t j transition_job_ids [OF t]])
qed

text \<open>An attempt on an outdated revision reloads the job and tries again.\<close>

lemma request_cancel_retry:
  assumes "load_job C db i = Inr (Some job2)" "job_revision job2 \<noteq> job_revision job" "job_id job = i"
    and "\<not> JobState_is_terminal (job_state job)" "job_state job \<noteq> JobState.CancelRequested"
    and "cj_now env (10 + left) = Inr now" "cj_others env (10 + 2 * left) before = db" "cj_others env (11 + 2 * left) db = db"
    and "\<And>k n. cj_fault env k n = None"
  shows "request_cancel C env (Suc left) job before = request_cancel C env left job2 db"
proof -
  have "transition_job C (cj_fault env (10 + 2 * left)) db i (job_revision job) JobState.CancelRequested False Cli
      ''cancel requested'' now = Inl Conflict"
    using assms(1,2,9) by (simp add: transition_job_def statement_def)
  moreover have "job_state job \<notin> {JobState.CancelRequested, JobState.Cancelled}"
    using assms(4,5) by (auto simp: JobState_is_terminal_def)
  ultimately show ?thesis
    using assms by (simp add: on_ok_def Let_def load_current_def statement_def)
qed

section \<open>Orphaned runs\<close>

text \<open>Recovery refuses a database in which an unfinished run belongs to an ended job.\<close>

lemma orphan_not_loaded:
  assumes "job_keys db" "run_table db" "canonical_ids db"
    and "load_run C db r = Inr (Some run)" "\<not> RunState_is_terminal (run_state run)"
    and "load_job C db (run_job_id run) = Inr (Some job)" "JobState_is_terminal (job_state job)"
  shows "load_nonterminal C fault db \<noteq> Inr records"
proof
  assume l: "load_nonterminal C fault db = Inr records"
  obtain runs jobs where
    runs: "list_all2 (\<lambda>row run. decode_run_row C row = Inr run) (filter active_run_row (db_runs db)) runs"
    and jobs: "list_all2 (\<lambda>row job. decode_job_row C row = Inr job) (sort_key jr_id (filter nonterminal_job_row (db_jobs db))) jobs"
    and sub: "run_job_id ` set runs \<subseteq> job_id ` set jobs"
    by (rule load_nonterminal_eq [OF l assms(1,3)])
  obtain row where row: "row \<in> set (db_runs db)" "decode_run_row C row = Inr run"
    using assms(4) run_row_of_in unfolding load_run_eq_Inr by blast
  then have "row \<in> set (filter active_run_row (db_runs db))"
    using assms(5) active_run_row_eq [OF row(2)] by simp
  from list_all2_member(1) [OF runs this] row(2) have "run \<in> set runs" by auto
  then obtain j where j: "j \<in> set jobs" "job_id j = run_job_id run"
    using sub by force
  obtain jrow where jrow: "jrow \<in> set (db_jobs db)" "nonterminal_job_row jrow" "decode_job_row C jrow = Inr j"
    using list_all2_member(2) [OF jobs j(1)] by auto
  have "\<exists>i. jr_id jrow = job_text i"
    using assms(3) jrow(1) by (auto simp: canonical_ids_def list_all_iff)
  then have "jr_id jrow = job_text (run_job_id run)"
    using decoded_job_text [OF jrow(3)] j(2) by simp
  then have "job_row_of db (run_job_id run) = Some jrow"
    by (rule job_row_of_unique [OF assms(1) jrow(1)])
  then have "j = job"
    using assms(6) jrow(3) by (simp add: load_job_eq_Inr job_row_of_def)
  with nonterminal_job_row_eq [OF jrow(3)] jrow(2) assms(7) show False by simp
qed

lemma canonical_ids_cong:
  assumes "map jr_id (db_jobs db') = map jr_id (db_jobs db)" "db_runs db' = db_runs db"
  shows "canonical_ids db' = canonical_ids db"
proof -
  have "jr_id ` set (db_jobs db') = jr_id ` set (db_jobs db)"
    using assms(1) by (metis set_map)
  then show ?thesis
    using assms(2) by (auto simp: canonical_ids_def list_all_iff image_iff set_eq_iff) (metis (no_types, lifting))+
qed

lemma canonical_started:
  assumes "canonical_ids db" "map jr_id (db_jobs db') = map jr_id (db_jobs db)" "db_runs db' = db_runs db @ [row]"
    and "rr_id row = run_text r" "rr_job_id row = job_text i"
  shows "canonical_ids db'"
proof -
  have "canonical_ids (db'\<lparr>db_runs := db_runs db\<rparr>)"
    using assms(1) canonical_ids_cong [of "db'\<lparr>db_runs := db_runs db\<rparr>" db] assms(2) by simp
  then show ?thesis
    using assms(3-5) by (auto simp: canonical_ids_def)
qed

section \<open>Properties\<close>

text \<open>
  A job that is idle is cancelled at once: when no other process interferes and no statement
  fails, the command on a job that has not ended, with no active run, stores it as \<open>Cancelled\<close>
  and returns it, and no run changes.
\<close>

theorem idle_job_cancelled:
  assumes "resolve_job (mgmt_find C (cj_fault env 0) db) prefix = Inr job" "load_job C db (job_id job) = Inr (Some job)"
    and "job_keys db" "job_revisions_i64 db" "codec_ok C"
    and "\<not> JobState_is_terminal (job_state job)" "job_state job \<noteq> JobState.CancelRequested"
    and "latest_active_run C (cj_fault env 1) db (job_id job) = Inr None"
    and "\<forall>n d. cj_others env n d = d" "\<forall>k n. cj_fault env k n = None" "\<forall>n. cj_now env n = Inr now"
    and "job_updated_at job \<le> now" "unat (revision_get (job_revision job)) + 2 < 2 ^ 63"
  shows "\<exists>job' db'. cancel_job C env grace prefix db = (Inr job', db') \<and> job_state job' = JobState.Cancelled
    \<and> load_job C db' (job_id job) = Inr (Some job') \<and> db_runs db' = db_runs db"
proof -
  obtain job1 db1 where r: "request_cancel C env (Suc 7) job db = (Inr (Requested job1 now), db1)"
    and j: "unat (revision_get (job_revision job1)) = unat (revision_get (job_revision job)) + 1"
    "job_state job1 = JobState.CancelRequested" "job_updated_at job1 = now" "load_job C db1 (job_id job) = Inr (Some job1)"
    "job_keys db1" "job_revisions_i64 db1" "db_runs db1 = db_runs db" "job_id job1 = job_id job"
    by (rule request_cancel_hit [where env = env and left = 7 and before = db,
          OF assms(3-5,2,6,7,12)]) (use assms(9-11,13) in auto)
  obtain job2 db2 where t: "transition_job C (cj_fault env 2) db1 (job_id job) (job_revision job1) JobState.Cancelled False Cli
      ''cancelled before command start'' now = Inr (job2, db2)"
    and j2: "job_state job2 = JobState.Cancelled" "load_job C db2 (job_id job) = Inr (Some job2)" "db_runs db2 = db_runs db1"
    by (rule cancelled_step [where fault = "cj_fault env 2" and now = now, OF j(5,6) assms(5) j(4,2)])
      (use j(1,3) assms(10,13) in auto)
  have "request_cancel C env 8 job db = (Inr (Requested job1 now), db1)"
    using r by (simp add: eval_nat_numeral)
  then have "cancel_job C env grace prefix db = (Inr job2, db2)"
    using assms(1,6-11) t j(8) by (auto simp: cancel_job_def on_ok_def Let_def JobState_is_terminal_def)
  then show ?thesis
    using j2 j(7) by simp
qed

text \<open>
  C17. A cancellation that races with the start of the job loses the run.  The command looks for
  an active run before it requests the cancellation.  When the supervisor starts the waiting
  job in between, the first attempt meets a newer revision and is repeated, but the search for
  the run is not: the command reports the job as cancelled before its command started and
  stores it as \<open>Cancelled\<close>, while the claimed run stays as it is and its command goes on.
  Until the run ends, the recovery of a restarted supervisor refuses the database.
\<close>

theorem cancel_race_orphans_run:
  assumes "resolve_job (mgmt_find C (cj_fault env 0) db) prefix = Inr job" "load_job C db (job_id job) = Inr (Some job)"
    and "job_state job = JobState.Waiting" "recoverable db" "codec_ok C"
    and "latest_active_run C (cj_fault env 1) db (job_id job) = Inr None"
    and "execute_single_due_job C due db (job_id job) = (Inr (), started)" "de_spawn due = Inr ()" "de_now due = Inr start"
    and "\<forall>n d. cj_others env n d = (if n = 24 then snd (execute_single_due_job C due d (job_id job)) else d)"
    and "\<forall>k n. cj_fault env k n = None" "\<forall>n. cj_now env n = Inr now" "start \<le> now"
    and "unat (revision_get (job_revision job)) + 4 < 2 ^ 63"
  shows "\<exists>job' db' run. cancel_job C env grace prefix db = (Inr job', db') \<and> job_state job' = JobState.Cancelled
    \<and> load_job C db' (job_id job) = Inr (Some job')
    \<and> load_run C db' (de_fresh due) = Inr (Some run) \<and> run_job_id run = job_id job \<and> run_state run = RunState.Starting
    \<and> (\<forall>fault records. load_nonterminal C fault db' \<noteq> Inr records)"
proof -
  have tables: "job_keys db" "run_table db" "canonical_ids db" "job_revisions_i64 db"
    using assms(4) by (auto simp: recoverable_def job_table_def job_revisions_i64_def list_all_iff)
  obtain job2 run row where s: "load_job C started (job_id job) = Inr (Some job2)" "job_state job2 = JobState.Running"
    "job_updated_at job2 = start" "unat (revision_get (job_revision job2)) = unat (revision_get (job_revision job)) + 2"
    "load_run C started (de_fresh due) = Inr (Some run)" "run_state run = RunState.Starting" "run_job_id run = job_id job"
    "job_keys started" "run_table started" "job_revisions_i64 started" "map jr_id (db_jobs started) = map jr_id (db_jobs db)"
    "db_runs started = db_runs db @ [row]" "rr_id row = run_text (de_fresh due)" "rr_job_id row = job_text (job_id job)"
    by (rule execute_started [OF tables(1,2) assms(5,2,3,7,8)]) (use assms(9) tables(4) in auto)
  have retry: "request_cancel C env (Suc 7) job db = request_cancel C env 7 job2 started"
    by (rule request_cancel_retry [OF s(1)]) (use assms(3,7,10-12) s(4) in \<open>auto simp: JobState_is_terminal_def\<close>)
  obtain job3 db3 where r: "request_cancel C env (Suc 6) job2 started = (Inr (Requested job3 now), db3)"
    and j: "unat (revision_get (job_revision job3)) = unat (revision_get (job_revision job2)) + 1"
    "job_state job3 = JobState.CancelRequested" "job_updated_at job3 = now" "load_job C db3 (job_id job) = Inr (Some job3)"
    "job_keys db3" "job_revisions_i64 db3" "db_runs db3 = db_runs started" "job_id job3 = job_id job"
    "map jr_id (db_jobs db3) = map jr_id (db_jobs started)"
    by (rule request_cancel_hit [where env = env and left = 6 and before = started, OF s(8,10) assms(5) s(1)])
      (use assms(10-14) s(2-4) in \<open>auto simp: JobState_is_terminal_def\<close>)
  obtain job4 db4 where t: "transition_job C (cj_fault env 2) db3 (job_id job) (job_revision job3) JobState.Cancelled False Cli
      ''cancelled before command start'' now = Inr (job4, db4)"
    and j4: "job_state job4 = JobState.Cancelled" "load_job C db4 (job_id job) = Inr (Some job4)" "job_keys db4"
      "db_runs db4 = db_runs db3" "map jr_id (db_jobs db4) = map jr_id (db_jobs db3)"
    by (rule cancelled_step [where fault = "cj_fault env 2" and now = now, OF j(5,6) assms(5) j(4,2)])
      (use j(1,3) s(4) assms(11,14) in auto)
  have "request_cancel C env 8 job db = (Inr (Requested job3 now), db3)"
    using retry r by (simp add: eval_nat_numeral)
  then have c: "cancel_job C env grace prefix db = (Inr job4, db4)"
    using assms(1,3,6,10-12) t j(8) by (auto simp: cancel_job_def on_ok_def Let_def JobState_is_terminal_def)
  have runs: "db_runs db4 = db_runs started" and ids: "map jr_id (db_jobs db4) = map jr_id (db_jobs db)"
    using j4(4,5) j(7,9) s(11) by simp_all
  have "canonical_ids started"
    using tables(3) s(11-14) canonical_started by blast
  then have "canonical_ids db4"
    using canonical_ids_cong [of db4 started] runs ids s(11) by simp
  moreover have "load_run C db4 (de_fresh due) = Inr (Some run)" "run_table db4"
    using s(5,9) load_run_cong [OF runs] run_table_cong [OF runs] by simp_all
  ultimately show ?thesis
    using c j4 s(6,7) orphan_not_loaded [of db4 C "de_fresh due" run job4]
    by (auto simp: JobState_is_terminal_def RunState_is_terminal_def)
qed

definition sample_cancel :: "(nat \<Rightarrow> Database \<Rightarrow> Database) \<Rightarrow> cancel_env" where
  "sample_cancel others =
     \<lparr> cj_now = (\<lambda>_. Inr 9), cj_boot = Inr ''boot'', cj_fault = (\<lambda>_ _. None), cj_others = others,
       cj_group = (\<lambda>_ _ _. Inr AlreadyDead), cj_deadline = (\<lambda>_. True), cj_polls = (\<lambda>db. ([], db)) \<rparr>"

lemma sample_no_run:
  "db_runs db = [] \<Longrightarrow> latest_active_run C (cj_fault (sample_cancel others) k) db i = Inr None"
  by (simp add: latest_active_run_def query_first_def statement_def sample_cancel_def)

text \<open>The sample job, waiting, in a database without runs.\<close>

lemma sample_waiting:
  obtains db job where "recoverable db" "db_runs db = []" "load_job sample_codec db (job_id sample_job) = Inr (Some job)"
    "resolve_job (mgmt_find sample_codec (\<lambda>_. None) db) ''0'' = Inr job" "job_id job = job_id sample_job"
    "job_revision job = Revision 2" "job_state job = JobState.Waiting" "job_updated_at job = 5" "job_revisions_i64 db" "job_keys db"
    "run_table db"
proof -
  obtain db row job where s: "recoverable db" "db_jobs db = [row]" "db_runs db = []" "jr_id row = job_text (job_id sample_job)"
    "\<not> jr_hidden row" "jr_revision row = 2" "decode_job_row sample_codec row = Inr job"
    "job_id job = job_id sample_job" "job_revision job = Revision 2" "job_state job = JobState.Waiting" "job_updated_at job = 5"
    by (rule sample_moved [of JobState.Waiting]) (auto simp: one_shot_legal_def)
  have "load_job sample_codec db (job_id sample_job) = Inr (Some job)"
    using s by (simp add: load_job_eq_Inr)
  moreover have "job_revisions_i64 db" "job_keys db" "run_table db"
    using s by (auto simp: job_revisions_i64_def recoverable_def job_table_def)
  ultimately show thesis
    using that s sample_found [OF s(2,4,5,7)] by blast
qed

theorem idle_job_cancelled_witness:
  "\<exists>db job' db'. cancel_job sample_codec (sample_cancel (\<lambda>_ d. d)) (DurationSeconds 1) ''0'' db = (Inr job', db')
     \<and> job_state job' = JobState.Cancelled \<and> load_job sample_codec db' (job_id sample_job) = Inr (Some job')"
proof -
  obtain db job where s: "recoverable db" "db_runs db = []" "load_job sample_codec db (job_id sample_job) = Inr (Some job)"
    "resolve_job (mgmt_find sample_codec (\<lambda>_. None) db) ''0'' = Inr job" "job_id job = job_id sample_job"
    "job_revision job = Revision 2" "job_state job = JobState.Waiting" "job_updated_at job = 5" "job_revisions_i64 db" "job_keys db"
    "run_table db"
    by (rule sample_waiting)
  let ?env = "sample_cancel (\<lambda>_ d. d)"
  have "\<exists>job' db'. cancel_job sample_codec ?env (DurationSeconds 1) ''0'' db = (Inr job', db') \<and> job_state job' = JobState.Cancelled
    \<and> load_job sample_codec db' (job_id job) = Inr (Some job') \<and> db_runs db' = db_runs db"
    by (rule idle_job_cancelled [where now = 9, OF _ _ s(10,9) sample_codec_ok])
      (use s sample_no_run [OF s(2)] in \<open>simp_all add: JobState_is_terminal_def\<close>, simp_all add: sample_cancel_def)
  then show ?thesis
    using s(5) by auto
qed

theorem cancel_race_orphans_run_witness:
  "\<exists>db job' db' run. cancel_job sample_codec
       (sample_cancel (\<lambda>n d. if n = 24 then snd (execute_single_due_job sample_codec sample_env d (job_id sample_job)) else d))
       (DurationSeconds 1) ''0'' db = (Inr job', db')
     \<and> job_state job' = JobState.Cancelled
     \<and> load_run sample_codec db' (RunId 2) = Inr (Some run) \<and> run_state run = RunState.Starting
     \<and> (\<forall>fault records. load_nonterminal sample_codec fault db' \<noteq> Inr records)"
proof -
  obtain db job where s: "recoverable db" "db_runs db = []" "load_job sample_codec db (job_id sample_job) = Inr (Some job)"
    "resolve_job (mgmt_find sample_codec (\<lambda>_. None) db) ''0'' = Inr job" "job_id job = job_id sample_job"
    "job_revision job = Revision 2" "job_state job = JobState.Waiting" "job_updated_at job = 5" "job_revisions_i64 db" "job_keys db"
    "run_table db"
    by (rule sample_waiting)
  obtain db1 where e: "execute_single_due_job sample_codec sample_env db (job_id job) = (Inr (), db1)"
    using execute_succeeds [OF s(10,11,9) sample_codec_ok s(3,7) _ _ sample_executes [OF s(2,3)]] s(5,6,8) by auto
  have spawned: "de_spawn sample_env = Inr ()" "de_now sample_env = Inr 7"
    by (simp_all add: sample_env_def)
  let ?env = "sample_cancel (\<lambda>n d. if n = 24 then snd (execute_single_due_job sample_codec sample_env d (job_id sample_job)) else d)"
  have "\<exists>job' db' run. cancel_job sample_codec ?env (DurationSeconds 1) ''0'' db = (Inr job', db') \<and> job_state job' = JobState.Cancelled
    \<and> load_job sample_codec db' (job_id job) = Inr (Some job')
    \<and> load_run sample_codec db' (de_fresh sample_env) = Inr (Some run) \<and> run_job_id run = job_id job \<and> run_state run = RunState.Starting
    \<and> (\<forall>fault records. load_nonterminal sample_codec fault db' \<noteq> Inr records)"
    by (rule cancel_race_orphans_run [where now = 9 and start = 7, OF _ _ s(7,1) sample_codec_ok _ e])
      (use s sample_no_run [OF s(2)] spawned in \<open>simp_all add: sample_cancel_def\<close>)
  then show ?thesis
    by (auto simp: sample_env_def)
qed

end
