(* ===== verification/Monitor.thy ===== *)
theory Monitor
  imports Capture Cancel_Job
begin

text \<open>
  The run monitor: the lifecycle of a claimed run (\<open>src/run_monitor/lifecycle.rs\<close>) and the end
  of its job (\<open>src/run_monitor/mod.rs\<close>).

  The operating system is the environment: the log files, the identities, spawning, the output
  and the exit status of the command, the clock.  Other processes commit between the accesses
  to the database (\<open>me_others\<close>, as in the cancellation of a job).  Besides the result and the
  database, the lifecycle yields what it did to the child process.  Echoing the log to a
  terminal is best effort: it touches neither.
\<close>

section \<open>Lifecycle of a run\<close>

datatype MonitorError =
    MissingRun
  | InvalidClaim
  | AlreadyStarted
  | Store string
  | Clock string

datatype child_event = Spawned | Terminated | Waited

record exit_status =
  status_code :: "int option"
  status_signal :: "int option"

record monitor_env =
  me_fault :: "nat \<Rightarrow> nat \<Rightarrow> StoreError option"
  me_others :: "nat \<Rightarrow> Database \<Rightarrow> Database"
  me_now :: "nat \<Rightarrow> (string, UtcTimestamp) result"
  me_artifacts :: "(string, string \<times> string) result"
  me_inspect :: "(string, ProcessIdentitySnapshot option) result"
  me_spawn :: "ExecutionSpec \<Rightarrow> (string, ProcessIdentitySnapshot) result"
  me_pipes :: "(string, unit) result"
  me_stdout :: "(string, u8 list) result list"
  me_stderr :: "(string, u8 list) result list"
  me_stdout_file :: writer
  me_stderr_file :: writer
  me_wait :: "(string, exit_status) result"
  me_max_log_bytes :: u64

definition completion_outcome :: "(string, exit_status) result \<Rightarrow> bool \<Rightarrow> bool \<Rightarrow> RunOutcome" where
  "completion_outcome status capture_failed cancellation_requested =
     (if capture_failed then RunOutcome.Failure ''output capture failed''
      else case status of
        Inl e \<Rightarrow> RunOutcome.Interrupted (''child wait failed: '' @ e)
      | Inr status \<Rightarrow>
          if status_code status = Some 0 then RunOutcome.Exit 0
          else if cancellation_requested then RunOutcome.Cancelled ''cancel request stopped command''
          else (case (status_code status, status_signal status) of
             (Some code, _) \<Rightarrow> RunOutcome.Exit code
           | (None, Some signal) \<Rightarrow> RunOutcome.Signal signal
           | (None, None) \<Rightarrow> RunOutcome.Interrupted ''unknown child status''))"

text \<open>The flags taken from the capture: truncation of the two streams and failure.\<close>

definition capture_flags :: "(CaptureError, CapturedStreams) result \<Rightarrow> bool \<times> bool \<times> bool" where
  "capture_flags captured =
     (case captured of
        Inr c \<Rightarrow> (truncated (cs_summary (cap_stdout c)), truncated (cs_summary (cap_stderr c)),
                  cs_error (cap_stdout c) \<noteq> None \<or> cs_error (cap_stderr c) \<noteq> None)
      | Inl _ \<Rightarrow> (False, False, True))"

definition fail_run ::
  "codec \<Rightarrow> monitor_env \<Rightarrow> Run \<Rightarrow> string \<Rightarrow> Database \<Rightarrow> (MonitorError, Run) result \<times> Database" where
  "fail_run C env run message db =
     on_ok Clock (me_now env 2) db (\<lambda>finished_at.
     (let rd = me_others env 1 db; wr = me_others env 2 rd
      in on_ok (\<lambda>e. MonitorError.Store (StoreError_text e))
           (record_run_terminal C (me_fault env 1) rd wr (run_id run) (run_claim_token run) finished_at
              (RunOutcome.Failure message)) wr (\<lambda>(r, db). (Inr r, db))))"

definition monitor_command ::
  "codec \<Rightarrow> monitor_env \<Rightarrow> Run \<Rightarrow> Database \<Rightarrow> (MonitorError, Run) result \<times> Database" where
  "monitor_command C env running db =
     (let captured = capture_streams (me_stdout env) (me_stderr env) (me_stdout_file env) (me_stderr_file env)
            (me_max_log_bytes env);
          status = me_wait env
      in on_ok Clock (me_now env 1) db (\<lambda>finished_at.
         (let (stdout_truncated, stderr_truncated, capture_failed) = capture_flags captured;
              db1 = me_others env 5 db
          in on_ok (\<lambda>e. MonitorError.Store (StoreError_text e))
               (record_log_truncation (me_fault env 5) db1 (run_id running) (run_claim_token running)
                  stdout_truncated stderr_truncated) db1 (\<lambda>db2.
             (let db3 = me_others env 6 db2
              in on_ok (\<lambda>e. MonitorError.Store (StoreError_text e))
                   (try_bind (statement (me_fault env 6) 0) (\<lambda>_. load_run C db3 (run_id running))) db3 (\<lambda>loaded.
                 (let cancellation_requested = (case loaded of None \<Rightarrow> False
                        | Some run \<Rightarrow> run_state run = RunState.CancelRequested);
                      outcome = completion_outcome status capture_failed cancellation_requested;
                      rd = me_others env 7 db3; wr = me_others env 8 rd
                  in on_ok (\<lambda>e. MonitorError.Store (StoreError_text e))
                       (record_run_terminal C (me_fault env 7) rd wr (run_id running) (run_claim_token running)
                          finished_at outcome) wr (\<lambda>(r, db). (Inr r, db))))))))) "

definition execute ::
  "codec \<Rightarrow> monitor_env \<Rightarrow> Run \<Rightarrow> ExecutionSpec \<Rightarrow> Database \<Rightarrow>
     ((MonitorError, Run) result \<times> Database) \<times> child_event list" where
  "execute C env run execution db =
     (let db0 = me_others env 0 db in
      case map_err (\<lambda>e. MonitorError.Store (StoreError_text e))
             (try_bind (statement (me_fault env 0) 0) (\<lambda>_. load_run C db0 (run_id run))) of
        Inl e \<Rightarrow> ((Inl e, db0), [])
      | Inr None \<Rightarrow> ((Inl MissingRun, db0), [])
      | Inr (Some stored) \<Rightarrow>
          if run_claim_token stored \<noteq> run_claim_token run then ((Inl MonitorError.InvalidClaim, db0), [])
          else if run_state stored \<noteq> RunState.Starting \<or> stored \<noteq> run then ((Inl AlreadyStarted, db0), [])
          else (case me_artifacts env of
             Inl e \<Rightarrow> (fail_run C env run (''log setup failed: '' @ e) db0, [])
           | Inr (stdout_path, stderr_path) \<Rightarrow>
          (case me_inspect env of
             Inl e \<Rightarrow> (fail_run C env run (''monitor identity failed: '' @ e) db0, [])
           | Inr None \<Rightarrow> (fail_run C env run ''monitor identity disappeared'' db0, [])
           | Inr (Some monitor) \<Rightarrow>
          (case me_spawn env execution of
             Inl e \<Rightarrow> (fail_run C env run (''spawn failed: '' @ e) db0, [])
           | Inr command \<Rightarrow>
          (case me_pipes env of
             Inl e \<Rightarrow> (fail_run C env run (''output setup failed: '' @ e) db0, [Spawned, Terminated])
           | Inr _ \<Rightarrow>
          (case me_now env 0 of
             Inl e \<Rightarrow> ((Inl (Clock e), db0), [Spawned])
           | Inr started_at \<Rightarrow>
               (let rd = me_others env 3 db0; wr = me_others env 4 rd
                in case mark_run_running C (me_fault env 3) rd wr (run_id run) (run_claim_token run) started_at
                        monitor command stdout_path stderr_path of
                     Inl e \<Rightarrow> ((Inl (MonitorError.Store (StoreError_text e)), wr), [Spawned, Terminated])
                   | Inr (running, db1) \<Rightarrow> (monitor_command C env running db1, [Spawned, Waited]))))))))"

section \<open>The end of the job\<close>

datatype MonitorProcessError =
    InvalidIdentity
  | Config string
  | MissingJob
  | MissingRun
  | IdentityMismatch
  | NonterminalRun
  | Store StoreError
  | Process string
  | Clock string
  | Monitor MonitorError

fun job_end :: "RunState \<Rightarrow> (JobState \<times> string) option" where
  "job_end RunState.Succeeded = Some (JobState.Succeeded, ''command exited successfully'')"
| "job_end RunState.Failed = Some (JobState.Failed, ''command failed'')"
| "job_end RunState.Interrupted = Some (JobState.Interrupted, ''command outcome is unknown'')"
| "job_end RunState.Cancelled = Some (JobState.Cancelled, ''command was cancelled'')"
| "job_end _ = None"

definition is_recurring :: "Job \<Rightarrow> bool" where
  "is_recurring job = (case job_schedule job of RecurringInterval _ _ \<Rightarrow> True | _ \<Rightarrow> False)"

definition finish_job ::
  "codec \<Rightarrow> (int \<Rightarrow> bool) \<Rightarrow> monitor_env \<Rightarrow> JobId \<Rightarrow> RunState \<Rightarrow> Database \<Rightarrow>
     (MonitorProcessError, unit) result \<times> Database" where
  "finish_job C accepts env i ended db =
     (let db1 = me_others env 10 db in
      on_ok id (try_bind (map_err MonitorProcessError.Store (try_bind (statement (me_fault env 10) 0) (\<lambda>_. load_job C db1 i)))
        (ok_or MissingJob)) db1 (\<lambda>current.
      if JobState_is_terminal (job_state current) then (Inr (), db1)
      else on_ok MonitorProcessError.Clock (me_now env 3) db1 (\<lambda>now.
        (let db2 = me_others env 11 db1
         in if job_state current = JobState.CancelRequested \<or> ended = RunState.Cancelled
            then on_ok MonitorProcessError.Store (transition_job C (me_fault env 11) db2 (job_id current) (job_revision current)
              JobState.Cancelled False TransitionActor.Monitor ''cancelled run finished'' now) db2 (\<lambda>(_, db). (Inr (), db))
            else if is_recurring current
            then on_ok MonitorProcessError.Store (advance_recurring_job C accepts (me_fault env 11) db2 (job_id current)
              (job_revision current) now) db2 (\<lambda>(_, db). (Inr (), db))
            else (case job_end ended of
               None \<Rightarrow> (Inl NonterminalRun, db2)
             | Some (target, reason) \<Rightarrow>
                 on_ok MonitorProcessError.Store (transition_job C (me_fault env 11) db2 (job_id current) (job_revision current)
                   target False TransitionActor.Monitor reason now) db2 (\<lambda>(_, db). (Inr (), db)))))))"

record process_env =
  pe_open :: "(StoreError, unit) result"
  pe_boot :: "(string, string) result"
  pe_config :: "(string, unit) result"

text \<open>The process: its result, the database, what it did to the child and whom it woke.\<close>

definition run_monitor_process ::
  "codec \<Rightarrow> (int \<Rightarrow> bool) \<Rightarrow> monitor_env \<Rightarrow> process_env \<Rightarrow> string \<Rightarrow> string \<Rightarrow> Database \<Rightarrow>
     ((MonitorProcessError, unit) result \<times> Database) \<times> child_event list \<times> (JobId \<times> Revision) list" where
  "run_monitor_process C accepts env penv job_arg run_arg db =
     (let stop = (\<lambda>e. ((Inl e, db), [], []))
      in case (JobId_from_str job_arg, RunId_from_str run_arg) of
        (Inr i, Inr r) \<Rightarrow>
          (case try_bind (map_err MonitorProcessError.Store (pe_open penv)) (\<lambda>_.
                try_bind (try_bind (map_err MonitorProcessError.Store
                  (try_bind (statement (me_fault env 20) 0) (\<lambda>_. load_job C db i))) (ok_or MissingJob)) (\<lambda>job.
                try_bind (try_bind (map_err MonitorProcessError.Store
                  (try_bind (statement (me_fault env 21) 0) (\<lambda>_. load_run C db r))) (ok_or MonitorProcessError.MissingRun)) (\<lambda>run.
                if run_job_id run \<noteq> job_id job then Inl IdentityMismatch
                else try_bind (map_err MonitorProcessError.Clock (pe_boot penv)) (\<lambda>_.
                try_bind (map_err Config (pe_config penv)) (\<lambda>_. Inr (job, run)))))) of
             Inl e \<Rightarrow> stop e
           | Inr (job, run) \<Rightarrow>
               (let ((result, db1), events) = execute C env run (job_execution job) db
                in case result of
                     Inl e \<Rightarrow> ((Inl (Monitor e), db1), events, [])
                   | Inr completed \<Rightarrow>
                       (let (finished, db2) = finish_job C accepts env (job_id job) (run_state completed) db1
                        in case finished of
                             Inl e \<Rightarrow> ((Inl e, db2), events, [])
                           | Inr _ \<Rightarrow>
                               if \<not> is_recurring job then ((Inr (), db2), events, [])
                               else
                                 (let db3 = me_others env 12 db2
                                  in case try_bind (map_err MonitorProcessError.Store
                                       (try_bind (statement (me_fault env 12) 0) (\<lambda>_. load_job C db3 (job_id job)))) (ok_or MissingJob) of
                                       Inl e \<Rightarrow> ((Inl e, db3), events, [])
                                     | Inr current \<Rightarrow>
                                         ((Inr (), db3), events, if job_state current = JobState.Waiting
                                            then [(job_id current, job_revision current)] else [])))))
      | _ \<Rightarrow> stop InvalidIdentity)"

section \<open>Recorded outcomes\<close>

lemma recorded_outcome_state:
  assumes "record_run_terminal C fault rd wr i token finished outcome = Inr (run', wr')"
  shows "run_outcome run' = Some outcome \<and> run_state run' = outcome_state outcome"
  using assms
proof (cases rule: record_run_terminal_eq_Inr)
  case already
  then have "valid_run run'"
    by (auto simp: load_run_eq_Inr decode_run_row_eq_Inr)
  with already show ?thesis
    by (auto simp: valid_run_def invalid_outcome_def Run_snapshot_def)
next
  case (recorded run oj)
  then show ?thesis by (simp add: with_outcome_eq_Inr)
qed

lemma fail_run_outcome:
  assumes "fail_run C env run message db = (Inr ended, db')"
  shows "run_outcome ended = Some (RunOutcome.Failure message) \<and> run_state ended = RunState.Failed"
  using assms by (auto simp: fail_run_def on_ok_eq_Inr Let_def outcome_state_def dest!: recorded_outcome_state)

lemma mark_run_running_id:
  assumes "mark_run_running C fault rd wr i token started monitor command out err = Inr (running, wr')"
  shows "run_id running = i"
proof -
  obtain run where l: "load_run C rd i = Inr (Some run)" and m: "mark_running run started monitor command out err = Inr running"
    by (rule mark_run_running_eq_Inr [OF assms])
  have "run_id running = run_id run"
    using m by (auto simp: mark_running_def result_simps split: if_splits)
  with load_run_id [OF l] show ?thesis by simp
qed

lemma advance_recurring_state:
  "advance_recurring accepts job actor reason now = Inr (job', tr) \<Longrightarrow> job_state job' = JobState.Waiting"
  by (auto simp: advance_recurring_def result_simps dest: Job_transition_state split: Schedule.splits)

lemma monitor_command_outcome:
  assumes "monitor_command C env running db = (Inr ended, db')"
  obtains captured st et lost db2 cancelled where
    "captured = capture_streams (me_stdout env) (me_stderr env) (me_stdout_file env) (me_stderr_file env) (me_max_log_bytes env)"
    "capture_flags captured = (st, et, lost)"
    "record_log_truncation (me_fault env 5) (me_others env 5 db) (run_id running) (run_claim_token running) st et = Inr db2"
    "cancelled \<longleftrightarrow> (\<exists>r. load_run C (me_others env 6 db2) (run_id running) = Inr (Some r) \<and> run_state r = RunState.CancelRequested)"
    "run_outcome ended = Some (completion_outcome (me_wait env) lost cancelled)"
    "run_state ended = outcome_state (completion_outcome (me_wait env) lost cancelled)"
proof -
  define captured where "captured = capture_streams (me_stdout env) (me_stderr env) (me_stdout_file env) (me_stderr_file env) (me_max_log_bytes env)"
  obtain st et lost where flags: "capture_flags captured = (st, et, lost)" by (metis surj_pair)
  obtain db2 loaded rd wr finished where
    log: "record_log_truncation (me_fault env 5) (me_others env 5 db) (run_id running) (run_claim_token running) st et = Inr db2"
    and l: "load_run C (me_others env 6 db2) (run_id running) = Inr loaded"
    and r: "record_run_terminal C (me_fault env 7) rd wr (run_id running) (run_claim_token running) finished
        (completion_outcome (me_wait env) lost (case loaded of None \<Rightarrow> False | Some run \<Rightarrow> run_state run = RunState.CancelRequested))
      = Inr (ended, db')"
    using assms unfolding monitor_command_def Let_def captured_def [symmetric] flags
    by (auto simp: on_ok_eq_Inr result_simps)
  show thesis
    by (rule that [OF captured_def flags log _ recorded_outcome_state [OF r, THEN conjunct1] recorded_outcome_state [OF r, THEN conjunct2]])
      (auto simp: l split: option.splits)
qed

lemma capture_flags_eq:
  "capture_flags captured = (st, et, lost) \<longleftrightarrow>
     (lost \<longleftrightarrow> \<not> (\<exists>c. captured = Inr c \<and> cs_error (cap_stdout c) = None \<and> cs_error (cap_stderr c) = None))
     \<and> (case captured of Inr c \<Rightarrow> st = truncated (cs_summary (cap_stdout c)) \<and> et = truncated (cs_summary (cap_stderr c))
         | Inl _ \<Rightarrow> \<not> st \<and> \<not> et)"
  by (cases captured) (auto simp: capture_flags_def)

section \<open>Properties\<close>

text \<open>
  C21. The monitor starts the command of its own, unstarted claim only, and looks after it.  A
  command is spawned only when the stored run is the one the monitor was given, still in
  \<open>Starting\<close>; afterwards it is waited for, or terminated when its run could not be followed.
  The one exception is a clock that fails right after the spawn: then the monitor gives up,
  leaves the command running and the store as it was.  A run that ends without its command
  having been waited for is recorded as failed.
\<close>

theorem monitor_child_accounted:
  assumes "execute C env run execution db = ((result, db'), events)"
  shows "(events \<noteq> [] \<longrightarrow> load_run C (me_others env 0 db) (run_id run) = Inr (Some run) \<and> run_state run = RunState.Starting)
    \<and> (events = [] \<or> events = [Spawned, Terminated] \<or> events = [Spawned, Waited]
       \<or> events = [Spawned] \<and> (\<exists>e. me_now env 0 = Inl e \<and> result = Inl (MonitorError.Clock e)) \<and> db' = me_others env 0 db)
    \<and> (\<forall>ended. result = Inr ended \<and> events \<noteq> [Spawned, Waited] \<longrightarrow>
         run_state ended = RunState.Failed \<and> (\<exists>message. run_outcome ended = Some (RunOutcome.Failure message)))"
  using assms
  by (auto simp: execute_def Let_def result_simps dest: fail_run_outcome
      split: sum.splits option.splits if_splits prod.splits)

text \<open>
  C22. What the monitor records is what the command did.  When a monitored command is recorded, its
  outcome follows from what was captured and how the command ended: lost output is a failure; a
  wait that failed or a status with neither code nor signal is an interruption; exit code zero is a
  success even if a cancellation was requested meanwhile; any other exit code, or a signal, is
  recorded with its number, unless the cancellation was committed, in which case the run is
  cancelled.  Committed means that the store, read after the end of the command and after the
  truncation of the two logs was written, holds the run as \<open>CancelRequested\<close>.
\<close>

theorem monitored_outcome_faithful:
  assumes "execute C env run execution db = ((Inr ended, db'), [Spawned, Waited])"
  shows "\<exists>captured started monitor command stdout_path stderr_path running db1 st et db2 lost cancelled.
    captured = capture_streams (me_stdout env) (me_stderr env) (me_stdout_file env) (me_stderr_file env) (me_max_log_bytes env)
    \<and> mark_run_running C (me_fault env 3) (me_others env 3 (me_others env 0 db)) (me_others env 4 (me_others env 3 (me_others env 0 db)))
        (run_id run) (run_claim_token run) started monitor command stdout_path stderr_path = Inr (running, db1)
    \<and> record_log_truncation (me_fault env 5) (me_others env 5 db1) (run_id run) (run_claim_token running) st et = Inr db2
    \<and> (case captured of Inr c \<Rightarrow> st = truncated (cs_summary (cap_stdout c)) \<and> et = truncated (cs_summary (cap_stderr c))
        | Inl _ \<Rightarrow> \<not> st \<and> \<not> et)
    \<and> (lost \<longleftrightarrow> \<not> (\<exists>c. captured = Inr c \<and> cs_error (cap_stdout c) = None \<and> cs_error (cap_stderr c) = None))
    \<and> (cancelled \<longleftrightarrow> (\<exists>r. load_run C (me_others env 6 db2) (run_id run) = Inr (Some r) \<and> run_state r = RunState.CancelRequested))
    \<and> (lost \<longrightarrow> run_outcome ended = Some (RunOutcome.Failure ''output capture failed'') \<and> run_state ended = RunState.Failed)
    \<and> (\<forall>e. \<not> lost \<and> me_wait env = Inl e \<longrightarrow>
         run_outcome ended = Some (RunOutcome.Interrupted (''child wait failed: '' @ e)) \<and> run_state ended = RunState.Interrupted)
    \<and> (\<forall>status. \<not> lost \<and> me_wait env = Inr status \<longrightarrow>
         (status_code status = Some 0 \<longrightarrow> run_outcome ended = Some (RunOutcome.Exit 0) \<and> run_state ended = RunState.Succeeded)
       \<and> (status_code status \<noteq> Some 0 \<and> cancelled \<longrightarrow>
            run_outcome ended = Some (RunOutcome.Cancelled ''cancel request stopped command'') \<and> run_state ended = RunState.Cancelled)
       \<and> (\<not> cancelled \<longrightarrow>
            (\<forall>code. status_code status = Some code \<and> code \<noteq> 0 \<longrightarrow>
               run_outcome ended = Some (RunOutcome.Exit code) \<and> run_state ended = RunState.Failed)
          \<and> (\<forall>signal. status_code status = None \<and> status_signal status = Some signal \<longrightarrow>
               run_outcome ended = Some (RunOutcome.Signal signal) \<and> run_state ended = RunState.Failed)
          \<and> (status_code status = None \<and> status_signal status = None \<longrightarrow>
               run_outcome ended = Some (RunOutcome.Interrupted ''unknown child status'') \<and> run_state ended = RunState.Interrupted)))"
proof -
  obtain started monitor command stdout_path stderr_path running db1 where
    mark: "mark_run_running C (me_fault env 3) (me_others env 3 (me_others env 0 db)) (me_others env 4 (me_others env 3 (me_others env 0 db)))
      (run_id run) (run_claim_token run) started monitor command stdout_path stderr_path = Inr (running, db1)"
    and m: "monitor_command C env running db1 = (Inr ended, db')"
    using assms by (auto simp: execute_def Let_def split: sum.splits option.splits if_splits prod.splits)
  have id: "run_id running = run_id run" using mark_run_running_id [OF mark] .
  obtain captured st et lost db2 cancelled where
    c: "captured = capture_streams (me_stdout env) (me_stderr env) (me_stdout_file env) (me_stderr_file env) (me_max_log_bytes env)"
    and flags: "capture_flags captured = (st, et, lost)"
    and log: "record_log_truncation (me_fault env 5) (me_others env 5 db1) (run_id running) (run_claim_token running) st et = Inr db2"
    and seen: "cancelled \<longleftrightarrow> (\<exists>r. load_run C (me_others env 6 db2) (run_id running) = Inr (Some r) \<and> run_state r = RunState.CancelRequested)"
    and o: "run_outcome ended = Some (completion_outcome (me_wait env) lost cancelled)"
      "run_state ended = outcome_state (completion_outcome (me_wait env) lost cancelled)"
    by (rule monitor_command_outcome [OF m])
  show ?thesis
    using c mark log [unfolded id] flags [unfolded capture_flags_eq] seen [unfolded id]
    by (intro exI conjI) (assumption | auto simp: o completion_outcome_def outcome_state_def)+
qed

text \<open>
  A finished run ends its job once, in the state that fits.  When no other process
  interferes, a job that has already ended is left alone; a job whose cancellation is requested
  ends as cancelled, even if its command succeeded; a recurring job waits for its next
  occurrence; any other job takes the state of its run.  No other job changes.
\<close>

theorem finish_job_effect:
  assumes "finish_job C accepts env i ended db = (Inr (), db')" "job_keys db" "codec_ok C"
    and "load_job C db i = Inr (Some job)" "me_others env 10 db = db" "me_others env 11 db = db"
  shows "\<exists>job'. load_job C db' i = Inr (Some job')
    \<and> (JobState_is_terminal (job_state job) \<longrightarrow> db' = db)
    \<and> (job_state job = JobState.CancelRequested \<longrightarrow> job_state job' = JobState.Cancelled)
    \<and> (\<not> JobState_is_terminal (job_state job) \<and> job_state job \<noteq> JobState.CancelRequested \<and> ended \<noteq> RunState.Cancelled \<longrightarrow>
         (if is_recurring job then job_state job' = JobState.Waiting
          else map_option fst (job_end ended) = Some (job_state job')))
    \<and> (\<forall>k. k \<noteq> i \<longrightarrow> load_job C db' k = load_job C db k) \<and> db_runs db' = db_runs db"
proof -
  have i: "job_id job = i" by (rule load_job_id [OF assms(4)])
  have fin: "\<exists>job'. load_job C db' i = Inr (Some job') \<and> job_state job' = to
      \<and> (\<forall>k. k \<noteq> i \<longrightarrow> load_job C db' k = load_job C db k) \<and> db_runs db' = db_runs db"
    if t: "transition_job C fault db i (job_revision job) to False actor reason now = Inr (job', db')"
    for fault to actor reason now job'
    using transition_job_effect(1,2) [OF assms(2,3) t] transition_job_frame(3,4) [OF t assms(2,3)] by blast
  have adv: "\<exists>job'. load_job C db' i = Inr (Some job') \<and> job_state job' = JobState.Waiting
      \<and> (\<forall>k. k \<noteq> i \<longrightarrow> load_job C db' k = load_job C db k) \<and> db_runs db' = db_runs db"
    if t: "advance_recurring_job C accepts fault db i (job_revision job) now = Inr (job', db')" for fault now job'
    using advance_recurring_job_effect [OF assms(2,3) t] advance_recurring_state by blast
  note unfold = assms(1,4-6) i
  show ?thesis
  proof (cases "JobState_is_terminal (job_state job)")
    case True
    with unfold have "db' = db"
      by (auto simp: finish_job_def on_ok_eq_Inr Let_def result_simps)
    with True assms(4) show ?thesis by (auto simp: JobState_is_terminal_def)
  next
    case active: False
    show ?thesis
    proof (cases "job_state job = JobState.CancelRequested \<or> ended = RunState.Cancelled")
      case True
      with active unfold obtain now job' where "transition_job C (me_fault env 11) db i (job_revision job) JobState.Cancelled False
          TransitionActor.Monitor ''cancelled run finished'' now = Inr (job', db')"
        by (auto simp: finish_job_def on_ok_eq_Inr Let_def result_simps)
      from fin [OF this] active True show ?thesis by auto
    next
      case keep: False
      show ?thesis
      proof (cases "is_recurring job")
        case True
        with active keep unfold obtain now job' where
          "advance_recurring_job C accepts (me_fault env 11) db i (job_revision job) now = Inr (job', db')"
          by (auto simp: finish_job_def on_ok_eq_Inr Let_def result_simps)
        from adv [OF this] active keep True show ?thesis by auto
      next
        case False
        with active keep unfold obtain now job' target reason where "job_end ended = Some (target, reason)"
          "transition_job C (me_fault env 11) db i (job_revision job) target False TransitionActor.Monitor reason now = Inr (job', db')"
          by (auto simp: finish_job_def on_ok_eq_Inr Let_def result_simps split: option.splits)
        from fin [OF this(2)] this(1) active keep False show ?thesis by auto
      qed
    qed
  qed
qed

section \<open>Concrete monitors\<close>

definition sample_monitor :: "(string, UtcTimestamp) result \<Rightarrow> monitor_env" where
  "sample_monitor first =
     \<lparr> me_fault = (\<lambda>_ _. None), me_others = (\<lambda>_ d. d), me_now = (\<lambda>n. if n = 0 then first else Inr 9),
       me_artifacts = Inr (''out'', ''err''), me_inspect = Inr (Some sample_identity),
       me_spawn = (\<lambda>_. Inr sample_identity), me_pipes = Inr (), me_stdout = [], me_stderr = [],
       me_stdout_file = \<lparr> on_write = (\<lambda>_ b. Inr (length b)), on_flush = None \<rparr>,
       me_stderr_file = \<lparr> on_write = (\<lambda>_ b. Inr (length b)), on_flush = None \<rparr>,
       me_wait = Inr \<lparr> status_code = Some 1, status_signal = None \<rparr>, me_max_log_bytes = 10 \<rparr>"

lemma sample_run_row:
  obtains db :: Database and run row where "db_runs db = [row]" "rr_id row = run_text (RunId 2)" "rr_claim_token row = sample_token"
    "rr_state row = ''starting''" "decode_run_row sample_codec row = Inr run" "run_id run = RunId 2"
    "run_claim_token run = ClaimToken sample_token" "run_state run = RunState.Starting" "run_outcome run = None" "run_created_at run = 7"
    "run_table db" "rr_job_id row = job_text (job_id sample_job)"
proof -
  obtain db0 where db0: "create sample_codec (\<lambda>_. None) empty_db sample_job = Inr db0"
    using sample_job_created by blast
  then obtain run db where c: "claim_run sample_codec (\<lambda>_. None) db0 (RunId 2) (Inr sample_token)
      (job_id sample_job) 7 7 = Inr (run, db)"
    using sample_claim(1) by blast
  note s = sample_claimed(1-3) [OF db0 c]
  have r: "run_state run = RunState.Starting" "run_claim_token run = ClaimToken sample_token"
    "run_outcome run = None" "run_created_at run = 7" "run_id run = RunId 2"
    by (subst s(2), simp add: Run_new_def)+
  have "db_runs db0 = []"
    using db0 by (auto simp: create_eq_Inr empty_db_def)
  then obtain row where row: "db_runs db = [row]" "rr_id row = run_text (RunId 2)"
    and job: "rr_job_id row = job_text (job_id sample_job)"
    using claim_run_row [OF c sample_claim(2) [OF db0]] by auto
  have d: "decode_run_row sample_codec row = Inr run"
    using s(1) row by (simp add: load_run_eq_Inr run_row_of_def)
  then have "rr_state row = ''starting''" "rr_claim_token row = sample_token"
    using r by (auto simp: decode_run_row_eq_Inr)
  with row d r s(3) job show thesis
    using that [of db row run] by blast
qed

theorem monitor_child_accounted_witness:
  "\<exists>db run result db'. execute sample_codec (sample_monitor (Inl ''clock'')) run sample_execution db = ((result, db'), [Spawned])
     \<and> load_run sample_codec db (run_id run) = Inr (Some run) \<and> db' = db"
proof -
  obtain db :: Database and run row where s: "db_runs db = [row]" "rr_id row = run_text (RunId 2)" "decode_run_row sample_codec row = Inr run"
    "run_id run = RunId 2" "run_state run = RunState.Starting"
    by (rule sample_run_row) blast
  have "load_run sample_codec db (run_id run) = Inr (Some run)"
    using s by (simp add: load_run_def)
  then obtain result db' where e: "execute sample_codec (sample_monitor (Inl ''clock'')) run sample_execution db = ((result, db'), [Spawned])"
    using s(5) by (simp add: execute_def sample_monitor_def Let_def statement_def)
  from monitor_child_accounted [OF e] e show ?thesis
    by (auto simp: sample_monitor_def)
qed

lemma decode_truncated_row [simp]:
  "decode_run_row C (row\<lparr>rr_stdout_truncated := a, rr_stderr_truncated := b\<rparr>) = decode_run_row C row"
  by (simp add: decode_run_row_def cong: if_cong)

abbreviation sample_started :: "Run \<Rightarrow> Run" where
  "sample_started run \<equiv> run\<lparr> run_state := RunState.Running, run_started_at := Some 8, run_monitor_identity := Some sample_identity,
      run_command_identity := Some sample_identity, run_stdout_path := Some ''out'', run_stderr_path := Some ''err'' \<rparr>"

abbreviation sample_started_row :: "run_row \<Rightarrow> run_row" where
  "sample_started_row row \<equiv> running_columns sample_codec 8 ''{}'' ''{}'' (Some (process_group_id sample_identity)) ''out'' ''err'' row"

lemma sample_started_decodes:
  assumes "decode_run_row sample_codec row = Inr run" "run_state run = RunState.Starting" "run_created_at run = 7"
  shows "mark_running run 8 sample_identity sample_identity ''out'' ''err'' = Inr (sample_started run)"
    "decode_run_row sample_codec (sample_started_row row) = Inr (sample_started run)"
proof -
  show m: "mark_running run 8 sample_identity sample_identity ''out'' ''err'' = Inr (sample_started run)"
    unfolding mark_running_eq_Inr using assms(2,3)
    by (simp add: sample_identity_def validate_identity_def contains_nul_def validate_log_path_def path_is_absolute_def
        path_components_def segment_component_def List.map_filter_def)
  have json: "identity_to_json sample_codec (Some sample_identity) = Inr ''{}''"
    by (simp add: sample_codec_def one_to_json_def)
  show "decode_run_row sample_codec (sample_started_row row) = Inr (sample_started run)"
    by (rule decode_running_row [OF sample_codec_ok assms(1) m json json]) (simp add: fits_i32_def sample_identity_def)
qed

lemma sample_monitored:
  fixes db :: Database
  assumes "db_runs db = [row]" "rr_id row = run_text (RunId 2)" "rr_claim_token row = sample_token"
    "rr_state row = ''starting''" "decode_run_row sample_codec row = Inr run" "run_id run = RunId 2"
    "run_claim_token run = ClaimToken sample_token" "run_state run = RunState.Starting" "run_outcome run = None" "run_created_at run = 7"
  shows "\<exists>ended db'. execute sample_codec (sample_monitor (Inr 8)) run sample_execution db = ((Inr ended, db'), [Spawned, Waited])"
proof -
  let ?running = "sample_started run"
  let ?row = "sample_started_row row"
  note m = sample_started_decodes(1) [OF assms(5,8,10)] and dec = sample_started_decodes(2) [OF assms(5,8,10)]
  have load: "load_run sample_codec db (RunId 2) = Inr (Some run)"
    using assms by (simp add: load_run_def)
  have json: "identity_to_json sample_codec (Some sample_identity) = Inr ''{}''" "outcome_to_json sample_codec (RunOutcome.Exit 1) = Inr ''{}''"
    by (simp_all add: sample_codec_def one_to_json_def)
  have mark: "mark_run_running sample_codec (\<lambda>_. None) db db (RunId 2) (ClaimToken sample_token) 8 sample_identity sample_identity ''out'' ''err''
      = Inr (?running, db\<lparr>db_runs := [?row]\<rparr>)"
    using assms load m json by (simp add: mark_run_running_def statement_def verify_claim_def update_runs_def Run_snapshot_def running_columns_def)
  let ?db = "db\<lparr>db_runs := [?row\<lparr>rr_stdout_truncated := False, rr_stderr_truncated := False\<rparr>]\<rparr>"
  have cols: "rr_id ?row = run_text (RunId 2)" "rr_claim_token ?row = sample_token" "rr_state ?row = ''running''"
    using assms by (simp_all add: running_columns_def)
  have trunc: "record_log_truncation (\<lambda>_. None) (db\<lparr>db_runs := [?row]\<rparr>) (RunId 2) (ClaimToken sample_token) False False = Inr ?db"
    using cols by (simp add: record_log_truncation_def statement_def update_runs_def)
  have l2: "load_run sample_codec ?db (RunId 2) = Inr (Some ?running)"
    using dec cols by (simp add: load_run_def)
  obtain ended where w: "with_outcome ?running 9 (RunOutcome.Exit 1) = Inr ended" "run_outcome ended = Some (RunOutcome.Exit 1)"
    using assms(9,10) by (simp add: with_outcome_eq_Inr outcome_state_def run_legal_def)
  have rec: "\<exists>db'. record_run_terminal sample_codec (\<lambda>_. None) ?db ?db (RunId 2) (ClaimToken sample_token) 9 (RunOutcome.Exit 1) = Inr (ended, db')"
    using l2 w json(2) cols assms(7)
    by (simp add: record_run_terminal_def statement_def verify_claim_def RunState_is_terminal_def update_runs_def Run_snapshot_def)
  have cap: "capture_flags (capture_streams [] [] \<lparr> on_write = (\<lambda>_ b. Inr (length b)), on_flush = None \<rparr>
      \<lparr> on_write = (\<lambda>_ b. Inr (length b)), on_flush = None \<rparr> 10) = (False, False, False)"
    by (simp add: capture_flags_def capture_streams_def CaptureBudget_new_def drain_stream_def truncated_def)
  show ?thesis
    using load mark assms(6-8) trunc l2 rec cap
    by (auto simp: execute_def sample_monitor_def Let_def statement_def monitor_command_def on_ok_def completion_outcome_def)
qed

lemma sample_monitor_captures:
  "\<exists>c. capture_streams (me_stdout (sample_monitor now)) (me_stderr (sample_monitor now)) (me_stdout_file (sample_monitor now))
     (me_stderr_file (sample_monitor now)) (me_max_log_bytes (sample_monitor now)) = Inr c
     \<and> cs_error (cap_stdout c) = None \<and> cs_error (cap_stderr c) = None"
  by (simp add: sample_monitor_def capture_streams_def CaptureBudget_new_def drain_stream_def)

theorem monitored_outcome_faithful_witness:
  "\<exists>db run ended db'. execute sample_codec (sample_monitor (Inr 8)) run sample_execution db = ((Inr ended, db'), [Spawned, Waited])
     \<and> (run_outcome ended = Some (RunOutcome.Exit 1) \<and> run_state ended = RunState.Failed
        \<or> run_outcome ended = Some (RunOutcome.Cancelled ''cancel request stopped command'') \<and> run_state ended = RunState.Cancelled)"
proof -
  obtain db :: Database and run row where s: "db_runs db = [row]" "rr_id row = run_text (RunId 2)" "rr_claim_token row = sample_token"
    "rr_state row = ''starting''" "decode_run_row sample_codec row = Inr run" "run_id run = RunId 2"
    "run_claim_token run = ClaimToken sample_token" "run_state run = RunState.Starting" "run_outcome run = None" "run_created_at run = 7"
    by (rule sample_run_row)
  obtain ended db' where e: "execute sample_codec (sample_monitor (Inr 8)) run sample_execution db = ((Inr ended, db'), [Spawned, Waited])"
    using sample_monitored [OF s] by blast
  have w: "me_wait (sample_monitor (Inr 8)) = Inr \<lparr> status_code = Some 1, status_signal = None \<rparr>" by (simp add: sample_monitor_def)
  have "run_outcome ended = Some (RunOutcome.Exit 1) \<and> run_state ended = RunState.Failed
      \<or> run_outcome ended = Some (RunOutcome.Cancelled ''cancel request stopped command'') \<and> run_state ended = RunState.Cancelled"
    using monitored_outcome_faithful [OF e]
    apply (elim exE conjE)
    subgoal premises p for captured started monitor command stdout_path stderr_path running db1 st et db2 lost cancelled
    proof -
      have "\<not> lost" using sample_monitor_captures [of "Inr 8"] unfolding p(5) p(1) by blast
      with p(9) w have "cancelled \<longrightarrow>
          run_outcome ended = Some (RunOutcome.Cancelled ''cancel request stopped command'') \<and> run_state ended = RunState.Cancelled"
        "\<not> cancelled \<longrightarrow> run_outcome ended = Some (RunOutcome.Exit 1) \<and> run_state ended = RunState.Failed"
        by simp_all
      then show ?thesis by blast
    qed
    done
  with e show ?thesis by blast
qed

theorem finish_job_effect_witness:
  "\<exists>db job db' job'. load_job sample_codec db (job_id sample_job) = Inr (Some job) \<and> job_state job = JobState.CancelRequested
     \<and> finish_job sample_codec (\<lambda>_. True) (sample_monitor (Inr 8)) (job_id sample_job) RunState.Succeeded db = (Inr (), db')
     \<and> load_job sample_codec db' (job_id sample_job) = Inr (Some job') \<and> job_state job' = JobState.Cancelled"
proof -
  obtain db row job where s: "recoverable db" "db_jobs db = [row]" "jr_id row = job_text (job_id sample_job)"
    "decode_job_row sample_codec row = Inr job" "job_id job = job_id sample_job" "job_revision job = Revision 2"
    "job_state job = JobState.CancelRequested" "job_updated_at job = 5"
    by (rule sample_moved [of JobState.CancelRequested]) (auto simp: one_shot_legal_def)
  have k: "job_keys db" "job_revisions_i64 db"
    using s(1) by (auto simp: recoverable_def job_table_def job_revisions_i64_def list_all_iff)
  have l: "load_job sample_codec db (job_id sample_job) = Inr (Some job)"
    using s by (simp add: load_job_eq_Inr)
  obtain job1 db1 where t: "transition_job sample_codec (\<lambda>_. None) db (job_id sample_job) (job_revision job) JobState.Cancelled False
      TransitionActor.Monitor ''cancelled run finished'' 9 = Inr (job1, db1)"
    by (rule transition_step [where fault = "\<lambda>_. None" and now = 9 and reason = "''cancelled run finished''"
          and actor = TransitionActor.Monitor and to = JobState.Cancelled, OF k sample_codec_ok l])
      (use s in \<open>auto simp: one_shot_legal_def contains_nul_def\<close>)
  have f: "finish_job sample_codec (\<lambda>_. True) (sample_monitor (Inr 8)) (job_id sample_job) RunState.Succeeded db = (Inr (), db1)"
    using l s(5,7) t by (simp add: finish_job_def sample_monitor_def Let_def on_ok_def statement_def JobState_is_terminal_def)
  from finish_job_effect [OF f k(1) sample_codec_ok l] l s(7) f show ?thesis
    by (auto simp: sample_monitor_def)
qed

end
