(* ===== verification/Paths.thy ===== *)
theory Paths
  imports Run
begin

text \<open>
  Private directories and files (\<open>src/infrastructure/paths/mod.rs\<close>).

  The file system is a finite view: what \<open>symlink_metadata\<close> says about a path.  A directory
  handle is the path it was opened with.  \<open>fault n\<close> is the error of the \<open>n\<close>-th system call of an
  operation, if it has one beside the errors that follow from the view.
\<close>

unbundle bit_operations_syntax

section \<open>Files\<close>

datatype FileKind = RegularFile | Directory | Symlink | SocketFile | CharDevice | OtherFile

record metadata =
  md_kind :: FileKind
  md_uid :: u32
  md_mode :: u32
  md_ino :: nat

type_synonym file_tree = "string \<Rightarrow> metadata option"

record process_context =
  pc_uid :: u32
  pc_umask :: u32
  pc_fresh_ino :: "string \<Rightarrow> nat"

definition permissions :: "metadata \<Rightarrow> u32" where
  "permissions m = md_mode m AND 0x1FF"

definition path_join :: "string \<Rightarrow> string \<Rightarrow> string" where
  "path_join base p =
     (if path_is_absolute p then p
      else if base = [] \<or> last base = CHR ''/'' then base @ p else base @ ''/'' @ p)"

section \<open>Platform paths\<close>

datatype Platform = Linux | MacOs

record PathEnvironment =
  pe_home :: "string option"
  pe_xdg_state_home :: "string option"
  pe_xdg_runtime_dir :: "string option"
  pe_temporary_directory :: "string option"

record PlatformPaths =
  pp_state_dir :: string
  pp_runtime_dir :: string
  pp_runtime_uses_fallback :: bool

datatype PathError =
    MissingHome
  | MissingRuntimeRoot
  | RelativePath
  | InvalidLeafName
  | Insecure string
  | Io string
  | System string

fun PathError_text :: "PathError \<Rightarrow> string" where
  "PathError_text MissingHome = ''home directory is unavailable''"
| "PathError_text MissingRuntimeRoot = ''secure runtime root is unavailable''"
| "PathError_text RelativePath = ''path must be absolute''"
| "PathError_text InvalidLeafName = ''path must be one normal relative component''"
| "PathError_text (Insecure e) = ''insecure filesystem object: '' @ e"
| "PathError_text (PathError.Io e) = ''filesystem operation failed: '' @ e"
| "PathError_text (System e) = ''system call failed: '' @ e"

definition require_absolute :: "string \<Rightarrow> (PathError, unit) result" where
  "require_absolute p = (if path_is_absolute p then Inr () else Inl RelativePath)"

definition fallback_runtime :: "PathEnvironment \<Rightarrow> u32 \<Rightarrow> (PathError, string) result" where
  "fallback_runtime env uid =
     ok_or MissingRuntimeRoot (map_option (\<lambda>root. path_join root (''atx-'' @ show_nat (unat uid))) (pe_temporary_directory env))"

definition platform_state_dir :: "Platform \<Rightarrow> PathEnvironment \<Rightarrow> (PathError, string) result" where
  "platform_state_dir platform env =
     (case platform of
        Linux \<Rightarrow> ok_or MissingHome (case pe_xdg_state_home env of
            Some root \<Rightarrow> Some (path_join root ''atx'')
          | None \<Rightarrow> map_option (\<lambda>home. path_join home ''.local/state/atx'') (pe_home env))
      | MacOs \<Rightarrow> ok_or MissingHome
          (map_option (\<lambda>home. path_join home ''Library/Application Support/atx'') (pe_home env)))"

definition platform_runtime_dir :: "Platform \<Rightarrow> PathEnvironment \<Rightarrow> u32 \<Rightarrow> (PathError, string \<times> bool) result" where
  "platform_runtime_dir platform env uid =
     (case (platform, pe_xdg_runtime_dir env) of
        (Linux, Some root) \<Rightarrow> Inr (path_join root ''atx'', False)
      | _ \<Rightarrow> map_ok (\<lambda>dir. (dir, True)) (fallback_runtime env uid))"

definition resolve_paths ::
  "Platform \<Rightarrow> PathEnvironment \<Rightarrow> string option \<Rightarrow> u32 \<Rightarrow> (PathError, PlatformPaths) result" where
  "resolve_paths platform env state_override uid =
     (case state_override of
        Some dir \<Rightarrow>
          try_bind (require_absolute dir) (\<lambda>_.
          Inr \<lparr> pp_state_dir = dir, pp_runtime_dir = path_join dir ''runtime'', pp_runtime_uses_fallback = True \<rparr>)
      | None \<Rightarrow>
          try_bind (platform_state_dir platform env) (\<lambda>state.
          try_bind (require_absolute state) (\<lambda>_.
          try_bind (platform_runtime_dir platform env uid) (\<lambda>(runtime, fallback).
          try_bind (require_absolute runtime) (\<lambda>_.
          Inr \<lparr> pp_state_dir = state, pp_runtime_dir = runtime, pp_runtime_uses_fallback = fallback \<rparr>)))))"

section \<open>Private directories and files\<close>

definition validate_private_dir_for_uid :: "file_tree \<Rightarrow> string \<Rightarrow> u32 \<Rightarrow> (PathError, unit) result" where
  "validate_private_dir_for_uid fs path uid =
     (case fs path of
        None \<Rightarrow> Inl (Io ''No such file or directory (os error 2)'')
      | Some m \<Rightarrow>
          if md_kind m = Symlink \<or> md_kind m \<noteq> Directory then Inl (Insecure ''path is not a real directory'')
          else if md_uid m \<noteq> uid then Inl (Insecure ''directory has the wrong owner'')
          else if permissions m \<noteq> 0x1C0 then Inl (Insecure ''directory mode must be 0700'')
          else Inr ())"

definition new_entry :: "process_context \<Rightarrow> FileKind \<Rightarrow> u32 \<Rightarrow> string \<Rightarrow> metadata" where
  "new_entry ctx kind mode path =
     \<lparr> md_kind = kind, md_uid = pc_uid ctx, md_mode = mode AND NOT (pc_umask ctx), md_ino = pc_fresh_ino ctx path \<rparr>"

definition ensure_private_dir ::
  "process_context \<Rightarrow> string option \<Rightarrow> file_tree \<Rightarrow> string \<Rightarrow> (PathError, unit) result \<times> file_tree" where
  "ensure_private_dir ctx fault fs path =
     (case fault of
        Some e \<Rightarrow> (Inl (Io e), fs)
      | None \<Rightarrow>
          (let fs' = (if fs path = None then fs(path \<mapsto> new_entry ctx Directory 0x1C0 path) else fs)
           in (validate_private_dir_for_uid fs' path (pc_uid ctx), fs')))"

definition validate_leaf_name :: "string \<Rightarrow> (PathError, unit) result" where
  "validate_leaf_name name =
     (case path_components name of
        [Normal _] \<Rightarrow> Inr ()
      | _ \<Rightarrow> Inl InvalidLeafName)"

definition create_new_private_file ::
  "process_context \<Rightarrow> string option \<Rightarrow> file_tree \<Rightarrow> string \<Rightarrow> string \<Rightarrow> (PathError, string) result \<times> file_tree" where
  "create_new_private_file ctx fault fs directory name =
     (case validate_leaf_name name of
        Inl e \<Rightarrow> (Inl e, fs)
      | Inr _ \<Rightarrow>
          (case fault of
             Some e \<Rightarrow> (Inl (System e), fs)
           | None \<Rightarrow>
               (let path = path_join directory name
                in if fs path \<noteq> None then (Inl (System ''File exists (os error 17)''), fs)
                   else (Inr path, fs(path \<mapsto> new_entry ctx RegularFile 0x180 path)))))"

text \<open>
  Opening for appending: a symbolic link is not followed.  When there is no entry the file is
  created; \<open>interfere\<close> is what other processes do between the two calls.
\<close>

definition open_or_create_private_append_log ::
  "process_context \<Rightarrow> (nat \<Rightarrow> string option) \<Rightarrow> (file_tree \<Rightarrow> file_tree) \<Rightarrow> file_tree \<Rightarrow> string \<Rightarrow> string \<Rightarrow>
     (PathError, string) result \<times> file_tree" where
  "open_or_create_private_append_log ctx fault interfere fs directory name =
     (case validate_leaf_name name of
        Inl e \<Rightarrow> (Inl e, fs)
      | Inr _ \<Rightarrow>
          (let path = path_join directory name in
           case fs path of
             None \<Rightarrow> create_new_private_file ctx (fault 0) (interfere fs) directory name
           | Some m \<Rightarrow>
               if md_kind m = Symlink then (Inl (System ''Too many levels of symbolic links (os error 40)''), fs)
               else (case fault 1 of
                 Some e \<Rightarrow> (Inl (System e), fs)
               | None \<Rightarrow>
                   if md_uid m \<noteq> pc_uid ctx \<or> permissions m \<noteq> 0x180 \<or> md_kind m \<noteq> RegularFile
                   then (Inl (Insecure ''log must be a regular, owner-only file owned by this user''), fs)
                   else (Inr path, fs))))"

section \<open>Paths\<close>

lemma path_join_absolute [simp]: "path_is_absolute (path_join base p) \<longleftrightarrow> path_is_absolute base \<or> path_is_absolute p"
  by (cases base; cases p) (auto simp: path_join_def path_is_absolute_def)

lemma path_join_inject:
  "\<not> path_is_absolute p \<Longrightarrow> \<not> path_is_absolute q \<Longrightarrow> path_join base p = path_join base q \<longleftrightarrow> p = q"
  by (auto simp: path_join_def)

lemma fallback_runtime_separate:
  assumes "fallback_runtime env uid = Inr dir" "fallback_runtime env uid' = Inr dir"
  shows "uid = uid'"
proof -
  have rel: "\<not> path_is_absolute (''atx-'' @ n)" for n
    by (simp add: path_is_absolute_def)
  obtain root where root: "pe_temporary_directory env = Some root"
    using assms by (auto simp: fallback_runtime_def ok_or_def split: option.splits)
  with assms have "path_join root (''atx-'' @ show_nat (unat uid)) = path_join root (''atx-'' @ show_nat (unat uid'))"
    by (simp add: fallback_runtime_def ok_or_def)
  then have "''atx-'' @ show_nat (unat uid) = ''atx-'' @ show_nat (unat uid')"
    by (simp only: path_join_inject [OF rel rel])
  then show ?thesis
    by (simp add: show_nat_inject word_unat_eq_iff)
qed

text \<open>
  Where atx keeps its files.  The directories it resolves are absolute.  An explicit state
  directory decides both, so that such an instance shares nothing with the user's own; otherwise
  the state directory follows the platform's convention, and two users who fall back to the same
  temporary directory never get the same runtime directory.
\<close>

theorem resolved_paths_separate:
  assumes "resolve_paths platform env state_override uid = Inr p"
    and "resolve_paths platform env state_override uid' = Inr p'"
  shows "path_is_absolute (pp_state_dir p) \<and> path_is_absolute (pp_runtime_dir p)
    \<and> (\<forall>dir. state_override = Some dir \<longrightarrow> pp_state_dir p = dir \<and> pp_runtime_dir p = path_join dir ''runtime'')
    \<and> (state_override = None \<longrightarrow> platform_state_dir platform env = Inr (pp_state_dir p)
         \<and> pp_runtime_uses_fallback p = (platform = MacOs \<or> pe_xdg_runtime_dir env = None)
         \<and> (pp_runtime_uses_fallback p \<and> uid \<noteq> uid' \<longrightarrow> pp_runtime_dir p \<noteq> pp_runtime_dir p'))"
proof (cases state_override)
  case (Some dir)
  with assms show ?thesis
    by (auto simp: resolve_paths_def require_absolute_def result_simps split: if_splits)
next
  case None
  have fallback: "fallback_runtime env u = Inr (pp_runtime_dir q)"
    if "resolve_paths platform env None u = Inr q" "pp_runtime_uses_fallback q" for u q
    using that by (auto simp: resolve_paths_def platform_runtime_dir_def result_simps
        split: Platform.splits option.splits prod.splits)
  have uses: "pp_runtime_uses_fallback q = (platform = MacOs \<or> pe_xdg_runtime_dir env = None)"
    if "resolve_paths platform env None u = Inr q" for u q
    using that by (auto simp: resolve_paths_def platform_runtime_dir_def result_simps
        split: Platform.splits option.splits prod.splits)
  have "path_is_absolute (pp_state_dir p)" "path_is_absolute (pp_runtime_dir p)"
    "platform_state_dir platform env = Inr (pp_state_dir p)"
    using assms(1) None
    by (auto simp: resolve_paths_def require_absolute_def result_simps split: if_splits prod.splits)
  moreover have "pp_runtime_uses_fallback p' = pp_runtime_uses_fallback p"
    using uses assms None by simp
  then have "pp_runtime_uses_fallback p \<and> uid \<noteq> uid' \<longrightarrow> pp_runtime_dir p \<noteq> pp_runtime_dir p'"
    using fallback [of uid p] fallback [of uid' p'] fallback_runtime_separate [of env uid "pp_runtime_dir p" uid'] assms None
    by auto
  ultimately show ?thesis
    using None uses [of uid p] assms by simp
qed

section \<open>Private directories and files\<close>

definition private_dir :: "file_tree \<Rightarrow> u32 \<Rightarrow> string \<Rightarrow> bool" where
  "private_dir fs uid p = (\<exists>m. fs p = Some m \<and> md_kind m = Directory \<and> md_uid m = uid \<and> permissions m = 0x1C0)"

definition private_file :: "file_tree \<Rightarrow> u32 \<Rightarrow> string \<Rightarrow> bool" where
  "private_file fs uid p = (\<exists>m. fs p = Some m \<and> md_kind m = RegularFile \<and> md_uid m = uid \<and> md_mode m AND 0x3F = 0)"

lemma validate_private_dir_iff: "validate_private_dir_for_uid fs p uid = Inr () \<longleftrightarrow> private_dir fs uid p"
  by (auto simp: validate_private_dir_for_uid_def private_dir_def split: option.splits)

lemma private_dir_mono: "private_dir fs uid p \<Longrightarrow> fs \<subseteq>\<^sub>m fs' \<Longrightarrow> private_dir fs' uid p"
  by (auto simp: private_dir_def map_le_def dom_def)

lemma private_file_mono: "private_file fs uid p \<Longrightarrow> fs \<subseteq>\<^sub>m fs' \<Longrightarrow> private_file fs' uid p"
  by (auto simp: private_file_def map_le_def dom_def)

lemma ensure_private_dir_effect:
  assumes "ensure_private_dir ctx fault fs path = (Inr u, fs')"
  shows "private_dir fs' (pc_uid ctx) path \<and> fs \<subseteq>\<^sub>m fs' \<and> (\<forall>q. q \<noteq> path \<longrightarrow> fs' q = fs q)"
proof -
  have "validate_private_dir_for_uid fs' path (pc_uid ctx) = Inr ()"
    using assms by (auto simp: ensure_private_dir_def Let_def split: option.splits)
  moreover have "fs \<subseteq>\<^sub>m fs'" "\<forall>q. q \<noteq> path \<longrightarrow> fs' q = fs q"
    using assms by (auto simp: ensure_private_dir_def Let_def map_le_def split: option.splits if_splits)
  ultimately show ?thesis by (simp add: validate_private_dir_iff)
qed

lemma new_file_private: "md_mode (new_entry ctx RegularFile 0x180 path) AND 0x3F = 0"
proof -
  have "md_mode (new_entry ctx RegularFile 0x180 path) AND 0x3F = (0x180 AND 0x3F) AND NOT (pc_umask ctx)"
    by (simp only: new_entry_def metadata.simps and.assoc and.commute and.left_commute)
  then show ?thesis by simp
qed

lemma create_new_private_file_effect:
  assumes "create_new_private_file ctx fault fs directory name = (Inr path, fs')"
  shows "path = path_join directory name \<and> fs path = None \<and> fs' = fs(path \<mapsto> new_entry ctx RegularFile 0x180 path)
    \<and> private_file fs' (pc_uid ctx) path \<and> fs \<subseteq>\<^sub>m fs'"
proof -
  have *: "path = path_join directory name" "fs path = None" "fs' = fs(path \<mapsto> new_entry ctx RegularFile 0x180 path)"
    using assms by (auto simp: create_new_private_file_def Let_def split: sum.splits option.splits if_splits)
  moreover have "private_file fs' (pc_uid ctx) path"
    using new_file_private [of ctx path] by (auto simp: private_file_def *(3) new_entry_def)
  ultimately show ?thesis by (auto simp: map_le_def)
qed

text \<open>A name that is accepted denotes an entry of the directory itself.\<close>

lemma leaf_name_stays:
  assumes "validate_leaf_name name = Inr ()"
  shows "\<not> path_is_absolute name \<and> (\<exists>c. path_components name = [Normal c])"
proof -
  obtain c where "path_components name = [Normal c]"
    using assms by (auto simp: validate_leaf_name_def split: list.splits Component.splits)
  then show ?thesis
    by (auto simp: path_components_def)
qed

text \<open>
  The supervisor's log is never redirected: whatever other processes put into the directory,
  what is opened is a regular file that belongs to the user and that nobody else may read.
\<close>

lemma append_log_private:
  assumes "open_or_create_private_append_log ctx fault interfere fs directory name = (Inr path, fs')"
  shows "path = path_join directory name \<and> private_file fs' (pc_uid ctx) path"
proof (cases "fs (path_join directory name)")
  case None
  with assms have "create_new_private_file ctx (fault 0) (interfere fs) directory name = (Inr path, fs')"
    by (auto simp: open_or_create_private_append_log_def Let_def split: sum.splits)
  then show ?thesis using create_new_private_file_effect by blast
next
  case (Some m)
  with assms have *: "path = path_join directory name" "fs' = fs" "md_kind m = RegularFile" "md_uid m = pc_uid ctx"
    "permissions m = 0x180"
    by (auto simp: open_or_create_private_append_log_def Let_def split: sum.splits option.splits if_splits)
  have "md_mode m AND 0x3F = permissions m AND 0x3F"
    by (simp add: permissions_def and.assoc)
  with * Some show ?thesis by (simp add: private_file_def)
qed

section \<open>Concrete paths\<close>

definition sample_paths_env :: PathEnvironment where
  "sample_paths_env = \<lparr> pe_home = Some ''/home/u'', pe_xdg_state_home = None, pe_xdg_runtime_dir = None,
     pe_temporary_directory = Some ''/tmp'' \<rparr>"

theorem resolved_paths_separate_witness:
  "\<exists>p p'. resolve_paths Linux sample_paths_env None 7 = Inr p \<and> resolve_paths Linux sample_paths_env None 8 = Inr p'
     \<and> pp_state_dir p = ''/home/u/.local/state/atx'' \<and> pp_runtime_dir p = ''/tmp/atx-7'' \<and> pp_runtime_dir p \<noteq> pp_runtime_dir p'"
proof -
  have r: "resolve_paths Linux sample_paths_env None 7 = Inr \<lparr> pp_state_dir = ''/home/u/.local/state/atx'',
      pp_runtime_dir = ''/tmp/atx-7'', pp_runtime_uses_fallback = True \<rparr>"
    "resolve_paths Linux sample_paths_env None 8 = Inr \<lparr> pp_state_dir = ''/home/u/.local/state/atx'',
      pp_runtime_dir = ''/tmp/atx-8'', pp_runtime_uses_fallback = True \<rparr>"
    by (simp_all add: resolve_paths_def platform_state_dir_def platform_runtime_dir_def fallback_runtime_def sample_paths_env_def
        ok_or_def require_absolute_def path_is_absolute_def path_join_def show_nat.simps char_of_def bit_Suc_0_iff)
  from resolved_paths_separate [OF r] r show ?thesis by auto
qed

end
