(* ===== verification/History.thy ===== *)
theory History
  imports Monitor Paths
begin

text \<open>
  Captured output of a run (\<open>src/application/history.rs\<close>, with the store's side in
  \<open>src/infrastructure/sqlite/management.rs\<close> and the log paths of
  \<open>src/infrastructure/runtime/mod.rs\<close>).  The file system is a parameter: canonical paths, the
  kind of a file and its contents.
\<close>

section \<open>Data\<close>

record RunStream =
  stream_content :: "u8 list"
  stream_truncated :: bool

definition RunStream_empty :: RunStream where
  "RunStream_empty = \<lparr> stream_content = [], stream_truncated = False \<rparr>"

record RunOutput =
  ro_run_id :: RunId
  ro_job_id :: JobId
  ro_state :: RunState
  ro_outcome :: "RunOutcome option"
  ro_stdout :: RunStream
  ro_stderr :: RunStream

datatype RunOutputError =
    NotFound
  | Ambiguous
  | InvalidPrefix
  | NoRuns
  | NotCaptured
  | MissingLogs
  | Read string
  | Store string

record file_system =
  fs_canonicalize :: "string \<Rightarrow> string option"
  fs_is_file :: "string \<Rightarrow> bool option"
  fs_contents :: "string \<Rightarrow> (string, u8 list) result"

text \<open>The operations of \<open>RunOutputStore\<close>.\<close>

record output_queries =
  oq_find_runs :: "string \<Rightarrow> u64 \<Rightarrow> (string, Run list) result"
  oq_latest_run :: "JobId \<Rightarrow> (string, Run option) result"
  oq_find_jobs :: "string \<Rightarrow> u64 \<Rightarrow> (string, Job list) result"
  oq_stdout_truncated :: "RunId \<Rightarrow> (string, bool) result"
  oq_stderr_truncated :: "RunId \<Rightarrow> (string, bool) result"

section \<open>Paths\<close>

definition path_starts_with :: "string \<Rightarrow> string \<Rightarrow> bool" where
  "path_starts_with p base =
     (take (length (path_components base)) (path_components p) = path_components base)"

definition artifact_path :: "RunId \<Rightarrow> string \<Rightarrow> string" where
  "artifact_path i name = path_join (path_join ''runs'' (run_text i)) name"

definition artifact_paths :: "RunId \<Rightarrow> string \<times> string" where
  "artifact_paths i = (artifact_path i ''stdout.log'', artifact_path i ''stderr.log'')"

definition create_run_artifacts ::
  "process_context \<Rightarrow> (nat \<Rightarrow> string option) \<Rightarrow> file_tree \<Rightarrow> string \<Rightarrow> RunId \<Rightarrow>
     (PathError, (string \<times> string) \<times> (string \<times> string)) result \<times> file_tree" where
  "create_run_artifacts ctx fault fs state_directory i =
     (let runs_directory = path_join state_directory ''runs'';
          job_directory = path_join runs_directory (run_text i);
          relative = path_join ''runs'' (run_text i)
      in case ensure_private_dir ctx (fault 0) fs state_directory of
        (Inl e, fs) \<Rightarrow> (Inl e, fs)
      | (Inr _, fs) \<Rightarrow>
      (case ensure_private_dir ctx (fault 1) fs runs_directory of
        (Inl e, fs) \<Rightarrow> (Inl e, fs)
      | (Inr _, fs) \<Rightarrow>
      (case ensure_private_dir ctx (fault 2) fs job_directory of
        (Inl e, fs) \<Rightarrow> (Inl e, fs)
      | (Inr _, fs) \<Rightarrow>
      (case fault 3 of
        Some e \<Rightarrow> (Inl (Io e), fs)
      | None \<Rightarrow>
      (case create_new_private_file ctx (fault 4) fs job_directory ''stdout.log'' of
        (Inl e, fs) \<Rightarrow> (Inl e, fs)
      | (Inr out, fs) \<Rightarrow>
      (case create_new_private_file ctx (fault 5) fs job_directory ''stderr.log'' of
        (Inl e, fs) \<Rightarrow> (Inl e, fs)
      | (Inr err, fs) \<Rightarrow>
          (Inr ((path_join relative ''stdout.log'', path_join relative ''stderr.log''), (out, err)), fs)))))))"

section \<open>Reading the output\<close>

definition output_prefix :: "string \<Rightarrow> bool" where
  "output_prefix prefix = (prefix \<noteq> [] \<and> length prefix \<le> 26 \<and> list_all is_ascii_alphanumeric prefix)"

definition resolve_job_for_output :: "output_queries \<Rightarrow> string \<Rightarrow> (RunOutputError, Job) result" where
  "resolve_job_for_output store prefix =
     try_bind (map_err RunOutputError.Store (oq_find_jobs store prefix 2)) (\<lambda>jobs.
     case jobs of [] \<Rightarrow> Inl RunOutputError.NotFound | [job] \<Rightarrow> Inr job | _ \<Rightarrow> Inl RunOutputError.Ambiguous)"

definition select_run :: "output_queries \<Rightarrow> string \<Rightarrow> (RunOutputError, Run) result" where
  "select_run store prefix =
     try_bind (map_err RunOutputError.Store (oq_find_runs store prefix 2)) (\<lambda>matches.
     case matches of
       [] \<Rightarrow> try_bind (resolve_job_for_output store prefix) (\<lambda>job.
             try_bind (map_err RunOutputError.Store (oq_latest_run store (job_id job))) (ok_or NoRuns))
     | [run] \<Rightarrow> Inr run
     | _ \<Rightarrow> Inl RunOutputError.Ambiguous)"

definition read_stream :: "file_system \<Rightarrow> string \<Rightarrow> string \<Rightarrow> bool \<Rightarrow> (RunOutputError, RunStream) result" where
  "read_stream fs path runs_directory was_truncated =
     (if \<not> path_starts_with path runs_directory then Inl MissingLogs
      else case fs_is_file fs path of
        None \<Rightarrow> Inl MissingLogs
      | Some is_file \<Rightarrow>
          if \<not> is_file then Inl MissingLogs
          else try_bind (map_err RunOutputError.Read (fs_contents fs path)) (\<lambda>content.
            Inr \<lparr> stream_content = content, stream_truncated = was_truncated \<rparr>))"

definition resolve_log :: "file_system \<Rightarrow> string \<Rightarrow> string \<Rightarrow> (RunOutputError, string) result" where
  "resolve_log fs state_directory stored = ok_or MissingLogs (fs_canonicalize fs (path_join state_directory stored))"

definition read_run_output ::
  "output_queries \<Rightarrow> file_system \<Rightarrow> string \<Rightarrow> string \<Rightarrow> (RunOutputError, RunOutput) result" where
  "read_run_output store fs state_directory prefix =
     (if \<not> output_prefix prefix then Inl RunOutputError.InvalidPrefix
      else try_bind (select_run store prefix) (\<lambda>run.
      (let output = (\<lambda>out err. \<lparr> ro_run_id = run_id run, ro_job_id = run_job_id run, ro_state = run_state run,
             ro_outcome = run_outcome run, ro_stdout = out, ro_stderr = err \<rparr>)
       in if RunState_is_terminal (run_state run) \<and> run_stdout_path run = None
          then Inr (output RunStream_empty RunStream_empty)
          else case (run_stdout_path run, run_stderr_path run) of
            (Some stdout_path, Some stderr_path) \<Rightarrow>
              try_bind (ok_or MissingLogs (fs_canonicalize fs (path_join state_directory ''runs''))) (\<lambda>runs_directory.
              try_bind (resolve_log fs state_directory stdout_path) (\<lambda>p.
              try_bind (map_err RunOutputError.Store (oq_stdout_truncated store (run_id run))) (\<lambda>t.
              try_bind (read_stream fs p runs_directory t) (\<lambda>stdout.
              try_bind (resolve_log fs state_directory stderr_path) (\<lambda>p.
              try_bind (map_err RunOutputError.Store (oq_stderr_truncated store (run_id run))) (\<lambda>t.
              try_bind (read_stream fs p runs_directory t) (\<lambda>stderr. Inr (output stdout stderr))))))))
          | _ \<Rightarrow> Inl NotCaptured)))"

section \<open>The store's side\<close>

definition output_find_runs ::
  "codec \<Rightarrow> (nat \<Rightarrow> StoreError option) \<Rightarrow> Database \<Rightarrow> string \<Rightarrow> u64 \<Rightarrow> (string, Run list) result" where
  "output_find_runs C fault db prefix limit =
     (let prefix = map to_ascii_lowercase prefix
      in if length prefix \<ge> 2 ^ 63 then Inl ''prefix length overflow''
         else if \<not> unat limit < 2 ^ 63 then Inl ''result limit overflow''
         else map_err StoreError_text (query fault (decode_run_row C) (take (unat limit) (sort_key rr_id (filter
             (\<lambda>row. take (length prefix) (rr_id row) = prefix) (db_runs db))))))"

definition output_latest_run ::
  "codec \<Rightarrow> (nat \<Rightarrow> StoreError option) \<Rightarrow> Database \<Rightarrow> JobId \<Rightarrow> (string, Run option) result" where
  "output_latest_run C fault db job =
     map_err StoreError_text (query_first fault (decode_run_row C) (take 1 (rev (sort_key rr_sequence
       (filter (\<lambda>row. rr_job_id row = job_text job) (db_runs db))))))"

definition read_truncation_flag ::
  "(nat \<Rightarrow> StoreError option) \<Rightarrow> Database \<Rightarrow> (run_row \<Rightarrow> bool) \<Rightarrow> RunId \<Rightarrow> (string, bool) result" where
  "read_truncation_flag fault db column i =
     try_bind (map_err StoreError_text (statement fault 0)) (\<lambda>_.
     ok_or ''run row vanished'' (map_option column (find (\<lambda>row. rr_id row = run_text i) (db_runs db))))"

definition job_output_store :: "codec \<Rightarrow> (nat \<Rightarrow> nat \<Rightarrow> StoreError option) \<Rightarrow> Database \<Rightarrow> output_queries" where
  "job_output_store C fault db =
     \<lparr> oq_find_runs = output_find_runs C (fault 0) db, oq_latest_run = output_latest_run C (fault 1) db,
       oq_find_jobs = mgmt_find C (fault 2) db,
       oq_stdout_truncated = read_truncation_flag (fault 3) db rr_stdout_truncated,
       oq_stderr_truncated = read_truncation_flag (fault 4) db rr_stderr_truncated \<rparr>"

section \<open>The paths of the logs\<close>

lemma segments_cut: "CHR ''/'' \<notin> set a \<Longrightarrow> segments (a @ CHR ''/'' # b) = a # segments b"
  by (induction a) auto

lemma segments_single: "CHR ''/'' \<notin> set a \<Longrightarrow> segments a = [a]"
  by (induction a) auto

lemma run_text_glyphs: "run_text i = map glyph (digits32 26 (unat (run_uuid i)))"
  by (cases i) (simp add: run_text_def RunId_to_string_def encode_eq)

lemma run_text_safe: "CHR ''/'' \<notin> set (run_text i)" "CHR ''.'' \<notin> set (run_text i)" "run_text i \<noteq> []"
    "hd (run_text i) \<noteq> CHR ''/''"
proof -
  have "set (run_text i) \<subseteq> set digit_alphabet"
    by (auto simp: run_text_glyphs glyph_def length_alphabet dest!: digits32_less)
  moreover have "CHR ''/'' \<notin> set digit_alphabet" "CHR ''.'' \<notin> set digit_alphabet"
    by (simp_all add: digit_alphabet_def)
  ultimately show "CHR ''/'' \<notin> set (run_text i)" "CHR ''.'' \<notin> set (run_text i)" by auto
  moreover show "run_text i \<noteq> []"
    by (simp add: run_text_glyphs flip: length_0_conv)
  ultimately show "hd (run_text i) \<noteq> CHR ''/''"
    by (metis hd_in_set)
qed

text \<open>The paths the monitor hands to the store are accepted as log paths.\<close>

lemma artifact_paths_valid:
  "validate_log_path (fst (artifact_paths i)) = Inr ()" "validate_log_path (snd (artifact_paths i)) = Inr ()"
  using run_text_safe [of i]
  by (auto simp: artifact_paths_def artifact_path_def path_join_def validate_log_path_def path_is_absolute_def
      path_components_def segments_cut segments_single segment_component_def List.map_filter_def)

section \<open>The files of a run\<close>

text \<open>
  The logs of a run are private and new.  If the files of a run are created, they are regular
  files that did not exist before, belong to the user and grant nothing to anybody else; all three
  directories above them are real directories of the user with mode 0700; no entry that existed
  is changed, and the paths recorded in the database lead to exactly these files.
\<close>

theorem run_artifacts_private:
  assumes "create_run_artifacts ctx fault fs dir i = (Inr (recorded, (out, err)), fs')"
  shows "recorded = artifact_paths i \<and> out = path_join dir (fst recorded) \<and> err = path_join dir (snd recorded)
    \<and> fs out = None \<and> fs err = None \<and> private_file fs' (pc_uid ctx) out \<and> private_file fs' (pc_uid ctx) err
    \<and> (\<forall>d \<in> {dir, path_join dir ''runs'', path_join (path_join dir ''runs'') (run_text i)}. private_dir fs' (pc_uid ctx) d)
    \<and> fs \<subseteq>\<^sub>m fs'"
proof -
  let ?runs = "path_join dir ''runs''" and ?job = "path_join (path_join dir ''runs'') (run_text i)"
  obtain fs1 fs2 fs3 fs4 where
    1: "ensure_private_dir ctx (fault 0) fs dir = (Inr (), fs1)" and
    2: "ensure_private_dir ctx (fault 1) fs1 ?runs = (Inr (), fs2)" and
    3: "ensure_private_dir ctx (fault 2) fs2 ?job = (Inr (), fs3)" and
    4: "create_new_private_file ctx (fault 4) fs3 ?job ''stdout.log'' = (Inr out, fs4)" and
    5: "create_new_private_file ctx (fault 5) fs4 ?job ''stderr.log'' = (Inr err, fs')" and
    6: "recorded = artifact_paths i"
    using assms by (auto simp: create_run_artifacts_def artifact_paths_def artifact_path_def Let_def
        split: prod.splits sum.splits option.splits)
  note e = ensure_private_dir_effect [OF 1] ensure_private_dir_effect [OF 2] ensure_private_dir_effect [OF 3]
    create_new_private_file_effect [OF 4] create_new_private_file_effect [OF 5]
  have le: "fs \<subseteq>\<^sub>m fs3" "fs1 \<subseteq>\<^sub>m fs'" "fs2 \<subseteq>\<^sub>m fs'" "fs3 \<subseteq>\<^sub>m fs'" "fs4 \<subseteq>\<^sub>m fs'" "fs \<subseteq>\<^sub>m fs'" "fs \<subseteq>\<^sub>m fs4"
    using e by (meson map_le_trans)+
  have "fs out = None" "fs err = None"
    using e(4,5) le(1,7) by (auto simp: map_le_def dom_def)
  moreover have "path_join ?job n = path_join dir (artifact_path i n)" if "n \<in> {''stdout.log'', ''stderr.log''}" for n
    using that run_text_safe [of i] by (auto simp: artifact_path_def path_join_def path_is_absolute_def)
  then have "out = path_join dir (fst recorded)" "err = path_join dir (snd recorded)"
    using e(4,5) 6 by (simp_all add: artifact_paths_def)
  moreover have "private_file fs' (pc_uid ctx) out" "private_file fs' (pc_uid ctx) err"
    using e(4,5) le(5) private_file_mono by blast+
  moreover have "private_dir fs' (pc_uid ctx) dir" "private_dir fs' (pc_uid ctx) ?runs" "private_dir fs' (pc_uid ctx) ?job"
    using e(1-3) le(2-4) private_dir_mono by blast+
  ultimately show ?thesis
    using 6 le(6) by simp
qed

definition sample_context :: process_context where
  "sample_context = \<lparr> pc_uid = 7, pc_umask = 0x12, pc_fresh_ino = (\<lambda>_. 0) \<rparr>"

theorem run_artifacts_private_witness:
  "\<exists>recorded out err fs'. create_run_artifacts sample_context (\<lambda>_. None) Map.empty ''/s'' (RunId 1) = (Inr (recorded, (out, err)), fs')
     \<and> private_file fs' 7 out \<and> private_file fs' 7 err \<and> private_dir fs' 7 ''/s/runs''"
proof -
  obtain w where t: "run_text (RunId 1) = w" "w \<noteq> []" "hd w \<noteq> CHR ''/''" "last w \<noteq> CHR ''/''" "CHR ''/'' \<notin> set w"
    using run_text_safe [of "RunId 1"] by (metis last_in_set)
  have leaf: "validate_leaf_name ''stdout.log'' = Inr ()" "validate_leaf_name ''stderr.log'' = Inr ()"
    by (simp_all add: validate_leaf_name_def path_components_def path_is_absolute_def segment_component_def List.map_filter_def)
  have perm: "(0x1C0 AND NOT 0x12) AND 0x1FF = (0x1C0 :: u32)" by simp
  obtain recorded out err fs' where
    c: "create_run_artifacts sample_context (\<lambda>_. None) Map.empty ''/s'' (RunId 1) = (Inr (recorded, (out, err)), fs')"
    using t leaf perm
    by (auto simp: create_run_artifacts_def Let_def ensure_private_dir_def validate_private_dir_for_uid_def create_new_private_file_def
        new_entry_def permissions_def sample_context_def path_join_def path_is_absolute_def)
  from run_artifacts_private [OF c] c show ?thesis
    by (auto simp: sample_context_def path_join_def path_is_absolute_def)
qed

section \<open>The interface of the service and its store\<close>

lemma resolve_job_for_output_eq:
  "resolve_job_for_output store prefix = Inr job \<longleftrightarrow> oq_find_jobs store prefix 2 = Inr [job]"
proof -
  consider e where "oq_find_jobs store prefix 2 = Inl e" | "oq_find_jobs store prefix 2 = Inr []"
    | a where "oq_find_jobs store prefix 2 = Inr [a]" | a b js where "oq_find_jobs store prefix 2 = Inr (a # b # js)"
    by (metis obj_sumE list.exhaust)
  then show ?thesis
    by cases (simp_all add: resolve_job_for_output_def)
qed

text \<open>
  \<open>matching\<close> and \<open>newest\<close> are what the store promises of its two queries: a result shorter than
  the limit holds every match, and the latest run of a job is the one with the highest sequence.
\<close>

locale output_store =
  fixes matching :: "string \<Rightarrow> Run \<Rightarrow> bool"
    and newest :: "JobId \<Rightarrow> Run \<Rightarrow> bool"
    and store :: output_queries
  assumes find_exact: "oq_find_runs store p n = Inr rs \<Longrightarrow> length rs < unat n \<Longrightarrow> matching p r \<longleftrightarrow> r \<in> set rs"
    and latest_newest: "oq_latest_run store j = Inr (Some r) \<Longrightarrow> newest j r"
begin

lemma select_run_exact:
  assumes "select_run store prefix = Inr run"
  shows "matching prefix run \<and> (\<forall>r. matching prefix r \<longrightarrow> r = run)
    \<or> (\<forall>r. \<not> matching prefix r) \<and> (\<exists>job. oq_find_jobs store prefix 2 = Inr [job] \<and> newest (job_id job) run)"
proof -
  obtain rs where f: "oq_find_runs store prefix 2 = Inr rs"
    using assms by (auto simp: select_run_def result_simps)
  note m = find_exact [OF f]
  consider "rs = [run]" | "rs = []" using assms f by (auto simp: select_run_def split: list.splits)
  then show ?thesis
  proof cases
    case 1
    then show ?thesis using m by auto
  next
    case 2
    with assms f have "\<exists>job. oq_find_jobs store prefix 2 = Inr [job] \<and> oq_latest_run store (job_id job) = Inr (Some run)"
      by (auto simp: select_run_def result_simps resolve_job_for_output_eq ok_or_def split: option.splits)
    then show ?thesis using 2 m latest_newest by auto
  qed
qed

end

definition stored_match :: "codec \<Rightarrow> Database \<Rightarrow> string \<Rightarrow> Run \<Rightarrow> bool" where
  "stored_match C db prefix run =
     (\<exists>row \<in> set (db_runs db). take (length prefix) (rr_id row) = map to_ascii_lowercase prefix
        \<and> decode_run_row C row = Inr run)"

definition stored_newest :: "codec \<Rightarrow> Database \<Rightarrow> JobId \<Rightarrow> Run \<Rightarrow> bool" where
  "stored_newest C db job run =
     (\<exists>row \<in> set (db_runs db). rr_job_id row = job_text job \<and> decode_run_row C row = Inr run
        \<and> (\<forall>r \<in> set (db_runs db). rr_job_id r = job_text job \<longrightarrow> rr_sequence r \<le> rr_sequence row))"

lemma last_sort_key_max:
  assumes "x \<in> set xs"
  shows "last (sort_key f xs) \<in> set xs" "f x \<le> f (last (sort_key f xs))"
proof -
  let ?s = "sort_key f xs"
  have ne: "?s \<noteq> []" using assms by (metis empty_iff list.set(1) set_sort)
  then show "last ?s \<in> set xs" using last_in_set [OF ne] by simp
  have "x \<in> set (butlast ?s @ [last ?s])"
    using assms ne by (simp add: append_butlast_last_id)
  moreover have "sorted (map f (butlast ?s @ [last ?s]))"
    using ne by (simp add: append_butlast_last_id)
  ultimately show "f x \<le> f (last ?s)"
    by (auto simp: sorted_append)
qed

interpretation job_outputs: output_store "stored_match C db" "stored_newest C db" "job_output_store C fault db"
  for C :: codec and fault :: "nat \<Rightarrow> nat \<Rightarrow> StoreError option" and db :: Database
proof unfold_locales
  fix p n rs r
  let ?rows = "sort_key rr_id (filter (\<lambda>row. take (length p) (rr_id row) = map to_ascii_lowercase p) (db_runs db))"
  assume "oq_find_runs (job_output_store C fault db) p n = Inr rs" and short: "length rs < unat n"
  then have l: "list_all2 (\<lambda>row x. decode_run_row C row = Inr x) (take (unat n) ?rows) rs"
    by (auto simp: job_output_store_def output_find_runs_def Let_def result_simps dest!: query_eq_Inr split: if_splits)
  moreover have "take (unat n) ?rows = ?rows"
    using list_all2_lengthD [OF l] short by simp
  ultimately have l: "list_all2 (\<lambda>row x. decode_run_row C row = Inr x) ?rows rs" by simp
  show "stored_match C db p r \<longleftrightarrow> r \<in> set rs"
    using list_all2_member [OF l] by (force simp: stored_match_def)
next
  fix j r
  let ?rows = "filter (\<lambda>row. rr_job_id row = job_text j) (db_runs db)"
  assume "oq_latest_run (job_output_store C fault db) j = Inr (Some r)"
  then obtain row ys where "rev (sort_key rr_sequence ?rows) = row # ys" and row: "decode_run_row C row = Inr r"
    by (cases "rev (sort_key rr_sequence ?rows)")
      (auto simp: job_output_store_def output_latest_run_def query_first_def result_simps)
  then have "sort_key rr_sequence ?rows = rev ys @ [row]"
    by (metis rev.simps(2) rev_rev_ident)
  then have last: "last (sort_key rr_sequence ?rows) = row" and "row \<in> set (sort_key rr_sequence ?rows)"
    by (metis last_snoc, simp)
  then have "row \<in> set ?rows" by simp
  then show "stored_newest C db j r"
    using last_sort_key_max(2) [of _ ?rows rr_sequence] row
    unfolding stored_newest_def last by (intro bexI [of _ row]) auto
qed

section \<open>Properties\<close>

text \<open>A stream that was read from a regular file below the runs directory.\<close>

definition log_stream :: "file_system \<Rightarrow> string \<Rightarrow> string \<Rightarrow> string option \<Rightarrow> bool \<Rightarrow> RunStream \<Rightarrow> bool" where
  "log_stream fs dir root stored was_truncated s =
     (\<exists>p q. stored = Some p \<and> fs_canonicalize fs (path_join dir p) = Some q \<and> path_starts_with q root
        \<and> fs_is_file fs q = Some True \<and> fs_contents fs q = Inr (stream_content s) \<and> stream_truncated s = was_truncated)"

lemma read_stream_eq_Inr:
  "read_stream fs p root t = Inr s \<longleftrightarrow> path_starts_with p root \<and> fs_is_file fs p = Some True
     \<and> fs_contents fs p = Inr (stream_content s) \<and> stream_truncated s = t"
  by (cases s) (auto simp: read_stream_def result_simps split: option.splits)

lemma read_truncation_flag_eq_Inr:
  "read_truncation_flag fault db column i = Inr b \<longleftrightarrow>
     fault 0 = None \<and> (\<exists>row. run_row_of db i = Some row \<and> b = column row)"
  by (auto simp: read_truncation_flag_def run_row_of_def result_simps statement_def ok_or_def split: option.splits)

text \<open>
  C30. The output command shows the run that was asked for, and nothing outside the runs
  directory.  The run is the only stored run with the given prefix; if there is none, it is the
  latest run of the only visible job with that prefix.  Each stream is the contents of a regular
  file whose resolved path lies below the resolved runs directory, with the truncation flag that
  was recorded for it; only a run that ended before its logs existed has empty streams.
\<close>

theorem run_output_faithful:
  assumes "read_run_output (job_output_store C fault db) fs dir prefix = Inr out" "recoverable db"
  shows "\<exists>run. ro_run_id out = run_id run \<and> ro_job_id out = run_job_id run \<and> ro_state out = run_state run
    \<and> ro_outcome out = run_outcome run
    \<and> (stored_match C db prefix run \<and> (\<forall>r. stored_match C db prefix r \<longrightarrow> r = run)
       \<or> (\<forall>r. \<not> stored_match C db prefix r) \<and> (\<exists>job :: Job. stored_newest C db (job_id job) run
            \<and> (\<forall>i. visible db i \<noteq> None \<longrightarrow> (id_matches prefix i \<longleftrightarrow> i = job_id job))))
    \<and> (if run_stdout_path run = None
       then RunState_is_terminal (run_state run) \<and> ro_stdout out = RunStream_empty \<and> ro_stderr out = RunStream_empty
       else \<exists>root row. fs_canonicalize fs (path_join dir ''runs'') = Some root \<and> run_row_of db (run_id run) = Some row
         \<and> log_stream fs dir root (run_stdout_path run) (rr_stdout_truncated row) (ro_stdout out)
         \<and> log_stream fs dir root (run_stderr_path run) (rr_stderr_truncated row) (ro_stderr out))"
proof -
  let ?store = "job_output_store C fault db"
  obtain run where v: "output_prefix prefix" and run: "select_run ?store prefix = Inr run"
    using assms(1) by (auto simp: read_run_output_def result_simps split: if_splits)
  have ids: "ro_run_id out = run_id run \<and> ro_job_id out = run_job_id run \<and> ro_state out = run_state run
    \<and> ro_outcome out = run_outcome run"
    using assms(1) v run by (auto simp: read_run_output_def result_simps Let_def split: if_splits option.splits)
  have streams: "if run_stdout_path run = None
       then RunState_is_terminal (run_state run) \<and> ro_stdout out = RunStream_empty \<and> ro_stderr out = RunStream_empty
       else \<exists>root row. fs_canonicalize fs (path_join dir ''runs'') = Some root \<and> run_row_of db (run_id run) = Some row
         \<and> log_stream fs dir root (run_stdout_path run) (rr_stdout_truncated row) (ro_stdout out)
         \<and> log_stream fs dir root (run_stderr_path run) (rr_stderr_truncated row) (ro_stderr out)"
    using assms(1) v run
    by (auto simp: read_run_output_def result_simps Let_def resolve_log_def read_stream_eq_Inr log_stream_def ok_or_def
        job_output_store_def read_truncation_flag_eq_Inr split: if_splits option.splits)
  have resolved: "visible db i \<noteq> None \<longrightarrow> (id_matches prefix i \<longleftrightarrow> i = job_id job)"
    if "oq_find_jobs ?store prefix 2 = Inr [job]" for job i
    using that management.find_sound [OF assms(2), of C "fault 2" prefix 2 "[job]" job]
      management.find_complete [OF assms(2), of C "fault 2" prefix 2 "[job]" i]
    by (auto simp: job_output_store_def)
  have "stored_match C db prefix run \<and> (\<forall>r. stored_match C db prefix r \<longrightarrow> r = run)
       \<or> (\<forall>r. \<not> stored_match C db prefix r) \<and> (\<exists>job :: Job. stored_newest C db (job_id job) run
            \<and> (\<forall>i. visible db i \<noteq> None \<longrightarrow> (id_matches prefix i \<longleftrightarrow> i = job_id job)))"
    using resolved job_outputs.select_run_exact [OF run] by blast
  with ids streams show ?thesis
    by (intro exI [of _ run] conjI) simp_all
qed

definition sample_files :: file_system where
  "sample_files =
     \<lparr> fs_canonicalize = (\<lambda>p. Some (if p = ''/s/runs'' then ''/s'' else p)), fs_is_file = (\<lambda>_. Some True),
       fs_contents = (\<lambda>p. Inr [1, 2, 3]) \<rparr>"

lemma sample_run_text: "take (Suc 0) (run_text (RunId 2)) = ''0''" "to_ascii_lowercase (CHR ''0'') = CHR ''0''"
  by code_simp+

lemma sample_output:
  fixes db :: Database
  assumes "db_runs db = [row]" "rr_id row = run_text (RunId 2)" "decode_run_row sample_codec row = Inr run"
    and "run_id run = RunId 2" "run_stdout_path run = Some ''out''" "run_stderr_path run = Some ''err''"
  shows "\<exists>out. read_run_output (job_output_store sample_codec (\<lambda>_ _. None) db) sample_files ''/s'' ''0'' = Inr out"
proof -
  have "select_run (job_output_store sample_codec (\<lambda>_ _. None) db) ''0'' = Inr run"
    using assms by (simp add: select_run_def job_output_store_def output_find_runs_def sample_run_text query_def statement_def)
  moreover have "path_starts_with ''/s/out'' ''/s''" "path_starts_with ''/s/err'' ''/s''"
    by (simp_all add: path_starts_with_def path_components_def path_is_absolute_def segment_component_def List.map_filter_def)
  ultimately show ?thesis
    using assms(1,2,4-6)
    by (simp add: read_run_output_def output_prefix_def is_ascii_alphanumeric_def is_ascii_digit_def byte_def resolve_log_def
        path_join_def path_is_absolute_def sample_files_def read_stream_def job_output_store_def read_truncation_flag_def
        statement_def)
qed

theorem run_output_faithful_witness:
  "\<exists>db out row. read_run_output (job_output_store sample_codec (\<lambda>_ _. None) db) sample_files ''/s'' ''0'' = Inr out
     \<and> recoverable db \<and> run_row_of db (ro_run_id out) = Some row
     \<and> log_stream sample_files ''/s'' ''/s'' (Some ''out'') (rr_stdout_truncated row) (ro_stdout out)"
proof -
  obtain db0 :: Database and run row where s: "db_runs db0 = [row]" "rr_id row = run_text (RunId 2)"
    "decode_run_row sample_codec row = Inr run" "run_id run = RunId 2" "run_state run = RunState.Starting"
    "run_created_at run = 7" "run_table db0" "rr_job_id row = job_text (job_id sample_job)"
    by (rule sample_run_row) blast
  let ?row = "sample_started_row row"
  let ?db = "\<lparr> db_jobs = [], db_runs = [?row], db_transitions = [] \<rparr>"
  have d: "decode_run_row sample_codec ?row = Inr (sample_started run)"
    by (rule sample_started_decodes(2) [OF s(3,5,6)])
  have "\<exists>st. ''running'' = encode_run_state st"
    by (rule exI [of _ RunState.Running]) simp
  with s have rec: "recoverable ?db"
    by (auto simp: recoverable_def job_table_def job_keys_def run_table_def canonical_ids_def running_columns_def)
  obtain out where out: "read_run_output (job_output_store sample_codec (\<lambda>_ _. None) ?db) sample_files ''/s'' ''0'' = Inr out"
    using sample_output [of ?db ?row "sample_started run"] d s(2,4) by (auto simp: running_columns_def)
  from run_output_faithful [OF out rec] obtain r where
    r: "ro_run_id out = run_id r" "stored_match sample_codec ?db ''0'' r \<or> (\<forall>r. \<not> stored_match sample_codec ?db ''0'' r)"
    and st: "if run_stdout_path r = None
       then RunState_is_terminal (run_state r) \<and> ro_stdout out = RunStream_empty \<and> ro_stderr out = RunStream_empty
       else \<exists>root row. fs_canonicalize sample_files (path_join ''/s'' ''runs'') = Some root \<and> run_row_of ?db (run_id r) = Some row
         \<and> log_stream sample_files ''/s'' root (run_stdout_path r) (rr_stdout_truncated row) (ro_stdout out)
         \<and> log_stream sample_files ''/s'' root (run_stderr_path r) (rr_stderr_truncated row) (ro_stderr out)"
    by blast
  have "stored_match sample_codec ?db ''0'' (sample_started run)"
    using d s(2) by (simp add: stored_match_def sample_run_text running_columns_def)
  with r(2) have "stored_match sample_codec ?db ''0'' r" by blast
  then have "r = sample_started run"
    using d by (auto simp: stored_match_def)
  with st have "\<exists>row. run_row_of ?db (run_id r) = Some row
      \<and> log_stream sample_files ''/s'' ''/s'' (Some ''out'') (rr_stdout_truncated row) (ro_stdout out)"
    by (auto simp: path_join_def path_is_absolute_def sample_files_def)
  with out rec r(1) show ?thesis
    by (intro exI [of _ ?db] exI [of _ out]) auto
qed

end
