(* ===== verification/Utf8_Text.thy ===== *)
theory Utf8_Text
  imports Prelude
begin

text \<open>
  Text from bytes that need not be UTF-8 (\<open>String::from_utf8_lossy\<close>, \<open>Path::to_string_lossy\<close>,
  \<open>Path::display\<close>): the characters of a byte sequence, each as its encoding, with one replacement
  character for every maximal prefix of a character that is cut short or malformed.
\<close>

section \<open>The decoder\<close>

definition byte_at :: "string \<Rightarrow> nat \<Rightarrow> nat" where
  "byte_at s i = (if i < length s then byte (s ! i) else 0)"

definition cont_at :: "string \<Rightarrow> nat \<Rightarrow> bool" where
  "cont_at s i = (128 \<le> byte_at s i \<and> byte_at s i < 192)"

text \<open>Whether a character starts the sequence, and the number of bytes taken by it or by the malformed prefix.\<close>

definition char_head :: "string \<Rightarrow> bool \<times> nat" where
  "char_head s =
     (let a = byte_at s 0; b = byte_at s 1 in
      if a < 128 then (True, 1)
      else if 194 \<le> a \<and> a \<le> 223 then (if cont_at s 1 then (True, 2) else (False, 1))
      else if 224 \<le> a \<and> a \<le> 239 then
        (if cont_at s 1 \<and> (a = 224 \<longrightarrow> 160 \<le> b) \<and> (a = 237 \<longrightarrow> b < 160)
         then (if cont_at s 2 then (True, 3) else (False, 2)) else (False, 1))
      else if 240 \<le> a \<and> a \<le> 244 then
        (if cont_at s 1 \<and> (a = 240 \<longrightarrow> 144 \<le> b) \<and> (a = 244 \<longrightarrow> b < 144)
         then (if cont_at s 2 then (if cont_at s 3 then (True, 4) else (False, 3)) else (False, 2)) else (False, 1))
      else (False, 1))"

lemma char_head_positive: "0 < snd (char_head s)"
  by (simp add: char_head_def Let_def)

definition REPLACEMENT_CHARACTER :: string where
  "REPLACEMENT_CHARACTER = [CHR 0xEF, CHR 0xBF, CHR 0xBD]"

function lossy_chars :: "string \<Rightarrow> string list" where
  "lossy_chars s =
     (if s = [] then []
      else (if fst (char_head s) then take (snd (char_head s)) s else REPLACEMENT_CHARACTER)
        # lossy_chars (drop (snd (char_head s)) s))"
  by pat_completeness auto
termination
  by (relation "measure length") (use char_head_positive in auto)

declare lossy_chars.simps [simp del]

definition from_utf8_lossy :: "string \<Rightarrow> string" where
  "from_utf8_lossy s = concat (lossy_chars s)"

text \<open>The text of a byte sequence.\<close>

definition bytes_text :: "u8 list \<Rightarrow> string" where
  "bytes_text bytes = map (\<lambda>b. char_of (unat b)) bytes"

section \<open>Characters\<close>

text \<open>The encoding of one character.\<close>

definition is_char :: "string \<Rightarrow> bool" where
  "is_char x \<longleftrightarrow> x \<noteq> [] \<and> char_head x = (True, length x)"

lemma byte_at_simps [simp]:
  "byte_at [] i = 0"
  "byte_at (a # s) 0 = byte a"
  "byte_at (a # s) (Suc i) = byte_at s i"
  "byte_at (a # s) 1 = byte_at s 0"
  "byte_at (a # s) 2 = byte_at s 1"
  "byte_at (a # s) 3 = byte_at s 2"
  by (simp_all add: byte_at_def numeral_2_eq_2 numeral_3_eq_3)

lemma cont_at_simps [simp]:
  "\<not> cont_at [] i"
  "cont_at (a # s) 0 = is_cont a"
  "cont_at (a # s) (Suc i) = cont_at s i"
  "cont_at (a # s) 1 = cont_at s 0"
  "cont_at (a # s) 2 = cont_at s 1"
  "cont_at (a # s) 3 = cont_at s 2"
  by (simp_all add: cont_at_def is_cont_def)

lemma lead_cases [case_names ascii stray two three four beyond]:
  fixes a :: char
  obtains "byte a < 128" | "\<not> byte a < 128" "byte a < 194" | "\<not> byte a < 194" "byte a \<le> 223"
    | "\<not> byte a \<le> 223" "byte a \<le> 239" | "\<not> byte a \<le> 239" "byte a \<le> 244" | "\<not> byte a \<le> 244"
  by blast

lemma char_head_valid:
  assumes "s \<noteq> []"
  shows "utf8_valid s \<longleftrightarrow> fst (char_head s) \<and> utf8_valid (drop (snd (char_head s)) s)"
proof -
  consider (1) a where "s = [a]" | (2) a b where "s = [a, b]" | (3) a b c where "s = [a, b, c]"
    | (4) a b c d r where "s = a # b # c # d # r"
    using assms by (metis list.exhaust)
  then show ?thesis
    by cases (rule lead_cases [of "hd s"]; hypsubst; subst utf8_valid.simps(2); auto simp: char_head_def Let_def simp del: utf8_valid.simps(2) split: if_splits)+
qed

lemma char_head_append: "is_char x \<Longrightarrow> char_head (x @ s) = (True, length x)"
proof -
  assume x: "is_char x"
  then consider (1) a where "x = [a]" | (2) a b where "x = [a, b]" | (3) a b c where "x = [a, b, c]"
    | (4) a b c d where "x = [a, b, c, d]" | (5) a b c d e r where "x = a # b # c # d # e # r"
    by (metis is_char_def list.exhaust)
  then show ?thesis
    using x by cases (auto simp: is_char_def char_head_def Let_def split: if_splits)
qed

lemma char_head_is_char:
  assumes "s \<noteq> []" "fst (char_head s)"
  shows "is_char (take (snd (char_head s)) s) \<and> snd (char_head s) \<le> length s"
proof -
  consider (1) a where "s = [a]" | (2) a b where "s = [a, b]" | (3) a b c where "s = [a, b, c]"
    | (4) a b c d r where "s = a # b # c # d # r"
    using assms by (metis list.exhaust)
  then show ?thesis
    using assms(2) by cases (rule lead_cases [of "hd s"]; simp add: is_char_def char_head_def Let_def split: if_splits)+
qed

lemma is_char_replacement: "is_char REPLACEMENT_CHARACTER"
  by (simp add: is_char_def REPLACEMENT_CHARACTER_def char_head_def byte_def is_cont_def)

lemma lossy_chars_are_chars: "list_all is_char (lossy_chars s)"
  by (induction s rule: lossy_chars.induct)
    (subst lossy_chars.simps, use char_head_is_char is_char_replacement in auto)

lemma lossy_chars_concat: "list_all is_char xs \<Longrightarrow> lossy_chars (concat xs) = xs"
proof (induction xs)
  case (Cons x xs)
  then have "char_head (x @ concat xs) = (True, length x)" "x \<noteq> []" by (auto simp: char_head_append is_char_def)
  with Cons show ?case by (subst lossy_chars.simps) auto
qed (simp add: lossy_chars.simps)

lemma utf8_valid_concat: "list_all is_char xs \<Longrightarrow> utf8_valid (concat xs)"
proof (induction xs)
  case (Cons x xs)
  then have "char_head (x @ concat xs) = (True, length x)" "x \<noteq> []" by (auto simp: char_head_append is_char_def)
  with Cons char_head_valid [of "x @ concat xs"] show ?case by simp
qed simp

lemma from_utf8_lossy_valid [simp]: "utf8_valid (from_utf8_lossy s)"
  by (simp add: from_utf8_lossy_def utf8_valid_concat lossy_chars_are_chars)

lemma from_utf8_lossy_id: "utf8_valid s \<Longrightarrow> from_utf8_lossy s = s"
proof (induction s rule: lossy_chars.induct)
  case (1 s)
  show ?case
  proof (cases "s = []")
    case False
    with 1 char_head_valid [of s] show ?thesis
      by (subst from_utf8_lossy_def, subst lossy_chars.simps) (simp add: from_utf8_lossy_def [symmetric])
  qed (simp add: from_utf8_lossy_def lossy_chars.simps)
qed

end
