(* ===== verification/Config.thy ===== *)
theory Config
  imports Duration Recurrence Execution Utf8_Text
begin

text \<open>
  Configuration (\<open>src/infrastructure/config/mod.rs\<close>): defaults, the TOML file, the \<open>ATX_\<close>
  environment variables and the command line, in this order, later layers winning field by
  field.  The TOML reader (\<open>toml\<close>) and the time-zone database (\<open>zone\<close>) are parameters, as are
  the bytes of the file and of the environment.
\<close>

section \<open>Data\<close>

definition DEFAULT_CANCEL_GRACE :: string where
  "DEFAULT_CANCEL_GRACE = ''10s''"

definition DEFAULT_MAX_LOG_BYTES :: u64 where
  "DEFAULT_MAX_LOG_BYTES = 10 * 1024 * 1024"

definition MAX_DAYS :: u16 where
  "MAX_DAYS = 3650"

definition MAX_LOG_BYTES :: u64 where
  "MAX_LOG_BYTES = 1024 * 1024 * 1024"

datatype ColorMode = Auto | Always | Never

datatype Verbosity = Quiet | Normal | Verbose

datatype ConfigError =
    Toml string
  | Read string
  | UnknownEnvironment string
  | InvalidEnvironment string
  | InvalidField string

record RawConfig =
  raw_default_timezone :: "string option"
  raw_default_runtime :: "RuntimeTier option"
  raw_default_shell :: "string option"
  raw_cancel_grace :: "string option"
  raw_history_days :: "u16 option"
  raw_terminal_job_days :: "u16 option"
  raw_max_log_bytes_per_stream :: "u64 option"
  raw_color :: "ColorMode option"
  raw_verbosity :: "Verbosity option"

text \<open>The overrides have the same optional fields, so they are a \<open>RawConfig\<close> as well.\<close>

type_synonym ConfigOverrides = RawConfig

definition RawConfig_default :: RawConfig where
  "RawConfig_default =
     \<lparr> raw_default_timezone = None, raw_default_runtime = None, raw_default_shell = None, raw_cancel_grace = None,
       raw_history_days = None, raw_terminal_job_days = None, raw_max_log_bytes_per_stream = None,
       raw_color = None, raw_verbosity = None \<rparr>"

record Config =
  default_timezone :: string
  default_runtime :: RuntimeTier
  default_shell :: string
  cancel_grace :: DurationSeconds
  config_history_days :: u16
  config_terminal_job_days :: u16
  max_log_bytes_per_stream :: u64
  config_color :: ColorMode
  config_verbosity :: Verbosity

section \<open>Layers\<close>

definition replace_some :: "'a option \<Rightarrow> 'a option \<Rightarrow> 'a option" where
  "replace_some own other = (if other \<noteq> None then other else own)"

definition RawConfig_apply :: "RawConfig \<Rightarrow> RawConfig \<Rightarrow> RawConfig" where
  "RawConfig_apply self other =
     \<lparr> raw_default_timezone = replace_some (raw_default_timezone self) (raw_default_timezone other),
       raw_default_runtime = replace_some (raw_default_runtime self) (raw_default_runtime other),
       raw_default_shell = replace_some (raw_default_shell self) (raw_default_shell other),
       raw_cancel_grace = replace_some (raw_cancel_grace self) (raw_cancel_grace other),
       raw_history_days = replace_some (raw_history_days self) (raw_history_days other),
       raw_terminal_job_days = replace_some (raw_terminal_job_days self) (raw_terminal_job_days other),
       raw_max_log_bytes_per_stream =
         replace_some (raw_max_log_bytes_per_stream self) (raw_max_log_bytes_per_stream other),
       raw_color = replace_some (raw_color self) (raw_color other),
       raw_verbosity = replace_some (raw_verbosity self) (raw_verbosity other) \<rparr>"

definition parse_env :: "string \<Rightarrow> string \<Rightarrow> (ConfigError, 'w::len word) result" where
  "parse_env value key = ok_or (InvalidEnvironment key) (parse_unsigned value)"

definition parse_runtime :: "string \<Rightarrow> string \<Rightarrow> (ConfigError, RuntimeTier) result" where
  "parse_runtime value key =
     (if value = ''session'' then Inr RuntimeTier.Session
      else if value = ''durable'' then Inr RuntimeTier.Durable
      else Inl (InvalidEnvironment key))"

definition parse_color :: "string \<Rightarrow> string \<Rightarrow> (ConfigError, ColorMode) result" where
  "parse_color value key =
     (if value = ''auto'' then Inr Auto
      else if value = ''always'' then Inr Always
      else if value = ''never'' then Inr Never
      else Inl (InvalidEnvironment key))"

definition parse_verbosity :: "string \<Rightarrow> string \<Rightarrow> (ConfigError, Verbosity) result" where
  "parse_verbosity value key =
     (if value = ''quiet'' then Inr Quiet
      else if value = ''normal'' then Inr Verbosity.Normal
      else if value = ''verbose'' then Inr Verbose
      else Inl (InvalidEnvironment key))"

definition is_atx_key :: "string \<Rightarrow> bool" where
  "is_atx_key key = (take 4 key = ''ATX_'')"

definition environment_entry :: "string \<Rightarrow> string \<Rightarrow> RawConfig \<Rightarrow> (ConfigError, RawConfig) result" where
  "environment_entry key value raw =
     (if key = ''ATX_DEFAULT_TIMEZONE'' then Inr (raw\<lparr>raw_default_timezone := Some value\<rparr>)
      else if key = ''ATX_DEFAULT_RUNTIME''
      then map_ok (\<lambda>v. raw\<lparr>raw_default_runtime := Some v\<rparr>) (parse_runtime value key)
      else if key = ''ATX_DEFAULT_SHELL'' then Inr (raw\<lparr>raw_default_shell := Some value\<rparr>)
      else if key = ''ATX_CANCEL_GRACE'' then Inr (raw\<lparr>raw_cancel_grace := Some value\<rparr>)
      else if key = ''ATX_HISTORY_DAYS''
      then map_ok (\<lambda>v. raw\<lparr>raw_history_days := Some v\<rparr>) (parse_env value key)
      else if key = ''ATX_TERMINAL_JOB_DAYS''
      then map_ok (\<lambda>v. raw\<lparr>raw_terminal_job_days := Some v\<rparr>) (parse_env value key)
      else if key = ''ATX_MAX_LOG_BYTES_PER_STREAM''
      then map_ok (\<lambda>v. raw\<lparr>raw_max_log_bytes_per_stream := Some v\<rparr>) (parse_env value key)
      else if key = ''ATX_COLOR'' then map_ok (\<lambda>v. raw\<lparr>raw_color := Some v\<rparr>) (parse_color value key)
      else if key = ''ATX_VERBOSITY'' then map_ok (\<lambda>v. raw\<lparr>raw_verbosity := Some v\<rparr>) (parse_verbosity value key)
      else if is_atx_key key then Inl (UnknownEnvironment key)
      else Inr raw)"

fun environment_loop :: "(string \<times> string) list \<Rightarrow> RawConfig \<Rightarrow> (ConfigError, RawConfig) result" where
  "environment_loop [] raw = Inr raw"
| "environment_loop ((key, value) # rest) raw =
     try_bind (environment_entry key value raw) (environment_loop rest)"

definition environment_layer :: "(string \<times> string) list \<Rightarrow> (ConfigError, RawConfig) result" where
  "environment_layer vars = environment_loop vars RawConfig_default"

section \<open>Validation and loading\<close>

definition checked_days :: "u16 \<Rightarrow> (ConfigError, u16) result" where
  "checked_days value =
     (if \<not> (1 \<le> value \<and> value \<le> MAX_DAYS) then Inl (InvalidField ''retention_days'') else Inr value)"

definition unwrap_or :: "'a option \<Rightarrow> 'a \<Rightarrow> 'a" where
  "unwrap_or x d = (case x of None \<Rightarrow> d | Some v \<Rightarrow> v)"

definition validate :: "(string \<Rightarrow> bool) \<Rightarrow> RawConfig \<Rightarrow> (ConfigError, Config) result" where
  "validate zone raw =
     (let timezone = unwrap_or (raw_default_timezone raw) ''local''
      in if timezone \<noteq> ''local'' \<and> \<not> zone timezone then Inl (InvalidField ''default_timezone'')
      else
     (let shell = unwrap_or (raw_default_shell raw) ''/bin/sh''
      in if \<not> is_absolute shell \<or> contains_nul shell then Inl (InvalidField ''default_shell'')
      else
     try_bind (map_err (\<lambda>_. InvalidField ''cancel_grace'')
       (DurationSeconds_from_str (unwrap_or (raw_cancel_grace raw) DEFAULT_CANCEL_GRACE))) (\<lambda>grace.
     try_bind (checked_days (unwrap_or (raw_history_days raw) 30)) (\<lambda>history.
     try_bind (checked_days (unwrap_or (raw_terminal_job_days raw) 30)) (\<lambda>terminal.
     (let bytes = unwrap_or (raw_max_log_bytes_per_stream raw) DEFAULT_MAX_LOG_BYTES
      in if \<not> (1 \<le> bytes \<and> bytes \<le> MAX_LOG_BYTES) then Inl (InvalidField ''max_log_bytes_per_stream'')
      else Inr
        \<lparr> default_timezone = timezone, default_runtime = unwrap_or (raw_default_runtime raw) RuntimeTier.Session,
          default_shell = shell, cancel_grace = grace, config_history_days = history,
          config_terminal_job_days = terminal, max_log_bytes_per_stream = bytes,
          config_color = unwrap_or (raw_color raw) Auto,
          config_verbosity = unwrap_or (raw_verbosity raw) Verbosity.Normal \<rparr>))))))"

definition load_config ::
  "(string \<Rightarrow> (string, RawConfig) result) \<Rightarrow> (string \<Rightarrow> bool) \<Rightarrow> string option \<Rightarrow> (string \<times> string) list \<Rightarrow>
     ConfigOverrides \<Rightarrow> (ConfigError, Config) result" where
  "load_config toml zone file vars overrides =
     try_bind (case file of None \<Rightarrow> Inr RawConfig_default | Some text \<Rightarrow> map_err Toml (toml text)) (\<lambda>raw.
     try_bind (environment_layer vars) (\<lambda>env.
     validate zone (RawConfig_apply (RawConfig_apply raw env) overrides)))"

text \<open>Reading the file: \<open>None\<close> when it does not exist, an error otherwise.\<close>

type_synonym file_read = "(string, string option) result"

fun process_environment ::
  "(string \<times> string) list \<Rightarrow> (ConfigError, (string \<times> string) list) result" where
  "process_environment [] = Inr []"
| "process_environment ((key, value) # vars) =
     (if \<not> is_atx_key key then process_environment vars
      else if \<not> utf8_valid key
      then Inl (Read (''environment variable name is not valid UTF-8: '' @ from_utf8_lossy key))
      else if \<not> utf8_valid value
      then Inl (Read (''environment variable '' @ key @ '' is not valid UTF-8''))
      else map_ok (Cons (key, value)) (process_environment vars))"

definition load_process_config ::
  "(string \<Rightarrow> (string, RawConfig) result) \<Rightarrow> (string \<Rightarrow> bool) \<Rightarrow> string \<Rightarrow> file_read \<Rightarrow>
     (string \<times> string) list \<Rightarrow> (ConfigError, Config) result" where
  "load_process_config toml zone config_path contents vars =
     try_bind (map_err (\<lambda>e. Read (''cannot read '' @ from_utf8_lossy config_path @ '': '' @ e)) contents) (\<lambda>file.
     try_bind (process_environment vars) (\<lambda>vars.
     load_config toml zone file vars RawConfig_default))"


section \<open>Precedence\<close>

text \<open>The first layer that has a value wins: command line, environment, file, default.\<close>

definition layered :: "'a option \<Rightarrow> 'a option \<Rightarrow> 'a option \<Rightarrow> 'a \<Rightarrow> 'a" where
  "layered overrides env file dflt = unwrap_or overrides (unwrap_or env (unwrap_or file dflt))"

text \<open>The value of an environment variable, read by \<open>parse\<close>; a later entry wins.\<close>

definition env_value :: "(string \<Rightarrow> string \<Rightarrow> (ConfigError, 'a) result) \<Rightarrow> (string \<times> string) list \<Rightarrow> string \<Rightarrow> 'a option" where
  "env_value parse vars key =
     (case map_of (rev vars) key of None \<Rightarrow> None
      | Some v \<Rightarrow> (case parse v key of Inl _ \<Rightarrow> None | Inr x \<Rightarrow> Some x))"

abbreviation as_is :: "string \<Rightarrow> string \<Rightarrow> (ConfigError, string) result" where
  "as_is v k \<equiv> Inr v"

definition known_keys :: "string list" where
  "known_keys =
     [''ATX_DEFAULT_TIMEZONE'', ''ATX_DEFAULT_RUNTIME'', ''ATX_DEFAULT_SHELL'', ''ATX_CANCEL_GRACE'', ''ATX_HISTORY_DAYS'',
      ''ATX_TERMINAL_JOB_DAYS'', ''ATX_MAX_LOG_BYTES_PER_STREAM'', ''ATX_COLOR'', ''ATX_VERBOSITY'']"

lemma unwrap_or_simps [simp]: "unwrap_or None d = d" "unwrap_or (Some v) d = v"
  by (simp_all add: unwrap_or_def)

lemma unwrap_or_replace_some [simp]: "unwrap_or (replace_some own other) d = unwrap_or other (unwrap_or own d)"
  by (cases other) (auto simp: replace_some_def)

lemma environment_loop_field:
  assumes step: "\<And>k v raw raw'. environment_entry k v raw = Inr raw' \<Longrightarrow>
      field raw' = (if k = key then (case parse v key of Inl _ \<Rightarrow> None | Inr x \<Rightarrow> Some x) else field raw)"
    and loop: "environment_loop vars raw = Inr raw'"
  shows "field raw' = (case map_of (rev vars) key of None \<Rightarrow> field raw
      | Some v \<Rightarrow> (case parse v key of Inl _ \<Rightarrow> None | Inr x \<Rightarrow> Some x))"
  using loop
proof (induction vars arbitrary: raw)
  case (Cons kv vars)
  obtain k v where kv: "kv = (k, v)" by fastforce
  with Cons.prems obtain raw1 where 1: "environment_entry k v raw = Inr raw1" "environment_loop vars raw1 = Inr raw'"
    by (auto simp: try_bind_eq_Inr)
  from Cons.IH [OF 1(2)] step [OF 1(1)] show ?case
    by (auto simp: kv map_add_def split: option.splits)
qed simp

lemma environment_loop_known:
  "environment_loop vars raw = Inr raw' \<Longrightarrow> k \<in> fst ` set vars \<Longrightarrow> is_atx_key k \<Longrightarrow> k \<in> set known_keys"
proof (induction vars raw rule: environment_loop.induct)
  case (2 key v rest raw)
  then show ?case
    by (auto simp: try_bind_eq_Inr environment_entry_def known_keys_def split: if_splits)
qed simp

lemma environment_layer_field:
  assumes "environment_layer vars = Inr env"
    and "\<And>k v raw raw'. environment_entry k v raw = Inr raw' \<Longrightarrow>
      field raw' = (if k = key then (case parse v key of Inl _ \<Rightarrow> None | Inr x \<Rightarrow> Some x) else field raw)"
    and "field RawConfig_default = None"
  shows "field env = env_value parse vars key"
  using environment_loop_field [where field = field and parse = parse, OF assms(2) assms(1) [unfolded environment_layer_def]] assms(3)
  by (simp add: env_value_def split: option.splits)

lemma environment_layer_fields:
  assumes "environment_layer vars = Inr env"
  shows "raw_default_timezone env = env_value as_is vars ''ATX_DEFAULT_TIMEZONE''"
    "raw_default_runtime env = env_value parse_runtime vars ''ATX_DEFAULT_RUNTIME''"
    "raw_default_shell env = env_value as_is vars ''ATX_DEFAULT_SHELL''"
    "raw_cancel_grace env = env_value as_is vars ''ATX_CANCEL_GRACE''"
    "raw_history_days env = env_value parse_env vars ''ATX_HISTORY_DAYS''"
    "raw_terminal_job_days env = env_value parse_env vars ''ATX_TERMINAL_JOB_DAYS''"
    "raw_max_log_bytes_per_stream env = env_value parse_env vars ''ATX_MAX_LOG_BYTES_PER_STREAM''"
    "raw_color env = env_value parse_color vars ''ATX_COLOR''"
    "raw_verbosity env = env_value parse_verbosity vars ''ATX_VERBOSITY''"
  by (rule environment_layer_field [OF assms];
      force simp: environment_entry_def map_ok_eq_Inr RawConfig_default_def split: if_splits)+

text \<open>
  Configuration layers take precedence field by field.  In a configuration that loads, every
  setting is the explicit command-line value if there is one, else the value of its environment
  variable, else the one in the file, else the default; a misspelt \<open>ATX_\<close> variable is never
  ignored; and the values are usable: a known time zone, an absolute shell, retention between 1
  and 3650 days and logs between 1 byte and 1 GiB.
\<close>

theorem config_precedence:
  assumes "load_config toml zone contents vars overrides = Inr config"
    and "(case contents of None \<Rightarrow> Inr RawConfig_default | Some text \<Rightarrow> toml text) = Inr file"
  shows "default_timezone config = layered (raw_default_timezone overrides)
        (env_value as_is vars ''ATX_DEFAULT_TIMEZONE'') (raw_default_timezone file) ''local''
    \<and> default_runtime config = layered (raw_default_runtime overrides)
        (env_value parse_runtime vars ''ATX_DEFAULT_RUNTIME'') (raw_default_runtime file) RuntimeTier.Session
    \<and> default_shell config = layered (raw_default_shell overrides)
        (env_value as_is vars ''ATX_DEFAULT_SHELL'') (raw_default_shell file) ''/bin/sh''
    \<and> Inr (cancel_grace config) = DurationSeconds_from_str (layered (raw_cancel_grace overrides)
        (env_value as_is vars ''ATX_CANCEL_GRACE'') (raw_cancel_grace file) ''10s'')
    \<and> config_history_days config = layered (raw_history_days overrides)
        (env_value parse_env vars ''ATX_HISTORY_DAYS'') (raw_history_days file) 30
    \<and> config_terminal_job_days config = layered (raw_terminal_job_days overrides)
        (env_value parse_env vars ''ATX_TERMINAL_JOB_DAYS'') (raw_terminal_job_days file) 30
    \<and> max_log_bytes_per_stream config = layered (raw_max_log_bytes_per_stream overrides)
        (env_value parse_env vars ''ATX_MAX_LOG_BYTES_PER_STREAM'') (raw_max_log_bytes_per_stream file) (10 * 1024 * 1024)
    \<and> config_color config = layered (raw_color overrides)
        (env_value parse_color vars ''ATX_COLOR'') (raw_color file) Auto
    \<and> config_verbosity config = layered (raw_verbosity overrides)
        (env_value parse_verbosity vars ''ATX_VERBOSITY'') (raw_verbosity file) Verbosity.Normal
    \<and> (\<forall>k \<in> fst ` set vars. is_atx_key k \<longrightarrow> k \<in> set known_keys)
    \<and> (default_timezone config = ''local'' \<or> zone (default_timezone config))
    \<and> is_absolute (default_shell config) \<and> \<not> contains_nul (default_shell config)
    \<and> config_history_days config \<in> {1..3650} \<and> config_terminal_job_days config \<in> {1..3650}
    \<and> max_log_bytes_per_stream config \<in> {1..1024 * 1024 * 1024}"
proof -
  obtain env where env: "environment_layer vars = Inr env"
    and v: "validate zone (RawConfig_apply (RawConfig_apply file env) overrides) = Inr config"
    using assms by (cases contents) (auto simp: load_config_def result_simps)
  have known: "\<forall>k \<in> fst ` set vars. is_atx_key k \<longrightarrow> k \<in> set known_keys"
    using env environment_loop_known by (auto simp: environment_layer_def)
  show ?thesis
    using v known
    by (auto simp: validate_def result_simps Let_def RawConfig_apply_def layered_def environment_layer_fields [OF env]
        checked_days_def MAX_DAYS_def MAX_LOG_BYTES_def DEFAULT_CANCEL_GRACE_def DEFAULT_MAX_LOG_BYTES_def split: if_splits)
qed

definition sample_toml :: "string \<Rightarrow> (string, RawConfig) result" where
  "sample_toml _ = Inr (RawConfig_default\<lparr>raw_history_days := Some 7, raw_color := Some Never\<rparr>)"

definition sample_vars :: "(string \<times> string) list" where
  "sample_vars = [(''PATH'', ''/bin''), (''ATX_HISTORY_DAYS'', ''8''), (''ATX_HISTORY_DAYS'', ''9'')]"

theorem config_precedence_witness:
  "\<exists>config. load_config sample_toml (\<lambda>_. False) (Some []) sample_vars RawConfig_default = Inr config
     \<and> config_history_days config = 9 \<and> config_color config = Never \<and> config_terminal_job_days config = 30"
proof -
  have layer: "environment_layer sample_vars = Inr (RawConfig_default\<lparr>raw_history_days := Some 9\<rparr>)"
    by (simp add: environment_layer_def sample_vars_def environment_entry_def is_atx_key_def parse_env_def parse_unsigned_def
        is_ascii_digit_def decimal_value_def digit_val_def byte_def RawConfig_default_def)
  have "DurationSeconds_to_string (DurationSeconds 10) = ''10s''"
    by (simp add: DurationSeconds_to_string_def show_nat.simps char_of_def bit_Suc_0_iff)
  then have grace: "DurationSeconds_from_str ''10s'' = Inr (DurationSeconds 10)"
    using from_str_to_string [of "DurationSeconds 10"] by (simp add: valid_duration_def)
  have "is_ok (load_config sample_toml (\<lambda>_. False) (Some []) sample_vars RawConfig_default)"
    by (simp add: load_config_def sample_toml_def layer validate_def RawConfig_apply_def replace_some_def RawConfig_default_def
        DEFAULT_CANCEL_GRACE_def grace checked_days_def MAX_DAYS_def MAX_LOG_BYTES_def DEFAULT_MAX_LOG_BYTES_def is_absolute_def contains_nul_def)
  then obtain config where c: "load_config sample_toml (\<lambda>_. False) (Some []) sample_vars RawConfig_default = Inr config"
    by (auto simp: is_ok_def split: sum.splits)
  have raw: "(case Some [] of None \<Rightarrow> Inr RawConfig_default | Some text \<Rightarrow> sample_toml text)
      = Inr (RawConfig_default\<lparr>raw_history_days := Some 7, raw_color := Some Never\<rparr>)"
    by (simp add: sample_toml_def)
  have env: "env_value parse_env sample_vars ''ATX_HISTORY_DAYS'' = Some (9 :: u16)"
    "env_value parse_env sample_vars ''ATX_TERMINAL_JOB_DAYS'' = (None :: u16 option)"
    "env_value parse_color sample_vars ''ATX_COLOR'' = None"
    using environment_layer_fields(5,6,8) [OF layer] by (simp_all add: RawConfig_default_def)
  from config_precedence [OF c raw] c show ?thesis
    by (simp add: env layered_def RawConfig_default_def)
qed

end
