(* ===== verification/Submit_Command.thy ===== *)
theory Submit_Command
  imports Calendar Config Management
begin

text \<open>
  The scheduling command (\<open>src/cli/dispatch.rs\<close>, options in \<open>src/cli/args.rs\<close>, exit codes in
  \<open>src/cli/exit.rs\<close>): from the parsed arguments to a stored job.

  The operating system is the environment of the command: directories, files, the process
  environment, the terminal, clocks, the service manager and the opening of the database.  The
  sources report every error as its display text; the model keeps the error itself.
\<close>

section \<open>Arguments\<close>

datatype DstArg = Reject | Earlier | Later

datatype MissedArg = Hold | RunLatest | Skip

datatype ColorArg = Auto | Always | Never

record GlobalArgs =
  g_json :: bool
  g_quiet :: bool
  g_verbose :: bool
  g_color :: "ColorArg option"

record ScheduleOptions =
  o_dry_run :: bool
  o_utc :: bool
  o_tz :: "string option"
  o_dst :: "DstArg option"
  o_no_rollover :: bool
  o_cwd :: "string option"
  o_shell :: bool
  o_name :: "string option"
  o_description :: "string option"
  o_env :: "string list"
  o_env_file :: "string option"
  o_capture_env :: bool
  o_missed :: "MissedArg option"
  o_durable :: bool
  o_every :: "string option"
  o_tty :: bool

record SchedulingArgs =
  a_global :: GlobalArgs
  a_options :: ScheduleOptions
  a_when :: "string list"
  a_argv :: "string list"

datatype BuildError =
    Text string
  | OfDuration DurationError
  | OfDeadline DeadlineError
  | OfSyntax CalendarSyntaxError
  | OfCalendar CalendarError
  | OfExecution ExecutionError
  | OfJob JobError
  | OfPrimitive PrimitiveError

datatype CliError =
    Usage BuildError
  | BadConfig ConfigError
  | Capability string
  | Storage string
  | Permission string
  | Internal string

fun exit_code :: "CliError \<Rightarrow> nat" where
  "exit_code (Usage _) = 2"
| "exit_code (BadConfig _) = 2"
| "exit_code (Capability _) = 5"
| "exit_code (Storage _) = 10"
| "exit_code (Permission _) = 12"
| "exit_code (Internal _) = 70"

record submit_env =
  se_paths :: "(string, string) result"
  se_config :: file_read
  se_toml :: "string \<Rightarrow> (string, RawConfig) result"
  se_zone :: "string \<Rightarrow> bool"
  se_vars :: "(string \<times> string) list"
  se_canonical :: "string option \<Rightarrow> (string, string) result"
  se_is_dir :: "string \<Rightarrow> bool"
  se_metadata :: "string \<Rightarrow> (string, bool \<times> u64) result"
  se_read :: "string \<Rightarrow> (string, string) result"
  se_tty :: "(string, string) result"
  se_uid :: u32
  se_fresh :: JobId
  se_wall :: "(string, UtcTimestamp) result"
  se_elapsed :: "(string, ElapsedInstant) result"
  se_service :: "(CliError, bool \<times> bool) result"
  se_private_dir :: "(string, unit) result"
  se_open :: "(string, unit) result"
  se_fault :: "nat \<Rightarrow> StoreError option"

section \<open>Environments\<close>

definition MAX_ENV_FILE_BYTES :: u64 where
  "MAX_ENV_FILE_BYTES = 1024 * 1024"

definition default_retained_key :: "string \<Rightarrow> bool" where
  "default_retained_key k =
     (k \<in> {''HOME'', ''USER'', ''LOGNAME'', ''PATH'', ''LANG'', ''TMPDIR''} \<or> take 3 k = ''LC_'')"

fun collect_vars ::
  "(string \<times> string) list \<Rightarrow> (string, (string \<times> string) list) result" where
  "collect_vars [] = Inr []"
| "collect_vars ((k, value) # vars) =
     (if \<not> utf8_valid k then Inl (''environment variable name is not valid UTF-8: '' @ from_utf8_lossy k)
      else if \<not> utf8_valid value
      then Inl (''environment variable '' @ k @ '' has a value that is not valid UTF-8'')
      else map_ok (Cons (k, value)) (collect_vars vars))"

definition collect_process_environment ::
  "submit_env \<Rightarrow> (string \<Rightarrow> bool) \<Rightarrow> (string, (string \<times> string) list) result" where
  "collect_process_environment env retain = collect_vars (filter (retain \<circ> fst) (se_vars env))"

definition split_assignment :: "string \<Rightarrow> (string, string \<times> string) result" where
  "split_assignment text =
     (let k = takeWhile (\<lambda>c. c \<noteq> CHR ''='') text; rest = dropWhile (\<lambda>c. c \<noteq> CHR ''='') text
      in if rest = [] \<or> k = [] then Inl ''environment value must use KEY=VALUE'' else Inr (k, tl rest))"

text \<open>\<open>str::lines\<close>: a line feed ends a line, with the carriage return before it.\<close>

function str_lines :: "string \<Rightarrow> string list" where
  "str_lines s =
     (if s = [] then []
      else (let line = takeWhile (\<lambda>c. c \<noteq> CHR 0x0A) s; rest = dropWhile (\<lambda>c. c \<noteq> CHR 0x0A) s
            in if rest = [] then [line]
               else (if line \<noteq> [] \<and> last line = CHR 0x0D then butlast line else line) # str_lines (tl rest)))"
  by pat_completeness auto
termination
proof (relation "measure length")
  fix s line rest :: string
  assume "rest = dropWhile (\<lambda>c. c \<noteq> CHR 0x0A) s" "rest \<noteq> []"
  then have "length rest \<le> length s" "0 < length rest"
    using length_dropWhile_le [of "\<lambda>c. c \<noteq> CHR 0x0A" s] by simp_all
  then show "(tl rest, s) \<in> measure length"
    by (cases rest) auto
qed simp

declare str_lines.simps [simp del]

type_synonym pairs = "(string \<times> string) list"

definition extend :: "pairs \<Rightarrow> pairs \<Rightarrow> pairs" where
  "extend values new = foldl (\<lambda>m (k, v). btree_insert k v m) values new"

fun env_file_loop :: "nat \<Rightarrow> string list \<Rightarrow> string list \<Rightarrow> pairs \<Rightarrow> (BuildError, pairs) result" where
  "env_file_loop index [] seen values = Inr values"
| "env_file_loop index (line # rest) seen values =
     (if line = [] \<or> hd line = CHR ''#'' then env_file_loop (Suc index) rest seen values
      else case split_assignment line of
        Inl e \<Rightarrow> Inl (Text (''line '' @ show_nat (index + 1) @ '': '' @ e))
      | Inr (k, v) \<Rightarrow>
          if k \<in> set seen
          then Inl (Text (''line '' @ show_nat (index + 1) @ '' repeats environment key '' @ k))
          else env_file_loop (Suc index) rest (k # seen) (btree_insert k v values))"

definition read_env_file :: "submit_env \<Rightarrow> string \<Rightarrow> (BuildError, pairs) result" where
  "read_env_file env path =
     try_bind (map_err (\<lambda>e. Text (''cannot read '' @ from_utf8_lossy path @ '': '' @ e)) (se_metadata env path)) (\<lambda>(is_file, len).
     if \<not> is_file \<or> MAX_ENV_FILE_BYTES < len
     then Inl (Text ''environment file must be a regular file no larger than 1 MiB'')
     else try_bind (map_err (\<lambda>e. Text (''cannot read '' @ from_utf8_lossy path @ '': '' @ e)) (se_read env path)) (\<lambda>contents.
     if contains_nul contents then Inl (Text ''environment file cannot contain NUL'')
     else try_bind (env_file_loop 0 (str_lines contents) [] []) (\<lambda>values.
     try_bind (map_err OfExecution (from_pairs values)) (\<lambda>_. Inr values))))"

fun insert_assignments :: "string list \<Rightarrow> pairs \<Rightarrow> (BuildError, pairs) result" where
  "insert_assignments [] values = Inr values"
| "insert_assignments (assignment # rest) values =
     try_bind (map_err Text (split_assignment assignment)) (\<lambda>(k, v).
     insert_assignments rest (btree_insert k v values))"

definition build_environment :: "submit_env \<Rightarrow> SchedulingArgs \<Rightarrow> (BuildError, Environment) result" where
  "build_environment env args =
     try_bind (map_err Text (collect_process_environment env
       (if o_capture_env (a_options args) then (\<lambda>_. True) else default_retained_key))) (\<lambda>inherited.
     (let values = extend [] inherited in
     try_bind (case o_env_file (a_options args) of
         None \<Rightarrow> Inr values
       | Some path \<Rightarrow> map_ok (extend values) (read_env_file env path)) (\<lambda>values.
     try_bind (insert_assignments (o_env (a_options args)) values) (\<lambda>values.
     map_err OfExecution (from_pairs values)))))"

section \<open>Execution\<close>

fun utf8_arguments :: "string list \<Rightarrow> (BuildError, string list) result" where
  "utf8_arguments [] = Inr []"
| "utf8_arguments (a # rest) =
     (if utf8_valid a then map_ok (Cons a) (utf8_arguments rest)
      else Inl (Text ''command arguments must be valid UTF-8''))"

definition build_execution :: "submit_env \<Rightarrow> SchedulingArgs \<Rightarrow> Config \<Rightarrow> (BuildError, ExecutionSpec) result" where
  "build_execution env args config =
     try_bind (utf8_arguments (a_argv args)) (\<lambda>command_args.
     (let mode = (if o_shell (a_options args) then ExecutionMode.Shell else ExecutionMode.Direct) in
     try_bind (map_err (\<lambda>e. Text (case o_cwd (a_options args) of
          Some path \<Rightarrow> ''cannot use working directory '' @ from_utf8_lossy path @ '': '' @ e
        | None \<Rightarrow> ''cannot resolve current directory: '' @ e)) (se_canonical env (o_cwd (a_options args)))) (\<lambda>cwd.
     if \<not> se_is_dir env cwd then Inl (Text (''working directory '' @ from_utf8_lossy cwd @ '' is not a directory''))
     else
     try_bind (build_environment env args) (\<lambda>vars.
     try_bind (if utf8_valid cwd then Inr () else Inl (Text ''working directory must be valid UTF-8'')) (\<lambda>_.
     try_bind (map_err OfExecution (ExecutionSpec_new mode command_args cwd vars)) (\<lambda>execution.
     try_bind (if mode = ExecutionMode.Shell then map_err OfExecution (set_shell_path execution (default_shell config))
               else Inr execution) (\<lambda>execution.
     if o_tty (a_options args)
     then try_bind (map_err (\<lambda>e. Text (''--tty requires stdout to be a terminal: '' @ e)) (se_tty env)) (\<lambda>tty.
       map_err OfExecution (set_notify_tty execution tty))
     else Inr execution)))))))"

section \<open>Schedules\<close>

definition is_duration_input :: "string \<Rightarrow> bool" where
  "is_duration_input input =
     (input \<noteq> [] \<and> is_ascii_digit (hd input)
      \<and> CHR ''-'' \<notin> set input \<and> CHR '':'' \<notin> set input \<and> CHR ''T'' \<notin> set input)"

fun map_dst :: "DstArg \<Rightarrow> DstResolution" where
  "map_dst DstArg.Reject = DstResolution.Reject"
| "map_dst DstArg.Earlier = DstResolution.Earlier"
| "map_dst DstArg.Later = DstResolution.Later"

fun map_missed :: "MissedArg \<Rightarrow> MissedPolicy" where
  "map_missed MissedArg.Hold = MissedPolicy.Hold"
| "map_missed MissedArg.RunLatest = MissedPolicy.RunLatest"
| "map_missed MissedArg.Skip = MissedPolicy.Skip"

definition calendar_options :: "ScheduleOptions \<Rightarrow> bool" where
  "calendar_options opts = (o_utc opts \<or> o_tz opts \<noteq> None \<or> o_dst opts \<noteq> None \<or> o_no_rollover opts)"

definition selected_zone :: "ScheduleOptions \<Rightarrow> Config \<Rightarrow> TimeZoneSelection" where
  "selected_zone opts config =
     (if o_utc opts then Utc
      else case o_tz opts of
        Some tz \<Rightarrow> Named tz
      | None \<Rightarrow> if default_timezone config = ''local'' then Local else Named (default_timezone config))"

definition lift_failure :: "('e \<Rightarrow> 'f) \<Rightarrow> 'e failure \<Rightarrow> 'f failure" where
  "lift_failure g f = (case f of Err e \<Rightarrow> Err (g e) | Panic \<Rightarrow> Panic)"

definition join_words :: "string list \<Rightarrow> string" where
  "join_words ws = (case ws of [] \<Rightarrow> [] | w # rest \<Rightarrow> w @ concat (map (Cons (CHR '' '')) rest))"

definition is_time :: "('d, 't, 'dt) CalendarSyntax \<Rightarrow> bool" where
  "is_time syn = (case syn of Time _ \<Rightarrow> True | _ \<Rightarrow> False)"

definition build_calendar_schedule ::
  "('d, 't, 'dt) civil \<Rightarrow> ('d, 't, 'dt, 'data, 'tz) zones \<Rightarrow> SchedulingArgs \<Rightarrow> Config \<Rightarrow> UtcTimestamp \<Rightarrow>
     (BuildError failure, Schedule) result" where
  "build_calendar_schedule J Z args config wall_now =
     (let opts = a_options args; input = join_words (a_when args) in
     try_bind (map_err (lift_failure OfSyntax) (parse_calendar J input)) (\<lambda>parsed.
     if o_no_rollover opts \<and> \<not> is_time parsed
     then Inl (Err (Text ''--no-rollover is only valid with a time of day''))
     else if o_utc opts \<and> o_dst opts \<noteq> None
     then Inl (Err (Text ''--dst is not meaningful with --utc''))
     else try_bind (map_err (lift_failure OfCalendar) (resolve_calendar J Z input (selected_zone opts config)
         (case o_dst opts of None \<Rightarrow> DstResolution.Reject | Some d \<Rightarrow> map_dst d) (o_no_rollover opts) wall_now))
       (\<lambda>r. Inr (one_shot_absolute (original_input r) (timezone r) (timezone_database_version r)
          (resolved_utc r) (dst_resolution r)))))"

definition build_schedule ::
  "('d, 't, 'dt) civil \<Rightarrow> ('d, 't, 'dt, 'data, 'tz) zones \<Rightarrow> (int \<Rightarrow> bool) \<Rightarrow> SchedulingArgs \<Rightarrow> Config \<Rightarrow>
     UtcTimestamp \<Rightarrow> ElapsedInstant \<Rightarrow> (BuildError failure, Schedule) result" where
  "build_schedule J Z accepts args config wall_now elapsed_now =
     (let opts = a_options args; joined = concat (a_when args) in
      case o_every opts of
        Some every \<Rightarrow>
          if calendar_options opts then Inl (Err (Text ''calendar options cannot be used with --every''))
          else map_err Err (
            try_bind (map_err OfDuration (DurationSeconds_from_str every)) (\<lambda>interval.
            try_bind (map_err OfDeadline (relative_deadline accepts wall_now elapsed_now interval)) (\<lambda>d.
            Inr (RecurringInterval interval (relative_due_utc d)))))
      | None \<Rightarrow>
          if is_duration_input joined
          then map_err Err (
            try_bind (map_err OfDuration (DurationSeconds_from_str joined)) (\<lambda>duration.
            if calendar_options opts then Inl (Text ''calendar options cannot be used with a relative duration'')
            else try_bind (map_err OfDeadline (relative_deadline accepts wall_now elapsed_now duration)) (\<lambda>d.
            Inr (one_shot_relative duration (relative_due_utc d)))))
          else build_calendar_schedule J Z args config wall_now)"

section \<open>Jobs\<close>

fun transpose_ok :: "('a \<Rightarrow> ('e, 'b) result) \<Rightarrow> 'a option \<Rightarrow> ('e, 'b option) result" where
  "transpose_ok f None = Inr None"
| "transpose_ok f (Some x) = map_ok Some (f x)"

definition build_job ::
  "('d, 't, 'dt) civil \<Rightarrow> ('d, 't, 'dt, 'data, 'tz) zones \<Rightarrow> (int \<Rightarrow> bool) \<Rightarrow> submit_env \<Rightarrow> SchedulingArgs \<Rightarrow>
     Config \<Rightarrow> UtcTimestamp \<Rightarrow> ElapsedInstant \<Rightarrow> (BuildError failure, Job) result" where
  "build_job J Z accepts env args config wall_now elapsed_now =
     (let opts = a_options args in
     try_bind (build_schedule J Z accepts args config wall_now elapsed_now) (\<lambda>schedule.
     (let missed_policy = (case o_missed opts of Some m \<Rightarrow> map_missed m
            | None \<Rightarrow> if o_every opts \<noteq> None then MissedPolicy.Skip else MissedPolicy.Hold);
          runtime_tier = (if o_durable opts then RuntimeTier.Durable else default_runtime config)
      in map_err Err (
     try_bind (build_execution env args config) (\<lambda>execution.
     try_bind (map_err OfJob (Job_new (se_fresh env) wall_now schedule missed_policy runtime_tier execution (se_uid env))) (\<lambda>job.
     try_bind (map_err OfPrimitive (transpose_ok Name_new (o_name opts))) (\<lambda>name.
     try_bind (map_err OfPrimitive (transpose_ok Description_new (o_description opts))) (\<lambda>description.
     Inr (set_metadata job name description)))))))))"

section \<open>The command\<close>

fun color_mode :: "ColorArg \<Rightarrow> ColorMode" where
  "color_mode ColorArg.Auto = ColorMode.Auto"
| "color_mode ColorArg.Always = ColorMode.Always"
| "color_mode ColorArg.Never = ColorMode.Never"

definition cli_overrides :: "GlobalArgs \<Rightarrow> bool \<Rightarrow> ConfigOverrides" where
  "cli_overrides global durable =
     RawConfig_default\<lparr> raw_default_runtime := (if durable then Some RuntimeTier.Durable else None),
       raw_color := map_option color_mode (g_color global),
       raw_verbosity := (if g_quiet global then Some Quiet else if g_verbose global then Some Verbose else None) \<rparr>"

definition load_effective_config :: "submit_env \<Rightarrow> string \<Rightarrow> GlobalArgs \<Rightarrow> bool \<Rightarrow> (ConfigError, Config) result" where
  "load_effective_config env state_dir global durable =
     try_bind (map_err (\<lambda>e. Read (''cannot read '' @ from_utf8_lossy (state_dir @ ''/config.toml'') @ '': '' @ e)) (se_config env)) (\<lambda>file.
     try_bind (map_err Read (collect_process_environment env is_atx_key)) (\<lambda>vars.
     load_config (se_toml env) (se_zone env) file vars (cli_overrides global durable)))"

text \<open>\<open>acknowledge\<close> stands for the session supervisor, which is started on demand.\<close>

definition schedule ::
  "codec \<Rightarrow> ('d, 't, 'dt) civil \<Rightarrow> ('d, 't, 'dt, 'data, 'tz) zones \<Rightarrow> (int \<Rightarrow> bool) \<Rightarrow> submit_env \<Rightarrow>
     (Database \<Rightarrow> JobId \<Rightarrow> Revision \<Rightarrow> (SupervisorAckError, unit) result) \<Rightarrow> SchedulingArgs \<Rightarrow> Database \<Rightarrow>
     (CliError failure, SubmissionOutcome) result \<times> Database" where
  "schedule C J Z accepts env acknowledge args db =
     (let opts = a_options args in
      case try_bind (map_err (Err \<circ> Permission) (se_paths env)) (\<lambda>state_dir.
           try_bind (map_err (Err \<circ> BadConfig) (load_effective_config env state_dir (a_global args) (o_durable opts))) (\<lambda>config.
           try_bind (map_err (Err \<circ> Internal) (se_wall env)) (\<lambda>wall_now.
           try_bind (map_err (Err \<circ> Internal) (se_elapsed env)) (\<lambda>elapsed_now.
           try_bind (map_err (lift_failure Usage) (build_job J Z accepts env args config wall_now elapsed_now)) (\<lambda>job.
           try_bind (if job_tier job = RuntimeTier.Durable
              then try_bind (map_err Err (se_service env)) (\<lambda>(installed, running).
                if \<not> installed \<or> \<not> running
                then Inl (Err (Capability ''durable service is not installed and running'')) else Inr ())
              else Inr ()) (\<lambda>_.
           try_bind (if o_dry_run opts then Inr () else map_err (Err \<circ> Permission) (se_private_dir env)) (\<lambda>_.
           try_bind (if o_dry_run opts then Inr () else map_err (Err \<circ> Storage) (se_open env)) (\<lambda>_. Inr job)))))))) of
        Inl e \<Rightarrow> (Inl e, db)
      | Inr job \<Rightarrow>
          (let (res, db') = submit_job (create_job C (se_fault env)) acknowledge db job (o_dry_run opts)
           in (map_err (\<lambda>e. Err (case e of SubmitError.Store s \<Rightarrow> Storage s)) res, db')))"

definition run_schedule_exit :: "(CliError failure, SubmissionOutcome) result \<Rightarrow> nat option" where
  "run_schedule_exit res =
     (case res of
        Inr (CommittedUnsupervised _ _) \<Rightarrow> Some 11
      | Inr _ \<Rightarrow> Some 0
      | Inl (Err e) \<Rightarrow> Some (exit_code e)
      | Inl Panic \<Rightarrow> None)"

section \<open>Maps built by the command\<close>

lemma map_of_btree_insert: "map_of (btree_insert k v m) = (map_of m)(k \<mapsto> v)"
  by (induction k v m rule: btree_insert.induct) (auto simp: fun_eq_iff)

lemma key_sorted_distinct: "key_sorted m \<Longrightarrow> distinct (map fst m)"
  unfolding key_sorted_def using text_less_irrefl
  by (induction m) (auto simp: image_iff)

lemma map_of_rev_distinct: "distinct (map fst m) \<Longrightarrow> map_of (rev m) = map_of m"
  by (rule map_of_eqI) (auto simp: distinct_map rev_map [symmetric] map_of_eq_Some_iff inj_on_def)

lemma key_sorted_Nil [simp]: "key_sorted []"
  by (simp add: key_sorted_def)

lemma extend_map: "map_of (extend m new) = map_of m ++ map_of (rev new)"
  and extend_sorted: "key_sorted m \<Longrightarrow> key_sorted (extend m new)"
  by (induction new arbitrary: m)
    (auto simp: extend_def map_of_btree_insert btree_insert_sorted map_add_def fun_eq_iff split: option.splits)

lemma collect_vars_same: "collect_vars vars = Inr vs \<Longrightarrow> vs = vars"
  by (induction vars arbitrary: vs) (auto simp: result_simps split: if_splits)

lemma insert_assignments_map:
  assumes "insert_assignments texts m = Inr m'" "key_sorted m"
  shows "\<exists>assigns. list_all2 (\<lambda>t kv. split_assignment t = Inr kv) texts assigns
    \<and> map_of m' = map_of m ++ map_of (rev assigns) \<and> key_sorted m'"
  using assms
proof (induction texts arbitrary: m)
  case (Cons t texts)
  then obtain k v where t: "split_assignment t = Inr (k, v)" and r: "insert_assignments texts (btree_insert k v m) = Inr m'"
    by (auto simp: result_simps)
  from Cons.IH [OF r] Cons.prems(2) obtain assigns where
    "list_all2 (\<lambda>t kv. split_assignment t = Inr kv) texts assigns"
    "map_of m' = map_of (btree_insert k v m) ++ map_of (rev assigns)" "key_sorted m'"
    using btree_insert_sorted [of m k v] by auto
  moreover from this(2) have "map_of m' = map_of m ++ map_of (rev ((k, v) # assigns))"
    by (simp add: map_of_btree_insert map_add_def fun_eq_iff split: option.split)
  ultimately show ?case
    using t by (intro exI [of _ "(k, v) # assigns"]) simp
qed simp

definition significant :: "string \<Rightarrow> bool" where
  "significant line = (line \<noteq> [] \<and> hd line \<noteq> CHR ''#'')"

lemma env_file_loop_map:
  assumes "env_file_loop n texts seen m = Inr m'" "key_sorted m"
  shows "\<exists>ps. list_all2 (\<lambda>t kv. split_assignment t = Inr kv) (filter significant texts) ps
    \<and> distinct (map fst ps) \<and> fst ` set ps \<inter> set seen = {}
    \<and> map_of m' = map_of m ++ map_of ps \<and> key_sorted m'"
  using assms
proof (induction texts arbitrary: n seen m)
  case (Cons line texts)
  show ?case
  proof (cases "significant line")
    case False
    with Cons show ?thesis by (auto simp: significant_def)
  next
    case True
    with Cons.prems obtain k v where l: "split_assignment line = Inr (k, v)" "k \<notin> set seen"
      and r: "env_file_loop (Suc n) texts (k # seen) (btree_insert k v m) = Inr m'"
      by (auto simp: significant_def split: if_splits sum.splits)
    from Cons.IH [OF r btree_insert_sorted [OF Cons.prems(2)]] obtain ps where f:
      "list_all2 (\<lambda>t kv. split_assignment t = Inr kv) (filter significant texts) ps"
      "distinct (map fst ps)" "fst ` set ps \<inter> set (k # seen) = {}"
      "map_of m' = map_of (btree_insert k v m) ++ map_of ps" "key_sorted m'"
      by blast
    have "map_of ps k = None"
      using f(3) by (auto simp: map_of_eq_None_iff)
    then have "map_of m' = map_of m ++ map_of ((k, v) # ps)"
      using f(4) by (auto simp: map_of_btree_insert map_add_def fun_eq_iff split: option.split)
    with l f(1-3,5) True show ?thesis
      by (intro exI [of _ "(k, v) # ps"] conjI) (simp_all del: map_of.simps)
  qed
qed simp

lemma from_pairs_loop_map:
  "from_pairs_loop ps m = Inr env \<Longrightarrow> map_of env = map_of m ++ (map_option SecretString \<circ> map_of (rev ps))"
proof (induction ps arbitrary: m)
  case (Cons p ps)
  obtain k v where p: "p = (k, v)" by fastforce
  with Cons.prems have "from_pairs_loop ps (btree_insert k (SecretString v) m) = Inr env"
    by (auto simp: result_simps SecretString_new_def split: if_splits)
  from Cons.IH [OF this] show ?case
    by (simp add: p map_of_btree_insert map_add_def fun_eq_iff split: option.split)
qed (simp add: comp_def map_add_def)

lemma from_pairs_map:
  assumes "from_pairs m = Inr env" "key_sorted m"
  shows "map_of env k = map_option SecretString (map_of m k)"
proof -
  have "map_of (rev m) = map_of m"
    by (rule map_of_rev_distinct [OF key_sorted_distinct [OF assms(2)]])
  with from_pairs_loop_map [OF assms(1) [unfolded from_pairs_def]] show ?thesis
    by (simp add: map_add_def split: option.split)
qed

lemma read_env_file_eq:
  assumes "read_env_file env path = Inr m"
  obtains contents ps where "se_read env path = Inr contents" "distinct (map fst ps)"
    "list_all2 (\<lambda>t kv. split_assignment t = Inr kv) (filter significant (str_lines contents)) ps"
    "map_of m = map_of ps" "key_sorted m"
proof -
  obtain contents where c: "se_read env path = Inr contents" "env_file_loop 0 (str_lines contents) [] [] = Inr m"
    using assms by (auto simp: read_env_file_def result_simps split: if_splits)
  from env_file_loop_map [OF c(2)] that [OF c(1)] show thesis
    by auto
qed

lemma inherited_and_file:
  assumes "(case o_env_file opts of None \<Rightarrow> Inr (extend [] inherited)
      | Some path \<Rightarrow> map_ok (extend (extend [] inherited)) (read_env_file env path)) = Inr m"
  shows "\<exists>ps. (case o_env_file opts of None \<Rightarrow> ps = []
        | Some path \<Rightarrow> \<exists>contents. se_read env path = Inr contents \<and> distinct (map fst ps)
            \<and> list_all2 (\<lambda>t kv. split_assignment t = Inr kv) (filter significant (str_lines contents)) ps)
    \<and> map_of m = map_of (rev inherited) ++ map_of ps \<and> key_sorted m"
proof (cases "o_env_file opts")
  case None
  with assms show ?thesis
    using extend_map [of "[]" inherited] extend_sorted [of "[]" inherited] by auto
next
  case (Some path)
  with assms obtain m0 where r: "read_env_file env path = Inr m0" and m: "m = extend (extend [] inherited) m0"
    by (auto simp: result_simps)
  from r obtain contents ps where c: "se_read env path = Inr contents" "distinct (map fst ps)"
    "list_all2 (\<lambda>t kv. split_assignment t = Inr kv) (filter significant (str_lines contents)) ps"
    "map_of m0 = map_of ps" "key_sorted m0"
    by (rule read_env_file_eq)
  have "map_of m = map_of (rev inherited) ++ map_of ps" "key_sorted m"
    using c(4) map_of_rev_distinct [OF key_sorted_distinct [OF c(5)]]
    by (simp_all add: m extend_map extend_sorted)
  with Some c show ?thesis by auto
qed

lemma build_environment_valid: "build_environment env args = Inr vars \<Longrightarrow> valid_environment vars"
  by (auto simp: build_environment_def result_simps Let_def intro: from_pairs_valid)

section \<open>Properties\<close>

text \<open>
  The environment of a job is what the user asked for.  A variable set with \<open>--env\<close> has the
  last value given there; otherwise the environment file decides, which may set each variable
  once; otherwise it is inherited from the submitting process.  Without \<open>--capture-env\<close> only the
  retained variables are inherited, so that no other variable of the process is stored.
\<close>

theorem environment_precedence:
  assumes "build_environment env args = Inr vars"
  shows "\<exists>ps assigns. (case o_env_file (a_options args) of None \<Rightarrow> ps = []
        | Some path \<Rightarrow> \<exists>contents. se_read env path = Inr contents \<and> distinct (map fst ps)
            \<and> list_all2 (\<lambda>t kv. split_assignment t = Inr kv) (filter significant (str_lines contents)) ps)
    \<and> list_all2 (\<lambda>t kv. split_assignment t = Inr kv) (o_env (a_options args)) assigns
    \<and> (\<forall>k. map_of vars k = map_option SecretString (case map_of (rev assigns) k of Some v \<Rightarrow> Some v
         | None \<Rightarrow> (case map_of ps k of Some v \<Rightarrow> Some v
         | None \<Rightarrow> if o_capture_env (a_options args) \<or> default_retained_key k then map_of (rev (se_vars env)) k else None)))
    \<and> valid_environment vars"
proof -
  let ?retain = "if o_capture_env (a_options args) then (\<lambda>_. True) else default_retained_key"
  obtain inherited m1 m2 where i: "collect_process_environment env ?retain = Inr inherited"
    and 1: "(case o_env_file (a_options args) of None \<Rightarrow> Inr (extend [] inherited)
        | Some path \<Rightarrow> map_ok (extend (extend [] inherited)) (read_env_file env path)) = Inr m1"
    and 2: "insert_assignments (o_env (a_options args)) m1 = Inr m2" and v: "from_pairs m2 = Inr vars"
    using assms by (auto simp: build_environment_def result_simps Let_def)
  have inh: "inherited = filter (?retain \<circ> fst) (se_vars env)"
    using i collect_vars_same by (simp add: collect_process_environment_def)
  have filter_map: "map_of (rev (filter (P \<circ> fst) vs)) k = (if P k then map_of (rev vs) k else None)" for P vs and k :: string
    by (induction vs) (auto simp: map_add_def split: option.split)
  obtain ps where p: "case o_env_file (a_options args) of None \<Rightarrow> ps = []
        | Some path \<Rightarrow> \<exists>contents. se_read env path = Inr contents \<and> distinct (map fst ps)
            \<and> list_all2 (\<lambda>t kv. split_assignment t = Inr kv) (filter significant (str_lines contents)) ps"
    and m1: "map_of m1 = map_of (rev inherited) ++ map_of ps" "key_sorted m1"
    using inherited_and_file [OF 1] by blast
  obtain assigns where a: "list_all2 (\<lambda>t kv. split_assignment t = Inr kv) (o_env (a_options args)) assigns"
    and m2: "map_of m2 = map_of m1 ++ map_of (rev assigns)" "key_sorted m2"
    using insert_assignments_map [OF 2 m1(2)] by blast
  have "map_of vars k = map_option SecretString (case map_of (rev assigns) k of Some v \<Rightarrow> Some v
         | None \<Rightarrow> (case map_of ps k of Some v \<Rightarrow> Some v
         | None \<Rightarrow> if o_capture_env (a_options args) \<or> default_retained_key k then map_of (rev (se_vars env)) k else None))" for k
    using from_pairs_map [OF v m2(2), of k]
    by (simp add: m2(1) m1(1) inh filter_map map_add_def split: option.split)
  with p a from_pairs_valid [OF v] show ?thesis by blast
qed

lemma utf8_arguments_same: "utf8_arguments args = Inr as \<Longrightarrow> as = args"
  by (induction args arbitrary: as) (auto simp: result_simps split: if_splits)

lemma build_execution_valid:
  assumes "build_execution env args config = Inr execution"
  shows "valid_execution execution"
  using assms
  by (auto simp: build_execution_def result_simps Let_def split: if_splits
      elim!: set_notify_tty_valid set_shell_path_valid ExecutionSpec_new_valid intro: build_environment_valid)

lemma from_str_valid: "DurationSeconds_from_str s = Inr d \<Longrightarrow> valid_duration d"
  by (auto simp: DurationSeconds_from_str_def Let_def result_simps dest: DurationSeconds_new_valid split: if_splits)

definition named_tzdb :: "('d, 't, 'dt, 'data, 'tz) zones \<Rightarrow> bool" where
  "named_tzdb Z = (case tzdb_VERSION Z of None \<Rightarrow> True | Some v \<Rightarrow> v \<noteq> [] \<and> \<not> contains_nul v)"

lemma build_schedule_cases:
  assumes "build_schedule J Z accepts args config now elapsed = Inr sch"
  shows "(\<forall>every. o_every (a_options args) = Some every \<longrightarrow>
        (\<exists>d. DurationSeconds_from_str every = Inr d \<and> sch = RecurringInterval d (now + period d)))
    \<and> (o_every (a_options args) = None \<and> is_duration_input (concat (a_when args)) \<longrightarrow>
        (\<exists>d. DurationSeconds_from_str (concat (a_when args)) = Inr d \<and> sch = OneShotRelative d (now + period d)))
    \<and> (o_every (a_options args) = None \<and> \<not> is_duration_input (concat (a_when args)) \<longrightarrow>
        (\<exists>r. resolve_calendar J Z (join_words (a_when args)) (selected_zone (a_options args) config)
               (case o_dst (a_options args) of None \<Rightarrow> DstResolution.Reject | Some d \<Rightarrow> map_dst d)
               (o_no_rollover (a_options args)) now = Inr r
           \<and> sch = OneShotAbsolute (join_words (a_when args)) (timezone r) (bundled_tzdb_version Z) (resolved_utc r) (dst_resolution r)))"
proof -
  have due: "relative_due_utc r = now + period d"
    if "relative_deadline accepts now elapsed d = Inr r" "DurationSeconds_from_str s = Inr d" for r d s
    using that relative_deadline_both_clocks [OF from_str_valid] by blast
  have cal: "original_input r = input \<and> timezone_database_version r = bundled_tzdb_version Z"
    if "resolve_calendar J Z input sel dst nr now = Inr r" for input sel dst nr r
    using that by (auto simp: resolve_calendar_def result_simps)
  show ?thesis
    using assms
    by (auto simp: build_schedule_def build_calendar_schedule_def Let_def result_simps one_shot_relative_def
        one_shot_absolute_def due cal split: option.splits if_splits)
qed

lemma build_schedule_valid:
  assumes "build_schedule J Z accepts args config now elapsed = Inr sch" "named_tzdb Z"
  shows "valid_schedule sch"
proof -
  have "bundled_tzdb_version Z \<noteq> [] \<and> \<not> contains_nul (bundled_tzdb_version Z)"
    using assms(2) by (auto simp: named_tzdb_def bundled_tzdb_version_def contains_nul_def split: option.splits)
  with build_schedule_cases [OF assms(1)] show ?thesis
    by (cases "o_every (a_options args)"; cases "is_duration_input (concat (a_when args))")
      (auto simp: valid_schedule_def dest: from_str_valid)
qed

lemma transpose_ok_Some:
  "transpose_ok f x = Inr (Some y) \<Longrightarrow> \<exists>a. x = Some a \<and> f a = Inr y"
  by (cases x) (auto simp: result_simps)

lemma build_job_fields:
  assumes "build_job J Z accepts env args config now elapsed = Inr job" "named_tzdb Z"
  shows "build_schedule J Z accepts args config now elapsed = Inr (job_schedule job)"
    and "storable job" "job_state job = JobState.Scheduled" "job_revision job = Revision 1"
    and "now < job_next_due job" "job_next_due job = Schedule_next_due_utc (job_schedule job)"
    and "job_missed_policy job = (case o_missed (a_options args) of Some m \<Rightarrow> map_missed m
            | None \<Rightarrow> if o_every (a_options args) \<noteq> None then MissedPolicy.Skip else MissedPolicy.Hold)"
    and "job_tier job = (if o_durable (a_options args) then RuntimeTier.Durable else default_runtime config)"
    and "job_id job = se_fresh env" "job_owner_uid job = se_uid env"
    and "build_execution env args config = Inr (job_execution job)"
    and "map_option name_str (job_name job) = o_name (a_options args)"
    and "map_option description_str (job_description job) = o_description (a_options args)"
    and "job_created_at job = now"
proof -
  let ?missed = "case o_missed (a_options args) of Some m \<Rightarrow> map_missed m
            | None \<Rightarrow> if o_every (a_options args) \<noteq> None then MissedPolicy.Skip else MissedPolicy.Hold"
  let ?tier = "if o_durable (a_options args) then RuntimeTier.Durable else default_runtime config"
  obtain sch execution job0 name description where s: "build_schedule J Z accepts args config now elapsed = Inr sch"
    and e: "build_execution env args config = Inr execution"
    and j: "Job_new (se_fresh env) now sch ?missed ?tier execution (se_uid env) = Inr job0"
    and n: "transpose_ok Name_new (o_name (a_options args)) = Inr name"
      "transpose_ok Description_new (o_description (a_options args)) = Inr description"
    and job: "job = set_metadata job0 name description"
    using assms(1) by (auto simp: build_job_def result_simps Let_def)
  have valid: "valid_job job0"
    by (rule Job_new_valid [OF j build_schedule_valid [OF s assms(2)] build_execution_valid [OF e]])
  have j0: "job0 = \<lparr> job_id = se_fresh env, job_revision = Revision 1, job_name = None, job_description = None,
             job_created_at = now, job_updated_at = now, job_state = JobState.Scheduled,
             job_tier = ?tier, job_schedule = sch, job_missed_policy = ?missed,
             job_execution = execution, job_next_due = Schedule_next_due_utc sch,
             job_tzdb_version = Schedule_timezone_database_version sch,
             job_owner_uid = se_uid env \<rparr>" and due: "now < Schedule_next_due_utc sch"
    using j by (auto simp: Job_new_def Let_def result_simps Revision_new_def split: if_splits)
  show "build_schedule J Z accepts args config now elapsed = Inr (job_schedule job)" "job_state job = JobState.Scheduled"
    "job_revision job = Revision 1" "now < job_next_due job" "job_next_due job = Schedule_next_due_utc (job_schedule job)"
    "job_missed_policy job = ?missed" "job_tier job = ?tier" "job_id job = se_fresh env" "job_owner_uid job = se_uid env"
    "build_execution env args config = Inr (job_execution job)" "job_created_at job = now"
    using s e due by (simp_all add: job set_metadata_def j0)
  show "map_option name_str (job_name job) = o_name (a_options args)"
    "map_option description_str (job_description job) = o_description (a_options args)"
    using n by (cases "o_name (a_options args)"; cases "o_description (a_options args)";
        auto simp: job set_metadata_def Name_new_def Description_new_def validate_text_def result_simps split: if_splits)+
  have "Name_new (name_str x) = Inr x" if "name = Some x" for x
    using n(1) that by (auto dest!: transpose_ok_Some simp: Name_new_def result_simps validate_text_def split: if_splits)
  moreover have "Description_new (description_str x) = Inr x" if "description = Some x" for x
    using n(2) that by (auto dest!: transpose_ok_Some simp: Description_new_def result_simps validate_text_def split: if_splits)
  ultimately show "storable job"
    using valid by (simp add: storable_def job set_metadata_def valid_job_def j0 split: option.split)
qed

text \<open>
  What the options ask for, said without the code's own helpers: the schedule, the execution and
  its environment.
\<close>

definition zone_as_asked :: "ScheduleOptions \<Rightarrow> Config \<Rightarrow> TimeZoneSelection \<Rightarrow> bool" where
  "zone_as_asked opts config zone \<longleftrightarrow>
     (o_utc opts \<longrightarrow> zone = Utc)
     \<and> (\<forall>tz. \<not> o_utc opts \<and> o_tz opts = Some tz \<longrightarrow> zone = Named tz)
     \<and> (\<not> o_utc opts \<and> o_tz opts = None \<and> default_timezone config = ''local'' \<longrightarrow> zone = Local)
     \<and> (\<not> o_utc opts \<and> o_tz opts = None \<and> default_timezone config \<noteq> ''local'' \<longrightarrow> zone = Named (default_timezone config))"

definition schedule_as_asked ::
  "('d, 't, 'dt) civil \<Rightarrow> ('d, 't, 'dt, 'data, 'tz) zones \<Rightarrow> SchedulingArgs \<Rightarrow> Config \<Rightarrow> UtcTimestamp \<Rightarrow> Schedule \<Rightarrow> UtcTimestamp \<Rightarrow> bool" where
  "schedule_as_asked J Z args config now sch due \<longleftrightarrow>
     (\<forall>every. o_every (a_options args) = Some every \<longrightarrow>
        (\<exists>d. DurationSeconds_from_str every = Inr d \<and> sch = RecurringInterval d (now + period d) \<and> due = now + period d))
     \<and> (o_every (a_options args) = None \<and> is_duration_input (concat (a_when args)) \<longrightarrow>
        (\<exists>d. DurationSeconds_from_str (concat (a_when args)) = Inr d \<and> sch = OneShotRelative d (now + period d) \<and> due = now + period d))
     \<and> (o_every (a_options args) = None \<and> \<not> is_duration_input (concat (a_when args)) \<longrightarrow>
        (\<exists>zone dst r. zone_as_asked (a_options args) config zone
           \<and> (o_dst (a_options args) \<in> {None, Some DstArg.Reject} \<longrightarrow> dst = DstResolution.Reject)
           \<and> (o_dst (a_options args) = Some DstArg.Earlier \<longrightarrow> dst = DstResolution.Earlier)
           \<and> (o_dst (a_options args) = Some DstArg.Later \<longrightarrow> dst = DstResolution.Later)
           \<and> resolve_calendar J Z (join_words (a_when args)) zone dst (o_no_rollover (a_options args)) now = Inr r
           \<and> sch = OneShotAbsolute (join_words (a_when args)) (timezone r) (bundled_tzdb_version Z) (resolved_utc r) (dst_resolution r)
           \<and> due = resolved_utc r))"

definition environment_as_asked :: "submit_env \<Rightarrow> SchedulingArgs \<Rightarrow> Environment \<Rightarrow> bool" where
  "environment_as_asked env args vars \<longleftrightarrow>
     (\<exists>ps assigns. (case o_env_file (a_options args) of None \<Rightarrow> ps = []
        | Some path \<Rightarrow> \<exists>contents. se_read env path = Inr contents \<and> distinct (map fst ps)
            \<and> list_all2 (\<lambda>t kv. split_assignment t = Inr kv) (filter significant (str_lines contents)) ps)
      \<and> list_all2 (\<lambda>t kv. split_assignment t = Inr kv) (o_env (a_options args)) assigns
      \<and> (\<forall>k. map_of vars k = map_option SecretString (case map_of (rev assigns) k of Some v \<Rightarrow> Some v
           | None \<Rightarrow> (case map_of ps k of Some v \<Rightarrow> Some v
           | None \<Rightarrow> if o_capture_env (a_options args) \<or> default_retained_key k then map_of (rev (se_vars env)) k else None))))"

definition execution_as_asked :: "submit_env \<Rightarrow> SchedulingArgs \<Rightarrow> Config \<Rightarrow> ExecutionSpec \<Rightarrow> bool" where
  "execution_as_asked env args config execution \<longleftrightarrow>
     argv execution = a_argv args
     \<and> se_canonical env (o_cwd (a_options args)) = Inr (working_directory execution) \<and> se_is_dir env (working_directory execution)
     \<and> (if o_shell (a_options args)
        then exec_mode execution = ExecutionMode.Shell \<and> length (a_argv args) = 1 \<and> shell_path execution = Some (default_shell config)
        else exec_mode execution = ExecutionMode.Direct \<and> shell_path execution = None)
     \<and> exec_stdin execution = Null \<and> exec_stdout execution = BoundedFile \<and> exec_stderr execution = BoundedFile
     \<and> (if o_tty (a_options args) then \<exists>tty. se_tty env = Inr tty \<and> notify_tty execution = Some tty else notify_tty execution = None)
     \<and> environment_as_asked env args (environment execution)"

lemma build_execution_as_asked:
  assumes "build_execution env args config = Inr execution"
  shows "execution_as_asked env args config execution"
proof -
  obtain command_args cwd vars e0 e1 where u: "utf8_arguments (a_argv args) = Inr command_args"
    and c: "se_canonical env (o_cwd (a_options args)) = Inr cwd" "se_is_dir env cwd"
    and v: "build_environment env args = Inr vars"
    and n: "ExecutionSpec_new (if o_shell (a_options args) then ExecutionMode.Shell else ExecutionMode.Direct) command_args cwd vars = Inr e0"
    and sh: "(if o_shell (a_options args) then map_err OfExecution (set_shell_path e0 (default_shell config)) else Inr e0) = Inr e1"
    and t: "(if o_tty (a_options args)
       then try_bind (map_err (\<lambda>e. Text (''--tty requires stdout to be a terminal: '' @ e)) (se_tty env)) (\<lambda>tty.
         map_err OfExecution (set_notify_tty e1 tty))
       else Inr e1) = Inr execution"
    using assms by (auto simp: build_execution_def result_simps Let_def split: if_splits)
  have "environment_as_asked env args vars"
    using environment_precedence [OF v] unfolding environment_as_asked_def by blast
  moreover have "command_args = a_argv args" by (rule utf8_arguments_same [OF u])
  ultimately show ?thesis
    using c n sh t
    by (auto simp: execution_as_asked_def ExecutionSpec_new_def set_shell_path_def set_notify_tty_def result_simps split: if_splits)
qed


lemma schedule_effect:
  assumes "schedule C J Z accepts env acknowledge args db = (res, db')"
    and "codec_ok C" "named_tzdb Z"
  shows "(\<forall>e. res = Inl e \<longrightarrow> db' = db) \<and> (o_dry_run (a_options args) \<longrightarrow> db' = db)
    \<and> (\<forall>outcome. res = Inr outcome \<and> \<not> o_dry_run (a_options args) \<longrightarrow>
         load_job C db' (se_fresh env) = Inr (Some (SubmissionOutcome_job outcome))
         \<and> job_state (SubmissionOutcome_job outcome) = JobState.Scheduled
         \<and> load_job C db (se_fresh env) = Inr None
         \<and> (\<forall>i. i \<noteq> se_fresh env \<longrightarrow> load_job C db' i = load_job C db i)
         \<and> (run_schedule_exit res = Some 0 \<longleftrightarrow> acknowledge db' (se_fresh env) (Revision 1) = Inr ())
         \<and> (run_schedule_exit res = Some 11 \<longleftrightarrow> acknowledge db' (se_fresh env) (Revision 1) \<noteq> Inr ()))"
proof (cases "db' = db \<and> (\<exists>e. res = Inl e)")
  case True
  then show ?thesis by auto
next
  case False
  then obtain job config now elapsed res0 where b: "build_job J Z accepts env args config now elapsed = Inr job"
    and s: "submit_job (create_job C (se_fault env)) acknowledge db job (o_dry_run (a_options args)) = (res0, db')"
    and res: "res = map_err (\<lambda>e. Err (case e of SubmitError.Store s \<Rightarrow> Storage s)) res0"
    using assms(1) by (auto simp: schedule_def Let_def result_simps split: sum.splits prod.splits)
  note f = build_job_fields [OF b assms(3)]
  show ?thesis
  proof (cases "o_dry_run (a_options args)")
    case True
    with s res show ?thesis by (auto simp: submit_job_def)
  next
    case False
    show ?thesis
    proof (cases "create C (se_fault env) db job")
      case (Inl e)
      with s res False show ?thesis by (auto simp: submit_job_def create_job_def on_ok_def)
    next
      case (Inr d)
      have l: "load_job C db (se_fresh env) = Inr None" "load_job C d (se_fresh env) = Inr (Some job)"
        "k \<noteq> se_fresh env \<Longrightarrow> load_job C d k = load_job C db k" for k
        using create_load [OF Inr assms(2) f(2)] by (simp_all add: f(9))
      have "db' = d" using s Inr False by (auto simp: submit_job_def create_job_def on_ok_def split: sum.splits)
      with s res l Inr False show ?thesis
        by (cases "acknowledge d (se_fresh env) (Revision 1)")
          (auto simp: submit_job_def create_job_def on_ok_def f(3,4,9) run_schedule_exit_def)
    qed
  qed
qed

lemma schedule_exit_error: "run_schedule_exit (Inl f) \<noteq> Some 0 \<and> run_schedule_exit (Inl f) \<noteq> Some 11"
proof (cases f)
  case (Err e)
  then show ?thesis by (cases e) (simp_all add: run_schedule_exit_def)
qed (simp add: run_schedule_exit_def)

lemma dry_run_exit: "run_schedule_exit (Inr (DryRun job)) = Some 0"
  by (simp add: run_schedule_exit_def)

lemma dry_run_outcome:
  assumes "schedule C J Z accepts env acknowledge args db = (res, db')" "res = Inr outcome" "o_dry_run (a_options args)"
  shows "outcome = DryRun (SubmissionOutcome_job outcome)"
  using assms by (auto simp: schedule_def Let_def result_simps submit_job_def split: sum.splits prod.splits)

text \<open>
  C25. The scheduling command is honest about what it stored.  A command that fails, or that is a
  dry run, leaves the database as it was.  Otherwise the job it reports is stored and reads back,
  and every other job is as before.  The exit code is 0 exactly for a successful dry run and for a
  stored job that the supervisor acknowledged, and 11 exactly for a stored job that nobody answers
  for: no error exits with either.
\<close>

theorem schedule_command_durable:
  assumes "schedule C J Z accepts env acknowledge args db = (res, db')"
    and "codec_ok C" "named_tzdb Z"
  shows "(\<forall>e. res = Inl e \<longrightarrow> db' = db) \<and> (o_dry_run (a_options args) \<longrightarrow> db' = db)
    \<and> (\<forall>outcome. res = Inr outcome \<and> \<not> o_dry_run (a_options args) \<longrightarrow>
         load_job C db' (se_fresh env) = Inr (Some (SubmissionOutcome_job outcome))
         \<and> load_job C db (se_fresh env) = Inr None
         \<and> (\<forall>i. i \<noteq> se_fresh env \<longrightarrow> load_job C db' i = load_job C db i)
         \<and> (run_schedule_exit res = Some 0 \<longleftrightarrow> acknowledge db' (se_fresh env) (Revision 1) = Inr ())
         \<and> (run_schedule_exit res = Some 11 \<longleftrightarrow> acknowledge db' (se_fresh env) (Revision 1) \<noteq> Inr ()))
    \<and> (run_schedule_exit res = Some 0 \<longleftrightarrow>
         (\<exists>outcome. res = Inr outcome \<and> (o_dry_run (a_options args) \<or> acknowledge db' (se_fresh env) (Revision 1) = Inr ())))
    \<and> (run_schedule_exit res = Some 11 \<longleftrightarrow>
         (\<exists>outcome. res = Inr outcome \<and> \<not> o_dry_run (a_options args) \<and> acknowledge db' (se_fresh env) (Revision 1) \<noteq> Inr ()))"
proof -
  note e = schedule_effect [OF assms]
  show ?thesis
  proof (cases res)
    case (Inl f)
    with e schedule_exit_error [of f] show ?thesis by auto
  next
    case (Inr outcome)
    show ?thesis
    proof (cases "o_dry_run (a_options args)")
      case True
      have "outcome = DryRun (SubmissionOutcome_job outcome)" by (rule dry_run_outcome [OF assms(1) Inr True])
      then have "run_schedule_exit res = Some 0" using dry_run_exit Inr by metis
      with e Inr True show ?thesis by simp
    next
      case False
      with e Inr show ?thesis by auto
    qed
  qed
qed

section \<open>Concrete commands\<close>

definition sample_options :: ScheduleOptions where
  "sample_options =
     \<lparr> o_dry_run = False, o_utc = False, o_tz = None, o_dst = None, o_no_rollover = False, o_cwd = None, o_shell = False,
       o_name = None, o_description = None, o_env = [], o_env_file = None, o_capture_env = False, o_missed = None,
       o_durable = False, o_every = Some ''1m'', o_tty = False \<rparr>"

definition sample_args :: SchedulingArgs where
  "sample_args =
     \<lparr> a_global = \<lparr> g_json = False, g_quiet = False, g_verbose = False, g_color = None \<rparr>,
       a_options = sample_options, a_when = [], a_argv = [''true''] \<rparr>"

definition sample_submit :: submit_env where
  "sample_submit =
     \<lparr> se_paths = Inr ''/s'', se_config = Inr None, se_toml = (\<lambda>_. Inl ''no file''), se_zone = (\<lambda>_. False),
       se_vars = [], se_canonical = (\<lambda>_. Inr ''/''), se_is_dir = (\<lambda>_. True),
       se_metadata = (\<lambda>_. Inl ''none''), se_read = (\<lambda>_. Inl ''none''), se_tty = Inl ''no tty'', se_uid = 1000,
       se_fresh = JobId 1, se_wall = Inr 0, se_elapsed = Inr (ElapsedInstant 0), se_service = Inr (False, False),
       se_private_dir = Inr (), se_open = Inr (), se_fault = (\<lambda>_. None) \<rparr>"

definition sample_config :: Config where
  "sample_config =
     \<lparr> default_timezone = ''local'', default_runtime = RuntimeTier.Session, default_shell = ''/bin/sh'',
       cancel_grace = DurationSeconds 10, config_history_days = 30, config_terminal_job_days = 30,
       max_log_bytes_per_stream = 10485760, config_color = ColorMode.Auto, config_verbosity = Verbosity.Normal \<rparr>"

lemma sample_minute: "DurationSeconds_from_str ''1m'' = Inr (DurationSeconds 60)"
proof -
  have "DurationSeconds_to_string (DurationSeconds 60) = ''1m''"
    by (simp add: DurationSeconds_to_string_def show_nat.simps char_of_def bit_Suc_0_iff)
  then show ?thesis
    using from_str_to_string [of "DurationSeconds 60"] by (simp add: valid_duration_def)
qed

lemma sample_build: "build_job J Z (\<lambda>_. True) sample_submit sample_args sample_config 0 (ElapsedInstant 0) = Inr sample_job"
proof -
  have "relative_deadline (\<lambda>_. True) 0 (ElapsedInstant 0) (DurationSeconds 60)
      = Inr \<lparr> elapsed_due = ElapsedInstant 60000000000, relative_due_utc = 60000000000 \<rparr>"
    by (subst relative_deadline_both_clocks) (simp_all add: valid_duration_def period_def)
  then have "build_schedule J Z (\<lambda>_. True) sample_args sample_config 0 (ElapsedInstant 0)
      = Inr (RecurringInterval (DurationSeconds 60) 60000000000)"
    by (simp add: build_schedule_def sample_args_def sample_options_def calendar_options_def sample_minute)
  moreover have "build_execution sample_submit sample_args sample_config = Inr sample_execution"
    by (simp add: build_execution_def sample_args_def sample_options_def sample_submit_def build_environment_def
        collect_process_environment_def extend_def from_pairs_def ExecutionSpec_new_def contains_nul_def MAX_ARGUMENT_BYTES_def
        is_absolute_def MAX_SERIALIZED_BYTES_def argv_size_def env_serialized_size_def sample_execution_def byte_def)
  ultimately show ?thesis
    by (simp add: build_job_def Job_new_def Revision_new_def set_metadata_def sample_job_def sample_submit_def
        sample_args_def sample_options_def sample_config_def)
qed

lemma sample_tzdb: "named_tzdb sample_zones"
  by (simp add: named_tzdb_def sample_zones_def contains_nul_def)


lemma sample_loads: "load_effective_config sample_submit ''/s'' (a_global sample_args) False = Inr sample_config"
proof -
  have "DurationSeconds_to_string (DurationSeconds 10) = ''10s''"
    by (simp add: DurationSeconds_to_string_def show_nat.simps char_of_def bit_Suc_0_iff)
  then have "DurationSeconds_from_str ''10s'' = Inr (DurationSeconds 10)"
    using from_str_to_string [of "DurationSeconds 10"] by (simp add: valid_duration_def)
  then show ?thesis
    by (simp add: load_effective_config_def sample_submit_def collect_process_environment_def sample_args_def load_config_def
        environment_layer_def cli_overrides_def RawConfig_default_def RawConfig_apply_def replace_some_def validate_def
        DEFAULT_CANCEL_GRACE_def checked_days_def MAX_DAYS_def DEFAULT_MAX_LOG_BYTES_def MAX_LOG_BYTES_def is_absolute_def
        contains_nul_def sample_config_def)
qed

lemma sample_schedules:
  assumes "create sample_codec (\<lambda>_. None) empty_db sample_job = Inr d" "acknowledge d (JobId 1) (Revision 1) = Inr ()"
  shows "schedule sample_codec sample_civil sample_zones (\<lambda>_. True) sample_submit acknowledge sample_args empty_db
       = (Inr (Supervised sample_job), d)"
proof -
  have f: "se_paths sample_submit = Inr ''/s''" "se_wall sample_submit = Inr 0" "se_elapsed sample_submit = Inr (ElapsedInstant 0)"
    "se_private_dir sample_submit = Inr ()" "se_open sample_submit = Inr ()" "se_fault sample_submit = (\<lambda>_. None)"
    "\<not> o_durable (a_options sample_args)" "\<not> o_dry_run (a_options sample_args)" "job_tier sample_job = RuntimeTier.Session"
    "job_id sample_job = JobId 1" "job_revision sample_job = Revision 1"
    by (simp_all add: sample_submit_def sample_args_def sample_options_def sample_job_def)
  show ?thesis
    using assms sample_loads sample_build [of sample_civil sample_zones]
    by (simp add: schedule_def submit_job_def create_job_def on_ok_def f)
qed

theorem schedule_command_durable_witness:
  "\<exists>db'. schedule sample_codec sample_civil sample_zones (\<lambda>_. True) sample_submit (\<lambda>_ _ _. Inr ()) sample_args empty_db
       = (Inr (Supervised sample_job), db')
     \<and> load_job sample_codec db' (JobId 1) = Inr (Some sample_job)"
proof -
  obtain db' where "create sample_codec (\<lambda>_. None) empty_db sample_job = Inr db'"
    using sample_job_created by blast
  then have s: "schedule sample_codec sample_civil sample_zones (\<lambda>_. True) sample_submit (\<lambda>_ _ _. Inr ()) sample_args empty_db
       = (Inr (Supervised sample_job), db')"
    by (rule sample_schedules) simp
  from schedule_command_durable [OF s sample_codec_ok sample_tzdb] s show ?thesis
    by (simp add: sample_args_def sample_options_def sample_submit_def)
qed

definition assigning_args :: SchedulingArgs where
  "assigning_args = sample_args\<lparr>a_options := sample_options\<lparr>o_env := [''A=1'', ''A=2''], o_env_file := Some ''f''\<rparr>\<rparr>"

definition populated_env :: submit_env where
  "populated_env = sample_submit\<lparr>se_vars := [(''A'', ''0''), (''S'', ''secret''), (''HOME'', ''/h'')],
     se_metadata := (\<lambda>_. Inr (True, 3)), se_read := (\<lambda>_. Inr ''B=3'')\<rparr>"

lemma populated_environment:
  "build_environment populated_env assigning_args
     = Inr [(''A'', SecretString ''2''), (''B'', SecretString ''3''), (''HOME'', SecretString ''/h'')]"
  by (simp add: build_environment_def collect_process_environment_def populated_env_def assigning_args_def sample_args_def
      sample_options_def sample_submit_def default_retained_key_def extend_def read_env_file_def MAX_ENV_FILE_BYTES_def
      contains_nul_def str_lines.simps split_assignment_def from_pairs_def validate_environment_key_def SecretString_new_def
      is_ascii_alphabetic_def is_ascii_alphanumeric_def is_ascii_digit_def byte_def)

theorem environment_precedence_witness:
  "\<exists>vars. build_environment populated_env assigning_args = Inr vars \<and> valid_environment vars
     \<and> map_of vars ''A'' = Some (SecretString ''2'') \<and> map_of vars ''S'' = None"
  using environment_precedence [OF populated_environment] populated_environment by auto

text \<open>
  The words of a duration are glued without a separator: \<open>1\<close> and \<open>30m\<close> given as two words are
  130 minutes, while the same text given as one word is refused.
\<close>

lemma duration_words_glued:
  "build_schedule J Z (\<lambda>_. True) (sample_args\<lparr>a_when := [''1'', ''30m''], a_options := sample_options\<lparr>o_every := None\<rparr>\<rparr>)
     config 0 (ElapsedInstant 0) = Inr (OneShotRelative (DurationSeconds 7800) 7800000000000)
   \<and> DurationSeconds_from_str (join_words [''1'', ''30m'']) = Inl DurationError.ExpectedUnit"
proof
  have trims: "trim ''130m'' = ''130m''" "trim ''1 30m'' = ''1 30m''"
    by (rule trim_ascii; simp add: byte_def)+
  have "duration_text 4 (''130'' @ ''m'') (130 * 60)"
    by (rule duration_text.single [where r = 2])
      (simp_all add: is_ascii_digit_def byte_def decimal_value_def digit_val_def component_m)
  then have d: "DurationSeconds_from_str ''130m'' = Inr (DurationSeconds 7800)"
    by (simp add: from_str_grammar trims valid_duration_def)
  have "relative_deadline (\<lambda>_. True) 0 (ElapsedInstant 0) (DurationSeconds 7800)
      = Inr \<lparr> elapsed_due = ElapsedInstant 7800000000000, relative_due_utc = 7800000000000 \<rparr>"
    by (subst relative_deadline_both_clocks) (simp_all add: valid_duration_def period_def)
  with d show "build_schedule J Z (\<lambda>_. True) (sample_args\<lparr>a_when := [''1'', ''30m''], a_options := sample_options\<lparr>o_every := None\<rparr>\<rparr>)
     config 0 (ElapsedInstant 0) = Inr (OneShotRelative (DurationSeconds 7800) 7800000000000)"
    by (simp add: build_schedule_def sample_options_def is_duration_input_def is_ascii_digit_def byte_def calendar_options_def
        one_shot_relative_def)
  show "DurationSeconds_from_str (join_words [''1'', ''30m'']) = Inl DurationError.ExpectedUnit"
    by (simp add: join_words_def DurationSeconds_from_str_def trims parse_components.simps [of "''1 30m''"]
        is_ascii_digit_def byte_def parse_u64_def decimal_value_def digit_val_def unit_scale_def)
qed

end
