(* ===== verification/Ipc.thy ===== *)
theory Ipc
  imports Management Paths "HOL-Library.While_Combinator"
begin

text \<open>
  The client of the wake protocol (\<open>SocketAcknowledger\<close> of \<open>src/supervisor/ipc.rs\<close> and
  \<open>SessionAcknowledger\<close> of \<open>src/cli/dispatch.rs\<close>) and its exchange with the supervisor's side
  (\<open>serve_ipc\<close> of \<open>src/supervisor/daemon.rs\<close>).

  The peer is a function from the bytes it receives to the bytes it sends before the connection
  ends or times out.
\<close>

section \<open>The client\<close>

datatype IpcError =
    AlreadyRunning
  | LockSubstitution
  | SocketSubstitution
  | MalformedLock
  | InvalidAcknowledgement
  | Rejected string
  | Runtime string
  | Io string
  | Json string
  | Frame FrameError

fun FrameError_text :: "FrameError \<Rightarrow> string" where
  "FrameError_text FrameTooLarge = ''IPC frame is empty or too large''"
| "FrameError_text (FrameError.Io e) = ''IPC I/O failed: '' @ e"
| "FrameError_text (FrameError.Json e) = ''IPC JSON failed: '' @ e"

fun IpcError_text :: "IpcError \<Rightarrow> string" where
  "IpcError_text AlreadyRunning = ''another supervisor is running''"
| "IpcError_text LockSubstitution = ''runtime lock was substituted''"
| "IpcError_text IpcError.SocketSubstitution = ''runtime socket was substituted''"
| "IpcError_text MalformedLock = ''runtime lock is malformed''"
| "IpcError_text IpcError.InvalidAcknowledgement = ''supervisor returned the wrong acknowledgement''"
| "IpcError_text (IpcError.Rejected reason) = ''supervisor rejected the wake: '' @ reason"
| "IpcError_text (Runtime e) = ''runtime setup failed: '' @ e"
| "IpcError_text (IpcError.Io e) = ''IPC I/O failed: '' @ e"
| "IpcError_text (IpcError.Json e) = ''IPC JSON failed: '' @ e"
| "IpcError_text (Frame e) = FrameError_text e"

record ack_env =
  ae_metadata :: "(string, metadata) result"
  ae_uid :: u32
  ae_connect :: "(string, unit) result"
  ae_timeouts :: "(string, unit) result"
  ae_fault :: "nat \<Rightarrow> string option"
  ae_peer :: "u8 list \<Rightarrow> u8 list"

record message_json =
  mj_to :: "IpcMessage \<Rightarrow> (string, u8 list) result"
  mj_of :: "u8 list \<Rightarrow> (string, IpcMessage) result"

definition owned_socket :: "metadata \<Rightarrow> u32 \<Rightarrow> bool" where
  "owned_socket m uid = (md_kind m = SocketFile \<and> md_uid m = uid \<and> permissions m = 0x180)"

definition read_acknowledgement :: "IpcMessage \<Rightarrow> JobId \<Rightarrow> Revision \<Rightarrow> (IpcError, unit) result" where
  "read_acknowledgement reply i revision =
     (case reply of
        Ack protocol acknowledged_job acknowledged_revision \<Rightarrow>
          if protocol = 1 \<and> acknowledged_job = i \<and> acknowledged_revision = revision then Inr ()
          else Inl IpcError.InvalidAcknowledgement
      | Nack protocol reason \<Rightarrow>
          if protocol = 1 then Inl (IpcError.Rejected reason) else Inl IpcError.InvalidAcknowledgement
      | _ \<Rightarrow> Inl IpcError.InvalidAcknowledgement)"

definition send :: "message_json \<Rightarrow> ack_env \<Rightarrow> JobId \<Rightarrow> Revision \<Rightarrow> (IpcError, unit) result" where
  "send mj env i revision =
     try_bind (map_err IpcError.Io (ae_metadata env)) (\<lambda>m.
     if \<not> owned_socket m (ae_uid env) then Inl IpcError.SocketSubstitution
     else try_bind (map_err IpcError.Io (ae_connect env)) (\<lambda>_.
     try_bind (map_err IpcError.Io (ae_timeouts env)) (\<lambda>_.
     try_bind (map_err Frame (write_frame (mj_to mj) (ae_fault env) (Wake 1 i revision))) (\<lambda>sent.
     try_bind (map_err Frame (read_frame (mj_of mj) (ae_peer env sent))) (\<lambda>(reply, _).
     read_acknowledgement reply i revision)))))"

definition to_ack_error :: "IpcError \<Rightarrow> SupervisorAckError" where
  "to_ack_error e =
     (case e of
        IpcError.Rejected reason \<Rightarrow> SupervisorAckError.Rejected reason
      | IpcError.SocketSubstitution \<Rightarrow> SupervisorAckError.SocketSubstitution
      | IpcError.InvalidAcknowledgement \<Rightarrow> SupervisorAckError.InvalidAcknowledgement
      | other \<Rightarrow> Unavailable (IpcError_text other))"

definition socket_acknowledge :: "message_json \<Rightarrow> ack_env \<Rightarrow> JobId \<Rightarrow> Revision \<Rightarrow> (SupervisorAckError, unit) result" where
  "socket_acknowledge mj env i revision = map_err to_ack_error (send mj env i revision)"

section \<open>Starting the supervisor on demand\<close>

text \<open>
  The \<open>n\<close>-th attempt to reach the supervisor, the start of a supervisor, and the clock at the
  \<open>n\<close>-th reading; the deadline is ten seconds after the reading \<open>0\<close>.
\<close>

record session_env =
  sa_attempt :: "nat \<Rightarrow> (SupervisorAckError, unit) result"
  sa_start :: "(string, unit) result"
  sa_now :: "nat \<Rightarrow> nat"

definition SUPERVISOR_READY_TIMEOUT :: nat where
  "SUPERVISOR_READY_TIMEOUT = 10 * 1000000000"

fun retryable :: "(SupervisorAckError, unit) result \<Rightarrow> bool" where
  "retryable (Inr _) = False"
| "retryable (Inl (SupervisorAckError.Rejected _)) = False"
| "retryable (Inl _) = True"

definition keeps_polling :: "session_env \<Rightarrow> nat \<Rightarrow> bool" where
  "keeps_polling env n = (retryable (sa_attempt env n) \<and> \<not> sa_now env 0 + SUPERVISOR_READY_TIMEOUT \<le> sa_now env n)"

text \<open>\<open>None\<close> if the loop does not end.\<close>

definition session_acknowledge :: "session_env \<Rightarrow> (SupervisorAckError, unit) result option" where
  "session_acknowledge env =
     (if sa_attempt env 0 = Inr () then Some (Inr ())
      else case sa_start env of
        Inl e \<Rightarrow> Some (Inl (Unavailable e))
      | Inr _ \<Rightarrow> map_option (sa_attempt env) (while_option (keeps_polling env) Suc 1))"

section \<open>The supervisor's side\<close>

text \<open>
  One connection as \<open>serve_ipc\<close> handles it: the frame read from the bytes received, the bytes of
  the reply and the events sent to the loop.  An error in writing the reply is ignored; then the
  client gets only the first \<open>delivered\<close> bytes of it.
\<close>

definition serve_connection ::
  "codec \<Rightarrow> message_json \<Rightarrow> (nat \<Rightarrow> wake_env) \<Rightarrow> bool \<Rightarrow> nat \<Rightarrow> u8 list \<Rightarrow> u8 list \<times> SupervisorEvent list" where
  "serve_connection C mj envs alive delivered bytes =
     (let c = \<lparr> cn_frame = map_ok fst (read_frame (mj_of mj) bytes), cn_envs = envs, cn_receiver_alive = alive \<rparr>;
          (replies, events) = serve_ipc C [Some c]
      in (case replies of
            [Some reply] \<Rightarrow> (case write_frame (mj_to mj) (\<lambda>_. None) reply of
                Inr frame \<Rightarrow> take delivered frame | Inl _ \<Rightarrow> [])
          | _ \<Rightarrow> [],
          events))"

section \<open>What an acknowledgement means\<close>

definition json_ok :: "message_json \<Rightarrow> bool" where
  "json_ok mj = (\<forall>m body. mj_to mj m = Inr body \<longrightarrow> mj_of mj body = Inr m \<and> body \<noteq> [])"

lemma json_okD: "json_ok mj \<Longrightarrow> mj_to mj m = Inr body \<Longrightarrow> mj_of mj body = Inr m \<and> body \<noteq> []"
  by (simp add: json_ok_def)

lemma read_acknowledgement_eq:
  "read_acknowledgement reply i revision = Inr u \<longleftrightarrow> reply = Ack 1 i revision"
  "read_acknowledgement reply i revision = Inl (IpcError.Rejected reason) \<longleftrightarrow> reply = Nack 1 reason"
  by (auto simp: read_acknowledgement_def split: IpcMessage.splits)

lemma to_ack_error_Rejected: "to_ack_error e = SupervisorAckError.Rejected reason \<longleftrightarrow> e = IpcError.Rejected reason"
  by (cases e) (simp_all add: to_ack_error_def)

lemma send_cases:
  "send mj env i revision = Inr u \<longleftrightarrow> (\<exists>m sent rest. ae_metadata env = Inr m \<and> owned_socket m (ae_uid env)
     \<and> ae_connect env = Inr () \<and> ae_timeouts env = Inr () \<and> write_frame (mj_to mj) (ae_fault env) (Wake 1 i revision) = Inr sent
     \<and> read_frame (mj_of mj) (ae_peer env sent) = Inr (Ack 1 i revision, rest))"
  "send mj env i revision = Inl (IpcError.Rejected reason) \<longleftrightarrow> (\<exists>m sent rest. ae_metadata env = Inr m
     \<and> owned_socket m (ae_uid env) \<and> ae_connect env = Inr () \<and> ae_timeouts env = Inr ()
     \<and> write_frame (mj_to mj) (ae_fault env) (Wake 1 i revision) = Inr sent
     \<and> read_frame (mj_of mj) (ae_peer env sent) = Inr (Nack 1 reason, rest))"
  by (auto simp: send_def result_simps read_acknowledgement_eq split: if_splits prod.splits)

lemma socket_acknowledge_send:
  "socket_acknowledge mj env i revision = Inr u \<longleftrightarrow> send mj env i revision = Inr u"
  "socket_acknowledge mj env i revision = Inl (SupervisorAckError.Rejected reason) \<longleftrightarrow>
     send mj env i revision = Inl (IpcError.Rejected reason)"
  by (cases "send mj env i revision"; auto simp: socket_acknowledge_def to_ack_error_Rejected; metis to_ack_error_Rejected)+

text \<open>A frame that was cut off is not read as a message.\<close>

lemma read_cut_frame:
  assumes "write_frame to_json fault message = Inr frame" "n < length frame"
  shows "\<exists>e. read_frame of_json (take n frame) = Inl e"
proof -
  obtain body where b: "length body \<le> MAX_FRAME_BYTES" "frame = to_be_bytes (of_nat (length body)) @ body"
    using assms(1) by (auto simp: write_frame_def result_simps split: if_splits)
  then have u: "unat (of_nat (length body) :: u32) = length body"
    by (simp add: MAX_FRAME_BYTES_def unat_of_nat)
  show ?thesis
  proof (cases "n < 4")
    case True
    then show ?thesis by (simp add: read_frame_def read_exact_def min_def)
  next
    case False
    with assms(2) b(2) show ?thesis
      by (auto simp: read_frame_def read_exact_def u Let_def)
  qed
qed

lemma serve_connection_reply:
  assumes law: "json_ok mj"
    and w: "write_frame (mj_to mj) fault (Wake 1 i revision) = Inr sent"
    and s: "serve_connection C mj envs alive delivered sent = (bytes, events)"
    and r: "read_frame (mj_of mj) bytes = Inr (reply, rest)"
  shows "(case load_wake_with_retry C envs i of
        Inr (WakeDisposition.Schedule d) \<Rightarrow> alive \<and> reply = Ack 1 i revision \<and> events = [SupervisorEvent.Schedule i d]
      | Inr WakeDisposition.AlreadyTerminal \<Rightarrow> reply = Ack 1 i revision \<and> events = []
      | Inl e \<Rightarrow> reply = Nack 1 (DaemonError_text e) \<and> events = [])"
proof -
  have f: "read_frame (mj_of mj) sent = Inr (Wake 1 i revision, [])"
    using read_write_frame [OF w, of "mj_of mj" "[]"] json_okD [OF law] by simp
  have empty: "\<nexists>x. read_frame (mj_of mj) [] = Inr x"
    by (simp add: read_frame_def read_exact_def)
  have same: "reply = message" if "bytes = (case write_frame (mj_to mj) (\<lambda>_. None) message of Inr frame \<Rightarrow> take delivered frame | Inl _ \<Rightarrow> [])"
    for message
  proof (cases "write_frame (mj_to mj) (\<lambda>_. None) message")
    case (Inl e)
    with that r empty show ?thesis by simp
  next
    case (Inr frame)
    with that r read_cut_frame [OF Inr, of delivered "mj_of mj"] have "bytes = frame"
      by (metis Inl_Inr_False linorder_not_less sum.case(2) take_all)
    with r read_write_frame [OF Inr, of "mj_of mj" "[]"] json_okD [OF law] show ?thesis by simp
  qed
  have ne: "bytes \<noteq> []" using r empty by auto
  show ?thesis
    using s ne same f
    by (auto simp: serve_connection_def split: sum.splits WakeDisposition.splits if_splits)
qed

lemma acknowledged_wake_effect:
  assumes law: "json_ok mj"
    and peer: "\<And>bytes. ae_peer env bytes = fst (serve_connection C mj envs alive delivered bytes)"
  shows "(\<forall>sent. socket_acknowledge mj env i revision = Inr () \<and> write_frame (mj_to mj) (ae_fault env) (Wake 1 i revision) = Inr sent \<longrightarrow>
        (\<exists>m. ae_metadata env = Inr m \<and> owned_socket m (ae_uid env))
        \<and> (load_wake_with_retry C envs i = Inr WakeDisposition.AlreadyTerminal
           \<or> (\<exists>k<3. \<exists>job wall now deadline. load_job C (we_db (envs k)) i = Inr (Some job) \<and> \<not> JobState_is_terminal (job_state job)
                \<and> we_wall (envs k) = Inr wall \<and> we_elapsed (envs k) = Inr now
                \<and> reconcile_wall_schedule wall now (job_next_due job) = Inr deadline
                \<and> snd (serve_connection C mj envs alive delivered sent) = [SupervisorEvent.Schedule i deadline])))
    \<and> (\<forall>reason. socket_acknowledge mj env i revision = Inl (SupervisorAckError.Rejected reason) \<longrightarrow>
        (\<exists>e. load_wake_with_retry C envs i = Inl e \<and> reason = DaemonError_text e))"
proof (intro conjI allI impI)
  fix sent
  assume a: "socket_acknowledge mj env i revision = Inr () \<and> write_frame (mj_to mj) (ae_fault env) (Wake 1 i revision) = Inr sent"
  then obtain m rest where m: "ae_metadata env = Inr m" "owned_socket m (ae_uid env)"
    and r: "read_frame (mj_of mj) (ae_peer env sent) = Inr (Ack 1 i revision, rest)"
    by (auto simp: socket_acknowledge_send send_cases)
  show "\<exists>m. ae_metadata env = Inr m \<and> owned_socket m (ae_uid env)" using m by blast
  obtain bytes events where s: "serve_connection C mj envs alive delivered sent = (bytes, events)"
    by (cases "serve_connection C mj envs alive delivered sent")
  note reply = serve_connection_reply [OF law conjunct2 [OF a] s, of "Ack 1 i revision" rest]
  show "load_wake_with_retry C envs i = Inr WakeDisposition.AlreadyTerminal
     \<or> (\<exists>k<3. \<exists>job wall now deadline. load_job C (we_db (envs k)) i = Inr (Some job) \<and> \<not> JobState_is_terminal (job_state job)
          \<and> we_wall (envs k) = Inr wall \<and> we_elapsed (envs k) = Inr now
          \<and> reconcile_wall_schedule wall now (job_next_due job) = Inr deadline
          \<and> snd (serve_connection C mj envs alive delivered sent) = [SupervisorEvent.Schedule i deadline])"
  proof (cases "load_wake_with_retry C envs i = Inr WakeDisposition.AlreadyTerminal")
    case False
    then obtain d where d: "load_wake_with_retry C envs i = Inr (WakeDisposition.Schedule d)" "events = [SupervisorEvent.Schedule i d]"
      using reply r s peer by (auto split: sum.splits WakeDisposition.splits)
    then obtain k where k: "k < 3" "load_wake C (envs k) i = Inr (WakeDisposition.Schedule d)"
      using load_wake_attempts_Inr by (fastforce simp: load_wake_with_retry_def)
    obtain job wall now where "load_job C (we_db (envs k)) i = Inr (Some job)" "\<not> JobState_is_terminal (job_state job)"
      "we_wall (envs k) = Inr wall" "we_elapsed (envs k) = Inr now" "reconcile_wall_schedule wall now (job_next_due job) = Inr d"
      using load_wake_Schedule [OF k(2)] by blast
    with k(1) d(2) s show ?thesis by (metis snd_conv)
  qed simp
next
  fix reason
  assume "socket_acknowledge mj env i revision = Inl (SupervisorAckError.Rejected reason)"
  then obtain sent rest where w: "write_frame (mj_to mj) (ae_fault env) (Wake 1 i revision) = Inr sent"
    and r: "read_frame (mj_of mj) (ae_peer env sent) = Inr (Nack 1 reason, rest)"
    by (auto simp: socket_acknowledge_send send_cases)
  obtain bytes events where s: "serve_connection C mj envs alive delivered sent = (bytes, events)"
    by (cases "serve_connection C mj envs alive delivered sent")
  show "\<exists>e. load_wake_with_retry C envs i = Inl e \<and> reason = DaemonError_text e"
    using serve_connection_reply [OF law w s, of "Nack 1 reason" rest] r s peer
    by (auto split: sum.splits WakeDisposition.splits)
qed

text \<open>
  An acknowledgement is worth something.  Whoever answers on the socket, a wake is taken as
  acknowledged only if the socket belongs to the user with mode 0600 and the answer names this job
  and revision in this protocol.  If the answer comes from the supervisor, then an acknowledged job
  had ended, or was read from the store in one of three attempts and its deadline, the elapsed-clock
  image of its stored due time, was handed to the event loop; and a rejection carries the reason
  why the job could not be read.
\<close>

theorem acknowledged_wake_scheduled:
  assumes law: "json_ok mj"
    and peer: "\<And>bytes. ae_peer env bytes = fst (serve_connection C mj envs alive delivered bytes)"
  shows "(\<forall>sent. socket_acknowledge mj env i revision = Inr () \<and> write_frame (mj_to mj) (ae_fault env) (Wake 1 i revision) = Inr sent \<longrightarrow>
        (\<exists>m. ae_metadata env = Inr m \<and> owned_socket m (ae_uid env))
        \<and> (load_wake_with_retry C envs i = Inr WakeDisposition.AlreadyTerminal
           \<or> (\<exists>k<3. \<exists>job wall now deadline. load_job C (we_db (envs k)) i = Inr (Some job) \<and> \<not> JobState_is_terminal (job_state job)
                \<and> we_wall (envs k) = Inr wall \<and> we_elapsed (envs k) = Inr now
                \<and> reconcile_wall_schedule wall now (job_next_due job) = Inr deadline
                \<and> snd (serve_connection C mj envs alive delivered sent) = [SupervisorEvent.Schedule i deadline])))
    \<and> (\<forall>reason. socket_acknowledge mj env i revision = Inl (SupervisorAckError.Rejected reason) \<longrightarrow>
        (\<exists>e. load_wake_with_retry C envs i = Inl e \<and> reason = DaemonError_text e))"
  using acknowledged_wake_effect [OF law, of env C envs alive delivered, OF peer] .

section \<open>Waiting for the supervisor\<close>

lemma polling_ends:
  assumes "\<And>limit. \<exists>n. limit \<le> sa_now env n" "\<And>m n. m \<le> n \<Longrightarrow> sa_now env m \<le> sa_now env n"
  shows "\<exists>n. while_option (keeps_polling env) Suc 1 = Some n"
proof -
  obtain N where N: "sa_now env 0 + SUPERVISOR_READY_TIMEOUT \<le> sa_now env N" using assms(1) by blast
  have "\<exists>s. while_option (keeps_polling env) Suc 1 = Some s"
  proof (rule measure_while_option_Some [where P = "\<lambda>_. True" and f = "\<lambda>n. N - n"])
    fix n
    assume "keeps_polling env n"
    then have "n < N"
      using N assms(2) [of N n] by (auto simp: keeps_polling_def not_le [symmetric] dest: order_trans)
    then show "True \<and> N - Suc n < N - n" by simp
  qed simp
  then show ?thesis by simp
qed

lemma polling_stops:
  assumes "while_option (keeps_polling env) Suc 1 = Some n"
  shows "\<not> keeps_polling env n \<and> 1 \<le> n \<and> (\<forall>j. 1 \<le> j \<and> j < n \<longrightarrow> keeps_polling env j)"
proof -
  have "1 \<le> n \<and> (\<forall>j. 1 \<le> j \<and> j < n \<longrightarrow> keeps_polling env j)"
    by (rule while_option_rule [where P = "\<lambda>n. 1 \<le> n \<and> (\<forall>j. 1 \<le> j \<and> j < n \<longrightarrow> keeps_polling env j)", OF _ assms])
      (auto simp: less_Suc_eq)
  with while_option_stop [OF assms] show ?thesis by simp
qed

text \<open>
  A submitting command does not wait for ever and does not give up early.  On a clock that
  advances the acknowledgement returns.  It succeeds exactly if an attempt succeeds: the first one,
  or, once a supervisor could be started, a later one, where every attempt before it failed for a
  reason that may go away and came before the deadline of ten seconds.
\<close>

theorem session_acknowledge_waits:
  assumes "\<And>limit. \<exists>n. limit \<le> sa_now env n" "\<And>m n. m \<le> n \<Longrightarrow> sa_now env m \<le> sa_now env n"
  shows "\<exists>r. session_acknowledge env = Some r
    \<and> (r = Inr () \<longleftrightarrow> sa_attempt env 0 = Inr () \<or> sa_start env = Inr () \<and>
         (\<exists>n\<ge>1. sa_attempt env n = Inr () \<and> (\<forall>j. 1 \<le> j \<and> j < n \<longrightarrow>
            retryable (sa_attempt env j) \<and> sa_now env j < sa_now env 0 + 10000000000)))"
proof -
  obtain n where w: "while_option (keeps_polling env) Suc 1 = Some n" using polling_ends [OF assms] by blast
  note stop = polling_stops [OF w]
  have first: "sa_attempt env n = Inr ()" if "k \<ge> 1" "sa_attempt env k = Inr ()" "\<forall>j. 1 \<le> j \<and> j < k \<longrightarrow> keeps_polling env j" for k
  proof -
    have "\<not> keeps_polling env k" using that(2) by (simp add: keeps_polling_def)
    then have "k = n" using stop that(1,3) by (metis linorder_neqE_nat)
    with that(2) show ?thesis by simp
  qed
  have keeps: "keeps_polling env j \<longleftrightarrow> retryable (sa_attempt env j) \<and> sa_now env j < sa_now env 0 + 10000000000" for j
    by (simp add: keeps_polling_def SUPERVISOR_READY_TIMEOUT_def not_le)
  have "sa_attempt env n = Inr () \<longleftrightarrow> (\<exists>n\<ge>1. sa_attempt env n = Inr () \<and> (\<forall>j. 1 \<le> j \<and> j < n \<longrightarrow> keeps_polling env j))"
    using stop first by blast
  then show ?thesis
    unfolding session_acknowledge_def w keeps [symmetric] by (cases "sa_start env") auto
qed

section \<open>Concrete exchanges\<close>

definition sample_mj :: message_json where
  "sample_mj = \<lparr>
     mj_to = (\<lambda>m. if m = Wake 1 (job_id sample_job) (Revision 1) then Inr [1]
                  else if m = Ack 1 (job_id sample_job) (Revision 1) then Inr [2] else Inl ''unsupported''),
     mj_of = (\<lambda>b. if b = [1] then Inr (Wake 1 (job_id sample_job) (Revision 1))
                  else if b = [2] then Inr (Ack 1 (job_id sample_job) (Revision 1)) else Inl ''syntax'') \<rparr>"

definition sample_ack :: "(nat \<Rightarrow> wake_env) \<Rightarrow> ack_env" where
  "sample_ack envs = \<lparr> ae_metadata = Inr \<lparr> md_kind = SocketFile, md_uid = 7, md_mode = 0x180, md_ino = 3 \<rparr>, ae_uid = 7,
     ae_connect = Inr (), ae_timeouts = Inr (), ae_fault = (\<lambda>_. None),
     ae_peer = (\<lambda>bytes. fst (serve_connection sample_codec sample_mj envs True 5 bytes)) \<rparr>"

lemma sample_mj_ok: "json_ok sample_mj"
  by (auto simp: json_ok_def sample_mj_def split: if_splits)

lemma sample_wake_sent:
  "write_frame (mj_to sample_mj) (\<lambda>_. None) (Wake 1 (job_id sample_job) (Revision 1)) = Inr (to_be_bytes 1 @ [1])"
  by (simp add: write_frame_def sample_mj_def MAX_FRAME_BYTES_def write_all_def)

lemma sample_exchange:
  assumes "create sample_codec (\<lambda>_. None) empty_db sample_job = Inr db"
  shows "load_wake_with_retry sample_codec (cn_envs (sample_wake db)) (job_id sample_job) = Inr (WakeDisposition.Schedule (ElapsedInstant 9))"
    and "socket_acknowledge sample_mj (sample_ack (cn_envs (sample_wake db))) (job_id sample_job) (Revision 1) = Inr ()"
proof -
  let ?envs = "cn_envs (sample_wake db)"
  have load: "load_job sample_codec db (job_id sample_job) = Inr (Some sample_job)"
    by (rule create_load(2) [OF assms sample_codec_ok sample_job_storable])
  have due: "job_next_due sample_job = 60000000000" "job_state sample_job = JobState.Scheduled"
    by (simp_all add: sample_job_def)
  show wake: "load_wake_with_retry sample_codec ?envs (job_id sample_job) = Inr (WakeDisposition.Schedule (ElapsedInstant 9))"
    by (simp add: load_wake_with_retry_def sample_wake_def load_wake_def statement_def load due
        upt_rec JobState_is_terminal_def reconcile_wall_schedule_def)
  have r: "read_frame (mj_of sample_mj) (to_be_bytes 1 @ [b]) = map_ok (\<lambda>m. (m, [])) (map_err FrameError.Json (mj_of sample_mj [b]))" for b
    by (simp add: read_frame_def read_exact_def MAX_FRAME_BYTES_def)
  have serve: "serve_connection sample_codec sample_mj ?envs True 5 (to_be_bytes 1 @ [1]) =
      (to_be_bytes 1 @ [2], [SupervisorEvent.Schedule (job_id sample_job) (ElapsedInstant 9)])"
    using wake r [of 1] by (simp add: serve_connection_def sample_mj_def write_frame_def MAX_FRAME_BYTES_def write_all_def)
  show "socket_acknowledge sample_mj (sample_ack ?envs) (job_id sample_job) (Revision 1) = Inr ()"
    using sample_wake_sent serve r [of 2]
    by (simp add: socket_acknowledge_send send_cases sample_ack_def owned_socket_def permissions_def) (simp add: sample_mj_def)
qed

theorem acknowledged_wake_scheduled_witness:
  "\<exists>db sent deadline. socket_acknowledge sample_mj (sample_ack (cn_envs (sample_wake db))) (job_id sample_job) (Revision 1) = Inr ()
     \<and> snd (serve_connection sample_codec sample_mj (cn_envs (sample_wake db)) True 5 sent)
         = [SupervisorEvent.Schedule (job_id sample_job) deadline]"
proof -
  obtain db where c: "create sample_codec (\<lambda>_. None) empty_db sample_job = Inr db"
    using sample_job_created by blast
  let ?envs = "cn_envs (sample_wake db)"
  from acknowledged_wake_scheduled [where env = "sample_ack ?envs" and C = sample_codec and envs = ?envs and alive = True and delivered = 5,
      OF sample_mj_ok, of "job_id sample_job" "Revision 1"] sample_exchange [OF c] sample_wake_sent
  show ?thesis by (auto simp: sample_ack_def)
qed

definition sample_session :: session_env where
  "sample_session = \<lparr> sa_attempt = (\<lambda>n. if n < 3 then Inl (Unavailable ''refused'') else Inr ()), sa_start = Inr (),
     sa_now = (\<lambda>n. n * 50000000) \<rparr>"

theorem session_acknowledge_waits_witness:
  "session_acknowledge sample_session = Some (Inr ())"
proof -
  have l: "\<exists>n. limit \<le> sa_now sample_session n" for limit
    by (rule exI [of _ limit]) (simp add: sample_session_def)
  have m: "m \<le> n \<Longrightarrow> sa_now sample_session m \<le> sa_now sample_session n" for m n
    by (simp add: sample_session_def)
  have "\<exists>n\<ge>1. sa_attempt sample_session n = Inr () \<and> (\<forall>j. 1 \<le> j \<and> j < n \<longrightarrow>
      retryable (sa_attempt sample_session j) \<and> sa_now sample_session j < sa_now sample_session 0 + 10000000000)"
    by (rule exI [of _ 3]) (auto simp: sample_session_def)
  with session_acknowledge_waits [of sample_session, OF l m] show ?thesis
    by (auto simp: sample_session_def)
qed

end
