(* ===== verification/Process.thy ===== *)
theory Process
  imports Cancel_Run Reconcile "HOL-Library.While_Combinator"
begin

text \<open>
  Processes: identities read from \<open>/proc/<pid>/stat\<close> (\<open>src/infrastructure/process/mod.rs\<close>, the
  Linux side), the cancellation of a process group (\<open>src/infrastructure/process/cancel.rs\<close>) and
  the reaping of the monitors (\<open>src/supervisor/children.rs\<close>).

  What the kernel answers is the environment: the text of the file, the outcome of a signal, the
  clock and the state of the children, each indexed by the number of the call.
\<close>

section \<open>Identities\<close>

datatype NativeStatus = Alive | Dead | Reused

datatype ProcessError =
    InvalidIdentity
  | Malformed
  | PermissionDenied
  | Io string

definition validate_snapshot :: "ProcessIdentitySnapshot \<Rightarrow> (ProcessError, unit) result" where
  "validate_snapshot identity =
     (if boot_identity identity = [] \<or> contains_nul (boot_identity identity) \<or> pid identity = 0
         \<or> start_token identity = 0 \<or> process_group_id identity \<le> 0
      then Inl ProcessError.InvalidIdentity else Inr ())"

definition classify_identity :: "ProcessIdentitySnapshot \<Rightarrow> ProcessIdentitySnapshot option \<Rightarrow> NativeStatus" where
  "classify_identity expected current =
     (case current of None \<Rightarrow> NativeStatus.Dead
      | Some c \<Rightarrow> if c = expected then NativeStatus.Alive else Reused)"

record LinuxProcess =
  lp_identity :: ProcessIdentitySnapshot
  lp_state :: char

definition classify_linux_process :: "ProcessIdentitySnapshot \<Rightarrow> LinuxProcess option \<Rightarrow> NativeStatus" where
  "classify_linux_process expected current =
     (case current of
        None \<Rightarrow> NativeStatus.Dead
      | Some p \<Rightarrow>
          if lp_state p \<in> {CHR ''Z'', CHR ''X'', CHR ''x''} then NativeStatus.Dead
          else classify_identity expected (Some (lp_identity p)))"

text \<open>\<open>split_whitespace\<close>: the words between white-space characters.\<close>

function split_whitespace :: "string \<Rightarrow> string \<Rightarrow> string list" where
  "split_whitespace word s =
     (if s = [] then (if word = [] then [] else [word])
      else (let k = ws_head (map byte s)
            in if k = 0 then split_whitespace (word @ [hd s]) (tl s)
               else if word = [] then split_whitespace [] (drop k s)
               else word # split_whitespace [] (drop k s)))"
  by pat_completeness auto
termination
  by (relation "measure (\<lambda>(word, s). length s)") auto

declare split_whitespace.simps [simp del]

text \<open>\<open>str::parse::<i32>\<close>.\<close>

definition parse_i32 :: "string \<Rightarrow> int option" where
  "parse_i32 text =
     (let ds = (if text \<noteq> [] \<and> hd text \<in> {CHR ''+'', CHR ''-''} then tl text else text);
          n = (if text \<noteq> [] \<and> hd text = CHR ''-'' then - int (decimal_value ds) else int (decimal_value ds))
      in if ds = [] \<or> \<not> list_all is_ascii_digit ds \<or> n < - (2 ^ 31) \<or> 2 ^ 31 \<le> n then None else Some n)"

definition find_first :: "char \<Rightarrow> string \<Rightarrow> nat option" where
  "find_first c s = (if c \<in> set s then Some (length (takeWhile (\<lambda>x. x \<noteq> c) s)) else None)"

definition find_last :: "char \<Rightarrow> string \<Rightarrow> nat option" where
  "find_last c s = (if c \<in> set s then Some (length s - 1 - length (takeWhile (\<lambda>x. x \<noteq> c) (rev s))) else None)"

definition nth_field :: "string list \<Rightarrow> nat \<Rightarrow> (ProcessError, string) result" where
  "nth_field words n = (if n < length words then Inr (words ! n) else Inl Malformed)"

definition parse_linux_process :: "string \<Rightarrow> string \<Rightarrow> (ProcessError, LinuxProcess) result" where
  "parse_linux_process stat boot =
     try_bind (ok_or Malformed (find_first (CHR ''('') stat)) (\<lambda>opening.
     try_bind (ok_or Malformed (find_last (CHR '')'') stat)) (\<lambda>closing.
     if opening = 0 \<or> closing \<le> opening then Inl Malformed
     else try_bind (ok_or Malformed (parse_unsigned (trim (take opening stat)))) (\<lambda>p.
     (let words = split_whitespace [] (drop (closing + 1) stat) in
     try_bind (nth_field words 0) (\<lambda>state.
     if length state \<noteq> 1 then Inl Malformed
     else try_bind (nth_field words 1) (\<lambda>_.
     try_bind (nth_field words 2) (\<lambda>group_text.
     try_bind (ok_or Malformed (parse_i32 group_text)) (\<lambda>group.
     try_bind (nth_field words 19) (\<lambda>start_text.
     try_bind (ok_or Malformed (parse_unsigned start_text)) (\<lambda>start.
     (let snapshot = \<lparr> boot_identity = boot, pid = p, start_token = start, process_group_id = group \<rparr> in
     try_bind (validate_snapshot snapshot) (\<lambda>_.
     Inr \<lparr> lp_identity = snapshot, lp_state = hd state \<rparr>))))))))))))"

text \<open>Reading the file: \<open>None\<close> when the entry has vanished; the errors are mapped already.\<close>

type_synonym proc_files = "u32 \<Rightarrow> (ProcessError, string option) result"

definition inspect_linux_process :: "proc_files \<Rightarrow> string \<Rightarrow> u32 \<Rightarrow> (ProcessError, LinuxProcess option) result" where
  "inspect_linux_process files boot p =
     try_bind (files p) (\<lambda>stat.
     case stat of None \<Rightarrow> Inr None | Some text \<Rightarrow> map_ok Some (parse_linux_process text boot))"

definition inspect :: "proc_files \<Rightarrow> string \<Rightarrow> u32 \<Rightarrow> (ProcessError, ProcessIdentitySnapshot option) result" where
  "inspect files boot p =
     (if p = 0 then Inl ProcessError.InvalidIdentity
      else map_ok (map_option lp_identity) (inspect_linux_process files boot p))"

definition classify :: "proc_files \<Rightarrow> string \<Rightarrow> ProcessIdentitySnapshot \<Rightarrow> (ProcessError, NativeStatus) result" where
  "classify files boot expected =
     try_bind (validate_snapshot expected) (\<lambda>_.
     try_bind (inspect_linux_process files boot (pid expected)) (\<lambda>current.
     Inr (classify_linux_process expected current)))"

fun ProcessError_text :: "ProcessError \<Rightarrow> string" where
  "ProcessError_text ProcessError.InvalidIdentity =
     ''process identity must include boot, PID, start token, and process group''"
| "ProcessError_text Malformed = ''process information is malformed''"
| "ProcessError_text PermissionDenied = ''permission denied while inspecting process''"
| "ProcessError_text (ProcessError.Io m) = ''process inspection failed: '' @ m"

fun recovery_status :: "NativeStatus \<Rightarrow> IdentityStatus" where
  "recovery_status NativeStatus.Alive = IdentityStatus.Alive"
| "recovery_status NativeStatus.Dead = IdentityStatus.Dead"
| "recovery_status Reused = IdentityStatus.Changed"

definition recovery_classify :: "proc_files \<Rightarrow> string \<Rightarrow> classifier" where
  "recovery_classify files boot identity =
     map_ok recovery_status (map_err ProcessError_text (classify files boot identity))"

section \<open>Cancelling a process group\<close>

datatype group_signal = Term | Kill

datatype Errno = SRCH | Other string

datatype CancellationError =
    Inspection ProcessError
  | InvalidProcessGroup
  | InvalidGrace
  | Signal Errno

text \<open>
  The file system at the \<open>n\<close>-th inspection, the clock at its \<open>n\<close>-th reading in the loop, the
  deadline if it can be represented, and the answers to the two signals.
\<close>

record group_env =
  ge_files :: "nat \<Rightarrow> proc_files"
  ge_now :: "nat \<Rightarrow> nat"
  ge_deadline :: "nat option"
  ge_signal :: "group_signal \<Rightarrow> (Errno, unit) result"

text \<open>
  The loop of the grace period yields the number of the inspection that ended it: one that did
  not find the process alive, or the first one at or after the deadline.
\<close>

definition keeps_waiting :: "group_env \<Rightarrow> string \<Rightarrow> ProcessIdentitySnapshot \<Rightarrow> nat \<Rightarrow> nat \<Rightarrow> bool" where
  "keeps_waiting env boot expected limit k =
     (classify (ge_files env k) boot expected = Inr NativeStatus.Alive \<and> \<not> limit \<le> ge_now env k)"

definition grace_loop :: "group_env \<Rightarrow> string \<Rightarrow> ProcessIdentitySnapshot \<Rightarrow> nat \<Rightarrow> nat option" where
  "grace_loop env boot expected limit = while_option (keeps_waiting env boot expected limit) Suc 1"

definition kill_group ::
  "group_env \<Rightarrow> string \<Rightarrow> ProcessIdentitySnapshot \<Rightarrow> nat \<Rightarrow>
     (CancellationError, GroupCancellation) result \<times> group_signal list" where
  "kill_group env boot expected k =
     (case classify (ge_files env k) boot expected of
        Inl e \<Rightarrow> (Inl (Inspection e), [])
      | Inr NativeStatus.Dead \<Rightarrow> (Inr TerminatedDuringGrace, [])
      | Inr Reused \<Rightarrow> (Inr IdentityChanged, [])
      | Inr NativeStatus.Alive \<Rightarrow>
          (case ge_signal env Kill of
             Inr _ \<Rightarrow> (Inr KilledAfterGrace, [Kill])
           | Inl SRCH \<Rightarrow> (Inr TerminatedDuringGrace, [Kill])
           | Inl e \<Rightarrow> (Inl (Signal e), [Kill])))"

text \<open>What follows the inspection \<open>k\<close> that ended the loop.\<close>

definition after_grace ::
  "group_env \<Rightarrow> string \<Rightarrow> ProcessIdentitySnapshot \<Rightarrow> nat \<Rightarrow>
     (CancellationError, GroupCancellation) result \<times> group_signal list" where
  "after_grace env boot expected k =
     (case classify (ge_files env k) boot expected of
        Inl e \<Rightarrow> (Inl (Inspection e), [Term])
      | Inr NativeStatus.Dead \<Rightarrow> (Inr TerminatedDuringGrace, [Term])
      | Inr Reused \<Rightarrow> (Inr IdentityChanged, [Term])
      | Inr NativeStatus.Alive \<Rightarrow> (let (r, sent) = kill_group env boot expected (Suc k) in (r, Term # sent)))"

text \<open>The result, if the loop ends, and the signals sent to the group.\<close>

definition cancel_validated_group ::
  "group_env \<Rightarrow> string \<Rightarrow> ProcessIdentitySnapshot \<Rightarrow>
     ((CancellationError, GroupCancellation) result \<times> group_signal list) option" where
  "cancel_validated_group env boot expected =
     (case classify (ge_files env 0) boot expected of
        Inl e \<Rightarrow> Some (Inl (Inspection e), [])
      | Inr NativeStatus.Dead \<Rightarrow> Some (Inr AlreadyDead, [])
      | Inr Reused \<Rightarrow> Some (Inr IdentityChanged, [])
      | Inr NativeStatus.Alive \<Rightarrow>
          if process_group_id expected = 0 then Some (Inl InvalidProcessGroup, [])
          else (case ge_signal env Term of
             Inl SRCH \<Rightarrow> Some (Inr AlreadyDead, [Term])
           | Inl e \<Rightarrow> Some (Inl (Signal e), [Term])
           | Inr _ \<Rightarrow>
               (case ge_deadline env of
                  None \<Rightarrow> Some (Inl InvalidGrace, [Term])
                | Some limit \<Rightarrow>
                    map_option (after_grace env boot expected) (grace_loop env boot expected limit))))"

fun Errno_text :: "Errno \<Rightarrow> string" where
  "Errno_text SRCH = ''No such process (os error 3)''"
| "Errno_text (Other m) = m"

fun CancellationError_text :: "CancellationError \<Rightarrow> string" where
  "CancellationError_text (Inspection e) = ProcessError_text e"
| "CancellationError_text InvalidProcessGroup = ''process group ID is invalid''"
| "CancellationError_text InvalidGrace = ''cancellation grace interval is invalid''"
| "CancellationError_text (Signal e) = ''sending a process-group signal failed: '' @ Errno_text e"

definition cancel_group :: "group_env \<Rightarrow> string \<Rightarrow> Run \<Rightarrow> (string, GroupCancellation) result option" where
  "cancel_group env boot run =
     (case run_command_identity run of
        None \<Rightarrow> Some (Inl ''command identity is missing'')
      | Some identity \<Rightarrow>
          map_option (\<lambda>(r, _). map_err CancellationError_text r) (cancel_validated_group env boot identity))"

section \<open>Reaping the monitors\<close>

text \<open>
  The registry is the association list of a \<open>BTreeMap\<close>.  \<open>ready k\<close> is the answer of the \<open>k\<close>-th
  \<open>waitid\<close>, \<open>finished k p\<close> that of \<open>try_wait\<close> on the child \<open>p\<close> at the \<open>k\<close>-th step.
\<close>

type_synonym 'c registry = "(u32 \<times> 'c) list"

fun retain_unfinished ::
  "(u32 \<Rightarrow> (string, bool) result) \<Rightarrow> 'c registry \<Rightarrow> string option \<Rightarrow> 'c registry \<times> string option" where
  "retain_unfinished finished [] first_error = ([], first_error)"
| "retain_unfinished finished ((p, c) # children) first_error =
     (case finished p of
        Inr True \<Rightarrow> retain_unfinished finished children first_error
      | Inr False \<Rightarrow> (let (kept, e) = retain_unfinished finished children first_error in ((p, c) # kept, e))
      | Inl error \<Rightarrow>
          (let (kept, e) = retain_unfinished finished children
             (case first_error of None \<Rightarrow> Some error | Some e \<Rightarrow> Some e) in ((p, c) # kept, e)))"

definition reap_finished ::
  "(u32 \<Rightarrow> (string, bool) result) \<Rightarrow> 'c registry \<Rightarrow> (string, unit) result \<times> 'c registry" where
  "reap_finished finished children =
     (let (kept, e) = retain_unfinished finished children None
      in (case e of None \<Rightarrow> Inr () | Some e \<Rightarrow> Inl e, kept))"

definition registry_remove :: "u32 \<Rightarrow> 'c registry \<Rightarrow> 'c registry" where
  "registry_remove p children = filter (\<lambda>(q, _). q \<noteq> p) children"

function reap_ready ::
  "(nat \<Rightarrow> (string, u32 option) result) \<Rightarrow> (nat \<Rightarrow> u32 \<Rightarrow> (string, bool) result) \<Rightarrow> nat \<Rightarrow> 'c registry \<Rightarrow>
     (string, unit) result \<times> 'c registry" where
  "reap_ready ready finished k children =
     (if children = [] then (Inr (), children)
      else case ready k of
        Inl e \<Rightarrow> (Inl e, children)
      | Inr None \<Rightarrow> (Inr (), children)
      | Inr (Some p) \<Rightarrow>
          if p \<notin> fst ` set children then reap_finished (finished k) children
          else (case finished k p of
             Inr True \<Rightarrow> reap_ready ready finished (Suc k) (registry_remove p children)
           | Inr False \<Rightarrow> (Inl ''waitable monitor is still running'', children)
           | Inl e \<Rightarrow> (Inl e, snd (reap_finished (finished (Suc k)) children))))"
  by pat_completeness auto
termination
proof (relation "measure (\<lambda>(ready, finished, k, children). length children)", goal_cases)
  case 1
  then show ?case by simp
next
  case (2 ready finished k children)
  then show ?case
    by (auto simp: registry_remove_def intro!: length_filter_less)
qed

declare reap_ready.simps [simp del]

section \<open>Signals\<close>

lemma grace_loop_Some:
  assumes "grace_loop env boot expected limit = Some k"
  shows "\<not> keeps_waiting env boot expected limit k"
    "\<forall>j. 1 \<le> j \<and> j < k \<longrightarrow> classify (ge_files env j) boot expected = Inr NativeStatus.Alive"
proof -
  note w = assms [unfolded grace_loop_def]
  show "\<not> keeps_waiting env boot expected limit k"
    by (rule while_option_stop [OF w])
  show "\<forall>j. 1 \<le> j \<and> j < k \<longrightarrow> classify (ge_files env j) boot expected = Inr NativeStatus.Alive"
    by (rule while_option_rule [OF _ w]) (auto simp: keeps_waiting_def less_Suc_eq)
qed

lemma grace_loop_ends:
  assumes "1 \<le> n" "limit \<le> ge_now env n"
  shows "\<exists>k. grace_loop env boot expected limit = Some k"
  unfolding grace_loop_def
proof (rule measure_while_option_Some [where P = "\<lambda>k. k \<le> n" and f = "\<lambda>k. n - k"])
  fix k
  assume "k \<le> n" "keeps_waiting env boot expected limit k"
  moreover from this(2) assms(2) have "k \<noteq> n" by (auto simp: keeps_waiting_def)
  ultimately show "Suc k \<le> n \<and> n - Suc k < n - k" by simp
qed (rule assms(1))

text \<open>What an identity that is classified as alive was seen to be.\<close>

lemma classify_Alive:
  "classify files boot expected = Inr NativeStatus.Alive \<longleftrightarrow>
     validate_snapshot expected = Inr () \<and> (\<exists>stat p. files (pid expected) = Inr (Some stat)
       \<and> parse_linux_process stat boot = Inr p \<and> lp_identity p = expected \<and> lp_state p \<notin> {CHR ''Z'', CHR ''X'', CHR ''x''})"
  by (auto simp: classify_def inspect_linux_process_def classify_linux_process_def classify_identity_def result_simps
      split: option.splits if_splits)

text \<open>
  C28. A process group is signalled only while its leader is the process that was recorded.  Every
  signal follows an inspection that found, under the recorded process number, a live process with
  the recorded boot, start time and group; \<open>SIGKILL\<close> is sent only after \<open>SIGTERM\<close>, when the grace
  period is over and every inspection in between, the last one right before the signal, found the
  same process alive.  What is reported is what was done.
\<close>

theorem group_signalled_safely:
  assumes "cancel_validated_group env boot expected = Some (res, sent)"
  shows "sent \<in> {[], [Term], [Term, Kill]}
    \<and> (sent \<noteq> [] \<longrightarrow> 0 < process_group_id expected \<and> classify (ge_files env 0) boot expected = Inr NativeStatus.Alive)
    \<and> (Kill \<in> set sent \<longrightarrow> (\<exists>k limit. ge_deadline env = Some limit \<and> limit \<le> ge_now env k
         \<and> (\<forall>j \<le> Suc k. classify (ge_files env j) boot expected = Inr NativeStatus.Alive)))
    \<and> (res = Inr KilledAfterGrace \<longleftrightarrow> Kill \<in> set sent \<and> ge_signal env Kill = Inr ())
    \<and> (res = Inr AlreadyDead \<longrightarrow> Kill \<notin> set sent)
    \<and> (sent = [] \<longrightarrow> res = Inr AlreadyDead \<or> res = Inr IdentityChanged \<or> (\<exists>e. res = Inl (Inspection e)))"
proof (cases "classify (ge_files env 0) boot expected = Inr NativeStatus.Alive")
  case False
  with assms show ?thesis
    by (auto simp: cancel_validated_group_def split: sum.splits NativeStatus.splits)
next
  case alive: True
  then have pos: "0 < process_group_id expected"
    by (auto simp: classify_Alive validate_snapshot_def split: if_splits)
  show ?thesis
  proof (cases "sent = [Term] \<and> res \<noteq> Inr KilledAfterGrace")
    case True
    with alive pos show ?thesis by simp
  next
    case False
    with assms alive pos obtain limit k where g: "ge_deadline env = Some limit" "grace_loop env boot expected limit = Some k"
      and a: "after_grace env boot expected k = (res, sent)"
      by (auto simp: cancel_validated_group_def split: sum.splits Errno.splits option.splits)
    have k: "classify (ge_files env k) boot expected = Inr NativeStatus.Alive"
      using a False by (auto simp: after_grace_def split: sum.splits NativeStatus.splits)
    then have kg: "kill_group env boot expected (Suc k) = (res, tl sent)" "sent = Term # tl sent"
      using a by (auto simp: after_grace_def split: prod.splits)
    have "limit \<le> ge_now env k"
      using grace_loop_Some(1) [OF g(2)] k by (simp add: keeps_waiting_def)
    moreover have "\<forall>j \<le> k. classify (ge_files env j) boot expected = Inr NativeStatus.Alive"
      using grace_loop_Some(2) [OF g(2)] k alive by (metis One_nat_def Suc_leI le_neq_implies_less neq0_conv)
    ultimately show ?thesis
      using kg g(1) alive pos
      by (cases sent) (auto simp: kill_group_def le_Suc_eq split: sum.splits NativeStatus.splits Errno.splits)
  qed
qed

text \<open>
  C29. Cancelling a group always ends.  If the clock passes every deadline sooner or later, the
  cancellation returns, whatever the processes do; and if no inspection and no signal fails, it
  does not report an error.
\<close>

theorem group_cancellation_ends:
  assumes "\<forall>limit. \<exists>n \<ge> 1. limit \<le> ge_now env n"
  shows "\<exists>res sent. cancel_validated_group env boot expected = Some (res, sent)
    \<and> ((\<forall>k e. classify (ge_files env k) boot expected \<noteq> Inl e) \<and> (\<forall>s m. ge_signal env s \<noteq> Inl (Other m))
        \<and> ge_deadline env \<noteq> None \<longrightarrow> (\<exists>r. res = Inr r))"
proof -
  have ends: "\<exists>k. grace_loop env boot expected limit = Some k" for limit
    using assms grace_loop_ends by blast
  have pos: "process_group_id expected \<noteq> 0" if "classify (ge_files env 0) boot expected = Inr NativeStatus.Alive"
    using that by (auto simp: classify_Alive validate_snapshot_def split: if_splits)
  have fine: "\<exists>r. fst (after_grace env boot expected k) = Inr r"
    if "\<forall>k e. classify (ge_files env k) boot expected \<noteq> Inl e" "\<forall>s m. ge_signal env s \<noteq> Inl (Other m)" for k
    using that by (auto simp: after_grace_def kill_group_def split: sum.splits NativeStatus.splits Errno.splits prod.splits)
  show ?thesis
  proof (cases "\<exists>limit. classify (ge_files env 0) boot expected = Inr NativeStatus.Alive \<and> ge_signal env Term = Inr ()
      \<and> ge_deadline env = Some limit")
    case True
    then obtain limit k where "cancel_validated_group env boot expected = Some (after_grace env boot expected k)"
      using ends pos by (fastforce simp: cancel_validated_group_def)
    then show ?thesis
      using fine [of k] by (cases "after_grace env boot expected k") auto
  next
    case False
    then show ?thesis
      using pos
      by (cases "classify (ge_files env 0) boot expected")
        (auto simp: cancel_validated_group_def split: NativeStatus.splits sum.splits Errno.splits option.splits)
  qed
qed

section \<open>Reaping\<close>

lemma retain_unfinished_spec:
  assumes "retain_unfinished finished children e0 = (kept, e)"
  shows "kept = filter (\<lambda>(p, _). finished p \<noteq> Inr True) children
    \<and> (e = None \<longleftrightarrow> e0 = None \<and> (\<forall>p \<in> fst ` set children. \<exists>b. finished p = Inr b))"
  using assms
proof (induction finished children e0 arbitrary: kept e rule: retain_unfinished.induct)
  case (2 finished p c children e0)
  then show ?case
    by (cases "finished p") (auto split: bool.splits prod.splits option.splits)
qed auto

lemma reap_finished_spec:
  assumes "reap_finished finished children = (res, left)"
  shows "left = filter (\<lambda>(p, _). finished p \<noteq> Inr True) children"
    "res = Inr () \<longleftrightarrow> (\<forall>p \<in> fst ` set children. \<exists>b. finished p = Inr b)"
  using assms retain_unfinished_spec [of finished children None]
  by (auto simp: reap_finished_def split: prod.splits option.splits)

lemma reap_finished_left: "snd (reap_finished finished children) = filter (\<lambda>(p, _). finished p \<noteq> Inr True) children"
  using reap_finished_spec(1) [of finished children] by (cases "reap_finished finished children") simp

text \<open>
  The supervisor gives up a monitor only when it has finished.  Whatever the kernel answers,
  reaping ends, adds no child, keeps every child whose status was not collected, and, when it
  reports success, has stopped because no child was ready, none was left, or another child was
  waiting and every remaining one was asked and still runs.
\<close>

theorem reaping_keeps_unfinished:
  assumes "reap_ready ready finished k children = (res, left)"
  shows "set left \<subseteq> set children
    \<and> (\<forall>p c. (p, c) \<in> set children - set left \<longrightarrow> (\<exists>j \<ge> k. finished j p = Inr True))
    \<and> (res = Inr () \<longrightarrow> left = [] \<or> (\<exists>j \<ge> k. ready j = Inr None)
        \<or> (\<exists>j \<ge> k. \<exists>p. ready j = Inr (Some p) \<and> p \<notin> fst ` set left \<and> (\<forall>q \<in> fst ` set left. finished j q = Inr False)))"
  using assms
proof (induction ready finished k children arbitrary: res left rule: reap_ready.induct)
  case (1 ready finished k children)
  note prems = "1.prems" [unfolded reap_ready.simps [of ready finished k children]]
  show ?case
  proof (cases "children = [] \<or> (\<nexists>p. ready k = Inr (Some p))")
    case True
    with prems show ?thesis by (auto split: sum.splits option.splits if_splits)
  next
    case False
    then obtain p where ne: "children \<noteq> []" and r: "ready k = Inr (Some p)" by auto
    show ?thesis
    proof (cases "p \<in> fst ` set children")
      case foreign: False
      with prems ne r have "reap_finished (finished k) children = (res, left)" by simp
      note s = reap_finished_spec [OF this]
      have "res = Inr () \<Longrightarrow> \<forall>q \<in> fst ` set left. finished k q = Inr False"
        using s by (force simp: image_iff)
      moreover have "p \<notin> fst ` set left" using foreign s(1) by auto
      ultimately show ?thesis using r s(1) by auto
    next
      case own: True
      show ?thesis
      proof (cases "finished k p = Inr True")
        case True
        have step: "reap_ready ready finished (Suc k) (registry_remove p children) = (res, left)"
          using prems ne r own True by simp
        from "1.IH" [OF ne r refl _ True _ step] own
        have ih: "set left \<subseteq> set (registry_remove p children)"
          "\<forall>q c. (q, c) \<in> set (registry_remove p children) - set left \<longrightarrow> (\<exists>j \<ge> Suc k. finished j q = Inr True)"
          "res = Inr () \<longrightarrow> left = [] \<or> (\<exists>j \<ge> Suc k. ready j = Inr None)
            \<or> (\<exists>j \<ge> Suc k. \<exists>p. ready j = Inr (Some p) \<and> p \<notin> fst ` set left \<and> (\<forall>q \<in> fst ` set left. finished j q = Inr False))"
          by auto
        have "set left \<subseteq> set children" using ih(1) by (auto simp: registry_remove_def)
        moreover have "\<exists>j \<ge> k. finished j q = Inr True" if "(q, c) \<in> set children - set left" for q c
          using that True ih(2) by (cases "q = p") (auto simp: registry_remove_def dest: Suc_leD)
        ultimately show ?thesis using ih(3) by (meson Suc_leD)
      next
        case False
        show ?thesis
          using prems ne r own False
          by (auto simp: reap_finished_left split: sum.splits bool.splits intro: exI [of _ "Suc k"])
      qed
    qed
  qed
qed

section \<open>The text of a process\<close>

definition plain_word :: "string \<Rightarrow> bool" where
  "plain_word w = (w \<noteq> [] \<and> list_all (\<lambda>c. 33 \<le> byte c \<and> byte c < 128) w)"

definition spaced :: "string list \<Rightarrow> string" where
  "spaced words = concat (map (Cons (CHR '' '')) words)"

text \<open>The line the kernel writes: number, name in parentheses, then the other columns.\<close>

definition stat_line :: "u32 \<Rightarrow> string \<Rightarrow> string list \<Rightarrow> string" where
  "stat_line p name words = show_nat (unat p) @ '' ('' @ name @ '')'' @ spaced words"

lemma split_whitespace_word:
  "list_all (\<lambda>c. 33 \<le> byte c \<and> byte c < 128) w \<Longrightarrow> split_whitespace word (w @ rest) = split_whitespace (word @ w) rest"
proof (induction w arbitrary: word)
  case (Cons c w)
  then have "ws_head (map byte (c # w @ rest)) = 0"
    by (auto simp: ws_head_def split: list.splits)
  with Cons show ?case
    by (subst split_whitespace.simps) simp
qed simp

lemma split_whitespace_spaced:
  assumes "list_all plain_word words"
  shows "word \<noteq> [] \<Longrightarrow> split_whitespace word (spaced words) = word # words"
    "split_whitespace [] (spaced words) = words"
proof -
  have space: "split_whitespace v (CHR '' '' # s) = (if v = [] then split_whitespace [] s else v # split_whitespace [] s)" for v s
    by (subst split_whitespace.simps) (simp add: ws_head_def byte_def)
  have gen: "v \<noteq> [] \<Longrightarrow> split_whitespace v (spaced ws) = v # ws" if "list_all plain_word ws" for v ws
    using that
  proof (induction ws arbitrary: v)
    case Nil
    then show ?case by (subst split_whitespace.simps) (simp add: spaced_def)
  next
    case (Cons w ws)
    then show ?case
      using split_whitespace_word [of w "[]" "spaced ws"] by (simp add: spaced_def space plain_word_def)
  qed
  then show "word \<noteq> [] \<Longrightarrow> split_whitespace word (spaced words) = word # words"
    using assms by blast
  show "split_whitespace [] (spaced words) = words"
  proof (cases words)
    case Nil
    then show ?thesis by (subst split_whitespace.simps) (simp add: spaced_def)
  next
    case (Cons w ws)
    then have "split_whitespace [] (spaced words) = split_whitespace w (spaced ws)"
      using assms split_whitespace_word [of w "[]" "spaced ws"] by (simp add: spaced_def space plain_word_def)
    then show ?thesis
      using gen [of ws w] assms Cons by (simp add: plain_word_def)
  qed
qed

lemma find_first_append: "c \<notin> set s \<Longrightarrow> find_first c (s @ c # t) = Some (length s)"
  by (simp add: find_first_def takeWhile_append)

lemma find_last_append: "c \<notin> set t \<Longrightarrow> find_last c (s @ c # t) = Some (length s)"
  by (simp add: find_last_def takeWhile_append)

lemma trim_number: "trim (show_nat n @ '' '') = show_nat n"
proof -
  let ?s = "show_nat n"
  have b: "33 \<le> byte (hd ?s)" "byte (hd ?s) < 128" "33 \<le> byte (last ?s)" "byte (last ?s) < 128"
    using show_nat_ends [of n] by (auto simp: is_ascii_digit_def)
  have head: "ws_head (map byte (?s @ t)) = 0" for t
    using b(1,2) by (cases ?s) (auto simp: ws_head_def split: list.splits)
  have "trim_end (?s @ '' '') = trim_end ?s"
    by (subst trim_end.simps) (simp add: ws_tail_def ws_head_def byte_def Let_def)
  moreover have "trim ?s = ?s"
    by (rule trim_ascii) (use b in simp_all)
  ultimately show ?thesis
    using head [of "[]"] head [of "'' ''"] by (simp add: trim_def trim_start.simps [of ?s] trim_start.simps [of "?s @ '' ''"])
qed

lemma stat_line_parses:
  assumes "list_all plain_word words" "list_all (\<lambda>w. CHR '')'' \<notin> set w) words" "19 < length words" "length (words ! 0) = 1"
    and "parse_i32 (words ! 2) = Some grp" "parse_unsigned (words ! 19) = Some start"
    and "0 < grp" "start \<noteq> 0" "p \<noteq> 0" "boot \<noteq> []" "\<not> contains_nul boot"
  shows "parse_linux_process (stat_line p name words) boot =
     Inr \<lparr> lp_identity = \<lparr> boot_identity = boot, pid = p, start_token = start, process_group_id = grp \<rparr>,
           lp_state = hd (words ! 0) \<rparr>"
proof -
  let ?n = "show_nat (unat p)"
  have "CHR ''('' \<notin> set (?n @ '' '')"
    using show_nat_digits [of "CHR ''(''" "unat p"] by (auto simp: is_ascii_digit_def byte_def)
  from find_first_append [OF this] have o: "find_first (CHR ''('') (stat_line p name words) = Some (Suc (length ?n))"
    by (simp add: stat_line_def)
  have "CHR '')'' \<notin> set (spaced words)"
    using assms(2) by (auto simp: spaced_def list_all_iff)
  from find_last_append [OF this, of "?n @ '' ('' @ name"]
  have c: "find_last (CHR '')'') (stat_line p name words) = Some (Suc (Suc (length ?n + length name)))"
    by (simp add: stat_line_def)
  have t: "take (Suc (length ?n)) (stat_line p name words) = ?n @ '' ''"
    by (simp add: stat_line_def)
  have d: "drop (Suc (Suc (Suc (length ?n + length name)))) (stat_line p name words) = spaced words"
    using append_eq_conv_conj [of "?n @ '' ('' @ name @ '')''" "spaced words" "stat_line p name words"] by (simp add: stat_line_def)
  have u: "parse_unsigned ?n = Some p"
    using parse_unsigned_show [where 'w = 32, of "unat p"] unsigned_less [of p] by simp
  show ?thesis
    using assms(3-11)
    by (simp add: parse_linux_process_def o c t d trim_number u split_whitespace_spaced(2) [OF assms(1)] nth_field_def
        validate_snapshot_def Let_def) auto
qed

text \<open>
  A process is identified whatever it calls itself.  The line that the kernel writes for a
  process is read back to its number, group, start time and state, even if the name of the
  command, which the command chooses, contains parentheses, spaces or the columns of another
  process.
\<close>

theorem stat_line_identity:
  assumes "list_all plain_word words" "list_all (\<lambda>w. CHR '')'' \<notin> set w) words" "19 < length words" "length (words ! 0) = 1"
    and "parse_i32 (words ! 2) = Some grp" "parse_unsigned (words ! 19) = Some start"
    and "0 < grp" "start \<noteq> 0" "p \<noteq> 0" "boot \<noteq> []" "\<not> contains_nul boot"
  shows "parse_linux_process (stat_line p name words) boot =
     Inr \<lparr> lp_identity = \<lparr> boot_identity = boot, pid = p, start_token = start, process_group_id = grp \<rparr>,
           lp_state = hd (words ! 0) \<rparr>"
  using assms by (rule stat_line_parses)

section \<open>Concrete processes\<close>

definition sample_words :: "string list" where
  "sample_words = [''S'', ''1'', ''7''] @ replicate 16 ''0'' @ [''9'']"

definition sample_process :: ProcessIdentitySnapshot where
  "sample_process = \<lparr> boot_identity = ''b'', pid = 5, start_token = 9, process_group_id = 7 \<rparr>"

lemma sample_numbers: "parse_i32 ''7'' = Some 7" "parse_unsigned ''9'' = Some (9 :: u64)"
  by (simp_all add: parse_i32_def parse_unsigned_def decimal_value_def digit_val_def is_ascii_digit_def byte_def)

lemma sample_columns:
  "sample_words ! 0 = ''S''" "sample_words ! 2 = ''7''" "sample_words ! 19 = ''9''" "19 < length sample_words"
  "list_all plain_word sample_words" "list_all (\<lambda>w. CHR '')'' \<notin> set w) sample_words"
  by (simp_all add: sample_words_def nth_append plain_word_def byte_def list_all_iff)

theorem stat_line_identity_witness:
  "parse_linux_process (stat_line 5 '') (x 1'' sample_words) ''b'' = Inr \<lparr> lp_identity = sample_process, lp_state = CHR ''S'' \<rparr>"
  using stat_line_identity [OF sample_columns(5,6,4), of 7 9 5 "''b''" "'') (x 1''"]
  by (simp add: sample_columns sample_numbers contains_nul_def sample_process_def)

definition stubborn_group :: group_env where
  "stubborn_group =
     \<lparr> ge_files = (\<lambda>_ _. Inr (Some (stat_line 5 ''x'' sample_words))), ge_now = (\<lambda>n. n), ge_deadline = Some 2,
       ge_signal = (\<lambda>_. Inr ()) \<rparr>"

lemma stubborn_alive: "classify (ge_files stubborn_group k) ''b'' sample_process = Inr NativeStatus.Alive"
  by (simp add: classify_Alive stubborn_group_def stat_line_parses sample_columns sample_numbers contains_nul_def sample_process_def
      validate_snapshot_def)

lemma stubborn_killed: "cancel_validated_group stubborn_group ''b'' sample_process = Some (Inr KilledAfterGrace, [Term, Kill])"
proof -
  have now: "ge_now stubborn_group = (\<lambda>n. n)" "ge_deadline stubborn_group = Some 2" "ge_signal stubborn_group s = Inr ()" for s
    by (simp_all add: stubborn_group_def)
  have "keeps_waiting stubborn_group ''b'' sample_process 2 1" "\<not> keeps_waiting stubborn_group ''b'' sample_process 2 2"
    by (simp_all add: keeps_waiting_def stubborn_alive now)
  then have "grace_loop stubborn_group ''b'' sample_process 2 = Some 2"
    unfolding grace_loop_def
    by (subst while_option_unfold, simp, subst while_option_unfold) (simp add: numeral_2_eq_2)
  then show ?thesis
    by (simp add: cancel_validated_group_def stubborn_alive now after_grace_def kill_group_def) (simp add: sample_process_def)
qed

theorem group_signalled_safely_witness:
  "cancel_validated_group stubborn_group ''b'' sample_process = Some (Inr KilledAfterGrace, [Term, Kill])
     \<and> classify (ge_files stubborn_group 0) ''b'' sample_process = Inr NativeStatus.Alive"
  using group_signalled_safely [OF stubborn_killed] stubborn_killed by simp

theorem group_cancellation_ends_witness:
  "\<exists>res sent. cancel_validated_group stubborn_group ''b'' sample_process = Some (res, sent)"
proof -
  have "\<forall>limit. \<exists>n \<ge> 1. limit \<le> ge_now stubborn_group n"
  proof
    fix limit
    show "\<exists>n \<ge> 1. limit \<le> ge_now stubborn_group n"
      by (rule exI [of _ "Suc limit"]) (simp add: stubborn_group_def)
  qed
  from group_cancellation_ends [OF this, of "''b''" sample_process] show ?thesis by blast
qed

theorem reaping_keeps_unfinished_witness:
  "reap_ready (\<lambda>k. Inr (if k = 0 then Some 3 else None)) (\<lambda>_ p. Inr (p = 3)) 0 [(3, ''a''), (4, ''b'')] = (Inr (), [(4, ''b'')])
     \<and> set [(4 :: u32, ''b'')] \<subseteq> set [(3, ''a''), (4, ''b'')]"
proof -
  have r: "reap_ready (\<lambda>k. Inr (if k = 0 then Some 3 else None)) (\<lambda>_ p. Inr (p = 3)) 0 [(3, ''a''), (4, ''b'')] = (Inr (), [(4, ''b'')])"
    by (simp add: reap_ready.simps registry_remove_def)
  from reaping_keeps_unfinished [OF r] r show ?thesis by simp
qed

end
