(* ===== verification/Runtime_Guard.thy ===== *)
theory Runtime_Guard
  imports Ipc Process
begin

text \<open>
  The lock that keeps a second supervisor out (\<open>RuntimeGuard\<close> of \<open>src/supervisor/ipc.rs\<close>).

  First the operations as the code has them, on the two entries of the runtime directory, the lock
  file and the socket; then the same operations cut into their system calls, so that several
  processes can start at the same time.
\<close>

section \<open>The runtime directory\<close>

text \<open>
  \<open>rd_listening\<close> are the inodes of sockets that a process listens on: connecting to the socket
  succeeds exactly for them.  Inode numbers are given out in order.
\<close>

record runtime_dir =
  rd_lock :: "(metadata \<times> u8 list) option"
  rd_sock :: "metadata option"
  rd_listening :: "nat set"
  rd_next :: nat

datatype guard_call = OpenLock | WriteLock | SyncLock | ReadLock | RemoveLock | RemoveSocket | BindSocket | SetPermissions

record guard_context =
  gx_uid :: u32
  gx_umask :: u32
  gx_to_json :: "ProcessIdentitySnapshot \<Rightarrow> (string, u8 list) result"
  gx_of_json :: "u8 list \<Rightarrow> ProcessIdentitySnapshot option"
  gx_classify :: "ProcessIdentitySnapshot \<Rightarrow> (string, NativeStatus) result"
  gx_private_dir :: "(string, unit) result"
  gx_fault :: "guard_call \<Rightarrow> string option"

record RuntimeGuard =
  lock_inode :: nat
  socket_inode :: nat

definition own_entry :: "guard_context \<Rightarrow> FileKind \<Rightarrow> u32 \<Rightarrow> runtime_dir \<Rightarrow> metadata" where
  "own_entry ctx kind mode d =
     \<lparr> md_kind = kind, md_uid = gx_uid ctx, md_mode = mode AND NOT (gx_umask ctx), md_ino = rd_next d \<rparr>"

definition create_lock :: "guard_context \<Rightarrow> runtime_dir \<Rightarrow> runtime_dir" where
  "create_lock ctx d = d\<lparr> rd_lock := Some (own_entry ctx RegularFile 0x180 d, []), rd_next := Suc (rd_next d) \<rparr>"

definition fill_lock :: "u8 list \<Rightarrow> runtime_dir \<Rightarrow> runtime_dir" where
  "fill_lock bytes d = d\<lparr> rd_lock := map_option (\<lambda>(m, _). (m, bytes)) (rd_lock d) \<rparr>"

definition write_lock ::
  "guard_context \<Rightarrow> ProcessIdentitySnapshot \<Rightarrow> runtime_dir \<Rightarrow> (IpcError, unit) result \<times> runtime_dir" where
  "write_lock ctx identity d =
     (let d = create_lock ctx d in
      case gx_to_json ctx identity of
        Inl e \<Rightarrow> (Inl (IpcError.Json e), d)
      | Inr bytes \<Rightarrow>
          (case gx_fault ctx WriteLock of
             Some e \<Rightarrow> (Inl (IpcError.Json e), d)
           | None \<Rightarrow>
               (case gx_fault ctx SyncLock of
                  Some e \<Rightarrow> (Inl (IpcError.Io e), fill_lock bytes d)
                | None \<Rightarrow> (Inr (), fill_lock bytes d))))"

text \<open>Whether an existing lock is stale, or the error that ends the start.\<close>

definition check_stale :: "guard_context \<Rightarrow> metadata \<times> u8 list \<Rightarrow> (IpcError, unit) result" where
  "check_stale ctx lock =
     (if md_kind (fst lock) \<noteq> RegularFile \<or> permissions (fst lock) \<noteq> 0x180 then Inl LockSubstitution
      else case gx_fault ctx ReadLock of
        Some e \<Rightarrow> Inl (IpcError.Io e)
      | None \<Rightarrow>
          try_bind (ok_or MalformedLock (gx_of_json ctx (snd lock))) (\<lambda>owner.
          try_bind (map_err Runtime (gx_classify ctx owner)) (\<lambda>status.
          if status = NativeStatus.Alive then Inl AlreadyRunning else Inr ())))"

fun acquire_lock ::
  "guard_context \<Rightarrow> nat \<Rightarrow> ProcessIdentitySnapshot \<Rightarrow> runtime_dir \<Rightarrow> (IpcError, unit) result \<times> runtime_dir" where
  "acquire_lock ctx 0 identity d = (Inl AlreadyRunning, d)"
| "acquire_lock ctx (Suc attempts) identity d =
     (case gx_fault ctx OpenLock of
        Some e \<Rightarrow> (Inl (IpcError.Io e), d)
      | None \<Rightarrow>
          (case rd_lock d of
             None \<Rightarrow> write_lock ctx identity d
           | Some lock \<Rightarrow>
               (case check_stale ctx lock of
                  Inl e \<Rightarrow> (Inl e, d)
                | Inr _ \<Rightarrow>
                    (case gx_fault ctx RemoveLock of
                       Some e \<Rightarrow> (Inl (IpcError.Io e), d)
                     | None \<Rightarrow> acquire_lock ctx attempts identity (d\<lparr> rd_lock := None \<rparr>)))))"

definition clear_socket :: "guard_context \<Rightarrow> runtime_dir \<Rightarrow> (IpcError, unit) result \<times> runtime_dir" where
  "clear_socket ctx d =
     (case rd_sock d of
        None \<Rightarrow> (Inr (), d)
      | Some m \<Rightarrow>
          if md_kind m \<noteq> SocketFile then (Inl IpcError.SocketSubstitution, d\<lparr> rd_lock := None \<rparr>)
          else if md_ino m \<in> rd_listening d then (Inl AlreadyRunning, d\<lparr> rd_lock := None \<rparr>)
          else (case gx_fault ctx RemoveSocket of
             Some e \<Rightarrow> (Inl (IpcError.Io e), d)
           | None \<Rightarrow> (Inr (), d\<lparr> rd_sock := None \<rparr>)))"

definition create_socket :: "guard_context \<Rightarrow> runtime_dir \<Rightarrow> runtime_dir" where
  "create_socket ctx d = d\<lparr> rd_sock := Some (own_entry ctx SocketFile 0x1FF d),
     rd_listening := insert (rd_next d) (rd_listening d), rd_next := Suc (rd_next d) \<rparr>"

definition chmod_socket :: "runtime_dir \<Rightarrow> runtime_dir" where
  "chmod_socket d = d\<lparr> rd_sock := map_option (\<lambda>m. m\<lparr> md_mode := 0x180 \<rparr>) (rd_sock d) \<rparr>"

definition close_listener :: "nat \<Rightarrow> runtime_dir \<Rightarrow> runtime_dir" where
  "close_listener ino d = d\<lparr> rd_listening := rd_listening d - {ino} \<rparr>"

definition open_socket ::
  "guard_context \<Rightarrow> nat \<Rightarrow> runtime_dir \<Rightarrow> (IpcError, RuntimeGuard) result \<times> runtime_dir" where
  "open_socket ctx lock d =
     (case clear_socket ctx d of
        (Inl e, d) \<Rightarrow> (Inl e, d)
      | (Inr _, d) \<Rightarrow>
          (case gx_fault ctx BindSocket of
             Some e \<Rightarrow> (Inl (IpcError.Io e), d\<lparr> rd_lock := None \<rparr>)
           | None \<Rightarrow>
               (case gx_fault ctx SetPermissions of
                  Some e \<Rightarrow> (Inl (IpcError.Io e), close_listener (rd_next d) (create_socket ctx d))
                | None \<Rightarrow> (Inr \<lparr> lock_inode = lock, socket_inode = rd_next d \<rparr>, chmod_socket (create_socket ctx d)))))"

definition RuntimeGuard_acquire ::
  "guard_context \<Rightarrow> ProcessIdentitySnapshot \<Rightarrow> runtime_dir \<Rightarrow> (IpcError, RuntimeGuard) result \<times> runtime_dir" where
  "RuntimeGuard_acquire ctx identity d =
     (case gx_private_dir ctx of
        Inl e \<Rightarrow> (Inl (Runtime e), d)
      | Inr _ \<Rightarrow>
          (case acquire_lock ctx 2 identity d of
             (Inl e, d) \<Rightarrow> (Inl e, d)
           | (Inr _, d) \<Rightarrow>
               (case rd_lock d of
                  None \<Rightarrow> (Inl (IpcError.Io ''No such file or directory (os error 2)''), d)
                | Some (lock_metadata, _) \<Rightarrow> open_socket ctx (md_ino lock_metadata) d)))"

definition remove_socket_if_inode_matches :: "nat \<Rightarrow> runtime_dir \<Rightarrow> runtime_dir" where
  "remove_socket_if_inode_matches inode d =
     (case rd_sock d of Some m \<Rightarrow> if md_ino m = inode then d\<lparr> rd_sock := None \<rparr> else d | None \<Rightarrow> d)"

definition remove_lock_if_inode_matches :: "nat \<Rightarrow> runtime_dir \<Rightarrow> runtime_dir" where
  "remove_lock_if_inode_matches inode d =
     (case rd_lock d of Some (m, _) \<Rightarrow> if md_ino m = inode then d\<lparr> rd_lock := None \<rparr> else d | None \<Rightarrow> d)"

text \<open>Dropping the guard removes its files, then closes the listener.\<close>

definition RuntimeGuard_drop :: "RuntimeGuard \<Rightarrow> runtime_dir \<Rightarrow> runtime_dir" where
  "RuntimeGuard_drop g d =
     close_listener (socket_inode g)
       (remove_lock_if_inode_matches (lock_inode g) (remove_socket_if_inode_matches (socket_inode g) d))"

section \<open>One start at a time\<close>

text \<open>
  Supervisors start, stop and crash one after the other.  A process is alive while it runs; the
  context of each start may inject any faults.
\<close>

record lifecycle =
  lc_dir :: runtime_dir
  lc_running :: "ProcessIdentitySnapshot \<rightharpoonup> RuntimeGuard"

definition live_context :: "guard_context \<Rightarrow> lifecycle \<Rightarrow> guard_context" where
  "live_context ctx w = ctx\<lparr> gx_classify := (\<lambda>q. Inr (if lc_running w q = None then NativeStatus.Dead else NativeStatus.Alive)) \<rparr>"

inductive lifecycle_step ::
  "guard_context \<Rightarrow> (guard_call \<Rightarrow> string option) set \<Rightarrow> lifecycle \<Rightarrow> lifecycle \<Rightarrow> bool" for ctx faults where
  start: "lc_running w p = None \<Longrightarrow> fault \<in> faults \<Longrightarrow>
     RuntimeGuard_acquire (live_context (ctx\<lparr> gx_fault := fault, gx_private_dir := dir \<rparr>) w) p (lc_dir w) = (Inr g, d) \<Longrightarrow>
     lifecycle_step ctx faults w \<lparr> lc_dir = d, lc_running = (lc_running w)(p \<mapsto> g) \<rparr>"
| refused: "lc_running w p = None \<Longrightarrow> fault \<in> faults \<Longrightarrow>
     RuntimeGuard_acquire (live_context (ctx\<lparr> gx_fault := fault, gx_private_dir := dir \<rparr>) w) p (lc_dir w) = (Inl e, d) \<Longrightarrow>
     lifecycle_step ctx faults w (w\<lparr> lc_dir := d \<rparr>)"
| stop: "lc_running w p = Some g \<Longrightarrow>
     lifecycle_step ctx faults w \<lparr> lc_dir = RuntimeGuard_drop g (lc_dir w), lc_running = (lc_running w)(p := None) \<rparr>"
| crash: "lc_running w p = Some g \<Longrightarrow>
     lifecycle_step ctx faults w \<lparr> lc_dir = close_listener (socket_inode g) (lc_dir w), lc_running = (lc_running w)(p := None) \<rparr>"

definition unused_dir :: "runtime_dir \<Rightarrow> lifecycle" where
  "unused_dir d = \<lparr> lc_dir = d, lc_running = Map.empty \<rparr>"

definition identity_json_ok :: "guard_context \<Rightarrow> bool" where
  "identity_json_ok ctx = (\<forall>q bytes. gx_to_json ctx q = Inr bytes \<longrightarrow> gx_of_json ctx bytes = Some q)"

section \<open>What acquiring does\<close>

lemmas dir_defs = create_lock_def chmod_socket_def fill_lock_def create_socket_def close_listener_def own_entry_def
  remove_socket_if_inode_matches_def remove_lock_if_inode_matches_def

definition numbered :: "runtime_dir \<Rightarrow> bool" where
  "numbered d = ((\<forall>i \<in> rd_listening d. i < rd_next d) \<and> (\<forall>m c. rd_lock d = Some (m, c) \<longrightarrow> md_ino m < rd_next d)
     \<and> (\<forall>m. rd_sock d = Some m \<longrightarrow> md_ino m < rd_next d))"

lemma umask_keeps_owner: "u AND x = 0 \<Longrightarrow> x AND NOT u = (x :: u32)"
  by (auto simp: bit_eq_iff bit_and_iff bit_not_iff)

lemma new_lock_permissions: "gx_umask ctx AND 0x180 = 0 \<Longrightarrow> permissions (own_entry ctx RegularFile 0x180 d) = 0x180"
  by (simp add: permissions_def own_entry_def umask_keeps_owner)

lemma write_lock_frame:
  assumes "write_lock ctx p d = (res, d')"
  shows "rd_sock d' = rd_sock d \<and> rd_listening d' = rd_listening d \<and> rd_next d \<le> rd_next d' \<and> (numbered d \<longrightarrow> numbered d')"
  using assms
  by (auto simp: write_lock_def Let_def dir_defs numbered_def less_Suc_eq split: option.splits sum.splits)

lemma acquire_lock_frame:
  "acquire_lock ctx n p d = (res, d') \<Longrightarrow> rd_sock d' = rd_sock d \<and> rd_listening d' = rd_listening d \<and> rd_next d \<le> rd_next d'
     \<and> (numbered d \<longrightarrow> numbered d')"
proof (induction n arbitrary: d)
  case (Suc n)
  have "numbered d \<Longrightarrow> numbered (d\<lparr> rd_lock := None \<rparr>)" by (simp add: numbered_def)
  with Suc.prems Suc.IH [of "d\<lparr> rd_lock := None \<rparr>"] write_lock_frame [of ctx p d res d'] show ?case
    by (auto split: option.splits sum.splits)
qed simp

lemma acquire_lock_Inr:
  "acquire_lock ctx n p d = (Inr u, d') \<Longrightarrow> \<exists>bytes m. gx_to_json ctx p = Inr bytes \<and> rd_lock d' = Some (m, bytes)
     \<and> md_kind m = RegularFile \<and> (gx_umask ctx AND 0x180 = 0 \<longrightarrow> permissions m = 0x180)"
proof (induction n arbitrary: d)
  case (Suc n)
  have "write_lock ctx p d = (Inr u, d') \<Longrightarrow> \<exists>bytes m. gx_to_json ctx p = Inr bytes \<and> rd_lock d' = Some (m, bytes)
     \<and> md_kind m = RegularFile \<and> (gx_umask ctx AND 0x180 = 0 \<longrightarrow> permissions m = 0x180)"
    using new_lock_permissions [of ctx d]
    by (auto simp: write_lock_def Let_def create_lock_def fill_lock_def own_entry_def split: option.splits sum.splits)
  with Suc.prems Suc.IH [of "d\<lparr> rd_lock := None \<rparr>"] show ?case
    by (auto split: option.splits sum.splits)
qed simp

text \<open>A lock whose owner is alive is respected.\<close>

lemma acquire_excluded:
  assumes "rd_lock d = Some (m, content)" "gx_of_json ctx content = Some owner" "gx_classify ctx owner = Inr NativeStatus.Alive"
  shows "\<exists>e. RuntimeGuard_acquire ctx p d = (Inl e, d)"
  using assms by (auto simp: RuntimeGuard_acquire_def numeral_2_eq_2 check_stale_def split: sum.split option.split)

lemma clear_socket_frame:
  assumes "clear_socket ctx d = (res, d')"
  shows "rd_listening d' = rd_listening d \<and> rd_next d' = rd_next d \<and> (numbered d \<longrightarrow> numbered d')
    \<and> (\<forall>u. res = Inr u \<longrightarrow> rd_lock d' = rd_lock d \<and> rd_sock d' = None)"
  using assms by (auto simp: clear_socket_def numbered_def split: option.splits if_splits)

lemma open_socket_frame:
  assumes "open_socket ctx li d = (res, d')" "numbered d"
  shows "numbered d' \<and> rd_listening d' = (case res of Inr g \<Rightarrow> insert (socket_inode g) (rd_listening d) | Inl _ \<Rightarrow> rd_listening d)
    \<and> (\<forall>g. res = Inr g \<longrightarrow> rd_lock d' = rd_lock d \<and> lock_inode g = li
         \<and> (\<exists>m. rd_sock d' = Some m \<and> md_kind m = SocketFile \<and> md_ino m = socket_inode g))"
proof -
  obtain res1 d1 where c: "clear_socket ctx d = (res1, d1)" by (cases "clear_socket ctx d")
  note f = clear_socket_frame [OF c]
  have n: "numbered d1" "rd_next d1 \<notin> rd_listening d1"
    using f assms(2) by (auto simp: numbered_def)
  show ?thesis
    using assms(1) c f n
    by (auto simp: open_socket_def dir_defs numbered_def less_Suc_eq split: sum.splits option.splits)
qed

lemma acquire_Inr:
  assumes "RuntimeGuard_acquire ctx p d = (Inr g, d')" "numbered d"
  shows "numbered d' \<and> (\<exists>bytes m. gx_to_json ctx p = Inr bytes \<and> rd_lock d' = Some (m, bytes) \<and> md_kind m = RegularFile
       \<and> (gx_umask ctx AND 0x180 = 0 \<longrightarrow> permissions m = 0x180) \<and> md_ino m = lock_inode g)
     \<and> (\<exists>m. rd_sock d' = Some m \<and> md_kind m = SocketFile \<and> md_ino m = socket_inode g)
     \<and> rd_listening d' = insert (socket_inode g) (rd_listening d)"
proof -
  obtain d1 m bytes where a: "acquire_lock ctx 2 p d = (Inr (), d1)" and l: "rd_lock d1 = Some (m, bytes)"
    and o: "open_socket ctx (md_ino m) d1 = (Inr g, d')"
    using assms(1) by (auto simp: RuntimeGuard_acquire_def split: sum.splits prod.splits option.splits)
  have "numbered d1" using acquire_lock_frame [OF a] assms(2) by blast
  from open_socket_frame [OF o this] acquire_lock_frame [OF a] acquire_lock_Inr [OF a] l show ?thesis
    by auto
qed

lemma acquire_Inl:
  assumes "RuntimeGuard_acquire ctx p d = (Inl e, d')" "numbered d"
  shows "numbered d' \<and> rd_listening d' = rd_listening d"
proof -
  obtain res1 d1 where a: "acquire_lock ctx 2 p d = (res1, d1)" by (cases "acquire_lock ctx 2 p d")
  have d1: "numbered d1" "rd_listening d1 = rd_listening d" using acquire_lock_frame [OF a] assms(2) by auto
  show ?thesis
    using assms a d1 open_socket_frame [of ctx _ d1 "Inl e" d']
    by (auto simp: RuntimeGuard_acquire_def split: sum.splits option.splits)
qed

section \<open>At most one supervisor\<close>

lemma drop_entries:
  "rd_lock (RuntimeGuard_drop g d) = Some lock \<Longrightarrow> rd_lock d = Some lock"
  "rd_sock (RuntimeGuard_drop g d) = Some sock \<Longrightarrow> rd_sock d = Some sock"
  "rd_listening (RuntimeGuard_drop g d) = rd_listening d - {socket_inode g}"
  "rd_next (RuntimeGuard_drop g d) = rd_next d"
proof -
  have s: "rd_lock (remove_socket_if_inode_matches i d) = rd_lock d" "rd_listening (remove_socket_if_inode_matches i d) = rd_listening d"
    "rd_next (remove_socket_if_inode_matches i d) = rd_next d"
    "rd_sock (remove_socket_if_inode_matches i d) = None \<or> rd_sock (remove_socket_if_inode_matches i d) = rd_sock d" for i d
    by (auto simp: remove_socket_if_inode_matches_def split: option.split)
  have l: "rd_sock (remove_lock_if_inode_matches i d) = rd_sock d" "rd_listening (remove_lock_if_inode_matches i d) = rd_listening d"
    "rd_next (remove_lock_if_inode_matches i d) = rd_next d"
    "rd_lock (remove_lock_if_inode_matches i d) = None \<or> rd_lock (remove_lock_if_inode_matches i d) = rd_lock d" for i d
    by (auto simp: remove_lock_if_inode_matches_def split: option.split)
  show "rd_lock (RuntimeGuard_drop g d) = Some lock \<Longrightarrow> rd_lock d = Some lock"
    using l(4) [of "lock_inode g" "remove_socket_if_inode_matches (socket_inode g) d"]
    by (auto simp: RuntimeGuard_drop_def close_listener_def s(1))
  show "rd_sock (RuntimeGuard_drop g d) = Some sock \<Longrightarrow> rd_sock d = Some sock"
    using s(4) [of "socket_inode g" d] by (auto simp: RuntimeGuard_drop_def close_listener_def l(1))
  show "rd_listening (RuntimeGuard_drop g d) = rd_listening d - {socket_inode g}" "rd_next (RuntimeGuard_drop g d) = rd_next d"
    by (simp_all add: RuntimeGuard_drop_def close_listener_def l(2,3) s(2,3))
qed

definition owns :: "guard_context \<Rightarrow> runtime_dir \<Rightarrow> ProcessIdentitySnapshot \<Rightarrow> RuntimeGuard \<Rightarrow> bool" where
  "owns ctx d p g =
     ((\<exists>bytes m. gx_to_json ctx p = Inr bytes \<and> rd_lock d = Some (m, bytes) \<and> md_ino m = lock_inode g)
      \<and> (\<exists>m. rd_sock d = Some m \<and> md_kind m = SocketFile \<and> md_ino m = socket_inode g \<and> md_ino m \<in> rd_listening d))"

definition lifecycle_inv :: "guard_context \<Rightarrow> lifecycle \<Rightarrow> bool" where
  "lifecycle_inv ctx w = (numbered (lc_dir w) \<and> (\<forall>p g. lc_running w p = Some g \<longrightarrow> owns ctx (lc_dir w) p g))"

lemma live_context_sel [simp]:
  "gx_to_json (live_context ctx w) = gx_to_json ctx" "gx_of_json (live_context ctx w) = gx_of_json ctx"
  "gx_umask (live_context ctx w) = gx_umask ctx" "gx_fault (live_context ctx w) = gx_fault ctx" "gx_private_dir (live_context ctx w) = gx_private_dir ctx"
  "gx_classify (live_context ctx w) q = Inr (if lc_running w q = None then NativeStatus.Dead else NativeStatus.Alive)"
  by (simp_all add: live_context_def)

lemma owns_unique: "identity_json_ok ctx \<Longrightarrow> owns ctx d p g \<Longrightarrow> owns ctx d q h \<Longrightarrow> p = q"
  by (auto simp: owns_def identity_json_ok_def) (metis option.inject)

lemma running_excludes:
  assumes "lifecycle_inv ctx w" "identity_json_ok ctx" "lc_running w q = Some h"
  shows "\<exists>e. RuntimeGuard_acquire (live_context (ctx\<lparr> gx_fault := fault, gx_private_dir := dir \<rparr>) w) p (lc_dir w) = (Inl e, lc_dir w)"
proof -
  have "owns ctx (lc_dir w) q h" using assms by (simp add: lifecycle_inv_def)
  then obtain m bytes where "gx_to_json ctx q = Inr bytes" "rd_lock (lc_dir w) = Some (m, bytes)"
    by (auto simp: owns_def)
  then show ?thesis
    using assms(2,3) by (intro acquire_excluded [of _ m bytes _ q]) (auto simp: identity_json_ok_def)
qed

lemma lifecycle_inv_step:
  assumes "lifecycle_step ctx faults w w'" "lifecycle_inv ctx w" "identity_json_ok ctx"
  shows "lifecycle_inv ctx w'"
  using assms(1)
proof cases
  case (start p fault dir g d)
  have "lc_running w q = None" for q
    using running_excludes [OF assms(2,3), where q = q and fault = fault and dir = dir and p = p] start(4) by (cases "lc_running w q") auto
  then have "lc_running w = Map.empty" by auto
  with start(1,4) acquire_Inr [OF start(4)] assms(2) show ?thesis
    by (auto simp: lifecycle_inv_def owns_def)
next
  case (refused p fault dir e d)
  show ?thesis
  proof (cases "lc_running w = Map.empty")
    case True
    with refused acquire_Inl [OF refused(4)] assms(2) show ?thesis by (simp add: lifecycle_inv_def)
  next
    case False
    then obtain q h where "lc_running w q = Some h" by (metis ext not_None_eq)
    with running_excludes [OF assms(2,3) this, where fault = fault and dir = dir and p = p] refused assms(2) show ?thesis by simp
  qed
next
  case (stop p g)
  then have "lc_running w q = None" if "q \<noteq> p" for q
    using that owns_unique [OF assms(3)] assms(2) by (metis lifecycle_inv_def not_None_eq)
  with stop assms(2) show ?thesis
    by (auto simp: lifecycle_inv_def RuntimeGuard_drop_def dir_defs numbered_def split: option.splits)
next
  case (crash p g)
  then have "lc_running w q = None" if "q \<noteq> p" for q
    using that owns_unique [OF assms(3)] assms(2) by (metis lifecycle_inv_def not_None_eq)
  with crash assms(2) show ?thesis
    by (auto simp: lifecycle_inv_def dir_defs numbered_def)
qed

lemma lifecycle_inv_reachable:
  assumes "(lifecycle_step ctx faults)\<^sup>*\<^sup>* (unused_dir d) w" "identity_json_ok ctx" "numbered d"
  shows "lifecycle_inv ctx w"
  using assms(1)
proof (induction rule: rtranclp_induct)
  case base
  with assms(3) show ?case by (simp add: lifecycle_inv_def unused_dir_def)
next
  case (step w w')
  with assms(2) show ?case using lifecycle_inv_step by blast
qed

text \<open>
  C13. When supervisors start one after the other, at most one runs.  Whatever is in the runtime
  directory at first, and however often supervisors are started, stopped, crash or fail with any
  system error on the way, there are never two running at a time, and the one that runs holds the
  lock and is the one that answers on the socket.
\<close>

theorem single_supervisor:
  assumes "(lifecycle_step ctx UNIV)\<^sup>*\<^sup>* (unused_dir d) w" "identity_json_ok ctx" "numbered d"
  shows "(\<forall>p q. lc_running w p \<noteq> None \<and> lc_running w q \<noteq> None \<longrightarrow> p = q)
    \<and> (\<forall>p g. lc_running w p = Some g \<longrightarrow> owns ctx (lc_dir w) p g)"
  using lifecycle_inv_reachable [OF assms] owns_unique [OF assms(2)] by (fastforce simp: lifecycle_inv_def)

section \<open>Taking over\<close>

definition tidy_dir :: "guard_context \<Rightarrow> runtime_dir \<Rightarrow> bool" where
  "tidy_dir ctx d =
     ((\<forall>m content. rd_lock d = Some (m, content) \<longrightarrow>
         md_kind m = RegularFile \<and> permissions m = 0x180 \<and> gx_of_json ctx content \<noteq> None)
      \<and> (\<forall>m. rd_sock d = Some m \<longrightarrow> md_kind m = SocketFile))"

definition tidy :: "guard_context \<Rightarrow> lifecycle \<Rightarrow> bool" where
  "tidy ctx w = (tidy_dir ctx (lc_dir w)
     \<and> (\<forall>i \<in> rd_listening (lc_dir w). \<exists>p g. lc_running w p = Some g \<and> socket_inode g = i))"

lemma acquire_lock_tidy:
  assumes "tidy_dir ctx0 d" "gx_fault ctx WriteLock = None" "gx_to_json ctx p = Inr bytes" "gx_of_json ctx0 bytes \<noteq> None"
    "gx_umask ctx AND 0x180 = 0"
    and "acquire_lock ctx n p d = (res, d')"
  shows "tidy_dir ctx0 d'"
  using assms(1,6)
proof (induction n arbitrary: d)
  case (Suc n)
  have "write_lock ctx p d = (res, d') \<Longrightarrow> tidy_dir ctx0 d'"
    using assms(2-5) Suc.prems(1) new_lock_permissions [of ctx d]
    by (auto simp: write_lock_def Let_def tidy_dir_def create_lock_def fill_lock_def own_entry_def split: option.splits)
  moreover have "tidy_dir ctx0 (d\<lparr> rd_lock := None \<rparr>)"
    using Suc.prems(1) by (simp add: tidy_dir_def)
  ultimately show ?case
    using Suc by (auto split: option.splits sum.splits)
qed simp

lemma acquire_tidy:
  assumes "tidy_dir ctx0 d" "gx_fault ctx WriteLock = None" "gx_to_json ctx p = Inr bytes" "gx_of_json ctx0 bytes \<noteq> None"
    "gx_umask ctx AND 0x180 = 0"
    and "RuntimeGuard_acquire ctx p d = (res, d')"
  shows "tidy_dir ctx0 d'"
proof -
  obtain res1 d1 where a: "acquire_lock ctx 2 p d = (res1, d1)" by (cases "acquire_lock ctx 2 p d")
  note t = acquire_lock_tidy [OF assms(1-5) a]
  have "open_socket ctx li d1 = (res, d') \<Longrightarrow> tidy_dir ctx0 d'" for li
    using t by (auto simp: open_socket_def clear_socket_def tidy_dir_def dir_defs split: option.splits if_splits)
  with assms(1,6) a t show ?thesis
    by (auto simp: RuntimeGuard_acquire_def split: sum.splits option.splits)
qed

lemma tidy_step:
  assumes step: "lifecycle_step ctx {f. f WriteLock = None} w w'"
    and "tidy ctx w" "lifecycle_inv ctx w" "identity_json_ok ctx" "\<And>q. \<exists>bytes. gx_to_json ctx q = Inr bytes"
    and "gx_umask ctx AND 0x180 = 0"
  shows "tidy ctx w'"
proof -
  have only: "rd_listening (lc_dir w) \<subseteq> {socket_inode g}" if "lc_running w p = Some g" for p g
  proof
    fix i
    assume "i \<in> rd_listening (lc_dir w)"
    then obtain q h where q: "lc_running w q = Some h" "socket_inode h = i"
      using assms(2) by (auto simp: tidy_def)
    have "q = p"
      using owns_unique [OF assms(4)] assms(3) that q(1) unfolding lifecycle_inv_def by blast
    with q that show "i \<in> {socket_inode g}" by simp
  qed
  have decodes: "\<exists>bytes. gx_to_json ctx p = Inr bytes \<and> gx_of_json ctx bytes \<noteq> None" for p
    using assms(4,5) by (metis identity_json_ok_def option.distinct(1))
  have dir: "tidy_dir ctx d" if "RuntimeGuard_acquire (live_context (ctx\<lparr> gx_fault := fault, gx_private_dir := dir \<rparr>) w) p (lc_dir w) = (res, d)"
    "fault WriteLock = None" for fault dir p res d
    using that assms(2,6) decodes [of p] acquire_tidy [of ctx "lc_dir w" "live_context (ctx\<lparr> gx_fault := fault, gx_private_dir := dir \<rparr>) w" p]
    by (auto simp: tidy_def)
  have n: "numbered (lc_dir w)" using assms(3) by (simp add: lifecycle_inv_def)
  from step show ?thesis
  proof cases
    case (start p fault dir g d)
    have l: "rd_listening d = insert (socket_inode g) (rd_listening (lc_dir w))"
      using acquire_Inr [OF start(4) n] by simp
    have "\<exists>q h. ((lc_running w)(p \<mapsto> g)) q = Some h \<and> socket_inode h = i" if "i \<in> rd_listening d" for i
    proof (cases "i = socket_inode g")
      case False
      with that l \<open>tidy ctx w\<close> obtain q h where "lc_running w q = Some h" "socket_inode h = i"
        by (auto simp: tidy_def)
      with start(2) show ?thesis by (intro exI [of _ q] exI [of _ h]) auto
    qed auto
    with start(1) dir [OF start(4)] start(3) show ?thesis by (simp add: tidy_def)
  next
    case (refused p fault dir e d)
    with \<open>tidy ctx w\<close> show ?thesis
      using dir [OF refused(4)] acquire_Inl [OF refused(4) n] by (simp add: tidy_def)
  next
    case (stop p g)
    have "tidy_dir ctx (RuntimeGuard_drop g (lc_dir w))"
      using \<open>tidy ctx w\<close> by (auto simp: tidy_def tidy_dir_def dest!: drop_entries(1,2))
    moreover have "rd_listening (RuntimeGuard_drop g (lc_dir w)) = {}"
      using only [OF stop(2)] by (auto simp: drop_entries)
    ultimately show ?thesis by (simp add: tidy_def stop(1))
  next
    case (crash p g)
    have "tidy_dir ctx (close_listener (socket_inode g) (lc_dir w))"
      using \<open>tidy ctx w\<close> by (simp add: tidy_def tidy_dir_def dir_defs)
    moreover have "rd_listening (close_listener (socket_inode g) (lc_dir w)) = {}"
      using only [OF crash(2)] by (auto simp: dir_defs)
    ultimately show ?thesis by (simp add: tidy_def crash(1))
  qed
qed

lemma acquire_takes_over:
  assumes "tidy_dir ctx d" "rd_listening d = {}" "gx_fault ctx = (\<lambda>_. None)" "gx_private_dir ctx = Inr ()"
    and "gx_to_json ctx p = Inr bytes" "\<And>q. gx_classify ctx q = Inr NativeStatus.Dead"
  shows "\<exists>g d'. RuntimeGuard_acquire ctx p d = (Inr g, d')"
proof -
  have w: "\<exists>d1. write_lock ctx p d0 = (Inr (), d1)" for d0
    using assms(3,5) by (simp add: write_lock_def Let_def)
  have "\<exists>d1. acquire_lock ctx 2 p d = (Inr (), d1)"
  proof (cases "rd_lock d")
    case None
    then show ?thesis using w assms(3) by (simp add: numeral_2_eq_2)
  next
    case (Some lock)
    then have "check_stale ctx lock = Inr ()"
      using assms(1,3,6) by (cases lock) (auto simp: check_stale_def tidy_dir_def ok_or_def)
    then show ?thesis using w Some assms(3) by (simp add: numeral_2_eq_2)
  qed
  then obtain d1 where a: "acquire_lock ctx 2 p d = (Inr (), d1)" by blast
  have sock: "rd_sock d1 = rd_sock d" "rd_listening d1 = {}"
    using acquire_lock_frame [OF a] assms(2) by auto
  have "\<exists>d2. clear_socket ctx d1 = (Inr (), d2)"
    using sock assms(1,3) by (auto simp: clear_socket_def tidy_dir_def split: option.split)
  then have "\<exists>g d2. open_socket ctx li d1 = (Inr g, d2)" for li
    using assms(3) by (auto simp: open_socket_def)
  then show ?thesis
    using a acquire_lock_Inr [OF a] assms(4) by (auto simp: RuntimeGuard_acquire_def)
qed

text \<open>
  C14. A supervisor that is gone does not block the next one.  Starting from an empty runtime directory,
  after any history of starts, stops, crashes and system errors in which writing a new lock never
  failed (a lock that stays empty blocks every later start), when no supervisor runs, a start that
  meets no system error succeeds, whatever lock and socket were left behind (under a umask that leaves
  the owner's bits alone).
\<close>

theorem stale_files_taken_over:
  assumes "(lifecycle_step ctx {f. f WriteLock = None})\<^sup>*\<^sup>* (unused_dir \<lparr> rd_lock = None, rd_sock = None, rd_listening = {}, rd_next = n \<rparr>) w"
    and "identity_json_ok ctx" "\<And>q. \<exists>bytes. gx_to_json ctx q = Inr bytes" "lc_running w = Map.empty"
    and "gx_umask ctx AND 0x180 = 0"
  shows "\<exists>g d. RuntimeGuard_acquire (live_context (ctx\<lparr> gx_fault := (\<lambda>_. None), gx_private_dir := Inr () \<rparr>) w) p (lc_dir w) = (Inr g, d)"
proof -
  let ?d = "\<lparr> rd_lock = None, rd_sock = None, rd_listening = {}, rd_next = n \<rparr> :: runtime_dir"
  have n: "numbered ?d" by (simp add: numbered_def)
  have "tidy ctx w \<and> lifecycle_inv ctx w"
    using assms(1)
  proof (induction rule: rtranclp_induct)
    case base
    show ?case using n by (simp add: tidy_def tidy_dir_def unused_dir_def lifecycle_inv_def)
  next
    case (step w w')
    then show ?case using tidy_step lifecycle_inv_step assms(2,3,5) by blast
  qed
  then have "tidy_dir ctx (lc_dir w)" "rd_listening (lc_dir w) = {}"
    using assms(4) by (auto simp: tidy_def)
  moreover obtain bytes where "gx_to_json ctx p = Inr bytes" using assms(3) by blast
  ultimately show ?thesis
    using assms(4) by (intro acquire_takes_over [of _ _ _ bytes]) (simp_all add: tidy_dir_def)
qed

text \<open>
  A lock that was created but not written blocks every later supervisor.  If writing the
  identity fails, or the process dies before it, the empty lock file stays behind.  From then on no
  sequence of starts, with or without errors, ever leads to a running supervisor: the lock is
  malformed, and nothing removes it.
\<close>

theorem unwritten_lock_blocks_for_ever:
  assumes "rd_lock d = None" "gx_of_json ctx [] = None" "gx_private_dir ctx = Inr ()"
    and "gx_fault ctx OpenLock = None" "gx_fault ctx WriteLock = Some e" "gx_to_json ctx p = Inr bytes"
  shows "\<exists>err d'. RuntimeGuard_acquire ctx p d = (Inl err, d')
    \<and> (\<forall>w. (lifecycle_step ctx UNIV)\<^sup>*\<^sup>* (unused_dir d') w \<longrightarrow> lc_running w = Map.empty)"
proof -
  let ?d = "create_lock ctx d"
  have a: "RuntimeGuard_acquire ctx p d = (Inl (IpcError.Json e), ?d)"
    using assms by (simp add: RuntimeGuard_acquire_def numeral_2_eq_2 write_lock_def Let_def)
  have stuck: "\<exists>err. RuntimeGuard_acquire (live_context (ctx\<lparr> gx_fault := fault, gx_private_dir := dir \<rparr>) w) q ?d = (Inl err, ?d)" for fault dir w q
    using assms(2) by (auto simp: RuntimeGuard_acquire_def numeral_2_eq_2 create_lock_def own_entry_def check_stale_def
        permissions_def split: sum.split option.split)
  have "lc_running w = Map.empty \<and> lc_dir w = ?d" if "(lifecycle_step ctx UNIV)\<^sup>*\<^sup>* (unused_dir ?d) w" for w
    using that
  proof (induction rule: rtranclp_induct)
    case base
    show ?case by (simp add: unused_dir_def)
  next
    case (step w w')
    from step(2) show ?case
    proof cases
      case (start p fault dir g d)
      with step.IH stuck [where fault = fault and dir = dir and w = w and q = p] show ?thesis by simp
    next
      case (refused p fault dir e d)
      with step.IH stuck [where fault = fault and dir = dir and w = w and q = p] show ?thesis by simp
    qed (use step.IH in simp_all)
  qed
  with a show ?thesis by blast
qed

section \<open>A concrete context\<close>

text \<open>An identity as bytes: each number in unary, closed by a zero.\<close>

definition identity_numbers :: "ProcessIdentitySnapshot \<Rightarrow> nat list" where
  "identity_numbers q = unat (pid q) # unat (start_token q) # (if process_group_id q < 0 then 1 else 0)
     # nat (abs (process_group_id q)) # map of_char (boot_identity q)"

definition sample_identity_to_json :: "ProcessIdentitySnapshot \<Rightarrow> u8 list" where
  "sample_identity_to_json q = concat (map (\<lambda>n. replicate n 1 @ [0]) (identity_numbers q))"

fun unary_numbers :: "u8 list \<Rightarrow> nat \<Rightarrow> nat list" where
  "unary_numbers [] k = []"
| "unary_numbers (b # bytes) k = (if b = 0 then k # unary_numbers bytes 0 else unary_numbers bytes (Suc k))"

definition sample_identity_of_json :: "u8 list \<Rightarrow> ProcessIdentitySnapshot option" where
  "sample_identity_of_json bytes =
     (case unary_numbers bytes 0 of
        p # t # s # g # cs \<Rightarrow> Some \<lparr> boot_identity = map char_of cs, pid = of_nat p, start_token = of_nat t,
          process_group_id = (if s = 1 then - int g else int g) \<rparr>
      | _ \<Rightarrow> None)"

definition sample_guard :: guard_context where
  "sample_guard = \<lparr> gx_uid = 7, gx_umask = 0x12, gx_to_json = (\<lambda>q. Inr (sample_identity_to_json q)), gx_of_json = sample_identity_of_json,
     gx_classify = (\<lambda>_. Inr NativeStatus.Dead), gx_private_dir = Inr (), gx_fault = (\<lambda>_. None) \<rparr>"

lemma unary_numbers_replicate: "unary_numbers (replicate n 1 @ 0 # rest) k = (k + n) # unary_numbers rest 0"
  by (induction n arbitrary: k) simp_all

lemma unary_numbers_concat: "unary_numbers (concat (map (\<lambda>n. replicate n 1 @ [0]) ns)) 0 = ns"
  by (induction ns) (simp_all add: unary_numbers_replicate)

lemma sample_guard_json: "identity_json_ok sample_guard"
proof -
  have "sample_identity_of_json (sample_identity_to_json q) = Some q" for q
  proof -
    have "unary_numbers (sample_identity_to_json q) 0 = identity_numbers q"
      by (simp only: sample_identity_to_json_def unary_numbers_concat)
    then show ?thesis
      by (cases q) (simp add: sample_identity_of_json_def identity_numbers_def comp_def)
  qed
  then show ?thesis by (simp add: identity_json_ok_def sample_guard_def)
qed

lemma sample_guard_acquires:
  "tidy_dir sample_guard d \<Longrightarrow> rd_listening d = {} \<Longrightarrow> \<exists>g d'. RuntimeGuard_acquire sample_guard p d = (Inr g, d')"
  by (rule acquire_takes_over [of _ _ _ "sample_identity_to_json p"]) (simp_all add: sample_guard_def)

definition clean_dir :: runtime_dir where
  "clean_dir = \<lparr> rd_lock = None, rd_sock = None, rd_listening = {}, rd_next = 0 \<rparr>"

lemma sample_guard_live:
  "live_context (sample_guard\<lparr> gx_fault := (\<lambda>_. None), gx_private_dir := Inr () \<rparr>) (unused_dir d) = sample_guard"
  by (simp add: live_context_def sample_guard_def unused_dir_def)

lemma sample_start:
  assumes "(\<lambda>_. None) \<in> faults"
  shows "\<exists>g d. RuntimeGuard_acquire sample_guard sample_process clean_dir = (Inr g, d)
    \<and> lifecycle_step sample_guard faults (unused_dir clean_dir) \<lparr> lc_dir = d, lc_running = [sample_process \<mapsto> g] \<rparr>"
proof -
  obtain g d where a: "RuntimeGuard_acquire sample_guard sample_process clean_dir = (Inr g, d)"
    using sample_guard_acquires [of clean_dir sample_process] by (auto simp: clean_dir_def tidy_dir_def)
  have u: "lc_running (unused_dir clean_dir) = Map.empty" "lc_dir (unused_dir clean_dir) = clean_dir"
    by (simp_all add: unused_dir_def)
  have "lifecycle_step sample_guard faults (unused_dir clean_dir)
      \<lparr> lc_dir = d, lc_running = (lc_running (unused_dir clean_dir))(sample_process \<mapsto> g) \<rparr>"
    by (rule lifecycle_step.start [where fault = "\<lambda>_. None" and dir = "Inr ()"])
      (simp_all only: sample_guard_live u a assms)
  with a u show ?thesis by auto
qed

theorem single_supervisor_witness:
  "\<exists>w. (lifecycle_step sample_guard UNIV)\<^sup>*\<^sup>* (unused_dir clean_dir) w \<and> lc_running w sample_process \<noteq> None
     \<and> (\<forall>q. lc_running w q \<noteq> None \<longrightarrow> q = sample_process)"
proof -
  obtain g d where "lifecycle_step sample_guard UNIV (unused_dir clean_dir) \<lparr> lc_dir = d, lc_running = [sample_process \<mapsto> g] \<rparr>"
    using sample_start [of UNIV] by blast
  then have r: "(lifecycle_step sample_guard UNIV)\<^sup>*\<^sup>* (unused_dir clean_dir) \<lparr> lc_dir = d, lc_running = [sample_process \<mapsto> g] \<rparr>" by blast
  have "numbered clean_dir" by (simp add: numbered_def clean_dir_def)
  note only = conjunct1 [OF single_supervisor [OF r sample_guard_json this], rule_format]
  have run: "lc_running \<lparr> lc_dir = d, lc_running = [sample_process \<mapsto> g] \<rparr> sample_process \<noteq> None" by simp
  then show ?thesis
    using r only [OF conjI [OF _ run]] by blast
qed

theorem stale_files_taken_over_witness:
  "\<exists>w g d. (lifecycle_step sample_guard {f. f WriteLock = None})\<^sup>*\<^sup>* (unused_dir clean_dir) w
     \<and> lc_running w = Map.empty \<and> rd_lock (lc_dir w) \<noteq> None \<and> rd_sock (lc_dir w) \<noteq> None
     \<and> RuntimeGuard_acquire (live_context (sample_guard\<lparr> gx_fault := (\<lambda>_. None), gx_private_dir := Inr () \<rparr>) w) sample_process (lc_dir w) = (Inr g, d)"
proof -
  let ?faults = "{f :: guard_call \<Rightarrow> string option. f WriteLock = None}"
  have "(\<lambda>_. None) \<in> ?faults" by simp
  from sample_start [OF this]
  obtain g d where a: "RuntimeGuard_acquire sample_guard sample_process clean_dir = (Inr g, d)"
    and "lifecycle_step sample_guard ?faults (unused_dir clean_dir) \<lparr> lc_dir = d, lc_running = [sample_process \<mapsto> g] \<rparr>"
    by blast
  moreover have "lifecycle_step sample_guard ?faults \<lparr> lc_dir = d, lc_running = [sample_process \<mapsto> g] \<rparr>
      \<lparr> lc_dir = close_listener (socket_inode g) d, lc_running = Map.empty \<rparr>"
    using lifecycle_step.crash [of "\<lparr> lc_dir = d, lc_running = [sample_process \<mapsto> g] \<rparr>" sample_process g sample_guard ?faults] by simp
  ultimately have r: "(lifecycle_step sample_guard ?faults)\<^sup>*\<^sup>* (unused_dir clean_dir) \<lparr> lc_dir = close_listener (socket_inode g) d, lc_running = Map.empty \<rparr>"
    by (meson converse_rtranclp_into_rtranclp r_into_rtranclp)
  have left: "rd_lock (close_listener (socket_inode g) d) \<noteq> None" "rd_sock (close_listener (socket_inode g) d) \<noteq> None"
    using acquire_Inr [OF a] by (auto simp: close_listener_def clean_dir_def numbered_def)
  have t: "\<exists>bytes. gx_to_json sample_guard q = Inr bytes" for q by (simp add: sample_guard_def)
  have u: "gx_umask sample_guard AND 0x180 = 0" by (simp add: sample_guard_def)
  from stale_files_taken_over [OF r [unfolded clean_dir_def] sample_guard_json t _ u] r left show ?thesis by fastforce
qed

theorem unwritten_lock_blocks_for_ever_witness:
  "\<exists>err d. RuntimeGuard_acquire (sample_guard\<lparr> gx_fault := (\<lambda>c. if c = WriteLock then Some ''disk full'' else None) \<rparr>) sample_process clean_dir = (Inl err, d)
     \<and> (\<forall>w. (lifecycle_step (sample_guard\<lparr> gx_fault := (\<lambda>c. if c = WriteLock then Some ''disk full'' else None) \<rparr>) UNIV)\<^sup>*\<^sup>* (unused_dir d) w
          \<longrightarrow> lc_running w = Map.empty)"
  using unwritten_lock_blocks_for_ever [of clean_dir "sample_guard\<lparr> gx_fault := (\<lambda>c. if c = WriteLock then Some ''disk full'' else None) \<rparr>"
      "''disk full''" sample_process "sample_identity_to_json sample_process"]
  by (simp add: clean_dir_def sample_guard_def sample_identity_of_json_def)

end
