(* ===== verification/Guard_Race.thy ===== *)
theory Guard_Race
  imports Runtime_Guard
begin

text \<open>
  Several supervisors that start at the same time: \<open>RuntimeGuard::acquire\<close> and
  \<open>acquire_lock\<close> of \<open>src/supervisor/ipc.rs\<close> as the sequence of their system calls.  Each process
  has a program counter; a step of a process is its next system call, on the runtime directory as
  it is at that moment.  Only errors that follow from the state of the directory are modelled here.
\<close>

section \<open>Steps\<close>

datatype guard_pc =
    Absent
  | OpenNew nat
  | WriteIdentity nat
  | StatExisting nat
  | ReadOwner nat
  | ClassifyOwner nat ProcessIdentitySnapshot
  | UnlinkStale nat
  | StatLock
  | StatSocket nat
  | StatSocketAgain nat
  | Connect nat
  | UnlinkSocket nat
  | Bind nat
  | ChmodSocket nat nat
  | StatBound nat nat
  | Serving RuntimeGuard nat
  | GiveUp
  | Gone

record race =
  ra_dir :: runtime_dir
  ra_pc :: "ProcessIdentitySnapshot \<Rightarrow> guard_pc"

definition alive :: "race \<Rightarrow> ProcessIdentitySnapshot \<Rightarrow> bool" where
  "alive w q = (ra_pc w q \<noteq> Absent \<and> ra_pc w q \<noteq> Gone)"

fun fill_own_lock :: "nat \<Rightarrow> u8 list \<Rightarrow> runtime_dir \<Rightarrow> runtime_dir" where
  "fill_own_lock ino bytes d =
     (case rd_lock d of
        Some (m, _) \<Rightarrow> if md_ino m = ino then d\<lparr> rd_lock := Some (m, bytes) \<rparr> else d
      | None \<Rightarrow> d)"

definition encode_identity :: "guard_context \<Rightarrow> ProcessIdentitySnapshot \<Rightarrow> u8 list" where
  "encode_identity ctx p = (case gx_to_json ctx p of Inr bytes \<Rightarrow> bytes | Inl _ \<Rightarrow> [])"

text \<open>The next system call of a process: the new directory and program counter.\<close>

fun guard_call_step ::
  "guard_context \<Rightarrow> (ProcessIdentitySnapshot \<Rightarrow> bool) \<Rightarrow> ProcessIdentitySnapshot \<Rightarrow> runtime_dir \<Rightarrow> guard_pc \<Rightarrow> runtime_dir \<times> guard_pc" where
  "guard_call_step ctx live p d Absent = (d, OpenNew 2)"
| "guard_call_step ctx live p d (OpenNew n) =
     (case n of
        0 \<Rightarrow> (d, Gone)
      | Suc k \<Rightarrow> (case rd_lock d of
            None \<Rightarrow> (create_lock ctx d, WriteIdentity (rd_next d))
          | Some _ \<Rightarrow> (d, StatExisting k)))"
| "guard_call_step ctx live p d (WriteIdentity ino) = (fill_own_lock ino (encode_identity ctx p) d, StatLock)"
| "guard_call_step ctx live p d (StatExisting n) =
     (case rd_lock d of
        None \<Rightarrow> (d, Gone)
      | Some (m, _) \<Rightarrow> if md_kind m \<noteq> RegularFile \<or> permissions m \<noteq> 0x180 then (d, Gone) else (d, ReadOwner n))"
| "guard_call_step ctx live p d (ReadOwner n) =
     (case rd_lock d of
        None \<Rightarrow> (d, Gone)
      | Some (_, content) \<Rightarrow> (case gx_of_json ctx content of
            None \<Rightarrow> (d, Gone)
          | Some owner \<Rightarrow> (d, ClassifyOwner n owner)))"
| "guard_call_step ctx live p d (ClassifyOwner n owner) = (if live owner then (d, Gone) else (d, UnlinkStale n))"
| "guard_call_step ctx live p d (UnlinkStale n) =
     (case rd_lock d of None \<Rightarrow> (d, Gone) | Some _ \<Rightarrow> (d\<lparr> rd_lock := None \<rparr>, OpenNew n))"
| "guard_call_step ctx live p d StatLock =
     (case rd_lock d of None \<Rightarrow> (d, Gone) | Some (m, _) \<Rightarrow> (d, StatSocket (md_ino m)))"
| "guard_call_step ctx live p d (StatSocket li) =
     (case rd_sock d of None \<Rightarrow> (d, Bind li) | Some _ \<Rightarrow> (d, StatSocketAgain li))"
| "guard_call_step ctx live p d (StatSocketAgain li) =
     (case rd_sock d of
        None \<Rightarrow> (d, Gone)
      | Some m \<Rightarrow> if md_kind m \<noteq> SocketFile then (d, GiveUp) else (d, Connect li))"
| "guard_call_step ctx live p d (Connect li) =
     (case rd_sock d of
        None \<Rightarrow> (d, UnlinkSocket li)
      | Some m \<Rightarrow> if md_ino m \<in> rd_listening d then (d, GiveUp) else (d, UnlinkSocket li))"
| "guard_call_step ctx live p d (UnlinkSocket li) =
     (case rd_sock d of None \<Rightarrow> (d, Gone) | Some _ \<Rightarrow> (d\<lparr> rd_sock := None \<rparr>, Bind li))"
| "guard_call_step ctx live p d (Bind li) =
     (case rd_sock d of None \<Rightarrow> (create_socket ctx d, ChmodSocket li (rd_next d)) | Some _ \<Rightarrow> (d, GiveUp))"
| "guard_call_step ctx live p d (ChmodSocket li ino) =
     (case rd_sock d of None \<Rightarrow> (close_listener ino d, Gone) | Some _ \<Rightarrow> (chmod_socket d, StatBound li ino))"
| "guard_call_step ctx live p d (StatBound li ino) =
     (case rd_sock d of
        None \<Rightarrow> (close_listener ino d, Gone)
      | Some m \<Rightarrow> (d, Serving \<lparr> lock_inode = li, socket_inode = md_ino m \<rparr> ino))"
| "guard_call_step ctx live p d (Serving g ino) = (d, Serving g ino)"
| "guard_call_step ctx live p d GiveUp = (d\<lparr> rd_lock := None \<rparr>, Gone)"
| "guard_call_step ctx live p d Gone = (d, Gone)"

definition race_step :: "guard_context \<Rightarrow> ProcessIdentitySnapshot \<Rightarrow> race \<Rightarrow> race" where
  "race_step ctx p w =
     (let (d, c) = guard_call_step ctx (alive w) p (ra_dir w) (ra_pc w p)
      in \<lparr> ra_dir = d, ra_pc = (ra_pc w)(p := c) \<rparr>)"

fun serving :: "guard_pc \<Rightarrow> bool" where
  "serving (Serving _ _) = True"
| "serving _ = False"

section \<open>Starting at the same time\<close>

text \<open>The processes that have created the lock and not given it up.\<close>

fun holder :: "guard_pc \<Rightarrow> bool" where
  "holder Absent = False"
| "holder (OpenNew _) = False"
| "holder (StatExisting _) = False"
| "holder (ReadOwner _) = False"
| "holder (ClassifyOwner _ _) = False"
| "holder (UnlinkStale _) = False"
| "holder Gone = False"
| "holder _ = True"

inductive contention :: "guard_context \<Rightarrow> race \<Rightarrow> race \<Rightarrow> bool" for ctx where
  call: "contention ctx w (race_step ctx p w)"
| crash: "\<not> holder (ra_pc w p) \<Longrightarrow> contention ctx w (w\<lparr> ra_pc := (ra_pc w)(p := Gone) \<rparr>)"

definition all_absent :: "nat \<Rightarrow> race" where
  "all_absent n = \<lparr> ra_dir = \<lparr> rd_lock = None, rd_sock = None, rd_listening = {}, rd_next = n \<rparr>, ra_pc = (\<lambda>_. Absent) \<rparr>"

text \<open>What the directory holds while the lock is held, by the progress of its holder.\<close>

fun holds :: "guard_context \<Rightarrow> ProcessIdentitySnapshot \<Rightarrow> runtime_dir \<Rightarrow> guard_pc \<Rightarrow> bool" where
  "holds ctx h d (WriteIdentity ino) = ((\<exists>m. rd_lock d = Some (m, []) \<and> md_ino m = ino) \<and> rd_sock d = None)"
| "holds ctx h d StatLock = ((\<exists>m. rd_lock d = Some (m, encode_identity ctx h)) \<and> rd_sock d = None)"
| "holds ctx h d (StatSocket li) = ((\<exists>m. rd_lock d = Some (m, encode_identity ctx h)) \<and> rd_sock d = None)"
| "holds ctx h d (Bind li) = ((\<exists>m. rd_lock d = Some (m, encode_identity ctx h)) \<and> rd_sock d = None)"
| "holds ctx h d (ChmodSocket li ino) =
     ((\<exists>m. rd_lock d = Some (m, encode_identity ctx h)) \<and> (\<exists>m. rd_sock d = Some m \<and> md_ino m = ino))"
| "holds ctx h d (StatBound li ino) =
     ((\<exists>m. rd_lock d = Some (m, encode_identity ctx h)) \<and> (\<exists>m. rd_sock d = Some m \<and> md_ino m = ino))"
| "holds ctx h d (Serving g ino) =
     ((\<exists>m. rd_lock d = Some (m, encode_identity ctx h)) \<and> (\<exists>m. rd_sock d = Some m \<and> md_ino m = ino \<and> socket_inode g = ino))"
| "holds ctx h d _ = False"

fun waits_on :: "ProcessIdentitySnapshot option \<Rightarrow> guard_pc \<Rightarrow> bool" where
  "waits_on ho (ClassifyOwner n owner) = (ho = Some owner)"
| "waits_on ho (UnlinkStale n) = False"
| "waits_on ho _ = True"

definition race_inv :: "guard_context \<Rightarrow> ProcessIdentitySnapshot option \<Rightarrow> race \<Rightarrow> bool" where
  "race_inv ctx ho w =
     ((\<forall>p. holder (ra_pc w p) \<longleftrightarrow> ho = Some p) \<and> (\<forall>p. waits_on ho (ra_pc w p))
      \<and> (case ho of
           None \<Rightarrow> rd_lock (ra_dir w) = None \<and> rd_sock (ra_dir w) = None
         | Some h \<Rightarrow> holds ctx h (ra_dir w) (ra_pc w h)))"

lemma holds_holder: "holds ctx h d c \<Longrightarrow> holder c"
  by (cases c) simp_all

lemma waits_on_holder: "holder c \<Longrightarrow> waits_on ho c"
  by (cases c) simp_all

text \<open>A step of the holder.\<close>

lemma holder_call:
  assumes "holds ctx h d c" "guard_call_step ctx live h d c = (d', c')"
  shows "holds ctx h d' c'"
  using assms by (cases c) (auto simp: create_socket_def chmod_socket_def own_entry_def)

lemma encode_identity_ok:
  "identity_json_ok ctx \<Longrightarrow> gx_to_json ctx p = Inr bytes \<Longrightarrow> gx_of_json ctx (encode_identity ctx p) = Some p"
  by (simp add: encode_identity_def identity_json_ok_def)

text \<open>A step of another process while the lock is held: it changes nothing and does not get far.\<close>

lemma other_call:
  assumes "holds ctx h d hc" "\<not> holder c" "waits_on (Some h) c" "live h" "guard_call_step ctx live p d c = (d', c')"
    and "gx_of_json ctx [] = None" "gx_of_json ctx (encode_identity ctx h) = Some h"
  shows "d' = d \<and> \<not> holder c' \<and> waits_on (Some h) c'"
proof -
  obtain m content where l: "rd_lock d = Some (m, content)" "content = [] \<or> content = encode_identity ctx h"
    using assms(1) by (cases hc) auto
  show ?thesis
    using assms(2-) l by (cases c) (auto split: nat.splits if_splits)
qed

text \<open>A step while nobody holds the lock.\<close>

lemma free_call:
  assumes "rd_lock d = None" "rd_sock d = None" "\<not> holder c" "waits_on None c" "guard_call_step ctx live p d c = (d', c')"
  shows "if holder c' then holds ctx p d' c' else d' = d \<and> waits_on None c'"
  using assms by (cases c) (auto simp: create_lock_def own_entry_def split: nat.splits)

lemma race_inv_step:
  assumes "race_inv ctx ho w" "gx_of_json ctx [] = None" "\<And>h. gx_of_json ctx (encode_identity ctx h) = Some h"
  shows "\<exists>ho'. race_inv ctx ho' (race_step ctx p w)"
proof -
  obtain d c where s: "guard_call_step ctx (alive w) p (ra_dir w) (ra_pc w p) = (d, c)"
    by (cases "guard_call_step ctx (alive w) p (ra_dir w) (ra_pc w p)")
  have w': "race_step ctx p w = \<lparr> ra_dir = d, ra_pc = (ra_pc w)(p := c) \<rparr>"
    using s by (simp add: race_step_def)
  show ?thesis
  proof (cases ho)
    case None
    with assms(1) have n: "rd_lock (ra_dir w) = None" "rd_sock (ra_dir w) = None" "\<And>q. \<not> holder (ra_pc w q)" "\<And>q. waits_on None (ra_pc w q)"
      by (simp_all add: race_inv_def)
    have quiet: "waits_on ho' (ra_pc w q)" for ho' q
      using n(3,4) [of q] by (cases "ra_pc w q") auto
    have "race_inv ctx (if holder c then Some p else None) (race_step ctx p w)"
      using free_call [OF n(1,2) n(3) n(4) s] n quiet waits_on_holder [of c "Some p"]
      by (auto simp: race_inv_def w' split: if_splits)
    then show ?thesis by blast
  next
    case (Some h)
    with assms(1) have h: "holds ctx h (ra_dir w) (ra_pc w h)" "\<And>q. holder (ra_pc w q) \<longleftrightarrow> q = h" "\<And>q. waits_on (Some h) (ra_pc w q)"
      by (auto simp: race_inv_def)
    have live: "alive w h" using h(2) [of h] by (auto simp: alive_def)
    have "race_inv ctx (Some h) (race_step ctx p w)"
    proof (cases "p = h")
      case True
      then have c: "holds ctx h d c" using holder_call h(1) s by blast
      then have "holder c" "waits_on (Some h) c" using holds_holder waits_on_holder by blast+
      with c True h show ?thesis unfolding race_inv_def w' by auto
    next
      case False
      have "\<not> holder (ra_pc w p)" using False h(2) by simp
      note o = other_call [OF h(1) this h(3) live s assms(2) assms(3)]
      with False h show ?thesis by (auto simp: race_inv_def w')
    qed
    then show ?thesis by blast
  qed
qed

lemma race_inv_crash:
  assumes "race_inv ctx ho w" "\<not> holder (ra_pc w p)"
  shows "race_inv ctx ho (w\<lparr> ra_pc := (ra_pc w)(p := Gone) \<rparr>)"
  using assms by (auto simp: race_inv_def split: option.splits)

text \<open>
  C11. Supervisors that start at the same time exclude each other.  In an empty runtime directory,
  under every interleaving of the system calls of any number of processes, as long as the process
  that created the lock does not end (others may crash at any point), at most one process gets to
  serve, its identity is in the lock, and the socket in the directory is its own.
\<close>

theorem starters_exclude_each_other:
  assumes "(contention ctx)\<^sup>*\<^sup>* (all_absent n) w" "identity_json_ok ctx" "\<And>q. \<exists>bytes. gx_to_json ctx q = Inr bytes"
    and "gx_of_json ctx [] = None"
  shows "(\<forall>p q. serving (ra_pc w p) \<and> serving (ra_pc w q) \<longrightarrow> p = q)
    \<and> (\<forall>p g ino. ra_pc w p = Serving g ino \<longrightarrow> (\<exists>m. rd_lock (ra_dir w) = Some (m, encode_identity ctx p))
         \<and> (\<exists>m. rd_sock (ra_dir w) = Some m \<and> md_ino m = ino \<and> socket_inode g = ino))"
proof -
  have dec: "gx_of_json ctx (encode_identity ctx h) = Some h" for h
    using assms(2,3) encode_identity_ok by blast
  have "\<exists>ho. race_inv ctx ho w"
    using assms(1)
  proof (induction rule: rtranclp_induct)
    case base
    show ?case by (rule exI [of _ None]) (simp add: race_inv_def all_absent_def)
  next
    case (step w w')
    from step(2) step.IH show ?case
      by cases (use race_inv_step [OF _ assms(4) dec] race_inv_crash in blast)+
  qed
  then obtain ho where inv: "race_inv ctx ho w" by blast
  have serves: "ho = Some p" if "serving (ra_pc w p)" for p
    using that inv by (cases "ra_pc w p") (auto simp: race_inv_def)
  have "holds ctx p (ra_dir w) (ra_pc w p)" if "serving (ra_pc w p)" for p
    using serves [OF that] inv by (simp add: race_inv_def)
  then show ?thesis
    using serves by (metis (no_types, lifting) holds.simps(7) option.inject serving.simps(1))
qed

section \<open>Starting at the same time after a crash\<close>

text \<open>
  The schedule: both starters read the stale lock and find its owner dead; the first one replaces
  it and goes on to the socket; the second one removes the lock of the first, takes the lock and
  finds the stale socket without a listener; the first one binds its socket and serves; the second
  one removes that socket, binds its own and serves.
\<close>

definition race_schedule :: "ProcessIdentitySnapshot \<Rightarrow> ProcessIdentitySnapshot \<Rightarrow> ProcessIdentitySnapshot list" where
  "race_schedule a b = replicate 5 a @ replicate 5 b @ replicate 4 a @ replicate 7 b @ replicate 7 a @ replicate 4 b"

lemmas race_eval = race_step_def alive_def create_lock_def create_socket_def chmod_socket_def own_entry_def eval_nat_numeral

lemma race_both_serve:
  fixes d :: runtime_dir
  assumes d: "d = \<lparr> rd_lock = Some (ml, encode_identity ctx r), rd_sock = Some ms, rd_listening = L, rd_next = n \<rparr>"
    and "md_kind ml = RegularFile" "permissions ml = 0x180" "md_kind ms = SocketFile" "md_ino ms \<notin> L"
    and dec: "\<And>h. gx_of_json ctx (encode_identity ctx h) = Some h"
    and "a \<noteq> b" "a \<noteq> r" "b \<noteq> r"
  shows "\<exists>w g h i j. fold (race_step ctx) (race_schedule a b) \<lparr> ra_dir = d, ra_pc = (\<lambda>_. Absent) \<rparr> = w
    \<and> ra_pc w a = Serving g i \<and> ra_pc w b = Serving h j"
proof -
  let ?w0 = "\<lparr> ra_dir = d, ra_pc = (\<lambda>_. Absent) \<rparr>"
  let ?w2 = "\<lparr> ra_dir = d, ra_pc = (\<lambda>_. Absent)(a := UnlinkStale 1, b := UnlinkStale 1) \<rparr>"
  have 1: "fold (race_step ctx) (replicate 5 a @ replicate 5 b) ?w0 = ?w2"
    using assms by (simp add: race_eval fun_upd_twist)
  let ?la = "own_entry ctx RegularFile 0x180 d"
  let ?d3 = "d\<lparr> rd_lock := Some (?la, encode_identity ctx a), rd_next := Suc n \<rparr>"
  let ?w3 = "\<lparr> ra_dir = ?d3, ra_pc = (\<lambda>_. Absent)(a := StatSocket n, b := UnlinkStale 1) \<rparr>"
  have 2: "fold (race_step ctx) (replicate 4 a) ?w2 = ?w3"
    using assms by (simp add: race_eval fun_upd_twist)
  let ?lb = "own_entry ctx RegularFile 0x180 ?d3"
  let ?d4 = "d\<lparr> rd_lock := Some (?lb, encode_identity ctx b), rd_next := Suc (Suc n) \<rparr>"
  let ?w4 = "\<lparr> ra_dir = ?d4, ra_pc = (\<lambda>_. Absent)(a := StatSocket n, b := UnlinkSocket (Suc n)) \<rparr>"
  have 3: "fold (race_step ctx) (replicate 7 b) ?w3 = ?w4"
    using assms by (simp add: race_eval fun_upd_twist)
  obtain w5 g i where 4: "fold (race_step ctx) (replicate 7 a) ?w4 = w5" "ra_pc w5 a = Serving g i"
    "ra_pc w5 b = UnlinkSocket (Suc n)" "rd_sock (ra_dir w5) \<noteq> None"
    using assms by (simp add: race_eval fun_upd_twist)
  obtain h j where 5: "ra_pc (fold (race_step ctx) (replicate 4 b) w5) a = Serving g i"
    "ra_pc (fold (race_step ctx) (replicate 4 b) w5) b = Serving h j"
    using 4(2-4) assms(7) by (auto simp: race_eval)
  show ?thesis
    using 1 2 3 4(1) 5 by (simp add: race_schedule_def)
qed

text \<open>
  C12. After a crash two supervisors can run at once.  Whenever a supervisor has got the lock and
  crashed, two processes that start at the same time can both end up serving, without any error or
  further crash: each removes by its path what it takes for the stale file, which by then belongs to
  the other.
\<close>

theorem stale_lock_race:
  assumes "RuntimeGuard_acquire ctx r d0 = (Inr g, d)" "numbered d0" "gx_umask ctx AND 0x180 = 0"
    and "\<And>h. gx_of_json ctx (encode_identity ctx h) = Some h" "distinct [r, a, b]"
  shows "\<exists>schedule w ga ia gb ib. set schedule \<subseteq> {a, b}
    \<and> w = fold (race_step ctx) schedule \<lparr> ra_dir = close_listener (socket_inode g) d, ra_pc = (\<lambda>_. Absent) \<rparr>
    \<and> ra_pc w a = Serving ga ia \<and> ra_pc w b = Serving gb ib"
proof -
  obtain m ms where l: "rd_lock d = Some (m, encode_identity ctx r)" "md_kind m = RegularFile" "permissions m = 0x180"
    and s: "rd_sock d = Some ms" "md_kind ms = SocketFile" "md_ino ms = socket_inode g"
    using acquire_Inr [OF assms(1,2)] assms(3) by (auto simp: encode_identity_def)
  have "close_listener (socket_inode g) d = \<lparr> rd_lock = Some (m, encode_identity ctx r), rd_sock = Some ms,
      rd_listening = rd_listening d - {socket_inode g}, rd_next = rd_next d \<rparr>"
    using l(1) s(1) by (simp add: close_listener_def)
  from race_both_serve [OF this l(2,3) s(2), of a b] s(3) assms(4,5)
  obtain w ga gb ia ib where "fold (race_step ctx) (race_schedule a b) \<lparr> ra_dir = close_listener (socket_inode g) d, ra_pc = (\<lambda>_. Absent) \<rparr> = w"
    "ra_pc w a = Serving ga ia" "ra_pc w b = Serving gb ib"
    by auto
  moreover have "set (race_schedule a b) \<subseteq> {a, b}" by (auto simp: race_schedule_def)
  ultimately show ?thesis by blast
qed

section \<open>Alone, the calls are the operation\<close>

definition call :: "guard_context \<Rightarrow> (ProcessIdentitySnapshot \<Rightarrow> bool) \<Rightarrow> ProcessIdentitySnapshot \<Rightarrow> runtime_dir \<times> guard_pc \<Rightarrow> runtime_dir \<times> guard_pc" where
  "call ctx live p x = guard_call_step ctx live p (fst x) (snd x)"

lemma call_not_Absent: "snd (call ctx live p (d, c)) \<noteq> Absent"
  by (cases c) (auto simp: call_def split: nat.split option.split)

lemma race_step_call:
  assumes "c \<noteq> Absent"
  shows "race_step ctx p \<lparr> ra_dir = d, ra_pc = pcs(p := c) \<rparr> =
     (let (d', c') = call ctx (\<lambda>q. q = p \<or> pcs q \<noteq> Absent \<and> pcs q \<noteq> Gone) p (d, c) in \<lparr> ra_dir = d', ra_pc = pcs(p := c') \<rparr>)"
proof (cases "c = Gone")
  case True
  then show ?thesis by (simp add: race_step_def call_def)
next
  case False
  with assms have "alive \<lparr> ra_dir = d, ra_pc = pcs(p := c) \<rparr> = (\<lambda>q. q = p \<or> pcs q \<noteq> Absent \<and> pcs q \<noteq> Gone)"
    by (auto simp: alive_def)
  then show ?thesis by (simp add: race_step_def call_def case_prod_beta)
qed

lemma race_steps_calls:
  assumes "c \<noteq> Absent"
  shows "(race_step ctx p ^^ k) \<lparr> ra_dir = d, ra_pc = pcs(p := c) \<rparr> =
     (let (d', c') = (call ctx (\<lambda>q. q = p \<or> pcs q \<noteq> Absent \<and> pcs q \<noteq> Gone) p ^^ k) (d, c) in \<lparr> ra_dir = d', ra_pc = pcs(p := c') \<rparr>)"
  using assms
proof (induction k arbitrary: d c)
  case (Suc k)
  obtain d' c' where s: "call ctx (\<lambda>q. q = p \<or> pcs q \<noteq> Absent \<and> pcs q \<noteq> Gone) p (d, c) = (d', c')"
    by (cases "call ctx (\<lambda>q. q = p \<or> pcs q \<noteq> Absent \<and> pcs q \<noteq> Gone) p (d, c)")
  then have "c' \<noteq> Absent" using call_not_Absent by (metis snd_conv)
  moreover have "race_step ctx p \<lparr> ra_dir = d, ra_pc = pcs(p := c) \<rparr> = \<lparr> ra_dir = d', ra_pc = pcs(p := c') \<rparr>"
    using race_step_call [OF Suc.prems, of ctx p d pcs] s by simp
  ultimately show ?case
    using Suc.IH [of c' d'] s by (simp only: funpow_Suc_right o_apply not_False_eq_True)
qed simp

text \<open>The socket part, from its first look at the socket.\<close>

fun settled_pc :: "(IpcError, RuntimeGuard) result \<Rightarrow> guard_pc" where
  "settled_pc (Inr g) = Serving g (socket_inode g)"
| "settled_pc (Inl _) = Gone"

lemma calls_open_socket:
  assumes "gx_fault ctx = (\<lambda>_. None)" "open_socket ctx li d = (res, d')" "numbered d"
  shows "\<exists>k. (call ctx live p ^^ k) (d, StatSocket li) = (d', settled_pc res)"
proof -
  consider "rd_sock d = None" | m where "rd_sock d = Some m" "md_kind m \<noteq> SocketFile"
    | m where "rd_sock d = Some m" "md_kind m = SocketFile" "md_ino m \<in> rd_listening d"
    | m where "rd_sock d = Some m" "md_kind m = SocketFile" "md_ino m \<notin> rd_listening d"
    by (cases "rd_sock d") blast+
  then show ?thesis
  proof cases
    case 1
    with assms(1,2) show ?thesis
      by (intro exI [of _ 4]) (auto simp: call_def eval_nat_numeral open_socket_def clear_socket_def create_socket_def chmod_socket_def own_entry_def)
  next
    case 2
    with assms(1,2) show ?thesis
      by (intro exI [of _ 3]) (auto simp: call_def eval_nat_numeral open_socket_def clear_socket_def)
  next
    case 3
    with assms(1,2) show ?thesis
      by (intro exI [of _ 4]) (auto simp: call_def eval_nat_numeral open_socket_def clear_socket_def)
  next
    case 4
    with assms(1,2) show ?thesis
      by (intro exI [of _ 7]) (auto simp: call_def eval_nat_numeral open_socket_def clear_socket_def create_socket_def chmod_socket_def own_entry_def)
  qed
qed

text \<open>The lock part, up to the first look at the socket or the end.\<close>

lemma calls_acquire_lock:
  assumes "gx_fault ctx = (\<lambda>_. None)" "gx_to_json ctx p = Inr bytes"
    and "\<And>q. gx_classify ctx q = Inr (if live q then NativeStatus.Alive else NativeStatus.Dead)"
  shows "acquire_lock ctx n p d = (res, d') \<Longrightarrow> \<exists>k. (call ctx live p ^^ k) (d, OpenNew n) =
     (d', case res of Inr _ \<Rightarrow> StatLock | Inl _ \<Rightarrow> Gone)"
proof (induction n arbitrary: d)
  case 0
  then show ?case by (intro exI [of _ 1]) (auto simp: call_def)
next
  case (Suc n)
  show ?case
  proof (cases "rd_lock d")
    case None
    with Suc.prems assms(1,2) show ?thesis
      by (intro exI [of _ 2]) (auto simp: call_def eval_nat_numeral write_lock_def Let_def create_lock_def fill_lock_def own_entry_def
          encode_identity_def)
  next
    case (Some lock)
    obtain m content where lock: "lock = (m, content)" by (cases lock)
    show ?thesis
    proof (cases "check_stale ctx lock")
      case (Inl e)
      with Suc.prems Some assms(1,3) lock show ?thesis
        by (intro exI [of _ 4])
          (auto simp: call_def eval_nat_numeral check_stale_def ok_or_def split: if_splits option.splits)
    next
      case (Inr u)
      then obtain owner where o: "md_kind m = RegularFile" "permissions m = 0x180" "gx_of_json ctx content = Some owner" "\<not> live owner"
        using assms(1,3) lock by (auto simp: check_stale_def ok_or_def result_simps split: if_splits option.splits)
      have "acquire_lock ctx n p (d\<lparr> rd_lock := None \<rparr>) = (res, d')"
        using Suc.prems Some Inr assms(1) by simp
      from Suc.IH [OF this] obtain k where
        k: "(call ctx live p ^^ k) (d\<lparr> rd_lock := None \<rparr>, OpenNew n) = (d', case res of Inr _ \<Rightarrow> StatLock | Inl _ \<Rightarrow> Gone)"
        by blast
      have "(call ctx live p ^^ 5) (d, OpenNew (Suc n)) = (d\<lparr> rd_lock := None \<rparr>, OpenNew n)"
        using Some lock o by (simp add: call_def eval_nat_numeral)
      with k have "(call ctx live p ^^ (k + 5)) (d, OpenNew (Suc n)) = (d', case res of Inr _ \<Rightarrow> StatLock | Inl _ \<Rightarrow> Gone)"
        by (simp only: funpow_add o_apply)
      then show ?thesis by blast
    qed
  qed
qed

text \<open>
  The steps of a process are the operation.  A process that starts while no other one takes a
  step ends with exactly the result and the directory of \<open>RuntimeGuard::acquire\<close>, when no system
  call fails for an outside reason: so what is shown of interleaved starts and what is shown of
  starts one at a time is about the same code.
\<close>

theorem alone_steps_are_acquire:
  assumes "gx_fault ctx = (\<lambda>_. None)" "gx_private_dir ctx = Inr ()" "gx_to_json ctx p = Inr bytes" "ra_pc w p = Absent"
    and "\<And>q. gx_classify ctx q = Inr (if q = p \<or> alive w q then NativeStatus.Alive else NativeStatus.Dead)"
    and "numbered (ra_dir w)" "RuntimeGuard_acquire ctx p (ra_dir w) = (res, d')"
  shows "\<exists>k. (race_step ctx p ^^ k) w = \<lparr> ra_dir = d', ra_pc = (ra_pc w)(p := settled_pc res) \<rparr>"
proof -
  let ?live = "\<lambda>q. q = p \<or> ra_pc w q \<noteq> Absent \<and> ra_pc w q \<noteq> Gone"
  obtain res1 d1 where a: "acquire_lock ctx 2 p (ra_dir w) = (res1, d1)" by (cases "acquire_lock ctx 2 p (ra_dir w)")
  have "\<And>q. gx_classify ctx q = Inr (if ?live q then NativeStatus.Alive else NativeStatus.Dead)"
    using assms(5) by (simp add: alive_def)
  from calls_acquire_lock [OF assms(1,3) this a] obtain k where
    k: "(call ctx ?live p ^^ k) (ra_dir w, OpenNew 2) = (d1, case res1 of Inr _ \<Rightarrow> StatLock | Inl _ \<Rightarrow> Gone)"
    by blast
  have "\<exists>j. (call ctx ?live p ^^ j) (ra_dir w, OpenNew 2) = (d', settled_pc res)"
  proof (cases res1)
    case (Inl e)
    with assms(2,7) a have "d' = d1 \<and> (\<exists>e. res = Inl e)" by (auto simp: RuntimeGuard_acquire_def)
    with k Inl show ?thesis by auto
  next
    case (Inr u)
    then obtain m where m: "rd_lock d1 = Some (m, bytes)"
      using acquire_lock_Inr [of ctx 2 p "ra_dir w" u d1] a assms(3) by auto
    have o: "open_socket ctx (md_ino m) d1 = (res, d')"
      using assms(2,7) a Inr m by (simp add: RuntimeGuard_acquire_def)
    have "numbered d1" using acquire_lock_frame [OF a] assms(6) by blast
    from calls_open_socket [OF assms(1) o this] obtain j where
      j: "(call ctx ?live p ^^ j) (d1, StatSocket (md_ino m)) = (d', settled_pc res)" by blast
    have "(call ctx ?live p ^^ (j + (1 + k))) (ra_dir w, OpenNew 2) = (d', settled_pc res)"
      using k j Inr m by (simp only: funpow_add o_apply) (simp add: call_def)
    then show ?thesis by blast
  qed
  then obtain j where j: "(call ctx ?live p ^^ j) (ra_dir w, OpenNew 2) = (d', settled_pc res)" by blast
  have "race_step ctx p w = \<lparr> ra_dir = ra_dir w, ra_pc = (ra_pc w)(p := OpenNew 2) \<rparr>"
    using assms(4) by (simp add: race_step_def)
  then have "(race_step ctx p ^^ Suc j) w = \<lparr> ra_dir = d', ra_pc = (ra_pc w)(p := settled_pc res) \<rparr>"
    using race_steps_calls [of "OpenNew 2" j ctx p "ra_dir w" "ra_pc w"] j by (simp only: funpow_Suc_right o_apply) simp
  then show ?thesis by blast
qed

section \<open>Concrete starts\<close>

lemma sample_guard_encodes: "gx_of_json sample_guard (encode_identity sample_guard h) = Some h"
  by (rule encode_identity_ok [OF sample_guard_json]) (simp add: sample_guard_def)

theorem starters_exclude_each_other_witness:
  "\<exists>w. (contention sample_guard)\<^sup>*\<^sup>* (all_absent 0) w \<and> serving (ra_pc w sample_process)
     \<and> (\<forall>q. serving (ra_pc w q) \<longrightarrow> q = sample_process)"
proof -
  let ?w = "\<lambda>k. (race_step sample_guard sample_process ^^ k) (all_absent 0)"
  have reach: "(contention sample_guard)\<^sup>*\<^sup>* (all_absent 0) (?w k)" for k
    by (induction k) (auto intro: rtranclp.rtrancl_into_rtrancl contention.call)
  have "serving (ra_pc (?w 8) sample_process)"
    by (simp add: race_eval all_absent_def)
  moreover have "\<exists>bytes. gx_to_json sample_guard q = Inr bytes" "gx_of_json sample_guard [] = None" for q
    by (simp_all add: sample_guard_def sample_identity_of_json_def)
  ultimately show ?thesis
    using starters_exclude_each_other [OF reach sample_guard_json, of 8] reach [of 8] by blast
qed

theorem stale_lock_race_witness:
  "\<exists>g d schedule w. RuntimeGuard_acquire sample_guard sample_process \<lparr> rd_lock = None, rd_sock = None, rd_listening = {}, rd_next = 0 \<rparr> = (Inr g, d)
     \<and> w = fold (race_step sample_guard) schedule \<lparr> ra_dir = close_listener (socket_inode g) d, ra_pc = (\<lambda>_. Absent) \<rparr>
     \<and> serving (ra_pc w (sample_process\<lparr>pid := 6\<rparr>)) \<and> serving (ra_pc w (sample_process\<lparr>pid := 7\<rparr>))"
proof -
  let ?d0 = "\<lparr> rd_lock = None, rd_sock = None, rd_listening = {}, rd_next = 0 \<rparr> :: runtime_dir"
  obtain g d where a: "RuntimeGuard_acquire sample_guard sample_process ?d0 = (Inr g, d)"
    using sample_guard_acquires [of ?d0 sample_process] by (auto simp: tidy_dir_def)
  have n: "numbered ?d0" by (simp add: numbered_def)
  have u: "gx_umask sample_guard AND 0x180 = 0" by (simp add: sample_guard_def)
  have "distinct [sample_process, sample_process\<lparr>pid := 6\<rparr>, sample_process\<lparr>pid := 7\<rparr>]"
    by (simp add: sample_process_def)
  from stale_lock_race [OF a n u sample_guard_encodes this]
  obtain schedule w ga ia gb ib where
    "w = fold (race_step sample_guard) schedule \<lparr> ra_dir = close_listener (socket_inode g) d, ra_pc = (\<lambda>_. Absent) \<rparr>"
    "ra_pc w (sample_process\<lparr>pid := 6\<rparr>) = Serving ga ia" "ra_pc w (sample_process\<lparr>pid := 7\<rparr>) = Serving gb ib"
    by blast
  then have "serving (ra_pc w (sample_process\<lparr>pid := 6\<rparr>)) \<and> serving (ra_pc w (sample_process\<lparr>pid := 7\<rparr>))" by simp
  with a \<open>w = _\<close> show ?thesis by blast
qed

theorem alone_steps_are_acquire_witness:
  "\<exists>k g d. RuntimeGuard_acquire sample_guard sample_process (ra_dir (all_absent 0)) = (Inr g, d)
     \<and> (race_step sample_guard sample_process ^^ k) (all_absent 0) = \<lparr> ra_dir = d, ra_pc = (\<lambda>_. Absent)(sample_process := Serving g (socket_inode g)) \<rparr>"
proof -
  let ?ctx = "sample_guard\<lparr> gx_classify := (\<lambda>q. Inr (if q = sample_process \<or> alive (all_absent 0) q then NativeStatus.Alive else NativeStatus.Dead)) \<rparr>"
  have step: "race_step ?ctx = race_step sample_guard"
  proof (intro ext)
    fix p w
    have "guard_call_step ?ctx live q d c = guard_call_step sample_guard live q d c" for live q d c
      by (cases c) (simp_all add: encode_identity_def create_lock_def create_socket_def own_entry_def cong: option.case_cong nat.case_cong)
    then show "race_step ?ctx p w = race_step sample_guard p w" by (simp add: race_step_def)
  qed
  have acq: "RuntimeGuard_acquire ?ctx sample_process (ra_dir (all_absent 0)) = RuntimeGuard_acquire sample_guard sample_process (ra_dir (all_absent 0))"
    by (simp add: RuntimeGuard_acquire_def numeral_2_eq_2 all_absent_def write_lock_def Let_def open_socket_def clear_socket_def
        create_lock_def create_socket_def own_entry_def fill_lock_def sample_guard_def)
  obtain g d where a: "RuntimeGuard_acquire sample_guard sample_process (ra_dir (all_absent 0)) = (Inr g, d)"
    using sample_guard_acquires [of "ra_dir (all_absent 0)" sample_process] by (auto simp: all_absent_def tidy_dir_def)
  have "numbered (ra_dir (all_absent 0))" by (simp add: numbered_def all_absent_def)
  from alone_steps_are_acquire [of ?ctx sample_process "sample_identity_to_json sample_process" "all_absent 0" "Inr g" d] this a acq
  obtain k where "(race_step ?ctx sample_process ^^ k) (all_absent 0) =
      \<lparr> ra_dir = d, ra_pc = (ra_pc (all_absent 0))(sample_process := settled_pc (Inr g)) \<rparr>"
    by (auto simp: sample_guard_def all_absent_def)
  with a step show ?thesis by (auto simp: all_absent_def)
qed

end
