(* ===== verification/Service.thy ===== *)
theory Service
  imports Paths Utf8_Text
begin

text \<open>
  The durable service: its lifecycle (\<open>src/application/service.rs\<close>) over the two service managers
  (\<open>src/infrastructure/service/systemd.rs\<close>, \<open>src/infrastructure/service/macos.rs\<close>, chosen in
  \<open>src/infrastructure/service/mod.rs\<close>).

  The state is the contents of the service file, whether the temporary file beside it exists, and the
  rest of the machine (the service manager, the disk), on which the outcome of every external command
  (\<open>sx_run\<close>) and the error of every file operation (\<open>sx_fault\<close>) depend and which they may change.
  The commands see the service file and do not write it.
\<close>

section \<open>The lifecycle\<close>

datatype ServiceAvailability = Available | Unavailable

record ServiceStatus =
  st_manager :: string
  st_availability :: ServiceAvailability
  st_installed :: bool
  st_running :: bool
  st_files :: "string list"
  st_guarantee :: string
  st_detail :: string

record ServiceChange =
  ch_changed :: bool
  ch_status :: ServiceStatus

datatype ServiceLifecycleError =
    Manager string
  | Unavailable string
  | Install string
  | IncompleteInstall string
  | InstallRollback string string
  | IncompleteUninstall string

record 'w ServiceManager =
  sm_status :: "'w \<Rightarrow> (string, ServiceStatus) result \<times> 'w"
  sm_install :: "'w \<Rightarrow> (string, unit) result \<times> 'w"
  sm_uninstall :: "'w \<Rightarrow> (string, unit) result \<times> 'w"

definition require_available :: "ServiceStatus \<Rightarrow> (ServiceLifecycleError, unit) result" where
  "require_available status =
     (if st_availability status = Available then Inr () else Inl (ServiceLifecycleError.Unavailable (st_detail status)))"

definition roll_back ::
  "'w ServiceManager \<Rightarrow> 'w \<Rightarrow> ServiceLifecycleError \<Rightarrow> string \<Rightarrow> (ServiceLifecycleError, ServiceChange) result \<times> 'w" where
  "roll_back manager w failed detail =
     (case sm_uninstall manager w of
        (Inr _, w) \<Rightarrow> (Inl failed, w)
      | (Inl rollback_error, w) \<Rightarrow> (Inl (InstallRollback detail rollback_error), w))"

definition install_service :: "'w ServiceManager \<Rightarrow> 'w \<Rightarrow> (ServiceLifecycleError, ServiceChange) result \<times> 'w" where
  "install_service manager w =
     and_then (sm_status manager w) Manager (\<lambda>before w.
     case require_available before of
       Inl e \<Rightarrow> (Inl e, w)
     | Inr _ \<Rightarrow>
         if st_installed before \<and> st_running before then (Inr \<lparr> ch_changed = False, ch_status = before \<rparr>, w)
         else (case sm_install manager w of
             (Inl e, w) \<Rightarrow> roll_back manager w (Install e) e
           | (Inr _, w) \<Rightarrow>
               and_then (sm_status manager w) Manager (\<lambda>status w.
               if \<not> st_installed status \<or> \<not> st_running status
               then roll_back manager w (IncompleteInstall (st_detail status)) (st_detail status)
               else (Inr \<lparr> ch_changed = True, ch_status = status \<rparr>, w))))"

definition uninstall_service :: "'w ServiceManager \<Rightarrow> 'w \<Rightarrow> (ServiceLifecycleError, ServiceChange) result \<times> 'w" where
  "uninstall_service manager w =
     and_then (sm_status manager w) Manager (\<lambda>before w.
     case require_available before of
       Inl e \<Rightarrow> (Inl e, w)
     | Inr _ \<Rightarrow>
         if \<not> st_installed before then (Inr \<lparr> ch_changed = False, ch_status = before \<rparr>, w)
         else and_then (sm_uninstall manager w) Manager (\<lambda>_ w.
           and_then (sm_status manager w) Manager (\<lambda>status w.
           if st_installed status \<or> st_running status then (Inl (IncompleteUninstall (st_detail status)), w)
           else (Inr \<lparr> ch_changed = True, ch_status = status \<rparr>, w))))"

section \<open>Files and commands\<close>

record Output =
  out_success :: bool
  out_stdout :: string
  out_stderr :: string

datatype file_call = ReadFile | CreateParent | OpenTemporary | WriteTemporary | SyncTemporary | RenameTemporary | SetMode | RemoveFile | RemoveTemporary

record 's service_world =
  sv_file :: "string option"
  sv_temporary :: bool
  sv_machine :: 's

record 's service_env =
  sx_run :: "string \<Rightarrow> string list \<Rightarrow> string option \<Rightarrow> 's \<Rightarrow> (string, Output) result \<times> 's"
  sx_fault :: "file_call \<Rightarrow> 's \<Rightarrow> string option \<times> 's"

record service_paths =
  sp_executable :: string
  sp_state_directory :: string
  sp_runtime_directory :: string
  sp_directory :: string
  sp_file :: string
  sp_uid :: u32

definition run_command :: "'s service_env \<Rightarrow> string \<Rightarrow> string list \<Rightarrow> 's service_world \<Rightarrow> (string, Output) result \<times> 's service_world" where
  "run_command env program args w =
     (let (output, s) = sx_run env program args (sv_file w) (sv_machine w) in (output, w\<lparr> sv_machine := s \<rparr>))"

definition file_step :: "'s service_env \<Rightarrow> file_call \<Rightarrow> 's service_world \<Rightarrow> (string, unit) result \<times> 's service_world" where
  "file_step env c w =
     (let (fault, s) = sx_fault env c (sv_machine w)
      in (case fault of None \<Rightarrow> Inr () | Some e \<Rightarrow> Inl e, w\<lparr> sv_machine := s \<rparr>))"

fun succeeded :: "(string, Output) result \<Rightarrow> bool" where
  "succeeded (Inr output) = out_success output"
| "succeeded (Inl _) = False"

definition require_success :: "string \<Rightarrow> Output \<Rightarrow> (string, unit) result" where
  "require_success command output =
     (if out_success output then Inr () else Inl (command @ '' failed: '' @ trim (from_utf8_lossy (out_stderr output))))"

definition run_required ::
  "'s service_env \<Rightarrow> string \<Rightarrow> string \<Rightarrow> string list \<Rightarrow> 's service_world \<Rightarrow> (string, unit) result \<times> 's service_world" where
  "run_required env command program args w =
     and_then (run_command env program args w) id (\<lambda>output w. (require_success command output, w))"

text \<open>Whether the service file is ours; a file with other contents is refused.\<close>

definition installed ::
  "'s service_env \<Rightarrow> string \<Rightarrow> string \<Rightarrow> (string, string) result \<Rightarrow> 's service_world
    \<Rightarrow> (string, bool) result \<times> 's service_world" where
  "installed env refusing path expected w =
     and_then (file_step env ReadFile w) (\<lambda>e. ''cannot read '' @ from_utf8_lossy path @ '': '' @ e) (\<lambda>_ w.
     (case sv_file w of
        None \<Rightarrow> Inr False
      | Some contents \<Rightarrow>
          if \<not> utf8_valid contents
          then Inl (''cannot read '' @ from_utf8_lossy path @ '': stream did not contain valid UTF-8'')
          else try_bind expected (\<lambda>unit_text.
            if contents = unit_text then Inr True else Inl (refusing @ from_utf8_lossy path)), w))"

text \<open>Writing the file: a new temporary file, which then replaces it; removed again on an error.\<close>

definition write_temporary ::
  "'s service_env \<Rightarrow> (string, string) result \<Rightarrow> 's service_world \<Rightarrow> (string, unit) result \<times> 's service_world" where
  "write_temporary env expected w =
     (if sv_temporary w then (Inl ''File exists (os error 17)'', w)
      else
      and_then (file_step env OpenTemporary w) id (\<lambda>_ w.
      and_then (expected, w\<lparr> sv_temporary := True \<rparr>) id (\<lambda>unit_text w.
      and_then (file_step env WriteTemporary w) id (\<lambda>_ w.
      and_then (file_step env SyncTemporary w) id (\<lambda>_ w.
      and_then (file_step env RenameTemporary w) id (\<lambda>_ w.
      (Inr (), w\<lparr> sv_file := Some unit_text, sv_temporary := False \<rparr>)))))))"

definition replace_file ::
  "'s service_env \<Rightarrow> (string, string) result \<Rightarrow> 's service_world \<Rightarrow> (string, unit) result \<times> 's service_world" where
  "replace_file env expected w =
     (case write_temporary env expected w of
        (Inr _, w) \<Rightarrow> (Inr (), w)
      | (Inl e, w) \<Rightarrow>
          (let (removed, w) = file_step env RemoveTemporary w
           in (Inl e, if is_ok removed then w\<lparr> sv_temporary := False \<rparr> else w)))"

definition remove_file :: "'s service_env \<Rightarrow> string \<Rightarrow> 's service_world \<Rightarrow> (string, unit) result \<times> 's service_world" where
  "remove_file env path w =
     and_then (file_step env RemoveFile w) (\<lambda>e. ''cannot remove '' @ from_utf8_lossy path @ '': '' @ e)
       (\<lambda>_ w. (Inr (), w\<lparr> sv_file := None \<rparr>))"

section \<open>systemd\<close>

definition UNIT_NAME :: string where
  "UNIT_NAME = ''atx.service''"

definition replace_char :: "char \<Rightarrow> string \<Rightarrow> string \<Rightarrow> string" where
  "replace_char c r s = concat (map (\<lambda>x. if x = c then r else [x]) s)"

definition systemd_quote :: "string \<Rightarrow> (string, string) result" where
  "systemd_quote value =
     (if \<not> utf8_valid value then Inl ''service paths must be valid UTF-8''
      else if CHR 0x0A \<in> set value \<or> CHR 0x0D \<in> set value \<or> CHR 0x00 \<in> set value
      then Inl ''service arguments cannot contain control characters''
      else Inr ([CHR 0x22] @ replace_char (CHR ''%'') ''%%'' (replace_char (CHR ''$'') ''$$''
        (replace_char (CHR 0x22) [CHR 0x5C, CHR 0x22] (replace_char (CHR 0x5C) [CHR 0x5C, CHR 0x5C] value))) @ [CHR 0x22]))"

fun quote_all :: "string list \<Rightarrow> (string, string list) result" where
  "quote_all [] = Inr []"
| "quote_all (a # rest) = try_bind (systemd_quote a) (\<lambda>q. map_ok (Cons q) (quote_all rest))"

definition supervisor_arguments :: "service_paths \<Rightarrow> string list" where
  "supervisor_arguments svc =
     [sp_executable svc, ''__supervisor'', ''--state-dir'', sp_state_directory svc, ''--runtime-dir'', sp_runtime_directory svc,
      ''--service-managed'']"

definition unlines :: "string list \<Rightarrow> string" where
  "unlines ls = concat (map (\<lambda>l. l @ [CHR 0x0A]) ls)"

fun join_with :: "string \<Rightarrow> string list \<Rightarrow> string" where
  "join_with sep [] = []"
| "join_with sep [s] = s"
| "join_with sep (s # rest) = s @ sep @ join_with sep rest"

definition render_unit :: "service_paths \<Rightarrow> (string, string) result" where
  "render_unit svc =
     try_bind (quote_all (supervisor_arguments svc)) (\<lambda>arguments.
     Inr (unlines [''[Unit]'', ''Description=ATX per-user command scheduler'', '''',
       ''[Service]'', ''Type=simple'', ''ExecStart='' @ join_with '' '' arguments, ''Restart=on-failure'', ''RestartSec=2s'',
       ''KillMode=process'', ''NoNewPrivileges=true'', ''PrivateTmp=true'', '''',
       ''[Install]'', ''WantedBy=default.target'']))"

definition systemd_installed ::
  "'s service_env \<Rightarrow> service_paths \<Rightarrow> 's service_world \<Rightarrow> (string, bool) result \<times> 's service_world" where
  "systemd_installed env svc = installed env ''refusing foreign systemd unit '' (sp_file svc) (render_unit svc)"

definition manager_available :: "'s service_env \<Rightarrow> 's service_world \<Rightarrow> bool \<times> 's service_world" where
  "manager_available env w =
     (let (output, w) = run_command env ''systemctl'' [''--user'', ''show-environment''] w in (succeeded output, w))"

definition lingering_enabled :: "'s service_env \<Rightarrow> service_paths \<Rightarrow> 's service_world \<Rightarrow> bool \<times> 's service_world" where
  "lingering_enabled env svc w =
     (let (output, w) = run_command env ''loginctl'' [''show-user'', show_nat (unat (sp_uid svc)), ''--property=Linger'', ''--value''] w
      in (case output of Inr o1 \<Rightarrow> out_success o1 \<and> out_stdout o1 = ''yes'' @ [CHR 0x0A] | Inl _ \<Rightarrow> False, w))"

definition systemd_status ::
  "'s service_env \<Rightarrow> service_paths \<Rightarrow> 's service_world \<Rightarrow> (string, ServiceStatus) result \<times> 's service_world" where
  "systemd_status env svc w =
     (let (available, w) = manager_available env w in
      and_then (systemd_installed env svc w) id (\<lambda>is_installed w.
          (let (running, w) = (if available \<and> is_installed
                 then (let (output, w) = run_command env ''systemctl'' [''--user'', ''is-active'', ''--quiet'', UNIT_NAME] w in (succeeded output, w))
                 else (False, w));
               (lingering, w) = (if available then lingering_enabled env svc w else (False, w))
           in (Inr \<lparr> st_manager = ''systemd-user'', st_availability = (if available then Available else ServiceAvailability.Unavailable),
                st_installed = is_installed, st_running = running, st_files = [sp_file svc],
                st_guarantee = (if lingering then ''restarts after crashes and starts without an interactive login''
                  else ''restarts after crashes while this user's systemd manager is running''),
                st_detail = (if \<not> available then ''the systemd user manager is unavailable''
                  else if running then
                    (if lingering then ''user service is enabled, running, and lingering is enabled''
                     else ''user service is enabled and running; lingering is disabled'')
                  else if is_installed then ''user service is installed but not running''
                  else ''user service is not installed'') \<rparr>, w))))"

definition systemd_install ::
  "'s service_env \<Rightarrow> service_paths \<Rightarrow> 's service_world \<Rightarrow> (string, unit) result \<times> 's service_world" where
  "systemd_install env svc w =
     (let (available, w) = manager_available env w in
      if \<not> available then (Inl ''the systemd user manager is unavailable'', w)
      else and_then (systemd_installed env svc w) id (\<lambda>is_installed w.
          if is_installed then (Inr (), w)
          else
          and_then (file_step env CreateParent w) (\<lambda>e. ''cannot create '' @ from_utf8_lossy (sp_directory svc) @ '': '' @ e) (\<lambda>_ w.
          and_then (replace_file env (render_unit svc) w) id (\<lambda>_ w.
          and_then (file_step env SetMode w) id (\<lambda>_ w.
          and_then (run_required env ''systemctl --user daemon-reload'' ''systemctl'' [''--user'', ''daemon-reload''] w) id (\<lambda>_ w.
          run_required env ''systemctl --user enable'' ''systemctl'' [''--user'', ''enable'', ''--now'', UNIT_NAME] w))))))"

definition systemd_uninstall ::
  "'s service_env \<Rightarrow> service_paths \<Rightarrow> 's service_world \<Rightarrow> (string, unit) result \<times> 's service_world" where
  "systemd_uninstall env svc w =
     and_then (systemd_installed env svc w) id (\<lambda>is_installed w.
          if \<not> is_installed then (Inr (), w)
          else
          and_then (run_required env ''systemctl --user disable'' ''systemctl'' [''--user'', ''disable'', ''--now'', UNIT_NAME] w) id (\<lambda>_ w.
          and_then (remove_file env (sp_file svc) w) id (\<lambda>_ w.
          run_required env ''systemctl --user daemon-reload'' ''systemctl'' [''--user'', ''daemon-reload''] w)))"

section \<open>launchd\<close>

definition xml_escape :: "string \<Rightarrow> string" where
  "xml_escape value =
     replace_char (CHR 0x27) ''&apos;'' (replace_char (CHR 0x22) ''&quot;'' (replace_char (CHR ''>'') ''&gt;''
       (replace_char (CHR ''<'') ''&lt;'' (replace_char (CHR ''&'') ''&amp;'' value))))"

definition LABEL :: string where
  "LABEL = ''io.github.jsugg.atx''"

definition dq :: "string \<Rightarrow> string" where
  "dq s = [CHR 0x22] @ s @ [CHR 0x22]"

definition render_plist :: "service_paths \<Rightarrow> string" where
  "render_plist svc =
     (let arguments = map (\<lambda>a. ''      <string>'' @ xml_escape (from_utf8_lossy a) @ ''</string>'') (supervisor_arguments svc);
          log = xml_escape (from_utf8_lossy (path_join (sp_state_directory svc) ''supervisor.log''))
      in unlines ([''<?xml version='' @ dq ''1.0'' @ '' encoding='' @ dq ''UTF-8'' @ ''?>'',
          ''<!DOCTYPE plist PUBLIC '' @ dq ''-//Apple//DTD PLIST 1.0//EN'' @ '' '' @ dq ''http://www.apple.com/DTDs/PropertyList-1.0.dtd'' @ ''>'',
          ''<plist version='' @ dq ''1.0'' @ ''>'', ''  <dict>'', ''    <key>Label</key>'', ''    <string>'' @ LABEL @ ''</string>'',
          ''    <key>ProgramArguments</key>'', ''    <array>'', join_with [CHR 0x0A] arguments, ''    </array>'',
          ''    <key>RunAtLoad</key>'', ''    <true/>'', ''    <key>KeepAlive</key>'', ''    <true/>'',
          ''    <key>ProcessType</key>'', ''    <string>Background</string>'',
          ''    <key>StandardOutPath</key>'', ''    <string>'' @ log @ ''</string>'',
          ''    <key>StandardErrorPath</key>'', ''    <string>'' @ log @ ''</string>'', ''  </dict>'', ''</plist>'']))"

definition domain :: "service_paths \<Rightarrow> string" where
  "domain svc = ''gui/'' @ show_nat (unat (sp_uid svc))"

definition service_target :: "service_paths \<Rightarrow> string" where
  "service_target svc = domain svc @ ''/'' @ LABEL"

definition launchd_installed ::
  "'s service_env \<Rightarrow> service_paths \<Rightarrow> 's service_world \<Rightarrow> (string, bool) result \<times> 's service_world" where
  "launchd_installed env svc = installed env ''refusing foreign launchd file '' (sp_file svc) (Inr (render_plist svc))"

definition launchd_available :: "'s service_env \<Rightarrow> 's service_world \<Rightarrow> bool \<times> 's service_world" where
  "launchd_available env w =
     (let (output, w) = run_command env ''/bin/launchctl'' [''print-disabled'', ''probe''] w in (is_ok output, w))"

definition launchd_status ::
  "'s service_env \<Rightarrow> service_paths \<Rightarrow> 's service_world \<Rightarrow> (string, ServiceStatus) result \<times> 's service_world" where
  "launchd_status env svc w =
     (let (available, w) = launchd_available env w in
      and_then (launchd_installed env svc w) id (\<lambda>is_installed w.
          (let (running, w) = (if available \<and> is_installed
                 then (let (output, w) = run_command env ''/bin/launchctl'' [''print'', service_target svc] w in (succeeded output, w))
                 else (False, w))
           in (Inr \<lparr> st_manager = ''launchd'', st_availability = (if available then Available else ServiceAvailability.Unavailable),
                st_installed = is_installed, st_running = running, st_files = [sp_file svc],
                st_guarantee = ''restarts after crashes and when this user's launchd domain starts'',
                st_detail = (if \<not> available then ''launchctl is unavailable''
                  else if running then ''launch agent is loaded and running''
                  else if is_installed then ''launch agent is installed but not running''
                  else ''launch agent is not installed'') \<rparr>, w))))"

definition launchd_install ::
  "'s service_env \<Rightarrow> service_paths \<Rightarrow> 's service_world \<Rightarrow> (string, unit) result \<times> 's service_world" where
  "launchd_install env svc w =
     and_then (launchd_installed env svc w) id (\<lambda>is_installed w.
          if is_installed then (Inr (), w)
          else
          and_then (file_step env CreateParent w) (\<lambda>e. ''cannot create '' @ from_utf8_lossy (sp_directory svc) @ '': '' @ e) (\<lambda>_ w.
          and_then (replace_file env (Inr (render_plist svc)) w)
            (\<lambda>e. ''cannot install '' @ from_utf8_lossy (sp_file svc) @ '': '' @ e) (\<lambda>_ w.
          and_then (file_step env SetMode w) id (\<lambda>_ w.
          and_then (run_required env ''launchctl bootstrap'' ''/bin/launchctl'' [''bootstrap'', domain svc, from_utf8_lossy (sp_file svc)] w) id (\<lambda>_ w.
          run_required env ''launchctl kickstart'' ''/bin/launchctl'' [''kickstart'', ''-k'', service_target svc] w)))))"

definition launchd_uninstall ::
  "'s service_env \<Rightarrow> service_paths \<Rightarrow> 's service_world \<Rightarrow> (string, unit) result \<times> 's service_world" where
  "launchd_uninstall env svc w =
     and_then (launchd_installed env svc w) id (\<lambda>is_installed w.
          if \<not> is_installed then (Inr (), w)
          else
          and_then (run_command env ''/bin/launchctl'' [''bootout'', service_target svc] w) id (\<lambda>output w.
          if out_success output then remove_file env (sp_file svc) w
          else and_then (launchd_status env svc w) id (\<lambda>status w.
            if st_running status
            then (Inl (''launchctl bootout failed: '' @ trim (from_utf8_lossy (out_stderr output))), w)
            else remove_file env (sp_file svc) w)))"

section \<open>The native manager\<close>

datatype NativeServiceManager = Launchd service_paths | Systemd service_paths

definition launchd_new :: "string \<Rightarrow> string \<Rightarrow> string \<Rightarrow> string \<Rightarrow> u32 \<Rightarrow> service_paths" where
  "launchd_new executable state_directory runtime_directory home uid =
     (let agents = path_join (path_join home ''Library'') ''LaunchAgents''
      in \<lparr> sp_executable = executable, sp_state_directory = state_directory, sp_runtime_directory = runtime_directory,
           sp_directory = agents, sp_file = path_join agents (LABEL @ ''.plist''), sp_uid = uid \<rparr>)"

definition systemd_new :: "string \<Rightarrow> string \<Rightarrow> string \<Rightarrow> string \<Rightarrow> u32 \<Rightarrow> service_paths" where
  "systemd_new executable state_directory runtime_directory config_home uid =
     (let units = path_join config_home ''systemd/user''
      in \<lparr> sp_executable = executable, sp_state_directory = state_directory, sp_runtime_directory = runtime_directory,
           sp_directory = units, sp_file = path_join units UNIT_NAME, sp_uid = uid \<rparr>)"

fun detect :: "Platform \<Rightarrow> string option \<Rightarrow> string \<Rightarrow> string \<Rightarrow> string \<Rightarrow> string \<Rightarrow> u32 \<Rightarrow> NativeServiceManager" where
  "detect MacOs xdg executable state_directory runtime_directory home uid =
     Launchd (launchd_new executable state_directory runtime_directory home uid)"
| "detect Linux xdg executable state_directory runtime_directory home uid =
     Systemd (systemd_new executable state_directory runtime_directory
       (case xdg of None \<Rightarrow> path_join home ''.config'' | Some d \<Rightarrow> d) uid)"

fun native_manager :: "'s service_env \<Rightarrow> NativeServiceManager \<Rightarrow> 's service_world ServiceManager" where
  "native_manager env (Launchd svc) =
     \<lparr> sm_status = launchd_status env svc, sm_install = launchd_install env svc, sm_uninstall = launchd_uninstall env svc \<rparr>"
| "native_manager env (Systemd svc) =
     \<lparr> sm_status = systemd_status env svc, sm_install = systemd_install env svc, sm_uninstall = systemd_uninstall env svc \<rparr>"

fun native_text :: "NativeServiceManager \<Rightarrow> string option" where
  "native_text (Launchd svc) = Some (render_plist svc)"
| "native_text (Systemd svc) = (case render_unit svc of Inr unit_text \<Rightarrow> Some unit_text | Inl _ \<Rightarrow> None)"

section \<open>What the operations do to the service file\<close>

lemma run_file: "run_command env program args w = (r, w') \<Longrightarrow> sv_file w' = sv_file w"
  by (auto simp: run_command_def split: prod.splits)

lemma file_step_file: "file_step env c w = (r, w') \<Longrightarrow> sv_file w' = sv_file w"
  by (auto simp: file_step_def split: prod.splits)

lemma run_required_file: "run_required env command program args w = (r, w') \<Longrightarrow> sv_file w' = sv_file w"
  by (auto simp: run_required_def and_then_eq dest: run_file)

lemma manager_available_file: "manager_available env w = (r, w') \<Longrightarrow> sv_file w' = sv_file w"
  by (auto simp: manager_available_def split: prod.splits dest: run_file)

lemma launchd_available_file: "launchd_available env w = (r, w') \<Longrightarrow> sv_file w' = sv_file w"
  by (auto simp: launchd_available_def split: prod.splits dest: run_file)

lemma lingering_enabled_file: "lingering_enabled env svc w = (r, w') \<Longrightarrow> sv_file w' = sv_file w"
  by (auto simp: lingering_enabled_def split: prod.splits dest: run_file)

lemma installed_file:
  assumes "installed env refusing path expected w = (r, w')"
  shows "sv_file w' = sv_file w \<and> (r = Inr False \<longrightarrow> sv_file w = None)
    \<and> (r = Inr True \<longrightarrow> (\<exists>unit_text. expected = Inr unit_text \<and> sv_file w = Some unit_text))"
  using assms by (auto simp: installed_def and_then_eq result_simps split: option.splits if_splits dest!: file_step_file)

lemma replace_file_file:
  assumes "replace_file env expected w = (r, w')"
  shows "if is_ok r then \<exists>unit_text. expected = Inr unit_text \<and> sv_file w' = Some unit_text else sv_file w' = sv_file w"
proof (cases "write_temporary env expected w")
  case (Pair r1 w1)
  then have "if is_ok r1 then \<exists>unit_text. expected = Inr unit_text \<and> sv_file w1 = Some unit_text else sv_file w1 = sv_file w"
    by (auto simp: write_temporary_def and_then_eq is_ok_def split: if_splits dest!: file_step_file)
  with assms Pair show ?thesis
    by (auto simp: replace_file_def is_ok_def split: sum.splits prod.splits if_splits dest!: file_step_file)
qed

lemma remove_file_file:
  assumes "remove_file env path w = (r, w')"
  shows "sv_file w' = (if is_ok r then None else sv_file w)"
  using assms by (auto simp: remove_file_def and_then_eq is_ok_def dest!: file_step_file)

lemmas unit_file_rules = run_file file_step_file run_required_file manager_available_file launchd_available_file
  lingering_enabled_file installed_file replace_file_file remove_file_file

section \<open>The contract of a service manager\<close>

text \<open>
  \<open>unit_file\<close> is the service file in a state and \<open>our_text\<close> what the manager would write.  A manager reports
  truthfully whether the file is its own, writes nothing else, never touches a unit_file with other
  contents, and has removed the unit_file when it reports a successful removal.  \<open>temporary\<close> is the
  file beside it that an installation writes first: only an installation that finds no service file
  touches it, and one that finds it there fails.
\<close>

locale service_manager =
  fixes manager :: "'w ServiceManager"
    and unit_file :: "'w \<Rightarrow> string option"
    and our_text :: "string option"
    and temporary :: "'w \<Rightarrow> bool"
  assumes status_file: "sm_status manager w = (r, w') \<Longrightarrow> unit_file w' = unit_file w
      \<and> (\<forall>st. r = Inr st \<longrightarrow> (if st_installed st then unit_file w \<noteq> None \<and> unit_file w = our_text else unit_file w = None \<and> \<not> st_running st))"
    and install_file: "sm_install manager w = (r1, w') \<Longrightarrow> unit_file w' = unit_file w \<or> unit_file w = None \<and> unit_file w' = our_text"
    and uninstall_file: "sm_uninstall manager w = (r1, w') \<Longrightarrow> (\<forall>u. r1 = Inr u \<longrightarrow> unit_file w' = None)
      \<and> (unit_file w' = unit_file w \<or> unit_file w = our_text \<and> unit_file w' = None)"
    and status_temporary: "sm_status manager w = (r, w') \<Longrightarrow> temporary w' = temporary w"
    and install_temporary: "sm_install manager w = (r1, w') \<Longrightarrow> (unit_file w \<noteq> None \<longrightarrow> temporary w' = temporary w)
      \<and> (unit_file w = None \<and> temporary w \<longrightarrow> \<not> is_ok r1)"
    and uninstall_temporary: "sm_uninstall manager w = (r1, w') \<Longrightarrow> temporary w' = temporary w"
begin

lemma roll_back_file:
  assumes "roll_back manager w failed detail = (res, w')"
  shows "((\<exists>a b. res = Inl (InstallRollback a b)) \<or> res = Inl failed \<and> unit_file w' = None)
    \<and> (unit_file w' = unit_file w \<or> unit_file w = our_text \<and> unit_file w' = None)"
proof (cases "sm_uninstall manager w")
  case (Pair r w1)
  with assms uninstall_file [OF Pair] show ?thesis
    by (cases r) (auto simp: roll_back_def)
qed

lemma install_service_file:
  assumes "install_service manager w = (res, w')"
  shows "(\<forall>change. res = Inr change \<longrightarrow> st_installed (ch_status change) \<and> st_running (ch_status change)
        \<and> unit_file w' \<noteq> None \<and> unit_file w' = our_text \<and> (\<not> ch_changed change \<longrightarrow> unit_file w' = unit_file w))
    \<and> (\<forall>e. res = Inl (Install e) \<or> res = Inl (IncompleteInstall e) \<longrightarrow> unit_file w' = None)
    \<and> (unit_file w \<noteq> None \<and> unit_file w \<noteq> our_text \<longrightarrow> unit_file w' = unit_file w \<and> (\<exists>e. res = Inl e))"
proof -
  obtain r1 w1 where 1: "sm_status manager w = (r1, w1)" by (cases "sm_status manager w")
  note f1 = status_file [OF 1]
  show ?thesis
  proof (cases r1)
    case (Inl e)
    with 1 assms f1 show ?thesis by (auto simp: install_service_def and_then_def)
  next
    case st1: (Inr before)
    show ?thesis
    proof (cases "st_availability before = Available \<and> \<not> (st_installed before \<and> st_running before)")
      case False
      with 1 st1 assms f1 show ?thesis
        by (auto simp: install_service_def and_then_def require_available_def split: if_splits dest: sym)
    next
      case True
      obtain r2 w2 where 2: "sm_install manager w1 = (r2, w2)" by (cases "sm_install manager w1")
      note f2 = install_file [OF 2]
      show ?thesis
      proof (cases r2)
        case (Inl e)
        then have "roll_back manager w2 (Install e) e = (res, w')"
          using 1 st1 True 2 assms by (auto simp: install_service_def and_then_def require_available_def split: if_splits)
        from roll_back_file [OF this] f1 f2 st1 show ?thesis by (auto split: if_splits)
      next
        case (Inr u)
        obtain r3 w3 where 3: "sm_status manager w2 = (r3, w3)" by (cases "sm_status manager w2")
        note f3 = status_file [OF 3]
        show ?thesis
        proof (cases r3)
          case st3: (Inr after)
          show ?thesis
          proof (cases "st_installed after \<and> st_running after")
            case False
            then have "roll_back manager w3 (IncompleteInstall (st_detail after)) (st_detail after) = (res, w')"
              using 1 st1 True 2 Inr 3 st3 assms by (auto simp: install_service_def and_then_def require_available_def split: if_splits)
            from roll_back_file [OF this] f1 f2 f3 st1 st3 show ?thesis by (auto split: if_splits)
          next
            case finished: True
            with 1 st1 True 2 Inr 3 st3 assms f1 f2 f3 show ?thesis
              by (auto simp: install_service_def and_then_def require_available_def split: if_splits dest: sym)
          qed
        qed (use 1 st1 True 2 Inr 3 assms f1 f2 f3 in \<open>auto simp: install_service_def and_then_def require_available_def split: if_splits\<close>)
      qed
    qed
  qed
qed

lemma uninstall_service_file:
  assumes "uninstall_service manager w = (res, w')"
  shows "(\<forall>change. res = Inr change \<longrightarrow> unit_file w' = None \<and> \<not> st_installed (ch_status change) \<and> \<not> st_running (ch_status change))
    \<and> (unit_file w \<noteq> None \<and> unit_file w \<noteq> our_text \<longrightarrow> unit_file w' = unit_file w \<and> (\<exists>e. res = Inl e))"
proof -
  obtain r1 w1 where 1: "sm_status manager w = (r1, w1)" by (cases "sm_status manager w")
  obtain r2 w2 where 2: "sm_uninstall manager w1 = (r2, w2)" by (cases "sm_uninstall manager w1")
  obtain r3 w3 where 3: "sm_status manager w2 = (r3, w3)" by (cases "sm_status manager w2")
  show ?thesis
    using assms 1 2 3 status_file [OF 1] uninstall_file [OF 2] status_file [OF 3]
    by (auto simp: uninstall_service_def and_then_def require_available_def split: sum.splits if_splits)
qed

lemma roll_back_temporary:
  assumes "roll_back manager w failed detail = (res, w')"
  shows "temporary w' = temporary w \<and> (\<exists>e. res = Inl e)"
  using assms by (cases "sm_uninstall manager w") (auto simp: roll_back_def split: sum.splits dest: uninstall_temporary)

lemma install_service_temporary:
  assumes "install_service manager w = (res, w')"
  shows "(unit_file w \<noteq> None \<longrightarrow> temporary w' = temporary w) \<and> (unit_file w = None \<and> temporary w \<longrightarrow> (\<exists>e. res = Inl e))"
proof -
  obtain r1 w1 where 1: "sm_status manager w = (r1, w1)" by (cases "sm_status manager w")
  obtain r2 w2 where 2: "sm_install manager w1 = (r2, w2)" by (cases "sm_install manager w1")
  obtain r3 w3 where 3: "sm_status manager w2 = (r3, w3)" by (cases "sm_status manager w2")
  note t = status_file [OF 1] status_temporary [OF 1] install_temporary [OF 2] status_temporary [OF 3]
  consider (early) "w' = w1" "unit_file w = None \<longrightarrow> (\<exists>e. res = Inl e)"
    | (failed) e where "\<not> is_ok r2" "roll_back manager w2 (Install e) e = (res, w')"
    | (status) "is_ok r2" "w' = w3"
    | (incomplete) failure detail where "is_ok r2" "roll_back manager w3 failure detail = (res, w')"
  proof (cases r1)
    case (Inl e)
    then show thesis using early 1 assms by (auto simp: install_service_def and_then_def)
  next
    case (Inr before)
    have cases2: thesis if "(case sm_install manager w1 of
             (Inl e, w) \<Rightarrow> roll_back manager w (Install e) e
           | (Inr _, w) \<Rightarrow>
               and_then (sm_status manager w) Manager (\<lambda>status w.
               if \<not> st_installed status \<or> \<not> st_running status
               then roll_back manager w (IncompleteInstall (st_detail status)) (st_detail status)
               else (Inr \<lparr> ch_changed = True, ch_status = status \<rparr>, w))) = (res, w')"
      using that 2 3 failed incomplete status by (cases r2; cases r3) (auto simp: and_then_def is_ok_def split: if_splits)
    show thesis
    proof (cases "st_availability before = Available \<and> \<not> (st_installed before \<and> st_running before)")
      case True
      then show thesis
        using assms 1 Inr by (intro cases2) (auto simp: install_service_def and_then_def require_available_def)
    next
      case False
      with assms 1 Inr t(1) show thesis
        by (intro early) (auto simp: install_service_def and_then_def require_available_def split: if_splits)
    qed
  qed
  then show ?thesis
  proof cases
    case (failed e)
    then show ?thesis using t roll_back_temporary [OF failed(2)] by auto
  next
    case (incomplete failure detail)
    then show ?thesis using t roll_back_temporary [OF incomplete(2)] by auto
  qed (use t in auto)
qed

lemma uninstall_service_temporary:
  assumes "uninstall_service manager w = (res, w')"
  shows "temporary w' = temporary w"
proof -
  obtain r1 w1 where 1: "sm_status manager w = (r1, w1)" by (cases "sm_status manager w")
  obtain r2 w2 where 2: "sm_uninstall manager w1 = (r2, w2)" by (cases "sm_uninstall manager w1")
  obtain r3 w3 where 3: "sm_status manager w2 = (r3, w3)" by (cases "sm_status manager w2")
  show ?thesis
    using assms 1 2 3 status_temporary [OF 1] uninstall_temporary [OF 2] status_temporary [OF 3]
    by (auto simp: uninstall_service_def and_then_def require_available_def split: sum.splits if_splits)
qed

end

section \<open>Both managers keep the contract\<close>

lemma native_status_file:
  assumes "sm_status (native_manager env m) w = (r, w')"
  shows "sv_file w' = sv_file w \<and> (\<forall>st. r = Inr st \<longrightarrow>
      (if st_installed st then sv_file w \<noteq> None \<and> sv_file w = native_text m else sv_file w = None \<and> \<not> st_running st))"
proof (cases m)
  case (Launchd svc)
  with assms show ?thesis
    by (auto simp: launchd_status_def launchd_installed_def and_then_eq split: prod.splits if_splits dest!: unit_file_rules)
next
  case (Systemd svc)
  obtain available w1 where 1: "manager_available env w = (available, w1)" by (cases "manager_available env w")
  obtain ri w2 where 2: "systemd_installed env svc w1 = (ri, w2)" by (cases "systemd_installed env svc w1")
  note file2 = manager_available_file [OF 1] installed_file [OF 2 [unfolded systemd_installed_def]]
  show ?thesis
  proof (cases ri)
    case (Inl e)
    with assms Systemd 1 2 file2 show ?thesis by (auto simp: systemd_status_def and_then_def)
  next
    case (Inr is_installed)
    obtain running w3 where 3: "(if available \<and> is_installed
        then (let (output, w) = run_command env ''systemctl'' [''--user'', ''is-active'', ''--quiet'', UNIT_NAME] w2 in (succeeded output, w))
        else (False, w2)) = (running, w3)"
      by fastforce
    obtain lingering w4 where 4: "(if available then lingering_enabled env svc w3 else (False, w3)) = (lingering, w4)" by fastforce
    have file3: "sv_file w3 = sv_file w2 \<and> (running \<longrightarrow> is_installed)"
      using 3 by (auto split: prod.splits if_splits dest: run_file)
    have file4: "sv_file w4 = sv_file w3" using 4 by (auto split: if_splits dest: lingering_enabled_file)
    from assms Systemd 1 2 Inr 3 4 have "w' = w4 \<and> (\<exists>st. r = Inr st \<and> st_installed st = is_installed \<and> st_running st = running)"
      by (auto simp: systemd_status_def and_then_def)
    with file2 file3 file4 Inr Systemd show ?thesis by (cases is_installed) auto
  qed
qed

lemma native_install_file:
  assumes "sm_install (native_manager env m) w = (r, w')"
  shows "sv_file w' = sv_file w \<or> sv_file w = None \<and> sv_file w' = native_text m"
proof (cases m)
  case (Launchd svc)
  with assms show ?thesis
    by (auto simp: launchd_install_def launchd_installed_def and_then_eq is_ok_def split: if_splits dest!: unit_file_rules)
next
  case (Systemd svc)
  obtain available w1 where 1: "manager_available env w = (available, w1)" by (cases "manager_available env w")
  obtain ri w2 where 2: "systemd_installed env svc w1 = (ri, w2)" by (cases "systemd_installed env svc w1")
  note file2 = manager_available_file [OF 1] installed_file [OF 2 [unfolded systemd_installed_def]]
  show ?thesis
  proof (cases "available \<and> ri = Inr False")
    case True
    with assms Systemd 1 2 file2 show ?thesis
      by (auto simp: systemd_install_def and_then_eq is_ok_def split: if_splits dest!: file_step_file run_required_file replace_file_file)
  next
    case False
    with assms Systemd 1 2 file2 show ?thesis by (auto simp: systemd_install_def and_then_eq split: if_splits)
  qed
qed

lemma native_uninstall_file:
  assumes "sm_uninstall (native_manager env m) w = (r, w')"
  shows "(\<forall>u. r = Inr u \<longrightarrow> sv_file w' = None)
    \<and> (sv_file w' = sv_file w \<or> sv_file w = native_text m \<and> sv_file w' = None)"
proof (cases m)
  case (Launchd svc)
  with assms show ?thesis
    by (auto simp: launchd_uninstall_def launchd_installed_def and_then_eq is_ok_def split: if_splits dest!: unit_file_rules
      native_status_file [where m = "Launchd svc", simplified])
next
  case (Systemd svc)
  with assms show ?thesis
    by (auto simp: systemd_uninstall_def systemd_installed_def and_then_eq is_ok_def split: if_splits dest!: unit_file_rules)
qed

lemma run_temporary: "run_command env program args w = (r, w') \<Longrightarrow> sv_temporary w' = sv_temporary w"
  by (auto simp: run_command_def split: prod.splits)

lemma file_step_temporary: "file_step env c w = (r, w') \<Longrightarrow> sv_temporary w' = sv_temporary w"
  by (auto simp: file_step_def split: prod.splits)

lemma run_required_temporary: "run_required env command program args w = (r, w') \<Longrightarrow> sv_temporary w' = sv_temporary w"
  by (auto simp: run_required_def and_then_eq dest: run_temporary)

lemma installed_temporary: "installed env refusing path expected w = (r, w') \<Longrightarrow> sv_temporary w' = sv_temporary w"
  by (auto simp: installed_def and_then_eq dest!: file_step_temporary)

lemma remove_file_temporary: "remove_file env path w = (r, w') \<Longrightarrow> sv_temporary w' = sv_temporary w"
  by (auto simp: remove_file_def and_then_eq dest!: file_step_temporary)

lemma replace_file_temporary: "replace_file env expected w = (Inr u, w') \<Longrightarrow> \<not> sv_temporary w"
  by (auto simp: replace_file_def write_temporary_def is_ok_def split: prod.splits)

lemma manager_available_temporary: "manager_available env w = (r, w') \<Longrightarrow> sv_temporary w' = sv_temporary w"
  by (auto simp: manager_available_def split: prod.splits dest: run_temporary)

lemmas temporary_rules = run_temporary file_step_temporary run_required_temporary installed_temporary remove_file_temporary
  manager_available_temporary

lemma native_status_temporary:
  assumes "sm_status (native_manager env m) w = (r, w')"
  shows "sv_temporary w' = sv_temporary w"
  using assms
  by (cases m) (auto simp: launchd_status_def launchd_available_def launchd_installed_def systemd_status_def systemd_installed_def
      lingering_enabled_def and_then_eq split: prod.splits if_splits dest!: temporary_rules)

lemma native_install_temporary:
  assumes "sm_install (native_manager env m) w = (r, w')"
  shows "(sv_file w \<noteq> None \<longrightarrow> sv_temporary w' = sv_temporary w) \<and> (sv_file w = None \<and> sv_temporary w \<longrightarrow> \<not> is_ok r)"
proof (cases m)
  case (Launchd svc)
  obtain ri w2 where 2: "launchd_installed env svc w = (ri, w2)" by (cases "launchd_installed env svc w")
  note file2 = installed_file [OF 2 [unfolded launchd_installed_def]] installed_temporary [OF 2 [unfolded launchd_installed_def]]
  show ?thesis
  proof (cases "ri = Inr False")
    case True
    with assms Launchd 2 file2 show ?thesis
      by (auto simp: launchd_install_def and_then_eq is_ok_def dest!: file_step_temporary dest: replace_file_temporary)
  next
    case False
    with assms Launchd 2 file2 show ?thesis by (auto simp: launchd_install_def and_then_eq is_ok_def split: if_splits)
  qed
next
  case (Systemd svc)
  obtain available w1 where 1: "manager_available env w = (available, w1)" by (cases "manager_available env w")
  obtain ri w2 where 2: "systemd_installed env svc w1 = (ri, w2)" by (cases "systemd_installed env svc w1")
  note file2 = manager_available_file [OF 1] manager_available_temporary [OF 1]
    installed_file [OF 2 [unfolded systemd_installed_def]] installed_temporary [OF 2 [unfolded systemd_installed_def]]
  show ?thesis
  proof (cases "available \<and> ri = Inr False")
    case True
    with assms Systemd 1 2 file2 show ?thesis
      by (auto simp: systemd_install_def and_then_eq is_ok_def dest!: file_step_temporary dest: replace_file_temporary)
  next
    case False
    with assms Systemd 1 2 file2 show ?thesis by (auto simp: systemd_install_def and_then_eq is_ok_def split: if_splits)
  qed
qed

lemma native_uninstall_temporary:
  assumes "sm_uninstall (native_manager env m) w = (r, w')"
  shows "sv_temporary w' = sv_temporary w"
proof (cases m)
  case (Launchd svc)
  with assms show ?thesis
    by (auto simp: launchd_uninstall_def launchd_installed_def and_then_eq split: if_splits dest!: temporary_rules
      native_status_temporary [where m = "Launchd svc", simplified])
next
  case (Systemd svc)
  with assms show ?thesis
    by (auto simp: systemd_uninstall_def systemd_installed_def and_then_eq split: if_splits dest!: temporary_rules)
qed

interpretation native: service_manager "native_manager env m" sv_file "native_text m" sv_temporary
  for env :: "'s service_env" and m :: NativeServiceManager
  by unfold_locales
    (rule native_status_file native_install_file native_uninstall_file native_status_temporary native_install_temporary
      native_uninstall_temporary; assumption)+

section \<open>The unit file, read back\<close>

text \<open>
  A reader of the unit file: lines, and in the line \<open>ExecStart=\<close> words in double quotes, in which a
  backslash takes the next character as it is and \<open>$\<close> and \<open>%\<close> are written twice.
\<close>

fun split_lines :: "string \<Rightarrow> string list" where
  "split_lines [] = [[]]"
| "split_lines (c # rest) =
     (if c = CHR 0x0A then [] # split_lines rest
      else (case split_lines rest of [] \<Rightarrow> [[c]] | l # ls \<Rightarrow> (c # l) # ls))"

fun exec_quoted :: "string \<Rightarrow> (string \<times> string) option" where
  "exec_quoted [] = None"
| "exec_quoted [c] = (if c = CHR 0x22 then Some ([], []) else None)"
| "exec_quoted (c # d # rest) =
     (if c = CHR 0x22 then Some ([], d # rest)
      else if c = CHR 0x5C then map_option (apfst (Cons d)) (exec_quoted rest)
      else if c = CHR ''$'' \<or> c = CHR ''%'' then (if d = c then map_option (apfst (Cons c)) (exec_quoted rest) else None)
      else map_option (apfst (Cons c)) (exec_quoted (d # rest)))"

lemma exec_quoted_shorter: "exec_quoted s = Some (word, rest) \<Longrightarrow> length rest < length s"
  by (induction s arbitrary: word rule: exec_quoted.induct) (fastforce split: if_splits)+

function exec_words :: "string \<Rightarrow> string list option" where
  "exec_words [] = Some []"
| "exec_words (c # rest) =
     (if c = CHR '' '' then exec_words rest
      else if c \<noteq> CHR 0x22 then None
      else (case exec_quoted rest of None \<Rightarrow> None | Some (word, after) \<Rightarrow> map_option (Cons word) (exec_words after)))"
  by pat_completeness auto
termination
  by (relation "measure length") (auto dest: exec_quoted_shorter)

definition exec_start :: "string \<Rightarrow> string list option" where
  "exec_start unit_text =
     (case filter (\<lambda>l. take 10 l = ''ExecStart='') (split_lines unit_text) of
        [l] \<Rightarrow> exec_words (drop 10 l)
      | _ \<Rightarrow> None)"

definition service_argument :: "string \<Rightarrow> bool" where
  "service_argument a \<longleftrightarrow> utf8_valid a \<and> CHR 0x0A \<notin> set a \<and> CHR 0x0D \<notin> set a \<and> CHR 0x00 \<notin> set a"

definition escaped :: "char \<Rightarrow> string" where
  "escaped c = (if c \<in> {CHR 0x5C, CHR 0x22} then [CHR 0x5C, c] else if c \<in> {CHR ''$'', CHR ''%''} then [c, c] else [c])"

lemma systemd_quote_escaped:
  "systemd_quote a = (if service_argument a then Inr ([CHR 0x22] @ concat (map escaped a) @ [CHR 0x22]) else systemd_quote a)"
proof -
  have "replace_char (CHR ''%'') ''%%'' (replace_char (CHR ''$'') ''$$''
        (replace_char (CHR 0x22) [CHR 0x5C, CHR 0x22] (replace_char (CHR 0x5C) [CHR 0x5C, CHR 0x5C] a))) = concat (map escaped a)"
    by (induction a) (auto simp: replace_char_def escaped_def)
  then show ?thesis by (simp add: systemd_quote_def service_argument_def)
qed

lemma exec_quoted_escaped: "exec_quoted (concat (map escaped a) @ CHR 0x22 # rest) = Some (a, rest)"
proof (induction a)
  case Nil
  then show ?case by (cases rest) simp_all
next
  case (Cons c a)
  obtain d after where more: "concat (map escaped a) @ CHR 0x22 # rest = d # after"
    by (cases "concat (map escaped a) @ CHR 0x22 # rest") auto
  show ?case using Cons more by (auto simp: escaped_def [of c])
qed

lemma quote_all_Cons:
  assumes "quote_all (a # args) = Inr quoted"
  obtains qs where "quote_all args = Inr qs" and "service_argument a"
    and "quoted = ([CHR 0x22] @ concat (map escaped a) @ [CHR 0x22]) # qs"
proof -
  have "service_argument a"
    using assms by (auto simp: systemd_quote_def service_argument_def split: if_splits)
  then show ?thesis using assms that systemd_quote_escaped [of a]
    by (auto simp: map_ok_def split: sum.splits)
qed

lemma exec_words_quoted:
  assumes "quote_all args = Inr quoted"
  shows "exec_words (join_with '' '' quoted) = Some args"
  using assms
proof (induction args arbitrary: quoted)
  case (Cons a args)
  then obtain qs where qs: "quote_all args = Inr qs" and q: "service_argument a"
      "quoted = ([CHR 0x22] @ concat (map escaped a) @ [CHR 0x22]) # qs"
    using quote_all_Cons by blast
  show ?case using Cons.IH [OF qs] q exec_quoted_escaped [of a]
    by (cases qs) auto
qed simp

lemma quote_all_ok: "is_ok (quote_all args) \<longleftrightarrow> (\<forall>a \<in> set args. service_argument a)"
  by (induction args) (auto simp: systemd_quote_def service_argument_def is_ok_def map_ok_def split: sum.splits)

lemma quote_all_one_line: "quote_all args = Inr quoted \<Longrightarrow> CHR 0x0A \<notin> set (join_with '' '' quoted)"
proof (induction args arbitrary: quoted)
  case (Cons a args)
  then obtain qs where qs: "quote_all args = Inr qs" and q: "service_argument a"
      "quoted = ([CHR 0x22] @ concat (map escaped a) @ [CHR 0x22]) # qs"
    using quote_all_Cons by blast
  have "CHR 0x0A \<notin> set (concat (map escaped a))" using q(1) by (auto simp: service_argument_def escaped_def split: if_splits)
  then show ?case using Cons.IH [OF qs] q by (cases qs) auto
qed simp

lemma split_lines_line: "CHR 0x0A \<notin> set l \<Longrightarrow> split_lines (l @ CHR 0x0A # rest) = l # split_lines rest"
  by (induction l) auto

lemma split_lines_unlines: "\<forall>l \<in> set ls. CHR 0x0A \<notin> set l \<Longrightarrow> split_lines (unlines ls) = ls @ [[]]"
  by (induction ls) (auto simp: unlines_def split_lines_line)

section \<open>A service manager that works\<close>

text \<open>
  What the commands of a healthy systemd do, where \<open>active\<close> says whether the unit runs: \<open>enable --now\<close>
  starts it, \<open>disable --now\<close> stops it, \<open>is-active\<close> asks, and no file operation fails.
\<close>

definition systemctl_asks :: "string \<Rightarrow> string \<Rightarrow> string list \<Rightarrow> bool" where
  "systemctl_asks verb program args \<longleftrightarrow> program = ''systemctl'' \<and> verb \<in> set args"

definition healthy_systemd :: "'s service_env \<Rightarrow> ('s \<Rightarrow> bool) \<Rightarrow> bool" where
  "healthy_systemd env active \<longleftrightarrow> sx_fault env = (\<lambda>_ s. (None, s)) \<and>
     (\<forall>program args unit_file s. \<exists>output s'. sx_run env program args unit_file s = (Inr output, s')
        \<and> (out_success output \<longleftrightarrow> (systemctl_asks ''is-active'' program args \<longrightarrow> active s))
        \<and> (active s' \<longleftrightarrow> (if systemctl_asks ''enable'' program args then True else if systemctl_asks ''disable'' program args then False else active s)))"

definition sample_env :: "bool service_env" where
  "sample_env =
     \<lparr> sx_run = (\<lambda>program args unit_file s.
         (Inr \<lparr> out_success = (systemctl_asks ''is-active'' program args \<longrightarrow> s), out_stdout = [], out_stderr = [] \<rparr>,
          if systemctl_asks ''enable'' program args then True else if systemctl_asks ''disable'' program args then False else s)),
       sx_fault = (\<lambda>_ s. (None, s)) \<rparr>"

definition sample_paths :: service_paths where
  "sample_paths = systemd_new ''/bin/atx'' ''/s'' ''/r'' ''/c'' 1000"

lemma sample_env_healthy: "healthy_systemd sample_env id"
  by (simp add: healthy_systemd_def sample_env_def)

lemma healthy_file_step:
  assumes "healthy_systemd env active"
  shows "file_step env c w = (Inr (), w)"
  using assms by (simp add: healthy_systemd_def file_step_def)

lemma healthy_run:
  assumes "healthy_systemd env active"
  obtains outp s' where "run_command env program args w = (Inr outp, w\<lparr> sv_machine := s' \<rparr>)"
    "out_success outp \<longleftrightarrow> (systemctl_asks ''is-active'' program args \<longrightarrow> active (sv_machine w))"
    "active s' \<longleftrightarrow> (if systemctl_asks ''enable'' program args then True else if systemctl_asks ''disable'' program args then False else active (sv_machine w))"
proof -
  obtain outp s' where "sx_run env program args (sv_file w) (sv_machine w) = (Inr outp, s')"
      "out_success outp \<longleftrightarrow> (systemctl_asks ''is-active'' program args \<longrightarrow> active (sv_machine w))"
      "active s' \<longleftrightarrow> (if systemctl_asks ''enable'' program args then True else if systemctl_asks ''disable'' program args then False else active (sv_machine w))"
    using assms unfolding healthy_systemd_def by blast
  then show ?thesis using that by (simp add: run_command_def)
qed

lemma healthy_run_required:
  assumes "healthy_systemd env active" "\<not> systemctl_asks ''is-active'' program args"
  obtains s' where "run_required env command program args w = (Inr (), w\<lparr> sv_machine := s' \<rparr>)"
    "active s' \<longleftrightarrow> (if systemctl_asks ''enable'' program args then True else if systemctl_asks ''disable'' program args then False else active (sv_machine w))"
proof -
  obtain outp s' where "run_command env program args w = (Inr outp, w\<lparr> sv_machine := s' \<rparr>)"
      "out_success outp"
      "active s' \<longleftrightarrow> (if systemctl_asks ''enable'' program args then True else if systemctl_asks ''disable'' program args then False else active (sv_machine w))"
    using healthy_run [OF assms(1), of program args w] assms(2) by metis
  then show ?thesis using that by (simp add: run_required_def and_then_def require_success_def)
qed

lemma healthy_available:
  assumes "healthy_systemd env active"
  obtains s' where "manager_available env w = (True, w\<lparr> sv_machine := s' \<rparr>)" "active s' = active (sv_machine w)"
  by (rule healthy_run [OF assms, of "''systemctl''" "[''--user'', ''show-environment'']" w])
    (use that in \<open>auto simp: manager_available_def systemctl_asks_def\<close>)

lemma healthy_installed:
  assumes "healthy_systemd env active" "render_unit svc = Inr unit_text" "utf8_valid unit_text"
    "sv_file w = None \<or> sv_file w = Some unit_text"
  shows "systemd_installed env svc w = (Inr (sv_file w \<noteq> None), w)"
  using assms by (auto simp: systemd_installed_def installed_def and_then_def healthy_file_step [OF assms(1)])

lemma healthy_status:
  assumes healthy: "healthy_systemd env active" and unit_text: "render_unit svc = Inr unit_text" "utf8_valid unit_text"
    and own: "sv_file w = None \<or> sv_file w = Some unit_text"
  obtains st s' where "systemd_status env svc w = (Inr st, w\<lparr> sv_machine := s' \<rparr>)" "active s' = active (sv_machine w)"
    "st_availability st = Available" "st_installed st \<longleftrightarrow> sv_file w \<noteq> None"
    "st_running st \<longleftrightarrow> sv_file w \<noteq> None \<and> active (sv_machine w)"
    "st_installed st \<and> \<not> st_running st \<longrightarrow> st_detail st = ''user service is installed but not running''"
proof -
  obtain s1 where 1: "manager_available env w = (True, w\<lparr> sv_machine := s1 \<rparr>)" "active s1 = active (sv_machine w)"
    by (rule healthy_available [OF healthy])
  let ?w1 = "w\<lparr> sv_machine := s1 \<rparr>"
  have 2: "systemd_installed env svc ?w1 = (Inr (sv_file w \<noteq> None), ?w1)"
    using healthy_installed [OF healthy unit_text, of ?w1] own by simp
  obtain outp s2 where 3: "run_command env ''systemctl'' [''--user'', ''is-active'', ''--quiet'', UNIT_NAME] ?w1 = (Inr outp, ?w1\<lparr> sv_machine := s2 \<rparr>)"
      "out_success outp \<longleftrightarrow> active s1" "active s2 = active s1"
    by (rule healthy_run [OF healthy, of "''systemctl''" "[''--user'', ''is-active'', ''--quiet'', UNIT_NAME]" ?w1])
      (auto simp: systemctl_asks_def UNIT_NAME_def)
  define s3 where "s3 = (if sv_file w \<noteq> None then s2 else s1)"
  obtain lingering s4 where 4: "lingering_enabled env svc (w\<lparr> sv_machine := s3 \<rparr>) = (lingering, w\<lparr> sv_machine := s4 \<rparr>)"
      "active s4 = active s3"
    by (rule healthy_run [OF healthy, of "''loginctl''" "[''show-user'', show_nat (unat (sp_uid svc)), ''--property=Linger'', ''--value'']" "w\<lparr> sv_machine := s3 \<rparr>"])
      (auto simp: lingering_enabled_def systemctl_asks_def)
  have "\<exists>st. systemd_status env svc w = (Inr st, w\<lparr> sv_machine := s4 \<rparr>) \<and> st_availability st = Available
      \<and> st_installed st = (sv_file w \<noteq> None) \<and> st_running st = (sv_file w \<noteq> None \<and> active s1)
      \<and> (st_installed st \<and> \<not> st_running st \<longrightarrow> st_detail st = ''user service is installed but not running'')"
    using 1(1) 2 3(1,2) 4(1) by (cases "sv_file w = None") (auto simp: systemd_status_def and_then_def s3_def)
  moreover have "active s4 = active (sv_machine w)" using 1(2) 3(3) 4(2) by (simp add: s3_def split: if_splits)
  ultimately show ?thesis using that 1(2) by blast
qed

lemma healthy_replace:
  assumes "healthy_systemd env active" "\<not> sv_temporary w"
  shows "replace_file env (Inr unit_text) w = (Inr (), w\<lparr> sv_file := Some unit_text, sv_temporary := False \<rparr>)"
  using assms(2) by (simp add: replace_file_def write_temporary_def and_then_def healthy_file_step [OF assms(1)])

lemma healthy_install_new:
  assumes healthy: "healthy_systemd env active" and unit_text: "render_unit svc = Inr unit_text" "utf8_valid unit_text"
    and none: "sv_file w = None" "\<not> sv_temporary w"
  obtains s' where "systemd_install env svc w = (Inr (), w\<lparr> sv_file := Some unit_text, sv_temporary := False, sv_machine := s' \<rparr>)"
    "active s'"
proof -
  obtain s1 where 1: "manager_available env w = (True, w\<lparr> sv_machine := s1 \<rparr>)"
    by (rule healthy_available [OF healthy])
  let ?w1 = "w\<lparr> sv_machine := s1 \<rparr>"
  have 2: "systemd_installed env svc ?w1 = (Inr False, ?w1)"
    using healthy_installed [OF healthy unit_text, of ?w1] none by simp
  let ?w2 = "?w1\<lparr> sv_file := Some unit_text, sv_temporary := False \<rparr>"
  obtain s3 where 3: "run_required env ''systemctl --user daemon-reload'' ''systemctl'' [''--user'', ''daemon-reload''] ?w2
      = (Inr (), ?w2\<lparr> sv_machine := s3 \<rparr>)"
    by (rule healthy_run_required [OF healthy, of "''systemctl''" "[''--user'', ''daemon-reload'']"]) (simp add: systemctl_asks_def)
  obtain s4 where 4: "run_required env ''systemctl --user enable'' ''systemctl'' [''--user'', ''enable'', ''--now'', UNIT_NAME]
      (?w2\<lparr> sv_machine := s3 \<rparr>) = (Inr (), ?w2\<lparr> sv_machine := s4 \<rparr>)" "active s4"
    by (rule healthy_run_required [OF healthy, of "''systemctl''" "[''--user'', ''enable'', ''--now'', UNIT_NAME]" _ "?w2\<lparr> sv_machine := s3 \<rparr>"])
      (auto simp: systemctl_asks_def UNIT_NAME_def)
  show ?thesis
    by (rule that [OF _ 4(2)])
      (use 1 2 3 4(1) unit_text(1) none(2) in \<open>simp add: systemd_install_def and_then_def healthy_file_step [OF healthy] healthy_replace [OF healthy]\<close>)
qed

lemma healthy_install_present:
  assumes healthy: "healthy_systemd env active" and unit_text: "render_unit svc = Inr unit_text" "utf8_valid unit_text"
    and own: "sv_file w = Some unit_text"
  obtains s' where "systemd_install env svc w = (Inr (), w\<lparr> sv_machine := s' \<rparr>)" "active s' = active (sv_machine w)"
proof -
  obtain s1 where 1: "manager_available env w = (True, w\<lparr> sv_machine := s1 \<rparr>)" "active s1 = active (sv_machine w)"
    by (rule healthy_available [OF healthy])
  show ?thesis
    by (rule that [OF _ 1(2)])
      (use 1(1) own healthy_installed [OF healthy unit_text, of "w\<lparr> sv_machine := s1 \<rparr>"] in \<open>simp add: systemd_install_def and_then_def\<close>)
qed

lemma healthy_uninstall:
  assumes healthy: "healthy_systemd env active" and unit_text: "render_unit svc = Inr unit_text" "utf8_valid unit_text"
    and own: "sv_file w = Some unit_text"
  obtains s' where "systemd_uninstall env svc w = (Inr (), w\<lparr> sv_file := None, sv_machine := s' \<rparr>)" "\<not> active s'"
proof -
  obtain s1 where 1: "run_required env ''systemctl --user disable'' ''systemctl'' [''--user'', ''disable'', ''--now'', UNIT_NAME] w
      = (Inr (), w\<lparr> sv_machine := s1 \<rparr>)" "\<not> active s1"
    by (rule healthy_run_required [OF healthy, of "''systemctl''" "[''--user'', ''disable'', ''--now'', UNIT_NAME]" _ w])
      (auto simp: systemctl_asks_def UNIT_NAME_def)
  let ?w1 = "w\<lparr> sv_machine := s1, sv_file := None \<rparr>"
  obtain s2 where 2: "run_required env ''systemctl --user daemon-reload'' ''systemctl'' [''--user'', ''daemon-reload''] ?w1
      = (Inr (), ?w1\<lparr> sv_machine := s2 \<rparr>)" "active s2 = active s1"
    by (rule healthy_run_required [OF healthy, of "''systemctl''" "[''--user'', ''daemon-reload'']" _ ?w1]) (auto simp: systemctl_asks_def)
  show ?thesis
    by (rule that [of s2])
      (use 1 2 own healthy_installed [OF healthy unit_text, of w] in
        \<open>simp_all add: systemd_uninstall_def and_then_def remove_file_def healthy_file_step [OF healthy]\<close>)
qed

section \<open>Properties\<close>

text \<open>
  The unit file starts the supervisor of this installation.  It can be written exactly when the
  paths are UTF-8 without line breaks and NUL, and whatever else they hold (spaces, quotes,
  backslashes, \<open>$\<close>, \<open>%\<close>), it has one \<open>ExecStart=\<close> line, whose words are the executable and its
  arguments as given.
\<close>

theorem unit_file_runs_supervisor:
  "(is_ok (render_unit svc) \<longleftrightarrow> (\<forall>a \<in> set (supervisor_arguments svc). service_argument a))
   \<and> (render_unit svc = Inr unit_text \<longrightarrow> exec_start unit_text = Some (supervisor_arguments svc))"
proof (cases "quote_all (supervisor_arguments svc)")
  case (Inl e)
  then show ?thesis using quote_all_ok [of "supervisor_arguments svc"] by (simp add: render_unit_def is_ok_def)
next
  case (Inr quoted)
  note words = exec_words_quoted [OF Inr] and one_line = quote_all_one_line [OF Inr]
  have "render_unit svc = Inr unit_text \<longrightarrow> exec_start unit_text = Some (supervisor_arguments svc)"
    using words one_line by (auto simp: render_unit_def Inr exec_start_def split_lines_unlines)
  then show ?thesis using Inr quote_all_ok [of "supervisor_arguments svc"] by (simp add: render_unit_def is_ok_def)
qed

text \<open>
  C31. Installing and removing the service never changes a service file other than the one this
  installation writes: such a file is reported as an error and left alone, along with the temporary
  file beside it.  A successful installation ends with our file in place and the service reported as
  running; an installation that failed and was undone leaves no service file; a successful removal
  leaves none and the service stopped, and no removal touches the temporary file.  An installation
  that finds no service file but a temporary one fails; that one it may remove, whoever left it.
  This holds for launchd and systemd, whatever their commands answer and whichever file operation
  fails.  A file written by an executable or for a state directory that has moved since is another
  file in this sense, although \<open>docs/cli.md\<close> says to run the installation again after moving either.
\<close>

theorem service_file_owned:
  "(install_service (native_manager env m) w = (res, w') \<longrightarrow>
      (\<forall>change. res = Inr change \<longrightarrow> st_installed (ch_status change) \<and> st_running (ch_status change)
        \<and> sv_file w' \<noteq> None \<and> sv_file w' = native_text m \<and> (\<not> ch_changed change \<longrightarrow> sv_file w' = sv_file w))
      \<and> (\<forall>e. res = Inl (Install e) \<or> res = Inl (IncompleteInstall e) \<longrightarrow> sv_file w' = None)
      \<and> (sv_file w \<noteq> None \<and> sv_file w \<noteq> native_text m \<longrightarrow> sv_file w' = sv_file w \<and> (\<exists>e. res = Inl e))
      \<and> (sv_file w \<noteq> None \<longrightarrow> sv_temporary w' = sv_temporary w)
      \<and> (sv_file w = None \<and> sv_temporary w \<longrightarrow> (\<exists>e. res = Inl e)))
   \<and> (uninstall_service (native_manager env m) w = (res, w') \<longrightarrow>
      (\<forall>change. res = Inr change \<longrightarrow> sv_file w' = None \<and> \<not> st_installed (ch_status change) \<and> \<not> st_running (ch_status change))
      \<and> (sv_file w \<noteq> None \<and> sv_file w \<noteq> native_text m \<longrightarrow> sv_file w' = sv_file w \<and> (\<exists>e. res = Inl e))
      \<and> sv_temporary w' = sv_temporary w)"
  using native.install_service_file [of env m w res w'] native.uninstall_service_file [of env m w res w']
    native.install_service_temporary [of env m w res w'] native.uninstall_service_temporary [of env m w res w'] by blast

text \<open>
  C32. With a healthy systemd, \<open>service install\<close> installs and starts a service that is not installed
  yet.  But on a service that is installed and has been stopped it does not start it:
  \<open>SystemdUserService::install\<close> returns at once because the file is there, the service is then
  found not running, and the rollback removes the unit.  A test of \<open>application/service.rs\<close>
  (\<open>installed_but_stopped_service_is_repaired_by_install\<close>) expects it to be repaired.
\<close>

theorem stopped_service_removed:
  assumes healthy: "healthy_systemd env active" and unit_text: "render_unit svc = Inr unit_text" "utf8_valid unit_text"
    and stopped: "\<not> active (sv_machine w)" and temporary: "\<not> sv_temporary w"
  shows "(sv_file w = None \<longrightarrow>
      (\<exists>change w'. install_service (native_manager env (Systemd svc)) w = (Inr change, w')
        \<and> ch_changed change \<and> sv_file w' = Some unit_text \<and> active (sv_machine w')))
    \<and> (sv_file w = Some unit_text \<longrightarrow>
      (\<exists>w'. install_service (native_manager env (Systemd svc)) w
          = (Inl (IncompleteInstall ''user service is installed but not running''), w')
        \<and> sv_file w' = None \<and> \<not> active (sv_machine w')))"
proof (intro conjI impI)
  assume none: "sv_file w = None"
  obtain st1 s1 where 1: "systemd_status env svc w = (Inr st1, w\<lparr> sv_machine := s1 \<rparr>)"
      "st_availability st1 = Available" "\<not> st_installed st1"
    using healthy_status [OF healthy unit_text, of w] none by metis
  obtain s2 where 2: "systemd_install env svc (w\<lparr> sv_machine := s1 \<rparr>)
      = (Inr (), w\<lparr> sv_file := Some unit_text, sv_temporary := False, sv_machine := s2 \<rparr>)" "active s2"
    by (rule healthy_install_new [OF healthy unit_text, of "w\<lparr> sv_machine := s1 \<rparr>"]) (use none temporary in auto)
  let ?w2 = "w\<lparr> sv_file := Some unit_text, sv_temporary := False, sv_machine := s2 \<rparr>"
  obtain st3 s3 where 3: "systemd_status env svc ?w2 = (Inr st3, ?w2\<lparr> sv_machine := s3 \<rparr>)" "active s3"
      "st_installed st3" "st_running st3"
    by (rule healthy_status [OF healthy unit_text, of ?w2]) (use 2(2) in auto)
  show "\<exists>change w'. install_service (native_manager env (Systemd svc)) w = (Inr change, w')
        \<and> ch_changed change \<and> sv_file w' = Some unit_text \<and> active (sv_machine w')"
    using 1 2 3 by (simp add: install_service_def and_then_def require_available_def)
next
  assume own: "sv_file w = Some unit_text"
  obtain st1 s1 where 1: "systemd_status env svc w = (Inr st1, w\<lparr> sv_machine := s1 \<rparr>)"
      "st_availability st1 = Available" "\<not> st_running st1" "\<not> active s1"
    using healthy_status [OF healthy unit_text, of w] own stopped by metis
  obtain s2 where 2: "systemd_install env svc (w\<lparr> sv_machine := s1 \<rparr>) = (Inr (), w\<lparr> sv_machine := s2 \<rparr>)" "\<not> active s2"
    by (rule healthy_install_present [OF healthy unit_text, of "w\<lparr> sv_machine := s1 \<rparr>"]) (use own 1(4) in auto)
  obtain st3 s3 where 3: "systemd_status env svc (w\<lparr> sv_machine := s2 \<rparr>) = (Inr st3, w\<lparr> sv_machine := s3 \<rparr>)"
      "\<not> st_running st3" "st_detail st3 = ''user service is installed but not running''"
    by (rule healthy_status [OF healthy unit_text, of "w\<lparr> sv_machine := s2 \<rparr>"]) (use own 2(2) in auto)
  obtain s4 where 4: "systemd_uninstall env svc (w\<lparr> sv_machine := s3 \<rparr>) = (Inr (), w\<lparr> sv_file := None, sv_machine := s4 \<rparr>)"
      "\<not> active s4"
    by (rule healthy_uninstall [OF healthy unit_text, of "w\<lparr> sv_machine := s3 \<rparr>"]) (use own in auto)
  show "\<exists>w'. install_service (native_manager env (Systemd svc)) w
          = (Inl (IncompleteInstall ''user service is installed but not running''), w')
        \<and> sv_file w' = None \<and> \<not> active (sv_machine w')"
    using 1 2 3 4 by (simp add: install_service_def and_then_def require_available_def roll_back_def)
qed

theorem stopped_service_removed_witness:
  "\<exists>w'. install_service (native_manager sample_env (Systemd sample_paths))
       \<lparr> sv_file = Some (projr (render_unit sample_paths)), sv_temporary = False, sv_machine = False \<rparr>
     = (Inl (IncompleteInstall ''user service is installed but not running''), w') \<and> sv_file w' = None"
proof -
  have "render_unit sample_paths = Inr (projr (render_unit sample_paths))" "utf8_valid (projr (render_unit sample_paths))"
    by code_simp+
  from stopped_service_removed [OF sample_env_healthy this,
      of "\<lparr> sv_file = Some (projr (render_unit sample_paths)), sv_temporary = False, sv_machine = False \<rparr>"]
  show ?thesis by (auto simp del: native_manager.simps)
qed

theorem unit_file_runs_supervisor_witness:
  "exec_start (projr (render_unit sample_paths)) = Some (supervisor_arguments sample_paths)"
proof -
  have "render_unit sample_paths = Inr (projr (render_unit sample_paths))" by code_simp
  with unit_file_runs_supervisor [of sample_paths] show ?thesis by blast
qed

theorem service_file_owned_witness:
  "sv_file (snd (uninstall_service (native_manager sample_env (Systemd sample_paths))
     \<lparr> sv_file = Some ''[Unit]'', sv_temporary = False, sv_machine = True \<rparr>)) = Some ''[Unit]''"
proof -
  let ?w = "\<lparr> sv_file = Some ''[Unit]'', sv_temporary = False, sv_machine = True \<rparr>"
  obtain res w' where removed: "uninstall_service (native_manager sample_env (Systemd sample_paths)) ?w = (res, w')"
    by fastforce
  have "native_text (Systemd sample_paths) \<noteq> Some ''[Unit]''" by code_simp
  with removed service_file_owned [of sample_env "Systemd sample_paths" ?w res w'] show ?thesis
    by (simp del: native_manager.simps native_text.simps)
qed

end
