(* ===== verification/Tty.thy ===== *)
theory Tty
  imports Paths Utf8_Text
begin

text \<open>
  The echo of a finished run on the terminal it was submitted from (\<open>src/run_monitor/tty.rs\<close>).  Files
  are given by what opening and reading them returns; the terminal takes \<open>te_room\<close> bytes and then
  fails, because it is opened without blocking.
\<close>

section \<open>The tail of a log\<close>

definition ECHO_LIMIT :: nat where
  "ECHO_LIMIT = 8 * 1024"

record LogTail =
  lt_bytes :: string
  lt_truncated :: bool

record log_file =
  lf_kind :: FileKind
  lf_len :: nat
  lf_contents :: "(string, string) result"

definition read_tail :: "(string, log_file) result \<Rightarrow> (string, LogTail) result" where
  "read_tail opened =
     try_bind opened (\<lambda>f.
     if lf_kind f \<noteq> RegularFile then Inl ''captured log is not a regular file''
     else try_bind (lf_contents f) (\<lambda>contents.
       Inr \<lparr> lt_bytes = take ECHO_LIMIT (drop (lf_len f - ECHO_LIMIT) contents), lt_truncated = (ECHO_LIMIT < lf_len f) \<rparr>))"

text \<open>\<open>char::is_control\<close> on the encoding of a character: \<open>U+0000\<close> to \<open>U+001F\<close> and \<open>U+007F\<close> to \<open>U+009F\<close>.\<close>

definition is_control :: "string \<Rightarrow> bool" where
  "is_control x =
     (case x of
        [a] \<Rightarrow> byte a < 32 \<or> byte a = 127
      | [a, b] \<Rightarrow> byte a = 194 \<and> 128 \<le> byte b \<and> byte b < 160
      | _ \<Rightarrow> False)"

definition echoed :: "string \<Rightarrow> bool" where
  "echoed x \<longleftrightarrow> \<not> is_control x \<or> x = [CHR 0x0A] \<or> x = [CHR 0x09]"

function next_boundary :: "string \<Rightarrow> nat \<Rightarrow> nat" where
  "next_boundary s i = (if is_char_boundary s i \<or> length s \<le> i then i else next_boundary s (Suc i))"
  by pat_completeness auto
termination
  by (relation "measure (\<lambda>(s, i). length s - i)") auto

declare next_boundary.simps [simp del]

definition sanitize_tail :: "string \<Rightarrow> string" where
  "sanitize_tail bytes =
     (let bytes = drop (length bytes - ECHO_LIMIT) bytes;
          txt = concat (filter echoed (lossy_chars bytes));
          start = next_boundary txt (length txt - ECHO_LIMIT)
      in drop start txt)"

section \<open>The terminal\<close>

record tty_env =
  te_open :: "(string, metadata) result"
  te_is_terminal :: bool
  te_uid :: u32
  te_room :: nat
  te_full :: string

definition tty_attributes_allowed :: "bool \<Rightarrow> u32 \<Rightarrow> u32 \<Rightarrow> u32 \<Rightarrow> bool" where
  "tty_attributes_allowed char_device owner mode effective_uid \<longleftrightarrow>
     char_device \<and> owner = effective_uid \<and> mode AND 2 = 0"

definition open_tty :: "tty_env \<Rightarrow> (string, unit) result" where
  "open_tty env =
     try_bind (te_open env) (\<lambda>m.
     if \<not> tty_attributes_allowed (md_kind m = CharDevice) (md_uid m) (md_mode m) (te_uid env) \<or> \<not> te_is_terminal env
     then Inl ''saved terminal is not an owned, non-world-writable TTY''
     else Inr ())"

text \<open>Writing to the terminal after what was written already.\<close>

definition tty_write :: "tty_env \<Rightarrow> string \<Rightarrow> string \<Rightarrow> (string, unit) result \<times> string" where
  "tty_write env txt shown =
     (if length shown + length txt \<le> te_room env then (Inr (), shown @ txt)
      else (Inl (te_full env), shown @ take (te_room env - length shown) txt))"

definition write_if :: "tty_env \<Rightarrow> bool \<Rightarrow> string \<Rightarrow> string \<Rightarrow> (string, unit) result \<times> string" where
  "write_if env condition txt shown = (if condition then tty_write env txt shown else (Inr (), shown))"

definition capture_note :: string where
  "capture_note = ''[atx: output truncated at capture cap]'' @ [CHR 0x0A]"

definition echo_note :: string where
  "echo_note = ''[atx: terminal echo limited to last 8 KiB per stream]'' @ [CHR 0x0A]"

definition echo_tty ::
  "tty_env \<Rightarrow> (string, log_file) result \<Rightarrow> (string, log_file) result \<Rightarrow> bool \<Rightarrow> (string, unit) result \<times> string" where
  "echo_tty env stdout_log stderr_log captured_truncated =
     (case open_tty env of
        Inl e \<Rightarrow> (Inl e, [])
      | Inr _ \<Rightarrow>
          (case read_tail stdout_log of
             Inl e \<Rightarrow> (Inl e, [])
           | Inr stdout \<Rightarrow>
               (let stderr = read_tail stderr_log in
                and_then (write_if env captured_truncated capture_note []) id (\<lambda>_ shown.
                and_then (write_if env (lt_truncated stdout \<or> (case stderr of Inr t \<Rightarrow> lt_truncated t | Inl _ \<Rightarrow> False)) echo_note shown) id (\<lambda>_ shown.
                and_then (tty_write env [CHR 0x0A] shown) id (\<lambda>_ shown.
                and_then (tty_write env (sanitize_tail (lt_bytes stdout)) shown) id (\<lambda>_ shown.
                and_then (stderr, shown) id (\<lambda>t shown.
                tty_write env (sanitize_tail (lt_bytes t)) shown))))))))"

section \<open>Character boundaries\<close>

lemma is_char_shape:
  assumes "is_char x"
  shows "x \<noteq> []" "\<not> is_cont (hd x)" "\<And>i. 0 < i \<Longrightarrow> i < length x \<Longrightarrow> is_cont (x ! i)"
proof -
  show "x \<noteq> []" using assms by (simp add: is_char_def)
  consider (1) a where "x = [a]" | (2) a b where "x = [a, b]" | (3) a b c where "x = [a, b, c]"
    | (4) a b c d where "x = [a, b, c, d]" | (5) a b c d e r where "x = a # b # c # d # e # r"
    using assms by (metis is_char_def list.exhaust)
  note shape = this
  show "\<not> is_cont (hd x)"
    using shape assms by cases (auto simp: is_char_def char_head_def is_cont_def Let_def split: if_splits)
  show "is_cont (x ! i)" if "0 < i" "i < length x" for i
    using shape assms that
    by cases (auto simp: is_char_def char_head_def Let_def nth_Cons less_Suc_eq split: if_splits nat.splits)
qed

lemma boundary_of_chars:
  assumes "list_all is_char xs" "k \<le> length xs"
  shows "is_char_boundary (concat xs) (length (concat (take k xs)))"
proof (cases "k = length xs")
  case False
  with assms(2) have k: "k < length xs" by simp
  then have split: "concat xs = concat (take k xs) @ (xs ! k) @ concat (drop (Suc k) xs)"
    by (metis Cons_nth_drop_Suc append_take_drop_id concat.simps(2) concat_append)
  have "is_char (xs ! k)" using assms(1) k by (simp add: list_all_length)
  with is_char_shape [of "xs ! k"] have "xs ! k \<noteq> []" "\<not> is_cont (hd (xs ! k))" by blast+
  then have "is_char_boundary (concat (take k xs) @ (xs ! k) @ concat (drop (Suc k) xs)) (length (concat (take k xs)))"
    by (simp add: is_char_boundary_def nth_append hd_conv_nth)
  then show ?thesis unfolding split [symmetric] .
qed (simp add: is_char_boundary_def)

lemma boundary_is_char_start:
  assumes "list_all is_char xs" "is_char_boundary (concat xs) i"
  shows "\<exists>k \<le> length xs. i = length (concat (take k xs))"
  using assms
proof (induction xs arbitrary: i)
  case (Cons x xs)
  show ?case
  proof (cases "i < length x")
    case True
    then have "i = 0" using Cons.prems is_char_shape(3) [of x i] by (auto simp: is_char_boundary_def nth_append)
    then show ?thesis by (intro exI [of _ 0]) simp
  next
    case False
    then have "is_char_boundary (concat xs) (i - length x)"
      using Cons.prems by (auto simp: is_char_boundary_def nth_append)
    with Cons obtain k where "k \<le> length xs" "i - length x = length (concat (take k xs))" by auto
    then show ?thesis using False by (intro exI [of _ "Suc k"]) auto
  qed
qed (auto simp: is_char_boundary_def)

lemma next_boundary_start [simp]: "next_boundary s 0 = 0"
  by (subst next_boundary.simps) (simp add: is_char_boundary_def)

lemma next_boundary_first:
  "i \<le> length s \<Longrightarrow> i \<le> next_boundary s i \<and> is_char_boundary s (next_boundary s i)
     \<and> (\<forall>m. i \<le> m \<and> m < next_boundary s i \<longrightarrow> \<not> is_char_boundary s m)"
proof (induction s i rule: next_boundary.induct)
  case (1 s i)
  show ?case
  proof (cases "is_char_boundary s i")
    case False
    then have "i < length s" using 1 by (auto simp: is_char_boundary_def)
    with False have step: "next_boundary s i = next_boundary s (Suc i)" by (subst next_boundary.simps) simp
    have "m = i \<or> Suc i \<le> m" if "i \<le> m" for m using that by linarith
    with 1 False \<open>i < length s\<close> show ?thesis unfolding step by (metis Suc_leI Suc_leD not_le)
  qed (auto simp: next_boundary.simps)
qed

lemma drop_to_boundary:
  fixes limit :: nat
  assumes chars: "list_all is_char xs"
  defines "start \<equiv> next_boundary (concat xs) (length (concat xs) - limit)"
  shows "\<exists>k. drop start (concat xs) = concat (drop k xs) \<and> length (concat (drop k xs)) \<le> limit
    \<and> (\<forall>j < k. limit < length (concat (drop j xs)))"
proof -
  let ?n = "length (concat xs)"
  have first: "?n - limit \<le> start" "is_char_boundary (concat xs) start"
      "\<And>m. ?n - limit \<le> m \<Longrightarrow> m < start \<Longrightarrow> \<not> is_char_boundary (concat xs) m"
    using next_boundary_first [of "?n - limit" "concat xs"] by (auto simp: start_def)
  obtain k where k: "k \<le> length xs" "start = length (concat (take k xs))"
    using boundary_is_char_start [OF chars first(2)] by blast
  have parts: "concat xs = concat (take j xs) @ concat (drop j xs)" for j
    by (metis append_take_drop_id concat_append)
  then have sizes: "?n = length (concat (take j xs)) + length (concat (drop j xs))" for j
    by (metis length_append)
  have "limit < length (concat (drop j xs))" if "j < k" for j
  proof -
    have "concat (take k xs) = concat (take j xs) @ concat (drop j (take k xs))"
      by (metis append_take_drop_id concat_append min.absorb1 nless_le take_take that)
    moreover have "concat (drop j (take k xs)) \<noteq> []"
    proof -
      have "drop j (take k xs) = xs ! j # drop (Suc j) (take k xs)"
        using that k(1) by (simp add: Cons_nth_drop_Suc [symmetric])
      moreover have "xs ! j \<noteq> []" using chars that k(1) by (simp add: list_all_length is_char_def)
      ultimately show ?thesis by simp
    qed
    ultimately have "length (concat (take j xs)) < start" using k(2) by simp
    moreover have "is_char_boundary (concat xs) (length (concat (take j xs)))"
      using boundary_of_chars [OF chars, of j] that k(1) by simp
    ultimately have "length (concat (take j xs)) < ?n - limit" using first(3) by (meson not_le)
    then show ?thesis using sizes [of j] by linarith
  qed
  moreover have "drop start (concat xs) = concat (drop k xs)" using parts [of k] k(2) by (metis append_eq_conv_conj)
  moreover have "length (concat (drop k xs)) \<le> limit" using first(1) k(2) sizes [of k] by linarith
  ultimately show ?thesis by blast
qed

lemma sanitize_tail_chars:
  fixes bytes
  defines "shown \<equiv> filter echoed (lossy_chars (drop (length bytes - ECHO_LIMIT) bytes))"
  shows "\<exists>k. sanitize_tail bytes = concat (drop k shown) \<and> length (sanitize_tail bytes) \<le> ECHO_LIMIT
    \<and> (\<forall>j < k. ECHO_LIMIT < length (concat (drop j shown))) \<and> lossy_chars (sanitize_tail bytes) = drop k shown"
proof -
  have chars: "list_all is_char shown"
    using lossy_chars_are_chars unfolding shown_def list_all_iff by auto
  obtain k where k: "sanitize_tail bytes = concat (drop k shown)" "length (concat (drop k shown)) \<le> ECHO_LIMIT"
      "\<forall>j < k. ECHO_LIMIT < length (concat (drop j shown))"
    using drop_to_boundary [OF chars, of ECHO_LIMIT] by (auto simp: sanitize_tail_def shown_def Let_def)
  moreover have "list_all is_char (drop k shown)" using chars by (meson in_set_dropD list_all_iff)
  ultimately show ?thesis using lossy_chars_concat by auto
qed

section \<open>What the terminal shows\<close>

definition clean :: "string \<Rightarrow> bool" where
  "clean t \<longleftrightarrow> utf8_valid t \<and> (\<forall>x \<in> set (lossy_chars t). is_control x \<longrightarrow> x \<in> {[CHR 0x0A], [CHR 0x09]})"

lemma clean_append:
  assumes "clean s" "clean t"
  shows "clean (s @ t)"
proof -
  have parts: "s = concat (lossy_chars s)" "t = concat (lossy_chars t)"
    using assms from_utf8_lossy_id by (auto simp: clean_def from_utf8_lossy_def)
  let ?xs = "lossy_chars s @ lossy_chars t"
  have chars: "list_all is_char ?xs" using lossy_chars_are_chars by simp
  have whole: "s @ t = concat ?xs" using parts by simp
  show ?thesis
    unfolding clean_def whole using utf8_valid_concat [OF chars] lossy_chars_concat [OF chars] assms
    by (auto simp: clean_def)
qed

lemma clean_sanitized: "clean (sanitize_tail bytes)"
proof -
  obtain k where "lossy_chars (sanitize_tail bytes)
      = drop k (filter echoed (lossy_chars (drop (length bytes - ECHO_LIMIT) bytes)))"
      "sanitize_tail bytes = concat (drop k (filter echoed (lossy_chars (drop (length bytes - ECHO_LIMIT) bytes))))"
    using sanitize_tail_chars [of bytes] by blast
  moreover have "list_all is_char (drop k (filter echoed (lossy_chars s)))" for s
    using lossy_chars_are_chars [of s] by (auto simp: list_all_iff dest: in_set_dropD)
  ultimately show ?thesis using utf8_valid_concat by (fastforce simp: clean_def echoed_def dest: in_set_dropD)
qed

lemma clean_notes: "clean capture_note" "clean echo_note" "clean [CHR 0x0A]" "clean []"
  unfolding clean_def by code_simp+

definition echo_text :: "bool \<Rightarrow> LogTail \<Rightarrow> LogTail \<Rightarrow> string" where
  "echo_text captured_truncated out err =
     (if captured_truncated then capture_note else []) @ (if lt_truncated out \<or> lt_truncated err then echo_note else [])
     @ [CHR 0x0A] @ sanitize_tail (lt_bytes out) @ sanitize_tail (lt_bytes err)"

text \<open>From the text shown so far, an operation writes the given text or, when it fails, a prefix of it.\<close>

definition wrote :: "string \<Rightarrow> string \<Rightarrow> (string, unit) result \<times> string \<Rightarrow> bool" where
  "wrote shown txt m \<longleftrightarrow> (\<exists>rest. snd m @ rest = shown @ txt \<and> (is_ok (fst m) \<longrightarrow> rest = []))"

lemma wrote_tty_write: "wrote shown txt (tty_write env txt shown)"
  by (simp add: wrote_def tty_write_def is_ok_def) (metis append_take_drop_id)

lemma wrote_write_if: "wrote shown (if c then txt else []) (write_if env c txt shown)"
  by (simp add: wrote_tty_write write_if_def) (simp add: wrote_def)

lemma wrote_then:
  assumes "wrote shown txt m" "wrote (shown @ txt) after (k (shown @ txt))"
  shows "wrote shown (txt @ after) (and_then m id (\<lambda>_. k))"
proof (cases m)
  case (Pair r s)
  show ?thesis
  proof (cases r)
    case (Inl e)
    from assms(1) Pair obtain rest where "s @ rest = shown @ txt" by (auto simp: wrote_def)
    then have "s @ rest @ after = shown @ txt @ after" by (metis append_assoc)
    then show ?thesis using Pair Inl unfolding wrote_def by (intro exI [of _ "rest @ after"]) (simp add: and_then_def is_ok_def)
  qed (use assms Pair in \<open>auto simp: wrote_def and_then_def is_ok_def\<close>)
qed

lemma echo_wrote:
  assumes "open_tty env = Inr ()" "read_tail stdout_log = Inr out" "read_tail stderr_log = stderr"
  shows "wrote [] ((if captured then capture_note else [])
      @ (if lt_truncated out \<or> (case stderr of Inr t \<Rightarrow> lt_truncated t | Inl _ \<Rightarrow> False) then echo_note else [])
      @ [CHR 0x0A] @ sanitize_tail (lt_bytes out) @ (case stderr of Inr t \<Rightarrow> sanitize_tail (lt_bytes t) | Inl _ \<Rightarrow> []))
    (echo_tty env stdout_log stderr_log captured)"
proof -
  have last_step: "wrote shown (case stderr of Inr t \<Rightarrow> sanitize_tail (lt_bytes t) | Inl _ \<Rightarrow> [])
      (and_then (stderr, shown) id (\<lambda>t. tty_write env (sanitize_tail (lt_bytes t))))" for shown
    by (cases stderr) (simp_all add: and_then_def wrote_tty_write, simp add: wrote_def)
  show ?thesis
    unfolding echo_tty_def assms Let_def sum.case
    by (intro wrote_then wrote_write_if wrote_tty_write last_step)
qed

lemma echo_reads_stderr:
  "echo_tty env stdout_log stderr_log captured = (Inr (), shown) \<Longrightarrow> is_ok (read_tail stderr_log)"
  by (auto simp: echo_tty_def and_then_eq is_ok_def Let_def split: sum.splits)

text \<open>
  C33. Echoing a finished run writes only to a terminal that is a character device of this user, not
  writable by everybody.  What it writes is a prefix of a text that is UTF-8, has no control
  character but line feeds and tabs (so no escape sequence of the command reaches the terminal), and
  is at most 8 KiB per stream beside the notes; when it succeeds it has written the whole text: the
  notes that apply and the sanitized tails of both logs.
\<close>

theorem terminal_echo_safe:
  assumes echo: "echo_tty env stdout_log stderr_log captured = (r, shown)"
  shows "(shown \<noteq> [] \<longrightarrow> (\<exists>m. te_open env = Inr m \<and> md_kind m = CharDevice \<and> md_uid m = te_uid env
        \<and> md_mode m AND 2 = 0 \<and> te_is_terminal env))
    \<and> (\<exists>full rest. full = shown @ rest \<and> clean full
        \<and> length full \<le> length capture_note + length echo_note + 1 + 2 * ECHO_LIMIT)
    \<and> (r = Inr () \<longrightarrow> (\<exists>out err. read_tail stdout_log = Inr out \<and> read_tail stderr_log = Inr err
        \<and> shown = echo_text captured out err))"
proof (cases "open_tty env = Inr () \<and> (\<exists>out. read_tail stdout_log = Inr out)")
  case True
  then obtain out where ok: "open_tty env = Inr ()" "read_tail stdout_log = Inr out" by blast
  let ?err = "case read_tail stderr_log of Inr t \<Rightarrow> sanitize_tail (lt_bytes t) | Inl _ \<Rightarrow> []"
  let ?full = "(if captured then capture_note else [])
      @ (if lt_truncated out \<or> (case read_tail stderr_log of Inr t \<Rightarrow> lt_truncated t | Inl _ \<Rightarrow> False) then echo_note else [])
      @ [CHR 0x0A] @ sanitize_tail (lt_bytes out) @ ?err"
  obtain rest where rest: "shown @ rest = ?full" "is_ok r \<longrightarrow> rest = []"
    using echo_wrote [OF ok refl, where stderr_log = stderr_log and captured = captured] echo by (auto simp: wrote_def)
  have terminal: "\<exists>m. te_open env = Inr m \<and> md_kind m = CharDevice \<and> md_uid m = te_uid env
        \<and> md_mode m AND 2 = 0 \<and> te_is_terminal env"
    using ok(1) by (auto simp: open_tty_def tty_attributes_allowed_def result_simps split: if_splits)
  have "clean ?err" using clean_sanitized clean_notes(4) by (simp split: sum.splits)
  then have whole: "clean ?full" using clean_sanitized clean_notes by (intro clean_append) (simp_all split: if_splits)
  have tail: "length (sanitize_tail s) \<le> ECHO_LIMIT" for s using sanitize_tail_chars [of s] by blast
  have "length ?err \<le> ECHO_LIMIT" using tail by (simp split: sum.splits)
  moreover have optional: "length (if c then msg else ([] :: string)) \<le> length msg" for c msg by simp
  ultimately have "length ?full \<le> length capture_note + length echo_note + 1 + 2 * ECHO_LIMIT"
    using tail [of "lt_bytes out"] optional [of captured capture_note]
      optional [of "lt_truncated out \<or> (case read_tail stderr_log of Inr t \<Rightarrow> lt_truncated t | Inl _ \<Rightarrow> False)" echo_note]
    unfolding length_append by simp
  with whole rest(1) have "\<exists>full rest. full = shown @ rest \<and> clean full
        \<and> length full \<le> length capture_note + length echo_note + 1 + 2 * ECHO_LIMIT"
    by metis
  moreover have "\<exists>out err. read_tail stdout_log = Inr out \<and> read_tail stderr_log = Inr err
        \<and> shown = echo_text captured out err" if "r = Inr ()"
  proof -
    have "shown = ?full" using rest that by (simp add: is_ok_def)
    moreover have "is_ok (read_tail stderr_log)" using echo that by (simp add: echo_reads_stderr)
    ultimately show ?thesis using ok(2) by (auto simp: echo_text_def is_ok_def split: sum.splits)
  qed
  ultimately show ?thesis using terminal by blast
next
  case False
  then have "shown = [] \<and> r \<noteq> Inr ()"
    using echo by (auto simp: echo_tty_def split: sum.splits)
  then show ?thesis using clean_notes(4) by force
qed

definition sample_tty :: tty_env where
  "sample_tty = \<lparr> te_open = Inr \<lparr> md_kind = CharDevice, md_uid = 1000, md_mode = 0x2190, md_ino = 5 \<rparr>,
     te_is_terminal = True, te_uid = 1000, te_room = 100, te_full = ''would block'' \<rparr>"

definition sample_log :: "(string, log_file) result" where
  "sample_log = Inr \<lparr> lf_kind = RegularFile, lf_len = 6, lf_contents = Inr [CHR ''a'', CHR 0x1B, CHR ''b'', CHR 0xC2, CHR 0x9B, CHR 0x0A] \<rparr>"

lemma sample_tail: "sanitize_tail [CHR ''a'', CHR 0x1B, CHR ''b'', CHR 0xC2, CHR 0x9B, CHR 0x0A] = ''ab'' @ [CHR 0x0A]"
proof -
  have "lossy_chars [CHR ''a'', CHR 0x1B, CHR ''b'', CHR 0xC2, CHR 0x9B, CHR 0x0A]
      = [''a'', [CHR 0x1B], ''b'', [CHR 0xC2, CHR 0x9B], [CHR 0x0A]]"
    using lossy_chars_concat [of "[''a'', [CHR 0x1B], ''b'', [CHR 0xC2, CHR 0x9B], [CHR 0x0A]]"]
    by (simp add: is_char_def char_head_def byte_def is_cont_def)
  then show ?thesis
    by (simp add: sanitize_tail_def ECHO_LIMIT_def echoed_def is_control_def byte_def next_boundary_start)
qed

lemma sample_echo:
  "echo_tty sample_tty sample_log sample_log False
   = (Inr (), [CHR 0x0A] @ ''ab'' @ [CHR 0x0A] @ ''ab'' @ [CHR 0x0A])"
  by (simp add: echo_tty_def open_tty_def sample_tty_def tty_attributes_allowed_def read_tail_def sample_log_def
      ECHO_LIMIT_def and_then_def write_if_def tty_write_def sample_tail)

theorem terminal_echo_safe_witness:
  "\<exists>out err. read_tail sample_log = Inr out \<and> read_tail sample_log = Inr err
     \<and> [CHR 0x0A] @ ''ab'' @ [CHR 0x0A] @ ''ab'' @ [CHR 0x0A] = echo_text False out err"
  using terminal_echo_safe [OF sample_echo] by simp

end
