(* ===== verification/Human.thy ===== *)
theory Human
  imports History Service Submit_Command
begin

text \<open>
  What the commands print: the output models (\<open>src/cli/view.rs\<close>) and the human-readable text
  (\<open>src/cli/human.rs\<close>).  The text of a timestamp in the local time zone is the parameter
  \<open>local_timestamp\<close> (jiff).
\<close>

section \<open>Output models\<close>

record SubmissionView =
  sv_job_id :: string
  sv_state :: JobState
  sv_schedule :: Schedule
  sv_next_due_utc :: UtcTimestamp
  sv_runtime_tier :: RuntimeTier
  sv_supervised :: bool
  sv_dry_run :: bool

fun is_supervised :: "SubmissionOutcome \<Rightarrow> bool" where
  "is_supervised (Supervised _) = True"
| "is_supervised _ = False"

fun is_dry_run :: "SubmissionOutcome \<Rightarrow> bool" where
  "is_dry_run (DryRun _) = True"
| "is_dry_run _ = False"

definition SubmissionView_from_outcome :: "SubmissionOutcome \<Rightarrow> SubmissionView" where
  "SubmissionView_from_outcome outcome =
     (let job = SubmissionOutcome_job outcome
      in \<lparr> sv_job_id = job_text (job_id job), sv_state = job_state job, sv_schedule = job_schedule job,
           sv_next_due_utc = job_next_due job, sv_runtime_tier = job_tier job,
           sv_supervised = is_supervised outcome, sv_dry_run = is_dry_run outcome \<rparr>)"

record ExecutionView =
  xv_mode :: ExecutionMode
  xv_argv :: "string list"
  xv_working_directory :: string
  xv_environment_keys :: "string list"
  xv_shell_path :: "string option"

definition ExecutionView_from_job :: "Job \<Rightarrow> ExecutionView" where
  "ExecutionView_from_job job =
     (let execution = job_execution job
      in \<lparr> xv_mode = exec_mode execution, xv_argv = argv execution,
           xv_working_directory = from_utf8_lossy (working_directory execution),
           xv_environment_keys = map fst (environment execution),
           xv_shell_path = map_option from_utf8_lossy (shell_path execution) \<rparr>)"

record JobView =
  jv_job_id :: string
  jv_name :: "string option"
  jv_description :: "string option"
  jv_schedule :: Schedule
  jv_next_due_utc :: UtcTimestamp
  jv_remaining_seconds :: int
  jv_state :: JobState
  jv_runtime_tier :: RuntimeTier
  jv_execution :: ExecutionView
  jv_active_run_id :: "string option"

text \<open>Division of \<open>i128\<close> rounds toward zero; \<open>i64::try_from\<close> with its ends as the fallback.\<close>

definition whole_seconds :: "int \<Rightarrow> int" where
  "whole_seconds nanos = sgn nanos * (\<bar>nanos\<bar> div 1000000000)"

definition saturate_i64 :: "int \<Rightarrow> int" where
  "saturate_i64 n = (if n < - (2 ^ 63) then - (2 ^ 63) else if 2 ^ 63 - 1 < n then 2 ^ 63 - 1 else n)"

definition JobView_from_job :: "Job \<Rightarrow> UtcTimestamp \<Rightarrow> JobView" where
  "JobView_from_job job now =
     \<lparr> jv_job_id = job_text (job_id job), jv_name = map_option name_str (job_name job),
       jv_description = map_option description_str (job_description job), jv_schedule = job_schedule job,
       jv_next_due_utc = job_next_due job, jv_remaining_seconds = saturate_i64 (whole_seconds (job_next_due job - now)),
       jv_state = job_state job, jv_runtime_tier = job_tier job, jv_execution = ExecutionView_from_job job,
       jv_active_run_id = None \<rparr>"

record RunView =
  rv_run_id :: string
  rv_job_id :: string
  rv_sequence :: Sequence
  rv_scheduled_for_utc :: UtcTimestamp
  rv_started_at_utc :: "UtcTimestamp option"
  rv_finished_at_utc :: "UtcTimestamp option"
  rv_state :: RunState
  rv_outcome :: "RunOutcome option"
  rv_stdout_path :: "string option"
  rv_stderr_path :: "string option"

definition RunView_from_run :: "Run \<Rightarrow> RunView" where
  "RunView_from_run run =
     \<lparr> rv_run_id = run_text (run_id run), rv_job_id = job_text (run_job_id run), rv_sequence = run_sequence run,
       rv_scheduled_for_utc = run_scheduled_for run, rv_started_at_utc = run_started_at run,
       rv_finished_at_utc = run_finished_at run, rv_state = run_state run, rv_outcome = run_outcome run,
       rv_stdout_path = run_stdout_path run, rv_stderr_path = run_stderr_path run \<rparr>"

record ProcessView =
  pv_job_id :: string
  pv_run_id :: string
  pv_role :: string
  pv_pid :: u32
  pv_process_group_id :: int
  pv_state :: RunState

record RunOutputView =
  ov_run_id :: string
  ov_job_id :: string
  ov_state :: RunState
  ov_outcome :: "RunOutcome option"
  ov_stdout_truncated :: bool
  ov_stderr_truncated :: bool
  ov_stdout :: string
  ov_stderr :: string

definition RunOutputView_from_output :: "RunOutput \<Rightarrow> RunOutputView" where
  "RunOutputView_from_output out =
     \<lparr> ov_run_id = run_text (ro_run_id out), ov_job_id = job_text (ro_job_id out), ov_state = ro_state out,
       ov_outcome = ro_outcome out, ov_stdout_truncated = stream_truncated (ro_stdout out),
       ov_stderr_truncated = stream_truncated (ro_stderr out),
       ov_stdout = from_utf8_lossy (bytes_text (stream_content (ro_stdout out))),
       ov_stderr = from_utf8_lossy (bytes_text (stream_content (ro_stderr out))) \<rparr>"

section \<open>Human-readable text\<close>

definition HumanRenderer_new :: "ColorArg \<Rightarrow> bool \<Rightarrow> bool" where
  "HumanRenderer_new color stdout_is_terminal =
     (case color of ColorArg.Always \<Rightarrow> True | ColorArg.Never \<Rightarrow> False | ColorArg.Auto \<Rightarrow> stdout_is_terminal)"

definition LF :: string where
  "LF = [CHR 0x0A]"

definition TAB :: string where
  "TAB = [CHR 0x09]"

definition show_int :: "int \<Rightarrow> string" where
  "show_int n = (if n < 0 then ''-'' @ show_nat (nat (- n)) else show_nat (nat n))"

definition colored :: "nat \<Rightarrow> string \<Rightarrow> string" where
  "colored color txt = [CHR 0x1B] @ ''['' @ show_nat color @ ''m'' @ txt @ [CHR 0x1B] @ ''[0m''"

fun JobState_debug :: "JobState \<Rightarrow> string" where
  "JobState_debug JobState.Scheduled = ''Scheduled''"
| "JobState_debug JobState.Waiting = ''Waiting''"
| "JobState_debug JobState.Starting = ''Starting''"
| "JobState_debug JobState.Running = ''Running''"
| "JobState_debug JobState.CancelRequested = ''CancelRequested''"
| "JobState_debug JobState.Succeeded = ''Succeeded''"
| "JobState_debug JobState.Failed = ''Failed''"
| "JobState_debug JobState.Cancelled = ''Cancelled''"
| "JobState_debug JobState.Interrupted = ''Interrupted''"
| "JobState_debug JobState.Missed = ''Missed''"

fun RunState_debug :: "RunState \<Rightarrow> string" where
  "RunState_debug RunState.Starting = ''Starting''"
| "RunState_debug RunState.Running = ''Running''"
| "RunState_debug RunState.CancelRequested = ''CancelRequested''"
| "RunState_debug RunState.Succeeded = ''Succeeded''"
| "RunState_debug RunState.Failed = ''Failed''"
| "RunState_debug RunState.Cancelled = ''Cancelled''"
| "RunState_debug RunState.Interrupted = ''Interrupted''"

fun RuntimeTier_debug :: "RuntimeTier \<Rightarrow> string" where
  "RuntimeTier_debug Session = ''Session''"
| "RuntimeTier_debug Durable = ''Durable''"

fun state_color :: "JobState \<Rightarrow> nat" where
  "state_color JobState.Succeeded = 32"
| "state_color JobState.Failed = 31"
| "state_color JobState.Interrupted = 31"
| "state_color JobState.Missed = 31"
| "state_color JobState.Cancelled = 33"
| "state_color _ = 36"

definition state_text :: "bool \<Rightarrow> JobState \<Rightarrow> string" where
  "state_text color state = (if color then colored (state_color state) (JobState_debug state) else JobState_debug state)"

definition remaining_text :: "int \<Rightarrow> string" where
  "remaining_text secs =
     (if secs \<le> 0 then ''due''
      else if secs < 60 then show_int secs @ ''s''
      else if secs < 3600 then show_int (secs div 60) @ ''m '' @ show_int (secs mod 60) @ ''s''
      else show_int (secs div 3600) @ ''h '' @ show_int (secs mod 3600 div 60) @ ''m'')"

definition signal_name :: "int \<Rightarrow> string option" where
  "signal_name signal =
     (if signal = 1 then Some ''SIGHUP'' else if signal = 2 then Some ''SIGINT'' else if signal = 3 then Some ''SIGQUIT''
      else if signal = 9 then Some ''SIGKILL'' else if signal = 15 then Some ''SIGTERM'' else None)"

fun format_outcome :: "RunOutcome \<Rightarrow> string" where
  "format_outcome (Exit code) = ''exit '' @ show_int code"
| "format_outcome (RunOutcome.Signal signal) =
     (case signal_name signal of
        None \<Rightarrow> ''signal '' @ show_int signal
      | Some name \<Rightarrow> ''signal '' @ show_int signal @ '' ('' @ name @ '')'')"
| "format_outcome (Failure reason) = ''failure: '' @ reason"
| "format_outcome (RunOutcome.Interrupted reason) = ''interrupted: '' @ reason"
| "format_outcome (RunOutcome.Cancelled reason) = ''cancelled: '' @ reason"

fun schedule_text :: "Schedule \<Rightarrow> string" where
  "schedule_text (OneShotRelative d _) = ''after '' @ DurationSeconds_to_string d"
| "schedule_text (OneShotAbsolute typed zone _ _ _) = typed @ '' ('' @ zone @ '')''"
| "schedule_text (RecurringInterval interval _) = ''every '' @ DurationSeconds_to_string interval"

definition plain_byte :: "char \<Rightarrow> bool" where
  "plain_byte c \<longleftrightarrow> is_ascii_alphanumeric c \<or> c \<in> set ''-_./''"

definition display_argument :: "string \<Rightarrow> string" where
  "display_argument a =
     (if list_all plain_byte a then a
      else [CHR 0x27] @ replace_char (CHR 0x27) [CHR 0x27, CHR 0x5C, CHR 0x27, CHR 0x27] a @ [CHR 0x27])"

definition display_argv :: "string list \<Rightarrow> string" where
  "display_argv args = join_with '' '' (map display_argument args)"

definition or_dash :: "string option \<Rightarrow> string" where
  "or_dash x = (case x of None \<Rightarrow> ''-'' | Some t \<Rightarrow> t)"

definition submission_text :: "(UtcTimestamp \<Rightarrow> string) \<Rightarrow> bool \<Rightarrow> SubmissionView \<Rightarrow> string" where
  "submission_text local_timestamp color view =
     (if sv_dry_run view then ''Dry run'' else ''Scheduled'') @ '' '' @ sv_job_id view @ '' for ''
     @ local_timestamp (sv_next_due_utc view) @ '' ('' @ state_text color (sv_state view) @ '')''"

definition job_line :: "(UtcTimestamp \<Rightarrow> string) \<Rightarrow> bool \<Rightarrow> JobView \<Rightarrow> string" where
  "job_line local_timestamp color job =
     join_with TAB [jv_job_id job, state_text color (jv_state job), local_timestamp (jv_next_due_utc job),
       remaining_text (jv_remaining_seconds job), or_dash (jv_name job)]"

definition jobs_text :: "(UtcTimestamp \<Rightarrow> string) \<Rightarrow> bool \<Rightarrow> JobView list \<Rightarrow> string" where
  "jobs_text local_timestamp color jobs =
     (if jobs = [] then ''No jobs.''
      else join_with LF (join_with TAB [''JOB'', ''STATE'', ''DUE'', ''REMAINING'', ''NAME''] # map (job_line local_timestamp color) jobs))"

definition job_with_outcome_text :: "(UtcTimestamp \<Rightarrow> string) \<Rightarrow> bool \<Rightarrow> JobView \<Rightarrow> RunOutcome option \<Rightarrow> string" where
  "job_with_outcome_text local_timestamp color job last_outcome =
     join_with LF [''Job: '' @ jv_job_id job, ''Name: '' @ or_dash (jv_name job), ''Description: '' @ or_dash (jv_description job),
       ''State: '' @ state_text color (jv_state job), ''Due: '' @ local_timestamp (jv_next_due_utc job),
       ''Remaining: '' @ remaining_text (jv_remaining_seconds job), ''Schedule: '' @ schedule_text (jv_schedule job),
       ''Runtime: '' @ RuntimeTier_debug (jv_runtime_tier job), ''Last outcome: '' @ or_dash (map_option format_outcome last_outcome),
       ''Command: '' @ display_argv (xv_argv (jv_execution job)),
       ''Working directory: '' @ xv_working_directory (jv_execution job),
       ''Environment keys: '' @ (if xv_environment_keys (jv_execution job) = [] then ''-''
          else join_with '', '' (xv_environment_keys (jv_execution job)))]"

definition run_line :: "(UtcTimestamp \<Rightarrow> string) \<Rightarrow> RunView \<Rightarrow> string" where
  "run_line local_timestamp run =
     join_with TAB [rv_run_id run, rv_job_id run, RunState_debug (rv_state run), local_timestamp (rv_scheduled_for_utc run),
       or_dash (map_option local_timestamp (rv_finished_at_utc run))]"

definition runs_text :: "(UtcTimestamp \<Rightarrow> string) \<Rightarrow> RunView list \<Rightarrow> string" where
  "runs_text local_timestamp runs =
     (if runs = [] then ''No runs.''
      else join_with LF (join_with TAB [''RUN'', ''JOB'', ''STATE'', ''SCHEDULED'', ''FINISHED''] # map (run_line local_timestamp) runs))"

definition process_line :: "ProcessView \<Rightarrow> string" where
  "process_line p =
     join_with TAB [pv_job_id p, pv_run_id p, pv_role p, show_nat (unat (pv_pid p)), show_int (pv_process_group_id p),
       RunState_debug (pv_state p)]"

definition processes_text :: "ProcessView list \<Rightarrow> string" where
  "processes_text processes =
     (if processes = [] then ''No live ATX processes.''
      else join_with LF (join_with TAB [''JOB'', ''RUN'', ''ROLE'', ''PID'', ''PGID'', ''STATE''] # map process_line processes))"

definition stream_sections :: "string \<Rightarrow> RunStream \<Rightarrow> string list" where
  "stream_sections label stream =
     [''--- '' @ label @ (if stream_truncated stream then '' (truncated at capture cap)'' else []) @ '' ---'',
      from_utf8_lossy (bytes_text (stream_content stream))]"

definition run_output_text :: "RunOutput \<Rightarrow> string" where
  "run_output_text out =
     join_with LF ([join_with LF [''Run: '' @ run_text (ro_run_id out), ''Job: '' @ job_text (ro_job_id out),
         ''State: '' @ RunState_debug (ro_state out), ''Outcome: '' @ or_dash (map_option format_outcome (ro_outcome out))]]
       @ stream_sections ''stdout'' (ro_stdout out) @ stream_sections ''stderr'' (ro_stderr out))"

definition bool_text :: "bool \<Rightarrow> string" where
  "bool_text b = (if b then ''true'' else ''false'')"

definition service_status_text :: "ServiceStatus \<Rightarrow> string" where
  "service_status_text status =
     (let files = join_with '', '' (map from_utf8_lossy (st_files status))
      in join_with LF [''Manager: '' @ st_manager status, ''Installed: '' @ bool_text (st_installed status),
           ''Running: '' @ bool_text (st_running status), ''Files: '' @ (if files = [] then ''-'' else files),
           ''Guarantee: '' @ st_guarantee status, ''Status: '' @ st_detail status])"

definition service_change_text :: "ServiceChange \<Rightarrow> string" where
  "service_change_text change =
     (if ch_changed change then ''Service changed.'' else ''No change needed.'') @ LF @ service_status_text (ch_status change)"

section \<open>The shown command, read by a shell\<close>

text \<open>
  A cautious reading of a command line by the quoting rules of a POSIX shell (XCU 2.2): words are
  separated by spaces, between single quotes every character stands for itself, a backslash takes the
  next character unless that is a line feed.  Every other character that is special to a shell, or may
  be (operators, expansions, globs, double quotes, comments, assignments, line breaks, brace and
  history expansion), is refused outside quotes, and so is every byte that is not printable ASCII: a
  line that is read is taken literally, word by word, by any such shell.  The flag says whether the
  reader is inside quotes.
\<close>

definition sh_special :: "char \<Rightarrow> bool" where
  "sh_special c \<longleftrightarrow>
     byte c \<le> 32 \<or> 127 \<le> byte c
     \<or> c \<in> set ''|&;<>()$*?[]#~=%!{},^'' \<union> {CHR 0x60, CHR 0x22}"

fun sh_word :: "bool \<Rightarrow> string \<Rightarrow> (string \<times> string) option" where
  "sh_word True [] = None"
| "sh_word False [] = Some ([], [])"
| "sh_word True (c # s) = (if c = CHR 0x27 then sh_word False s else map_option (apfst (Cons c)) (sh_word True s))"
| "sh_word False (c # s) =
     (if c = CHR '' '' then Some ([], c # s)
      else if c = CHR 0x27 then sh_word True s
      else if c = CHR 0x5C
      then (case s of [] \<Rightarrow> None | d # s' \<Rightarrow> if d = CHR 0x0A then None else map_option (apfst (Cons d)) (sh_word False s'))
      else if sh_special c then None
      else map_option (apfst (Cons c)) (sh_word False s))"

lemma sh_word_shorter: "sh_word q s = Some (word, rest) \<Longrightarrow> length rest \<le> length s"
  by (induction q s arbitrary: word rule: sh_word.induct) (fastforce split: if_splits list.splits)+

lemma sh_word_consumes: "sh_word False (c # s) = Some (word, rest) \<Longrightarrow> c \<noteq> CHR '' '' \<Longrightarrow> length rest < length (c # s)"
  by (auto split: if_splits list.splits dest!: sh_word_shorter)

function shell_words :: "string \<Rightarrow> string list option" where
  "shell_words [] = Some []"
| "shell_words (c # s) =
     (if c = CHR '' '' then shell_words s
      else (case sh_word False (c # s) of None \<Rightarrow> None | Some (word, rest) \<Rightarrow> map_option (Cons word) (shell_words rest)))"
  by pat_completeness auto
termination
  by (relation "measure length") (auto dest: sh_word_consumes simp del: sh_word.simps)

definition word_end :: "string \<Rightarrow> bool" where
  "word_end rest \<longleftrightarrow> rest = [] \<or> hd rest = CHR '' ''"

lemma sh_word_end: "word_end rest \<Longrightarrow> sh_word False rest = Some ([], rest)"
  by (cases rest) (auto simp: word_end_def)

lemma plain_not_special: "plain_byte c \<Longrightarrow> \<not> sh_special c \<and> c \<noteq> CHR 0x27 \<and> c \<noteq> CHR 0x5C \<and> c \<noteq> CHR '' ''"
  by (auto simp: plain_byte_def sh_special_def is_ascii_alphanumeric_def is_ascii_digit_def is_ascii_alphabetic_def byte_def)

lemma sh_word_plain: "list_all plain_byte a \<Longrightarrow> word_end rest \<Longrightarrow> sh_word False (a @ rest) = Some (a, rest)"
  by (induction a) (simp_all add: sh_word_end plain_not_special)

lemma sh_word_quoted:
  assumes "word_end rest"
  shows "sh_word True (replace_char (CHR 0x27) [CHR 0x27, CHR 0x5C, CHR 0x27, CHR 0x27] a @ CHR 0x27 # rest) = Some (a, rest)"
  by (induction a) (simp_all add: replace_char_def sh_word_end assms)

lemma sh_word_display: "word_end rest \<Longrightarrow> sh_word False (display_argument a @ rest) = Some (a, rest)"
  by (simp add: display_argument_def sh_word_plain sh_word_quoted)

lemma display_argument_head: "a \<noteq> [] \<Longrightarrow> \<exists>c t. display_argument a = c # t \<and> c \<noteq> CHR '' ''"
  by (cases a) (auto simp: display_argument_def plain_byte_def is_ascii_alphanumeric_def is_ascii_digit_def is_ascii_alphabetic_def byte_def)

lemma shell_words_display:
  assumes "word_end rest" "a \<noteq> []"
  shows "shell_words (display_argument a @ rest) = map_option (Cons a) (shell_words rest)"
proof -
  obtain c t where "display_argument a = c # t" "c \<noteq> CHR '' ''" using display_argument_head [OF assms(2)] by blast
  with sh_word_display [OF assms(1), of a] show ?thesis by simp
qed

text \<open>
  C40. The command that \<open>atx show\<close> prints reads back: it holds no unquoted character that a shell
  might not take literally, and its words, with the quotes removed, are the stored arguments, whatever
  bytes they hold, except that empty arguments are lost (\<open>display_argv\<close> prints nothing for them).
\<close>

theorem shown_command_reads_back:
  "shell_words (display_argv args) = Some (filter (\<lambda>a. a \<noteq> []) args)"
proof (induction args)
  case (Cons a args)
  show ?case
  proof (cases args)
    case Nil
    show ?thesis
    proof (cases "a = []")
      case False
      then show ?thesis using shell_words_display [of "[]" a] Nil by (simp add: display_argv_def word_end_def)
    qed (simp add: Nil display_argv_def display_argument_def)
  next
    case (Cons b more)
    then have line: "display_argv (a # args) = display_argument a @ CHR '' '' # display_argv args"
      by (simp add: display_argv_def)
    show ?thesis
    proof (cases "a = []")
      case True
      then show ?thesis using Cons.IH line by (simp add: display_argument_def)
    next
      case False
      then show ?thesis using shell_words_display [of "CHR '' '' # display_argv args" a] Cons.IH line
        by (simp add: word_end_def)
    qed
  qed
qed (simp add: display_argv_def)

section \<open>Rows of the job table\<close>

abbreviation (input) line_breaks :: "string \<Rightarrow> nat" where
  "line_breaks s \<equiv> count_list s (CHR 0x0A)"

lemma split_lines_nonempty: "split_lines s \<noteq> []"
  by (induction s) (auto split: list.splits)

lemma length_split_lines: "length (split_lines s) = Suc (line_breaks s)"
proof (induction s)
  case (Cons c s)
  then show ?case using split_lines_nonempty [of s] by (auto split: list.splits)
qed simp

lemma line_breaks_join: "line_breaks (join_with sep ls) = sum_list (map line_breaks ls) + line_breaks sep * (length ls - 1)"
  by (induction sep ls rule: join_with.induct) simp_all

lemma no_line_break: "CHR 0x0A \<notin> set s \<Longrightarrow> line_breaks s = 0"
  by (simp add: count_notin)

lemma show_int_line: "CHR 0x0A \<notin> set (show_int n)"
  using show_nat_digits [of "CHR 0x0A"] by (auto simp: show_int_def is_ascii_digit_def byte_def)

lemma remaining_text_line: "CHR 0x0A \<notin> set (remaining_text n)"
  using show_int_line by (simp add: remaining_text_def)

lemma state_text_line: "CHR 0x0A \<notin> set (state_text color s)"
proof -
  have "CHR 0x0A \<notin> set (show_nat n)" for n
    using show_nat_digits [of "CHR 0x0A" n] by (auto simp: is_ascii_digit_def byte_def)
  then show ?thesis by (cases s) (simp_all add: state_text_def colored_def)
qed

lemma job_text_line: "CHR 0x0A \<notin> set (job_text i)"
proof (cases i)
  case (JobId u)
  have "set (job_text i) \<subseteq> set digit_alphabet"
    by (auto simp: JobId job_text_def JobId_to_string_def encode_eq glyph_def length_alphabet dest!: digits32_less)
  moreover have "CHR 0x0A \<notin> set digit_alphabet" by (simp add: digit_alphabet_def)
  ultimately show ?thesis by blast
qed

text \<open>
  The table of \<open>atx list\<close> has one line per job after the heading, as long as the names hold no
  line break: every line break in a name adds a line that looks like a row, and names are not
  checked for them (\<open>validate_text\<close> refuses only NUL).
\<close>

theorem job_table_rows:
  assumes local: "\<And>t. CHR 0x0A \<notin> set (local_timestamp t)" and some: "jobs \<noteq> []"
  shows "length (split_lines (jobs_text local_timestamp color (map (\<lambda>job. JobView_from_job job now) jobs)))
    = 1 + sum_list (map (\<lambda>job. 1 + line_breaks (or_dash (map_option name_str (job_name job)))) jobs)"
proof -
  have row: "line_breaks (job_line local_timestamp color (JobView_from_job job now))
      = line_breaks (or_dash (map_option name_str (job_name job)))" for job
    by (simp add: job_line_def JobView_from_job_def TAB_def no_line_break [OF job_text_line] no_line_break [OF state_text_line]
        no_line_break [OF remaining_text_line] no_line_break [OF local])
  have "sum_list (map (\<lambda>job. 1 + f job) jobs) = length jobs + sum_list (map f jobs)" for f :: "Job \<Rightarrow> nat"
    by (induction jobs) simp_all
  then show ?thesis
    using some by (simp add: jobs_text_def length_split_lines line_breaks_join LF_def TAB_def row comp_def)
qed

theorem job_table_rows_witness:
  "length (split_lines (jobs_text (\<lambda>_. ''now'') False
     [JobView_from_job (sample_job\<lparr> job_name := Some (Name (''backup'' @ [CHR 0x0A] @ ''another row'')) \<rparr>) 0])) = 3"
  using job_table_rows [of "\<lambda>_. ''now''" "[sample_job\<lparr> job_name := Some (Name (''backup'' @ [CHR 0x0A] @ ''another row'')) \<rparr>]" False 0]
  by (simp add: or_dash_def)

end
