(* ===== verification/Doctor.thy ===== *)
theory Doctor
  imports Human Runtime_Guard
begin

text \<open>
  The doctor: its report (\<open>src/application/doctor.rs\<close>), the checks that fill it and its exit code
  (\<open>build_doctor_report\<close> to \<open>doctor_exit\<close> of \<open>src/cli/dispatch.rs\<close>), the construction of the native
  service manager, and the errors of a command (\<open>CliError\<close> of \<open>src/cli/dispatch.rs\<close>,
  \<open>src/cli/exit.rs\<close>).
\<close>

section \<open>Errors of a command\<close>

record command_error =
  ce_exit :: nat
  ce_code :: string
  ce_message :: string

definition cli_usage :: "string \<Rightarrow> command_error" where
  "cli_usage message = \<lparr> ce_exit = 2, ce_code = ''INVALID_ARGUMENT'', ce_message = message \<rparr>"

definition cli_capability :: "string \<Rightarrow> command_error" where
  "cli_capability message = \<lparr> ce_exit = 5, ce_code = ''CAPABILITY_UNAVAILABLE'', ce_message = message \<rparr>"

definition cli_not_found :: "string \<Rightarrow> command_error" where
  "cli_not_found message = \<lparr> ce_exit = 3, ce_code = ''JOB_NOT_FOUND'', ce_message = message \<rparr>"

definition cli_conflict :: "string \<Rightarrow> command_error" where
  "cli_conflict message = \<lparr> ce_exit = 4, ce_code = ''STATE_CONFLICT'', ce_message = message \<rparr>"

definition cli_storage :: "string \<Rightarrow> command_error" where
  "cli_storage message = \<lparr> ce_exit = 10, ce_code = ''STORAGE_ERROR'', ce_message = message \<rparr>"

definition cli_permission :: "string \<Rightarrow> command_error" where
  "cli_permission message = \<lparr> ce_exit = 12, ce_code = ''PERMISSION_ERROR'', ce_message = message \<rparr>"

definition cli_supervision :: "string \<Rightarrow> command_error" where
  "cli_supervision message = \<lparr> ce_exit = 11, ce_code = ''SUPERVISION_ERROR'', ce_message = message \<rparr>"

definition cli_internal :: "string \<Rightarrow> command_error" where
  "cli_internal message = \<lparr> ce_exit = 70, ce_code = ''INTERNAL_ERROR'', ce_message = message \<rparr>"

section \<open>The report\<close>

datatype DiagnosticStatus = Pass | Warning | Fail

record DiagnosticCheck =
  dc_name :: string
  dc_status :: DiagnosticStatus
  dc_message :: string
  dc_remediation :: "string option"

record 'j DoctorReport =
  dr_healthy :: bool
  dr_checks :: "DiagnosticCheck list"
  dr_tzdb_version :: string
  dr_schema_version :: "u32 option"
  dr_durable_available :: bool
  dr_config :: 'j

type_synonym DoctorReportBuilder = "DiagnosticCheck list"

definition push :: "DoctorReportBuilder \<Rightarrow> string \<Rightarrow> DiagnosticStatus \<Rightarrow> string \<Rightarrow> string option \<Rightarrow> DoctorReportBuilder" where
  "push checks name status message remediation =
     checks @ [\<lparr> dc_name = name, dc_status = status, dc_message = message, dc_remediation = remediation \<rparr>]"

definition finish :: "DoctorReportBuilder \<Rightarrow> string \<Rightarrow> u32 option \<Rightarrow> bool \<Rightarrow> 'j \<Rightarrow> 'j DoctorReport" where
  "finish checks tzdb_version schema_version durable_available config =
     \<lparr> dr_healthy = (\<not> list_ex (\<lambda>c. dc_status c = Fail) checks), dr_checks = checks, dr_tzdb_version = tzdb_version,
       dr_schema_version = schema_version, dr_durable_available = durable_available, dr_config = config \<rparr>"

definition doctor_exit :: "'j DoctorReport \<Rightarrow> nat" where
  "doctor_exit report =
     (if dr_healthy report then 0
      else if list_ex (\<lambda>c. dc_status c = Fail \<and> dc_name c = ''SQLite'') (dr_checks report) then 10
      else if list_ex (\<lambda>c. dc_status c = Fail \<and> dc_name c = ''supervisor'') (dr_checks report) then 11
      else 12)"

section \<open>Its checks\<close>

definition check_private_directory ::
  "(string \<Rightarrow> bool) \<Rightarrow> file_tree \<Rightarrow> DoctorReportBuilder \<Rightarrow> string \<Rightarrow> string \<Rightarrow> u32 \<Rightarrow> DoctorReportBuilder" where
  "check_private_directory exists fs builder name path uid =
     (if \<not> exists path
      then push builder name Warning (from_utf8_lossy path @ '' does not exist yet'') (Some ''It will be created on the first saved job.'')
      else (case validate_private_dir_for_uid fs path uid of
          Inr _ \<Rightarrow> push builder name Pass (from_utf8_lossy path @ '' is private and owned by this user'') None
        | Inl e \<Rightarrow> push builder name Fail (PathError_text e)
            (Some (''Fix ownership and mode 0700 on '' @ from_utf8_lossy path @ ''.''))))"

definition check_database :: "bool \<Rightarrow> (string, u32) result \<Rightarrow> DoctorReportBuilder \<Rightarrow> u32 option \<times> DoctorReportBuilder" where
  "check_database exists schema_version builder =
     (if \<not> exists then (None, push builder ''SQLite'' Warning ''state database does not exist yet'' None)
      else (case schema_version of
          Inr version \<Rightarrow> (Some version, push builder ''SQLite'' Pass
            (''database schema '' @ show_nat (unat version) @ '' is readable and writable'') None)
        | Inl e \<Rightarrow> (None, push builder ''SQLite'' Fail e (Some ''Keep the database for diagnosis; do not delete it.''))))"

definition entries_secure :: "metadata \<Rightarrow> metadata \<Rightarrow> u32 \<Rightarrow> bool" where
  "entries_secure lock sock uid \<longleftrightarrow>
     md_kind lock = RegularFile \<and> md_uid lock = uid \<and> permissions lock = 0x180
     \<and> md_kind sock = SocketFile \<and> md_uid sock = uid \<and> permissions sock = 0x180"

definition supervisor_status :: "guard_context \<Rightarrow> u8 list \<Rightarrow> NativeStatus option" where
  "supervisor_status ctx bytes =
     (if gx_fault ctx ReadLock \<noteq> None then None
      else (case gx_of_json ctx bytes of
          None \<Rightarrow> None
        | Some owner \<Rightarrow> (case gx_classify ctx owner of Inr status \<Rightarrow> Some status | Inl _ \<Rightarrow> None)))"

definition check_live_supervisor :: "guard_context \<Rightarrow> DoctorReportBuilder \<Rightarrow> metadata \<times> u8 list \<Rightarrow> metadata \<Rightarrow> DoctorReportBuilder" where
  "check_live_supervisor ctx builder lock sock =
     (if \<not> entries_secure (fst lock) sock (gx_uid ctx)
      then push builder ''supervisor'' Fail ''runtime lock or socket has unsafe ownership, mode, or type''
        (Some ''Stop ATX processes and remove the unsafe runtime entries.'')
      else if supervisor_status ctx (snd lock) = Some NativeStatus.Alive
      then push builder ''supervisor'' Pass ''session supervisor identity and socket agree'' None
      else push builder ''supervisor'' Warning ''supervisor runtime entries are stale or unreadable''
        (Some ''The next submission will replace stale entries safely.''))"

text \<open>\<open>stat_failed\<close> are the entries whose status cannot be read for another reason than that they are missing.\<close>

definition check_supervisor :: "guard_context \<Rightarrow> bool \<times> bool \<Rightarrow> DoctorReportBuilder \<Rightarrow> runtime_dir \<Rightarrow> DoctorReportBuilder" where
  "check_supervisor ctx stat_failed builder d =
     (case (if fst stat_failed then None else Some (rd_lock d), if snd stat_failed then None else Some (rd_sock d)) of
        (Some None, Some None) \<Rightarrow> push builder ''supervisor'' Pass ''no session supervisor is needed right now'' None
      | (Some (Some lock), Some (Some sock)) \<Rightarrow> check_live_supervisor ctx builder lock sock
      | _ \<Rightarrow> push builder ''supervisor'' Warning ''runtime lock and socket do not agree''
          (Some ''Run doctor again after the current supervisor exits.''))"

definition native_service_manager ::
  "Platform \<Rightarrow> string option \<Rightarrow> string option \<Rightarrow> (command_error, string) result \<Rightarrow> PlatformPaths \<Rightarrow> u32 \<Rightarrow>
     (command_error, NativeServiceManager) result" where
  "native_service_manager platform home xdg_config executable paths uid =
     (case home of
        None \<Rightarrow> Inl (cli_capability ''HOME is unavailable or not absolute'')
      | Some h \<Rightarrow>
          if \<not> path_is_absolute h then Inl (cli_capability ''HOME is unavailable or not absolute'')
          else try_bind executable (\<lambda>exe.
            Inr (detect platform xdg_config exe (pp_state_dir paths) (pp_runtime_dir paths) h uid)))"

definition check_durable_service :: "DoctorReportBuilder \<Rightarrow> (command_error, ServiceStatus) result \<Rightarrow> bool \<times> DoctorReportBuilder" where
  "check_durable_service builder status =
     (case status of
        Inl e \<Rightarrow> (False, push builder ''durable service'' Warning (ce_message e) (Some ''Session jobs remain available.''))
      | Inr st \<Rightarrow>
          if st_installed st \<and> st_running st then (True, push builder ''durable service'' Pass (st_detail st) None)
          else (False, push builder ''durable service'' Warning (st_detail st)
            (Some ''Run `atx service install` to enable durable jobs.'')))"

record RedactedConfig =
  rc_default_timezone :: string
  rc_default_runtime :: RuntimeTier
  rc_default_shell :: string
  rc_cancel_grace :: string
  rc_history_days :: u16
  rc_terminal_job_days :: u16
  rc_max_log_bytes_per_stream :: u64
  rc_color :: ColorMode
  rc_verbosity :: Verbosity

definition redacted :: "Config \<Rightarrow> RedactedConfig" where
  "redacted config =
     \<lparr> rc_default_timezone = default_timezone config, rc_default_runtime = default_runtime config,
       rc_default_shell = default_shell config, rc_cancel_grace = DurationSeconds_to_string (cancel_grace config),
       rc_history_days = config_history_days config, rc_terminal_job_days = config_terminal_job_days config,
       rc_max_log_bytes_per_stream = max_log_bytes_per_stream config, rc_color = config_color config,
       rc_verbosity = config_verbosity config \<rparr>"

fun ConfigError_text :: "ConfigError \<Rightarrow> string" where
  "ConfigError_text (Toml e) = ''invalid TOML configuration: '' @ e"
| "ConfigError_text (ConfigError.Read e) = e"
| "ConfigError_text (UnknownEnvironment name) = ''unknown ATX environment variable '' @ name"
| "ConfigError_text (InvalidEnvironment name) = ''invalid value for environment variable '' @ name"
| "ConfigError_text (InvalidField name) = ''invalid configuration field '' @ name"

text \<open>
  The machine the doctor looks at: the platform, the environment variables, the file system
  (\<open>dx_exists\<close> follows symbolic links), opening the database and reading its schema version, the
  clocks, the process table, the runtime directory and the service manager.
\<close>

record ('s, 'j) doctor_env =
  dx_platform :: Platform
  dx_paths :: PathEnvironment
  dx_xdg_config :: "string option"
  dx_executable :: "(command_error, string) result"
  dx_uid :: u32
  dx_exists :: "string \<Rightarrow> bool"
  dx_tree :: file_tree
  dx_submit :: submit_env
  dx_json :: "RedactedConfig \<Rightarrow> (string, 'j) result"
  dx_empty :: 'j
  dx_schema_version :: "(string, u32) result"
  dx_now_utc :: "(string, UtcTimestamp) result"
  dx_now_elapsed :: "(string, ElapsedInstant) result"
  dx_boot :: "(string, string) result"
  dx_files :: proc_files
  dx_pid :: u32
  dx_guard :: guard_context
  dx_stat_failed :: "bool \<times> bool"
  dx_runtime :: runtime_dir
  dx_service :: "'s service_env"
  dx_world :: "'s service_world"
  dx_tzdb :: string

definition check_config :: "('s, 'j) doctor_env \<Rightarrow> (ConfigError, Config) result \<Rightarrow> DoctorReportBuilder \<Rightarrow> 'j \<times> DoctorReportBuilder" where
  "check_config env loaded builder =
     (case loaded of
        Inr config \<Rightarrow>
          (let builder = push builder ''configuration'' Pass ''configuration is valid'' None in
           case dx_json env (redacted config) of
             Inr json \<Rightarrow> (json, builder)
           | Inl e \<Rightarrow> (dx_empty env, push builder ''configuration output'' Fail e None))
      | Inl e \<Rightarrow> (dx_empty env, push builder ''configuration'' Fail (ConfigError_text e)
          (Some ''Fix or remove the invalid config file.'')))"

definition check_clocks :: "('s, 'j) doctor_env \<Rightarrow> DoctorReportBuilder \<Rightarrow> string option \<times> DoctorReportBuilder" where
  "check_clocks env builder =
     (case (dx_now_utc env, dx_now_elapsed env, dx_boot env) of
        (Inr _, Inr _, Inr identity) \<Rightarrow>
          (Some identity, push builder ''clocks'' Pass ''wall and suspend-aware elapsed clocks are available'' None)
      | _ \<Rightarrow> (None, push builder ''clocks'' Fail ''a required platform clock is unavailable''
          (Some ''This platform cannot safely supervise elapsed deadlines.'')))"

definition inspector :: "('s, 'j) doctor_env \<Rightarrow> string \<Rightarrow> guard_context" where
  "inspector env boot = (dx_guard env)\<lparr> gx_uid := dx_uid env, gx_classify := map_err ProcessError_text \<circ> classify (dx_files env) boot \<rparr>"

definition check_processes :: "('s, 'j) doctor_env \<Rightarrow> string option \<Rightarrow> DoctorReportBuilder \<Rightarrow> DoctorReportBuilder" where
  "check_processes env boot builder =
     (case boot of
        None \<Rightarrow> builder
      | Some identity \<Rightarrow>
          check_supervisor (inspector env identity) (dx_stat_failed env)
            (case inspect (dx_files env) identity (dx_pid env) of
               Inr (Some _) \<Rightarrow> push builder ''process identity'' Pass ''PID start identity is available'' None
             | _ \<Rightarrow> push builder ''process identity'' Fail ''current process identity could not be validated''
                 (Some ''Process-safe cancellation is unavailable.'')) (dx_runtime env))"

definition service_status :: "('s, 'j) doctor_env \<Rightarrow> PlatformPaths \<Rightarrow> (command_error, ServiceStatus) result" where
  "service_status env paths =
     try_bind (native_service_manager (dx_platform env) (pe_home (dx_paths env)) (dx_xdg_config env) (dx_executable env) paths (dx_uid env))
       (\<lambda>m. map_err cli_capability (fst (sm_status (native_manager (dx_service env) m) (dx_world env))))"

definition build_doctor_report ::
  "('s, 'j) doctor_env \<Rightarrow> string option \<Rightarrow> GlobalArgs \<Rightarrow> (command_error, 'j DoctorReport) result" where
  "build_doctor_report env state_override global =
     try_bind (map_err (cli_permission \<circ> PathError_text) (resolve_paths (dx_platform env) (dx_paths env) state_override (dx_uid env)))
     (\<lambda>paths.
       let builder = check_private_directory (dx_exists env) (dx_tree env) [] ''state directory'' (pp_state_dir paths) (dx_uid env);
           builder = check_private_directory (dx_exists env) (dx_tree env) builder ''runtime directory'' (pp_runtime_dir paths) (dx_uid env);
           (config, builder) = check_config env (load_effective_config (dx_submit env) (pp_state_dir paths) global False) builder;
           (schema_version, builder) = check_database (dx_exists env (path_join (pp_state_dir paths) ''atx.db'')) (dx_schema_version env) builder;
           (boot, builder) = check_clocks env builder;
           builder = check_processes env boot builder;
           (durable, builder) = check_durable_service builder (service_status env paths)
       in Inr (finish builder (dx_tzdb env) schema_version durable config))"

definition doctor_text :: "bool \<Rightarrow> 'j DoctorReport \<Rightarrow> string" where
  "doctor_text color report =
     join_with LF ([if dr_healthy report then ''ATX is ready.'' else ''ATX needs attention.'']
       @ map (\<lambda>c. let marker = (case dc_status c of Pass \<Rightarrow> ''ok'' | Warning \<Rightarrow> ''warn'' | Fail \<Rightarrow> ''fail'');
                       hue = (case dc_status c of Pass \<Rightarrow> 32 | Warning \<Rightarrow> 33 | Fail \<Rightarrow> 31)
                   in ''['' @ (if color then colored hue marker else marker) @ ''] '' @ dc_name c @ '': '' @ dc_message c) (dr_checks report)
       @ [''tzdb: '' @ dr_tzdb_version report])"

section \<open>When the report is healthy\<close>

definition failing :: "DoctorReportBuilder \<Rightarrow> bool" where
  "failing checks \<longleftrightarrow> list_ex (\<lambda>c. dc_status c = Fail) checks"

lemma failing_push [simp]: "failing (push checks name status message remediation) \<longleftrightarrow> failing checks \<or> status = Fail"
  by (simp add: failing_def push_def)

lemma failing_Nil [simp]: "\<not> failing []"
  by (simp add: failing_def)

lemma failing_directory:
  "failing (check_private_directory exists fs checks name path uid) \<longleftrightarrow>
     failing checks \<or> exists path \<and> validate_private_dir_for_uid fs path uid \<noteq> Inr ()"
  by (simp add: check_private_directory_def split: sum.split)

lemma failing_config:
  "failing (snd (check_config env loaded checks)) \<longleftrightarrow>
     failing checks \<or> \<not> (\<exists>config. loaded = Inr config \<and> is_ok (dx_json env (redacted config)))"
  by (auto simp: check_config_def Let_def is_ok_def split: sum.split)

lemma failing_database:
  "failing (snd (check_database exists version checks)) \<longleftrightarrow> failing checks \<or> exists \<and> \<not> is_ok version"
  by (auto simp: check_database_def is_ok_def split: sum.split)

lemma failing_clocks:
  "failing (snd (check_clocks env checks)) \<longleftrightarrow> failing checks \<or> fst (check_clocks env checks) = None"
  "fst (check_clocks env checks) = Some boot \<longleftrightarrow>
     is_ok (dx_now_utc env) \<and> is_ok (dx_now_elapsed env) \<and> dx_boot env = Inr boot"
  by (auto simp: check_clocks_def is_ok_def split: sum.splits)

lemma failing_supervisor:
  "failing (check_supervisor ctx stat_failed checks d) \<longleftrightarrow> failing checks
     \<or> (\<exists>lock bytes sock. stat_failed = (False, False) \<and> rd_lock d = Some (lock, bytes) \<and> rd_sock d = Some sock
          \<and> \<not> entries_secure lock sock (gx_uid ctx))"
  by (cases stat_failed; cases "rd_lock d"; cases "rd_sock d")
    (auto simp: check_supervisor_def check_live_supervisor_def split: if_splits)

lemma failing_processes:
  "failing (check_processes env (Some boot) checks) \<longleftrightarrow> failing checks
     \<or> (\<nexists>self. inspect (dx_files env) boot (dx_pid env) = Inr (Some self))
     \<or> (\<exists>lock bytes sock. dx_stat_failed env = (False, False) \<and> rd_lock (dx_runtime env) = Some (lock, bytes)
          \<and> rd_sock (dx_runtime env) = Some sock \<and> \<not> entries_secure lock sock (dx_uid env))"
  by (auto simp: check_processes_def failing_supervisor inspector_def split: sum.splits option.splits)

lemma failing_service: "failing (snd (check_durable_service checks status)) \<longleftrightarrow> failing checks"
  by (simp add: check_durable_service_def split: sum.split)

lemma dr_healthy_finish [simp]: "dr_healthy (finish checks tzdb schema durable config) \<longleftrightarrow> \<not> failing checks"
  by (simp add: finish_def failing_def)

lemma report_healthy:
  assumes "build_doctor_report env state_override global = Inr report"
    and "resolve_paths (dx_platform env) (dx_paths env) state_override (dx_uid env) = Inr paths"
  defines "dirs \<equiv> check_private_directory (dx_exists env) (dx_tree env)
      (check_private_directory (dx_exists env) (dx_tree env) [] ''state directory'' (pp_state_dir paths) (dx_uid env))
      ''runtime directory'' (pp_runtime_dir paths) (dx_uid env)"
    and "loaded \<equiv> load_effective_config (dx_submit env) (pp_state_dir paths) global False"
    and "db \<equiv> dx_exists env (path_join (pp_state_dir paths) ''atx.db'')"
  shows "dr_healthy report \<longleftrightarrow> \<not> failing (let checks = snd (check_config env loaded dirs);
        checks = snd (check_database db (dx_schema_version env) checks); clocks = check_clocks env checks
      in check_processes env (fst clocks) (snd clocks))"
proof -
  have "\<not> failing (snd (check_durable_service checks status)) \<longleftrightarrow> \<not> failing checks" for checks status
    by (simp add: failing_service)
  with assms(1,2) show ?thesis
    unfolding build_doctor_report_def dirs_def loaded_def db_def Let_def split_def
    by (auto simp: result_simps)
qed

text \<open>
  The doctor calls the installation ready, and exits with 0, exactly when the state and the
  runtime directory are private or do not exist yet, the configuration loads, an existing database
  opens, both clocks and the boot identity are available, the doctor's own process can be
  identified, and the lock and the socket of a supervisor, if both are there, are files of this user
  with mode 0600.  A stale lock and a missing service are warnings.
\<close>

theorem doctor_healthy_iff:
  assumes report: "build_doctor_report env state_override global = Inr report"
    and paths: "resolve_paths (dx_platform env) (dx_paths env) state_override (dx_uid env) = Inr paths"
  shows "(dr_healthy report \<longleftrightarrow>
      (\<forall>p \<in> {pp_state_dir paths, pp_runtime_dir paths}.
         dx_exists env p \<longrightarrow> validate_private_dir_for_uid (dx_tree env) p (dx_uid env) = Inr ())
    \<and> (\<exists>config. load_effective_config (dx_submit env) (pp_state_dir paths) global False = Inr config
         \<and> is_ok (dx_json env (redacted config)))
    \<and> (dx_exists env (path_join (pp_state_dir paths) ''atx.db'') \<longrightarrow> is_ok (dx_schema_version env))
    \<and> is_ok (dx_now_utc env) \<and> is_ok (dx_now_elapsed env)
    \<and> (\<exists>boot self. dx_boot env = Inr boot \<and> inspect (dx_files env) boot (dx_pid env) = Inr (Some self))
    \<and> (\<forall>lock bytes sock. dx_stat_failed env = (False, False) \<and> rd_lock (dx_runtime env) = Some (lock, bytes)
         \<and> rd_sock (dx_runtime env) = Some sock \<longrightarrow> entries_secure lock sock (dx_uid env)))
    \<and> (doctor_exit report = 0 \<longleftrightarrow> dr_healthy report)"
proof -
  have exit: "doctor_exit report = 0 \<longleftrightarrow> dr_healthy report" by (simp add: doctor_exit_def)
  note verdict = report_healthy [OF report paths, unfolded Let_def]
  show ?thesis
  proof (cases "\<exists>boot. is_ok (dx_now_utc env) \<and> is_ok (dx_now_elapsed env) \<and> dx_boot env = Inr boot")
    case True
    then obtain boot where boot: "is_ok (dx_now_utc env)" "is_ok (dx_now_elapsed env)" "dx_boot env = Inr boot" by blast
    then have clocks: "fst (check_clocks env checks) = Some boot" for checks by (simp add: failing_clocks)
    show ?thesis
      unfolding verdict clocks failing_processes failing_clocks failing_database failing_config failing_directory exit
      using boot by auto
  next
    case False
    then have clocks: "fst (check_clocks env checks) = None" for checks
      using failing_clocks(2) by (metis not_Some_eq)
    show ?thesis
      unfolding verdict clocks check_processes_def option.case failing_clocks exit using False by auto
  qed
qed

section \<open>The doctor and the next supervisor\<close>

definition supervisor_message :: "DoctorReportBuilder \<Rightarrow> string \<times> string option" where
  "supervisor_message checks = (dc_message (last checks), dc_remediation (last checks))"

definition stale_message :: "string \<times> string option" where
  "stale_message = (''supervisor runtime entries are stale or unreadable'',
     Some ''The next submission will replace stale entries safely.'')"

lemma live_message:
  "supervisor_message (check_supervisor ctx (False, False) checks d) = (''session supervisor identity and socket agree'', None) \<longleftrightarrow>
     (\<exists>lock bytes sock. rd_lock d = Some (lock, bytes) \<and> rd_sock d = Some sock \<and> entries_secure lock sock (gx_uid ctx)
        \<and> supervisor_status ctx bytes = Some NativeStatus.Alive)"
  by (cases "rd_lock d"; cases "rd_sock d") (auto simp: supervisor_message_def check_supervisor_def check_live_supervisor_def push_def)

lemma stale_message_iff:
  "supervisor_message (check_supervisor ctx (False, False) checks d) = stale_message \<longleftrightarrow>
     (\<exists>lock bytes sock. rd_lock d = Some (lock, bytes) \<and> rd_sock d = Some sock \<and> entries_secure lock sock (gx_uid ctx)
        \<and> supervisor_status ctx bytes \<noteq> Some NativeStatus.Alive)"
  by (cases "rd_lock d"; cases "rd_sock d")
    (auto simp: supervisor_message_def check_supervisor_def check_live_supervisor_def push_def stale_message_def)

lemma supervisor_status_Alive:
  "supervisor_status ctx bytes = Some status \<longleftrightarrow>
     gx_fault ctx ReadLock = None \<and> (\<exists>owner. gx_of_json ctx bytes = Some owner \<and> gx_classify ctx owner = Inr status)"
  by (auto simp: supervisor_status_def split: option.splits sum.splits)

text \<open>
  C23. What the doctor says of the supervisor and what the next start does.  If it reports a live
  supervisor, clients accept the socket and a second supervisor is refused.  If it reports stale
  entries, the lock can be read and nothing answers the socket, the next start takes them over, as the remediation says.  But it
  says the same of a lock that cannot be read, for instance an empty one, and then the next start is
  refused and changes nothing: the promise that the next submission replaces the entries is not kept.
\<close>

theorem doctor_supervisor_verdict:
  assumes dir: "gx_private_dir ctx = Inr ()" and faults: "gx_fault ctx = (\<lambda>_. None)" and json: "gx_to_json ctx p = Inr bytes"
  shows "(supervisor_message (check_supervisor ctx (False, False) checks d) = (''session supervisor identity and socket agree'', None)
      \<longrightarrow> (\<exists>sock. rd_sock d = Some sock \<and> owned_socket sock (gx_uid ctx)) \<and> RuntimeGuard_acquire ctx p d = (Inl AlreadyRunning, d))
    \<and> (supervisor_message (check_supervisor ctx (False, False) checks d) = stale_message \<longrightarrow>
      (\<forall>lock content owner status. rd_lock d = Some (lock, content) \<and> gx_of_json ctx content = Some owner
         \<and> gx_classify ctx owner = Inr status \<and> rd_listening d = {} \<longrightarrow> (\<exists>g d'. RuntimeGuard_acquire ctx p d = (Inr g, d')))
      \<and> (\<forall>lock content. rd_lock d = Some (lock, content) \<and> gx_of_json ctx content = None \<longrightarrow>
         RuntimeGuard_acquire ctx p d = (Inl MalformedLock, d)))"
proof (intro conjI impI allI)
  assume "supervisor_message (check_supervisor ctx (False, False) checks d) = (''session supervisor identity and socket agree'', None)"
  then obtain lock content sock owner where live: "rd_lock d = Some (lock, content)" "rd_sock d = Some sock"
      "entries_secure lock sock (gx_uid ctx)" "gx_of_json ctx content = Some owner" "gx_classify ctx owner = Inr NativeStatus.Alive"
    unfolding live_message supervisor_status_Alive by blast
  then show "\<exists>sock. rd_sock d = Some sock \<and> owned_socket sock (gx_uid ctx)" by (simp add: entries_secure_def owned_socket_def)
  show "RuntimeGuard_acquire ctx p d = (Inl AlreadyRunning, d)"
    using live dir faults by (simp add: RuntimeGuard_acquire_def numeral_2_eq_2 check_stale_def entries_secure_def)
next
  fix lock content owner status
  assume stale: "supervisor_message (check_supervisor ctx (False, False) checks d) = stale_message"
    and lock: "rd_lock d = Some (lock, content) \<and> gx_of_json ctx content = Some owner \<and> gx_classify ctx owner = Inr status \<and> rd_listening d = {}"
  then obtain sock where secure: "rd_sock d = Some sock" "entries_secure lock sock (gx_uid ctx)"
      "supervisor_status ctx content \<noteq> Some NativeStatus.Alive"
    unfolding stale_message_iff by auto
  then have "status \<noteq> NativeStatus.Alive" using lock faults by (auto simp: supervisor_status_Alive)
  then have "check_stale ctx (lock, content) = Inr ()"
    using lock faults secure(2) by (simp add: check_stale_def entries_secure_def)
  then have "\<exists>g d'. RuntimeGuard_acquire ctx p d = (Inr g, d')"
    using lock faults secure dir json
    by (simp add: RuntimeGuard_acquire_def numeral_2_eq_2 write_lock_def fill_lock_def create_lock_def open_socket_def
        clear_socket_def entries_secure_def Let_def)
  then show "\<exists>g d'. RuntimeGuard_acquire ctx p d = (Inr g, d')" .
next
  fix lock content
  assume stale: "supervisor_message (check_supervisor ctx (False, False) checks d) = stale_message"
    and lock: "rd_lock d = Some (lock, content) \<and> gx_of_json ctx content = None"
  then show "RuntimeGuard_acquire ctx p d = (Inl MalformedLock, d)"
    unfolding stale_message_iff using dir faults
    by (auto simp: RuntimeGuard_acquire_def numeral_2_eq_2 check_stale_def entries_secure_def)
qed

section \<open>A concrete machine\<close>

definition sample_doctor :: "(bool, unit) doctor_env" where
  "sample_doctor =
     \<lparr> dx_platform = Linux,
       dx_paths = \<lparr> pe_home = Some ''/h'', pe_xdg_state_home = None, pe_xdg_runtime_dir = Some ''/run'', pe_temporary_directory = None \<rparr>,
       dx_xdg_config = None, dx_executable = Inr ''/bin/atx'', dx_uid = 7, dx_exists = (\<lambda>_. False), dx_tree = Map.empty,
       dx_submit = sample_submit, dx_json = (\<lambda>_. Inr ()), dx_empty = (), dx_schema_version = Inr 1,
       dx_now_utc = Inr 0, dx_now_elapsed = Inl ''no suspend-aware clock'', dx_boot = Inr ''b'',
       dx_files = (\<lambda>_. Inr None), dx_pid = 9, dx_guard = sample_guard, dx_stat_failed = (False, False), dx_runtime = clean_dir,
       dx_service = sample_env, dx_world = \<lparr> sv_file = None, sv_temporary = False, sv_machine = False \<rparr>, dx_tzdb = ''2025a'' \<rparr>"

lemma sample_doctor_paths:
  "resolve_paths (dx_platform sample_doctor) (dx_paths sample_doctor) (Some ''/s'') (dx_uid sample_doctor)
   = Inr \<lparr> pp_state_dir = ''/s'', pp_runtime_dir = ''/s/runtime'', pp_runtime_uses_fallback = True \<rparr>"
  by (simp add: resolve_paths_def sample_doctor_def require_absolute_def path_is_absolute_def path_join_def)

theorem doctor_healthy_iff_witness:
  "\<exists>report. build_doctor_report sample_doctor (Some ''/s'') (a_global sample_args) = Inr report
     \<and> \<not> dr_healthy report \<and> doctor_exit report \<noteq> 0"
proof -
  obtain report where report: "build_doctor_report sample_doctor (Some ''/s'') (a_global sample_args) = Inr report"
    unfolding build_doctor_report_def sample_doctor_paths Let_def split_def by simp
  have "\<not> is_ok (dx_now_elapsed sample_doctor)" by (simp add: sample_doctor_def is_ok_def)
  with doctor_healthy_iff [OF report sample_doctor_paths] report show ?thesis by blast
qed

definition empty_lock :: runtime_dir where
  "empty_lock =
     \<lparr> rd_lock = Some (\<lparr> md_kind = RegularFile, md_uid = 7, md_mode = 0x180, md_ino = 0 \<rparr>, []),
       rd_sock = Some \<lparr> md_kind = SocketFile, md_uid = 7, md_mode = 0x180, md_ino = 1 \<rparr>, rd_listening = {}, rd_next = 2 \<rparr>"

theorem doctor_supervisor_verdict_witness:
  "supervisor_message (check_supervisor sample_guard (False, False) [] empty_lock) = stale_message
     \<and> RuntimeGuard_acquire sample_guard sample_process empty_lock = (Inl MalformedLock, empty_lock)"
proof -
  have stale: "supervisor_message (check_supervisor sample_guard (False, False) [] empty_lock) = stale_message"
    by (simp add: stale_message_iff empty_lock_def entries_secure_def permissions_def sample_guard_def supervisor_status_def
        sample_identity_of_json_def)
  have "gx_of_json sample_guard [] = None" by (simp add: sample_guard_def sample_identity_of_json_def)
  with stale doctor_supervisor_verdict [where ctx = sample_guard and p = sample_process and bytes = "sample_identity_to_json sample_process" and d = empty_lock and checks = "[]"]
  show ?thesis by (simp add: sample_guard_def empty_lock_def)
qed

end
