(* ===== verification/Manage_Command.thy ===== *)
theory Manage_Command
  imports Doctor Cancel_Job
begin

text \<open>
  The management commands of \<open>src/cli/dispatch.rs\<close> (\<open>manage\<close>, \<open>manage_without_database\<close>,
  \<open>open_management\<close>, \<open>run_service\<close>, \<open>run_doctor\<close>) from the parsed command to the exit code, what is
  printed and the database left behind.  The services and the store are the ones of the other
  theories.  Other processes may write between two operations on the store: \<open>mv_others n\<close> is what
  they do before operation \<open>n\<close>, \<open>mv_fault n\<close> the errors of its statements.
\<close>

section \<open>Errors\<close>

fun DurationError_text :: "DurationError \<Rightarrow> string" where
  "DurationError_text DurationError.Empty = ''duration cannot be empty''"
| "DurationError_text DurationError.ExpectedNumber = ''expected a decimal duration component''"
| "DurationError_text DurationError.ExpectedUnit = ''expected one of h, m, or s''"
| "DurationError_text DurationError.UnitOrder = ''duration units must be unique and ordered h, m, s''"
| "DurationError_text DurationError.ZeroHours = ''the hour component must be nonzero''"
| "DurationError_text DurationError.Overflow = ''duration arithmetic overflowed''"
| "DurationError_text DurationError.OutOfRange = ''duration must be between one second and 365 days''"

text \<open>\<open>debug_ids\<close> is the debug text of a list of identifiers.\<close>

fun ManagementError_text :: "(JobId list \<Rightarrow> string) \<Rightarrow> ManagementError \<Rightarrow> string" where
  "ManagementError_text debug_ids ManagementError.NotFound = ''job was not found''"
| "ManagementError_text debug_ids (ManagementError.Ambiguous ids) = ''job prefix is ambiguous: '' @ debug_ids ids"
| "ManagementError_text debug_ids ManagementError.InvalidPrefix = ''job prefix is not valid''"
| "ManagementError_text debug_ids InvalidLimit = ''result limit must be between 1 and 1000''"
| "ManagementError_text debug_ids (StateConflict e) = e"
| "ManagementError_text debug_ids ConfirmationRequired = ''running an interrupted job again requires --yes''"
| "ManagementError_text debug_ids (ManagementError.Store e) = e"

fun RunOutputError_text :: "RunOutputError \<Rightarrow> string" where
  "RunOutputError_text RunOutputError.NotFound = ''run or job was not found''"
| "RunOutputError_text RunOutputError.Ambiguous = ''run or job prefix is ambiguous''"
| "RunOutputError_text RunOutputError.InvalidPrefix = ''prefix is not valid''"
| "RunOutputError_text NoRuns = ''job has no recorded runs''"
| "RunOutputError_text NotCaptured = ''output has not been captured yet''"
| "RunOutputError_text MissingLogs = ''captured logs are missing from disk''"
| "RunOutputError_text (RunOutputError.Read e) = ''reading captured logs failed: '' @ e"
| "RunOutputError_text (RunOutputError.Store e) = e"

fun SupervisorAckError_text :: "SupervisorAckError \<Rightarrow> string" where
  "SupervisorAckError_text (SupervisorAckError.Rejected reason) = ''supervisor rejected the wake: '' @ reason"
| "SupervisorAckError_text SupervisorAckError.SocketSubstitution = ''supervisor socket was substituted''"
| "SupervisorAckError_text SupervisorAckError.InvalidAcknowledgement = ''supervisor returned an invalid acknowledgement''"
| "SupervisorAckError_text (SupervisorAckError.Unavailable e) = ''supervisor did not acknowledge job: '' @ e"

fun ServiceLifecycleError_text :: "ServiceLifecycleError \<Rightarrow> string" where
  "ServiceLifecycleError_text (ServiceLifecycleError.Manager e) = e"
| "ServiceLifecycleError_text (ServiceLifecycleError.Unavailable e) = ''durable service is unavailable: '' @ e"
| "ServiceLifecycleError_text (Install e) = ''service installation failed and was rolled back: '' @ e"
| "ServiceLifecycleError_text (IncompleteInstall e) = ''service installation remained incomplete and was rolled back: '' @ e"
| "ServiceLifecycleError_text (InstallRollback install rollback) =
     ''service installation failed ('' @ install @ ''); rollback also failed ('' @ rollback @ '')''"
| "ServiceLifecycleError_text (IncompleteUninstall e) = ''service uninstall remained incomplete: '' @ e"

fun management_cli_error :: "(JobId list \<Rightarrow> string) \<Rightarrow> ManagementError \<Rightarrow> command_error" where
  "management_cli_error debug_ids ManagementError.NotFound = cli_not_found (ManagementError_text debug_ids ManagementError.NotFound)"
| "management_cli_error debug_ids (ManagementError.Ambiguous ids) =
     cli_not_found (ManagementError_text debug_ids (ManagementError.Ambiguous ids))"
| "management_cli_error debug_ids ManagementError.InvalidPrefix =
     cli_not_found (ManagementError_text debug_ids ManagementError.InvalidPrefix)"
| "management_cli_error debug_ids (StateConflict e) = cli_conflict e"
| "management_cli_error debug_ids ConfirmationRequired = cli_conflict (ManagementError_text debug_ids ConfirmationRequired)"
| "management_cli_error debug_ids InvalidLimit = cli_usage (ManagementError_text debug_ids InvalidLimit)"
| "management_cli_error debug_ids (ManagementError.Store e) = cli_storage e"

fun output_cli_error :: "RunOutputError \<Rightarrow> command_error" where
  "output_cli_error (RunOutputError.Read e) = cli_storage (RunOutputError_text (RunOutputError.Read e))"
| "output_cli_error (RunOutputError.Store e) = cli_storage e"
| "output_cli_error e = cli_not_found (RunOutputError_text e)"

section \<open>Output\<close>

text \<open>What is printed: the standard output and the standard error.\<close>

type_synonym printed = "string \<times> string"

record json_text =
  js_jobs :: "JobView list \<Rightarrow> (string, string) result"
  js_job :: "JobView \<Rightarrow> (string, string) result"
  js_runs :: "RunView list \<Rightarrow> (string, string) result"
  js_processes :: "ProcessView list \<Rightarrow> (string, string) result"
  js_output :: "RunOutputView \<Rightarrow> (string, string) result"
  js_status :: "ServiceStatus \<Rightarrow> (string, string) result"
  js_change :: "ServiceChange \<Rightarrow> (string, string) result"
  js_error :: "string \<Rightarrow> string \<Rightarrow> string option \<Rightarrow> (string, string) result"

record manage_env =
  mv_fault :: "nat \<Rightarrow> nat \<Rightarrow> StoreError option"
  mv_others :: "nat \<Rightarrow> Database \<Rightarrow> Database"
  mv_now :: "(string, UtcTimestamp) result"
  mv_jiff_now :: UtcTimestamp
  mv_local :: "UtcTimestamp \<Rightarrow> string"
  mv_terminal :: bool
  mv_json :: json_text
  mv_debug_ids :: "JobId list \<Rightarrow> string"
  mv_files :: file_system
  mv_cancel :: cancel_env
  mv_acknowledge :: "Database \<Rightarrow> JobId \<Rightarrow> Revision \<Rightarrow> (SupervisorAckError, unit) result"
  mv_boot :: "(string, string) result"
  mv_proc :: proc_files

definition print_json_success :: "(string, string) result \<Rightarrow> printed" where
  "print_json_success txt =
     (case txt of Inr t \<Rightarrow> (t @ LF, []) | Inl e \<Rightarrow> ([], ''atx: could not serialize output: '' @ e @ LF))"

definition show_either :: "GlobalArgs \<Rightarrow> (string, string) result \<Rightarrow> string \<Rightarrow> printed" where
  "show_either global json human =
     (if g_json global then print_json_success json else if \<not> g_quiet global then (human @ LF, []) else ([], []))"

definition print_error :: "json_text \<Rightarrow> bool \<Rightarrow> command_error \<Rightarrow> printed" where
  "print_error J json e =
     (if json then
        (let remediation = (if ce_code e = ''JOB_NOT_FOUND'' then Some ''Run `atx list` to inspect job IDs.''
               else if ce_code e = ''STATE_CONFLICT'' then Some ''Run `atx show JOB` to inspect its current state.'' else None)
         in case js_error J (ce_code e) (ce_message e) remediation of
              Inr t \<Rightarrow> ([], t @ LF)
            | Inl err \<Rightarrow> ([], ''atx: could not serialize error output: '' @ err @ LF))
      else ([], ''atx: '' @ ce_message e @ LF))"

definition uses_color :: "manage_env \<Rightarrow> GlobalArgs \<Rightarrow> bool" where
  "uses_color env global = HumanRenderer_new (case g_color global of None \<Rightarrow> ColorArg.Auto | Some c \<Rightarrow> c) (mv_terminal env)"

definition render_jobs :: "manage_env \<Rightarrow> Job list \<Rightarrow> GlobalArgs \<Rightarrow> printed" where
  "render_jobs env jobs global =
     (let views = map (\<lambda>job. JobView_from_job job (mv_jiff_now env)) jobs
      in show_either global (js_jobs (mv_json env) views) (jobs_text (mv_local env) (uses_color env global) views))"

definition render_runs :: "manage_env \<Rightarrow> Run list \<Rightarrow> GlobalArgs \<Rightarrow> printed" where
  "render_runs env runs global =
     (let views = map RunView_from_run runs
      in show_either global (js_runs (mv_json env) views) (runs_text (mv_local env) views))"

definition render_run_output :: "manage_env \<Rightarrow> RunOutput \<Rightarrow> GlobalArgs \<Rightarrow> printed" where
  "render_run_output env out global =
     (if g_json global then print_json_success (js_output (mv_json env) (RunOutputView_from_output out))
      else if \<not> g_quiet global then (run_output_text out, []) else ([], []))"

definition render_job :: "manage_env \<Rightarrow> Job \<Rightarrow> RunOutcome option \<Rightarrow> GlobalArgs \<Rightarrow> printed" where
  "render_job env job last_outcome global =
     (let view = JobView_from_job job (mv_jiff_now env)
      in show_either global (js_job (mv_json env) view)
           (job_with_outcome_text (mv_local env) (uses_color env global) view last_outcome))"

text \<open>The live processes of the runs, in order; the first error of an inspection ends the command.\<close>

fun live_process :: "proc_files \<Rightarrow> string \<Rightarrow> Run \<Rightarrow> string \<times> ProcessIdentitySnapshot option \<Rightarrow> (ProcessError, ProcessView list) result" where
  "live_process files boot run (role, None) = Inr []"
| "live_process files boot run (role, Some identity) =
     try_bind (classify files boot identity) (\<lambda>status.
     Inr (if status = NativeStatus.Alive
       then [\<lparr> pv_job_id = job_text (run_job_id run), pv_run_id = run_text (run_id run), pv_role = role, pv_pid = pid identity,
               pv_process_group_id = process_group_id identity, pv_state = run_state run \<rparr>]
       else []))"

fun collect_processes ::
  "proc_files \<Rightarrow> string \<Rightarrow> (Run \<times> string \<times> ProcessIdentitySnapshot option) list \<Rightarrow> (ProcessError, ProcessView list) result" where
  "collect_processes files boot [] = Inr []"
| "collect_processes files boot ((run, candidate) # rest) =
     try_bind (live_process files boot run candidate) (\<lambda>found. map_ok (append found) (collect_processes files boot rest))"

definition process_candidates :: "Run list \<Rightarrow> (Run \<times> string \<times> ProcessIdentitySnapshot option) list" where
  "process_candidates runs =
     concat (map (\<lambda>run. [(run, ''monitor'', run_monitor_identity run), (run, ''command'', run_command_identity run)]) runs)"

definition render_processes :: "manage_env \<Rightarrow> Run list \<Rightarrow> GlobalArgs \<Rightarrow> (command_error, printed) result" where
  "render_processes env runs global =
     (if runs = [] then Inr (show_either global (js_processes (mv_json env) []) (processes_text []))
      else try_bind (map_err cli_internal (mv_boot env)) (\<lambda>boot.
        try_bind (map_err (cli_internal \<circ> ProcessError_text) (collect_processes (mv_proc env) boot (process_candidates runs))) (\<lambda>found.
        Inr (show_either global (js_processes (mv_json env) found) (processes_text found)))))"

section \<open>Commands\<close>

datatype ManagementCommand =
    List "JobState option" u64
  | Show string
  | Cancel string "string option"
  | Remove string bool bool
  | Run string bool
  | Ps
  | History "string option" u64
  | Output string

definition find_at :: "codec \<Rightarrow> manage_env \<Rightarrow> nat \<Rightarrow> Database \<Rightarrow> string \<Rightarrow> u64 \<Rightarrow> (string, Job list) result" where
  "find_at C env n db = mgmt_find C (mv_fault env n) db"

definition management_error :: "manage_env \<Rightarrow> ManagementError \<Rightarrow> command_error" where
  "management_error env = management_cli_error (mv_debug_ids env)"

definition storage_error :: "StoreError \<Rightarrow> command_error" where
  "storage_error e = cli_storage (StoreError_text e)"

fun find_job_filter ::
  "codec \<Rightarrow> manage_env \<Rightarrow> Database \<Rightarrow> string option \<Rightarrow> (command_error, JobId option) result" where
  "find_job_filter C env db None = Inr None"
| "find_job_filter C env db (Some prefix) =
     map_err (management_error env) (map_ok (Some \<circ> job_id) (resolve_job (find_at C env 0 db) prefix))"

definition rm_command ::
  "codec \<Rightarrow> manage_env \<Rightarrow> GlobalArgs \<Rightarrow> Config \<Rightarrow> string \<Rightarrow> bool \<Rightarrow> bool \<Rightarrow> Database \<Rightarrow> (command_error, printed) result \<times> Database" where
  "rm_command C env global config job cancel keep_history db =
     on_ok (management_error env) (resolve_job (find_at C env 0 db) job) db (\<lambda>current.
     let (cancelled, db1) =
        (if \<not> JobState_is_terminal (job_state current) \<and> cancel
         then map_prod (map_ok (\<lambda>_. ())) id (cancel_job C (mv_cancel env) (cancel_grace config) job (mv_others env 1 db))
         else (Inr (), db))
     in on_ok (management_error env) cancelled db1 (\<lambda>_.
        let db2 = mv_others env 2 db1; db3 = mv_others env 3 db2 in
        on_ok (management_error env)
          (remove_job (find_at C env 2 db2) (mgmt_hide C (mv_fault env 3) db2 db3) job keep_history) db3 (\<lambda>(removed, db4).
        (Inr (render_job env removed None global), db4))))"

definition run_again_command ::
  "codec \<Rightarrow> manage_env \<Rightarrow> GlobalArgs \<Rightarrow> string \<Rightarrow> bool \<Rightarrow> Database \<Rightarrow> (command_error, printed) result \<times> Database" where
  "run_again_command C env global job yes db =
     on_ok cli_internal (mv_now env) db (\<lambda>now.
     let db1 = mv_others env 1 db;
         (rerun, db2) = rerun_job (find_at C env 0 db) (mgmt_rerun C (mv_fault env 1) db1) db1 job yes now
     in on_ok (management_error env) rerun db2 (\<lambda>rerun.
        on_ok (cli_supervision \<circ> SupervisorAckError_text) (mv_acknowledge env db2 (job_id rerun) (job_revision rerun)) db2 (\<lambda>_.
        (Inr (render_job env rerun None global), db2))))"

fun manage_store ::
  "codec \<Rightarrow> manage_env \<Rightarrow> GlobalArgs \<Rightarrow> Config \<Rightarrow> string \<Rightarrow> ManagementCommand \<Rightarrow> Database \<Rightarrow>
     (command_error, printed) result \<times> Database" where
  "manage_store C env global config state_dir (List state limit) db =
     on_ok (management_error env) (list_jobs (mgmt_list_jobs C (mv_fault env 0) db) state None limit) db (\<lambda>jobs.
     (Inr (render_jobs env jobs global), db))"
| "manage_store C env global config state_dir (Show job) db =
     on_ok (management_error env) (resolve_job (find_at C env 0 db) job) db (\<lambda>job.
     let db1 = mv_others env 1 db in
     on_ok storage_error (store_list_runs C (mv_fault env 1) db1 (Some (job_id job)) 1) db1 (\<lambda>runs.
     (Inr (render_job env job (case runs of [] \<Rightarrow> None | run # _ \<Rightarrow> run_outcome run) global), db1)))"
| "manage_store C env global config state_dir (History job limit) db =
     on_ok id (find_job_filter C env db job) db (\<lambda>job.
     let db1 = mv_others env 1 db in
     on_ok (management_error env)
       (list_runs (\<lambda>i n. map_err StoreError_text (store_list_runs C (mv_fault env 1) db1 i n)) job limit) db1 (\<lambda>runs.
     (Inr (render_runs env runs global), db1)))"
| "manage_store C env global config state_dir (Output run) db =
     on_ok output_cli_error (read_run_output (job_output_store C (mv_fault env) db) (mv_files env) state_dir run) db (\<lambda>out.
     (Inr (render_run_output env out global), db))"
| "manage_store C env global config state_dir Ps db =
     on_ok storage_error (active_runs C (mv_fault env 0) db) db (\<lambda>runs. (render_processes env runs global, db))"
| "manage_store C env global config state_dir (Cancel job grace) db =
     on_ok (cli_usage \<circ> DurationError_text)
       (case grace of None \<Rightarrow> Inr (cancel_grace config) | Some txt \<Rightarrow> DurationSeconds_from_str txt) db (\<lambda>grace.
     let (cancelled, db1) = cancel_job C (mv_cancel env) grace job db
     in on_ok (management_error env) cancelled db1 (\<lambda>job. (Inr (render_job env job None global), db1)))"
| "manage_store C env global config state_dir (Remove job cancel keep_history) db =
     rm_command C env global config job cancel keep_history db"
| "manage_store C env global config state_dir (Run job yes) db = run_again_command C env global job yes db"

fun manage_without_database :: "manage_env \<Rightarrow> GlobalArgs \<Rightarrow> ManagementCommand \<Rightarrow> (command_error, printed) result" where
  "manage_without_database env global (List _ _) = Inr (render_jobs env [] global)"
| "manage_without_database env global (History None _) = Inr (render_runs env [] global)"
| "manage_without_database env global Ps = render_processes env [] global"
| "manage_without_database env global _ = Inl (cli_not_found ''job or run not found'')"

text \<open>\<open>open_management\<close>: the directories, the configuration and the database, if its file exists.\<close>

record open_env =
  oe_paths :: "(PathError, PlatformPaths) result"
  oe_submit :: submit_env
  oe_database_is_file :: bool
  oe_open :: "(StoreError, unit) result"

definition open_management :: "open_env \<Rightarrow> GlobalArgs \<Rightarrow> (command_error, bool \<times> PlatformPaths \<times> Config) result" where
  "open_management oe global =
     try_bind (map_err (cli_permission \<circ> PathError_text) (oe_paths oe)) (\<lambda>paths.
     try_bind (map_err (cli_usage \<circ> ConfigError_text) (load_effective_config (oe_submit oe) (pp_state_dir paths) global False)) (\<lambda>config.
     if \<not> oe_database_is_file oe then Inr (False, paths, config)
     else try_bind (map_err storage_error (oe_open oe)) (\<lambda>_. Inr (True, paths, config))))"

definition manage ::
  "codec \<Rightarrow> manage_env \<Rightarrow> open_env \<Rightarrow> GlobalArgs \<Rightarrow> ManagementCommand \<Rightarrow> Database \<Rightarrow> (command_error, printed) result \<times> Database" where
  "manage C env oe global command db =
     on_ok id (open_management oe global) db (\<lambda>(has_store, paths, config).
     if \<not> has_store then (manage_without_database env global command, db)
     else manage_store C env global config (pp_state_dir paths) command db)"

text \<open>The exit code and what is printed.\<close>

definition run_management :: "json_text \<Rightarrow> GlobalArgs \<Rightarrow> (command_error, printed) result \<Rightarrow> nat \<times> printed" where
  "run_management J global res =
     (case res of Inr shown \<Rightarrow> (0, shown) | Inl e \<Rightarrow> (ce_exit e, print_error J (g_json global) e))"

datatype ServiceAction = ServiceStatusAction | ServiceInstallAction | ServiceUninstallAction

definition service_operation ::
  "json_text \<Rightarrow> 's service_env \<Rightarrow> GlobalArgs \<Rightarrow> ServiceAction \<Rightarrow> (PathError, PlatformPaths) result \<Rightarrow>
     (string \<Rightarrow> (PathError, unit) result) \<Rightarrow> (PlatformPaths \<Rightarrow> (command_error, NativeServiceManager) result) \<Rightarrow> 's service_world \<Rightarrow>
     (command_error, printed) result \<times> 's service_world" where
  "service_operation J env global action paths ensure_dir native w =
     on_ok (cli_permission \<circ> PathError_text) paths w (\<lambda>paths.
     on_ok (cli_permission \<circ> PathError_text)
       (if action = ServiceInstallAction
        then try_bind (ensure_dir (pp_state_dir paths)) (\<lambda>_. ensure_dir (pp_runtime_dir paths)) else Inr ()) w (\<lambda>_.
     on_ok id (native paths) w (\<lambda>m.
     case action of
       ServiceStatusAction \<Rightarrow>
         and_then (sm_status (native_manager env m) w) cli_capability (\<lambda>status w.
         (Inr (show_either global (js_status J status) (service_status_text status)), w))
     | ServiceInstallAction \<Rightarrow>
         and_then (install_service (native_manager env m) w) (cli_capability \<circ> ServiceLifecycleError_text) (\<lambda>change w.
         (Inr (show_either global (js_change J change) (service_change_text change)), w))
     | ServiceUninstallAction \<Rightarrow>
         and_then (uninstall_service (native_manager env m) w) (cli_capability \<circ> ServiceLifecycleError_text) (\<lambda>change w.
         (Inr (show_either global (js_change J change) (service_change_text change)), w)))))"

definition run_doctor ::
  "json_text \<Rightarrow> bool \<Rightarrow> ('j DoctorReport \<Rightarrow> (string, string) result) \<Rightarrow> GlobalArgs \<Rightarrow> (command_error, 'j DoctorReport) result \<Rightarrow> nat \<times> printed" where
  "run_doctor J stdout_is_terminal report_json global report =
     (case report of
        Inr report \<Rightarrow>
          (doctor_exit report, show_either global (report_json report)
             (doctor_text (HumanRenderer_new (case g_color global of None \<Rightarrow> ColorArg.Auto | Some c \<Rightarrow> c) stdout_is_terminal) report))
      | Inl e \<Rightarrow> (ce_exit e, print_error J (g_json global) e))"

text \<open>The output policy of the process: explicit flags, else the configuration if it loads.\<close>

definition resolve_output_policy :: "(PathError, PlatformPaths) result \<Rightarrow> (PlatformPaths \<Rightarrow> (ConfigError, Config) result) \<Rightarrow> GlobalArgs \<Rightarrow> GlobalArgs" where
  "resolve_output_policy paths load global =
     (case paths of
        Inl _ \<Rightarrow> global
      | Inr paths \<Rightarrow>
          (case load paths of
             Inl _ \<Rightarrow> global
           | Inr config \<Rightarrow>
               (let global = (if \<not> g_quiet global \<and> \<not> g_verbose global
                     then global\<lparr> g_quiet := (config_verbosity config = Quiet), g_verbose := (config_verbosity config = Verbose) \<rparr>
                     else global)
                in if g_color global = None
                   then global\<lparr> g_color := Some (case config_color config of
                       ColorMode.Auto \<Rightarrow> ColorArg.Auto | ColorMode.Always \<Rightarrow> ColorArg.Always | ColorMode.Never \<Rightarrow> ColorArg.Never) \<rparr>
                   else global)))"

section \<open>What the commands do\<close>

fun reads_only :: "ManagementCommand \<Rightarrow> bool" where
  "reads_only (List _ _) = True"
| "reads_only (Show _) = True"
| "reads_only (History _ _) = True"
| "reads_only (Output _) = True"
| "reads_only Ps = True"
| "reads_only _ = False"

lemma on_ok_snd: "(\<And>a. snd (k a) = db) \<Longrightarrow> snd (on_ok convert r db k) = db"
  by (simp add: on_ok_def split: sum.split)

lemma store_reads_only:
  assumes "\<And>n d. mv_others env n d = d" "reads_only command"
  shows "snd (manage_store C env global config state_dir command db) = db"
  using assms(2) by (cases command) (auto simp: assms(1) intro!: on_ok_snd)

text \<open>
  Listing, showing, the history, the output and the process list never change the database,
  whatever fails, and an installation without a database gets none: with no other writer the
  database afterwards is the one before.
\<close>

theorem read_commands_change_nothing:
  assumes "\<And>n d. mv_others env n d = d" and "reads_only command"
  shows "snd (manage C env oe global command db) = db"
  using store_reads_only [OF assms] by (auto simp: manage_def intro!: on_ok_snd split: prod.split)

lemma resolve_job_failed:
  assumes "resolve_job f prefix = Inl e"
  shows "(\<exists>msg. e = ManagementError.Store msg) \<or> ce_exit (management_cli_error ids e) = 3"
proof (cases "f prefix 2")
  case (Inr found)
  then show ?thesis
    using assms by (cases found; cases "tl found") (auto simp: resolve_job_def cli_not_found_def result_simps split: if_splits)
qed (use assms in \<open>auto simp: resolve_job_def cli_not_found_def result_simps split: if_splits\<close>)

lemma rerun_errors:
  assumes "rerun_job (mgmt_find C find_fault db) (mgmt_rerun C fault db1) db1 prefix confirm now = (Inl e, db')"
  shows "(\<exists>msg. e = ManagementError.Store msg) \<or> db' = db1 \<and> (ce_exit (management_cli_error ids e) = 3 \<or> ce_exit (management_cli_error ids e) = 4)"
proof (cases "resolve_job (mgmt_find C find_fault db) prefix")
  case (Inl x)
  from resolve_job_failed [OF this, of ids] assms Inl show ?thesis by (auto simp: rerun_job_def on_ok_def)
next
  case (Inr job)
  with assms show ?thesis
    by (cases "prepare_rerun C fault db1 (job_id job) (job_revision job) now")
      (auto simp: rerun_job_def on_ok_def cli_conflict_def mgmt_rerun_def result_simps split: if_splits)
qed

text \<open>A request to run again that fails has written nothing, or has armed the job and could not read it back.\<close>

lemma rerun_failed:
  assumes "rerun_job (mgmt_find C find_fault db) (mgmt_rerun C fault db1) db1 prefix confirm now = (Inl e, db')"
    and "recoverable db" "recoverable db1"
  shows "db' = db1 \<or> (\<exists>i r s. visible db1 i = Some (r, s) \<and> JobState_is_terminal s \<and> id_matches prefix i
    \<and> visible db' = (visible db1)(i \<mapsto> (r + 1, JobState.Waiting)) \<and> recoverable db')"
proof (cases "resolve_job (mgmt_find C find_fault db) prefix")
  case (Inl x)
  with assms(1) show ?thesis by (auto simp: rerun_job_def on_ok_def)
next
  case (Inr j)
  show ?thesis
  proof (cases "rerun_transaction C fault db1 (job_id j) (job_revision j) now")
    case (Inl x)
    with assms(1) Inr show ?thesis by (auto simp: rerun_job_def on_ok_def mgmt_rerun_def prepare_rerun_def split: if_splits)
  next
    case t: (Inr d)
    have "db' = db1 \<or> db' = d"
      using assms(1) Inr t by (auto simp: rerun_job_def on_ok_def mgmt_rerun_def prepare_rerun_def split: if_splits)
    moreover have "id_matches prefix (job_id j)"
      using management.resolve_Inr(1) [OF assms(2) Inr] management.resolve_Inr(2) [OF assms(2) Inr, of "job_id j"] by simp
    ultimately show ?thesis using rerun_visible [OF t assms(3)] by blast
  qed
qed

text \<open>
  C36. Running a job again, to the exit code.  Only if the job the prefix names had ended and is now
  waiting again with its next revision, due now, and no other job has changed, is the exit code 0 or
  11; then it is 0 exactly when the supervisor acknowledged that revision.  With the codes 3 and 4, an
  unknown or ambiguous prefix and a job that may not run again, nothing was written, and no other
  code than 10, a failing store, is possible.  With code 10 nothing was written, or the job was
  armed in the same way and only reading it back failed.  The other processes may have written
  between the search and the transaction.
\<close>

theorem run_again_command_effect:
  assumes "run_again_command C env global job yes db = (res, db')" and "mv_now env = Inr now"
    and "recoverable db" "recoverable (mv_others env 1 db)" "codec_ok C"
  shows "case fst (run_management J global res) of
      n \<Rightarrow> (n = 0 \<or> n = 11 \<longrightarrow> (\<exists>i r s rearmed. visible (mv_others env 1 db) i = Some (r, s) \<and> JobState_is_terminal s \<and> id_matches job i
             \<and> visible db' = (visible (mv_others env 1 db))(i \<mapsto> (r + 1, JobState.Waiting)) \<and> recoverable db'
             \<and> load_job C db' i = Inr (Some rearmed) \<and> job_next_due rearmed = now
             \<and> (n = 0 \<longleftrightarrow> mv_acknowledge env db' i (job_revision rearmed) = Inr ())))
         \<and> (n = 3 \<or> n = 4 \<longrightarrow> db' = mv_others env 1 db)
         \<and> (n = 10 \<longrightarrow> db' = mv_others env 1 db
             \<or> (\<exists>i r s. visible (mv_others env 1 db) i = Some (r, s) \<and> JobState_is_terminal s \<and> id_matches job i
                  \<and> visible db' = (visible (mv_others env 1 db))(i \<mapsto> (r + 1, JobState.Waiting)) \<and> recoverable db'))
         \<and> n \<in> {0, 3, 4, 10, 11}"
proof -
  let ?db1 = "mv_others env 1 db"
  obtain rerun db2 where r: "rerun_job (mgmt_find C (mv_fault env 0) db) (mgmt_rerun C (mv_fault env 1) ?db1) ?db1 job yes now = (rerun, db2)"
    by (cases "rerun_job (mgmt_find C (mv_fault env 0) db) (mgmt_rerun C (mv_fault env 1) ?db1) ?db1 job yes now")
  show ?thesis
  proof (cases rerun)
    case (Inl e)
    then have "res = Inl (management_error env e)" "db' = db2"
      using assms(1,2) r by (auto simp: run_again_command_def on_ok_def find_at_def)
    with rerun_errors [OF r [unfolded Inl], of "mv_debug_ids env"] rerun_failed [OF r [unfolded Inl] assms(3,4)] show ?thesis
      by (auto simp: run_management_def management_error_def cli_storage_def)
  next
    case (Inr j)
    note e = rerun_two_databases [OF r [unfolded Inr] assms(3-5)]
    have d: "db' = db2" using assms(1,2) r Inr
      by (auto simp: run_again_command_def on_ok_def find_at_def split: sum.splits)
    have n: "fst (run_management J global res) = (if mv_acknowledge env db2 (job_id j) (job_revision j) = Inr () then 0 else 11)"
      using assms(1,2) r Inr
      by (auto simp: run_again_command_def on_ok_def find_at_def run_management_def cli_supervision_def split: sum.splits)
    show ?thesis using e d n by auto
  qed
qed


section \<open>A concrete machine\<close>

definition sample_json :: json_text where
  "sample_json =
     \<lparr> js_jobs = (\<lambda>_. Inr []), js_job = (\<lambda>_. Inr []), js_runs = (\<lambda>_. Inr []), js_processes = (\<lambda>_. Inr []), js_output = (\<lambda>_. Inr []),
       js_status = (\<lambda>_. Inr []), js_change = (\<lambda>_. Inr []), js_error = (\<lambda>_ _ _. Inr []) \<rparr>"

definition sample_manage :: manage_env where
  "sample_manage =
     \<lparr> mv_fault = (\<lambda>_ _. None), mv_others = (\<lambda>_ d. d), mv_now = Inr 9, mv_jiff_now = 9, mv_local = (\<lambda>_. []), mv_terminal = False,
       mv_json = sample_json, mv_debug_ids = (\<lambda>_. []), mv_files = sample_files, mv_cancel = sample_cancel (\<lambda>_ d. d),
       mv_acknowledge = (\<lambda>_ _ _. Inl SupervisorAckError.SocketSubstitution), mv_boot = Inr [], mv_proc = (\<lambda>_. Inr None) \<rparr>"

theorem run_again_command_effect_witness:
  "\<exists>db db' i r s rearmed. run_again_command sample_codec sample_manage (a_global sample_args) ''0'' False db = (Inl (cli_supervision ''supervisor socket was substituted''), db')
     \<and> visible db i = Some (r, s) \<and> JobState_is_terminal s \<and> visible db' = (visible db)(i \<mapsto> (r + 1, JobState.Waiting))
     \<and> load_job sample_codec db' i = Inr (Some rearmed) \<and> job_next_due rearmed = 9"
proof -
  obtain db job db' where s: "recoverable db"
    "rerun_job (mgmt_find sample_codec (\<lambda>_. None) db) (mgmt_rerun sample_codec (\<lambda>_. None) db) db ''0'' False 9 = (Inr job, db')"
    by (rule sample_rerun)
  have r: "run_again_command sample_codec sample_manage (a_global sample_args) ''0'' False db
      = (Inl (cli_supervision ''supervisor socket was substituted''), db')"
    using s(2) by (simp add: run_again_command_def sample_manage_def on_ok_def find_at_def)
  have "mv_now sample_manage = Inr 9" "recoverable (mv_others sample_manage 1 db)" "mv_others sample_manage 1 db = db"
    using s(1) by (simp_all add: sample_manage_def)
  with run_again_command_effect [OF r, where J = sample_json and now = 9] s(1) sample_codec_ok
  obtain i t st rearmed where "visible db i = Some (t, st)" "JobState_is_terminal st"
    "visible db' = (visible db)(i \<mapsto> (t + 1, JobState.Waiting))" "load_job sample_codec db' i = Inr (Some rearmed)" "job_next_due rearmed = 9"
    by (auto simp: run_management_def cli_supervision_def)
  with r show ?thesis by blast
qed

theorem read_commands_change_nothing_witness:
  "reads_only Ps \<and> snd (manage sample_codec sample_manage \<lparr> oe_paths = Inl MissingHome, oe_submit = sample_submit, oe_database_is_file = True,
     oe_open = Inr () \<rparr> (a_global sample_args) Ps empty_db) = empty_db"
  using read_commands_change_nothing [where env = sample_manage and command = Ps] by (simp add: sample_manage_def)


lemma management_exit: "ce_exit (management_error env e) \<noteq> 0"
  by (cases e) (simp_all add: management_error_def cli_not_found_def cli_conflict_def cli_usage_def cli_storage_def)

text \<open>
  Removing a job, to the exit code.  Without \<open>--cancel\<close>, exit code 0 means that exactly one
  visible job has disappeared, one that had ended and that the prefix names, with its runs unless
  the history is kept; with any other code nothing was written: the database is the one the other
  processes left.
\<close>

theorem rm_command_effect:
  assumes "rm_command C env global config job False keep db = (res, db')"
    and "recoverable (mv_others env 2 db)" "recoverable (mv_others env 3 (mv_others env 2 db))"
  shows "case (fst (run_management J global res), mv_others env 3 (mv_others env 2 db)) of (n, db3) \<Rightarrow>
      (n = 0 \<longrightarrow> (\<exists>i r s. visible db3 i = Some (r, s) \<and> JobState_is_terminal s \<and> id_matches job i
         \<and> visible db' = (visible db3)(i := None) \<and> recoverable db'
         \<and> db_runs db' = (if keep then db_runs db3 else filter (\<lambda>row. rr_job_id row \<noteq> job_text i) (db_runs db3))))
      \<and> (n \<noteq> 0 \<longrightarrow> db' \<in> {db, db3})"
proof -
  let ?db2 = "mv_others env 2 db"
  let ?db3 = "mv_others env 3 ?db2"
  let ?removed = "remove_job (mgmt_find C (mv_fault env 2) ?db2) (mgmt_hide C (mv_fault env 3) ?db2 ?db3) job keep"
  consider e where "resolve_job (find_at C env 0 db) job = Inl e"
    | j e where "resolve_job (find_at C env 0 db) job = Inr j" "?removed = Inl e"
    | j removed db4 where "resolve_job (find_at C env 0 db) job = Inr j" "?removed = Inr (removed, db4)"
    by (cases "resolve_job (find_at C env 0 db) job"; cases ?removed) auto
  then show ?thesis
  proof cases
    case 3
    then have "res = Inr (render_job env removed None global)" "db' = db4"
      using assms(1) by (auto simp: rm_command_def on_ok_def find_at_def)
    then show ?thesis
      using job_removal_effect [OF 3(2) assms(2,3)] by (fastforce simp: run_management_def)
  qed (use assms(1) in \<open>auto simp: rm_command_def on_ok_def find_at_def run_management_def management_exit\<close>)
qed

theorem rm_command_effect_witness:
  "\<exists>db db' shown i r s. rm_command sample_codec sample_manage (a_global sample_args) sample_config ''0'' False False db = (Inr shown, db')
     \<and> visible db i = Some (r, s) \<and> JobState_is_terminal s \<and> visible db' = (visible db)(i := None)"
proof -
  obtain db row job where s: "recoverable db" "db_jobs db = [row]" "db_runs db = []" "jr_id row = job_text (job_id sample_job)"
    "\<not> jr_hidden row" "jr_revision row = 2" "jr_state row = ''missed''" "decode_job_row sample_codec row = Inr job"
    "job_id job = job_id sample_job" "job_revision job = Revision 2" "job_state job = JobState.Missed" "job_created_at job = 0"
    by (rule sample_ended)
  have "\<exists>job db'. remove_job (mgmt_find sample_codec (\<lambda>_. None) db) (mgmt_hide sample_codec (\<lambda>_. None) db db) ''0'' False = Inr (job, db')"
    using s sample_found [OF s(2,4,5,8)]
    by (simp add: remove_job_def JobState_is_terminal_def mgmt_hide_def hide_job_def statement_def load_job_def
        revision_i64_def update_jobs_def terminal_job_row_def Let_def)
  then obtain removed db' where r: "remove_job (mgmt_find sample_codec (\<lambda>_. None) db) (mgmt_hide sample_codec (\<lambda>_. None) db db) ''0'' False
      = Inr (removed, db')" by blast
  have c: "rm_command sample_codec sample_manage (a_global sample_args) sample_config ''0'' False False db
      = (Inr (render_job sample_manage removed None (a_global sample_args)), db')"
    using r sample_found [OF s(2,4,5,8)] by (simp add: rm_command_def on_ok_def find_at_def sample_manage_def Let_def)
  obtain i t st where e: "visible db i = Some (t, st)" "JobState_is_terminal st" "visible db' = (visible db)(i := None)"
    using rm_command_effect [OF c, where J = sample_json] s(1) by (auto simp: sample_manage_def run_management_def)
  then show ?thesis using c by blast
qed


end
