(* ===== verification/Migration.thy ===== *)
theory Migration
  imports Paths Job_Store "HOL-Library.AList"
begin

text \<open>
  Opening the database (\<open>src/infrastructure/sqlite/mod.rs\<close>) and the schema of \<open>migrations/\<close>.  The
  database file is its metadata, its \<open>user_version\<close> and its schema, the tables with their columns
  and the indexes; a migration script is the list of its statements.  Other processes may act before
  every step: \<open>od_path\<close> on the directory entry until the connection is open, \<open>od_others\<close> on the
  database afterwards; \<open>od_fault\<close> gives the errors of the operating system and of SQLite that do not
  follow from the state.  A transaction that does not commit leaves no trace.
\<close>

section \<open>Schema\<close>

datatype ddl =
    CreateTable string "string list"
  | AddColumn string string
  | CreateIndex string string "string list"
  | InsertRow string "string list" string

datatype ddl_error =
    ObjectExists string
  | DuplicateColumn string
  | NoSuchTable string
  | NoSuchColumn string
  | UniqueFailed string

record schema =
  sc_tables :: "(string \<times> string list) list"
  sc_indexes :: "string list"
  sc_keys :: "(string \<times> string) list"

definition empty_schema :: schema where
  "empty_schema = \<lparr> sc_tables = [], sc_indexes = [], sc_keys = [] \<rparr>"

text \<open>
  What SQLite does with a statement: names of tables and indexes are unique, columns too, an index
  and an inserted row name existing columns, and a row has a new primary key.
\<close>

definition name_taken :: "string \<Rightarrow> schema \<Rightarrow> bool" where
  "name_taken name s \<longleftrightarrow> map_of (sc_tables s) name \<noteq> None \<or> name \<in> set (sc_indexes s)"

definition with_columns :: "schema \<Rightarrow> string \<Rightarrow> string list \<Rightarrow> (ddl_error, unit) result" where
  "with_columns s name columns =
     (case map_of (sc_tables s) name of
        None \<Rightarrow> Inl (NoSuchTable name)
      | Some present \<Rightarrow> (case filter (\<lambda>c. c \<notin> set present) columns of [] \<Rightarrow> Inr () | c # _ \<Rightarrow> Inl (NoSuchColumn c)))"

fun execute_ddl :: "ddl \<Rightarrow> schema \<Rightarrow> (ddl_error, schema) result" where
  "execute_ddl (CreateTable name columns) s =
     (if name_taken name s then Inl (ObjectExists name)
      else Inr (s\<lparr> sc_tables := sc_tables s @ [(name, columns)] \<rparr>))"
| "execute_ddl (AddColumn name column) s =
     (case map_of (sc_tables s) name of
        None \<Rightarrow> Inl (NoSuchTable name)
      | Some present \<Rightarrow>
          if column \<in> set present then Inl (DuplicateColumn column)
          else Inr (s\<lparr> sc_tables := AList.update name (present @ [column]) (sc_tables s) \<rparr>))"
| "execute_ddl (CreateIndex name table_name columns) s =
     (if name_taken name s then Inl (ObjectExists name)
      else try_bind (with_columns s table_name columns) (\<lambda>_. Inr (s\<lparr> sc_indexes := sc_indexes s @ [name] \<rparr>)))"
| "execute_ddl (InsertRow name columns key) s =
     try_bind (with_columns s name columns) (\<lambda>_.
     if (name, key) \<in> set (sc_keys s) then Inl (UniqueFailed name)
     else Inr (s\<lparr> sc_keys := (name, key) # sc_keys s \<rparr>))"

fun execute_batch :: "ddl list \<Rightarrow> schema \<Rightarrow> (ddl_error, schema) result" where
  "execute_batch [] s = Inr s"
| "execute_batch (cmd # rest) s = try_bind (execute_ddl cmd s) (execute_batch rest)"

definition initial_sql :: "ddl list" where
  "initial_sql =
     [CreateTable ''metadata'' [''key'', ''value''],
      CreateTable ''migrations'' [''version'', ''applied_at_utc''],
      CreateTable ''jobs'' [''id'', ''revision'', ''name'', ''description'', ''created_at_utc'', ''updated_at_utc'', ''state'',
        ''runtime_tier'', ''schedule_json'', ''missed_policy'', ''execution_json'', ''next_due_utc'', ''timezone_database_version'',
        ''owner_uid''],
      CreateTable ''runs'' [''id'', ''job_id'', ''sequence'', ''scheduled_for_utc'', ''created_at_utc'', ''started_at_utc'',
        ''finished_at_utc'', ''state'', ''claim_token'', ''monitor_identity_json'', ''command_identity_json'', ''process_group_id'',
        ''exit_code'', ''terminating_signal'', ''failure'', ''outcome_json'', ''stdout_path'', ''stderr_path'', ''stdout_truncated'',
        ''stderr_truncated''],
      CreateTable ''transitions'' [''id'', ''job_id'', ''run_id'', ''from_state'', ''to_state'', ''occurred_at_utc'', ''actor'',
        ''reason'', ''revision''],
      CreateIndex ''jobs_state_due_idx'' ''jobs'' [''state'', ''next_due_utc''],
      CreateIndex ''runs_job_sequence_idx'' ''runs'' [''job_id'', ''sequence''],
      CreateIndex ''runs_state_idx'' ''runs'' [''state''],
      CreateIndex ''transitions_job_revision_idx'' ''transitions'' [''job_id'', ''revision''],
      InsertRow ''metadata'' [''key'', ''value''] ''schema_version'',
      InsertRow ''migrations'' [''version'', ''applied_at_utc''] ''1'']"

definition hidden_jobs_sql :: "ddl list" where
  "hidden_jobs_sql =
     [AddColumn ''jobs'' ''hidden'', CreateIndex ''jobs_visible_state_due_idx'' ''jobs'' [''hidden'', ''state'', ''next_due_utc'']]"

definition hidden_id_index_sql :: "ddl list" where
  "hidden_id_index_sql = [CreateIndex ''jobs_hidden_id_idx'' ''jobs'' [''hidden'', ''id'']]"

definition CURRENT_SCHEMA_VERSION :: u32 where
  "CURRENT_SCHEMA_VERSION = 3"

definition MIGRATIONS :: "(u32 \<times> ddl list) list" where
  "MIGRATIONS = [(1, initial_sql), (2, hidden_jobs_sql), (3, hidden_id_index_sql)]"

section \<open>Opening\<close>

datatype open_op =
    CanonicalizeParent
  | CreateFile
  | SyncFile
  | StatFile
  | OpenConnection
  | SetBusyTimeout
  | SetForeignKeys
  | SetJournalMode
  | SetSynchronous
  | PollVersion nat
  | ReadVersion
  | BeginMigration
  | SetVersion
  | CommitMigration

record db_file =
  df_meta :: metadata
  df_version :: int
  df_schema :: schema

record ConnectionPragmas =
  cp_foreign_keys :: bool
  cp_journal_mode :: string
  cp_synchronous :: nat
  cp_busy_timeout_ms :: u64

record database_env =
  od_context :: process_context
  od_fault :: "open_op \<Rightarrow> string option"
  od_path :: "open_op \<Rightarrow> db_file option \<Rightarrow> db_file option"
  od_others :: "open_op \<Rightarrow> db_file \<Rightarrow> db_file"
  od_sqlite_file :: metadata
  od_ddl_text :: "ddl_error \<Rightarrow> string"
  od_range_text :: "int \<Rightarrow> string"
  od_foreign_keys :: "(string, bool) result"
  od_journal_mode :: "(string, string) result"
  od_synchronous :: "(string, nat) result"
  od_busy_timeout :: "(string, int) result"

definition io_call :: "database_env \<Rightarrow> open_op \<Rightarrow> (StoreError, unit) result" where
  "io_call env op = (case od_fault env op of None \<Rightarrow> Inr () | Some e \<Rightarrow> Inl (StoreError.Io e))"

definition sql_call :: "database_env \<Rightarrow> open_op \<Rightarrow> (StoreError, unit) result" where
  "sql_call env op = (case od_fault env op of None \<Rightarrow> Inr () | Some e \<Rightarrow> Inl (Sqlite e))"

text \<open>The directory and the file name of the path, as \<open>Path::parent\<close> and \<open>Path::file_name\<close> give them.\<close>

definition canonical_database_path :: "(string \<Rightarrow> (string, string) result) \<Rightarrow> string option \<Rightarrow> string option \<Rightarrow> (StoreError, string) result" where
  "canonical_database_path canonicalize parent name =
     try_bind (ok_or StoreError.InvalidDatabasePath parent) (\<lambda>parent.
     try_bind (ok_or StoreError.InvalidDatabasePath name) (\<lambda>name.
     map_err StoreError.Io (map_ok (\<lambda>p. path_join p name) (canonicalize parent))))"

text \<open>Whether the file was created; the file is left behind when it cannot be synchronised.\<close>

definition prepare_database_file :: "database_env \<Rightarrow> string \<Rightarrow> db_file option \<Rightarrow> (StoreError, bool) result \<times> db_file option" where
  "prepare_database_file env path f =
     (let f = od_path env CreateFile f in
      and_then (io_call env CreateFile, f) id (\<lambda>_ f.
      case f of
        None \<Rightarrow>
          (let f = Some \<lparr> df_meta = new_entry (od_context env) RegularFile 0x180 path, df_version = 0, df_schema = empty_schema \<rparr>
           in and_then (io_call env SyncFile, f) id (\<lambda>_ f. (Inr True, f)))
      | Some _ \<Rightarrow>
          (let f = od_path env StatFile f in
           and_then (io_call env StatFile, f) id (\<lambda>_ f.
           case f of
             None \<Rightarrow> (Inl (StoreError.Io ''No such file or directory (os error 2)''), f)
           | Some d \<Rightarrow>
               if md_kind (df_meta d) \<noteq> RegularFile \<or> md_uid (df_meta d) \<noteq> pc_uid (od_context env) \<or> permissions (df_meta d) \<noteq> 0x180
               then (Inl InsecureDatabaseFile, f) else (Inr False, f)))))"

definition MAX_BUSY_TIMEOUT_MS :: nat where
  "MAX_BUSY_TIMEOUT_MS = 2147483647"

definition configure_connection :: "database_env \<Rightarrow> nat \<Rightarrow> (StoreError, unit) result" where
  "configure_connection env busy_timeout =
     (if busy_timeout = 0 \<or> busy_timeout div 1000000 > MAX_BUSY_TIMEOUT_MS then Inl InvalidBusyTimeout
      else try_bind (sql_call env SetBusyTimeout) (\<lambda>_.
        try_bind (sql_call env SetForeignKeys) (\<lambda>_.
        try_bind (sql_call env SetJournalMode) (\<lambda>_. sql_call env SetSynchronous))))"

definition INIT_SCHEMA_ATTEMPTS :: nat where
  "INIT_SCHEMA_ATTEMPTS = 10"

definition no_schema :: StoreError where
  "no_schema = Corrupt ''existing database file carries no schema''"

text \<open>The polling of an existing file; the argument counts the attempts left.\<close>

fun await_schema :: "database_env \<Rightarrow> nat \<Rightarrow> db_file \<Rightarrow> (StoreError, unit) result \<times> db_file" where
  "await_schema env 0 d = (Inl no_schema, d)"
| "await_schema env (Suc n) d =
     (let d = od_others env (PollVersion n) d in
      and_then (sql_call env (PollVersion n), d) id (\<lambda>_ d.
      if df_version d = 0 then await_schema env n d else (Inr (), d)))"

definition schema_version :: "database_env \<Rightarrow> db_file \<Rightarrow> (StoreError, u32) result" where
  "schema_version env d =
     (if 0 \<le> df_version d \<and> df_version d < 2 ^ 32 then Inr (word_of_int (df_version d))
      else Inl (Sqlite (od_range_text env (df_version d))))"

fun run_scripts :: "(u32 \<times> ddl list) list \<Rightarrow> u32 \<Rightarrow> u32 \<Rightarrow> schema \<Rightarrow> (ddl_error, schema) result" where
  "run_scripts [] current target s = Inr s"
| "run_scripts ((version, sql) # rest) current target s =
     (if current < version \<and> version \<le> target
      then try_bind (execute_batch sql s) (run_scripts rest current target)
      else run_scripts rest current target s)"

text \<open>The version is read before the transaction begins.\<close>

definition migrate_from :: "database_env \<Rightarrow> (u32 \<times> ddl list) list \<Rightarrow> u32 \<Rightarrow> u32 \<Rightarrow> db_file \<Rightarrow> (StoreError, unit) result \<times> db_file" where
  "migrate_from env migrations current target d =
     and_then (sql_call env BeginMigration, d) id (\<lambda>_ d.
     and_then (map_err (Sqlite \<circ> od_ddl_text env) (run_scripts migrations current target (df_schema d)), d) id (\<lambda>s d.
     and_then (sql_call env SetVersion, d) id (\<lambda>_ d.
     and_then (sql_call env CommitMigration, d) id (\<lambda>_ d.
     (Inr (), d\<lparr> df_schema := s, df_version := uint target \<rparr>)))))"

definition apply_migrations :: "database_env \<Rightarrow> (u32 \<times> ddl list) list \<Rightarrow> u32 \<Rightarrow> db_file \<Rightarrow> (StoreError, unit) result \<times> db_file" where
  "apply_migrations env migrations target d =
     (let d = od_others env ReadVersion d in
      and_then (sql_call env ReadVersion, d) id (\<lambda>_ d.
      and_then (schema_version env d, d) id (\<lambda>current d.
      if target < current then (Inl (NewerSchema current target), d)
      else if current = target then (Inr (), d)
      else migrate_from env migrations current target (od_others env BeginMigration d))))"

definition pragmas :: "database_env \<Rightarrow> (StoreError, ConnectionPragmas) result" where
  "pragmas env =
     try_bind (map_err Sqlite (od_foreign_keys env)) (\<lambda>foreign_keys.
     try_bind (map_err Sqlite (od_journal_mode env)) (\<lambda>journal_mode.
     try_bind (map_err Sqlite (od_synchronous env)) (\<lambda>synchronous.
     try_bind (map_err Sqlite (od_busy_timeout env)) (\<lambda>raw.
     if 0 \<le> raw \<and> raw < 2 ^ 64
     then Inr \<lparr> cp_foreign_keys = foreign_keys, cp_journal_mode = journal_mode, cp_synchronous = synchronous,
                cp_busy_timeout_ms = word_of_int raw \<rparr>
     else Inl PragmaMismatch))))"

definition verify_pragmas :: "database_env \<Rightarrow> nat \<Rightarrow> (StoreError, unit) result" where
  "verify_pragmas env busy_timeout =
     (let expected_timeout = busy_timeout div 1000000 in
      if 2 ^ 64 \<le> expected_timeout then Inl InvalidBusyTimeout
      else try_bind (pragmas env) (\<lambda>actual.
        if \<not> cp_foreign_keys actual \<or> cp_journal_mode actual \<noteq> ''wal'' \<or> cp_synchronous actual \<noteq> 2
           \<or> unat (cp_busy_timeout_ms actual) \<noteq> expected_timeout
        then Inl PragmaMismatch else Inr ()))"

text \<open>\<open>Database::open\<close> on the canonical path; the timeout is in nanoseconds.\<close>

definition open_connection :: "database_env \<Rightarrow> bool \<Rightarrow> nat \<Rightarrow> db_file \<Rightarrow> (StoreError, unit) result \<times> db_file" where
  "open_connection env created busy_timeout d =
     and_then (configure_connection env busy_timeout, d) id (\<lambda>_ d.
     and_then (if created then (Inr (), d) else await_schema env INIT_SCHEMA_ATTEMPTS d) id (\<lambda>_ d.
     and_then (apply_migrations env MIGRATIONS CURRENT_SCHEMA_VERSION d) id (\<lambda>_ d.
     (verify_pragmas env busy_timeout, d))))"

definition Database_open :: "database_env \<Rightarrow> string \<Rightarrow> nat \<Rightarrow> db_file option \<Rightarrow> (StoreError, unit) result \<times> db_file option" where
  "Database_open env path busy_timeout f =
     and_then (prepare_database_file env path f) id (\<lambda>created f.
     let f = od_path env OpenConnection f in
     and_then (sql_call env OpenConnection, f) id (\<lambda>_ f.
     map_prod id Some (open_connection env created busy_timeout
       (case f of
          Some d \<Rightarrow> d
        | None \<Rightarrow> \<lparr> df_meta = od_sqlite_file env, df_version = 0, df_schema = empty_schema \<rparr>))))"


section \<open>Versions and schemas\<close>

text \<open>A database is sound if its schema is what the scripts up to its version make of an empty one.\<close>

definition sound_file :: "db_file \<Rightarrow> bool" where
  "sound_file d \<longleftrightarrow> (\<exists>v \<in> {0, 1, 2, 3}. df_version d = uint v \<and> run_scripts MIGRATIONS 0 v empty_schema = Inr (df_schema d))"

definition complete_file :: "db_file \<Rightarrow> bool" where
  "complete_file d \<longleftrightarrow> df_version d = 3 \<and> run_scripts MIGRATIONS 0 3 empty_schema = Inr (df_schema d)"

fun sound_entry :: "db_file option \<Rightarrow> bool" where
  "sound_entry None = True"
| "sound_entry (Some d) = sound_file d"

fun entry_level :: "db_file option \<Rightarrow> int" where
  "entry_level None = -1"
| "entry_level (Some d) = df_version d"

lemma scripts_at:
  "is_ok (run_scripts MIGRATIONS 0 1 empty_schema)" "is_ok (run_scripts MIGRATIONS 0 2 empty_schema)"
  "is_ok (run_scripts MIGRATIONS 0 3 empty_schema)"
  by code_simp+

lemma scripts_again:
  "try_bind (run_scripts MIGRATIONS 0 1 empty_schema) (run_scripts MIGRATIONS 0 3) = Inl (ObjectExists ''metadata'')"
  "try_bind (run_scripts MIGRATIONS 0 2 empty_schema) (run_scripts MIGRATIONS 0 3) = Inl (ObjectExists ''metadata'')"
  "try_bind (run_scripts MIGRATIONS 0 3 empty_schema) (run_scripts MIGRATIONS 0 3) = Inl (ObjectExists ''metadata'')"
  "try_bind (run_scripts MIGRATIONS 0 2 empty_schema) (run_scripts MIGRATIONS 1 3) = Inl (DuplicateColumn ''hidden'')"
  "try_bind (run_scripts MIGRATIONS 0 3 empty_schema) (run_scripts MIGRATIONS 1 3) = Inl (DuplicateColumn ''hidden'')"
  "try_bind (run_scripts MIGRATIONS 0 3 empty_schema) (run_scripts MIGRATIONS 2 3) = Inl (ObjectExists ''jobs_hidden_id_idx'')"
  by code_simp+

lemma scripts_on:
  "try_bind (run_scripts MIGRATIONS 0 1 empty_schema) (run_scripts MIGRATIONS 1 3) = run_scripts MIGRATIONS 0 3 empty_schema"
  "try_bind (run_scripts MIGRATIONS 0 2 empty_schema) (run_scripts MIGRATIONS 2 3) = run_scripts MIGRATIONS 0 3 empty_schema"
  by code_simp+

lemma scripts_at_zero: "run_scripts MIGRATIONS 0 0 empty_schema = Inr empty_schema"
  by code_simp

lemma sound_cases:
  assumes "sound_file d"
  obtains (unmigrated) "df_version d = 0" "df_schema d = empty_schema"
  | (first) "df_version d = 1" "run_scripts MIGRATIONS 0 1 empty_schema = Inr (df_schema d)"
  | (second) "df_version d = 2" "run_scripts MIGRATIONS 0 2 empty_schema = Inr (df_schema d)"
  | (last) "df_version d = 3" "run_scripts MIGRATIONS 0 3 empty_schema = Inr (df_schema d)"
  using assms by (auto simp: sound_file_def scripts_at_zero)

lemma current_cases: "current < (3 :: u32) \<Longrightarrow> current = 0 \<or> current = 1 \<or> current = 2"
  by (auto simp: word_unat_eq_iff word_less_nat_alt)

text \<open>Scripts run on a sound database complete it or fail; they fail if another process was faster.\<close>

lemma scripts_sound:
  assumes "sound_file d" "current < 3" "uint current \<le> df_version d"
  shows "if df_version d = uint current then run_scripts MIGRATIONS current 3 (df_schema d) = run_scripts MIGRATIONS 0 3 empty_schema
    else run_scripts MIGRATIONS current 3 (df_schema d)
      = Inl (if current = 0 then ObjectExists ''metadata'' else if current = 1 then DuplicateColumn ''hidden'' else ObjectExists ''jobs_hidden_id_idx'')"
proof -
  consider "current = 0" | "current = 1" | "current = 2"
    using current_cases [OF assms(2)] by blast
  then show ?thesis
    using assms(1)
  proof cases
    case 1
    with assms(1) show ?thesis by (cases rule: sound_cases) (use scripts_again(1-3) in auto)
  next
    case 2
    with assms(1,3) show ?thesis by (cases rule: sound_cases) (use scripts_again(4,5) scripts_on(1) in auto)
  next
    case 3
    with assms(1,3) show ?thesis by (cases rule: sound_cases) (use scripts_again(6) scripts_on(2) in auto)
  qed
qed


section \<open>Opening with other processes\<close>

text \<open>
  The other processes leave sound files sound and do not go back in versions; they may create the
  file and migrate it at any moment.
\<close>

definition peers_sound :: "database_env \<Rightarrow> bool" where
  "peers_sound env \<longleftrightarrow>
     (\<forall>op d. sound_file d \<longrightarrow> sound_file (od_others env op d) \<and> df_version d \<le> df_version (od_others env op d))
     \<and> (\<forall>op f. sound_entry f \<longrightarrow> sound_entry (od_path env op f) \<and> entry_level f \<le> entry_level (od_path env op f))"

definition advances :: "db_file \<Rightarrow> db_file \<Rightarrow> bool" where
  "advances d d' \<longleftrightarrow> sound_file d' \<and> df_version d \<le> df_version d'"

lemma advances_trans: "advances d d1 \<Longrightarrow> advances d1 d2 \<Longrightarrow> advances d d2"
  by (auto simp: advances_def)

lemma advances_refl: "sound_file d \<Longrightarrow> advances d d"
  by (simp add: advances_def)

lemma peers_advance: "peers_sound env \<Longrightarrow> sound_file d \<Longrightarrow> advances d (od_others env op d)"
  by (auto simp: peers_sound_def advances_def)

lemma schema_version_sound:
  assumes "sound_file d"
  obtains v where "schema_version env d = Inr v" "uint v = df_version d" "v \<le> 3"
  using assms that by (cases rule: sound_cases) (auto simp: schema_version_def)

lemma await_advances:
  assumes "peers_sound env" "sound_file d" "await_schema env n d = (r, d')"
  shows "advances d d' \<and> (r = Inr () \<longrightarrow> 0 < df_version d')"
  using assms(2,3)
proof (induction n arbitrary: d)
  case (Suc n)
  let ?d = "od_others env (PollVersion n) d"
  have d: "advances d ?d" by (rule peers_advance [OF assms(1) Suc.prems(1)])
  then have "sound_file ?d" by (simp add: advances_def)
  then have nonneg: "0 \<le> df_version ?d" by (cases rule: sound_cases) auto
  from Suc.prems(2) consider e where "r = Inl e" "d' = ?d" | "df_version ?d \<noteq> 0" "r = Inr ()" "d' = ?d"
    | "df_version ?d = 0" "await_schema env n ?d = (r, d')"
    by (auto simp: Let_def and_then_eq split: if_splits)
  then show ?case
  proof cases
    case 3
    show ?thesis using Suc.IH [OF \<open>sound_file ?d\<close> 3(2)] d advances_trans by blast
  qed (use d nonneg in auto)
qed (auto simp: advances_refl)

lemma migrate_advances:
  assumes "sound_file d" "current < 3" "uint current \<le> df_version d" "migrate_from env MIGRATIONS current 3 d = (r, d')"
  shows "advances d d' \<and> (r = Inr () \<longrightarrow> complete_file d')"
proof (cases "df_version d = uint current")
  case True
  then obtain s where s: "run_scripts MIGRATIONS current 3 (df_schema d) = Inr s" "run_scripts MIGRATIONS 0 3 empty_schema = Inr s"
    using scripts_sound [OF assms(1-3)] scripts_at(3) by (auto simp: is_ok_def split: sum.splits)
  have "sound_file (d\<lparr> df_schema := s, df_version := 3 \<rparr>)" "complete_file (d\<lparr> df_schema := s, df_version := 3 \<rparr>)"
    using s(2) by (auto simp: sound_file_def complete_file_def)
  moreover have "df_version d \<le> 3" using assms(1) by (cases rule: sound_cases) auto
  ultimately show ?thesis
    using assms(1,4) s(1) by (auto simp: migrate_from_def and_then_eq advances_def)
next
  case False
  then show ?thesis
    using assms(1,4) scripts_sound [OF assms(1-3)] by (auto simp: migrate_from_def and_then_eq advances_refl)
qed

lemma apply_advances:
  assumes "peers_sound env" "sound_file d" "apply_migrations env MIGRATIONS CURRENT_SCHEMA_VERSION d = (r, d')"
  shows "advances d d' \<and> (r = Inr () \<longrightarrow> complete_file d')"
proof -
  let ?d = "od_others env ReadVersion d"
  let ?b = "od_others env BeginMigration ?d"
  have d: "advances d ?d" by (rule peers_advance [OF assms(1,2)])
  then have s: "sound_file ?d" by (simp add: advances_def)
  obtain v where v: "schema_version env ?d = Inr v" "uint v = df_version ?d" "v \<le> 3"
    using s by (rule schema_version_sound)
  have b: "advances ?d ?b" by (rule peers_advance [OF assms(1) s])
  have "complete_file ?d" if "v = 3"
    using s that v(2) by (cases rule: sound_cases) (auto simp: complete_file_def)
  moreover have "advances ?b d' \<and> (r = Inr () \<longrightarrow> complete_file d')" if "v \<noteq> 3" "migrate_from env MIGRATIONS v 3 ?b = (r, d')"
    using that b v(2,3) by (intro migrate_advances) (auto simp: advances_def)
  moreover from assms(3) v(1,3) consider e where "r = Inl e" "d' = ?d" | "v = 3" "r = Inr ()" "d' = ?d"
    | "v \<noteq> 3" "migrate_from env MIGRATIONS v 3 ?b = (r, d')"
    by (auto simp: apply_migrations_def CURRENT_SCHEMA_VERSION_def and_then_eq Let_def split: if_splits)
  ultimately show ?thesis
    using d b advances_trans by (metis (no_types, lifting) sum.distinct(1))
qed


lemma connection_advances:
  assumes "peers_sound env" "sound_file d" "open_connection env created timeout d = (r, d')"
  shows "advances d d' \<and> (r = Inr () \<longrightarrow> complete_file d')"
proof -
  obtain r1 d1 where w: "(if created then (Inr (), d) else await_schema env INIT_SCHEMA_ATTEMPTS d) = (r1, d1)"
    by (cases "if created then (Inr (), d) else await_schema env INIT_SCHEMA_ATTEMPTS d")
  have d1: "advances d d1"
    using w assms(1,2) await_advances by (cases created) (auto simp: advances_refl)
  obtain r2 d2 where a: "apply_migrations env MIGRATIONS CURRENT_SCHEMA_VERSION d1 = (r2, d2)"
    by (cases "apply_migrations env MIGRATIONS CURRENT_SCHEMA_VERSION d1")
  have d2: "advances d1 d2 \<and> (r2 = Inr () \<longrightarrow> complete_file d2)"
    using apply_advances [OF assms(1) _ a] d1 by (simp add: advances_def)
  from assms(3) w a consider "d' = d" "r \<noteq> Inr ()" | "d' = d1" "r \<noteq> Inr ()" | "d' = d2" "r = Inr () \<longrightarrow> r2 = Inr ()"
    by (auto simp: open_connection_def and_then_eq)
  then show ?thesis
    using d1 d2 advances_trans advances_refl [OF assms(2)] by cases blast+
qed

lemma prepare_sound:
  assumes "peers_sound env" "sound_entry f" "prepare_database_file env path f = (r, f')"
  shows "sound_entry f' \<and> entry_level f \<le> entry_level f'"
proof -
  let ?f = "od_path env CreateFile f"
  have f: "sound_entry ?f" "entry_level f \<le> entry_level ?f" using assms(1,2) by (auto simp: peers_sound_def)
  have s: "sound_entry (od_path env StatFile ?f)" "entry_level ?f \<le> entry_level (od_path env StatFile ?f)"
    using assms(1) f(1) by (auto simp: peers_sound_def)
  have new: "sound_entry (Some \<lparr> df_meta = m, df_version = 0, df_schema = empty_schema \<rparr>)" for m
    by (auto simp: sound_file_def scripts_at_zero)
  from assms(3) show ?thesis
    using f s new by (auto simp: prepare_database_file_def Let_def and_then_eq split: option.splits if_splits)
qed

text \<open>
  A private file: a regular file of the user that nobody else may read, write or execute.  Peers that
  keep the metadata neither replace the file once it was examined nor change its owner and mode.
\<close>

definition private_file :: "database_env \<Rightarrow> db_file \<Rightarrow> bool" where
  "private_file env d \<longleftrightarrow> md_kind (df_meta d) = RegularFile \<and> md_uid (df_meta d) = pc_uid (od_context env) \<and> md_mode (df_meta d) AND 0x3F = 0"

definition peers_keep_metadata :: "database_env \<Rightarrow> bool" where
  "peers_keep_metadata env \<longleftrightarrow>
     (\<forall>d. map_option df_meta (od_path env OpenConnection (Some d)) = Some (df_meta d))
     \<and> (\<forall>op d. df_meta (od_others env op d) = df_meta d)"

lemma mode_0600_private: "permissions m = 0x180 \<Longrightarrow> md_mode m AND 0x3F = 0"
proof -
  assume "permissions m = 0x180"
  moreover have "md_mode m AND 0x3F = permissions m AND 0x3F" by (simp add: permissions_def and.assoc)
  ultimately show ?thesis by simp
qed

lemma prepare_private:
  assumes "prepare_database_file env path f = (Inr created, f')"
  shows "\<exists>d. f' = Some d \<and> private_file env d"
  using assms new_file_private [of "od_context env" path]
  by (auto simp: prepare_database_file_def private_file_def and_then_eq Let_def new_entry_def
      split: option.splits if_splits) (metis mode_0600_private)+

lemma await_schema_meta:
  "\<forall>op d. df_meta (od_others env op d) = df_meta d \<Longrightarrow> df_meta (snd (await_schema env n d)) = df_meta d"
  by (induction n arbitrary: d) (auto simp: and_then_def Let_def split: sum.splits)

lemma apply_migrations_meta:
  "\<forall>op d. df_meta (od_others env op d) = df_meta d \<Longrightarrow> df_meta (snd (apply_migrations env migrations target d)) = df_meta d"
  by (auto simp: apply_migrations_def migrate_from_def and_then_def Let_def split: sum.splits)

lemma open_connection_meta:
  assumes "\<forall>op d. df_meta (od_others env op d) = df_meta d"
  shows "df_meta (snd (open_connection env created timeout d)) = df_meta d"
  using await_schema_meta [OF assms] apply_migrations_meta [OF assms]
  by (auto simp: open_connection_def and_then_def split: sum.splits prod.splits) (metis snd_conv)+

lemma open_private:
  assumes "Database_open env path timeout f = (Inr (), f')" "peers_keep_metadata env"
  shows "\<exists>d. f' = Some d \<and> private_file env d"
proof -
  obtain created d0 where p: "prepare_database_file env path f = (Inr created, Some d0)" "private_file env d0"
    using assms(1) prepare_private by (fastforce simp: Database_open_def and_then_eq)
  obtain d1 where d1: "od_path env OpenConnection (Some d0) = Some d1" "df_meta d1 = df_meta d0"
    using assms(2) unfolding peers_keep_metadata_def map_option_eq_Some by blast
  obtain d2 where "open_connection env created timeout d1 = (Inr (), d2)" "f' = Some d2"
    using assms(1) by (cases "open_connection env created timeout d1") (auto simp: Database_open_def p(1) d1(1) and_then_eq Let_def)
  moreover from this have "df_meta d2 = df_meta d1"
    using open_connection_meta [of env created timeout d1] assms(2) by (simp add: peers_keep_metadata_def)
  ultimately show ?thesis using p(2) d1(2) by (simp add: private_file_def)
qed

text \<open>
  C10. Opening the database with other processes at work.  Any number of processes may open, create
  and migrate the database at the same time, and any call may fail: the database stays sound, its
  schema being exactly what the migration scripts up to its version make, each run once; its version
  never goes back; and whoever is told that the database is open has one with all migrations.  Unless
  another process replaces the examined file or changes its owner or mode, that database is a regular
  file of the user which nobody else may read or write, whatever was found at the path before.
\<close>

theorem database_open_sound:
  assumes "Database_open env path timeout f = (r, f')"
    and peers: "peers_sound env" and "sound_entry f"
  shows "sound_entry f' \<and> entry_level f \<le> entry_level f' \<and> (r = Inr () \<longrightarrow> (\<exists>d. f' = Some d \<and> complete_file d
    \<and> (peers_keep_metadata env \<longrightarrow>
         md_kind (df_meta d) = RegularFile \<and> md_uid (df_meta d) = pc_uid (od_context env) \<and> md_mode (df_meta d) AND 0x3F = 0)))"
proof -
  obtain r1 f1 where p: "prepare_database_file env path f = (r1, f1)"
    by (cases "prepare_database_file env path f")
  have f1: "sound_entry f1" "entry_level f \<le> entry_level f1"
    using prepare_sound [OF peers assms(3) p] by simp_all
  let ?f2 = "od_path env OpenConnection f1"
  have f2: "sound_entry ?f2" "entry_level f1 \<le> entry_level ?f2"
    using peers f1(1) by (auto simp: peers_sound_def)
  let ?d = "case ?f2 of Some d \<Rightarrow> d | None \<Rightarrow> \<lparr> df_meta = od_sqlite_file env, df_version = 0, df_schema = empty_schema \<rparr>"
  have d: "sound_file ?d" "entry_level ?f2 \<le> df_version ?d"
    using f2(1) by (auto simp: sound_file_def scripts_at_zero split: option.splits)
  consider "f' = f1" "r \<noteq> Inr ()" | "f' = ?f2" "r \<noteq> Inr ()"
    | created d' where "open_connection env created timeout ?d = (r, d')" "f' = Some d'"
  proof (cases r1)
    case (Inr created)
    obtain r2 d' where "open_connection env created timeout ?d = (r2, d')"
      by (cases "open_connection env created timeout ?d")
    then show thesis
      using that assms(1) p Inr by (cases "od_fault env OpenConnection") (auto simp: Database_open_def and_then_def Let_def sql_call_def)
  qed (use that assms(1) p in \<open>auto simp: Database_open_def and_then_def\<close>)
  then have sound: "sound_entry f' \<and> entry_level f \<le> entry_level f' \<and> (r = Inr () \<longrightarrow> (\<exists>d. f' = Some d \<and> complete_file d))"
  proof cases
    case 3
    then show ?thesis
      using connection_advances [OF peers d(1) 3(1)] d f1 f2 by (auto simp: advances_def)
  qed (use f1 f2 in auto)
  then show ?thesis
    using open_private [of env path timeout f f'] assms(1) by (auto simp: private_file_def)
qed


section \<open>Two upgrades, and an interrupted creation\<close>

text \<open>No errors, and the pragmas stick; nobody else at work.\<close>

definition healthy_database :: "database_env \<Rightarrow> nat \<Rightarrow> bool" where
  "healthy_database env timeout \<longleftrightarrow> od_fault env = (\<lambda>_. None) \<and> 0 < timeout \<and> timeout div 1000000 \<le> MAX_BUSY_TIMEOUT_MS
     \<and> od_foreign_keys env = Inr True \<and> od_journal_mode env = Inr ''wal'' \<and> od_synchronous env = Inr 2
     \<and> od_busy_timeout env = Inr (int (timeout div 1000000))"

definition alone :: "database_env \<Rightarrow> bool" where
  "alone env \<longleftrightarrow> od_path env = (\<lambda>_ f. f) \<and> od_others env = (\<lambda>_ d. d)"

definition own_private :: "database_env \<Rightarrow> db_file \<Rightarrow> bool" where
  "own_private env d \<longleftrightarrow> md_kind (df_meta d) = RegularFile \<and> md_uid (df_meta d) = pc_uid (od_context env) \<and> permissions (df_meta d) = 0x180"

lemma healthy_calls:
  assumes "healthy_database env timeout"
  shows "io_call env op = Inr ()" "sql_call env op = Inr ()" "configure_connection env timeout = Inr ()" "verify_pragmas env timeout = Inr ()"
proof -
  have small: "timeout div 1000000 < 2 ^ 64" using assms by (simp add: healthy_database_def MAX_BUSY_TIMEOUT_MS_def)
  then have "unat (word_of_int (int (timeout div 1000000)) :: u64) = timeout div 1000000"
    by (simp add: unsigned_of_nat take_bit_nat_eq_self)
  then show "io_call env op = Inr ()" "sql_call env op = Inr ()" "configure_connection env timeout = Inr ()" "verify_pragmas env timeout = Inr ()"
    using assms small
    by (simp_all add: healthy_database_def io_call_def sql_call_def configure_connection_def verify_pragmas_def pragmas_def)
qed

lemma await_migrated:
  assumes "df_version d \<noteq> 0" "sql_call env (PollVersion n) = Inr ()" "od_others env (PollVersion n) d = d"
  shows "await_schema env (Suc n) d = (Inr (), d)"
  using assms by (simp add: and_then_def)

lemma open_existing:
  assumes "healthy_database env timeout" "od_path env = (\<lambda>_ f. f)" "own_private env d" "df_version d \<noteq> 0" "\<And>n x. od_others env (PollVersion n) x = x"
  shows "Database_open env path timeout (Some d)
    = map_prod id Some (apply_migrations env MIGRATIONS CURRENT_SCHEMA_VERSION d)"
proof -
  have "await_schema env INIT_SCHEMA_ATTEMPTS d = (Inr (), d)"
    using await_migrated [OF assms(4), of env 9] healthy_calls(2) [OF assms(1)] assms(5)
    by (simp add: INIT_SCHEMA_ATTEMPTS_def eval_nat_numeral)
  then show ?thesis
    using assms(2,3) healthy_calls [OF assms(1)]
    by (cases "apply_migrations env MIGRATIONS CURRENT_SCHEMA_VERSION d")
      (auto simp: Database_open_def prepare_database_file_def open_connection_def and_then_def own_private_def Let_def
        split: sum.splits)
qed

text \<open>
  C19. Two processes upgrading at once.  The version is read before the transaction begins.  When two
  processes open a database of version 1 or 2 at the same time and the second one reads the version
  before the first commits, then the second runs the scripts again and is told that the database
  operation failed, although the database is sound and complete; either process alone succeeds.
\<close>

theorem concurrent_upgrade_refused:
  assumes "healthy_database env timeout" "alone env" "own_private env d" "sound_file d" "df_version d \<in> {1, 2}"
  shows "\<exists>d'. complete_file d' \<and> Database_open env path timeout (Some d) = (Inr (), Some d')
    \<and> Database_open (env\<lparr> od_others := (\<lambda>op x. if op = BeginMigration then d' else x) \<rparr>) path timeout (Some d)
      = (Inl (Sqlite (od_ddl_text env (if df_version d = 1 then DuplicateColumn ''hidden'' else ObjectExists ''jobs_hidden_id_idx''))), Some d')"
proof -
  obtain v where v: "schema_version env d = Inr v" "uint v = df_version d" "v \<le> 3"
    using assms(4) by (rule schema_version_sound)
  have v3: "v < 3" using v(2,3) assms(5) by (auto simp: word_less_def word_le_def)
  obtain s where s: "run_scripts MIGRATIONS v 3 (df_schema d) = Inr s" "run_scripts MIGRATIONS 0 3 empty_schema = Inr s"
    using scripts_sound [OF assms(4) v3] v(2) scripts_at(3) by (auto simp: is_ok_def split: sum.splits)
  let ?d = "d\<lparr> df_schema := s, df_version := 3 \<rparr>"
  let ?env = "env\<lparr> od_others := (\<lambda>op x. if op = BeginMigration then ?d else x) \<rparr>"
  have calls: "sql_call env op = Inr ()" "sql_call ?env op = Inr ()" "schema_version ?env = schema_version env" for op
    using healthy_calls(2) [OF assms(1)] by (simp_all add: sql_call_def schema_version_def fun_eq_iff)
  have complete: "complete_file ?d" and sound: "sound_file ?d" using s(2) by (auto simp: complete_file_def sound_file_def)
  have alone: "apply_migrations env MIGRATIONS CURRENT_SCHEMA_VERSION d = (Inr (), ?d)"
    using calls v v3 s(1) assms(2)
    by (auto simp: apply_migrations_def migrate_from_def alone_def CURRENT_SCHEMA_VERSION_def and_then_def Let_def)
  have again: "run_scripts MIGRATIONS v 3 (df_schema ?d)
      = Inl (if df_version d = 1 then DuplicateColumn ''hidden'' else ObjectExists ''jobs_hidden_id_idx'')"
    using scripts_sound [OF sound v3] v(2) assms(5) current_cases [OF v3] by auto
  have race: "apply_migrations ?env MIGRATIONS CURRENT_SCHEMA_VERSION d
      = (Inl (Sqlite (od_ddl_text env (if df_version d = 1 then DuplicateColumn ''hidden'' else ObjectExists ''jobs_hidden_id_idx''))), ?d)"
    using calls v v3 again
    by (auto simp: apply_migrations_def migrate_from_def CURRENT_SCHEMA_VERSION_def and_then_def Let_def)
  have "healthy_database ?env timeout" "own_private ?env d" using assms(1,3) by (simp_all add: healthy_database_def own_private_def)
  with alone race complete show ?thesis
    using open_existing [of env timeout d path] open_existing [of ?env timeout d path] assms
    by (auto simp: alone_def)
qed


lemma await_unmigrated:
  "df_version d = 0 \<Longrightarrow> od_others env = (\<lambda>_ d. d) \<Longrightarrow> \<exists>e. await_schema env n d = (Inl e, d)"
  by (induction n) (auto simp: and_then_def sql_call_def split: option.splits)

lemma await_unmigrated_healthy:
  "df_version d = 0 \<Longrightarrow> od_others env = (\<lambda>_ d. d) \<Longrightarrow> od_fault env = (\<lambda>_. None) \<Longrightarrow> await_schema env n d = (Inl no_schema, d)"
  by (induction n) (auto simp: and_then_def sql_call_def)

text \<open>
  An interrupted first start cannot be repaired by starting again.  The file is created in one
  step and migrated in another.  If the process ends in between, for instance because the new file
  cannot be synchronised or the process is killed, then every later open is refused, with the message
  that the file carries no schema, and changes nothing: the file is taken for a truncated database,
  never for a fresh installation.
\<close>

theorem interrupted_creation_final:
  assumes "prepare_database_file env path None = (r, Some d)" "alone env" and "alone env2"
  shows "\<exists>e. Database_open env2 path timeout (Some d) = (Inl e, Some d)
    \<and> (healthy_database env2 timeout \<and> own_private env2 d \<longrightarrow> e = no_schema)"
proof -
  have d: "df_version d = 0"
    using assms(1,2) by (auto simp: prepare_database_file_def alone_def Let_def and_then_eq io_call_def split: option.splits)
  have quiet: "od_path env2 = (\<lambda>_ f. f)" "od_others env2 = (\<lambda>_ d. d)" using assms(3) by (simp_all add: alone_def)
  obtain e where e: "await_schema env2 INIT_SCHEMA_ATTEMPTS d = (Inl e, d)"
    using await_unmigrated [OF d quiet(2)] by blast
  have refused: "\<exists>e'. open_connection env2 False timeout d = (Inl e', d)"
    using e by (auto simp: open_connection_def and_then_def split: sum.splits)
  show ?thesis
  proof (cases "healthy_database env2 timeout \<and> own_private env2 d")
    case True
    then have "await_schema env2 INIT_SCHEMA_ATTEMPTS d = (Inl no_schema, d)"
      using await_unmigrated_healthy [OF d quiet(2)] by (simp add: healthy_database_def)
    then show ?thesis
      using True quiet healthy_calls [of env2 timeout]
      by (auto simp: Database_open_def prepare_database_file_def open_connection_def and_then_def own_private_def)
  next
    case False
    then show ?thesis
      using quiet refused
      by (auto simp: Database_open_def prepare_database_file_def and_then_def io_call_def sql_call_def Let_def split: option.splits)
  qed
qed

section \<open>A concrete machine\<close>

definition sample_open :: database_env where
  "sample_open =
     \<lparr> od_context = \<lparr> pc_uid = 7, pc_umask = 0x12, pc_fresh_ino = (\<lambda>_. 1) \<rparr>, od_fault = (\<lambda>_. None), od_path = (\<lambda>_ f. f),
       od_others = (\<lambda>_ d. d), od_sqlite_file = \<lparr> md_kind = RegularFile, md_uid = 7, md_mode = 0x1A4, md_ino = 1 \<rparr>,
       od_ddl_text = (\<lambda>_. ''duplicate column name: hidden''), od_range_text = (\<lambda>_. []), od_foreign_keys = Inr True,
       od_journal_mode = Inr ''wal'', od_synchronous = Inr 2, od_busy_timeout = Inr 2000 \<rparr>"

lemma sample_open_healthy: "healthy_database sample_open 2000000000" "alone sample_open" "peers_sound sample_open"
  by (simp_all add: healthy_database_def alone_def peers_sound_def sample_open_def MAX_BUSY_TIMEOUT_MS_def)

definition sample_new_file :: db_file where
  "sample_new_file = \<lparr> df_meta = \<lparr> md_kind = RegularFile, md_uid = 7, md_mode = 0x180, md_ino = 1 \<rparr>, df_version = 0, df_schema = empty_schema \<rparr>"

lemma sample_prepares: "prepare_database_file sample_open path None = (Inr True, Some sample_new_file)"
  by (simp add: prepare_database_file_def sample_open_def io_call_def and_then_def new_entry_def sample_new_file_def)

theorem database_open_sound_witness:
  "\<exists>d. Database_open sample_open ''/s/atx.db'' 2000000000 None = (Inr (), Some d) \<and> complete_file d
     \<and> md_uid (df_meta d) = 7 \<and> md_mode (df_meta d) AND 0x3F = 0"
proof -
  obtain s where s: "run_scripts MIGRATIONS 0 3 empty_schema = Inr s"
    using scripts_at(3) by (auto simp: is_ok_def split: sum.splits)
  have "Database_open sample_open ''/s/atx.db'' 2000000000 None = (Inr (), Some (sample_new_file\<lparr> df_schema := s, df_version := 3 \<rparr>))"
    using s healthy_calls [OF sample_open_healthy(1)] sample_open_healthy(2)
    by (simp add: Database_open_def sample_prepares and_then_def alone_def open_connection_def apply_migrations_def migrate_from_def
        schema_version_def CURRENT_SCHEMA_VERSION_def sample_new_file_def Let_def)
  moreover have "peers_keep_metadata sample_open" "pc_uid (od_context sample_open) = 7"
    by (simp_all add: peers_keep_metadata_def sample_open_def)
  ultimately show ?thesis using database_open_sound [OF _ sample_open_healthy(3)] by fastforce
qed

theorem concurrent_upgrade_refused_witness:
  "\<exists>d d' env. df_version d = 1 \<and> complete_file d' \<and> Database_open env ''/s/atx.db'' 2000000000 (Some d)
     = (Inl (Sqlite ''duplicate column name: hidden''), Some d')"
proof -
  obtain s where s: "run_scripts MIGRATIONS 0 1 empty_schema = Inr s"
    using scripts_at(1) by (auto simp: is_ok_def split: sum.splits)
  let ?d = "sample_new_file\<lparr> df_schema := s, df_version := 1 \<rparr>"
  have "own_private sample_open ?d" "sound_file ?d" "df_version ?d \<in> {1, 2}"
    using s by (auto simp: own_private_def sound_file_def sample_new_file_def sample_open_def permissions_def)
  from concurrent_upgrade_refused [OF sample_open_healthy(1,2) this, of "''/s/atx.db''"]
  obtain d' env where "complete_file d'" "Database_open env ''/s/atx.db'' 2000000000 (Some ?d)
     = (Inl (Sqlite (od_ddl_text sample_open (DuplicateColumn ''hidden''))), Some d')" by auto
  moreover have "df_version ?d = 1" "od_ddl_text sample_open (DuplicateColumn ''hidden'') = ''duplicate column name: hidden''"
    by (simp_all add: sample_open_def)
  ultimately show ?thesis by metis
qed

theorem interrupted_creation_final_witness:
  "Database_open sample_open ''/s/atx.db'' 2000000000 (Some sample_new_file) = (Inl no_schema, Some sample_new_file)"
proof -
  have "own_private sample_open sample_new_file"
    by (simp add: own_private_def sample_new_file_def sample_open_def permissions_def)
  then show ?thesis
    using interrupted_creation_final [OF sample_prepares sample_open_healthy(2,2), of "''/s/atx.db''" 2000000000] sample_open_healthy(1)
    by auto
qed


end
