(* ===== verification/Clocks.thy ===== *)
theory Clocks
  imports Recurrence
begin

text \<open>
  The clocks (\<open>src/infrastructure/time/mod.rs\<close>, errors of \<open>src/application/clock.rs\<close>): what the code
  makes of the readings of the kernel.  The readings are parameters: the seconds and nanoseconds of
  \<open>CLOCK_BOOTTIME\<close>, the text of the boot identity, the ticks and the timebase of mach, the boot time of
  \<open>sysctl\<close>.
\<close>

section \<open>The code\<close>

datatype ClockError = Unavailable | OutOfRange

fun ClockError_text :: "ClockError \<Rightarrow> string" where
  "ClockError_text Unavailable = ''required platform clock is unavailable''"
| "ClockError_text OutOfRange = ''platform clock returned an out-of-range value''"

definition elapsed_from_parts :: "u64 \<Rightarrow> u64 \<Rightarrow> (ClockError, ElapsedInstant) result" where
  "elapsed_from_parts secs nanos =
     (if sint secs < 0 \<or> \<not> (0 \<le> sint nanos \<and> sint nanos < 1000000000) then Inl OutOfRange
      else ok_or OutOfRange (map_option ElapsedInstant
        (Option.bind (checked_mul (word_of_int (sint secs)) NANOS_PER_SECOND) (\<lambda>v. checked_add v (word_of_int (sint nanos))))))"

definition ticks_to_nanos :: "u128 \<Rightarrow> u32 \<Rightarrow> u32 \<Rightarrow> (ClockError, u128) result" where
  "ticks_to_nanos ticks numerator denominator =
     (if denominator = 0 then Inl Unavailable
      else ok_or OutOfRange (Option.bind (checked_mul ticks (ucast numerator)) (\<lambda>v. checked_div v (ucast denominator))))"

definition elapsed_from_mach :: "int \<Rightarrow> u64 \<Rightarrow> u32 \<times> u32 \<Rightarrow> (ClockError, ElapsedInstant) result" where
  "elapsed_from_mach status ticks info =
     (if status \<noteq> 0 then Inl Unavailable
      else map_ok ElapsedInstant (ticks_to_nanos (ucast ticks) (fst info) (snd info)))"

definition is_ascii_hexdigit :: "char \<Rightarrow> bool" where
  "is_ascii_hexdigit c \<longleftrightarrow> (48 \<le> byte c \<and> byte c \<le> 57) \<or> (97 \<le> byte c \<and> byte c \<le> 102) \<or> (65 \<le> byte c \<and> byte c \<le> 70)"

text \<open>The file \<open>/proc/sys/kernel/random/boot_id\<close>; reading it fails if it is not UTF-8.\<close>

definition linux_boot_identity :: "string option \<Rightarrow> (ClockError, string) result" where
  "linux_boot_identity contents =
     (case contents of
        None \<Rightarrow> Inl Unavailable
      | Some txt \<Rightarrow>
          (let identity = trim txt in
           if length identity \<noteq> 36 \<or> \<not> list_all (\<lambda>c. is_ascii_hexdigit c \<or> c = CHR ''-'') identity then Inl Unavailable
           else Inr identity))"

definition boot_identity_from_timeval :: "int \<Rightarrow> nat \<Rightarrow> int \<times> int \<Rightarrow> (ClockError, string) result" where
  "boot_identity_from_timeval status len boot_time =
     (if status \<noteq> 0 \<or> len \<noteq> 16 \<or> fst boot_time \<le> 0 \<or> snd boot_time < 0 then Inl Unavailable
      else Inr (''macos:'' @ show_nat (nat (fst boot_time)) @ '':'' @ show_nat (nat (snd boot_time))))"

record kernel_clock =
  kc_boottime :: "u64 \<times> u64"
  kc_boot_id :: "string option"

definition now_elapsed :: "kernel_clock \<Rightarrow> (ClockError, ElapsedInstant) result" where
  "now_elapsed k = elapsed_from_parts (fst (kc_boottime k)) (snd (kc_boottime k))"

section \<open>Exactness\<close>

text \<open>A reading of \<open>CLOCK_BOOTTIME\<close> as POSIX has it.\<close>

definition valid_timespec :: "u64 \<times> u64 \<Rightarrow> bool" where
  "valid_timespec t \<longleftrightarrow> 0 \<le> sint (fst t) \<and> 0 \<le> sint (snd t) \<and> sint (snd t) < 1000000000"

definition timespec_nanos :: "u64 \<times> u64 \<Rightarrow> int" where
  "timespec_nanos t = sint (fst t) * 1000000000 + sint (snd t)"

lemma small_u128: "0 \<le> k \<Longrightarrow> k < 2 ^ 128 \<Longrightarrow> unat (word_of_int k :: u128) = nat k"
  by (simp add: unat_eq_nat_uint uint_word_of_int)

lemma sint_u64_less: "sint (x :: u64) < 2 ^ 63"
  using sint_lt [of x] by simp

lemma elapsed_from_parts_ok:
  assumes "valid_timespec t"
  shows "\<exists>v. elapsed_from_parts (fst t) (snd t) = Inr (ElapsedInstant v) \<and> uint v = timespec_nanos t"
proof -
  let ?s = "sint (fst t)" and ?n = "sint (snd t)"
  have r: "0 \<le> ?s" "0 \<le> ?n" "?n < 1000000000" using assms by (simp_all add: valid_timespec_def)
  have s: "?s < 2 ^ 63" by (rule sint_u64_less)
  have u: "unat (word_of_int ?s :: u128) = nat ?s" "unat (word_of_int ?n :: u128) = nat ?n" "unat NANOS_PER_SECOND = 1000000000"
    using small_u128 [OF r(1)] small_u128 [OF r(2)] r s by (simp_all add: NANOS_PER_SECOND_def)
  obtain m where m: "checked_mul (word_of_int ?s) NANOS_PER_SECOND = Some m" "unat m = nat ?s * 1000000000"
    using u r s by (cases "checked_mul (word_of_int ?s) NANOS_PER_SECOND") (auto simp: checked_simps)
  obtain v where v: "checked_add m (word_of_int ?n) = Some v" "unat v = nat ?s * 1000000000 + nat ?n"
    using u m(2) r s by (cases "checked_add m (word_of_int ?n)") (auto simp: checked_simps)
  have "uint v = timespec_nanos t"
    using v(2) r by (simp add: timespec_nanos_def uint_nat)
  then show ?thesis
    using r m(1) v(1) by (simp add: elapsed_from_parts_def)
qed

lemma elapsed_from_parts_refused:
  "\<not> valid_timespec t \<Longrightarrow> elapsed_from_parts (fst t) (snd t) = Inl OutOfRange"
  by (auto simp: elapsed_from_parts_def valid_timespec_def)

lemma ticks_exact:
  assumes "denominator \<noteq> 0"
  shows "ticks_to_nanos (ucast (ticks :: u64)) numerator denominator
    = Inr (of_nat (unat ticks * unat numerator div unat denominator))"
proof -
  let ?t = "ucast ticks :: u128" and ?n = "ucast numerator :: u128" and ?d = "ucast denominator :: u128"
  have u: "unat ?t = unat ticks" "unat ?n = unat numerator" "unat ?d = unat denominator"
    by (simp_all add: unsigned_ucast_eq take_bit_nat_eq_self_iff order.strict_trans2 [OF unsigned_less])
  have b: "unat ticks < 2 ^ 64" "unat numerator < 2 ^ 32" by (rule order.strict_trans2 [OF unsigned_less]; simp)+
  then have prod: "unat ticks * unat numerator < 2 ^ 64 * 2 ^ 32" by (intro mult_strict_mono) simp_all
  then obtain m where m: "checked_mul ?t ?n = Some m" "unat m = unat ticks * unat numerator"
    using u by (cases "checked_mul ?t ?n") (auto simp: checked_simps)
  have "?d \<noteq> 0" using assms u(3) by (metis unat_0 unat_eq_0)
  then obtain v where v: "checked_div m ?d = Some v" "unat v = unat ticks * unat numerator div unat denominator"
    using u(3) m(2) by (simp add: checked_div_def unat_div)
  have "v = of_nat (unat ticks * unat numerator div unat denominator)" unfolding v(2) [symmetric] by simp
  with assms m(1) v(1) show ?thesis by (simp add: ticks_to_nanos_def)
qed

text \<open>
  The elapsed clock neither overflows nor loses time.  Every POSIX reading of the kernel clock is
  read exactly, as its number of nanoseconds, and anything else is refused; so a later reading gives a
  later instant.  A mach reading is exactly ticks times numerator over denominator, rounded down, and
  only a missing timebase is refused.
\<close>

theorem elapsed_clock_exact:
  "(case elapsed_from_parts (fst t) (snd t) of
      Inr now \<Rightarrow> valid_timespec t \<and> uint (as_nanos now) = timespec_nanos t
    | Inl e \<Rightarrow> \<not> valid_timespec t \<and> e = OutOfRange)
    \<and> elapsed_from_mach 0 ticks (numerator, denominator)
      = (if denominator = 0 then Inl Unavailable
         else Inr (ElapsedInstant (of_nat (unat ticks * unat numerator div unat denominator))))"
proof (intro conjI)
  show "case elapsed_from_parts (fst t) (snd t) of Inr now \<Rightarrow> valid_timespec t \<and> uint (as_nanos now) = timespec_nanos t
    | Inl e \<Rightarrow> \<not> valid_timespec t \<and> e = OutOfRange"
    using elapsed_from_parts_ok [of t] elapsed_from_parts_refused [of t] by (cases "valid_timespec t") auto
  show "elapsed_from_mach 0 ticks (numerator, denominator)
      = (if denominator = 0 then Inl Unavailable
         else Inr (ElapsedInstant (of_nat (unat ticks * unat numerator div unat denominator))))"
    by (simp add: elapsed_from_mach_def ticks_exact) (simp add: ticks_to_nanos_def)
qed

lemma elapsed_clock_monotonic:
  assumes "valid_timespec t" "valid_timespec u" "timespec_nanos t < timespec_nanos u"
  shows "\<exists>a b. elapsed_from_parts (fst t) (snd t) = Inr a \<and> elapsed_from_parts (fst u) (snd u) = Inr b \<and> a < b"
  using elapsed_from_parts_ok [OF assms(1)] elapsed_from_parts_ok [OF assms(2)] assms(3)
  by (auto simp: less_ElapsedInstant_def word_less_def)

text \<open>The identity of a boot on macOS determines the boot time.\<close>

lemma colon_split:
  assumes "a @ '':'' @ b = a' @ '':'' @ b'" "CHR '':'' \<notin> set a" "CHR '':'' \<notin> set a'"
  shows "a = a' \<and> b = b'"
  using assms by (induction a arbitrary: a') (auto simp: Cons_eq_append_conv)

lemma macos_boot_identity_inject:
  assumes "boot_identity_from_timeval st n t = Inr s" "boot_identity_from_timeval st' n' t' = Inr s"
  shows "t = t'"
proof -
  have digits: "CHR '':'' \<notin> set (show_nat k)" for k
    using show_nat_digits [of "CHR '':''" k] by (auto simp: is_ascii_digit_def byte_def)
  have "show_nat (nat (fst t)) @ '':'' @ show_nat (nat (snd t)) = show_nat (nat (fst t')) @ '':'' @ show_nat (nat (snd t'))"
    and pos: "0 < fst t" "0 \<le> snd t" "0 < fst t'" "0 \<le> snd t'"
    using assms by (auto simp: boot_identity_from_timeval_def split: if_splits)
  then have "show_nat (nat (fst t)) = show_nat (nat (fst t'))" "show_nat (nat (snd t)) = show_nat (nat (snd t'))"
    using colon_split digits by blast+
  then show ?thesis using show_nat_inject [THEN iffD1] pos by (metis nat_eq_iff2 not_less order.asym prod.collapse zero_less_nat_eq)
qed

end
