(* ===== verification/Session.thy ===== *)
theory Session
  imports Doctor Daemon Recovery_Store Clocks Ipc
begin

text \<open>
  A session of the supervisor (\<open>run_session_supervisor\<close> in \<open>src/supervisor/daemon.rs\<close>): the start, from
  the runtime lock to the rebuilt heap, the threads that then run together (the event loop, the IPC
  thread, the signal thread), and the end.  The threads share the channel of events; their steps are
  interleaved in any order.
\<close>

section \<open>Startup\<close>

fun RetentionError_text :: "RetentionError \<Rightarrow> string" where
  "RetentionError_text InvalidDays = ''retention days must be between 1 and 3650''"

fun ReconciliationError_text :: "ReconciliationError \<Rightarrow> string" where
  "ReconciliationError_text InvalidBootIdentity = ''current boot identity is invalid''"
| "ReconciliationError_text (TerminalJobLoaded i) = ''recovery loaded terminal job '' @ job_text i"
| "ReconciliationError_text (UnexpectedActiveRun i) = ''waiting job '' @ job_text i @ '' has an active run''"
| "ReconciliationError_text DeadlineOverflow = ''deadline arithmetic overflowed''"

fun StartupReconciliationError_text :: "StartupReconciliationError \<Rightarrow> string" where
  "StartupReconciliationError_text (StartupReconciliationError.Plan e) = ReconciliationError_text e"
| "StartupReconciliationError_text (StartupReconciliationError.Store e) = e"

record startup_env =
  sn_state_dir :: "(PathError, unit) result"
  sn_boot :: "(ClockError, string) result"
  sn_files :: proc_files
  sn_pid :: u32
  sn_guard :: guard_context
  sn_open :: "(StoreError, unit) result"
  sn_config :: "(ConfigError, Config) result"
  sn_wall :: "(ClockError, UtcTimestamp) result"
  sn_elapsed :: "(ClockError, ElapsedInstant) result"
  sn_load_fault :: "nat \<Rightarrow> StoreError option"
  sn_edge :: "nat \<Rightarrow> StoreError option"
  sn_apply_fault :: "nat \<Rightarrow> nat \<Rightarrow> StoreError option"
  sn_cleanup_fault :: "nat \<Rightarrow> StoreError option"
  sn_accepts :: "int \<Rightarrow> bool"
  sn_clone_listener :: "(string, unit) result"
  sn_fallback :: "(ClockError, ElapsedInstant) result"
  sn_mask :: "(string, unit) result"
  sn_signal_worker :: "(string, unit) result"
  sn_ipc_thread :: "(string, unit) result"
  sn_stop_worker :: "(DaemonError, unit) result"

definition clock_error :: "ClockError \<Rightarrow> DaemonError" where
  "clock_error e = DaemonError.Clock (ClockError_text e)"

definition recover_startup_state :: "codec \<Rightarrow> startup_env \<Rightarrow> string \<Rightarrow> Database \<Rightarrow> (DaemonError, DeadlineHeap option) result \<times> Database" where
  "recover_startup_state C env boot db =
     on_ok (DaemonError.Recovery \<circ> ConfigError_text) (sn_config env) db (\<lambda>config.
     on_ok (DaemonError.Recovery \<circ> RetentionError_text)
       (RetentionPolicy_new (config_history_days config) (config_terminal_job_days config)) db (\<lambda>policy.
     on_ok clock_error (sn_wall env) db (\<lambda>wall_now.
     on_ok clock_error (sn_elapsed env) db (\<lambda>elapsed_now.
     and_then
       (reconcile_startup (startup_load C (sn_load_fault env)) (startup_apply C (sn_edge env) (sn_apply_fault env))
          (startup_cleanup C (sn_accepts env) (sn_cleanup_fault env) policy) (sn_accepts env)
          (recovery_classify (sn_files env) boot) db wall_now elapsed_now boot)
       (DaemonError.Recovery \<circ> StartupReconciliationError_text)
       (\<lambda>plan db. (Inr (rebuild_deadline_heap plan), db))))))"

text \<open>What follows the lock; the result is the heap and the fallback reading of the clock.\<close>

definition prepare_session :: "codec \<Rightarrow> startup_env \<Rightarrow> string \<Rightarrow> Database \<Rightarrow> (DaemonError, DeadlineHeap option \<times> ElapsedInstant) result \<times> Database" where
  "prepare_session C env boot db =
     on_ok DaemonError.Store (sn_open env) db (\<lambda>_.
     and_then (recover_startup_state C env boot db) id (\<lambda>heap db.
     on_ok DaemonError.Io (sn_clone_listener env) db (\<lambda>_.
     on_ok clock_error (sn_fallback env) db (\<lambda>fallback.
     on_ok DaemonError.Io (sn_mask env) db (\<lambda>_.
     on_ok DaemonError.Io (sn_signal_worker env) db (\<lambda>_.
     case sn_ipc_thread env of
       Inr _ \<Rightarrow> (Inr (heap, fallback), db)
     | Inl e \<Rightarrow> on_ok id (sn_stop_worker env) db (\<lambda>_. (Inl (DaemonError.Io e), db))))))))"

definition supervisor_identity :: "startup_env \<Rightarrow> (DaemonError, string \<times> ProcessIdentitySnapshot) result" where
  "supervisor_identity env =
     try_bind (map_err (DaemonError.Io \<circ> PathError_text) (sn_state_dir env)) (\<lambda>_.
     try_bind (map_err clock_error (sn_boot env)) (\<lambda>boot.
     try_bind (map_err (DaemonError.Process \<circ> ProcessError_text) (inspect (sn_files env) boot (sn_pid env))) (\<lambda>found.
     map_ok (Pair boot) (ok_or MissingIdentity found))))"

definition session_guard :: "startup_env \<Rightarrow> string \<Rightarrow> guard_context" where
  "session_guard env boot = (sn_guard env)\<lparr> gx_classify := map_err ProcessError_text \<circ> classify (sn_files env) boot \<rparr>"

text \<open>The start; an error after the lock is taken drops the guard.\<close>

definition start_session ::
  "codec \<Rightarrow> startup_env \<Rightarrow> runtime_dir \<times> Database \<Rightarrow>
     (DaemonError, RuntimeGuard \<times> DeadlineHeap option \<times> ElapsedInstant) result \<times> (runtime_dir \<times> Database)" where
  "start_session C env w =
     (case supervisor_identity env of
        Inl e \<Rightarrow> (Inl e, w)
      | Inr (boot, identity) \<Rightarrow>
          (case RuntimeGuard_acquire (session_guard env boot) identity (fst w) of
             (Inl e, d) \<Rightarrow> (Inl (DaemonError.Ipc (IpcError_text e)), (d, snd w))
           | (Inr g, d) \<Rightarrow>
               (case prepare_session C env boot (snd w) of
                  (Inl e, db) \<Rightarrow> (Inl e, (RuntimeGuard_drop g d, db))
                | (Inr (heap, fallback), db) \<Rightarrow> (Inr (g, heap, fallback), (d, db)))))"

text \<open>The end: the errors of the two threads, that of the IPC thread first, and the guard is dropped.\<close>

definition end_session ::
  "RuntimeGuard \<Rightarrow> (DaemonError, unit) result \<Rightarrow> (DaemonError, unit) result \<Rightarrow> runtime_dir \<Rightarrow> (DaemonError, unit) result \<times> runtime_dir" where
  "end_session g ipc_result signal_result d =
     (try_bind ipc_result (\<lambda>_. signal_result), RuntimeGuard_drop g d)"

section \<open>What a start leaves behind\<close>

lemma rebuilt_heap_covers:
  obtains h where "rebuild_deadline_heap plan = Some h" "valid_heap h"
    "\<And>d. d \<in> set (plan_deadlines plan) \<Longrightarrow> deadlines h (rd_job_id d) \<noteq> None"
proof -
  obtain h where h: "rebuild_deadline_heap plan = Some h" "valid_heap h"
    "deadlines h = map_of (rev (map (\<lambda>d. (rd_job_id d, rd_elapsed_due d)) (plan_deadlines plan)))"
    using rebuilt_heap_holds_plan by blast
  have "deadlines h (rd_job_id d) \<noteq> None" if "d \<in> set (plan_deadlines plan)" for d
    unfolding h(3) map_of_eq_None_iff using that by force
  with that h(1,2) show thesis by blast
qed

text \<open>A stored run of the job is active, and the monitor recorded with it is alive.\<close>

definition watched :: "codec \<Rightarrow> classifier \<Rightarrow> string \<Rightarrow> Database \<Rightarrow> JobId \<Rightarrow> bool" where
  "watched C inspect_process boot db i \<longleftrightarrow>
     (\<exists>r run. active_run_of db i r \<and> load_run C db r = Inr (Some run) \<and> monitor_alive run inspect_process boot)"

lemma loaded_run:
  assumes "load_nonterminal C fault db = Inr records" "recoverable db" "rec \<in> set records" "rec_active_run rec = Some run"
  shows "load_run C db (run_id run) = Inr (Some run)"
proof -
  have k: "job_keys db" "run_table db" "canonical_ids db" using assms(2) by (auto simp: recoverable_def job_table_def)
  obtain runs jobs where
    runs: "list_all2 (\<lambda>row run. decode_run_row C row = Inr run) (filter active_run_row (db_runs db)) runs"
    and records: "records = map (\<lambda>job. \<lparr> rec_job = job, rec_active_run =
       map_of (rev (map (\<lambda>r. (run_job_id r, r)) runs)) (job_id job) \<rparr>) jobs"
    by (rule load_nonterminal_eq [OF assms(1) k(1,3)])
  have "run \<in> set runs" using assms(3,4) by (auto simp: records dest!: map_of_SomeD)
  then obtain row where row: "row \<in> set (db_runs db)" "decode_run_row C row = Inr run"
    using list_all2_member(2) [OF runs] by auto
  have "\<exists>i j. rr_id row = run_text i \<and> rr_job_id row = job_text j"
    using k(3) row(1) by (auto simp: canonical_ids_def list_all_iff)
  from run_row_of_unique [OF k(2) row(1) decoded_run_text(1) [OF row(2) this]] row(2) show ?thesis
    by (simp add: load_run_def run_row_of_def)
qed

lemma preserved_run_alive:
  assumes "load_nonterminal C fault db = Inr records" "recoverable db"
    and "plan_recovery accepts records inspect_process wall el boot = Inr plan" "r \<in> set (plan_preserved plan)"
  shows "\<exists>run. load_run C db r = Inr (Some run) \<and> monitor_alive run inspect_process boot"
proof -
  obtain rec run where "rec \<in> set records" "rec_active_run rec = Some run" "run_id run = r"
    "keeps_live_run inspect_process boot rec"
    using recovery_actions_justified [OF assms(3)] assms(4) by blast
  with loaded_run [OF assms(1,2)] show ?thesis by (auto simp: keeps_live_run_def)
qed

lemma recovered_state:
  assumes "recover_startup_state C env boot db = (Inr heap, db')" "recoverable db"
  shows "\<exists>h. heap = Some h \<and> valid_heap h
    \<and> (\<forall>i s. stored_job_state db i = Some s \<and> \<not> JobState_is_terminal s \<longrightarrow> deadlines h i \<noteq> None
        \<or> watched C (recovery_classify (sn_files env) boot) boot db i
        \<or> (case stored_job_state db' i of None \<Rightarrow> True | Some t \<Rightarrow> JobState_is_terminal t))"
proof -
  let ?k = "recovery_classify (sn_files env) boot"
  obtain policy wall elapsed plan where st: "reconcile_startup (startup_load C (sn_load_fault env)) (startup_apply C (sn_edge env) (sn_apply_fault env))
      (startup_cleanup C (sn_accepts env) (sn_cleanup_fault env) policy) (sn_accepts env)
      ?k db wall elapsed boot = (Inr plan, db')" "heap = rebuild_deadline_heap plan"
    using assms(1) by (auto simp: recover_startup_state_def on_ok_eq_Inr and_then_eq)
  obtain h where h: "heap = Some h" "valid_heap h" "\<And>d. d \<in> set (plan_deadlines plan) \<Longrightarrow> deadlines h (rd_job_id d) \<noteq> None"
    using rebuilt_heap_covers [of plan] st(2) by metis
  obtain records db1 where load: "startup_load C (sn_load_fault env) db = Inr records"
    and plan: "plan_recovery (sn_accepts env) records ?k wall elapsed boot = Inr plan"
    by (rule startup.startup_steps [OF st(1)])
  have "load_nonterminal C (sn_load_fault env) db = Inr records"
    using load by (auto simp: startup_load_def result_simps)
  note alive = preserved_run_alive [OF this assms(2) plan]
  have "deadlines h i \<noteq> None \<or> watched C ?k boot db i
      \<or> (case stored_job_state db' i of None \<Rightarrow> True | Some t \<Rightarrow> JobState_is_terminal t)"
    if "stored_job_state db i = Some s" "\<not> JobState_is_terminal s" for i s
    using startup.startup_settles [OF assms(2) st(1) that] h(3) alive unfolding watched_def by blast
  with h(1,2) show ?thesis by blast
qed

lemma prepared_session:
  assumes "prepare_session C env boot db = (Inr (heap, fallback), db')"
  shows "recover_startup_state C env boot db = (Inr heap, db')"
  using assms by (cases "sn_ipc_thread env") (auto simp: prepare_session_def on_ok_eq_Inr and_then_eq)

lemma dropped_guard:
  assumes "RuntimeGuard_acquire ctx p d = (Inr g, d1)" "numbered d"
  shows "rd_lock (RuntimeGuard_drop g d1) = None \<and> rd_sock (RuntimeGuard_drop g d1) = None
    \<and> rd_listening (RuntimeGuard_drop g d1) = insert (socket_inode g) (rd_listening d) - {socket_inode g}"
proof -
  obtain bytes m s where "rd_lock d1 = Some (m, bytes)" "md_ino m = lock_inode g" "rd_sock d1 = Some s" "md_ino s = socket_inode g"
    "rd_listening d1 = insert (socket_inode g) (rd_listening d)"
    using acquire_Inr [OF assms] by blast
  then show ?thesis
    by (simp add: RuntimeGuard_drop_def close_listener_def remove_socket_if_inode_matches_def remove_lock_if_inode_matches_def)
qed

text \<open>The start of a supervisor on a machine that holds the sample job.\<close>

definition sample_supervisor :: startup_env where
  "sample_supervisor =
     \<lparr> sn_state_dir = Inr (), sn_boot = Inr ''boot'', sn_files = (\<lambda>_. Inr (Some (stat_line 5 ''x'' sample_words))), sn_pid = 5,
       sn_guard = sample_guard, sn_open = Inr (), sn_config = Inr sample_config, sn_wall = Inr 5,
       sn_elapsed = Inr (ElapsedInstant 7), sn_load_fault = (\<lambda>_. None), sn_edge = (\<lambda>_. None), sn_apply_fault = (\<lambda>_ _. None),
       sn_cleanup_fault = (\<lambda>_. None), sn_accepts = (\<lambda>_. True), sn_clone_listener = Inr (), sn_fallback = Inr (ElapsedInstant 8),
       sn_mask = Inr (), sn_signal_worker = Inr (), sn_ipc_thread = Inr (), sn_stop_worker = Inr () \<rparr>"

lemma sample_supervisor_acquires:
  "\<exists>g d. RuntimeGuard_acquire (session_guard sample_supervisor boot) p clean_dir = (Inr g, d)"
proof -
  have "RuntimeGuard_acquire (session_guard sample_supervisor boot) p clean_dir = RuntimeGuard_acquire sample_guard p clean_dir"
    by (simp add: RuntimeGuard_acquire_def numeral_2_eq_2 clean_dir_def write_lock_def Let_def open_socket_def clear_socket_def
        create_lock_def create_socket_def own_entry_def fill_lock_def sample_guard_def session_guard_def sample_supervisor_def)
  then show ?thesis
    using sample_guard_acquires [of clean_dir p] by (auto simp: clean_dir_def tidy_dir_def)
qed

lemma sample_supervisor_identity: "\<exists>p. supervisor_identity sample_supervisor = Inr (''boot'', p)"
  by (simp add: supervisor_identity_def sample_supervisor_def inspect_def inspect_linux_process_def stat_line_parses
      sample_columns sample_numbers contains_nul_def ok_or_def)

lemma sample_supervisor_prepared:
  assumes "load_nonterminal sample_codec (\<lambda>_. None) db = Inr [sample_record]"
  shows "\<exists>heap fallback db'. prepare_session sample_codec sample_supervisor ''boot'' db = (Inr (heap, fallback), db')"
proof -
  obtain plan db' where "reconcile_startup (startup_load sample_codec (\<lambda>_. None)) (startup_apply sample_codec (\<lambda>_. None) (\<lambda>_ _. None))
      (startup_cleanup sample_codec (\<lambda>_. True) (\<lambda>_. None) \<lparr> history_days = 30, terminal_job_days = 30 \<rparr>) (\<lambda>_. True)
      (recovery_classify (sn_files sample_supervisor) ''boot'') db 5 (ElapsedInstant 7) ''boot'' = (Inr plan, db')"
    using sample_startup [OF assms] by blast
  then show ?thesis
    by (simp add: prepare_session_def recover_startup_state_def on_ok_def and_then_def sample_supervisor_def sample_config_def
        RetentionPolicy_new_def MAX_RETENTION_DAYS_def)
qed

text \<open>
  C8. A supervisor starts completely or not at all.  A start that fails before the runtime lock is
  taken has not touched the database; one that fails afterwards, at whatever step, has removed its
  lock and its socket again; and after a successful start the lock and the listening socket are its
  own, and every job that had not ended is in the heap of the event loop, or has a run with a live
  monitor, or has been ended by the recovery.
\<close>

theorem start_session_complete:
  assumes "start_session C env (d, db) = (r, (d', db'))" and "numbered d" "recoverable db"
  shows "case r of
      Inl e \<Rightarrow> db' = db \<and> (\<nexists>boot p g d1. supervisor_identity env = Inr (boot, p) \<and> RuntimeGuard_acquire (session_guard env boot) p d = (Inr g, d1))
        \<or> rd_lock d' = None \<and> rd_sock d' = None
    | Inr (g, heap, fallback) \<Rightarrow>
        \<exists>boot p h. supervisor_identity env = Inr (boot, p) \<and> owns (sn_guard env) d' p g \<and> heap = Some h \<and> valid_heap h
          \<and> (\<forall>i s. stored_job_state db i = Some s \<and> \<not> JobState_is_terminal s \<longrightarrow> deadlines h i \<noteq> None
              \<or> watched C (recovery_classify (sn_files env) boot) boot db i
              \<or> (case stored_job_state db' i of None \<Rightarrow> True | Some t \<Rightarrow> JobState_is_terminal t))"
proof (cases "supervisor_identity env")
  case (Inl e)
  then show ?thesis using assms(1) by (auto simp: start_session_def)
next
  case (Inr identity)
  obtain boot p where p: "supervisor_identity env = Inr (boot, p)" using Inr by (cases identity) auto
  obtain a d1 where a: "RuntimeGuard_acquire (session_guard env boot) p d = (a, d1)"
    by (cases "RuntimeGuard_acquire (session_guard env boot) p d")
  show ?thesis
  proof (cases a)
    case (Inl e)
    then show ?thesis using assms(1) p a by (auto simp: start_session_def)
  next
    case (Inr g)
    note acquired = a [unfolded Inr]
    obtain q db1 where q: "prepare_session C env boot db = (q, db1)" by (cases "prepare_session C env boot db")
    show ?thesis
    proof (cases q)
      case (Inl e)
      then have "r = Inl e" "d' = RuntimeGuard_drop g d1"
        using assms(1) p acquired q by (auto simp: start_session_def)
      then show ?thesis using dropped_guard [OF acquired assms(2)] by simp
    next
      case (Inr hf)
      obtain heap fallback where hf: "hf = (heap, fallback)" by (cases hf)
      have res: "r = Inr (g, heap, fallback)" "d' = d1" "db' = db1"
        using assms(1) p acquired q Inr hf by (auto simp: start_session_def)
      have "owns (sn_guard env) d' p g"
        using acquire_Inr [OF acquired assms(2)] res(2) by (auto simp: owns_def session_guard_def)
      moreover have "recover_startup_state C env boot db = (Inr heap, db')"
        using prepared_session q Inr hf res(3) by simp
      ultimately show ?thesis using recovered_state [OF _ assms(3)] p res(1) by auto
    qed
  qed
qed

theorem start_session_complete_witness:
  "\<exists>db g heap fallback d' db'. create sample_codec (\<lambda>_. None) empty_db sample_job = Inr db
     \<and> start_session sample_codec sample_supervisor (clean_dir, db) = (Inr (g, heap, fallback), (d', db'))
     \<and> (\<exists>boot p h. supervisor_identity sample_supervisor = Inr (boot, p) \<and> owns sample_guard d' p g \<and> heap = Some h \<and> valid_heap h
         \<and> (\<forall>i s. stored_job_state db i = Some s \<and> \<not> JobState_is_terminal s \<longrightarrow> deadlines h i \<noteq> None
             \<or> watched sample_codec (recovery_classify (sn_files sample_supervisor) boot) boot db i
             \<or> (case stored_job_state db' i of None \<Rightarrow> True | Some t \<Rightarrow> JobState_is_terminal t)))"
proof -
  obtain db row where s: "create sample_codec (\<lambda>_. None) empty_db sample_job = Inr db" "recoverable db"
    "db_jobs db = [row]" "db_runs db = []" "jr_id row = job_text (job_id sample_job)" "jr_revision row = 1"
    "jr_state row = ''scheduled''" "decode_job_row sample_codec row = Inr sample_job"
    by (rule sample_created)
  obtain p where p: "supervisor_identity sample_supervisor = Inr (''boot'', p)" using sample_supervisor_identity by blast
  obtain g d where a: "RuntimeGuard_acquire (session_guard sample_supervisor ''boot'') p clean_dir = (Inr g, d)"
    using sample_supervisor_acquires by blast
  obtain heap fallback db' where "prepare_session sample_codec sample_supervisor ''boot'' db = (Inr (heap, fallback), db')"
    using sample_supervisor_prepared [OF sample_loaded [OF s(3,4,7,8)]] by blast
  with p a have r: "start_session sample_codec sample_supervisor (clean_dir, db) = (Inr (g, heap, fallback), (d, db'))"
    by (simp add: start_session_def)
  have "numbered clean_dir" by (simp add: numbered_def clean_dir_def)
  moreover have "sn_guard sample_supervisor = sample_guard" by (simp add: sample_supervisor_def)
  ultimately show ?thesis using start_session_complete [OF r _ s(2)] s(1) r by auto
qed

section \<open>The threads of a session\<close>

text \<open>
  The state the threads share: the heap of the loop, the channel, the connections that wait to be
  accepted, whether the loop still runs, whether it has asked the IPC thread to end, and whether that
  thread still serves; and the history of events sent and received and of the replies.  The receiving
  end of the channel lives until the function returns, so sending never fails.
\<close>

record running =
  rs_heap :: DeadlineHeap
  rs_channel :: "SupervisorEvent list"
  rs_backlog :: "connection list"
  rs_looping :: bool
  rs_asked :: bool
  rs_serving :: bool
  rs_sent :: "SupervisorEvent list"
  rs_received :: "SupervisorEvent list"
  rs_replies :: "IpcMessage option list"

definition fresh_session :: "DeadlineHeap \<Rightarrow> running" where
  "fresh_session heap =
     \<lparr> rs_heap = heap, rs_channel = [], rs_backlog = [], rs_looping = True, rs_asked = False, rs_serving = True,
       rs_sent = [], rs_received = [], rs_replies = [] \<rparr>"

definition send_events :: "SupervisorEvent list \<Rightarrow> running \<Rightarrow> running" where
  "send_events events s = s\<lparr> rs_channel := rs_channel s @ events, rs_sent := rs_sent s @ events \<rparr>"

text \<open>\<open>request_ipc_shutdown\<close>: a connection like any other.\<close>

definition shutdown_connection :: "(nat \<Rightarrow> wake_env) \<Rightarrow> connection" where
  "shutdown_connection envs = \<lparr> cn_frame = Inr (IpcMessage.Shutdown 1), cn_envs = envs, cn_receiver_alive = True \<rparr>"

text \<open>\<open>watch_signals_with\<close>: the signals waited for, up to the first that is not \<open>SIGCHLD\<close> or an error.\<close>

fun watch_signals :: "nat \<Rightarrow> ((string, nat) result \<times> (string, unit) result) list \<Rightarrow> ((string, unit) result \<times> SupervisorEvent list) option" where
  "watch_signals sigchld [] = None"
| "watch_signals sigchld ((got, reaped) # rest) =
     (case try_bind got (\<lambda>n. map_ok (\<lambda>_. n) reaped) of
        Inl e \<Rightarrow> Some (Inl e, [])
      | Inr n \<Rightarrow> if n \<noteq> sigchld then Some (Inr (), [SupervisorEvent.Shutdown]) else watch_signals sigchld rest)"

text \<open>The signal thread; an error also shuts the loop down (\<open>start_signal_worker_with_configuration\<close>).\<close>

definition signal_worker :: "nat \<Rightarrow> ((string, nat) result \<times> (string, unit) result) list \<Rightarrow> SupervisorEvent list" where
  "signal_worker sigchld signals =
     (case watch_signals sigchld signals of
        None \<Rightarrow> []
      | Some (Inr _, events) \<Rightarrow> events
      | Some (Inl _, events) \<Rightarrow> events @ [SupervisorEvent.Shutdown])"

inductive session_step :: "codec \<Rightarrow> nat option \<Rightarrow> running \<Rightarrow> running \<Rightarrow> bool" for C idle_timeout where
  connect: "session_step C idle_timeout s (s\<lparr> rs_backlog := rs_backlog s @ [c] \<rparr>)"
| serve: "rs_serving s \<Longrightarrow> rs_backlog s = c # rest \<Longrightarrow>
     serve_ipc C [Some (c\<lparr> cn_receiver_alive := True \<rparr>)] = (replies, events) \<Longrightarrow>
     session_step C idle_timeout s (send_events events (s\<lparr> rs_backlog := rest, rs_replies := rs_replies s @ replies,
       rs_serving := (case cn_frame c of Inr (IpcMessage.Shutdown _) \<Rightarrow> False | _ \<Rightarrow> True) \<rparr>))"
| fire: "rs_looping s \<Longrightarrow> loop_iteration idle_timeout tick (rs_heap s) = Some (Fired due, heap) \<Longrightarrow>
     session_step C idle_timeout s (send_events requeued (s\<lparr> rs_heap := heap \<rparr>))"
| take: "rs_looping s \<Longrightarrow> rs_channel s = event # rest \<Longrightarrow> (\<And>w. receive tick w = Event event) \<Longrightarrow>
     loop_iteration idle_timeout tick (rs_heap s) = Some (outcome, heap) \<Longrightarrow> outcome = Continued \<or> outcome = Stopped \<Longrightarrow>
     session_step C idle_timeout s (s\<lparr> rs_heap := heap, rs_channel := rest, rs_received := rs_received s @ [event],
       rs_looping := (outcome = Continued) \<rparr>)"
| timeout: "rs_looping s \<Longrightarrow> rs_channel s = [] \<Longrightarrow> (\<And>w. receive tick w = Timeout) \<Longrightarrow>
     idle_timeout \<noteq> None \<or> next_deadline (rs_heap s) \<noteq> None \<Longrightarrow>
     loop_iteration idle_timeout tick (rs_heap s) = Some (outcome, heap) \<Longrightarrow> outcome = Continued \<or> outcome = Stopped \<Longrightarrow>
     session_step C idle_timeout s (s\<lparr> rs_heap := heap, rs_looping := (outcome = Continued) \<rparr>)"
| signal: "session_step C idle_timeout s (send_events [SupervisorEvent.Shutdown] s)"
| ask: "\<not> rs_looping s \<Longrightarrow> \<not> rs_asked s \<Longrightarrow>
     session_step C idle_timeout s (s\<lparr> rs_backlog := rs_backlog s @ [shutdown_connection envs], rs_asked := True \<rparr>)"

definition session_over :: "running \<Rightarrow> bool" where
  "session_over s \<longleftrightarrow> \<not> rs_looping s \<and> \<not> rs_serving s"

lemma session_events_kept:
  assumes "(session_step C idle_timeout)\<^sup>*\<^sup>* (fresh_session heap) s"
  shows "rs_sent s = rs_received s @ rs_channel s"
  using assms
proof (induction rule: rtranclp_induct)
  case base
  show ?case by (simp add: fresh_session_def)
next
  case (step s s')
  from step(2) step.IH show ?case by cases (auto simp: send_events_def)
qed

lemma empty_loop_stops:
  assumes "\<And>w. receive tick w = Timeout"
  shows "\<exists>h. loop_iteration idle_timeout tick DeadlineHeap_default = Some (Stopped, h)"
proof -
  obtain out h where h: "loop_iteration idle_timeout tick DeadlineHeap_default = Some (out, h)"
    "scheduler_step tick (deadlines DeadlineHeap_default) out (deadlines h)"
    using loop_iteration_refines [OF dh.new(1)] by blast
  from h(2) have "out = Stopped"
    by cases (use assms dh.new(2) in \<open>auto simp: due_jobs_def\<close>)
  with h(1) show ?thesis by blast
qed

text \<open>
  C18. An acknowledged job can be forgotten by an idle supervisor.  No event is lost between the
  threads: what was sent is what the loop has received followed by what is still in the channel.  But
  when the loop ends after the idle timeout, the IPC thread goes on serving until it is told to end,
  and nobody reads the channel any more: a job whose wake arrives in between is acknowledged, the
  submission exits with success, and the session ends with the deadline unread.
\<close>

theorem acknowledged_wake_lost:
  fixes c :: connection
  assumes wake: "cn_frame c = Inr (Wake 1 i revision)" "load_wake_with_retry C (cn_envs c) i = Inr (WakeDisposition.Schedule due)"
  shows "(\<forall>s. (session_step C idle_timeout)\<^sup>*\<^sup>* (fresh_session heap) s \<longrightarrow> rs_sent s = rs_received s @ rs_channel s)
    \<and> (\<exists>s. (session_step C (Some idle))\<^sup>*\<^sup>* (fresh_session DeadlineHeap_default) s \<and> session_over s
         \<and> Some (Ack 1 i revision) \<in> set (rs_replies s) \<and> rs_received s = [] \<and> rs_channel s = [SupervisorEvent.Schedule i due])"
proof (intro conjI allI impI)
  let ?R = "session_step C (Some idle)"
  let ?down = "shutdown_connection (cn_envs c)"
  let ?tick = "\<lparr> first_now = ElapsedInstant 0, second_now = ElapsedInstant 0, receive = (\<lambda>_. Timeout) \<rparr>"
  obtain h where h: "loop_iteration (Some idle) ?tick DeadlineHeap_default = Some (Stopped, h)"
    using empty_loop_stops [of ?tick "Some idle"] by auto
  let ?s0 = "fresh_session DeadlineHeap_default"
  let ?s1 = "?s0\<lparr> rs_heap := h, rs_looping := False \<rparr>"
  have 1: "?R ?s0 ?s1"
    using session_step.timeout [of ?s0 ?tick "Some idle" Stopped h C] h by (simp add: fresh_session_def)
  let ?s2 = "?s1\<lparr> rs_backlog := [c] \<rparr>"
  have 2: "?R ?s1 ?s2" using session_step.connect [of C "Some idle" ?s1 c] by (simp add: fresh_session_def)
  let ?s3 = "?s2\<lparr> rs_backlog := [c, ?down], rs_asked := True \<rparr>"
  have 3: "?R ?s2 ?s3" using session_step.ask [of ?s2 C "Some idle" "cn_envs c"] by (simp add: fresh_session_def)
  let ?s4 = "send_events [SupervisorEvent.Schedule i due] (?s3\<lparr> rs_backlog := [?down], rs_replies := [Some (Ack 1 i revision)] \<rparr>)"
  have 4: "?R ?s3 ?s4"
    using session_step.serve [of ?s3 c "[?down]" C "[Some (Ack 1 i revision)]" "[SupervisorEvent.Schedule i due]" "Some idle"] wake
    by (simp add: fresh_session_def)
  let ?s5 = "?s4\<lparr> rs_backlog := [], rs_replies := [Some (Ack 1 i revision), None], rs_serving := False \<rparr>"
  have 5: "?R ?s4 ?s5"
    using session_step.serve [of ?s4 ?down "[]" C "[None]" "[]" "Some idle"]
    by (simp add: fresh_session_def send_events_def shutdown_connection_def)
  have "?R\<^sup>*\<^sup>* ?s0 ?s5" using 1 2 3 4 5 by (meson converse_rtranclp_into_rtranclp rtranclp.rtrancl_refl)
  then show "\<exists>s. ?R\<^sup>*\<^sup>* ?s0 s \<and> session_over s \<and> Some (Ack 1 i revision) \<in> set (rs_replies s)
      \<and> rs_received s = [] \<and> rs_channel s = [SupervisorEvent.Schedule i due]"
    by (intro exI [of _ ?s5]) (simp add: session_over_def send_events_def fresh_session_def)
qed (rule session_events_kept)

theorem acknowledged_wake_lost_witness:
  "\<exists>db s. create sample_codec (\<lambda>_. None) empty_db sample_job = Inr db
     \<and> (session_step sample_codec (Some 1))\<^sup>*\<^sup>* (fresh_session DeadlineHeap_default) s \<and> session_over s
     \<and> Some (Ack 1 (job_id sample_job) (Revision 1)) \<in> set (rs_replies s) \<and> rs_received s = []"
proof -
  obtain db where c: "create sample_codec (\<lambda>_. None) empty_db sample_job = Inr db"
    using sample_job_created by blast
  have "cn_frame (sample_wake db) = Inr (Wake 1 (job_id sample_job) (Revision 1))"
    by (simp add: sample_wake_def)
  from acknowledged_wake_lost [OF this sample_exchange(1) [OF c]] c show ?thesis by blast
qed

end
