(* ===== verification/Spawn.thy ===== *)
theory Spawn
  imports Process Paths
begin

text \<open>
  Starting processes: the command of a run (\<open>src/infrastructure/process/spawn.rs\<close>), the monitor of a
  run (\<open>spawn_run_monitor\<close> of \<open>src/supervisor/daemon.rs\<close> with the registry of
  \<open>src/supervisor/children.rs\<close>) and the supervisor of a session
  (\<open>src/infrastructure/runtime/mod.rs\<close>).  A \<open>std::process::Command\<close> is a record of what the new
  process gets; the kernel, which starts it or fails, is a parameter.  The second part is the
  inspection of processes on macOS (\<open>src/infrastructure/process/mod.rs\<close>).
\<close>

section \<open>Commands\<close>

datatype stdio = NullDevice | Piped | AppendTo string

datatype isolation = NewGroup | NewSession

text \<open>The working directory and the environment are inherited (\<open>None\<close>) or given.\<close>

record process_command =
  cm_program :: string
  cm_args :: "string list"
  cm_directory :: "string option"
  cm_environment :: "(string \<times> string) list option"
  cm_stdin :: stdio
  cm_stdout :: stdio
  cm_stderr :: stdio
  cm_isolation :: isolation
  cm_closes_files :: bool

datatype SpawnError =
    InvalidShellConfiguration
  | SpawnIo string
  | ExitedBeforeInspection
  | SpawnInspection ProcessError
  | ProcessGroupSetup
  | MissingPipe

fun SpawnError_text :: "SpawnError \<Rightarrow> string" where
  "SpawnError_text InvalidShellConfiguration = ''invalid shell execution configuration''"
| "SpawnError_text (SpawnIo e) = ''command spawn failed: '' @ e"
| "SpawnError_text ExitedBeforeInspection = ''spawned command exited before identity inspection''"
| "SpawnError_text (SpawnInspection e) = ''spawned command identity inspection failed: '' @ ProcessError_text e"
| "SpawnError_text ProcessGroupSetup = ''spawned command did not enter its dedicated process group''"
| "SpawnError_text MissingPipe = ''spawned command output pipe is unavailable''"

text \<open>The program and its arguments; \<open>None\<close> is the panic of an index into an empty argument list.\<close>

definition program_of :: "ExecutionSpec \<Rightarrow> (SpawnError, string \<times> string list) result option" where
  "program_of e =
     (case exec_mode e of
        Direct \<Rightarrow> (case argv e of [] \<Rightarrow> None | program # args \<Rightarrow> Some (Inr (program, args)))
      | Shell \<Rightarrow>
          (case shell_path e of
             None \<Rightarrow> Some (Inl InvalidShellConfiguration)
           | Some sh \<Rightarrow> (case argv e of [] \<Rightarrow> None | script # _ \<Rightarrow> Some (Inr (sh, [''-c'', script])))))"

definition execution_command :: "ExecutionSpec \<Rightarrow> (SpawnError, process_command) result option" where
  "execution_command e =
     map_option (map_ok (\<lambda>(program, args).
       \<lparr> cm_program = program, cm_args = args, cm_directory = Some (working_directory e),
         cm_environment = Some (map (\<lambda>(key, v). (key, expose v)) (environment e)),
         cm_stdin = NullDevice, cm_stdout = Piped, cm_stderr = Piped, cm_isolation = NewGroup, cm_closes_files = False \<rparr>))
       (program_of e)"

section \<open>The command of a run\<close>

definition INSPECTION_ATTEMPTS :: nat where
  "INSPECTION_ATTEMPTS = 20"

text \<open>
  What is done to the child, in order: killing and waiting for it are attempted whatever they answer.
\<close>

datatype child_call = Start u32 | KillChild u32 | WaitChild u32

text \<open>\<open>sw_files k\<close> is the process table at the \<open>k\<close>-th inspection, \<open>sw_start\<close> what the kernel makes of a command.\<close>

record spawn_env =
  sw_start :: "process_command \<Rightarrow> (string, u32) result"
  sw_files :: "nat \<Rightarrow> proc_files"
  sw_boot :: string

text \<open>The loop, by the number of attempts left after this one.\<close>

fun inspect_child :: "spawn_env \<Rightarrow> u32 \<Rightarrow> nat \<Rightarrow> (SpawnError, ProcessIdentitySnapshot) result" where
  "inspect_child env child left =
     (case inspect (sw_files env (INSPECTION_ATTEMPTS - 1 - left)) (sw_boot env) child of
        Inl e \<Rightarrow> Inl (SpawnInspection e)
      | Inr (Some identity) \<Rightarrow> Inr identity
      | Inr None \<Rightarrow> if left = 0 then Inl ExitedBeforeInspection else inspect_child env child (left - 1))"

declare inspect_child.simps [simp del]

text \<open>\<open>reap_failed_spawn\<close>.\<close>

definition reap_failed_spawn :: "u32 \<Rightarrow> child_call list" where
  "reap_failed_spawn child = [KillChild child, WaitChild child]"

record SpawnedChild =
  sc_child :: u32
  sc_identity :: ProcessIdentitySnapshot
  sc_stdout :: bool
  sc_stderr :: bool

definition NativeProcessRunner_spawn ::
  "spawn_env \<Rightarrow> ExecutionSpec \<Rightarrow> ((SpawnError, SpawnedChild) result \<times> child_call list) option" where
  "NativeProcessRunner_spawn env e =
     (case execution_command e of
        None \<Rightarrow> None
      | Some (Inl err) \<Rightarrow> Some (Inl err, [])
      | Some (Inr command) \<Rightarrow>
          (case sw_start env command of
             Inl err \<Rightarrow> Some (Inl (SpawnIo err), [])
           | Inr child \<Rightarrow>
               (case inspect_child env child (INSPECTION_ATTEMPTS - 1) of
                  Inl err \<Rightarrow> Some (Inl err, Start child # reap_failed_spawn child)
                | Inr identity \<Rightarrow>
                    if uint (pid identity) \<noteq> process_group_id identity \<or> 2 ^ 31 \<le> uint (pid identity)
                    then Some (Inl ProcessGroupSetup, Start child # reap_failed_spawn child)
                    else Some (Inr \<lparr> sc_child = child, sc_identity = identity, sc_stdout = True, sc_stderr = True \<rparr>, [Start child]))))"

text \<open>The pipes are taken in turn; a missing second one does not give the first one back.\<close>

definition take_output :: "SpawnedChild \<Rightarrow> (SpawnError, unit) result \<times> SpawnedChild" where
  "take_output c =
     (if \<not> sc_stdout c then (Inl MissingPipe, c)
      else (let c = c\<lparr> sc_stdout := False \<rparr>
            in if \<not> sc_stderr c then (Inl MissingPipe, c) else (Inr (), c\<lparr> sc_stderr := False \<rparr>)))"

definition terminate_and_wait :: "SpawnedChild \<Rightarrow> child_call list" where
  "terminate_and_wait c = reap_failed_spawn (sc_child c)"

section \<open>The monitor of a run and the supervisor of a session\<close>

text \<open>\<open>MonitorChildren::spawn\<close>: the map of children is sorted by process number.\<close>

fun registry_insert :: "u32 \<Rightarrow> 'c \<Rightarrow> 'c registry \<Rightarrow> 'c registry" where
  "registry_insert p c [] = [(p, c)]"
| "registry_insert p c ((q, d) # children) =
     (if p < q then (p, c) # (q, d) # children
      else if p = q then (p, c) # children
      else (q, d) # registry_insert p c children)"

definition MonitorChildren_spawn ::
  "bool \<Rightarrow> (process_command \<Rightarrow> (string, u32) result) \<Rightarrow> process_command \<Rightarrow> process_command registry \<Rightarrow>
     (string, unit) result \<times> process_command registry" where
  "MonitorChildren_spawn poisoned start command children =
     (if poisoned then (Inl ''monitor child registry poisoned'', children)
      else case start command of
        Inl e \<Rightarrow> (Inl e, children)
      | Inr child \<Rightarrow> (Inr (), registry_insert child command children))"

text \<open>What both starts do with the file system and the executable; faults are indexed by the step.\<close>

record launch_env =
  lx_context :: process_context
  lx_fault :: "nat \<Rightarrow> string option"
  lx_interfere :: "file_tree \<Rightarrow> file_tree"
  lx_exe :: "(string, string) result"
  lx_poisoned :: bool
  lx_start :: "process_command \<Rightarrow> (string, u32) result"

definition launch_step :: "launch_env \<Rightarrow> nat \<Rightarrow> (string, unit) result" where
  "launch_step env k = (case lx_fault env k of None \<Rightarrow> Inr () | Some e \<Rightarrow> Inl e)"

text \<open>From the open directory to the executable: the log is \<open>supervisor.log\<close> in the state directory.\<close>

definition open_log :: "launch_env \<Rightarrow> string \<Rightarrow> file_tree \<Rightarrow> (string, string \<times> string) result \<times> file_tree" where
  "open_log env state_directory fs =
     and_then (launch_step env 2, fs) id (\<lambda>_ fs.
     and_then (open_or_create_private_append_log (lx_context env) (\<lambda>k. lx_fault env (3 + k)) (lx_interfere env) fs
         state_directory ''supervisor.log'') PathError_text (\<lambda>log fs.
     and_then (launch_step env 5, fs) id (\<lambda>_ fs.
     and_then (lx_exe env, fs) id (\<lambda>exe fs. (Inr (log, exe), fs)))))"

definition detached_command :: "string \<Rightarrow> string \<Rightarrow> string list \<Rightarrow> bool \<Rightarrow> process_command" where
  "detached_command exe log args closes =
     \<lparr> cm_program = exe, cm_args = args, cm_directory = None, cm_environment = None,
       cm_stdin = NullDevice, cm_stdout = AppendTo log, cm_stderr = AppendTo log, cm_isolation = NewSession, cm_closes_files = closes \<rparr>"

definition monitor_process :: "string \<Rightarrow> string \<Rightarrow> string \<Rightarrow> string \<Rightarrow> JobId \<Rightarrow> RunId \<Rightarrow> process_command" where
  "monitor_process exe log state_directory runtime_directory job run =
     detached_command exe log
       [''__monitor'', ''--state-dir'', state_directory, ''--runtime-dir'', runtime_directory,
        ''--job'', job_text job, ''--run'', run_text run] False"

definition spawn_run_monitor ::
  "launch_env \<Rightarrow> string \<Rightarrow> string \<Rightarrow> JobId \<Rightarrow> RunId \<Rightarrow> file_tree \<times> process_command registry \<Rightarrow>
     (string, unit) result \<times> (file_tree \<times> process_command registry)" where
  "spawn_run_monitor env state_directory runtime_directory job run w =
     (case and_then (ensure_private_dir (lx_context env) (lx_fault env 0) (fst w) state_directory) PathError_text
         (\<lambda>_. open_log env state_directory) of
        (Inl e, fs) \<Rightarrow> (Inl e, (fs, snd w))
      | (Inr (log, exe), fs) \<Rightarrow>
          map_prod id (Pair fs)
            (MonitorChildren_spawn (lx_poisoned env) (lx_start env)
               (monitor_process exe log state_directory runtime_directory job run) (snd w)))"

definition supervisor_process :: "string \<Rightarrow> string \<Rightarrow> string \<Rightarrow> string \<Rightarrow> process_command" where
  "supervisor_process exe log state_directory runtime_directory =
     detached_command exe log [''__supervisor'', ''--state-dir'', state_directory, ''--runtime-dir'', runtime_directory] True"

text \<open>The child of \<open>start_session_supervisor\<close> is not kept; the result here is its number.\<close>

definition start_session_supervisor ::
  "launch_env \<Rightarrow> string \<Rightarrow> string \<Rightarrow> file_tree \<Rightarrow> (string, u32) result \<times> file_tree" where
  "start_session_supervisor env state_directory runtime_directory fs =
     and_then (ensure_private_dir (lx_context env) (lx_fault env 0) fs state_directory) PathError_text (\<lambda>_ fs.
     and_then (ensure_private_dir (lx_context env) (lx_fault env 1) fs runtime_directory) PathError_text (\<lambda>_ fs.
     and_then (open_log env state_directory fs) id (\<lambda>(log, exe) fs.
     (lx_start env (supervisor_process exe log state_directory runtime_directory), fs))))"


section \<open>A run gets its own process group\<close>

text \<open>The process table answers for the process that was asked for.\<close>

definition table_faithful :: "proc_files \<Rightarrow> string \<Rightarrow> bool" where
  "table_faithful files boot \<longleftrightarrow> (\<forall>p identity. inspect files boot p = Inr (Some identity) \<longrightarrow> pid identity = p)"

lemma inspect_validated:
  assumes "inspect files boot p = Inr (Some identity)"
  shows "validate_snapshot identity = Inr () \<and> boot_identity identity = boot"
proof -
  obtain stat lp where "files p = Inr (Some stat)" "parse_linux_process stat boot = Inr lp" "lp_identity lp = identity"
    using assms by (auto simp: inspect_def inspect_linux_process_def result_simps split: if_splits option.splits)
  then show ?thesis
    by (auto simp: parse_linux_process_def Let_def result_simps split: if_splits)
qed

lemma inspect_child_Inr:
  assumes "inspect_child env child left = Inr identity"
  shows "\<exists>k. inspect (sw_files env k) (sw_boot env) child = Inr (Some identity)"
  using assms
proof (induction env child left rule: inspect_child.induct)
  case (1 env child left)
  from 1(2) [unfolded inspect_child.simps [of env child left]] 1(1) show ?case
    by (auto split: sum.splits option.splits if_splits)
qed

lemma inspect_child_gone:
  assumes "inspect_child env child left = Inl ExitedBeforeInspection" "left < INSPECTION_ATTEMPTS"
    and "INSPECTION_ATTEMPTS - 1 - left \<le> k" "k < INSPECTION_ATTEMPTS"
  shows "inspect (sw_files env k) (sw_boot env) child = Inr None"
  using assms
proof (induction env child left rule: inspect_child.induct)
  case (1 env child left)
  let ?k = "INSPECTION_ATTEMPTS - 1 - left"
  from 1(2) have none: "inspect (sw_files env ?k) (sw_boot env) child = Inr None"
    and rest: "left \<noteq> 0 \<Longrightarrow> inspect_child env child (left - 1) = Inl ExitedBeforeInspection"
    by (auto simp: inspect_child.simps [of env child left] split: sum.splits option.splits if_splits)
  show ?case
  proof (cases "k = ?k")
    case True
    with none show ?thesis by simp
  next
    case False
    with 1(3-5) have "left \<noteq> 0" "INSPECTION_ATTEMPTS - 1 - (left - 1) \<le> k" "left - 1 < INSPECTION_ATTEMPTS" by linarith+
    with 1(1) [OF none _ _ rest] 1(5) show ?thesis by simp
  qed
qed

lemma inspect_child_error:
  "inspect_child env child left = Inl err \<Longrightarrow> err = ExitedBeforeInspection \<or> (\<exists>e. err = SpawnInspection e)"
proof (induction env child left rule: inspect_child.induct)
  case (1 env child left)
  from 1(2) [unfolded inspect_child.simps [of env child left]] 1(1) show ?case
    by (auto split: sum.splits option.splits if_splits)
qed


lemma valid_program:
  assumes "valid_execution e"
  obtains program args where "program_of e = Some (Inr (program, args))"
    "case exec_mode e of Direct \<Rightarrow> program # args = argv e
      | Shell \<Rightarrow> shell_path e = Some program \<and> (\<exists>script. argv e = [script] \<and> args = [''-c'', script])"
proof (cases "exec_mode e")
  case Direct
  then obtain program args where "argv e = program # args"
    using assms by (auto simp: valid_execution_def valid_arguments_def neq_Nil_conv)
  with Direct that show thesis by (simp add: program_of_def)
next
  case Shell
  then obtain sh script where "shell_path e = Some sh" "argv e = [script]"
    using assms by (auto simp: valid_execution_def valid_arguments_def length_Suc_conv split: option.splits)
  with Shell that show thesis by (simp add: program_of_def)
qed

text \<open>
  C27. A command runs alone in its group, or not at all.  Spawning a valid specification never panics.
  When it succeeds, the kernel was given exactly the arguments of the specification (to the shell, as
  one string, in shell mode), its working directory and its environment and nothing of the monitor's;
  and the recorded identity is that of the child, a leader of its own group, so that a signal to the
  recorded group reaches the command and what it started only.  When it fails, no process was
  started, or the one that was has been killed and waited for; and a command is said to have exited
  early only if twenty inspections did not find it.
\<close>

theorem spawned_command_isolated:
  assumes "valid_execution e" and table: "\<And>k. table_faithful (sw_files env k) (sw_boot env)"
  shows "\<exists>res calls. NativeProcessRunner_spawn env e = Some (res, calls) \<and> (case res of
      Inr c \<Rightarrow> calls = [Start (sc_child c)]
        \<and> (\<exists>command. sw_start env command = Inr (sc_child c)
            \<and> (case exec_mode e of Direct \<Rightarrow> cm_program command # cm_args command = argv e
               | Shell \<Rightarrow> shell_path e = Some (cm_program command) \<and> (\<exists>script. argv e = [script] \<and> cm_args command = [''-c'', script]))
            \<and> cm_directory command = Some (working_directory e)
            \<and> cm_environment command = Some (map (\<lambda>(key, v). (key, expose v)) (environment e))
            \<and> cm_isolation command = NewGroup \<and> cm_stdin command = NullDevice)
        \<and> validate_snapshot (sc_identity c) = Inr () \<and> boot_identity (sc_identity c) = sw_boot env
        \<and> pid (sc_identity c) = sc_child c \<and> process_group_id (sc_identity c) = uint (sc_child c)
    | Inl err \<Rightarrow> (calls = [] \<or> (\<exists>child. calls = [Start child, KillChild child, WaitChild child]))
        \<and> err \<noteq> InvalidShellConfiguration
        \<and> (err = ExitedBeforeInspection \<longrightarrow>
             (\<exists>child. \<forall>k < 20. inspect (sw_files env k) (sw_boot env) child = Inr None)))"
proof -
  obtain program args where p: "program_of e = Some (Inr (program, args))"
    "case exec_mode e of Direct \<Rightarrow> program # args = argv e
      | Shell \<Rightarrow> shell_path e = Some program \<and> (\<exists>script. argv e = [script] \<and> args = [''-c'', script])"
    by (rule valid_program [OF assms(1)])
  then obtain command where command: "execution_command e = Some (Inr command)" "cm_program command = program"
    "cm_args command = args" "cm_directory command = Some (working_directory e)" "cm_isolation command = NewGroup"
    "cm_stdin command = NullDevice" "cm_environment command = Some (map (\<lambda>(key, v). (key, expose v)) (environment e))"
    by (simp add: execution_command_def)
  show ?thesis
  proof (cases "sw_start env command")
    case (Inl err)
    then show ?thesis by (simp add: NativeProcessRunner_spawn_def command(1))
  next
    case started: (Inr child)
    show ?thesis
    proof (cases "inspect_child env child (INSPECTION_ATTEMPTS - 1)")
      case (Inl err)
      then have "err = ExitedBeforeInspection \<longrightarrow> (\<forall>k < 20. inspect (sw_files env k) (sw_boot env) child = Inr None)"
        using inspect_child_gone [of env child "INSPECTION_ATTEMPTS - 1"] by (auto simp: INSPECTION_ATTEMPTS_def)
      with Inl started inspect_child_error [OF Inl] show ?thesis
        by (auto simp: NativeProcessRunner_spawn_def command(1) reap_failed_spawn_def)
    next
      case (Inr identity)
      obtain k where k: "inspect (sw_files env k) (sw_boot env) child = Inr (Some identity)"
        using inspect_child_Inr [OF Inr] by blast
      then have "pid identity = child" using table by (simp add: table_faithful_def)
      with Inr started inspect_validated [OF k] command p(2) show ?thesis
        by (auto simp: NativeProcessRunner_spawn_def reap_failed_spawn_def)
    qed
  qed
qed


definition sample_spawn :: spawn_env where
  "sample_spawn =
     \<lparr> sw_start = (\<lambda>_. Inr 7), sw_files = (\<lambda>k p. if p = 7 \<and> 0 < k then Inr (Some (stat_line 7 ''x'' sample_words)) else Inr None),
       sw_boot = ''b'' \<rparr>"

lemma sample_spawn_table: "table_faithful (sw_files sample_spawn k) (sw_boot sample_spawn)"
  by (auto simp: table_faithful_def sample_spawn_def inspect_def inspect_linux_process_def stat_line_parses
      sample_columns sample_numbers contains_nul_def result_simps split: if_splits)

theorem spawned_command_isolated_witness:
  "\<exists>c. NativeProcessRunner_spawn sample_spawn sample_execution = Some (Inr c, [Start 7])
     \<and> pid (sc_identity c) = 7 \<and> process_group_id (sc_identity c) = 7"
proof -
  have "inspect_child sample_spawn 7 19 = Inr \<lparr> boot_identity = ''b'', pid = 7, start_token = 9, process_group_id = 7 \<rparr>"
    by (subst inspect_child.simps, subst inspect_child.simps)
      (simp add: sample_spawn_def inspect_def inspect_linux_process_def stat_line_parses
        sample_columns sample_numbers contains_nul_def INSPECTION_ATTEMPTS_def)
  then have "\<exists>c. NativeProcessRunner_spawn sample_spawn sample_execution = Some (Inr c, [Start 7])"
    by (simp add: NativeProcessRunner_spawn_def execution_command_def program_of_def sample_execution_def
        INSPECTION_ATTEMPTS_def sample_spawn_def)
  with spawned_command_isolated [OF sample_execution_valid sample_spawn_table] show ?thesis by auto
qed

section \<open>Detached processes\<close>

lemma registry_insert_lookup: "map_of (registry_insert p c children) = (map_of children)(p \<mapsto> c)"
  by (induction p c children rule: registry_insert.induct) auto

lemma registry_insert_sorted:
  "sorted_wrt (<) (map fst children) \<Longrightarrow> sorted_wrt (<) (map fst (registry_insert p c children))"
proof (induction p c children rule: registry_insert.induct)
  case (2 p c q d children)
  have "fst ` set (registry_insert p c children) = insert p (fst ` set children)"
    by (induction p c children rule: registry_insert.induct) auto
  with 2 show ?case by (auto simp: not_less)
qed simp

lemma open_log_private:
  assumes "open_log env state_directory fs = (Inr (log, exe), fs')"
  shows "lx_exe env = Inr exe \<and> log = path_join state_directory ''supervisor.log'' \<and> Paths.private_file fs' (pc_uid (lx_context env)) log"
proof -
  have l: "lx_exe env = Inr exe"
    "open_or_create_private_append_log (lx_context env) (\<lambda>k. lx_fault env (3 + k)) (lx_interfere env) fs
      state_directory ''supervisor.log'' = (Inr log, fs')"
    using assms by (auto simp: open_log_def and_then_eq)
  from append_log_private [OF l(2)] l(1) show ?thesis by blast
qed


text \<open>
  A monitor that was started is known.  When starting the monitor of a run succeeds, the state
  directory and its log are private, the new process is the current executable with the directories,
  the job and the run as its arguments, in a session of its own, detached from the terminal, and the
  registry holds it under its process number, besides the monitors it held; when it fails, nothing was
  started and the registry is unchanged.
\<close>

theorem started_monitor_registered:
  assumes "spawn_run_monitor env state_directory runtime_directory job run (fs, children) = (res, (fs', children'))"
    and "sorted_wrt (<) (map fst children)"
  shows "case res of
      Inl _ \<Rightarrow> children' = children
    | Inr _ \<Rightarrow> \<exists>exe child command. lx_exe env = Inr exe \<and> lx_start env command = Inr child
        \<and> command = monitor_process exe (path_join state_directory ''supervisor.log'') state_directory runtime_directory job run
        \<and> Paths.private_file fs' (pc_uid (lx_context env)) (path_join state_directory ''supervisor.log'')
        \<and> map_of children' = (map_of children)(child \<mapsto> command) \<and> sorted_wrt (<) (map fst children')"
proof -
  let ?opened = "and_then (ensure_private_dir (lx_context env) (lx_fault env 0) fs state_directory) PathError_text
    (\<lambda>_. open_log env state_directory)"
  obtain r fs1 where o: "?opened = (r, fs1)" by (cases ?opened)
  show ?thesis
  proof (cases r)
    case (Inl e)
    with assms(1) o show ?thesis by (auto simp: spawn_run_monitor_def)
  next
    case (Inr opened)
    obtain log exe where l: "opened = (log, exe)" by (cases opened)
    obtain fs0 where "open_log env state_directory fs0 = (Inr (log, exe), fs1)"
      using o Inr l by (auto simp: and_then_eq)
    note p = open_log_private [OF this]
    show ?thesis
    proof (cases "lx_poisoned env \<or> (\<exists>e. lx_start env (monitor_process exe log state_directory runtime_directory job run) = Inl e)")
      case True
      with assms(1) o Inr l show ?thesis
        by (auto simp: spawn_run_monitor_def MonitorChildren_spawn_def split: sum.splits if_splits)
    next
      case False
      then obtain child where c: "\<not> lx_poisoned env"
        "lx_start env (monitor_process exe log state_directory runtime_directory job run) = Inr child"
        by (cases "lx_start env (monitor_process exe log state_directory runtime_directory job run)") auto
      with assms(1) o Inr l have "res = Inr ()" "fs' = fs1"
        "children' = registry_insert child (monitor_process exe log state_directory runtime_directory job run) children"
        by (auto simp: spawn_run_monitor_def MonitorChildren_spawn_def)
      with p c(2) registry_insert_sorted [OF assms(2)] show ?thesis
        by (auto simp: registry_insert_lookup)
    qed
  qed
qed


definition sample_launch :: launch_env where
  "sample_launch =
     \<lparr> lx_context = \<lparr> pc_uid = 7, pc_umask = 0x12, pc_fresh_ino = (\<lambda>_. 0) \<rparr>, lx_fault = (\<lambda>_. None), lx_interfere = id,
       lx_exe = Inr ''/bin/atx'', lx_poisoned = False, lx_start = (\<lambda>_. Inr 9) \<rparr>"

lemma supervisor_log_leaf: "validate_leaf_name ''supervisor.log'' = Inr ()"
  by (simp add: validate_leaf_name_def path_components_def path_is_absolute_def segment_component_def List.map_filter_def)

lemma sample_open_log: "\<exists>fs'. open_log sample_launch ''/s'' [''/s'' \<mapsto> m] = (Inr (''/s/supervisor.log'', ''/bin/atx''), fs')"
  by (simp add: open_log_def launch_step_def sample_launch_def open_or_create_private_append_log_def supervisor_log_leaf
      create_new_private_file_def and_then_def path_join_def path_is_absolute_def Let_def)

theorem started_monitor_registered_witness:
  "\<exists>fs' children'. spawn_run_monitor sample_launch ''/s'' ''/r'' (JobId 1) (RunId 2) (Map.empty, []) = (Inr (), (fs', children'))
     \<and> map_of children' 9 \<noteq> None \<and> Paths.private_file fs' 7 ''/s/supervisor.log''"
proof -
  let ?ctx = "lx_context sample_launch"
  have perm: "(0x1C0 AND NOT 0x12) AND 0x1FF = (0x1C0 :: u32)" by simp
  let ?m = "new_entry ?ctx Directory 0x1C0 ''/s''"
  have m: "ensure_private_dir ?ctx (lx_fault sample_launch 0) Map.empty ''/s'' = (Inr (), [''/s'' \<mapsto> ?m])"
    using perm by (simp add: ensure_private_dir_def validate_private_dir_for_uid_def new_entry_def permissions_def sample_launch_def)
  obtain fs' where l: "open_log sample_launch ''/s'' [''/s'' \<mapsto> ?m] = (Inr (''/s/supervisor.log'', ''/bin/atx''), fs')"
    using sample_open_log by blast
  have started: "lx_poisoned sample_launch = False" "\<And>c. lx_start sample_launch c = Inr 9" by (simp_all add: sample_launch_def)
  have "\<exists>children'. spawn_run_monitor sample_launch ''/s'' ''/r'' (JobId 1) (RunId 2) (Map.empty, []) = (Inr (), (fs', children'))"
    by (simp add: spawn_run_monitor_def m l and_then_def MonitorChildren_spawn_def started)
  then obtain children' where s: "spawn_run_monitor sample_launch ''/s'' ''/r'' (JobId 1) (RunId 2) (Map.empty, []) = (Inr (), (fs', children'))"
    by blast
  from started_monitor_registered [OF s] obtain child command where c: "lx_start sample_launch command = Inr child"
    "map_of children' = Map.empty(child \<mapsto> command)" "Paths.private_file fs' (pc_uid ?ctx) (path_join ''/s'' ''supervisor.log'')"
    by auto
  have "child = 9" using c(1) started(2) by simp
  with s c(2,3) show ?thesis by (auto simp: sample_launch_def path_join_def path_is_absolute_def)
qed

text \<open>The supervisor of a session: both directories are private before it starts.\<close>

lemma started_supervisor_detached:
  assumes "start_session_supervisor env state_directory runtime_directory fs = (Inr child, fs')"
  shows "\<exists>exe. lx_exe env = Inr exe
    \<and> lx_start env (supervisor_process exe (path_join state_directory ''supervisor.log'') state_directory runtime_directory) = Inr child
    \<and> Paths.private_file fs' (pc_uid (lx_context env)) (path_join state_directory ''supervisor.log'')"
proof -
  obtain fs2 log exe where l: "open_log env state_directory fs2 = (Inr (log, exe), fs')"
    and s: "lx_start env (supervisor_process exe log state_directory runtime_directory) = Inr child"
    using assms by (auto simp: start_session_supervisor_def and_then_eq)
  from open_log_private [OF l] s show ?thesis by auto
qed


section \<open>Processes on macOS\<close>

text \<open>The variants of \<open>ProcessError\<close> on macOS.\<close>

datatype MacProcessError =
    MacInvalidIdentity
  | MacMalformed
  | MacPermissionDenied
  | MacUnsupported
  | MacUnavailable

record bsd_info =
  pbi_pid :: u32
  pbi_pgid :: u32
  pbi_start_tvsec :: u64
  pbi_start_tvusec :: u64

text \<open>
  What \<open>proc_pidinfo\<close> answers (the number of bytes written, the error number and the structure, with its
  size), and what \<open>sysctl\<close> does (whether it succeeds, the size and the bytes it reports).
\<close>

record mac_kernel =
  mk_info_size :: nat
  mk_written :: int
  mk_errno :: "int option"
  mk_info :: bsd_info
  mk_sysctl :: bool
  mk_size :: nat
  mk_raw :: "8 word list"

definition mac_validate :: "ProcessIdentitySnapshot \<Rightarrow> (MacProcessError, ProcessIdentitySnapshot option) result" where
  "mac_validate s = map_ok (\<lambda>_. Some s) (map_err (\<lambda>_. MacInvalidIdentity) (validate_snapshot s))"

definition KINFO_PROC_SIZE :: nat where
  "KINFO_PROC_SIZE = 648"

definition le_int :: "8 word list \<Rightarrow> int" where
  "le_int bytes = foldr (\<lambda>b n. uint b + 256 * n) bytes 0"

definition read_i32 :: "8 word list \<Rightarrow> nat \<Rightarrow> int option" where
  "read_i32 raw offset =
     (if offset + 4 \<le> length raw then Some (signed_take_bit 31 (le_int (take 4 (drop offset raw)))) else None)"

definition inspect_zombie_via_sysctl :: "mac_kernel \<Rightarrow> int \<Rightarrow> string \<Rightarrow> (MacProcessError, ProcessIdentitySnapshot option) result" where
  "inspect_zombie_via_sysctl k p boot =
     (if \<not> mk_sysctl k then Inl MacUnavailable
      else if mk_size k = 0 then Inr None
      else if mk_size k \<noteq> KINFO_PROC_SIZE then Inl MacMalformed
      else case (read_i32 (mk_raw k) 0, read_i32 (mk_raw k) 8, read_i32 (mk_raw k) 40, read_i32 (mk_raw k) 564) of
        (Some start_sec, Some usec, Some recorded, Some grp) \<Rightarrow>
          if recorded \<noteq> p then Inl MacMalformed
          else (let token = start_sec * 1000000 + usec in
            if start_sec * 1000000 \<notin> {- (2 ^ 63) ..< 2 ^ 63} \<or> token \<notin> {- (2 ^ 63) ..< 2 ^ 63} then Inl MacMalformed
            else if p < 0 then Inl MacInvalidIdentity
            else if token < 0 then Inl MacMalformed
            else mac_validate \<lparr> boot_identity = boot, pid = word_of_int p, start_token = word_of_int token, process_group_id = grp \<rparr>)
      | _ \<Rightarrow> Inl MacMalformed)"

text \<open>The error numbers \<open>EPERM\<close>, \<open>ESRCH\<close> and \<open>EACCES\<close> are 1, 3 and 13.\<close>

definition inspect_macos :: "mac_kernel \<Rightarrow> u32 \<Rightarrow> string \<Rightarrow> (MacProcessError, ProcessIdentitySnapshot option) result" where
  "inspect_macos k p boot =
     (if p = 0 \<or> 2 ^ 31 \<le> uint p then Inl MacInvalidIdentity
      else if 2 ^ 31 \<le> mk_info_size k then Inl MacUnsupported
      else if mk_written k = 0 then
        (case mk_errno k of
           None \<Rightarrow> inspect_zombie_via_sysctl k (uint p) boot
         | Some n \<Rightarrow>
             if n = 3 then inspect_zombie_via_sysctl k (uint p) boot
             else if n = 1 \<or> n = 13 then Inl MacPermissionDenied
             else Inl MacUnavailable)
      else if mk_written k \<noteq> int (mk_info_size k) then Inl MacMalformed
      else case Option.bind (checked_mul (pbi_start_tvsec (mk_info k)) 1000000) (\<lambda>v. checked_add v (pbi_start_tvusec (mk_info k))) of
        None \<Rightarrow> Inl MacMalformed
      | Some token \<Rightarrow>
          if 2 ^ 31 \<le> uint (pbi_pgid (mk_info k)) then Inl MacMalformed
          else mac_validate \<lparr> boot_identity = boot, pid = pbi_pid (mk_info k), start_token = token,
            process_group_id = uint (pbi_pgid (mk_info k)) \<rparr>)"


text \<open>
  The layout of \<open>struct kinfo_proc\<close>: a \<open>timeval\<close> with eight bytes of seconds and four of microseconds,
  and the numbers of the process and of its group.
\<close>

definition kinfo_layout :: "8 word list \<Rightarrow> int \<Rightarrow> int \<Rightarrow> int \<Rightarrow> int \<Rightarrow> bool" where
  "kinfo_layout raw sec usec p g \<longleftrightarrow>
     length raw = 648 \<and> le_int (take 8 raw) = sec \<and> le_int (take 4 (drop 8 raw)) = usec
     \<and> le_int (take 4 (drop 40 raw)) = p \<and> le_int (take 4 (drop 564 raw)) = g"

lemma le_int_append: "le_int (xs @ ys) = le_int xs + 256 ^ length xs * le_int ys"
  by (induction xs) (simp_all add: le_int_def algebra_simps)

lemma le_int_range: "0 \<le> le_int xs \<and> le_int xs < 256 ^ length xs"
proof (induction xs)
  case (Cons b xs)
  have "uint b < 256" using uint_lt2p [of b] by simp
  with Cons show ?case by (simp add: le_int_def)
qed (simp add: le_int_def)

lemma read_i32_small:
  "offset + 4 \<le> length raw \<Longrightarrow> le_int (take 4 (drop offset raw)) = v \<Longrightarrow> v < 2 ^ 31 \<Longrightarrow> read_i32 raw offset = Some v"
  using le_int_range [of "take 4 (drop offset raw)"] by (auto simp: read_i32_def signed_take_bit_int_eq_self)

lemma read_i32_range: "read_i32 raw offset = Some v \<Longrightarrow> - (2 ^ 31) \<le> v \<and> v < 2 ^ 31"
  using signed_take_bit_int_greater_eq_minus_exp [of 31] signed_take_bit_int_less_exp [of 31]
  by (auto simp: read_i32_def split: if_splits)

lemma kinfo_seconds:
  assumes "kinfo_layout raw sec usec p g" "sec < 2 ^ 31"
  shows "read_i32 raw 0 = Some sec"
proof (rule read_i32_small)
  have parts: "le_int (take 8 raw) = le_int (take 4 raw) + 2 ^ 32 * le_int (take 4 (drop 4 raw))"
    using le_int_append [of "take 4 raw" "take 4 (drop 4 raw)"] assms(1)
    by (simp add: kinfo_layout_def take_add [symmetric])
  moreover have "0 \<le> le_int (take 4 (drop 4 raw))" "0 \<le> le_int (take 4 raw)" using le_int_range by blast+
  moreover have sec: "le_int (take 8 raw) = sec" using assms(1) by (simp add: kinfo_layout_def)
  ultimately have "le_int (take 4 (drop 4 raw)) = 0" using assms(2) by auto
  with sec parts show "le_int (take 4 (drop 0 raw)) = sec" by simp
qed (use assms in \<open>simp_all add: kinfo_layout_def\<close>)


definition mac_snapshot :: "string \<Rightarrow> u32 \<Rightarrow> u32 \<Rightarrow> u64 \<Rightarrow> ProcessIdentitySnapshot" where
  "mac_snapshot boot p g token = \<lparr> boot_identity = boot, pid = p, start_token = token, process_group_id = uint g \<rparr>"

text \<open>The kernel shows a live process.\<close>

definition shows_live :: "mac_kernel \<Rightarrow> u32 \<Rightarrow> u32 \<Rightarrow> u64 \<Rightarrow> u64 \<Rightarrow> bool" where
  "shows_live k p g sec usec \<longleftrightarrow>
     0 < mk_info_size k \<and> mk_info_size k < 2 ^ 31 \<and> mk_written k = int (mk_info_size k)
     \<and> mk_info k = \<lparr> pbi_pid = p, pbi_pgid = g, pbi_start_tvsec = sec, pbi_start_tvusec = usec \<rparr>"

text \<open>The kernel shows the same process as a zombie, to \<open>sysctl\<close> only.\<close>

definition shows_zombie :: "mac_kernel \<Rightarrow> u32 \<Rightarrow> u32 \<Rightarrow> u64 \<Rightarrow> u64 \<Rightarrow> bool" where
  "shows_zombie k p g sec usec \<longleftrightarrow>
     mk_info_size k < 2 ^ 31 \<and> mk_written k = 0 \<and> mk_errno k \<in> {None, Some 3} \<and> mk_sysctl k \<and> mk_size k = 648
     \<and> kinfo_layout (mk_raw k) (uint sec) (uint usec) (uint p) (uint g)"

lemma live_inspection:
  assumes "shows_live k p g sec usec" "0 < p" "uint p < 2 ^ 31" "uint g < 2 ^ 31" "inspect_macos k p boot = Inr r"
  shows "\<exists>token. uint token = uint sec * 1000000 + uint usec \<and> r = Some (mac_snapshot boot p g token)
    \<and> mac_validate (mac_snapshot boot p g token) = Inr r"
proof -
  have nz: "p \<noteq> 0" "\<not> 2 ^ 31 \<le> uint p" "\<not> 2 ^ 31 \<le> uint g" using assms(2-4) by auto
  have "inspect_macos k p boot = (case Option.bind (checked_mul sec 1000000) (\<lambda>v. checked_add v usec) of
      None \<Rightarrow> Inl MacMalformed | Some token \<Rightarrow> mac_validate (mac_snapshot boot p g token))"
    using assms(1) nz by (cases "Option.bind (checked_mul sec 1000000) (\<lambda>v. checked_add v usec)")
      (simp_all add: inspect_macos_def shows_live_def mac_snapshot_def)
  with assms(5) obtain v token where v: "checked_mul sec 1000000 = Some v" "checked_add v usec = Some token"
    and r: "mac_validate (mac_snapshot boot p g token) = Inr r"
    by (auto split: option.splits bind_splits)
  have nat_token: "unat token = unat sec * 1000000 + unat usec"
    using v by (simp add: checked_simps)
  have "uint token = uint sec * 1000000 + uint usec"
    by (simp only: uint_nat nat_token of_nat_add of_nat_mult of_nat_numeral)
  with r show ?thesis by (auto simp: mac_validate_def result_simps)
qed

lemma zombie_inspection:
  assumes "shows_zombie k p g sec usec" "0 < p" "uint p < 2 ^ 31" "uint g < 2 ^ 31" "uint usec < 1000000"
  shows "\<exists>s. read_i32 (mk_raw k) 0 = Some s \<and> - (2 ^ 31) \<le> s \<and> s < 2 ^ 31
    \<and> inspect_macos k p boot = (if s * 1000000 + uint usec < 0 then Inl MacMalformed
        else mac_validate (mac_snapshot boot p g (word_of_int (s * 1000000 + uint usec))))"
proof -
  let ?raw = "mk_raw k"
  have l: "kinfo_layout ?raw (uint sec) (uint usec) (uint p) (uint g)" using assms(1) by (simp add: shows_zombie_def)
  then obtain s where s: "read_i32 ?raw 0 = Some s" by (simp add: read_i32_def kinfo_layout_def)
  note b = read_i32_range [OF s]
  have r: "read_i32 ?raw 8 = Some (uint usec)" "read_i32 ?raw 40 = Some (uint p)" "read_i32 ?raw 564 = Some (uint g)"
    using l assms(3-5) by (auto simp: kinfo_layout_def intro!: read_i32_small)
  have u: "0 \<le> uint usec" by simp
  have b': "- 2147483648 \<le> s" "s < 2147483648" using b by simp_all
  have "- 9223372036854775808 \<le> s * 1000000 + uint usec" "s * 1000000 + uint usec < 9223372036854775808"
    using b' assms(5) u by linarith+
  then have in_range: "s * 1000000 \<in> {- (2 ^ 63) ..< 2 ^ 63}" "s * 1000000 + uint usec \<in> {- (2 ^ 63) ..< 2 ^ 63}"
    using b' by simp_all
  have "inspect_zombie_via_sysctl k (uint p) boot = (if s * 1000000 + uint usec < 0 then Inl MacMalformed
        else mac_validate (mac_snapshot boot p g (word_of_int (s * 1000000 + uint usec))))"
    using assms(1) in_range by (simp add: inspect_zombie_via_sysctl_def shows_zombie_def s r KINFO_PROC_SIZE_def mac_snapshot_def Let_def)
  with assms(1-3) s b show ?thesis
    by (auto simp: inspect_macos_def shows_zombie_def)
qed


lemma token_word: "0 \<le> t \<Longrightarrow> t < 2 ^ 64 \<Longrightarrow> uint (word_of_int t :: u64) = t"
  by (simp add: uint_word_of_int)

lemma mac_validate_token:
  "mac_validate (mac_snapshot boot p g t) = Inr (Some (mac_snapshot boot p g t')) \<Longrightarrow> t = t'"
  by (auto simp: mac_validate_def mac_snapshot_def result_simps)

text \<open>
  On macOS a run keeps its identity when it ends, until 2038.  For a process that started before
  second 2^31, what \<open>sysctl\<close> shows of the unreaped zombie is read to the same identity as what
  \<open>proc_pidinfo\<close> showed of the live process.  For one that started later the seconds, which the
  kernel writes in eight bytes, are read as four: the zombie is refused, or has another identity.
\<close>

theorem macos_identity_until_2038:
  assumes "shows_live live p g sec usec" "shows_zombie zombie p g sec usec"
    and "0 < p" "uint p < 2 ^ 31" "uint g < 2 ^ 31" "uint usec < 1000000"
    and alive: "inspect_macos live p boot = Inr r"
  shows "inspect_macos zombie p boot = Inr r \<longleftrightarrow> uint sec < 2 ^ 31"
proof -
  obtain token where token: "uint token = uint sec * 1000000 + uint usec" and r: "r = Some (mac_snapshot boot p g token)"
    and valid: "mac_validate (mac_snapshot boot p g token) = Inr r"
    using live_inspection [OF assms(1,3-5) alive] by blast
  obtain s where s: "read_i32 (mk_raw zombie) 0 = Some s" "- 2147483648 \<le> s" "s < 2147483648"
    and z: "inspect_macos zombie p boot = (if s * 1000000 + uint usec < 0 then Inl MacMalformed
        else mac_validate (mac_snapshot boot p g (word_of_int (s * 1000000 + uint usec))))"
    using zombie_inspection [OF assms(2-6), of boot] by auto
  show ?thesis
  proof
    assume "uint sec < 2 ^ 31"
    then have "s = uint sec"
      using kinfo_seconds [of "mk_raw zombie"] assms(2) s(1) by (auto simp: shows_zombie_def)
    then have "s * 1000000 + uint usec = uint token" using token by simp
    with z valid show "inspect_macos zombie p boot = Inr r" by (simp only: word_of_int_uint) simp
  next
    assume same: "inspect_macos zombie p boot = Inr r"
    then have pos: "0 \<le> s * 1000000 + uint usec"
      and t: "mac_validate (mac_snapshot boot p g (word_of_int (s * 1000000 + uint usec))) = Inr (Some (mac_snapshot boot p g token))"
      using z r by (auto split: if_splits)
    have "s * 1000000 + uint usec < 2 ^ 64" using s(3) assms(6) by simp
    from token_word [OF pos this] mac_validate_token [OF t] token have "s = uint sec" by simp
    with s(3) show "uint sec < 2 ^ 31" by simp
  qed
qed


definition sample_mac :: mac_kernel where
  "sample_mac =
     \<lparr> mk_info_size = 136, mk_written = 136, mk_errno = None,
       mk_info = \<lparr> pbi_pid = 7, pbi_pgid = 7, pbi_start_tvsec = 0x80000000, pbi_start_tvusec = 5 \<rparr>, mk_sysctl = True, mk_size = 648,
       mk_raw = [0, 0, 0, 0x80, 0, 0, 0, 0, 5, 0, 0, 0] @ replicate 28 0 @ [7, 0, 0, 0] @ replicate 520 0 @ [7, 0, 0, 0] @ replicate 80 0 \<rparr>"

theorem macos_identity_until_2038_witness:
  "\<exists>r. inspect_macos sample_mac 7 ''b'' = Inr r \<and> inspect_macos (sample_mac\<lparr> mk_written := 0 \<rparr>) 7 ''b'' \<noteq> Inr r"
proof -
  have live: "shows_live sample_mac 7 7 0x80000000 5" by (simp add: shows_live_def sample_mac_def)
  have zombie: "shows_zombie (sample_mac\<lparr> mk_written := 0 \<rparr>) 7 7 0x80000000 5"
    by (simp add: shows_zombie_def sample_mac_def kinfo_layout_def le_int_def)
  obtain r where r: "inspect_macos sample_mac 7 ''b'' = Inr r"
    by (simp add: inspect_macos_def sample_mac_def mac_validate_def validate_snapshot_def checked_mul_def checked_add_def contains_nul_def)
  from macos_identity_until_2038 [OF live zombie _ _ _ _ r] r show ?thesis by auto
qed


end
