(* ===== verification/Spec2Isabelle.thy ===== *)
theory Spec2Isabelle
  imports History Submit_Command Guard_Race Service Tty Manage_Command Migration Session Spawn
begin

text \<open>
  \<^bold>\<open>atx, a job scheduler.\<close>  A user submits a command with a time (\<open>atx 5m -- make\<close>); the command
  line writes a job into a SQLite database and wakes a supervisor.  The supervisor keeps the
  deadlines in a heap, claims each due occurrence in the database and starts a monitor process,
  which runs the command, captures its output and records the outcome.  Cancellation, removal,
  rerun and retention work on the same database, possibly at the same time; after a crash the
  supervisor reconciles what the database says with the processes that are still alive.

  \<^bold>\<open>Theories and sources\<close> (paths below \<open>src/src\<close>).
  \<^item> \<open>Prelude\<close>: results as sums, option and list lemmas, decimal text, UTF-8, words at the width of
    the Rust types, and the collections of rules the other theories use.
  \<^item> Values: \<open>Primitives\<close> (\<open>domain/primitives.rs\<close>), \<open>Identifier\<close> (\<open>domain/id.rs\<close>), \<open>Duration\<close>
    (\<open>domain/duration.rs\<close>), \<open>Calendar\<close> (\<open>domain/calendar.rs\<close>, \<open>domain/calendar_syntax.rs\<close>),
    \<open>Recurrence\<close> (\<open>domain/recurrence.rs\<close>, \<open>domain/schedule.rs\<close>), \<open>Execution\<close>
    (\<open>domain/execution.rs\<close>).
  \<^item> Aggregates: \<open>Transitions\<close> (\<open>domain/state.rs\<close>, \<open>domain/transition.rs\<close>), \<open>Job\<close>
    (\<open>domain/job.rs\<close>), \<open>Run\<close> (\<open>domain/run.rs\<close>).
  \<^item> Supervisor: \<open>Deadline_Heap\<close> (\<open>supervisor/heap.rs\<close>), \<open>Loop_Driver\<close>
    (\<open>supervisor/loop_driver.rs\<close>), \<open>Frame\<close> (\<open>supervisor/frame.rs\<close>), \<open>Daemon\<close>
    (due jobs, wakes and the IPC loop of \<open>supervisor/daemon.rs\<close>), \<open>Session\<close> (startup, threads and end
    of \<open>supervisor/daemon.rs\<close>), \<open>Clocks\<close> (\<open>infrastructure/time/mod.rs\<close>), \<open>Reconcile\<close> (\<open>application/reconcile.rs\<close>,
    \<open>supervisor/recovery.rs\<close>).
  \<^item> Storage (\<open>infrastructure/sqlite\<close>): \<open>Migration\<close> (\<open>mod.rs\<close> and \<open>migrations\<close>), \<open>Job_Store\<close>, \<open>Run_Store\<close>, \<open>Recovery_Store\<close>
    (\<open>reconcile.rs\<close>, \<open>retention.rs\<close>), \<open>Management\<close> (\<open>management.rs\<close> with
    \<open>application/list.rs\<close> and \<open>application/submit.rs\<close>).
  \<^item> Cancellation: \<open>Cancel_Run\<close> (\<open>application/cancel.rs\<close>), \<open>Cancel_Job\<close> (\<open>cancel_job\<close> of
    \<open>cli/dispatch.rs\<close> under interference), \<open>Process\<close> (\<open>infrastructure/process\<close>,
    \<open>supervisor/children.rs\<close>).
  \<^item> Processes: \<open>Spawn\<close> (\<open>infrastructure/process/spawn.rs\<close>, the monitor and supervisor processes of
    \<open>supervisor/daemon.rs\<close> and \<open>infrastructure/runtime/mod.rs\<close>, the inspection of processes on macOS).
  \<^item> Monitor: \<open>Capture\<close> (\<open>run_monitor/capture.rs\<close>), \<open>Monitor\<close> (\<open>run_monitor/mod.rs\<close>,
    \<open>run_monitor/lifecycle.rs\<close>), \<open>Tty\<close> (\<open>run_monitor/tty.rs\<close>, on \<open>Utf8_Text\<close>, the lossy reading of
    bytes as UTF-8), \<open>History\<close> (\<open>application/history.rs\<close>).
  \<^item> Files and processes of the supervisor: \<open>Paths\<close> (\<open>infrastructure/paths/mod.rs\<close>), \<open>Ipc\<close> (the
    client side of \<open>supervisor/ipc.rs\<close>, the acknowledger of \<open>cli/dispatch.rs\<close> that starts a
    supervisor on demand), \<open>Runtime_Guard\<close> (the lock and the socket of \<open>supervisor/ipc.rs\<close>, one
    start at a time), \<open>Guard_Race\<close> (the same code as system calls of concurrent starters),
    \<open>Service\<close> (\<open>application/service.rs\<close>, \<open>infrastructure/service\<close>).
  \<^item> Command line: \<open>Config\<close> (\<open>infrastructure/config/mod.rs\<close>), \<open>Submit_Command\<close> (the scheduling
    command of \<open>cli/dispatch.rs\<close>), \<open>Human\<close> (\<open>cli/view.rs\<close>, \<open>cli/human.rs\<close>), \<open>Doctor\<close>
    (\<open>application/doctor.rs\<close> and the checks of \<open>cli/dispatch.rs\<close>), \<open>Manage_Command\<close> (every other
    command of \<open>cli/dispatch.rs\<close>, from the parsed command to the exit code and the output).

  \<^bold>\<open>State and operations.\<close>  A Rust struct is a record with the fields of the source, an enum a
  datatype with its variants, an operation a function on them; \<open>Result\<close> is the sum type \<open>result\<close>
  with the error on the left, and every early return is a branch.  The database is the record
  \<open>Database\<close> of its tables, rows as records of column values; a statement is a function on it
  that may fail where SQLite may (the argument \<open>fault\<close>, indexed by the statement), and a
  transaction commits all of its statements or none.  Reads and writes that the code does in
  separate transactions take separate databases, so that other processes may act in between; the
  theorems on interleavings quantify over such schedules.  A panic is a value of its own where the
  code can panic.  Loops are recursive functions with a termination proof; the polling loop of a
  cancellation, which ends only if time passes, is \<open>while_option\<close>, and its end is a theorem.

  \<^bold>\<open>What is shown.\<close>
  \<^item> The heap refines a finite map of deadlines and pops exactly what is due in order; the event
    loop refines the same specification over every sequence of events.
  \<^item> An occurrence is claimed once, over all writers of the store and until its ended run is
    deleted (in this theory); run and job states only move along the legal transitions under any
    interleaving; outcomes follow from the exit status and are final; retention deletes what is old
    and has ended; a start after a crash settles every open job.
  \<^item> Parsers accept exactly their grammars and printed forms are read back (durations, calendar
    times, identifiers, frames, rows, specifications, process lines).
  \<^item> A process group is signalled only after the commit of the cancellation and only while its
    leader is the recorded process; a cancellation ends.  The command of a run is started in a group
    of its own, with nothing but what its specification says, or leaves no process behind.
  \<^item> Captured output is a bounded prefix and is shown only from below the runs directory.
  \<^item> The scheduling command stores the job that its arguments describe, or changes nothing; when it
    reports success the deadline has been sent to the event loop (in this theory, across the client,
    the frames, the socket, the connection loop and the database).
  \<^item> At most one supervisor serves a runtime directory: for any order of starts, stops and crashes
    that do not overlap, and for starts that overlap in a directory without a stale lock.
  \<^item> Installing and removing the service changes no service file but its own and reports truthfully.
  \<^item> Running a job again reports success only if the job is armed and the supervisor knows;
    the commands that only read change nothing; removing a job hides exactly one ended job.
  \<^item> The echo on the terminal carries no escape sequence of the command; the command line that is
    shown reads back; the doctor's verdict on the supervisor is compared with the next start.
  \<^item> Opening the database among other processes never leaves a schema that its version does not
    describe, and opens only a private file; a supervisor starts completely or releases its lock and socket again, and then holds
    every unfinished job; no event is lost between its threads while its loop runs.
  \<^item> A few theorems show where the code does less than its comments say; they are the error
    properties.

  \<^bold>\<open>Interfaces.\<close>  What one component assumes of another is a locale, interpreted on the model of
  the provider: \<open>deadline_queue\<close> (the heap, for the event loop), \<open>cancellation_store\<close> (the run
  store, for the cancellation service), \<open>management_store\<close> (the job store, for the management
  services), \<open>recovery_store\<close> (the recovery store, for startup), \<open>output_store\<close> (the run
  tables, for the output command) and \<open>service_manager\<close> (systemd and launchd, for the service
  lifecycle).

  \<^bold>\<open>Parameters.\<close>  Code outside the repository is an argument with its documented behaviour as a
  hypothesis: the civil calendar and time zones of jiff, serde_json and TOML documents, the text
  of timestamps (\<open>codec_ok\<close>, \<open>ts_ordered\<close>), fresh identifiers, the clocks, the file system and the kernel.
  Every such hypothesis is met by a concrete instance in a witness.

  \<^bold>\<open>Not modelled.\<close>  Argument parsing, shell completions and manual pages, which clap generates; the
  JSON text of the views, which serde generates (a parameter); types, constraints and values of
  the columns in the SQL scripts, beyond the names of tables, columns and indexes; the set-up of
  signal masks and handlers; code under test.
\<close>

section \<open>One claim for one occurrence\<close>

text \<open>
  All transactions that write the store, by the components that use it: \<open>rd\<close> is what the writer read
  before, \<open>wr\<close> the database it commits to.  Retention, and removing a job without keeping its history,
  are the only ones that delete runs.
\<close>

inductive forgets :: "codec \<Rightarrow> (int \<Rightarrow> bool) \<Rightarrow> Database \<Rightarrow> Database \<Rightarrow> Database \<Rightarrow> bool" for C accepts rd wr where
  retention: "cleanup_retention C accepts fault wr now policy = Inr (report, wr') \<Longrightarrow> forgets C accepts rd wr wr'"
| removal: "hide_job C fault rd wr i expected False = Inr (job, wr') \<Longrightarrow> forgets C accepts rd wr wr'"

inductive keeps :: "codec \<Rightarrow> (int \<Rightarrow> bool) \<Rightarrow> Database \<Rightarrow> Database \<Rightarrow> Database \<Rightarrow> bool" for C accepts rd wr where
  run: "run_write C rd wr wr' \<Longrightarrow> keeps C accepts rd wr wr'"
| truncation: "record_log_truncation fault wr r token out err = Inr wr' \<Longrightarrow> keeps C accepts rd wr wr'"
| recovery: "apply_recovery C edge faults wr actions now = Inr wr' \<Longrightarrow> keeps C accepts rd wr wr'"
| creation: "create C fault wr job = Inr wr' \<Longrightarrow> keeps C accepts rd wr wr'"
| transition: "transition_job C fault wr i expected to recurring actor reason now = Inr (job, wr') \<Longrightarrow> keeps C accepts rd wr wr'"
| advance: "advance_recurring_job C accepts fault wr i expected now = Inr (job, wr') \<Longrightarrow> keeps C accepts rd wr wr'"
| rerun: "rerun_transaction C fault wr i expected now = Inr wr' \<Longrightarrow> keeps C accepts rd wr wr'"
| hiding: "hide_job C fault rd wr i expected True = Inr (job, wr') \<Longrightarrow> keeps C accepts rd wr wr'"

text \<open>The databases of a history, the newest first; a writer may have read any earlier one.\<close>

inductive store_history :: "codec \<Rightarrow> (int \<Rightarrow> bool) \<Rightarrow> Database list \<Rightarrow> bool" for C accepts where
  start: "store_history C accepts [db]"
| commit: "store_history C accepts (db # h) \<Longrightarrow> rd \<in> set (db # h) \<Longrightarrow> keeps C accepts rd db db' \<or> forgets C accepts rd db db' \<Longrightarrow>
    store_history C accepts (db' # db # h)"

lemma occurrences_update_runs:
  "(\<And>y. rr_job_id (g y) = rr_job_id y) \<Longrightarrow> (\<And>y. rr_scheduled_for (g y) = rr_scheduled_for y) \<Longrightarrow>
   occurrences (snd (update_runs P g db)) = occurrences db"
  by (simp add: occurrences_def update_runs_occurrences del: set_map)

lemma interrupt_run_occurrences: "interrupt_run C fault db run reason now = Inr db' \<Longrightarrow> occurrences db' = occurrences db"
  by (auto simp: interrupt_run_def result_simps Let_def case_prod_beta occurrences_update_runs split: option.splits if_splits)

lemma recovery_transition_runs: "recovery_transition_job C fault db i expected target now reason allowed = Inr db' \<Longrightarrow> db_runs db' = db_runs db"
  by (auto simp: recovery_transition_job_def result_simps Let_def insert_transition_def update_jobs_def split: if_splits)

lemma apply_action_occurrences: "apply_action C fault db action now = Inr db' \<Longrightarrow> occurrences db' = occurrences db"
  by (cases action)
    (auto simp: result_simps Let_def update_jobs_def occurrences_def split: if_splits
      dest!: interrupt_run_occurrences recovery_transition_runs)

lemma apply_actions_occurrences: "apply_actions C faults db actions now = Inr db' \<Longrightarrow> occurrences db' = occurrences db"
  by (induction actions arbitrary: db) (auto simp: result_simps dest!: apply_action_occurrences)

lemma keeps_occurrences:
  assumes "keeps C accepts rd wr wr'"
  shows "occurrences wr \<subseteq> occurrences wr'"
  using assms
proof cases
  case run
  then show ?thesis by (rule run_write_occurrences)
next
  case truncation
  then show ?thesis
    by (auto simp: record_log_truncation_def result_simps Let_def case_prod_beta occurrences_update_runs split: if_splits)
next
  case recovery
  then show ?thesis by (auto simp: apply_recovery_def result_simps dest!: apply_actions_occurrences)
next
  case creation
  then show ?thesis by (auto simp: create_eq_Inr occurrences_def)
next
  case (transition fault i expected to recurring actor reason now job)
  then show ?thesis
    by (auto simp: transition_job_def result_simps Let_def occurrences_def insert_transition_def update_jobs_def case_prod_beta split: if_splits)
next
  case advance
  then show ?thesis
    by (auto simp: advance_recurring_job_def result_simps Let_def occurrences_def insert_transition_def update_jobs_def case_prod_beta split: if_splits)
next
  case rerun
  then show ?thesis
    by (rule rerun_transaction_eq_Inr) (simp add: occurrences_def insert_transition_def update_jobs_def)
next
  case hiding
  then show ?thesis
    by (auto simp: hide_job_def result_simps Let_def occurrences_def update_jobs_def case_prod_beta split: if_splits)
qed

text \<open>What is forgotten has ended: the run, or its job.\<close>

definition ended_claim :: "Database \<Rightarrow> string \<times> string \<Rightarrow> bool" where
  "ended_claim db claim \<longleftrightarrow>
     (\<exists>row\<in>set (db_runs db). (rr_job_id row, rr_scheduled_for row) = claim \<and> (\<exists>s. RunState_is_terminal s \<and> rr_state row = encode_run_state s))
     \<or> (\<exists>row\<in>set (db_jobs db). jr_id row = fst claim \<and> (\<exists>s. JobState_is_terminal s \<and> jr_state row = encode_job_state s))"

lemma terminal_text:
  "t \<in> {''succeeded'', ''failed'', ''cancelled'', ''interrupted'', ''missed''} \<Longrightarrow> \<exists>s. JobState_is_terminal s \<and> t = encode_job_state s"
  by (auto simp: JobState_is_terminal_def intro: exI [of _ JobState.Succeeded] exI [of _ JobState.Failed] exI [of _ JobState.Cancelled]
      exI [of _ JobState.Interrupted] exI [of _ JobState.Missed])

lemma terminal_run_text:
  "t \<in> {''succeeded'', ''failed'', ''cancelled'', ''interrupted''} \<Longrightarrow> \<exists>s. RunState_is_terminal s \<and> t = encode_run_state s"
  by (auto simp: RunState_is_terminal_def intro: exI [of _ RunState.Succeeded] exI [of _ RunState.Failed] exI [of _ RunState.Cancelled]
      exI [of _ RunState.Interrupted])

lemma forgets_ended:
  assumes "forgets C accepts rd wr wr'" "claim \<in> occurrences wr" "claim \<notin> occurrences wr'"
  shows "ended_claim wr claim"
  using assms(1)
proof cases
  case (retention fault now policy report)
  obtain hc jc where runs: "db_runs wr' = filter (\<lambda>row. \<not> expired_run hc row
       \<and> rr_job_id row \<notin> jr_id ` {r \<in> set (db_jobs wr). expired_job jc r}) (db_runs wr)"
    by (rule cleanup_retention_eq_Inr [OF retention])
  obtain row where row: "row \<in> set (db_runs wr)" "(rr_job_id row, rr_scheduled_for row) = claim"
    using assms(2) by (auto simp: occurrences_def)
  then have "expired_run hc row \<or> rr_job_id row \<in> jr_id ` {r \<in> set (db_jobs wr). expired_job jc r}"
    using assms(3) unfolding occurrences_def runs by auto
  then consider "expired_run hc row" | r where "r \<in> set (db_jobs wr)" "expired_job jc r" "jr_id r = rr_job_id row"
    by auto
  then show ?thesis
  proof cases
    case 1
    then have "\<exists>s. RunState_is_terminal s \<and> rr_state row = encode_run_state s"
      by (intro terminal_run_text) (simp add: expired_run_def)
    with row show ?thesis by (auto simp: ended_claim_def)
  next
    case 2
    then have "\<exists>s. JobState_is_terminal s \<and> jr_state r = encode_job_state s"
      by (intro terminal_text) (simp add: expired_job_def)
    with row 2 show ?thesis by (auto simp: ended_claim_def)
  qed
next
  case (removal fault i expected job)
  obtain old where one: "fst (update_jobs (\<lambda>row. jr_id row = job_text i \<and> jr_revision row = old \<and> \<not> jr_hidden row \<and> terminal_job_row row)
        (\<lambda>row. row\<lparr>jr_hidden := True\<rparr>) wr) = 1"
    and runs: "db_runs wr' = filter (\<lambda>row. rr_job_id row \<noteq> job_text i) (db_runs wr)"
    using removal by (auto simp: hide_job_def result_simps Let_def update_jobs_def split: if_splits)
  then have "filter (\<lambda>row. jr_id row = job_text i \<and> jr_revision row = old \<and> \<not> jr_hidden row \<and> terminal_job_row row) (db_jobs wr) \<noteq> []"
    by (auto simp: update_jobs_def)
  then obtain r where r: "r \<in> set (db_jobs wr)" "jr_id r = job_text i" "terminal_job_row r"
    unfolding filter_empty_conv by blast
  then have "\<exists>s. JobState_is_terminal s \<and> jr_state r = encode_job_state s"
    by (intro terminal_text) (simp add: terminal_job_row_def)
  moreover have "fst claim = job_text i" using assms(2,3) by (auto simp: occurrences_def runs)
  ultimately show ?thesis using r by (auto simp: ended_claim_def)
qed

lemma store_history_claim:
  assumes "store_history C accepts hist" "old \<in> set hist" "claim \<in> occurrences old"
  shows "claim \<in> occurrences (hd hist)
    \<or> (\<exists>newer d' d older rd. hist = newer @ d' # d # older \<and> rd \<in> set (d # older) \<and> forgets C accepts rd d d'
         \<and> claim \<in> occurrences d \<and> claim \<notin> occurrences d')"
  using assms(1,2)
proof (induction rule: store_history.induct)
  case (commit db h rd db')
  show ?case
  proof (cases "claim \<in> occurrences db'")
    case False
    then have "old \<in> set (db # h)" using commit.prems assms(3) by auto
    from commit.IH [OF this] show ?thesis
    proof (elim disjE exE conjE)
      assume "claim \<in> occurrences (hd (db # h))"
      moreover from this False have "forgets C accepts rd db db'"
        using commit.hyps(3) keeps_occurrences by fastforce
      ultimately show ?thesis
        using False commit.hyps(2) by (intro disjI2 exI [of _ "[]"] exI [of _ db'] exI [of _ db] exI [of _ h] exI [of _ rd]) auto
    next
      fix newer d' d older rd'
      assume "db # h = newer @ d' # d # older" "rd' \<in> set (d # older)" "forgets C accepts rd' d d'"
        "claim \<in> occurrences d" "claim \<notin> occurrences d'"
      then show ?thesis by (intro disjI2 exI [of _ "db' # newer"]) auto
    qed
  qed simp
qed (use assms(3) in auto)

text \<open>
  C5. Each occurrence of a job is claimed at most once.  Take any history of the store's transactions,
  by the supervisor, the monitors and the commands, each acting on data that may be stale.  Once a
  claim for a job and a time has been committed, every later claim for the same job and time is
  refused, unless a retention or a removal of the job without its history has deleted the claimed run
  in between; and that only happens to a run that has ended or belongs to a job that has ended.
\<close>

theorem occurrence_claimed_once:
  assumes "store_history C accepts (db # h)" "old' \<in> set (db # h)"
    and "claim_run C fault old fresh random job scheduled created = Inr (run, old')"
    and "fault' 0 = None" "fault' 1 = None"
  shows "claim_run C fault' db fresh' random' job scheduled created' = Inl DuplicateClaim
    \<or> (\<exists>newer d' d older rd. db # h = newer @ d' # d # older \<and> rd \<in> set (d # older) \<and> forgets C accepts rd d d'
         \<and> (job_text job, show_ts C scheduled) \<in> occurrences d - occurrences d' \<and> ended_claim d (job_text job, show_ts C scheduled))"
proof -
  have "(job_text job, show_ts C scheduled) \<in> occurrences old'"
    using claim_run_appends [OF assms(3)] by (auto simp: occurrences_def)
  from store_history_claim [OF assms(1,2) this] show ?thesis
  proof (elim disjE exE conjE)
    assume "(job_text job, show_ts C scheduled) \<in> occurrences (hd (db # h))"
    then show ?thesis using claimed_occurrence_refused [OF _ assms(4,5)] by simp
  next
    fix newer d' d older rd
    assume w: "db # h = newer @ d' # d # older" "rd \<in> set (d # older)" "forgets C accepts rd d d'"
      "(job_text job, show_ts C scheduled) \<in> occurrences d" "(job_text job, show_ts C scheduled) \<notin> occurrences d'"
    with forgets_ended [OF w(3-5)] show ?thesis by blast
  qed
qed

theorem occurrence_claimed_once_witness:
  "\<exists>db run db'. create sample_codec (\<lambda>_. None) empty_db sample_job = Inr db
     \<and> claim_run sample_codec (\<lambda>_. None) db (RunId 2) (Inr sample_token) (job_id sample_job) 7 7 = Inr (run, db')
     \<and> claim_run sample_codec (\<lambda>_. None) db' (RunId 3) (Inr (replicate 32 1)) (job_id sample_job) 7 8 = Inl DuplicateClaim"
proof -
  obtain db where db: "create sample_codec (\<lambda>_. None) empty_db sample_job = Inr db"
    using sample_job_created by blast
  then obtain run db' where c: "claim_run sample_codec (\<lambda>_. None) db (RunId 2) (Inr sample_token)
      (job_id sample_job) 7 7 = Inr (run, db')"
    using sample_claim(1) by blast
  have "store_history sample_codec (\<lambda>_. True) [db', db]"
    by (rule store_history.commit [OF store_history.start, of db]) (auto intro: keeps.run run_write.claim [OF c])
  moreover have "occurrences db = {}" using db by (auto simp: create_eq_Inr occurrences_def empty_db_def)
  ultimately have "claim_run sample_codec (\<lambda>_. None) db' (RunId 3) (Inr (replicate 32 1)) (job_id sample_job) 7 8 = Inl DuplicateClaim"
    using occurrence_claimed_once [where db = db' and h = "[db]" and C = sample_codec and accepts = "\<lambda>_. True", OF _ _ c, of "\<lambda>_. None"]
    by (auto simp: Cons_eq_append_conv)
  with db c show ?thesis by blast
qed

section \<open>From the command line to the event loop\<close>

text \<open>
  The acknowledger of the scheduling command: \<open>envs db n\<close> is the \<open>n\<close>-th attempt to reach the
  supervisor when the job is stored in \<open>db\<close>.
\<close>

definition session_acknowledger ::
  "message_json \<Rightarrow> (Database \<Rightarrow> nat \<Rightarrow> ack_env) \<Rightarrow> (string, unit) result \<Rightarrow> (nat \<Rightarrow> nat) \<Rightarrow> Database \<Rightarrow> JobId \<Rightarrow> Revision \<Rightarrow>
     (SupervisorAckError, unit) result" where
  "session_acknowledger mj envs start now db i revision =
     (case session_acknowledge \<lparr> sa_attempt = (\<lambda>n. socket_acknowledge mj (envs db n) i revision), sa_start = start, sa_now = now \<rparr> of
        Some res \<Rightarrow> res
      | None \<Rightarrow> Inl (SupervisorAckError.Unavailable ''still waiting''))"

lemma session_acknowledger_attempt:
  assumes "session_acknowledger mj envs start now db i revision = Inr ()"
  shows "\<exists>n. socket_acknowledge mj (envs db n) i revision = Inr ()"
proof -
  let ?env = "\<lparr> sa_attempt = (\<lambda>n. socket_acknowledge mj (envs db n) i revision), sa_start = start, sa_now = now \<rparr>"
  have "session_acknowledge ?env = Some (Inr ())"
    using assms by (auto simp: session_acknowledger_def split: option.splits)
  then show ?thesis
    by (auto simp: session_acknowledge_def split: if_splits sum.splits)
qed

text \<open>
  C3. Exit code 0 means that the job is stored and its deadline sent.  If the scheduling command is not a
  dry run, ends with exit code 0 and was answered by supervisors that read the database it wrote, then
  the job it reports is stored and waits to be loaded, and some supervisor, on the very bytes the
  command sent, has sent exactly one event to the channel of its event loop: the job with its deadline.
  The deadline is as far in the future on the elapsed clock this supervisor read as the stored due time
  is on the wall clock it read together with it, and now if that time is past.  Whether the loop still
  reads its channel then is the subject of \<open>Session\<close>.
\<close>

theorem submitted_job_deadline_sent:
  assumes cmd: "schedule C J Z accepts env (session_acknowledger mj envs start now) args db = (res, db')"
    and "run_schedule_exit res = Some 0" "\<not> o_dry_run (a_options args)"
    and law: "codec_ok C" "named_tzdb Z" "json_ok mj"
    and peers: "\<And>n bytes. ae_peer (envs db' n) bytes = fst (serve_connection C mj (wakes n) (receiving n) (reached n) bytes)"
    and reads: "\<And>n k. we_db (wakes n k) = db'"
  shows "\<exists>outcome job n sent k wall elapsed deadline. res = Inr outcome \<and> job = SubmissionOutcome_job outcome
    \<and> load_job C db' (se_fresh env) = Inr (Some job) \<and> job_state job = JobState.Scheduled
    \<and> write_frame (mj_to mj) (ae_fault (envs db' n)) (Wake 1 (se_fresh env) (Revision 1)) = Inr sent
    \<and> snd (serve_connection C mj (wakes n) (receiving n) (reached n) sent) = [SupervisorEvent.Schedule (se_fresh env) deadline]
    \<and> we_wall (wakes n k) = Inr wall \<and> we_elapsed (wakes n k) = Inr elapsed
    \<and> unat (as_nanos deadline) = unat (as_nanos elapsed) + nat (job_next_due job - wall)"
proof -
  obtain outcome where o: "res = Inr outcome"
    using assms(2) schedule_exit_error by (cases res) auto
  let ?job = "SubmissionOutcome_job outcome"
  note e = schedule_effect [OF cmd law(1,2)]
  have job: "load_job C db' (se_fresh env) = Inr (Some ?job)" "job_state ?job = JobState.Scheduled"
    and ack: "session_acknowledger mj envs start now db' (se_fresh env) (Revision 1) = Inr ()"
    using e o assms(2,3) by auto
  obtain n where n: "socket_acknowledge mj (envs db' n) (se_fresh env) (Revision 1) = Inr ()"
    using session_acknowledger_attempt [OF ack] by blast
  then obtain sent where sent: "write_frame (mj_to mj) (ae_fault (envs db' n)) (Wake 1 (se_fresh env) (Revision 1)) = Inr sent"
    by (auto simp: socket_acknowledge_send send_cases)
  have live: "load_wake_with_retry C (wakes n) (se_fresh env) \<noteq> Inr WakeDisposition.AlreadyTerminal"
  proof
    assume "load_wake_with_retry C (wakes n) (se_fresh env) = Inr WakeDisposition.AlreadyTerminal"
    then obtain k where "load_wake C (wakes n k) (se_fresh env) = Inr WakeDisposition.AlreadyTerminal"
      using load_wake_attempts_Inr by (fastforce simp: load_wake_with_retry_def)
    then show False
      using job reads by (auto simp: load_wake_def result_simps JobState_is_terminal_def split: if_splits)
  qed
  obtain k job wall elapsed deadline where d: "load_job C (we_db (wakes n k)) (se_fresh env) = Inr (Some job)"
    "we_wall (wakes n k) = Inr wall" "we_elapsed (wakes n k) = Inr elapsed"
    "reconcile_wall_schedule wall elapsed (job_next_due job) = Inr deadline"
    "snd (serve_connection C mj (wakes n) (receiving n) (reached n) sent) = [SupervisorEvent.Schedule (se_fresh env) deadline]"
    using acknowledged_wake_effect [OF law(3), of "envs db' n" C "wakes n" "receiving n" "reached n", OF peers] n sent live by blast
  have "job = ?job" using d(1) job(1) reads by simp
  with d o job sent show ?thesis
    unfolding reconcile_wall_schedule_eq_Inr by blast
qed

theorem submitted_job_deadline_sent_witness:
  "\<exists>db' n sent deadline. schedule sample_codec sample_civil sample_zones (\<lambda>_. True) sample_submit
       (session_acknowledger sample_mj (\<lambda>db n. sample_ack (cn_envs (sample_wake db))) (Inr ()) id) sample_args empty_db
       = (Inr (Supervised sample_job), db')
     \<and> snd (serve_connection sample_codec sample_mj (cn_envs (sample_wake db')) True 5 sent) = [SupervisorEvent.Schedule (JobId 1) deadline]"
proof -
  let ?ack = "session_acknowledger sample_mj (\<lambda>db n. sample_ack (cn_envs (sample_wake db))) (Inr ()) id"
  obtain db' where c: "create sample_codec (\<lambda>_. None) empty_db sample_job = Inr db'"
    using sample_job_created by blast
  have j: "job_id sample_job = JobId 1" by (simp add: sample_job_def)
  have "?ack db' (JobId 1) (Revision 1) = Inr ()"
    using sample_exchange(2) [OF c] by (simp add: session_acknowledger_def session_acknowledge_def j)
  then have s: "schedule sample_codec sample_civil sample_zones (\<lambda>_. True) sample_submit ?ack sample_args empty_db
      = (Inr (Supervised sample_job), db')"
    by (rule sample_schedules [OF c])
  have "run_schedule_exit (Inr (Supervised sample_job)) = Some 0" "\<not> o_dry_run (a_options sample_args)" "se_fresh sample_submit = JobId 1"
    by (simp_all add: run_schedule_exit_def sample_args_def sample_options_def sample_submit_def)
  with submitted_job_deadline_sent [OF s _ _ sample_codec_ok sample_tzdb sample_mj_ok,
      of "\<lambda>_. cn_envs (sample_wake db')" "\<lambda>_. True" "\<lambda>_. 5"] s
  show ?thesis by (auto simp: sample_ack_def sample_wake_def)
qed

end
